(* ===== verification/Prelude.thy ===== *)
theory Prelude imports Main "HOL-Library.Word" "HOL-Library.AList" begin

text \<open>
  Shared vocabulary of the development: bytes, Python's errors as values, results of
  fallible calls, insertion-ordered dictionaries, and the generic facts on lists that the
  component theories use.

  A Python \<open>str\<close> is modelled by the characters of its UTF-8 encoding (\<open>string\<close> is a list
  of 8-bit characters), so that equality, concatenation, prefix tests and the code-point
  order of the source are the same operations on the model.  A \<open>bytes\<close> object is a list
  of 8-bit words.
\<close>

section \<open>Bytes and results\<close>

type_synonym bytes = "8 word list"

text \<open>The exception classes the source raises or catches; messages are not modelled.\<close>

datatype py_exn =
    IndexError
  | KeyError
  | TypeError
  | ValueError
  | AttributeError
  | OverflowError
  | RecursionError
  | RuntimeError
  | OSError
  | DecimalException
  | ReceiptVerificationError
  | CanonicalizationError
  | WitnessError
  | AuthorizationError

type_synonym 'a result = "py_exn + 'a"

fun sbind :: "'e + 'a \<Rightarrow> ('a \<Rightarrow> 'e + 'b) \<Rightarrow> 'e + 'b" where
  "sbind (Inl e) f = Inl e"
| "sbind (Inr a) f = f a"

lemma sbind_Inr_conv: "sbind r f = Inr b \<longleftrightarrow> (\<exists>a. r = Inr a \<and> f a = Inr b)"
  by (cases r) auto

lemma sbind_Inl_conv: "sbind r f = Inl e \<longleftrightarrow> r = Inl e \<or> (\<exists>a. r = Inr a \<and> f a = Inl e)"
  by (cases r) auto

lemma sbind_cong [fundef_cong]:
  "r = r' \<Longrightarrow> (\<And>a. r' = Inr a \<Longrightarrow> f a = g a) \<Longrightarrow> sbind r f = sbind r' g"
  by (cases r') auto

text \<open>A comprehension whose body may raise.\<close>

fun map_result :: "('a \<Rightarrow> 'b result) \<Rightarrow> 'a list \<Rightarrow> 'b list result" where
  "map_result f [] = Inr []"
| "map_result f (x # xs) = sbind (f x) (\<lambda>y. sbind (map_result f xs) (\<lambda>ys. Inr (y # ys)))"

lemma map_result_append:
  "map_result f (xs @ ys) = sbind (map_result f xs) (\<lambda>us. sbind (map_result f ys) (\<lambda>vs. Inr (us @ vs)))"
proof (induction xs)
  case Nil
  show ?case by (cases "map_result f ys") simp_all
next
  case (Cons x xs)
  then show ?case by (cases "f x"; cases "map_result f xs"; cases "map_result f ys") simp_all
qed

section \<open>Optional values\<close>

definition or_else :: "'a option \<Rightarrow> 'a \<Rightarrow> 'a" where
  "or_else x dflt = (case x of None \<Rightarrow> dflt | Some y \<Rightarrow> y)"

text \<open>\<open>s or dflt\<close>.\<close>

definition str_or :: "string option \<Rightarrow> string \<Rightarrow> string" where
  "str_or s dflt = (case s of None \<Rightarrow> dflt | Some t \<Rightarrow> if t = [] then dflt else t)"

text \<open>\<open>s.rstrip("/")\<close>.\<close>

definition strip_slashes :: "string \<Rightarrow> string" where
  "strip_slashes s = rev (dropWhile (\<lambda>c. c = CHR ''/'') (rev s))"

section \<open>Generic facts\<close>

named_theorems list_facts \<open>facts on take, drop and append shared by the components\<close>

lemma append_eq_append_length:
  "a @ b = c @ d \<Longrightarrow> length b = length d \<Longrightarrow> a = c \<and> b = d"
  by simp

lemma append_eq_append_length_left:
  "a @ b = c @ d \<Longrightarrow> length a = length c \<Longrightarrow> a = c \<and> b = d"
  by simp

lemma snoc_cases_length:
  "length ps = Suc n \<Longrightarrow> \<exists>qs q. ps = qs @ [q] \<and> length qs = n"
  by (cases ps rule: rev_cases) auto

end
