(* ===== verification/Merkle.thy ===== *)
theory Merkle imports Sha256 "HOL-Library.While_Combinator" begin

text \<open>
  \<open>src/src/openwright/merkle.py\<close>: RFC 6962 tree heads, the recursive proof generators, the
  iterative RFC 9162 verifiers, and verification across shards.  Sizes and indices are
  Python integers, so the verifiers take any \<open>int\<close>.  Leaves handed to these functions are
  already leaf hashes.
\<close>

unbundle bit_operations_syntax

section \<open>Hashing with domain separation\<close>

definition leaf_prefix :: bytes where
  "leaf_prefix = [0x00]"

definition node_prefix :: bytes where
  "node_prefix = [0x01]"

definition leaf_hash :: "bytes \<Rightarrow> bytes" where
  "leaf_hash data = sha256 (leaf_prefix @ data)"

definition node_hash :: "bytes \<Rightarrow> bytes \<Rightarrow> bytes" where
  "node_hash l r = sha256 (node_prefix @ l @ r)"

definition empty_root :: bytes where
  "empty_root = sha256 []"

section \<open>Tree heads and proof generation\<close>

definition largest_pow2_lt :: "nat \<Rightarrow> nat" where
  "largest_pow2_lt n = while (\<lambda>k. k * 2 < n) (\<lambda>k. k * 2) 1"

lemma pow2_loop_exit:
  assumes "2 \<le> n"
  shows "\<exists>d. while (\<lambda>k. k * 2 < n) (\<lambda>k. k * 2) 1 = 2 ^ d
    \<and> (2::nat) ^ d < n \<and> n \<le> 2 * 2 ^ d"
proof (rule while_rule [where P = "\<lambda>k. k < n \<and> (\<exists>d. k = 2 ^ d)" and
      r = "measure (\<lambda>k. n - k)"])
  show "1 < n \<and> (\<exists>d. 1 = (2::nat) ^ d)"
    using assms by (auto intro: exI [of _ 0])
next
  fix k :: nat
  assume "k < n \<and> (\<exists>d. k = 2 ^ d)" and "k * 2 < n"
  then show "k * 2 < n \<and> (\<exists>d. k * 2 = 2 ^ d)"
    by (metis power_Suc2)
next
  fix k :: nat
  assume "k < n \<and> (\<exists>d. k = 2 ^ d)" and "\<not> k * 2 < n"
  then show "\<exists>d. k = 2 ^ d \<and> 2 ^ d < n \<and> n \<le> 2 * 2 ^ d"
    by auto
next
  fix k :: nat
  assume "k < n \<and> (\<exists>d. k = 2 ^ d)" and "k * 2 < n"
  then have "0 < k" by auto
  with \<open>k * 2 < n\<close> show "(k * 2, k) \<in> measure (\<lambda>k. n - k)" by simp
qed simp

lemma largest_pow2_lt_cases:
  assumes "2 \<le> n"
  obtains d where "largest_pow2_lt n = 2 ^ d" "2 ^ d < n" "n \<le> 2 * 2 ^ d"
  using pow2_loop_exit [OF assms] unfolding largest_pow2_lt_def by blast

lemma largest_pow2_lt_bounds:
  assumes "2 \<le> n"
  shows "0 < largest_pow2_lt n" and "largest_pow2_lt n < n" and "n \<le> 2 * largest_pow2_lt n"
  using largest_pow2_lt_cases [OF assms] by (metis zero_less_numeral zero_less_power)+

lemma largest_pow2_lt_unique:
  assumes "2 ^ d < n" and "n \<le> 2 * 2 ^ d"
  shows "largest_pow2_lt n = 2 ^ d"
proof -
  have "1 \<le> (2::nat) ^ d" by simp
  with assms(1) have "2 \<le> n" by linarith
  then obtain e where e: "largest_pow2_lt n = 2 ^ e" "2 ^ e < n" "n \<le> 2 * 2 ^ e"
    by (rule largest_pow2_lt_cases)
  have "(2::nat) ^ d < 2 ^ Suc e" and "(2::nat) ^ e < 2 ^ Suc d"
    using assms e(2,3) by simp_all
  then have "d < Suc e" and "e < Suc d"
    by (meson one_less_numeral_iff power_less_imp_less_exp semiring_norm(76))+
  with e(1) show ?thesis by simp
qed

lemma halves_shorter:
  assumes "n \<noteq> 0" "n \<noteq> Suc 0"
  shows "largest_pow2_lt n < n" and "n - largest_pow2_lt n < n"
  using largest_pow2_lt_bounds [of n] assms by linarith+

function tree_hash :: "bytes list \<Rightarrow> bytes" where
  "tree_hash leaves =
     (let n = length leaves in
      if n = 0 then empty_root
      else if n = 1 then leaves ! 0
      else let k = largest_pow2_lt n
           in node_hash (tree_hash (take k leaves)) (tree_hash (drop k leaves)))"
  by pat_completeness auto
termination
  by (relation "measure length") (auto simp: halves_shorter)

lemma halves_shorter_int:
  assumes "m < int n" "n \<noteq> Suc 0"
  shows "0 \<le> m \<Longrightarrow> largest_pow2_lt n < n"
    and "\<not> m < int (largest_pow2_lt n) \<Longrightarrow> n - largest_pow2_lt n < n"
  using halves_shorter [of n] assms by linarith+

lemma halves_shorter_between:
  assumes "m \<noteq> int n" "\<not> int n < m"
  shows "\<not> m \<le> 0 \<Longrightarrow> largest_pow2_lt n < n"
    and "\<not> m \<le> int (largest_pow2_lt n) \<Longrightarrow> n - largest_pow2_lt n < n"
proof -
  show "largest_pow2_lt n < n" if "\<not> m \<le> 0"
    using halves_shorter(1) [of n] assms that by linarith
  show "n - largest_pow2_lt n < n" if "\<not> m \<le> int (largest_pow2_lt n)"
  proof -
    have "n \<noteq> 0" "n \<noteq> 1 \<or> largest_pow2_lt n = 0" using assms that by linarith+
    moreover have "0 < largest_pow2_lt n"
      by (cases "2 \<le> n") (use largest_pow2_lt_bounds(1) in \<open>auto simp: largest_pow2_lt_def while_unfold\<close>)
    ultimately show ?thesis using halves_shorter(2) [of n] by fastforce
  qed
qed

function inclusion_proof :: "bytes list \<Rightarrow> int \<Rightarrow> bytes list result" where
  "inclusion_proof leaves m =
     (let n = length leaves in
      if \<not> (0 \<le> m \<and> m < int n) then Inl IndexError
      else if n = 1 then Inr []
      else let k = largest_pow2_lt n in
        if m < int k
        then sbind (inclusion_proof (take k leaves) m) (\<lambda>p. Inr (p @ [tree_hash (drop k leaves)]))
        else sbind (inclusion_proof (drop k leaves) (m - int k))
               (\<lambda>p. Inr (p @ [tree_hash (take k leaves)])))"
  by pat_completeness auto
termination
  by (relation "measure (\<lambda>(leaves, m). length leaves)")
     (auto simp: halves_shorter_int min_less_iff_disj)

text \<open>
  Outside \<open>0 < m \<le> n\<close> the Python \<open>_subproof\<close> recurses on the same arguments for ever
  and ends in a \<open>RecursionError\<close>; \<open>consistency_proof\<close> never calls it there.
\<close>

function subproof :: "int \<Rightarrow> bytes list \<Rightarrow> bool \<Rightarrow> bytes list result" where
  "subproof m leaves b =
     (let n = length leaves in
      if m = int n then Inr (if b then [] else [tree_hash leaves])
      else if m \<le> 0 \<or> int n < m then Inl RecursionError
      else let k = largest_pow2_lt n in
        if m \<le> int k
        then sbind (subproof m (take k leaves) b) (\<lambda>p. Inr (p @ [tree_hash (drop k leaves)]))
        else sbind (subproof (m - int k) (drop k leaves) False)
               (\<lambda>p. Inr (p @ [tree_hash (take k leaves)])))"
  by pat_completeness auto
termination
  by (relation "measure (\<lambda>(m, leaves, b). length leaves)")
     (auto simp: halves_shorter_between min_less_iff_disj)

definition consistency_proof :: "bytes list \<Rightarrow> int \<Rightarrow> bytes list result" where
  "consistency_proof leaves m =
     (let n = length leaves in
      if \<not> (0 < m \<and> m \<le> int n) then Inl ValueError
      else if m = int n then Inr []
      else subproof m leaves True)"

section \<open>Iterative verification\<close>

text \<open>The inner loop of both verifiers: skip the levels at which the node has no sibling.\<close>

definition align :: "int \<times> int \<Rightarrow> int \<times> int" where
  "align = while (\<lambda>(fn, sn). fn AND 1 = 0 \<and> fn \<noteq> 0) (\<lambda>(fn, sn). (drop_bit 1 fn, drop_bit 1 sn))"

fun inclusion_loop :: "int \<Rightarrow> int \<Rightarrow> bytes \<Rightarrow> bytes list \<Rightarrow> (int \<times> bytes) option" where
  "inclusion_loop fn sn r [] = Some (sn, r)"
| "inclusion_loop fn sn r (p # ps) =
     (if sn = 0 then None
      else if fn AND 1 = 1 \<or> fn = sn
      then let (fn', sn') = (if fn AND 1 = 0 then align (fn, sn) else (fn, sn))
           in inclusion_loop (drop_bit 1 fn') (drop_bit 1 sn') (node_hash p r) ps
      else inclusion_loop (drop_bit 1 fn) (drop_bit 1 sn) (node_hash r p) ps)"

definition verify_inclusion :: "int \<Rightarrow> int \<Rightarrow> bytes \<Rightarrow> bytes list \<Rightarrow> bytes \<Rightarrow> bool" where
  "verify_inclusion leaf_index tree_size leaf proof root =
     (if tree_size \<le> leaf_index \<or> leaf_index < 0 then False
      else case inclusion_loop leaf_index (tree_size - 1) leaf proof of
             None \<Rightarrow> False
           | Some (sn, r) \<Rightarrow> sn = 0 \<and> r = root)"

fun consistency_loop ::
  "int \<Rightarrow> int \<Rightarrow> bytes \<Rightarrow> bytes \<Rightarrow> bytes list \<Rightarrow> (int \<times> bytes \<times> bytes) option"
where
  "consistency_loop fn sn fr sr [] = Some (sn, fr, sr)"
| "consistency_loop fn sn fr sr (c # cs) =
     (if sn = 0 then None
      else if fn AND 1 = 1 \<or> fn = sn
      then let (fn', sn') = (if fn AND 1 = 0 then align (fn, sn) else (fn, sn))
           in consistency_loop (drop_bit 1 fn') (drop_bit 1 sn') (node_hash c fr) (node_hash c sr) cs
      else consistency_loop (drop_bit 1 fn) (drop_bit 1 sn) fr (node_hash sr c) cs)"

definition strip_ones :: "int \<times> int \<Rightarrow> int \<times> int" where
  "strip_ones = while (\<lambda>(fn, sn). fn AND 1 \<noteq> 0) (\<lambda>(fn, sn). (drop_bit 1 fn, drop_bit 1 sn))"

definition verify_consistency :: "int \<Rightarrow> int \<Rightarrow> bytes \<Rightarrow> bytes \<Rightarrow> bytes list \<Rightarrow> bool" where
  "verify_consistency first_size second_size first_root second_root proof =
     (if second_size < first_size then False
      else if first_size = second_size then proof = [] \<and> first_root = second_root
      else if first_size = 0 then proof = []
      else
        case (if first_size AND (first_size - 1) = 0 then [first_root] @ proof else proof) of
          [] \<Rightarrow> False
        | p # ps \<Rightarrow>
            (let (fn, sn) = strip_ones (first_size - 1, second_size - 1) in
             case consistency_loop fn sn p p ps of
               None \<Rightarrow> False
             | Some (sn', fr, sr) \<Rightarrow> sn' = 0 \<and> fr = first_root \<and> sr = second_root))"

section \<open>Shards\<close>

definition shard_super_root :: "bytes list \<Rightarrow> bytes" where
  "shard_super_root shard_roots = tree_hash (map leaf_hash shard_roots)"

definition shard_super_proof :: "bytes list \<Rightarrow> int \<Rightarrow> bytes list result" where
  "shard_super_proof shard_roots shard_index =
     inclusion_proof (map leaf_hash shard_roots) shard_index"

definition verify_sharded_inclusion ::
  "bytes \<Rightarrow> int \<Rightarrow> int \<Rightarrow> bytes list \<Rightarrow> bytes \<Rightarrow> int \<Rightarrow> int \<Rightarrow> bytes list \<Rightarrow> bytes \<Rightarrow> bool"
where
  "verify_sharded_inclusion leaf leaf_index shard_size shard_proof shard_root
     shard_index num_shards super_proof super_root =
     (if \<not> verify_inclusion leaf_index shard_size leaf shard_proof shard_root then False
      else verify_inclusion shard_index num_shards (leaf_hash shard_root) super_proof super_root)"

section \<open>Tree heads: equations and induction\<close>

lemma length_leaf_hash [simp]: "length (leaf_hash d) = 32"
  by (simp add: leaf_hash_def)

lemma length_node_hash [simp]: "length (node_hash l r) = 32"
  by (simp add: node_hash_def)

declare tree_hash.simps [simp del] inclusion_proof.simps [simp del] subproof.simps [simp del]

lemma tree_hash_Nil [simp]: "tree_hash [] = empty_root"
  by (simp add: tree_hash.simps)

lemma tree_hash_single [simp]: "tree_hash [h] = h"
  by (simp add: tree_hash.simps)

lemma split_point:
  assumes "length xs = 2 ^ d" "ys \<noteq> []" "length ys \<le> 2 ^ d"
  shows "largest_pow2_lt (length xs + length ys) = 2 ^ d"
    and "length xs + length ys \<noteq> 0" and "length xs + length ys \<noteq> Suc 0"
proof -
  have "0 < length ys" using assms(2) by simp
  then show "largest_pow2_lt (length xs + length ys) = 2 ^ d"
    using assms by (intro largest_pow2_lt_unique) simp_all
  have "0 < length xs" using assms(1) by simp
  with \<open>0 < length ys\<close>
  show "length xs + length ys \<noteq> 0" and "length xs + length ys \<noteq> Suc 0" by linarith+
qed

lemma tree_hash_append:
  assumes "length xs = 2 ^ d" "ys \<noteq> []" "length ys \<le> 2 ^ d"
  shows "tree_hash (xs @ ys) = node_hash (tree_hash xs) (tree_hash ys)"
  using split_point [OF assms] assms
  by (subst tree_hash.simps) (simp add: Let_def)

text \<open>Every list of leaves is empty, a leaf, or a perfect left part and a right part.\<close>

lemma tree_induct [case_names Nil Leaf Node]:
  assumes "P []" and "\<And>h. P [h]"
    and node: "\<And>d xs ys. length xs = 2 ^ d \<Longrightarrow> ys \<noteq> [] \<Longrightarrow> length ys \<le> 2 ^ d
      \<Longrightarrow> P xs \<Longrightarrow> P ys \<Longrightarrow> P (xs @ ys)"
  shows "P leaves"
proof (induction leaves rule: length_induct)
  case (1 leaves)
  show ?case
  proof (cases "2 \<le> length leaves")
    case True
    then obtain d where d: "2 ^ d < length leaves" "length leaves \<le> 2 * 2 ^ d"
      by (rule largest_pow2_lt_cases)
    have "P (take (2 ^ d) leaves @ drop (2 ^ d) leaves)"
    proof (rule node)
      show "P (take (2 ^ d) leaves)" "P (drop (2 ^ d) leaves)" using 1 d by simp_all
      show "length (take (2 ^ d) leaves) = 2 ^ d" "drop (2 ^ d) leaves \<noteq> []"
        using d by simp_all
      show "length (drop (2 ^ d) leaves) \<le> 2 ^ d"
        using d(2) unfolding length_drop by linarith
    qed
    then show ?thesis by simp
  next
    case False
    then consider "leaves = []" | h where "leaves = [h]"
      by (cases leaves rule: list.exhaust; cases "tl leaves") auto
    then show ?thesis using assms(1,2) by cases auto
  qed
qed

lemma length_tree_hash:
  assumes "\<And>h. h \<in> set leaves \<Longrightarrow> length h = 32"
  shows "length (tree_hash leaves) = 32"
  using assms
  by (induction leaves rule: tree_induct) (auto simp: tree_hash_append empty_root_def)

end
