(* ===== verification/Merkle_Paths.thy ===== *)
theory Merkle_Paths imports Merkle begin

text \<open>
  What the iterative verifiers of \<open>Merkle\<close> compute, stated without their bit arithmetic: the
  sequence of sides a path passes (\<open>path_dirs\<close>), and the folds of a proof along it.  The two
  append lemmas on \<open>path_dirs\<close> relate the bottom-up loops to the top-down split of the tree;
  the correctness of generators and verifiers rests on them.
\<close>

unbundle bit_operations_syntax

section \<open>Bits of the loop variables\<close>

named_theorems bit_loop \<open>the loops' bit tests as parity and halving\<close>

lemma and_1_int [bit_loop]:
  "(int n AND 1 = 1) = odd n" "(int n AND 1 = 0) = even n"
  by (simp_all add: and_one_eq odd_iff_mod_2_eq_one even_iff_mod_2_eq_zero) presburger+

lemma drop_bit_1_int [bit_loop]: "drop_bit (Suc 0) (int n) = int (n div 2)"
  by (simp add: drop_bit_Suc zdiv_int)

section \<open>The sides of a path\<close>

text \<open>\<open>True\<close>: the sibling is on the left; \<open>False\<close>: on the right.\<close>

function path_dirs :: "nat \<Rightarrow> nat \<Rightarrow> bool list" where
  "path_dirs fn sn =
     (if sn = 0 then []
      else if odd fn then True # path_dirs (fn div 2) (sn div 2)
      else if fn = sn then path_dirs (fn div 2) (sn div 2)
      else False # path_dirs (fn div 2) (sn div 2))"
  by pat_completeness auto
termination
  by (relation "measure (\<lambda>(fn, sn). sn)") auto

declare path_dirs.simps [simp del]

lemma path_dirs_0 [simp]: "path_dirs fn 0 = []"
  by (simp add: path_dirs.simps)

lemma all_ones:
  "odd ((2::nat) ^ Suc e - 1)" "((2::nat) ^ Suc e - 1) div 2 = 2 ^ e - 1" "(2::nat) ^ Suc e - 1 \<noteq> 0"
proof -
  obtain q where "(2::nat) ^ e = Suc q" by (metis gr0_conv_Suc zero_less_numeral zero_less_power)
  then show "odd ((2::nat) ^ Suc e - 1)" "((2::nat) ^ Suc e - 1) div 2 = 2 ^ e - 1"
    "(2::nat) ^ Suc e - 1 \<noteq> 0"
    by simp_all
qed

lemma path_dirs_left:
  "fn < 2 ^ e \<Longrightarrow> 2 ^ e \<le> sn \<Longrightarrow> sn < 2 ^ Suc e \<Longrightarrow>
    path_dirs fn sn = path_dirs fn (2 ^ e - 1) @ [False]"
proof (induction e arbitrary: fn sn)
  case 0
  then have "fn = 0" "sn = 1" by simp_all
  then show ?case by (simp add: path_dirs.simps)
next
  case (Suc e)
  have "path_dirs (fn div 2) (sn div 2) = path_dirs (fn div 2) (2 ^ e - 1) @ [False]"
    using Suc.prems by (intro Suc.IH) auto
  moreover have "fn \<noteq> sn" "sn \<noteq> 0" "even fn \<Longrightarrow> fn \<noteq> 2 ^ Suc e - 1"
    using Suc.prems all_ones(1) [of e] by auto
  ultimately show ?case
    using all_ones [of e] unfolding path_dirs.simps [of fn] by simp
qed

lemma path_dirs_right:
  "fn \<le> sn \<Longrightarrow> sn < 2 ^ e \<Longrightarrow>
    path_dirs (2 ^ e + fn) (2 ^ e + sn) = path_dirs fn sn @ [True]"
proof (induction e arbitrary: fn sn)
  case 0
  then show ?case by (simp add: path_dirs.simps)
next
  case (Suc e)
  have IH: "path_dirs (2 ^ e + fn div 2) (2 ^ e + sn div 2) = path_dirs (fn div 2) (sn div 2) @ [True]"
    using Suc.prems by (intro Suc.IH) auto
  have half: "(2 ^ Suc e + n) div 2 = 2 ^ e + n div 2" "2 ^ Suc e + n \<noteq> 0"
    "odd (2 ^ Suc e + n) = odd n" for n :: nat
    by simp_all
  have "path_dirs (2 ^ Suc e + fn) (2 ^ Suc e + sn) =
    (if odd fn then True # path_dirs (2 ^ e + fn div 2) (2 ^ e + sn div 2)
     else if fn = sn then path_dirs (2 ^ e + fn div 2) (2 ^ e + sn div 2)
     else False # path_dirs (2 ^ e + fn div 2) (2 ^ e + sn div 2))"
    by (subst path_dirs.simps) (simp only: half add_left_cancel if_False)
  also have "\<dots> = path_dirs fn sn @ [True]"
    using Suc.prems(1) unfolding IH path_dirs.simps [of fn sn] by (cases "sn = 0") simp_all
  finally show ?case .
qed

lemma path_dirs_Nil_iff [simp]: "path_dirs fn sn = [] \<longleftrightarrow> sn = 0"
proof (induction fn sn rule: path_dirs.induct)
  case (1 fn sn)
  show ?case
  proof (cases "sn \<noteq> 0 \<and> even fn \<and> fn = sn")
    case True
    then have "sn div 2 \<noteq> 0" by (auto elim: evenE)
    with True 1(2) show ?thesis by (subst path_dirs.simps) simp
  qed (auto simp: path_dirs.simps [of fn sn])
qed

lemma align_int:
  "n \<noteq> 0 \<Longrightarrow> \<exists>k. align (int n, int n) = (int k, int k)
    \<and> path_dirs n n = True # path_dirs (k div 2) (k div 2)"
proof (induction n rule: less_induct)
  case (less n)
  show ?case
  proof (cases "odd n")
    case True
    then have "align (int n, int n) = (int n, int n)"
      by (simp add: align_def while_unfold bit_loop)
    with True less.prems show ?thesis
      by (intro exI [of _ n]) (simp add: path_dirs.simps [of n])
  next
    case False
    then have "align (int n, int n) = align (int (n div 2), int (n div 2))"
      using less.prems unfolding align_def by (subst while_unfold) (simp add: bit_loop)
    moreover have "path_dirs n n = path_dirs (n div 2) (n div 2)"
      using False less.prems by (simp add: path_dirs.simps [of n])
    moreover have "n div 2 \<noteq> 0" "n div 2 < n" using False less.prems by (auto elim: evenE)
    ultimately show ?thesis using less.IH by metis
  qed
qed

section \<open>The loops as folds along the path\<close>

text \<open>The hashes a prover-supplied path leads to, and every byte string hashed on the way.\<close>

fun climb :: "bool list \<Rightarrow> bytes list \<Rightarrow> bytes \<Rightarrow> bytes" where
  "climb (d # ds) (p # ps) r = climb ds ps (if d then node_hash p r else node_hash r p)"
| "climb _ _ r = r"

text \<open>The old root of a consistency proof only grows where the path turns left.\<close>

fun climb_old :: "bool list \<Rightarrow> bytes list \<Rightarrow> bytes \<Rightarrow> bytes" where
  "climb_old (d # ds) (p # ps) r = climb_old ds ps (if d then node_hash p r else r)"
| "climb_old _ _ r = r"

lemma climb_Nil [simp]: "climb ds [] r = r"
  by (cases ds) simp_all

lemma climb_old_Nil [simp]: "climb_old ds [] r = r"
  by (cases ds) simp_all

lemma climb_snoc:
  "length ds = length ps \<Longrightarrow>
    climb (ds @ [d]) (ps @ [p]) r =
      (if d then node_hash p (climb ds ps r) else node_hash (climb ds ps r) p)"
  by (induction ds ps arbitrary: r rule: list_induct2) simp_all

lemma climb_old_snoc:
  "length ds = length ps \<Longrightarrow>
    climb_old (ds @ [d]) (ps @ [p]) r =
      (if d then node_hash p (climb_old ds ps r) else climb_old ds ps r)"
  by (induction ds ps arbitrary: r rule: list_induct2) simp_all

lemma length_climb: "length r = 32 \<Longrightarrow> length (climb ds ps r) = 32"
  by (induction ds ps r rule: climb.induct) simp_all

lemma length_climb_nonempty:
  "length ds = length ps \<Longrightarrow> ds \<noteq> [] \<Longrightarrow> length (climb ds ps r) = 32"
  by (cases ds; cases ps) (simp_all add: length_climb)

lemma inclusion_loop_climb:
  "fn \<le> sn \<Longrightarrow>
    inclusion_loop (int fn) (int sn) r ps = Some (0, x) \<longleftrightarrow>
      length ps = length (path_dirs fn sn) \<and> climb (path_dirs fn sn) ps r = x"
proof (induction ps arbitrary: fn sn r)
  case Nil
  show ?case by (cases "sn = 0") auto
next
  case (Cons p ps)
  consider "sn = 0" | "sn \<noteq> 0" "odd fn" | "sn \<noteq> 0" "even fn" "fn = sn" | "sn \<noteq> 0" "even fn" "fn \<noteq> sn"
    by blast
  then show ?case
  proof cases
    case 1
    then show ?thesis by simp
  next
    case 2
    with Cons show ?thesis by (simp add: path_dirs.simps [of fn sn] bit_loop div_le_mono)
  next
    case 3
    then obtain k where "align (int fn, int sn) = (int k, int k)"
      "path_dirs fn sn = True # path_dirs (k div 2) (k div 2)"
      using align_int [of sn] by auto
    with 3 Cons.IH [of "k div 2" "k div 2"] show ?thesis by (simp add: bit_loop)
  next
    case 4
    with Cons show ?thesis by (simp add: path_dirs.simps [of fn sn] bit_loop div_le_mono)
  qed
qed

lemma consistency_loop_climb:
  "fn \<le> sn \<Longrightarrow>
    consistency_loop (int fn) (int sn) fr sr cs = Some (0, x, y) \<longleftrightarrow>
      length cs = length (path_dirs fn sn)
      \<and> climb_old (path_dirs fn sn) cs fr = x \<and> climb (path_dirs fn sn) cs sr = y"
proof (induction cs arbitrary: fn sn fr sr)
  case Nil
  show ?case by (cases "sn = 0") auto
next
  case (Cons c cs)
  consider "sn = 0" | "sn \<noteq> 0" "odd fn" | "sn \<noteq> 0" "even fn" "fn = sn" | "sn \<noteq> 0" "even fn" "fn \<noteq> sn"
    by blast
  then show ?case
  proof cases
    case 1
    then show ?thesis by simp
  next
    case 2
    with Cons show ?thesis by (simp add: path_dirs.simps [of fn sn] bit_loop div_le_mono)
  next
    case 3
    then obtain k where "align (int fn, int sn) = (int k, int k)"
      "path_dirs fn sn = True # path_dirs (k div 2) (k div 2)"
      using align_int [of sn] by auto
    with 3 Cons.IH [of "k div 2" "k div 2"] show ?thesis by (simp add: bit_loop)
  next
    case 4
    with Cons show ?thesis by (simp add: path_dirs.simps [of fn sn] bit_loop div_le_mono)
  qed
qed

section \<open>The start of a consistency path\<close>

text \<open>The old tree's last node: its path starts above the levels on which it is a right child.\<close>

function old_dirs :: "nat \<Rightarrow> nat \<Rightarrow> bool list" where
  "old_dirs fn sn = (if odd fn then old_dirs (fn div 2) (sn div 2) else path_dirs fn sn)"
  by pat_completeness auto
termination
  by (relation "measure (\<lambda>(fn, sn). fn)") (auto elim: oddE)

declare old_dirs.simps [simp del]

lemma old_dirs_left:
  "fn < 2 ^ e \<Longrightarrow> 2 ^ e \<le> sn \<Longrightarrow> sn < 2 ^ Suc e \<Longrightarrow>
    old_dirs fn sn = old_dirs fn (2 ^ e - 1) @ [False]"
proof (induction e arbitrary: fn sn)
  case 0
  then show ?case using path_dirs_left [of fn 0 sn] by (simp add: old_dirs.simps)
next
  case (Suc e)
  have "old_dirs (fn div 2) (sn div 2) = old_dirs (fn div 2) (2 ^ e - 1) @ [False]"
    using Suc.prems by (intro Suc.IH) auto
  with path_dirs_left [OF Suc.prems] show ?case
    unfolding old_dirs.simps [of fn] all_ones by simp
qed

lemma old_dirs_right:
  "fn < sn \<Longrightarrow> sn < 2 ^ e \<Longrightarrow>
    old_dirs (2 ^ e + fn) (2 ^ e + sn) = old_dirs fn sn @ [True]"
proof (induction e arbitrary: fn sn)
  case 0
  then show ?case by simp
next
  case (Suc e)
  have "old_dirs (2 ^ e + fn div 2) (2 ^ e + sn div 2) = old_dirs (fn div 2) (sn div 2) @ [True]"
    if "odd fn"
  proof (rule Suc.IH)
    show "fn div 2 < sn div 2" using Suc.prems(1) that by (elim oddE) simp
    show "sn div 2 < 2 ^ e" using Suc.prems(2) by auto
  qed
  moreover have "(2 ^ Suc e + n) div 2 = 2 ^ e + n div 2" "odd (2 ^ Suc e + n) = odd n" for n :: nat
    by simp_all
  ultimately show ?case
    using path_dirs_right [of fn sn "Suc e"] Suc.prems
    unfolding old_dirs.simps [of "2 ^ Suc e + fn"] old_dirs.simps [of fn]
    by (simp del: power_Suc)
qed

lemma old_dirs_pow2:
  "2 ^ e - 1 < sn \<Longrightarrow> sn < 2 ^ Suc e \<Longrightarrow> old_dirs (2 ^ e - 1) sn = [False]"
proof (induction e arbitrary: sn)
  case 0
  then have "sn = 1" by simp
  then show ?case by (simp add: old_dirs.simps path_dirs.simps)
next
  case (Suc e)
  then have "old_dirs (2 ^ e - 1) (sn div 2) = [False]"
    by (intro Suc.IH) auto
  then show ?case unfolding old_dirs.simps [of "2 ^ Suc e - 1"] all_ones using all_ones(1) by simp
qed

lemma old_dirs_nonempty: "fn < sn \<Longrightarrow> old_dirs fn sn \<noteq> []"
proof (induction fn sn rule: old_dirs.induct)
  case (1 fn sn)
  then show ?case by (cases "odd fn") (auto simp: old_dirs.simps [of fn sn] elim!: oddE)
qed

lemma strip_ones_int:
  "fn < sn \<Longrightarrow> \<exists>f s. strip_ones (int fn, int sn) = (int f, int s) \<and> f \<le> s
    \<and> path_dirs f s = old_dirs fn sn"
proof (induction fn arbitrary: sn rule: less_induct)
  case (less fn)
  show ?case
  proof (cases "odd fn")
    case True
    then have "strip_ones (int fn, int sn) = strip_ones (int (fn div 2), int (sn div 2))"
      unfolding strip_ones_def by (subst while_unfold) (simp add: bit_loop)
    moreover have "fn div 2 < fn" "fn div 2 < sn div 2" using True less.prems by (auto elim: oddE)
    moreover have "old_dirs fn sn = old_dirs (fn div 2) (sn div 2)"
      using True by (simp add: old_dirs.simps [of fn])
    ultimately show ?thesis using less.IH by metis
  next
    case False
    then have "strip_ones (int fn, int sn) = (int fn, int sn)"
      unfolding strip_ones_def by (subst while_unfold) (simp add: bit_loop)
    with False less.prems show ?thesis by (metis less_imp_le_nat old_dirs.simps)
  qed
qed

section \<open>The power-of-two test\<close>

lemma and_pred_zero_iff:
  "0 < m \<Longrightarrow> int m AND (int m - 1) = 0 \<longleftrightarrow> (\<exists>d. m = 2 ^ d)"
proof (induction m rule: less_induct)
  case (less m)
  show ?case
  proof (cases "even m")
    case True
    then obtain a where a: "m = 2 * a" by (elim evenE)
    with less.prems have pos: "0 < a" "a < m" by simp_all
    have "int m AND (int m - 1) = 2 * (int a AND (int a - 1))"
    proof -
      have "(2 * int a - 1) div 2 = int a - 1" by simp
      then show ?thesis unfolding a by (subst and_rec) simp
    qed
    moreover have "(\<exists>d. m = 2 ^ d) \<longleftrightarrow> (\<exists>d. a = 2 ^ d)"
    proof
      assume "\<exists>d. m = 2 ^ d"
      then obtain d where "2 * a = 2 ^ d" using a by auto
      then show "\<exists>d. a = 2 ^ d" by (cases d) auto
    next
      assume "\<exists>d. a = 2 ^ d"
      then show "\<exists>d. m = 2 ^ d" using a by (metis power_Suc)
    qed
    ultimately show ?thesis using less.IH pos by simp
  next
    case False
    then obtain a where a: "m = 2 * a + 1" by (elim oddE)
    have "int m AND (int m - 1) = 2 * int a"
      unfolding a by (subst and_rec) simp
    moreover have "(\<exists>d. m = 2 ^ d) \<longleftrightarrow> a = 0"
    proof
      assume "\<exists>d. m = 2 ^ d"
      then obtain d where "2 * a + 1 = 2 ^ d" using a by auto
      then have "odd ((2::nat) ^ d)" by (metis odd_two_times_div_two_succ dvd_triv_left even_plus_one_iff)
      with \<open>2 * a + 1 = 2 ^ d\<close> show "a = 0" by (cases d) simp_all
    qed (auto intro: exI [of _ 0] simp: a)
    ultimately show ?thesis by simp
  qed
qed

end
