(* ===== verification/Merkle_Correct.thy ===== *)
theory Merkle_Correct imports Merkle_Paths begin

text \<open>
  Correctness of \<open>Merkle\<close>: every generated proof verifies, and an accepted proof shows what
  it claims unless it exhibits two different byte strings, both hashed while the tree and
  the proof were computed, with the same SHA-256 digest.  No assumption is made on SHA-256
  itself: the sets of hashed strings are explicit and finite.
\<close>

section \<open>Completeness of inclusion proofs\<close>

lemma path_dirs_node:
  assumes "length xs = 2 ^ d" "ys \<noteq> []" "length ys \<le> 2 ^ d"
  shows "m < 2 ^ d \<Longrightarrow>
      path_dirs m (length (xs @ ys) - 1) = path_dirs m (length xs - 1) @ [False]"
    and "2 ^ d \<le> m \<Longrightarrow> m < length (xs @ ys) \<Longrightarrow>
      path_dirs m (length (xs @ ys) - 1) = path_dirs (m - 2 ^ d) (length ys - 1) @ [True]"
proof -
  have ys: "0 < length ys" using assms(2) by simp
  then have "2 ^ d \<le> length (xs @ ys) - 1" "length (xs @ ys) - 1 < 2 ^ Suc d"
    using assms(1,3) unfolding length_append power_Suc by linarith+
  then show "path_dirs m (length (xs @ ys) - 1) = path_dirs m (length xs - 1) @ [False]"
    if "m < 2 ^ d"
    using path_dirs_left [OF that] assms(1) by simp
  have "2 ^ d + (length ys - 1) = length (xs @ ys) - 1"
    using assms(1) ys unfolding length_append by linarith
  then show "path_dirs m (length (xs @ ys) - 1) = path_dirs (m - 2 ^ d) (length ys - 1) @ [True]"
    if "2 ^ d \<le> m" "m < length (xs @ ys)"
    using path_dirs_right [of "m - 2 ^ d" "length ys - 1" d] that assms ys by fastforce
qed

lemma inclusion_proof_node:
  assumes "length xs = 2 ^ d" "ys \<noteq> []" "length ys \<le> 2 ^ d"
  shows "m < 2 ^ d \<Longrightarrow> inclusion_proof (xs @ ys) (int m) =
      sbind (inclusion_proof xs (int m)) (\<lambda>p. Inr (p @ [tree_hash ys]))"
    and "2 ^ d \<le> m \<Longrightarrow> m < length (xs @ ys) \<Longrightarrow> inclusion_proof (xs @ ys) (int m) =
      sbind (inclusion_proof ys (int (m - 2 ^ d))) (\<lambda>p. Inr (p @ [tree_hash xs]))"
  using split_point [OF assms] assms
  by (subst inclusion_proof.simps; simp add: Let_def of_nat_diff)+

lemma inclusion_proof_complete:
  "m < length leaves \<Longrightarrow> \<exists>p. inclusion_proof leaves (int m) = Inr p
    \<and> length p = length (path_dirs m (length leaves - 1))
    \<and> climb (path_dirs m (length leaves - 1)) p (leaves ! m) = tree_hash leaves"
proof (induction leaves arbitrary: m rule: tree_induct)
  case (Leaf h)
  then show ?case by (simp add: inclusion_proof.simps)
next
  case (Node d xs ys)
  note node = inclusion_proof_node [OF Node.hyps] path_dirs_node [OF Node.hyps]
    tree_hash_append [OF Node.hyps]
  show ?case
  proof (cases "m < 2 ^ d")
    case True
    then obtain p where "inclusion_proof xs (int m) = Inr p"
      "length p = length (path_dirs m (length xs - 1))"
      "climb (path_dirs m (length xs - 1)) p (xs ! m) = tree_hash xs"
      using Node.IH(1) [of m] Node.hyps(1) by auto
    with True Node.hyps(1) show ?thesis
      unfolding node(1) [OF True] node(3) [OF True] node(5)
      by (simp add: climb_snoc nth_append)
  next
    case False
    then have m: "2 ^ d \<le> m" "m - 2 ^ d < length ys" using Node.prems Node.hyps(1) by simp_all
    then obtain p where "inclusion_proof ys (int (m - 2 ^ d)) = Inr p"
      "length p = length (path_dirs (m - 2 ^ d) (length ys - 1))"
      "climb (path_dirs (m - 2 ^ d) (length ys - 1)) p (ys ! (m - 2 ^ d)) = tree_hash ys"
      using Node.IH(2) [OF m(2)] by blast
    with m Node.hyps(1) show ?thesis
      unfolding node(2) [OF m(1) Node.prems] node(4) [OF m(1) Node.prems] node(5)
      by (simp add: climb_snoc nth_append)
  qed
qed simp

lemma verify_inclusion_climb:
  "m < n \<Longrightarrow> verify_inclusion (int m) (int n) leaf ps root \<longleftrightarrow>
    length ps = length (path_dirs m (n - 1)) \<and> climb (path_dirs m (n - 1)) ps leaf = root"
proof -
  assume "m < n"
  then have "m \<le> n - 1" and n: "int n - 1 = int (n - 1)" by simp_all
  have "inclusion_loop (int m) (int n - 1) leaf ps = Some (0, root) \<longleftrightarrow>
    length ps = length (path_dirs m (n - 1)) \<and> climb (path_dirs m (n - 1)) ps leaf = root"
    unfolding n by (rule inclusion_loop_climb [OF \<open>m \<le> n - 1\<close>])
  with \<open>m < n\<close> show ?thesis
    unfolding verify_inclusion_def by (auto split: option.splits)
qed

lemma generated_inclusion_verifies:
  assumes "m < length leaves"
  obtains p where "inclusion_proof leaves (int m) = Inr p"
    "verify_inclusion (int m) (int (length leaves)) (leaves ! m) p (tree_hash leaves)"
  using inclusion_proof_complete [OF assms] verify_inclusion_climb [OF assms] by blast

section \<open>Hashed strings and collisions\<close>

definition collision :: "bytes set \<Rightarrow> bool" where
  "collision S \<longleftrightarrow> (\<exists>x \<in> S. \<exists>y \<in> S. x \<noteq> y \<and> sha256 x = sha256 y)"

function tree_inputs :: "bytes list \<Rightarrow> bytes list" where
  "tree_inputs leaves =
     (let n = length leaves in
      if n = 0 then [[]]
      else if n = 1 then []
      else let k = largest_pow2_lt n in
        (node_prefix @ tree_hash (take k leaves) @ tree_hash (drop k leaves))
          # tree_inputs (take k leaves) @ tree_inputs (drop k leaves))"
  by pat_completeness auto
termination
  by (relation "measure length") (auto simp: halves_shorter)

declare tree_inputs.simps [simp del]

fun climb_inputs :: "bool list \<Rightarrow> bytes list \<Rightarrow> bytes \<Rightarrow> bytes list" where
  "climb_inputs (d # ds) (p # ps) r =
     (node_prefix @ (if d then p @ r else r @ p))
       # climb_inputs ds ps (if d then node_hash p r else node_hash r p)"
| "climb_inputs _ _ _ = []"

fun climb_old_inputs :: "bool list \<Rightarrow> bytes list \<Rightarrow> bytes \<Rightarrow> bytes list" where
  "climb_old_inputs (d # ds) (p # ps) r =
     (if d then (node_prefix @ p @ r) # climb_old_inputs ds ps (node_hash p r)
      else climb_old_inputs ds ps r)"
| "climb_old_inputs _ _ _ = []"

lemma collision_mono: "collision S \<Longrightarrow> S \<subseteq> T \<Longrightarrow> collision T"
  by (auto simp: collision_def)

lemma no_collisionD:
  "\<not> collision S \<Longrightarrow> node_hash a b = node_hash c d \<Longrightarrow>
    node_prefix @ a @ b \<in> S \<Longrightarrow> node_prefix @ c @ d \<in> S \<Longrightarrow> a @ b = c @ d"
  unfolding collision_def node_hash_def by (metis same_append_eq)

lemma no_collision_left:
  assumes "\<not> collision S" "node_hash a q = node_hash l r" "length a = length l"
    "node_prefix @ a @ q \<in> S" "node_prefix @ l @ r \<in> S"
  shows "a = l \<and> q = r"
  using no_collisionD [OF assms(1,2,4,5)] assms(3) by simp

lemma no_collision_right:
  assumes "\<not> collision S" "node_hash q a = node_hash l r" "length a = length r"
    "node_prefix @ q @ a \<in> S" "node_prefix @ l @ r \<in> S"
  shows "q = l \<and> a = r"
  using no_collisionD [OF assms(1,2,4,5)] assms(3) by simp

lemma climb_inputs_snoc:
  "length ds = length ps \<Longrightarrow>
    set (climb_inputs (ds @ [d]) (ps @ [p]) r) = insert
      (node_prefix @ (if d then p @ climb ds ps r else climb ds ps r @ p))
      (set (climb_inputs ds ps r))"
  by (induction ds ps arbitrary: r rule: list_induct2) auto

lemma climb_old_inputs_snoc:
  "length ds = length ps \<Longrightarrow>
    set (climb_old_inputs (ds @ [d]) (ps @ [p]) r) =
      (if d then {node_prefix @ p @ climb_old ds ps r} else {}) \<union> set (climb_old_inputs ds ps r)"
  by (induction ds ps arbitrary: r rule: list_induct2) auto

lemma tree_inputs_node:
  assumes "length xs = 2 ^ d" "ys \<noteq> []" "length ys \<le> 2 ^ d"
  shows "tree_inputs (xs @ ys) =
    (node_prefix @ tree_hash xs @ tree_hash ys) # tree_inputs xs @ tree_inputs ys"
  using split_point [OF assms] assms by (subst tree_inputs.simps) (simp add: Let_def)

definition digests :: "bytes list \<Rightarrow> bool" where
  "digests leaves \<longleftrightarrow> (\<forall>h \<in> set leaves. length h = 32)"

lemma digests_simps [simp]:
  "digests []" "digests (h # hs) \<longleftrightarrow> length h = 32 \<and> digests hs"
  "digests (xs @ ys) \<longleftrightarrow> digests xs \<and> digests ys"
  by (auto simp: digests_def)

lemma length_tree_hash_digests: "digests leaves \<Longrightarrow> length (tree_hash leaves) = 32"
  by (simp add: digests_def length_tree_hash)

section \<open>Soundness of inclusion proofs\<close>

lemma climb_sound:
  assumes no_col: "\<not> collision S"
  shows "digests leaves \<Longrightarrow> length r = 32 \<Longrightarrow> m < length leaves \<Longrightarrow>
    length ps = length (path_dirs m (length leaves - 1)) \<Longrightarrow>
    climb (path_dirs m (length leaves - 1)) ps r = tree_hash leaves \<Longrightarrow>
    set (tree_inputs leaves) \<subseteq> S \<Longrightarrow>
    set (climb_inputs (path_dirs m (length leaves - 1)) ps r) \<subseteq> S \<Longrightarrow>
    r = leaves ! m \<and> inclusion_proof leaves (int m) = Inr ps"
proof (induction leaves arbitrary: m ps rule: tree_induct)
  case (Leaf h)
  then show ?case by (simp add: inclusion_proof.simps)
next
  case (Node d xs ys)
  note node = inclusion_proof_node [OF Node.hyps] path_dirs_node [OF Node.hyps]
    tree_hash_append [OF Node.hyps] tree_inputs_node [OF Node.hyps]
  have len: "length (tree_hash xs) = 32" "length (tree_hash ys) = 32"
    using Node.prems(1) by (simp_all add: length_tree_hash_digests)
  show ?case
  proof (cases "m < 2 ^ d")
    case True
    let ?ds = "path_dirs m (length xs - 1)"
    obtain qs q where ps: "ps = qs @ [q]" "length qs = length ?ds"
      using Node.prems(4) unfolding node(3) [OF True] by (auto dest: snoc_cases_length)
    note prems = Node.prems(5-7) [unfolded node(3) [OF True] node(5,6)]
    have eq: "climb ?ds qs r = tree_hash xs \<and> q = tree_hash ys"
      by (rule no_collision_left [OF no_col])
        (use prems ps len length_climb [OF Node.prems(2)] in
          \<open>simp_all add: climb_snoc climb_inputs_snoc\<close>)
    have "r = xs ! m \<and> inclusion_proof xs (int m) = Inr qs"
      using Node.prems(1,2) True Node.hyps(1) prems ps eq
      by (intro Node.IH(1)) (simp_all add: climb_inputs_snoc)
    with eq show ?thesis
      using node(1) [OF True] True Node.hyps(1) ps(1) by (simp add: nth_append)
  next
    case False
    then have m: "2 ^ d \<le> m" "m - 2 ^ d < length ys" using Node.prems(3) Node.hyps(1) by simp_all
    let ?ds = "path_dirs (m - 2 ^ d) (length ys - 1)"
    note dirs = node(4) [OF m(1) Node.prems(3)]
    obtain qs q where ps: "ps = qs @ [q]" "length qs = length ?ds"
      using Node.prems(4) unfolding dirs by (auto dest: snoc_cases_length)
    note prems = Node.prems(5-7) [unfolded dirs node(5,6)]
    have eq: "q = tree_hash xs \<and> climb ?ds qs r = tree_hash ys"
      by (rule no_collision_right [OF no_col])
        (use prems ps len length_climb [OF Node.prems(2)] in
          \<open>simp_all add: climb_snoc climb_inputs_snoc\<close>)
    have "r = ys ! (m - 2 ^ d) \<and> inclusion_proof ys (int (m - 2 ^ d)) = Inr qs"
      using Node.prems(1,2) m prems ps eq
      by (intro Node.IH(2)) (simp_all add: climb_inputs_snoc)
    with eq show ?thesis
      using node(2) [OF m(1) Node.prems(3)] False Node.hyps(1) ps(1) by (simp add: nth_append)
  qed
qed simp

section \<open>Consistency proofs\<close>

lemma old_dirs_node:
  assumes "length xs = 2 ^ d" "ys \<noteq> []" "length ys \<le> 2 ^ d"
  shows "0 < m \<Longrightarrow> m \<le> 2 ^ d \<Longrightarrow>
      old_dirs (m - 1) (length (xs @ ys) - 1) =
        (if m = 2 ^ d then [False] else old_dirs (m - 1) (length xs - 1) @ [False])"
    and "2 ^ d < m \<Longrightarrow> m < length (xs @ ys) \<Longrightarrow>
      old_dirs (m - 1) (length (xs @ ys) - 1) =
        old_dirs (m - 2 ^ d - 1) (length ys - 1) @ [True]"
proof -
  have "0 < length ys" using assms(2) by simp
  then have b: "2 ^ d \<le> length (xs @ ys) - 1" "length (xs @ ys) - 1 < 2 ^ Suc d"
      "2 ^ d + (length ys - 1) = length (xs @ ys) - 1" "length ys - 1 < 2 ^ d"
    using assms(1,3) unfolding length_append power_Suc by linarith+
  show "old_dirs (m - 1) (length (xs @ ys) - 1) =
    (if m = 2 ^ d then [False] else old_dirs (m - 1) (length xs - 1) @ [False])"
    if "0 < m" "m \<le> 2 ^ d"
  proof (cases "m = 2 ^ d")
    case True
    then show ?thesis using old_dirs_pow2 [of d "length (xs @ ys) - 1"] b by simp
  next
    case False
    then have "m - 1 < 2 ^ d" using that by simp
    from old_dirs_left [OF this b(1,2)] False show ?thesis using assms(1) by simp
  qed
  show "old_dirs (m - 1) (length (xs @ ys) - 1) =
      old_dirs (m - 2 ^ d - 1) (length ys - 1) @ [True]"
    if "2 ^ d < m" "m < length (xs @ ys)"
  proof -
    have "2 ^ d + (m - 2 ^ d - 1) = m - 1" "m - 2 ^ d - 1 < length ys - 1"
      using that b(3) unfolding length_append assms(1) by linarith+
    with old_dirs_right [OF this(2) b(4)] b(3) show ?thesis by simp
  qed
qed

lemma subproof_node:
  assumes "length xs = 2 ^ d" "ys \<noteq> []" "length ys \<le> 2 ^ d" "0 < m" "m < length (xs @ ys)"
  shows "m \<le> 2 ^ d \<Longrightarrow> subproof (int m) (xs @ ys) b =
      sbind (subproof (int m) xs b) (\<lambda>p. Inr (p @ [tree_hash ys]))"
    and "2 ^ d < m \<Longrightarrow> subproof (int m) (xs @ ys) b =
      sbind (subproof (int (m - 2 ^ d)) ys False) (\<lambda>p. Inr (p @ [tree_hash xs]))"
proof -
  note split = split_point [OF assms(1-3)]
  have m: "int m \<noteq> int (length (xs @ ys))" "\<not> (int m \<le> 0 \<or> int (length (xs @ ys)) < int m)"
    using assms(4,5) by simp_all
  show "subproof (int m) (xs @ ys) b =
      sbind (subproof (int m) xs b) (\<lambda>p. Inr (p @ [tree_hash ys]))" if "m \<le> 2 ^ d"
    using split(1) m assms(1,4,5) that
    by (subst subproof.simps) (simp add: Let_def)
  show "subproof (int m) (xs @ ys) b =
      sbind (subproof (int (m - 2 ^ d)) ys False) (\<lambda>p. Inr (p @ [tree_hash xs]))" if "2 ^ d < m"
    using split(1) m assms(1,4,5) that
    by (subst subproof.simps) (simp add: Let_def of_nat_diff)
qed

lemma subproof_all [simp]:
  "subproof (int (length leaves)) leaves b = Inr (if b then [] else [tree_hash leaves])"
  by (simp add: subproof.simps)

definition is_pow2 :: "nat \<Rightarrow> bool" where
  "is_pow2 m \<longleftrightarrow> (\<exists>d. m = 2 ^ d)"

lemma is_pow2_between:
  assumes "2 ^ d < m" "m < 2 * 2 ^ d"
  shows "\<not> is_pow2 m"
proof
  assume "is_pow2 m"
  then obtain e where "m = 2 ^ e" by (auto simp: is_pow2_def)
  with assms have "(2::nat) ^ d < 2 ^ e" "(2::nat) ^ e < 2 ^ Suc d" by simp_all
  then have "d < e" "e < Suc d" by (simp_all only: power_strict_increasing_iff one_less_numeral_iff semiring_norm)
  then show False by simp
qed

text \<open>The head of the full path is the old tree's hash exactly when it is not transmitted.\<close>

lemma subproof_complete:
  "0 < m \<Longrightarrow> m < length leaves \<Longrightarrow> \<exists>h cs.
    subproof (int m) leaves False = Inr (h # cs)
    \<and> subproof (int m) leaves True = Inr (if is_pow2 m then cs else h # cs)
    \<and> (is_pow2 m \<longrightarrow> h = tree_hash (take m leaves))
    \<and> length cs = length (old_dirs (m - 1) (length leaves - 1))
    \<and> climb_old (old_dirs (m - 1) (length leaves - 1)) cs h = tree_hash (take m leaves)
    \<and> climb (old_dirs (m - 1) (length leaves - 1)) cs h = tree_hash leaves"
proof (induction leaves arbitrary: m rule: tree_induct)
  case (Node d xs ys)
  note node = subproof_node [OF Node.hyps Node.prems] old_dirs_node [OF Node.hyps]
    tree_hash_append [OF Node.hyps]
  consider "m = 2 ^ d" | "m < 2 ^ d" | "2 ^ d < m" by linarith
  then show ?case
  proof cases
    case 1
    then have "is_pow2 m" by (auto simp: is_pow2_def)
    with 1 Node.hyps(1) Node.prems show ?thesis
      using subproof_all [of xs True] subproof_all [of xs False] node(1) [of True] node(1) [of False]
        node(3) [of m]
      by (intro exI [of _ "tree_hash xs"] exI [of _ "[tree_hash ys]"]) (simp add: node(5))
  next
    case 2
    with Node.IH(1) [of m] Node.prems(1) Node.hyps(1) obtain h cs where
      "subproof (int m) xs False = Inr (h # cs)"
      "subproof (int m) xs True = Inr (if is_pow2 m then cs else h # cs)"
      "is_pow2 m \<longrightarrow> h = tree_hash (take m xs)"
      "length cs = length (old_dirs (m - 1) (length xs - 1))"
      "climb_old (old_dirs (m - 1) (length xs - 1)) cs h = tree_hash (take m xs)"
      "climb (old_dirs (m - 1) (length xs - 1)) cs h = tree_hash xs"
      by auto
    with 2 Node.hyps(1) Node.prems(1) node(3) [of m] show ?thesis
      by (intro exI [of _ h] exI [of _ "cs @ [tree_hash ys]"])
        (simp add: node(1,5) climb_snoc climb_old_snoc)
  next
    case 3
    let ?m = "m - 2 ^ d"
    have m: "0 < ?m" "?m < length ys" using 3 Node.prems Node.hyps(1) by simp_all
    obtain h cs where IH:
      "subproof (int ?m) ys False = Inr (h # cs)"
      "length cs = length (old_dirs (?m - 1) (length ys - 1))"
      "climb_old (old_dirs (?m - 1) (length ys - 1)) cs h = tree_hash (take ?m ys)"
      "climb (old_dirs (?m - 1) (length ys - 1)) cs h = tree_hash ys"
      using Node.IH(2) [OF m] by blast
    have "\<not> is_pow2 m" using 3 Node.prems(2) Node.hyps by (intro is_pow2_between [of d]) simp_all
    moreover have "tree_hash (take m (xs @ ys)) = node_hash (tree_hash xs) (tree_hash (take ?m ys))"
      using m Node.hyps 3 by (simp add: tree_hash_append [of xs d])
    ultimately show ?thesis
      using IH 3 Node.hyps(1) node(4) [OF 3 Node.prems(2)]
      by (intro exI [of _ h] exI [of _ "cs @ [tree_hash xs]"])
        (simp add: node(2,5) climb_snoc climb_old_snoc)
  qed
qed simp_all

lemma verify_consistency_climb:
  assumes "0 < m" "m < n"
  shows "verify_consistency (int m) (int n) r1 r2 proof \<longleftrightarrow>
    (\<exists>h cs. (if is_pow2 m then [r1] @ proof else proof) = h # cs
      \<and> length cs = length (old_dirs (m - 1) (n - 1))
      \<and> climb_old (old_dirs (m - 1) (n - 1)) cs h = r1
      \<and> climb (old_dirs (m - 1) (n - 1)) cs h = r2)"
proof -
  have "m - 1 < n - 1" and sizes: "int m - 1 = int (m - 1)" "int n - 1 = int (n - 1)"
    using assms by simp_all
  from strip_ones_int [OF this(1)] obtain f s where
    strip: "strip_ones (int (m - 1), int (n - 1)) = (int f, int s)" and "f \<le> s"
    and dirs: "path_dirs f s = old_dirs (m - 1) (n - 1)"
    by blast
  have pow2: "(int m AND int (m - 1) = 0) = is_pow2 m"
    using and_pred_zero_iff [OF assms(1)] by (simp add: is_pow2_def sizes)
  have guards: "\<not> int n < int m" "int m \<noteq> int n" "int m \<noteq> 0" using assms by simp_all
  have case_eq: "(case X of None \<Rightarrow> False | Some (sn', fr, sr) \<Rightarrow> sn' = 0 \<and> fr = r1 \<and> sr = r2)
    \<longleftrightarrow> X = Some (0, r1, r2)" for X :: "(int \<times> bytes \<times> bytes) option"
    by (auto split: option.splits)
  have loop: "(case consistency_loop (int f) (int s) h h cs of None \<Rightarrow> False
      | Some (sn', fr, sr) \<Rightarrow> sn' = 0 \<and> fr = r1 \<and> sr = r2) \<longleftrightarrow>
    length cs = length (old_dirs (m - 1) (n - 1))
    \<and> climb_old (old_dirs (m - 1) (n - 1)) cs h = r1
    \<and> climb (old_dirs (m - 1) (n - 1)) cs h = r2" for h cs
    using consistency_loop_climb [OF \<open>f \<le> s\<close>, of h h cs r1 r2] case_eq
    by (simp only: dirs)
  define path where "path = (if is_pow2 m then [r1] @ proof else proof)"
  show ?thesis
    unfolding verify_consistency_def sizes pow2 strip Let_def prod.case loop
      path_def [symmetric] if_not_P [OF guards(1)] if_not_P [OF guards(2)] if_not_P [OF guards(3)]
    by (cases path) simp_all
qed

lemma generated_consistency_verifies:
  assumes "0 < m" "m \<le> length leaves"
  obtains p where "consistency_proof leaves (int m) = Inr p"
    "verify_consistency (int m) (int (length leaves)) (tree_hash (take m leaves))
       (tree_hash leaves) p"
proof (cases "m = length leaves")
  case True
  then show thesis using assms that [of "[]"]
    by (simp add: consistency_proof_def verify_consistency_def)
next
  case False
  then have m: "m < length leaves" using assms(2) by simp
  from subproof_complete [OF assms(1) m] obtain h cs where
    sub: "subproof (int m) leaves True = Inr (if is_pow2 m then cs else h # cs)"
      "is_pow2 m \<longrightarrow> h = tree_hash (take m leaves)"
    and climb: "length cs = length (old_dirs (m - 1) (length leaves - 1))"
      "climb_old (old_dirs (m - 1) (length leaves - 1)) cs h = tree_hash (take m leaves)"
      "climb (old_dirs (m - 1) (length leaves - 1)) cs h = tree_hash leaves"
    by blast
  show thesis
  proof (rule that)
    show "consistency_proof leaves (int m) = Inr (if is_pow2 m then cs else h # cs)"
      using sub(1) assms(1) m by (simp add: consistency_proof_def)
    show "verify_consistency (int m) (int (length leaves)) (tree_hash (take m leaves))
       (tree_hash leaves) (if is_pow2 m then cs else h # cs)"
      unfolding verify_consistency_climb [OF assms(1) m] using sub(2) climb by auto
  qed
qed

section \<open>Soundness of consistency proofs\<close>

lemma tree_hash_inject:
  assumes no_col: "\<not> collision S"
  shows "length as = length bs \<Longrightarrow> digests as \<Longrightarrow> digests bs \<Longrightarrow>
    tree_hash as = tree_hash bs \<Longrightarrow>
    set (tree_inputs as) \<subseteq> S \<Longrightarrow> set (tree_inputs bs) \<subseteq> S \<Longrightarrow> as = bs"
proof (induction as arbitrary: bs rule: tree_induct)
  case (Leaf h)
  then show ?case by (cases bs) simp_all
next
  case (Node d xs ys)
  obtain us vs where bs: "bs = us @ vs" "length us = 2 ^ d" "length vs = length ys"
    using Node.prems(1) Node.hyps(1)
    by (metis append_take_drop_id diff_add_inverse le_add1 length_append length_drop length_take min.absorb2)
  then have vs: "vs \<noteq> []" "length vs \<le> 2 ^ d" using Node.hyps by auto
  note node = tree_hash_append [OF Node.hyps] tree_inputs_node [OF Node.hyps]
    tree_hash_append [OF bs(2) vs] tree_inputs_node [OF bs(2) vs]
  have "tree_hash xs = tree_hash us \<and> tree_hash ys = tree_hash vs"
    using Node.prems bs(1) node by (intro no_collision_left [OF no_col])
      (simp_all add: length_tree_hash_digests)
  then show ?case
    using Node.IH(1) [of us] Node.IH(2) [of vs] Node.prems Node.hyps(1) bs node by simp
qed simp

text \<open>
  The transmitted head is not assumed to be a digest: where it meets a sibling, the lengths
  of the other strings hashed there force it to have 32 bytes.
\<close>

lemma consistency_climb_sound:
  assumes no_col: "\<not> collision S"
  shows "0 < length old \<Longrightarrow> length old < length new \<Longrightarrow> digests old \<Longrightarrow> digests new \<Longrightarrow>
    length cs = length (old_dirs (length old - 1) (length new - 1)) \<Longrightarrow>
    climb_old (old_dirs (length old - 1) (length new - 1)) cs h = tree_hash old \<Longrightarrow>
    climb (old_dirs (length old - 1) (length new - 1)) cs h = tree_hash new \<Longrightarrow>
    set (tree_inputs old) \<union> set (tree_inputs new) \<subseteq> S \<Longrightarrow>
    set (climb_old_inputs (old_dirs (length old - 1) (length new - 1)) cs h) \<union>
      set (climb_inputs (old_dirs (length old - 1) (length new - 1)) cs h) \<subseteq> S \<Longrightarrow>
    old = take (length old) new"
proof (induction new arbitrary: old cs rule: tree_induct)
  case (Node d xs ys)
  let ?m = "length old"
  note node = old_dirs_node [OF Node.hyps] tree_hash_append [OF Node.hyps]
    tree_inputs_node [OF Node.hyps]
  have len: "length (tree_hash xs) = 32" "length (tree_hash old) = 32"
    using Node.prems(3,4) by (simp_all add: length_tree_hash_digests)
  consider "?m = 2 ^ d" | "?m < 2 ^ d" | "2 ^ d < ?m" by linarith
  then show ?case
  proof cases
    case 1
    then have dirs: "old_dirs (?m - 1) (length (xs @ ys) - 1) = [False]" using node(1) [of ?m] by simp
    obtain q where cs: "cs = [q]" using Node.prems(5) unfolding dirs by (cases cs) auto
    note prems = Node.prems(6-9) [unfolded dirs cs]
    have "h = tree_hash xs \<and> q = tree_hash ys"
      by (rule no_collision_left [OF no_col]) (use prems node len in auto)
    then have "old = xs"
      using 1 Node.hyps(1) Node.prems(3,4) prems node
      by (intro tree_hash_inject [OF no_col]) auto
    with 1 show ?thesis by simp
  next
    case 2
    let ?ds = "old_dirs (?m - 1) (length xs - 1)"
    have "?m - 1 < length xs - 1" using 2 Node.prems(1) Node.hyps(1) by linarith
    then have "?ds \<noteq> []" by (rule old_dirs_nonempty)
    have dirs: "old_dirs (?m - 1) (length (xs @ ys) - 1) = ?ds @ [False]"
      using node(1) [of ?m] 2 Node.prems(1) by simp
    obtain qs q where cs: "cs = qs @ [q]" "length qs = length ?ds"
      using Node.prems(5) unfolding dirs by (auto dest: snoc_cases_length)
    note prems = Node.prems(6-9) [unfolded dirs cs(1)]
    have "length (climb ?ds qs h) = length (tree_hash xs)"
      using length_climb_nonempty cs(2) \<open>?ds \<noteq> []\<close> len by simp
    then have eq: "climb ?ds qs h = tree_hash xs \<and> q = tree_hash ys"
      by (intro no_collision_left [OF no_col])
        (use prems node cs(2) in \<open>simp_all add: climb_snoc climb_inputs_snoc\<close>)
    have "old = take ?m xs"
      by (rule Node.IH(1) [where cs = qs])
        (use prems node cs(2) eq 2 Node.prems(1,3,4) Node.hyps(1) in
          \<open>simp_all add: climb_old_snoc climb_inputs_snoc climb_old_inputs_snoc\<close>)
    with 2 Node.hyps(1) show ?thesis by simp
  next
    case 3
    define us vs where "us = take (2 ^ d) old" and "vs = drop (2 ^ d) old"
    have old: "old = us @ vs" "length us = 2 ^ d" "vs \<noteq> []" "length vs \<le> 2 ^ d"
      using 3 Node.prems(2) Node.hyps by (auto simp: us_def vs_def)
    note old_node = tree_hash_append [OF old(2-4)] tree_inputs_node [OF old(2-4)]
    let ?ds = "old_dirs (length vs - 1) (length ys - 1)"
    have shorter: "0 < length vs" "length vs < length ys"
      using Node.prems(2) Node.hyps(1) old by simp_all
    then have "length vs - 1 < length ys - 1" by linarith
    then have "?ds \<noteq> []" by (rule old_dirs_nonempty)
    have dirs: "old_dirs (?m - 1) (length (xs @ ys) - 1) = ?ds @ [True]"
      using node(2) [OF 3 Node.prems(2)] old(1,2) by simp
    obtain qs q where cs: "cs = qs @ [q]" "length qs = length ?ds"
      using Node.prems(5) unfolding dirs by (auto dest: snoc_cases_length)
    note prems = Node.prems(6-9) [unfolded dirs cs(1)]
    have "length (climb ?ds qs h) = length (tree_hash ys)"
      using length_climb_nonempty cs(2) \<open>?ds \<noteq> []\<close> Node.prems(4)
      by (simp add: length_tree_hash_digests)
    then have eq: "q = tree_hash xs \<and> climb ?ds qs h = tree_hash ys"
      by (intro no_collision_right [OF no_col])
        (use prems node cs(2) in \<open>simp_all add: climb_snoc climb_inputs_snoc\<close>)
    have eq': "q = tree_hash us \<and> climb_old ?ds qs h = tree_hash vs"
      by (rule no_collision_left [OF no_col])
        (use prems node old_node old(1) cs(2) eq len Node.prems(3) in
          \<open>simp_all add: climb_old_snoc climb_old_inputs_snoc length_tree_hash_digests\<close>)
    have "vs = take (length vs) ys"
      by (rule Node.IH(2) [where cs = qs])
        (use prems node old_node old(1) cs(2) eq eq' shorter Node.prems(3,4) in
          \<open>simp_all add: climb_inputs_snoc climb_old_inputs_snoc\<close>)
    moreover have "us = xs"
      by (rule tree_hash_inject [OF no_col])
        (use prems node old_node old eq eq' Node.prems(3,4) Node.hyps(1) in auto)
    ultimately show ?thesis using old(1) by simp
  qed
qed simp_all

end
