(* ===== verification/Merkle_Incremental.thy ===== *)
theory Merkle_Incremental imports Merkle_Correct "HOL-Library.Multiset" begin

text \<open>
  \<open>IncrementalMerkleTree\<close> of \<open>merkle.py\<close>: the right-edge frontier of perfect subtrees, one
  per set bit of the size.  The locale \<open>append_log\<close> is what the ledger relies on: a state
  that stands for the list of everything appended and whose root is a function of that
  list.  The frontier tree is shown to provide it with \<open>tree_hash\<close> as that function.
\<close>

section \<open>The frontier tree\<close>

record merkle_tree =
  frontier :: "bytes option list"
  tree_size :: nat

definition empty_tree :: merkle_tree where
  "empty_tree = \<lparr>frontier = [], tree_size = 0\<rparr>"

definition carry_loop :: "bytes \<Rightarrow> bytes option list \<Rightarrow> bytes \<times> nat \<times> bytes option list" where
  "carry_loop leaf fr = while
     (\<lambda>(carry, level, fr). level < length fr \<and> fr ! level \<noteq> None)
     (\<lambda>(carry, level, fr). (node_hash (the (fr ! level)) carry, Suc level, fr[level := None]))
     (leaf, 0, fr)"

definition append_leaf :: "bytes \<Rightarrow> merkle_tree \<Rightarrow> merkle_tree" where
  "append_leaf leaf t =
     (let (carry, level, fr) = carry_loop leaf (frontier t)
      in t\<lparr>frontier := (if level = length fr then fr @ [Some carry] else fr[level := Some carry]),
           tree_size := tree_size t + 1\<rparr>)"

definition from_leaves :: "bytes list \<Rightarrow> merkle_tree" where
  "from_leaves leaves = foldl (\<lambda>t h. append_leaf h t) empty_tree leaves"

fun presents :: "nat \<Rightarrow> bytes option list \<Rightarrow> (nat \<times> bytes) list" where
  "presents lvl [] = []"
| "presents lvl (None # fs) = presents (Suc lvl) fs"
| "presents lvl (Some h # fs) = (lvl, h) # presents (Suc lvl) fs"

definition tree_root :: "merkle_tree \<Rightarrow> bytes" where
  "tree_root t =
     (let present = presents 0 (frontier t)
      in if present = [] then empty_root
         else let present = sort_key (\<lambda>x. - int (fst x)) present
              in foldl (\<lambda>acc x. node_hash (snd x) acc) (snd (last present))
                   (rev (butlast present)))"

section \<open>Structural form of the two loops\<close>

fun carry_in :: "bytes \<Rightarrow> bytes option list \<Rightarrow> bytes option list" where
  "carry_in h [] = [Some h]"
| "carry_in h (None # fs) = Some h # fs"
| "carry_in h (Some l # fs) = None # carry_in (node_hash l h) fs"

definition store_carry :: "bytes \<times> nat \<times> bytes option list \<Rightarrow> bytes option list" where
  "store_carry x = (case x of (carry, level, fr) \<Rightarrow>
     if level = length fr then fr @ [Some carry] else fr[level := Some carry])"

lemma carry_loop_from:
  "length done = level \<Longrightarrow> store_carry (while
     (\<lambda>(carry, level, fr). level < length fr \<and> fr ! level \<noteq> None)
     (\<lambda>(carry, level, fr). (node_hash (the (fr ! level)) carry, Suc level, fr[level := None]))
     (h, level, done @ fs)) = done @ carry_in h fs"
proof (induction h fs arbitrary: "done" level rule: carry_in.induct)
  case (3 h l fs)
  have "(done @ Some l # fs)[level := None] = (done @ [None]) @ fs"
    using 3(2) by (simp add: list_update_append)
  with 3(1) [of "done @ [None]" "Suc level"] 3(2) show ?case
    by (subst while_unfold) (simp add: nth_append)
qed (subst while_unfold, simp add: store_carry_def nth_append list_update_append)+

lemma frontier_append_leaf: "frontier (append_leaf leaf t) = carry_in leaf (frontier t)"
proof -
  have "frontier (append_leaf leaf t) = store_carry (carry_loop leaf (frontier t))"
    by (simp add: append_leaf_def store_carry_def split: prod.split)
  also have "\<dots> = carry_in leaf (frontier t)"
    using carry_loop_from [of "[]" 0 leaf "frontier t"] by (simp add: carry_loop_def)
  finally show ?thesis .
qed

lemma tree_size_append_leaf [simp]: "tree_size (append_leaf leaf t) = tree_size t + 1"
  by (simp add: append_leaf_def split: prod.split)

fun stored :: "bytes option list \<Rightarrow> bytes list" where
  "stored [] = []"
| "stored (None # fs) = stored fs"
| "stored (Some h # fs) = h # stored fs"

lemma presents_levels: "x \<in> set (presents i fs) \<Longrightarrow> i \<le> fst x"
  by (induction i fs rule: presents.induct) auto

lemma presents_hashes: "map snd (presents i fs) = stored fs"
  by (induction i fs rule: presents.induct) auto

lemma presents_sorted: "sorted_wrt (\<lambda>x y. fst x < fst y) (presents i fs)"
  by (induction i fs rule: presents.induct) (auto simp: Suc_le_eq dest: presents_levels)

lemma presents_distinct: "distinct (map fst (presents i fs))"
  by (induction i fs rule: presents.induct) (auto dest: presents_levels)

lemma sort_presents: "sort_key (\<lambda>x. - int (fst x)) (presents i fs) = rev (presents i fs)"
proof (rule sort_key_inj_key_eq)
  have "sorted_wrt (\<lambda>x y. int (fst x) \<le> int (fst y)) (presents i fs)"
    using presents_sorted by (rule sorted_wrt_mono_rel [rotated]) simp
  then show "sorted (map (\<lambda>x. - int (fst x)) (rev (presents i fs)))"
    by (simp add: sorted_map sorted_wrt_rev)
  show "inj_on (\<lambda>x. - int (fst x)) (set (presents i fs))"
    using presents_distinct [of i fs] by (auto simp: distinct_map inj_on_def)
qed simp

lemma tree_root_presents:
  "tree_root t = (case stored (frontier t) of
     [] \<Rightarrow> empty_root
   | h # hs \<Rightarrow> foldl (\<lambda>acc h. node_hash h acc) h hs)"
proof -
  have "foldl (\<lambda>acc x. node_hash (snd x) acc) a ps = foldl (\<lambda>acc h. node_hash h acc) a (map snd ps)"
    for a and ps :: "(nat \<times> bytes) list"
    by (induction ps arbitrary: a) simp_all
  then show ?thesis
    unfolding tree_root_def Let_def sort_presents presents_hashes [of 0, symmetric]
    by (cases "presents 0 (frontier t)") (simp_all add: butlast_rev)
qed

section \<open>What a frontier stands for\<close>

fun frontier_of :: "nat \<Rightarrow> bytes option list \<Rightarrow> bytes list \<Rightarrow> bool" where
  "frontier_of i [] leaves \<longleftrightarrow> leaves = []"
| "frontier_of i (None # fs) leaves \<longleftrightarrow> frontier_of (Suc i) fs leaves"
| "frontier_of i (Some h # fs) leaves \<longleftrightarrow>
     (\<exists>xs ys. leaves = xs @ ys \<and> length ys = 2 ^ i \<and> h = tree_hash ys \<and> frontier_of (Suc i) fs xs)"

lemma frontier_of_carry_in:
  "frontier_of i fs xs \<Longrightarrow> length ys = 2 ^ i \<Longrightarrow> frontier_of i (carry_in (tree_hash ys) fs) (xs @ ys)"
proof (induction "tree_hash ys" fs arbitrary: i xs ys rule: carry_in.induct)
  case (3 l fs)
  then obtain us vs where split: "xs = us @ vs" "length vs = 2 ^ i" "l = tree_hash vs"
    "frontier_of (Suc i) fs us" by auto
  have "tree_hash (vs @ ys) = node_hash l (tree_hash ys)"
    using split 3(3) by (subst tree_hash_append) auto
  with 3(1) [of "vs @ ys" "Suc i" us] split 3(3) show ?case by simp
qed auto

lemma frontier_of_root:
  "frontier_of i fs xs \<Longrightarrow> ys \<noteq> [] \<Longrightarrow> length ys \<le> 2 ^ i \<Longrightarrow>
    foldl (\<lambda>acc h. node_hash h acc) (tree_hash ys) (stored fs) = tree_hash (xs @ ys)"
proof (induction i fs xs arbitrary: ys rule: frontier_of.induct)
  case (3 i h fs leaves)
  then obtain us vs where split: "leaves = us @ vs" "length vs = 2 ^ i" "h = tree_hash vs"
    "frontier_of (Suc i) fs us" by auto
  have "tree_hash (vs @ ys) = node_hash h (tree_hash ys)"
    using split 3(3,4) by (subst tree_hash_append) auto
  with 3(1) [of us "vs @ ys"] split 3(3,4) show ?case by simp
qed auto

lemma frontier_of_tree_root:
  "frontier_of i fs xs \<Longrightarrow> (case (stored fs) of
     [] \<Rightarrow> empty_root
   | h # hs \<Rightarrow> foldl (\<lambda>acc h. node_hash h acc) h hs) = tree_hash xs"
proof (induction i fs xs rule: frontier_of.induct)
  case (3 i h fs leaves)
  then obtain us vs where split: "leaves = us @ vs" "length vs = 2 ^ i" "h = tree_hash vs"
    "frontier_of (Suc i) fs us" by auto
  then have "vs \<noteq> []" by auto
  with frontier_of_root [OF split(4), of vs] split show ?case by simp
qed auto

definition stands_for :: "merkle_tree \<Rightarrow> bytes list \<Rightarrow> bool" where
  "stands_for t leaves \<longleftrightarrow> frontier_of 0 (frontier t) leaves \<and> tree_size t = length leaves"

lemma carry_in_last: "fs = [] \<or> last fs \<noteq> None \<Longrightarrow> carry_in h fs \<noteq> [] \<and> last (carry_in h fs) \<noteq> None"
  by (induction h fs rule: carry_in.induct) (auto split: if_splits)

lemma frontier_of_length:
  "frontier_of i fs xs \<Longrightarrow> fs \<noteq> [] \<Longrightarrow> last fs \<noteq> None \<Longrightarrow>
    2 ^ (i + length fs) \<le> 2 * length xs"
  by (induction i fs xs rule: frontier_of.induct) (fastforce split: if_splits)+

lemma stands_for_append: "stands_for t xs \<Longrightarrow> stands_for (append_leaf h t) (xs @ [h])"
  using frontier_of_carry_in [of 0 "frontier t" xs "[h]"]
  by (simp add: stands_for_def frontier_append_leaf)

lemma stands_for_root: "stands_for t xs \<Longrightarrow> tree_root t = tree_hash xs"
  using frontier_of_tree_root [of 0 "frontier t" xs] unfolding stands_for_def tree_root_presents
  by blast

section \<open>The interface the ledger uses\<close>

locale append_log =
  fixes start :: 's
    and add :: "'h \<Rightarrow> 's \<Rightarrow> 's"
    and count :: "'s \<Rightarrow> nat"
    and head :: "'s \<Rightarrow> 'd"
    and digest_of :: "'h list \<Rightarrow> 'd"
    and stands :: "'s \<Rightarrow> 'h list \<Rightarrow> bool"
  assumes start_stands: "stands start []"
    and add_stands: "stands s xs \<Longrightarrow> stands (add h s) (xs @ [h])"
    and count_stands: "stands s xs \<Longrightarrow> count s = length xs"
    and head_stands: "stands s xs \<Longrightarrow> head s = digest_of xs"
begin

lemma extend_stands: "stands s xs \<Longrightarrow> stands (foldl (\<lambda>s h. add h s) s ys) (xs @ ys)"
proof (induction ys arbitrary: s xs)
  case (Cons y ys)
  then show ?case using Cons.IH [OF add_stands [OF Cons.prems]] by simp
qed simp

lemma replay_stands: "stands (foldl (\<lambda>s h. add h s) start ys) ys"
  using extend_stands [OF start_stands] by simp

lemma replay_head: "head (foldl (\<lambda>s h. add h s) start ys) = digest_of ys"
  using replay_stands by (rule head_stands)

lemma replay_count: "count (foldl (\<lambda>s h. add h s) start ys) = length ys"
  using replay_stands by (rule count_stands)

lemma add_head: "stands s xs \<Longrightarrow> head (add h s) = digest_of (xs @ [h])"
  by (simp add: add_stands head_stands)

end

interpretation frontier: append_log empty_tree append_leaf tree_size tree_root tree_hash stands_for
proof unfold_locales
  show "stands_for empty_tree []" by (simp add: stands_for_def empty_tree_def)
qed (simp_all add: stands_for_append stands_for_root, simp add: stands_for_def)

lemma from_leaves_stands: "stands_for (from_leaves leaves) leaves"
  unfolding from_leaves_def by (rule frontier.replay_stands)

end
