(* ===== verification/Merkle_Properties.thy ===== *)
theory Merkle_Properties imports Merkle_Incremental begin

text \<open>
  The properties of \<open>merkle.py\<close>.  Soundness is stated against explicit transcripts: the
  strings that are hashed when the tree head is computed and when the proof is checked.  A
  proof that is accepted for something false exhibits a SHA-256 collision inside its
  transcript; no property of SHA-256 is assumed.
\<close>

section \<open>Transcripts\<close>

definition inclusion_transcript :: "bytes list \<Rightarrow> nat \<Rightarrow> bytes \<Rightarrow> bytes list \<Rightarrow> bytes list" where
  "inclusion_transcript leaves m leaf proof =
     tree_inputs leaves @ climb_inputs (path_dirs m (length leaves - 1)) proof leaf"

definition consistency_path :: "nat \<Rightarrow> bytes \<Rightarrow> bytes list \<Rightarrow> bytes list" where
  "consistency_path m first_root proof = (if is_pow2 m then first_root # proof else proof)"

definition consistency_transcript ::
  "bytes list \<Rightarrow> bytes list \<Rightarrow> bytes \<Rightarrow> bytes list \<Rightarrow> bytes list"
where
  "consistency_transcript old new first_root proof = tree_inputs old @ tree_inputs new @
     (case consistency_path (length old) first_root proof of
        [] \<Rightarrow> []
      | h # cs \<Rightarrow> (let ds = old_dirs (length old - 1) (length new - 1)
                  in climb_old_inputs ds cs h @ climb_inputs ds cs h))"

lemma verify_inclusion_range:
  "verify_inclusion m n leaf proof root \<Longrightarrow> 0 \<le> m \<and> m < n"
  by (auto simp: verify_inclusion_def split: if_splits)

lemma inclusion_sound_nat:
  assumes "digests leaves" "length leaf = 32"
    and "verify_inclusion m (int (length leaves)) leaf proof (tree_hash leaves)"
    and "\<not> collision (set (inclusion_transcript leaves (nat m) leaf proof))"
  shows "0 \<le> m \<and> m < int (length leaves) \<and> leaf = leaves ! nat m
    \<and> inclusion_proof leaves m = Inr proof"
proof -
  have m: "0 \<le> m" "nat m < length leaves" using verify_inclusion_range [OF assms(3)] by linarith+
  with assms(3) have "verify_inclusion (int (nat m)) (int (length leaves)) leaf proof (tree_hash leaves)"
    by simp
  then have climb: "length proof = length (path_dirs (nat m) (length leaves - 1))"
    "climb (path_dirs (nat m) (length leaves - 1)) proof leaf = tree_hash leaves"
    unfolding verify_inclusion_climb [OF m(2)] by simp_all
  have "leaf = leaves ! nat m \<and> inclusion_proof leaves (int (nat m)) = Inr proof"
    by (rule climb_sound [OF assms(4,1,2) m(2) climb]) (simp_all add: inclusion_transcript_def)
  with m show ?thesis by simp
qed

lemma length_path_dirs: "0 < sn \<Longrightarrow> 2 ^ length (path_dirs fn sn) \<le> 2 * sn"
proof (induction fn sn rule: path_dirs.induct)
  case (1 fn sn)
  show ?case
  proof (cases "sn div 2 = 0")
    case True
    with 1(4) have "sn = 1" by linarith
    then show ?thesis by (subst path_dirs.simps) simp
  next
    case False
    with 1 show ?thesis by (subst path_dirs.simps) auto
  qed
qed

section \<open>Inclusion\<close>

text \<open>
  C5. Soundness of inclusion proofs.  If \<open>verify_inclusion\<close> accepts a 32-byte leaf hash, an
  index and a proof against the head of a tree, then the index is inside the tree, the leaf
  is the one committed at that index and the proof is the generated one; or the strings
  hashed on the way contain two different ones with the same SHA-256 digest.
\<close>
theorem inclusion_sound:
  assumes "digests leaves" "length leaf = 32"
    and "verify_inclusion m (int (length leaves)) leaf proof (tree_hash leaves)"
  shows "(0 \<le> m \<and> m < int (length leaves) \<and> leaf = leaves ! nat m
      \<and> inclusion_proof leaves m = Inr proof)
    \<or> collision (set (inclusion_transcript leaves (nat m) leaf proof))"
  using inclusion_sound_nat [OF assms] by blast

definition three_leaves :: "bytes list" where
  "three_leaves = map (\<lambda>b. replicate 32 b) [1, 2, 3]"

definition two_leaves :: "bytes list" where
  "two_leaves = map (\<lambda>b. replicate 32 b) [1, 2]"

lemma three_leaves_simps [simp]:
  "length three_leaves = 3" "digests three_leaves" "three_leaves ! 2 = replicate 32 3"
  "three_leaves ! 0 = replicate 32 1"
  "take 2 three_leaves = two_leaves" "length two_leaves = 2" "digests two_leaves"
  "two_leaves \<noteq> []"
  by (auto simp: three_leaves_def two_leaves_def digests_def)

theorem inclusion_sound_witness:
  "\<exists>p. verify_inclusion 2 3 (replicate 32 3) p (tree_hash three_leaves) \<and>
    (inclusion_proof three_leaves 2 = Inr p
     \<or> collision (set (inclusion_transcript three_leaves 2 (replicate 32 3) p)))"
proof -
  have "(2::nat) < length three_leaves" by simp
  then obtain p where "verify_inclusion (int 2) (int (length three_leaves)) (three_leaves ! 2) p
      (tree_hash three_leaves)"
    by (rule generated_inclusion_verifies)
  then show ?thesis
    using inclusion_sound [of three_leaves "replicate 32 3" 2 p] by auto
qed

text \<open>
  C18. Completeness of inclusion proofs.  For every list of leaves and every Python integer,
  \<open>inclusion_proof\<close> either raises \<open>IndexError\<close>, exactly when the index is out of range, or
  returns a proof that \<open>verify_inclusion\<close> accepts for that leaf under the tree's head and
  whose length is logarithmic in the size of the tree.
\<close>
theorem inclusion_complete:
  "case inclusion_proof leaves m of
     Inl e \<Rightarrow> e = IndexError \<and> (m < 0 \<or> int (length leaves) \<le> m)
   | Inr p \<Rightarrow> 0 \<le> m \<and> m < int (length leaves)
       \<and> verify_inclusion m (int (length leaves)) (leaves ! nat m) p (tree_hash leaves)
       \<and> 2 ^ length p < 2 * length leaves"
proof (cases "0 \<le> m \<and> m < int (length leaves)")
  case True
  then have m: "nat m < length leaves" by linarith
  from inclusion_proof_complete [OF m] obtain p where
    p: "inclusion_proof leaves m = Inr p" "length p = length (path_dirs (nat m) (length leaves - 1))"
      "climb (path_dirs (nat m) (length leaves - 1)) p (leaves ! nat m) = tree_hash leaves"
    using True by auto
  have "verify_inclusion m (int (length leaves)) (leaves ! nat m) p (tree_hash leaves)"
    using verify_inclusion_climb [OF m] p True by simp
  moreover have "2 ^ length p < 2 * length leaves"
  proof (cases "length leaves - 1 = 0")
    case True
    then show ?thesis using p(2) m by simp
  next
    case False
    then have "2 ^ length p \<le> 2 * (length leaves - 1)"
      using length_path_dirs [of "length leaves - 1" "nat m"] p(2) by simp
    with False show ?thesis by linarith
  qed
  ultimately show ?thesis using p True by simp
next
  case False
  then show ?thesis by (subst inclusion_proof.simps) (auto simp: Let_def)
qed

section \<open>Consistency\<close>

lemma consistency_binds:
  assumes "digests old" "digests new" "old \<noteq> []"
    and "verify_consistency (int (length old)) (int (length new)) (tree_hash old) (tree_hash new) proof"
  shows "old = take (length old) new
    \<or> collision (set (consistency_transcript old new (tree_hash old) proof))"
proof (cases "length old < length new")
  case True
  have pos: "0 < length old" using assms(3) by simp
  from assms(4) obtain h cs where path: "consistency_path (length old) (tree_hash old) proof = h # cs"
    and climb: "length cs = length (old_dirs (length old - 1) (length new - 1))"
      "climb_old (old_dirs (length old - 1) (length new - 1)) cs h = tree_hash old"
      "climb (old_dirs (length old - 1) (length new - 1)) cs h = tree_hash new"
    unfolding verify_consistency_climb [OF pos True] consistency_path_def append_Cons append_Nil
    by blast
  show ?thesis
  proof (rule disjCI)
    assume "\<not> collision (set (consistency_transcript old new (tree_hash old) proof))"
    then show "old = take (length old) new"
      by (rule consistency_climb_sound [OF _ pos True assms(1,2) climb])
        (auto simp: consistency_transcript_def path Let_def)
  qed
next
  case False
  with assms(4) have len: "length old = length new" and "tree_hash old = tree_hash new"
    by (auto simp: verify_consistency_def split: if_splits)
  with assms(1,2) have "\<not> collision (set (tree_inputs old @ tree_inputs new)) \<Longrightarrow> old = new"
    by (intro tree_hash_inject) auto
  moreover have "collision (set (tree_inputs old @ tree_inputs new)) \<Longrightarrow>
      collision (set (consistency_transcript old new (tree_hash old) proof))"
    by (rule collision_mono) (auto simp: consistency_transcript_def)
  ultimately show ?thesis using len by auto
qed

text \<open>
  C6. Soundness of consistency proofs.  If \<open>verify_consistency\<close> accepts a proof between the
  heads of a smaller and a larger tree, neither of which need be trusted to extend the other,
  then the smaller tree's leaves are a prefix of the larger tree's: nothing committed was
  changed, dropped or reordered; or the strings hashed on the way contain a collision.
\<close>
theorem consistency_sound:
  assumes "digests old" "digests new" "old \<noteq> []"
    and "verify_consistency (int (length old)) (int (length new)) (tree_hash old) (tree_hash new) proof"
  shows "old = take (length old) new
    \<or> collision (set (consistency_transcript old new (tree_hash old) proof))"
  using assms by (rule consistency_binds)

theorem consistency_sound_witness:
  "\<exists>p. verify_consistency 2 3 (tree_hash two_leaves) (tree_hash three_leaves) p \<and>
    (two_leaves = take 2 three_leaves
     \<or> collision (set (consistency_transcript two_leaves three_leaves (tree_hash two_leaves) p)))"
proof -
  have "(0::nat) < 2" "(2::nat) \<le> length three_leaves" by simp_all
  then obtain p where "verify_consistency (int 2) (int (length three_leaves))
      (tree_hash (take 2 three_leaves)) (tree_hash three_leaves) p"
    by (rule generated_consistency_verifies)
  then show ?thesis
    using consistency_sound [of two_leaves three_leaves p] by auto
qed

text \<open>
  C19. Completeness of consistency proofs.  For every list of leaves and every Python integer,
  \<open>consistency_proof\<close> raises \<open>ValueError\<close> exactly when the old size is not positive or too
  large, never runs into the recursion limit of \<open>_subproof\<close>, and otherwise returns a proof that
  \<open>verify_consistency\<close> accepts between the head of that prefix and the current head.
\<close>
theorem consistency_complete:
  "case consistency_proof leaves m of
     Inl e \<Rightarrow> e = ValueError \<and> (m \<le> 0 \<or> int (length leaves) < m)
   | Inr p \<Rightarrow> 0 < m \<and> m \<le> int (length leaves)
       \<and> verify_consistency m (int (length leaves)) (tree_hash (take (nat m) leaves))
           (tree_hash leaves) p"
proof (cases "0 < m \<and> m \<le> int (length leaves)")
  case True
  then have "0 < nat m" "nat m \<le> length leaves" by linarith+
  then obtain p where "consistency_proof leaves (int (nat m)) = Inr p"
    "verify_consistency (int (nat m)) (int (length leaves)) (tree_hash (take (nat m) leaves))
       (tree_hash leaves) p"
    by (rule generated_consistency_verifies)
  with True show ?thesis by simp
next
  case False
  then show ?thesis by (auto simp: consistency_proof_def Let_def)
qed

text \<open> The verifier does not check the sign of the first size: \<open>verify_consistency\<close> accepts, for
  any root, a one-element "proof" between a tree of \<open>-2\<close> leaves and a tree of one leaf.
\<close>
theorem verify_consistency_negative_size:
  "verify_consistency (- 2) 1 r r [r]"
proof -
  have "strip_ones (- 3, 0) = (- 2, 0)"
    unfolding strip_ones_def by (simp add: while_unfold)
  then show ?thesis by (simp add: verify_consistency_def)
qed

section \<open>The incremental tree\<close>

text \<open>
  C17. The frontier tree is a drop-in replacement for the recursive hash: after any sequence
  of appends its root is the \<open>tree_hash\<close> of the appended leaves, its size their number, and it
  keeps at most one hash per binary digit of the size.
\<close>
theorem incremental_root:
  "tree_root (from_leaves leaves) = tree_hash leaves
   \<and> tree_size (from_leaves leaves) = length leaves
   \<and> 2 ^ length (frontier (from_leaves leaves)) \<le> 2 * length leaves + 1"
proof -
  have "frontier (from_leaves leaves) = [] \<or> last (frontier (from_leaves leaves)) \<noteq> None"
    unfolding from_leaves_def
    by (induction leaves rule: rev_induct)
      (auto simp: empty_tree_def frontier_append_leaf carry_in_last)
  with from_leaves_stands [of leaves] frontier_of_length [of 0 "frontier (from_leaves leaves)" leaves]
  show ?thesis
    unfolding stands_for_def from_leaves_def frontier.replay_head
    by (cases "frontier (foldl (\<lambda>t h. append_leaf h t) empty_tree leaves) = []") auto
qed

section \<open>Shards\<close>

text \<open> An event accepted by \<open>verify_sharded_inclusion\<close> under the super-root of a set of shards is
  the leaf committed at that index of that shard, or a collision is exhibited: the shard root
  that travels with the proof need not be trusted.
\<close>
theorem sharded_inclusion_sound:
  assumes "\<forall>s \<in> set shards. digests s" "0 \<le> i" "nat i < length shards"
    and "length leaf = 32"
    and "verify_sharded_inclusion leaf j (int (length (shards ! nat i))) shard_proof shard_root
      i (int (length shards)) super_proof (shard_super_root (map tree_hash shards))"
  shows "(0 \<le> j \<and> j < int (length (shards ! nat i)) \<and> leaf = shards ! nat i ! nat j
      \<and> shard_root = tree_hash (shards ! nat i))
    \<or> collision (set (inclusion_transcript (shards ! nat i) (nat j) leaf shard_proof)
        \<union> set (inclusion_transcript (map (leaf_hash \<circ> tree_hash) shards) (nat i)
                (leaf_hash shard_root) super_proof)
        \<union> {leaf_prefix @ shard_root, leaf_prefix @ tree_hash (shards ! nat i)})"
proof (rule disjCI)
  let ?S = "shards ! nat i" and ?roots = "map (leaf_hash \<circ> tree_hash) shards"
  let ?A = "set (inclusion_transcript ?S (nat j) leaf shard_proof)"
    and ?B = "set (inclusion_transcript ?roots (nat i) (leaf_hash shard_root) super_proof)"
    and ?C = "{leaf_prefix @ shard_root, leaf_prefix @ tree_hash ?S}"
  assume no_col: "\<not> collision (?A \<union> ?B \<union> ?C)"
  from assms(5) have ok: "verify_inclusion j (int (length ?S)) leaf shard_proof shard_root"
    "verify_inclusion i (int (length ?roots)) (leaf_hash shard_root) super_proof (tree_hash ?roots)"
    by (auto simp: verify_sharded_inclusion_def shard_super_root_def split: if_splits)
  have "\<not> collision ?B" using no_col collision_mono [of ?B "?A \<union> ?B \<union> ?C"] by blast
  moreover have "digests ?roots" by (auto simp: digests_def)
  ultimately have "leaf_hash shard_root = ?roots ! nat i"
    using inclusion_sound_nat [OF _ _ ok(2)] by simp
  then have "leaf_hash shard_root = leaf_hash (tree_hash ?S)" using assms(3) by simp
  with no_col have root: "shard_root = tree_hash ?S"
    unfolding collision_def leaf_hash_def by blast
  have "\<not> collision ?A" using no_col collision_mono [of ?A "?A \<union> ?B \<union> ?C"] by blast
  moreover have "digests ?S" using assms(1) nth_mem [OF assms(3)] by blast
  ultimately show "0 \<le> j \<and> j < int (length ?S) \<and> leaf = ?S ! nat j \<and> shard_root = tree_hash ?S"
    using inclusion_sound_nat [OF _ assms(4) ok(1) [unfolded root]] root by blast
qed

theorem sharded_inclusion_sound_witness:
  "\<exists>p q. verify_sharded_inclusion (replicate 32 3) 2 3 p (tree_hash three_leaves) 1 2 q
      (shard_super_root (map tree_hash [two_leaves, three_leaves]))
    \<and> (replicate 32 3 = three_leaves ! 2
      \<or> collision (set (inclusion_transcript three_leaves 2 (replicate 32 3) p)
        \<union> set (inclusion_transcript (map (leaf_hash \<circ> tree_hash) [two_leaves, three_leaves]) 1
                (leaf_hash (tree_hash three_leaves)) q)
        \<union> {leaf_prefix @ tree_hash three_leaves}))"
proof -
  let ?roots = "map (leaf_hash \<circ> tree_hash) [two_leaves, three_leaves]"
  have "(2::nat) < length three_leaves" by simp
  then obtain p where p: "verify_inclusion (int 2) (int (length three_leaves)) (three_leaves ! 2) p
      (tree_hash three_leaves)"
    by (rule generated_inclusion_verifies)
  have "(1::nat) < length ?roots" by simp
  then obtain q where q: "verify_inclusion (int 1) (int (length ?roots)) (?roots ! 1) q
      (tree_hash ?roots)"
    by (rule generated_inclusion_verifies)
  have ok: "verify_sharded_inclusion (replicate 32 3) 2 3 p (tree_hash three_leaves) 1 2 q
      (shard_super_root (map tree_hash [two_leaves, three_leaves]))"
    using p q by (simp add: verify_sharded_inclusion_def shard_super_root_def)
  then show ?thesis
    using sharded_inclusion_sound [of "[two_leaves, three_leaves]" 1 "replicate 32 3" 2 p
        "tree_hash three_leaves" q]
    by auto
qed

end
