(* ===== verification/Py_Text.thy ===== *)
theory Py_Text imports Prelude begin

text \<open>
  Python's conversions between text and bytes, as the source uses them: UTF-8
  encoding, \<open>bytes.hex\<close> and \<open>bytes.fromhex\<close>, \<open>base64.b64encode\<close> and the lenient
  \<open>base64.b64decode\<close>, \<open>str.split\<close> and \<open>str(int)\<close>.  Decoders return \<open>Inl ValueError\<close> where
  Python raises \<open>ValueError\<close> (or its subclass \<open>binascii.Error\<close>).
\<close>

section \<open>Characters and bytes\<close>

definition byte_of :: "char \<Rightarrow> 8 word" where
  "byte_of c = of_char c"

definition char_of_byte :: "8 word \<Rightarrow> char" where
  "char_of_byte b = char_of (unat b)"

definition encode_utf8 :: "string \<Rightarrow> bytes" where
  "encode_utf8 s = map byte_of s"

definition decode_bytes :: "bytes \<Rightarrow> string" where
  "decode_bytes bs = map char_of_byte bs"

lemma unat_less_256: "unat (b :: 8 word) < 256"
  using unsigned_less [of b, where ?'a = nat] by simp

lemma unat_byte_of: "unat (byte_of c) = of_char c"
proof -
  have "byte_of c = word_of_nat (of_char c)"
    unfolding byte_of_def by (rule of_nat_of_char [symmetric])
  moreover have "(of_char c :: nat) < 256" by simp
  ultimately show ?thesis by (simp add: unat_of_nat)
qed

lemma char_of_byte_of [simp]: "char_of_byte (byte_of c) = c"
  by (simp add: char_of_byte_def unat_byte_of)

lemma byte_of_char_of_byte [simp]: "byte_of (char_of_byte b) = b"
  unfolding word_unat_eq_iff by (simp add: unat_byte_of char_of_byte_def unat_less_256)

lemma byte_of_inject [simp]: "byte_of c = byte_of d \<longleftrightarrow> c = d"
  by (metis char_of_byte_of)

lemma decode_encode [simp]: "decode_bytes (encode_utf8 s) = s"
  by (simp add: decode_bytes_def encode_utf8_def comp_def)

lemma encode_decode [simp]: "encode_utf8 (decode_bytes bs) = bs"
  by (simp add: decode_bytes_def encode_utf8_def comp_def)

lemma encode_utf8_inject [simp]: "encode_utf8 s = encode_utf8 t \<longleftrightarrow> s = t"
  by (metis decode_encode)

lemma encode_utf8_append [simp]: "encode_utf8 (s @ t) = encode_utf8 s @ encode_utf8 t"
  by (simp add: encode_utf8_def)

section \<open>Hexadecimal\<close>

definition hex_digits :: string where
  "hex_digits = ''0123456789abcdef''"

definition hex_char :: "nat \<Rightarrow> char" where
  "hex_char n = hex_digits ! (n mod 16)"

definition hex_of_byte :: "8 word \<Rightarrow> string" where
  "hex_of_byte b = [hex_char (unat b div 16), hex_char (unat b mod 16)]"

definition hex :: "bytes \<Rightarrow> string" where
  "hex bs = concat (map hex_of_byte bs)"

fun index_of :: "'a \<Rightarrow> 'a list \<Rightarrow> nat option" where
  "index_of x [] = None"
| "index_of x (y # ys) = (if x = y then Some 0 else map_option Suc (index_of x ys))"

definition hex_val :: "char \<Rightarrow> nat option" where
  "hex_val c = (case index_of c hex_digits of
     Some n \<Rightarrow> Some n
   | None \<Rightarrow> map_option (\<lambda>n. n + 10) (index_of c ''ABCDEF''))"

definition is_space :: "char \<Rightarrow> bool" where
  "is_space c \<longleftrightarrow> of_char c \<in> {9, 10, 11, 12, 13, 32 :: nat}"

fun fromhex :: "string \<Rightarrow> bytes result" where
  "fromhex [] = Inr []"
| "fromhex [c] = (if is_space c then Inr [] else Inl ValueError)"
| "fromhex (c # d # cs) =
     (if is_space c then fromhex (d # cs)
      else case (hex_val c, hex_val d) of
        (Some h, Some l) \<Rightarrow> sbind (fromhex cs) (\<lambda>bs. Inr (word_of_nat (16 * h + l) # bs))
      | _ \<Rightarrow> Inl ValueError)"

lemma hex_table:
  "\<forall>n \<in> set [0..<16]. hex_val (hex_char n) = Some n \<and> \<not> is_space (hex_char n)"
  by code_simp

lemma hex_char_facts [simp]:
  "n < 16 \<Longrightarrow> hex_val (hex_char n) = Some n" "n < 16 \<Longrightarrow> \<not> is_space (hex_char n)"
  using hex_table by simp_all

lemma nibbles: "word_of_nat (16 * (unat b div 16) + unat b mod 16) = (b :: 8 word)"
  by (simp only: mult_div_mod_eq of_nat_unat ucast_id)

lemma nibble_bounds: "unat (b :: 8 word) div 16 < 16" "unat (b :: 8 word) mod 16 < 16"
  using unat_less_256 [of b] by (simp_all add: div_less_iff_less_mult)

lemma hex_Nil [simp]: "hex [] = []"
  by (simp add: hex_def)

lemma hex_Cons: "hex (b # bs) = hex_char (unat b div 16) # hex_char (unat b mod 16) # hex bs"
  by (simp add: hex_def hex_of_byte_def)

lemma hex_append [simp]: "hex (a @ b) = hex a @ hex b"
  by (simp add: hex_def)

lemma fromhex_hex [simp]: "fromhex (hex bs) = Inr bs"
proof (induction bs)
  case (Cons b bs)
  then show ?case
    by (simp only: hex_Cons fromhex.simps hex_char_facts nibble_bounds if_False option.case
        prod.case sbind.simps nibbles)
qed simp

lemma hex_inject [simp]: "hex a = hex b \<longleftrightarrow> a = b"
  by (metis fromhex_hex sum.inject(2))

lemma length_hex [simp]: "length (hex bs) = 2 * length bs"
  by (induction bs) (simp_all add: hex_Cons)

lemma set_hex: "c \<in> set (hex bs) \<Longrightarrow> c \<in> set hex_digits"
proof (induction bs)
  case (Cons b bs)
  have "hex_char n \<in> set hex_digits" for n
    unfolding hex_char_def by (rule nth_mem) (simp add: hex_digits_def)
  with Cons show ?case by (auto simp: hex_Cons)
qed simp

section \<open>Splitting\<close>

text \<open>\<open>str.split(sep)\<close> for a one-character separator; the result is never empty.\<close>

fun split_at :: "char \<Rightarrow> string \<Rightarrow> string list" where
  "split_at sep [] = [[]]"
| "split_at sep (c # cs) =
     (if c = sep then [] # split_at sep cs
      else case split_at sep cs of
        [] \<Rightarrow> [[c]]
      | w # ws \<Rightarrow> (c # w) # ws)"

lemma split_at_not_Nil [simp]: "split_at sep s \<noteq> []"
  by (induction s) (auto split: list.splits)

lemma split_at_no_sep: "sep \<notin> set s \<Longrightarrow> split_at sep s = [s]"
  by (induction s) auto

lemma split_at_more: "sep \<in> set s \<Longrightarrow> tl (split_at sep s) \<noteq> []"
  by (induction s) (auto split: list.splits)

lemma split_at_snoc:
  "sep \<notin> set s \<Longrightarrow> last (split_at sep (p @ sep # s)) = s"
proof (induction p)
  case (Cons c p)
  have "tl (split_at sep (p @ sep # s)) \<noteq> []" by (rule split_at_more) simp
  with Cons show ?case by (auto split: list.splits)
qed (simp add: split_at_no_sep)

section \<open>Decimal numbers\<close>

fun digits_of :: "nat \<Rightarrow> string" where
  "digits_of n = (if n < 10 then [hex_char n] else digits_of (n div 10) @ [hex_char (n mod 10)])"

declare digits_of.simps [simp del]

definition str_of_int :: "int \<Rightarrow> string" where
  "str_of_int i = (if i < 0 then ''-'' @ digits_of (nat (- i)) else digits_of (nat i))"

definition digit_val :: "char \<Rightarrow> nat option" where
  "digit_val c = index_of c ''0123456789''"

definition is_digit :: "char \<Rightarrow> bool" where
  "is_digit c \<longleftrightarrow> c \<in> set ''0123456789''"

fun nat_of_digits :: "nat \<Rightarrow> string \<Rightarrow> nat" where
  "nat_of_digits acc [] = acc"
| "nat_of_digits acc (c # cs) =
     nat_of_digits (10 * acc + (case digit_val c of Some d \<Rightarrow> d | None \<Rightarrow> 0)) cs"

lemma digit_table:
  "\<forall>n \<in> set [0..<10]. is_digit (hex_char n) \<and> digit_val (hex_char n) = Some n
     \<and> (hex_char n = CHR ''0'' \<longleftrightarrow> n = 0)"
  by code_simp

lemma digit_char [simp]:
  "n < 10 \<Longrightarrow> is_digit (hex_char n)" "n < 10 \<Longrightarrow> digit_val (hex_char n) = Some n"
  "n < 10 \<Longrightarrow> hex_char n = CHR ''0'' \<longleftrightarrow> n = 0"
  using digit_table by auto

lemma digits_of_all: "c \<in> set (digits_of n) \<Longrightarrow> is_digit c"
proof (induction n rule: digits_of.induct)
  case (1 n)
  then show ?case by (cases "n < 10") (auto simp: digits_of.simps [of n])
qed

lemma digits_of_not_Nil [simp]: "digits_of n \<noteq> []"
  by (subst digits_of.simps) simp

lemma nat_of_digits_append: "nat_of_digits acc (s @ t) = nat_of_digits (nat_of_digits acc s) t"
  by (induction s arbitrary: acc) simp_all

lemma nat_of_digits_of [simp]: "nat_of_digits 0 (digits_of n) = n"
proof (induction n rule: digits_of.induct)
  case (1 n)
  then show ?case by (subst digits_of.simps) (auto simp: nat_of_digits_append)
qed

lemma digits_of_leading: "n \<noteq> 0 \<Longrightarrow> hd (digits_of n) \<noteq> CHR ''0''"
proof (induction n rule: digits_of.induct)
  case (1 n)
  then show ?case by (subst digits_of.simps) (auto simp: hd_append)
qed

lemma digits_of_0 [simp]: "digits_of 0 = ''0''"
  by (subst digits_of.simps) (simp add: hex_char_def hex_digits_def)

section \<open>Base64\<close>

definition b64_alphabet :: string where
  "b64_alphabet = ''ABCDEFGHIJKLMNOPQRSTUVWXYZabcdefghijklmnopqrstuvwxyz0123456789+/''"

definition b64_char :: "nat \<Rightarrow> char" where
  "b64_char n = b64_alphabet ! (n mod 64)"

fun b64encode :: "bytes \<Rightarrow> string" where
  "b64encode [] = []"
| "b64encode [a] = [b64_char (unat a div 4), b64_char (unat a mod 4 * 16), CHR ''='', CHR ''='']"
| "b64encode [a, b] =
     [b64_char (unat a div 4), b64_char (unat a mod 4 * 16 + unat b div 16),
      b64_char (unat b mod 16 * 4), CHR ''='']"
| "b64encode (a # b # c # rest) =
     b64_char (unat a div 4) # b64_char (unat a mod 4 * 16 + unat b div 16)
       # b64_char (unat b mod 16 * 4 + unat c div 64) # b64_char (unat c mod 64)
       # b64encode rest"

text \<open>
  \<open>binascii.a2b_base64\<close> in its default, non-strict mode: characters outside the alphabet are
  skipped (a character outside ASCII is an error already), padding is counted, decoding stops once a group of four is completed by padding,
  and an unfinished group is an error.  \<open>quad\<close> is the position in the group, \<open>pads\<close> the
  number of padding characters seen since the last data character, \<open>left\<close> the bits carried.
\<close>

fun a2b_loop :: "nat \<Rightarrow> nat \<Rightarrow> nat \<Rightarrow> string \<Rightarrow> bytes result" where
  "a2b_loop quad pads left [] = (if quad = 0 then Inr [] else Inl ValueError)"
| "a2b_loop quad pads left (c # cs) =
     (if c = CHR ''='' then
        (if 2 \<le> quad \<and> 4 \<le> quad + pads + 1 then Inr []
         else a2b_loop quad (if 2 \<le> quad then pads + 1 else pads) left cs)
      else case index_of c b64_alphabet of
        None \<Rightarrow> a2b_loop quad pads left cs
      | Some v \<Rightarrow>
          (if quad = 0 then a2b_loop 1 0 v cs
           else if quad = 1 then
             sbind (a2b_loop 2 0 (v mod 16) cs) (\<lambda>bs. Inr (word_of_nat (left * 4 + v div 16) # bs))
           else if quad = 2 then
             sbind (a2b_loop 3 0 (v mod 4) cs) (\<lambda>bs. Inr (word_of_nat (left * 16 + v div 4) # bs))
           else
             sbind (a2b_loop 0 0 0 cs) (\<lambda>bs. Inr (word_of_nat (left * 64 + v) # bs))))"

definition b64decode :: "string \<Rightarrow> bytes result" where
  "b64decode s =
     (if list_all (\<lambda>c. of_char c < (128::nat)) s then a2b_loop 0 0 0 s else Inl ValueError)"

lemma b64_table:
  "\<forall>n \<in> set [0..<64]. index_of (b64_char n) b64_alphabet = Some n \<and> b64_char n \<noteq> CHR ''=''"
  by code_simp

lemma b64_char_facts [simp]:
  "n < 64 \<Longrightarrow> index_of (b64_char n) b64_alphabet = Some n"
  "n < 64 \<Longrightarrow> b64_char n \<noteq> CHR ''=''"
  using b64_table by simp_all

lemma sextets:
  fixes a b c :: "8 word"
  shows "unat a div 4 < 64" "unat a mod 4 * 16 + unat b div 16 < 64" "unat a mod 4 * 16 < 64"
    "unat b mod 16 * 4 + unat c div 64 < 64" "unat b mod 16 * 4 < 64" "unat c mod 64 < 64"
  using unat_less_256 [of a] unat_less_256 [of b] unat_less_256 [of c] by linarith+

lemma join_quot: "(q::nat) < n \<Longrightarrow> (p * n + q) div n = p" "(q::nat) < n \<Longrightarrow> (p * n + q) mod n = q"
  by simp_all

lemma octets:
  fixes a b c :: "8 word"
  shows "word_of_nat (unat a div 4 * 4 + (unat a mod 4 * 16 + unat b div 16) div 16) = a"
    and "word_of_nat (unat a div 4 * 4 + unat a mod 4 * 16 div 16) = a"
    and "word_of_nat ((unat a mod 4 * 16 + unat b div 16) mod 16 * 16
       + (unat b mod 16 * 4 + unat c div 64) div 4) = b"
    and "word_of_nat ((unat a mod 4 * 16 + unat b div 16) mod 16 * 16 + unat b mod 16 * 4 div 4) = b"
    and "word_of_nat ((unat b mod 16 * 4 + unat c div 64) mod 4 * 64 + unat c mod 64) = c"
proof -
  have "unat b div 16 < 16" "unat c div 64 < 4"
    using unat_less_256 [of b] unat_less_256 [of c] by linarith+
  note j = join_quot [OF this(1)] join_quot [OF this(2)]
  have "p * 16 div 16 = p" "p * 4 div 4 = p" for p :: nat by simp_all
  note k = this div_mult_mod_eq of_nat_unat ucast_id
  show "word_of_nat (unat a div 4 * 4 + (unat a mod 4 * 16 + unat b div 16) div 16) = a"
    and "word_of_nat (unat a div 4 * 4 + unat a mod 4 * 16 div 16) = a"
    and "word_of_nat ((unat a mod 4 * 16 + unat b div 16) mod 16 * 16
       + (unat b mod 16 * 4 + unat c div 64) div 4) = b"
    and "word_of_nat ((unat a mod 4 * 16 + unat b div 16) mod 16 * 16 + unat b mod 16 * 4 div 4) = b"
    and "word_of_nat ((unat b mod 16 * 4 + unat c div 64) mod 4 * 64 + unat c mod 64) = c"
    by (simp_all only: j k)
qed

lemma a2b_group:
  assumes "v < 64" "w < 64"
  shows "a2b_loop 0 p l (b64_char v # b64_char w # cs) =
    sbind (a2b_loop 2 0 (w mod 16) cs) (\<lambda>bs. Inr (word_of_nat (v * 4 + w div 16) # bs))"
    and "a2b_loop 2 p l (b64_char v # b64_char w # cs) =
    sbind (a2b_loop 0 0 0 cs)
      (\<lambda>bs. Inr (word_of_nat (l * 16 + v div 4) # word_of_nat (v mod 4 * 64 + w) # bs))"
  using assms by (simp_all del: of_nat_add of_nat_mult) (cases "a2b_loop 0 0 0 cs"; simp)

lemma a2b_padding:
  "v < 64 \<Longrightarrow> a2b_loop 2 p l [b64_char v, CHR ''=''] = Inr [word_of_nat (l * 16 + v div 4)]"
  "a2b_loop 2 0 l [CHR ''='', CHR ''=''] = Inr []" "a2b_loop 0 p l [] = Inr []"
  by (simp_all del: of_nat_add of_nat_mult)

lemma b64_ascii: "\<forall>n \<in> set [0..<64]. of_char (b64_char n) < (128::nat)"
  by code_simp

lemma b64_char_ascii: "of_char (b64_char n) < (128::nat)"
proof -
  have "of_char (b64_char (n mod 64)) < (128::nat)" using b64_ascii by simp
  then show ?thesis by (simp add: b64_char_def)
qed

lemma b64encode_ascii: "list_all (\<lambda>c. of_char c < (128::nat)) (b64encode bs)"
  by (induction bs rule: b64encode.induct) (simp_all add: b64_char_ascii)

lemma a2b_b64encode: "a2b_loop 0 0 0 (b64encode bs) = Inr bs"
  by (induction bs rule: b64encode.induct)
    (simp_all only: b64encode.simps a2b_group a2b_padding sextets octets sbind.simps)

lemma b64_roundtrip [simp]: "b64decode (b64encode bs) = Inr bs"
  by (simp add: b64decode_def b64encode_ascii a2b_b64encode)

end
