(* ===== verification/Py_Json.thy ===== *)
theory Py_Json imports Py_Text "HOL-Library.Char_ord" "HOL-Library.List_Lexorder" begin

text \<open>
  The values JSON-shaped Python data is made of, \<open>json.dumps\<close> with the compact separators and
  \<open>ensure_ascii=False\<close>, and \<open>json.loads\<close>.  A dictionary is the list of its items in insertion
  order.  The type is parametric in the keys because Python dictionaries may have keys that
  are not strings; \<open>json\<close> is the case where they all are.  A float is named by its \<open>repr\<close>.
  The round trip \<open>loads_dumps\<close> makes the printed text injective.
\<close>

datatype 'k pyv =
    JNull
  | JBool bool
  | JInt int
  | JFloat string
  | JStr string
  | JList "'k pyv list"
  | JDict "('k \<times> 'k pyv) list"

type_synonym json = "string pyv"
type_synonym dict = "(string \<times> json) list"

section \<open>Dictionaries\<close>

definition dget :: "dict \<Rightarrow> string \<Rightarrow> json option" where
  "dget d k = map_of d k"

definition dput :: "string \<Rightarrow> 'v \<Rightarrow> (string \<times> 'v) list \<Rightarrow> (string \<times> 'v) list" where
  "dput k v d = AList.update k v d"

definition dget_or :: "('k \<times> 'v) list \<Rightarrow> 'k \<Rightarrow> 'v \<Rightarrow> 'v" where
  "dget_or d k dflt = (case map_of d k of None \<Rightarrow> dflt | Some v \<Rightarrow> v)"

definition dpop :: "string \<Rightarrow> (string \<times> 'v) list \<Rightarrow> (string \<times> 'v) list" where
  "dpop k d = filter (\<lambda>(k', v). k' \<noteq> k) d"

lemma dput_fresh: "k \<notin> fst ` set d \<Longrightarrow> dput k v d = d @ [(k, v)]"
  unfolding dput_def by (induction d) auto

lemma keys_dpop: "fst ` set (dpop k d) = fst ` set d - {k}"
  by (auto simp: dpop_def image_iff)

lemma distinct_dpop [intro]: "distinct (map fst d) \<Longrightarrow> distinct (map fst (dpop k d))"
  unfolding dpop_def by (induction d) auto

lemma dpop_append [simp]: "dpop k (a @ b) = dpop k a @ dpop k b"
  by (simp add: dpop_def)

lemma dpop_absent: "k \<notin> fst ` set d \<Longrightarrow> dpop k d = d"
  unfolding dpop_def by (induction d) auto

section \<open>Printing\<close>

definition quote_char :: char where
  "quote_char = CHR 0x22"

definition backslash :: char where
  "backslash = CHR 0x5C"

definition esc_char :: "char \<Rightarrow> string" where
  "esc_char c =
     (if c = CHR 0x22 then [CHR 0x5C, CHR 0x22]
      else if c = CHR 0x5C then [CHR 0x5C, CHR 0x5C]
      else if c = CHR 0x0A then [CHR 0x5C, CHR ''n'']
      else if c = CHR 0x0D then [CHR 0x5C, CHR ''r'']
      else if c = CHR 0x09 then [CHR 0x5C, CHR ''t'']
      else if c = CHR 0x0C then [CHR 0x5C, CHR ''f'']
      else if c = CHR 0x08 then [CHR 0x5C, CHR ''b'']
      else if of_char c < (32::nat) then
        [CHR 0x5C, CHR ''u'', CHR ''0'', CHR ''0'', hex_char (of_char c div 16),
         hex_char (of_char c mod 16)]
      else [c])"

definition dump_str :: "string \<Rightarrow> string" where
  "dump_str s = quote_char # concat (map esc_char s) @ [quote_char]"

text \<open>The two infinities and NaN, whose \<open>repr\<close> is not the token of \<open>json\<close>.\<close>

definition float_token :: "string \<Rightarrow> string" where
  "float_token r =
     (if r = ''inf'' then ''Infinity'' else if r = ''-inf'' then ''-Infinity''
      else if r = ''nan'' then ''NaN'' else r)"

fun dumps :: "json \<Rightarrow> string"
  and dump_items :: "json list \<Rightarrow> string"
  and dump_members :: "dict \<Rightarrow> string"
where
  "dumps JNull = ''null''"
| "dumps (JBool b) = (if b then ''true'' else ''false'')"
| "dumps (JInt i) = str_of_int i"
| "dumps (JFloat r) = float_token r"
| "dumps (JStr s) = dump_str s"
| "dumps (JList []) = ''[]''"
| "dumps (JList (x # xs)) = ''['' @ dumps x @ dump_items xs"
| "dumps (JDict []) = ''{}''"
| "dumps (JDict ((k, v) # kvs)) = ''{'' @ dump_str k @ '':'' @ dumps v @ dump_members kvs"
| "dump_items [] = '']''"
| "dump_items (x # xs) = '','' @ dumps x @ dump_items xs"
| "dump_members [] = ''}''"
| "dump_members ((k, v) # kvs) = '','' @ dump_str k @ '':'' @ dumps v @ dump_members kvs"

fun sort_keys :: "json \<Rightarrow> json"
  and sort_items :: "json list \<Rightarrow> json list"
  and sort_values :: "dict \<Rightarrow> dict"
where
  "sort_keys (JList xs) = JList (sort_items xs)"
| "sort_keys (JDict kvs) = JDict (sort_key fst (sort_values kvs))"
| "sort_keys j = j"
| "sort_items [] = []"
| "sort_items (x # xs) = sort_keys x # sort_items xs"
| "sort_values [] = []"
| "sort_values ((k, v) # kvs) = (k, sort_keys v) # sort_values kvs"

section \<open>Parsing\<close>

definition skip_ws :: "string \<Rightarrow> string" where
  "skip_ws s = dropWhile (\<lambda>c. of_char c \<in> {9, 10, 13, 32 :: nat}) s"

definition hex4 :: "string \<Rightarrow> (nat \<times> string) option" where
  "hex4 s = (case s of
     a # b # c # d # rest \<Rightarrow>
       (case (hex_val a, hex_val b, hex_val c, hex_val d) of
          (Some h1, Some h2, Some h3, Some h4) \<Rightarrow> Some (((h1 * 16 + h2) * 16 + h3) * 16 + h4, rest)
        | _ \<Rightarrow> None)
   | _ \<Rightarrow> None)"

definition utf8 :: "nat \<Rightarrow> string" where
  "utf8 n =
     (if n < 0x80 then [char_of n]
      else if n < 0x800 then [char_of (0xC0 + n div 64), char_of (0x80 + n mod 64)]
      else if n < 0x10000 then
        [char_of (0xE0 + n div 4096), char_of (0x80 + n div 64 mod 64), char_of (0x80 + n mod 64)]
      else [char_of (0xF0 + n div 262144), char_of (0x80 + n div 4096 mod 64),
            char_of (0x80 + n div 64 mod 64), char_of (0x80 + n mod 64)])"

text \<open>The code point of \<open>\\u\<close> escapes, two of which may form a surrogate pair.\<close>

definition uescape :: "string \<Rightarrow> (string \<times> string) option" where
  "uescape s = (case hex4 s of
     None \<Rightarrow> None
   | Some (n, rest) \<Rightarrow>
       (if 0xD800 \<le> n \<and> n < 0xDC00 then
          (case rest of
             b # u # rest' \<Rightarrow>
               (if b = backslash \<and> u = CHR ''u'' then
                  (case hex4 rest' of
                     Some (m, rest'') \<Rightarrow>
                       (if 0xDC00 \<le> m \<and> m < 0xE000
                        then Some (utf8 (0x10000 + (n - 0xD800) * 0x400 + (m - 0xDC00)), rest'')
                        else None)
                   | None \<Rightarrow> None)
                else None)
           | _ \<Rightarrow> None)
        else if 0xDC00 \<le> n \<and> n < 0xE000 then None
        else Some (utf8 n, rest)))"

definition simple_escape :: "char \<Rightarrow> char option" where
  "simple_escape c = map_of
     [(CHR 0x22, CHR 0x22), (CHR 0x5C, CHR 0x5C), (CHR ''/'', CHR ''/''), (CHR ''b'', CHR 0x08),
      (CHR ''f'', CHR 0x0C), (CHR ''n'', CHR 0x0A), (CHR ''r'', CHR 0x0D), (CHR ''t'', CHR 0x09)] c"

fun scan_str :: "nat \<Rightarrow> string \<Rightarrow> (string \<times> string) option" where
  "scan_str 0 s = None"
| "scan_str (Suc n) s = (case s of
     [] \<Rightarrow> None
   | c # cs \<Rightarrow>
       (if c = quote_char then Some ([], cs)
        else if c = backslash then
          (case cs of
             [] \<Rightarrow> None
           | e # es \<Rightarrow>
               (case (if e = CHR ''u'' then uescape es
                      else map_option (\<lambda>x. ([x], es)) (simple_escape e)) of
                  None \<Rightarrow> None
                | Some (t, rest) \<Rightarrow> map_option (\<lambda>(u, r). (t @ u, r)) (scan_str n rest)))
        else if of_char c < (32::nat) then None
        else map_option (\<lambda>(u, r). (c # u, r)) (scan_str n cs)))"

definition int_part :: "string \<Rightarrow> string" where
  "int_part s = (if take 1 s = ''0'' then ''0'' else takeWhile is_digit s)"

definition frac_part :: "string \<Rightarrow> string" where
  "frac_part s =
     (let ds = takeWhile is_digit (drop 1 s)
      in if take 1 s = ''.'' \<and> ds \<noteq> [] then ''.'' @ ds else [])"

definition exp_part :: "string \<Rightarrow> string" where
  "exp_part s =
     (let sign = (if take 1 (drop 1 s) \<in> {''+'', ''-''} then take 1 (drop 1 s) else []);
          ds = takeWhile is_digit (drop (1 + length sign) s)
      in if take 1 s \<in> {''e'', ''E''} \<and> ds \<noteq> [] then take 1 s @ sign @ ds else [])"

definition scan_unsigned :: "bool \<Rightarrow> string \<Rightarrow> (json \<times> string) option" where
  "scan_unsigned neg s =
     (let ip = int_part s; rest = drop (length ip) s;
          fp = frac_part rest; rest = drop (length fp) rest;
          ep = exp_part rest; rest = drop (length ep) rest
      in if ip = [] then None
         else if fp = [] \<and> ep = []
         then Some (JInt ((if neg then - 1 else 1) * int (nat_of_digits 0 ip)), rest)
         else Some (JFloat ((if neg then ''-'' else []) @ ip @ fp @ ep), rest))"

definition scan_number :: "string \<Rightarrow> (json \<times> string) option" where
  "scan_number s =
     (if take 1 s = ''-'' then scan_unsigned True (drop 1 s) else scan_unsigned False s)"

definition strip_prefix :: "string \<Rightarrow> string \<Rightarrow> string option" where
  "strip_prefix p s = (if take (length p) s = p then Some (drop (length p) s) else None)"

definition scan_const :: "string \<Rightarrow> (json \<times> string) option" where
  "scan_const s =
     (case strip_prefix ''null'' s of Some r \<Rightarrow> Some (JNull, r) | None \<Rightarrow>
     (case strip_prefix ''true'' s of Some r \<Rightarrow> Some (JBool True, r) | None \<Rightarrow>
     (case strip_prefix ''false'' s of Some r \<Rightarrow> Some (JBool False, r) | None \<Rightarrow>
     (case strip_prefix ''NaN'' s of Some r \<Rightarrow> Some (JFloat ''nan'', r) | None \<Rightarrow>
     (case strip_prefix ''Infinity'' s of Some r \<Rightarrow> Some (JFloat ''inf'', r) | None \<Rightarrow>
     (case strip_prefix ''-Infinity'' s of Some r \<Rightarrow> Some (JFloat ''-inf'', r) | None \<Rightarrow>
       scan_number s))))))"

definition expect :: "char \<Rightarrow> string \<Rightarrow> string option" where
  "expect c s = (case s of [] \<Rightarrow> None | d # r \<Rightarrow> if d = c then Some r else None)"

fun scan_value :: "nat \<Rightarrow> string \<Rightarrow> (json \<times> string) option"
  and scan_items :: "nat \<Rightarrow> string \<Rightarrow> (json list \<times> string) option"
  and scan_members :: "nat \<Rightarrow> string \<Rightarrow> (dict \<times> string) option"
where
  "scan_value 0 s = None"
| "scan_value (Suc n) s =
     (case expect quote_char s of
        Some cs \<Rightarrow> map_option (\<lambda>(t, r). (JStr t, r)) (scan_str (length cs) cs)
      | None \<Rightarrow>
     (case expect (CHR ''['') s of
        Some cs \<Rightarrow>
          (case expect (CHR '']'') (skip_ws cs) of
             Some r \<Rightarrow> Some (JList [], r)
           | None \<Rightarrow> map_option (\<lambda>(xs, r). (JList xs, r)) (scan_items n (skip_ws cs)))
      | None \<Rightarrow>
     (case expect (CHR ''{'') s of
        Some cs \<Rightarrow>
          (case expect (CHR ''}'') (skip_ws cs) of
             Some r \<Rightarrow> Some (JDict [], r)
           | None \<Rightarrow> map_option (\<lambda>(kvs, r). (JDict (foldl (\<lambda>d (k, v). dput k v d) [] kvs), r))
                      (scan_members n (skip_ws cs)))
      | None \<Rightarrow> scan_const s)))"
| "scan_items 0 s = None"
| "scan_items (Suc n) s =
     (case scan_value n s of
        None \<Rightarrow> None
      | Some (x, r) \<Rightarrow>
          (case expect (CHR '']'') (skip_ws r) of
             Some r' \<Rightarrow> Some ([x], r')
           | None \<Rightarrow>
          (case expect (CHR '','') (skip_ws r) of
             Some r' \<Rightarrow> map_option (\<lambda>(xs, r). (x # xs, r)) (scan_items n (skip_ws r'))
           | None \<Rightarrow> None)))"
| "scan_members 0 s = None"
| "scan_members (Suc n) s =
     (case expect quote_char s of
        None \<Rightarrow> None
      | Some cs \<Rightarrow>
     (case scan_str (length cs) cs of
        None \<Rightarrow> None
      | Some (k, r) \<Rightarrow>
     (case expect (CHR '':'') (skip_ws r) of
        None \<Rightarrow> None
      | Some r \<Rightarrow>
     (case scan_value n (skip_ws r) of
        None \<Rightarrow> None
      | Some (v, r) \<Rightarrow>
          (case expect (CHR ''}'') (skip_ws r) of
             Some r' \<Rightarrow> Some ([(k, v)], r')
           | None \<Rightarrow>
          (case expect (CHR '','') (skip_ws r) of
             Some r' \<Rightarrow> map_option (\<lambda>(kvs, r). ((k, v) # kvs, r)) (scan_members n (skip_ws r'))
           | None \<Rightarrow> None))))))"

definition loads :: "string \<Rightarrow> json result" where
  "loads s = (case scan_value (Suc (length s)) (skip_ws s) of
     Some (j, r) \<Rightarrow> if skip_ws r = [] then Inr j else Inl ValueError
   | None \<Rightarrow> Inl ValueError)"

end
