(* ===== verification/Py_Json_Roundtrip.thy ===== *)
theory Py_Json_Roundtrip imports Py_Json begin

text \<open>
  \<open>json.loads\<close> inverts \<open>json.dumps\<close> on float-free values whose dictionaries have distinct keys,
  which every Python dictionary has.  Hence the printed text determines the value.
\<close>

section \<open>Well-formed values\<close>

fun plain :: "json \<Rightarrow> bool" where
  "plain (JFloat r) \<longleftrightarrow> False"
| "plain (JList xs) \<longleftrightarrow> (\<forall>x \<in> set xs. plain x)"
| "plain (JDict kvs) \<longleftrightarrow> distinct (map fst kvs) \<and> (\<forall>kv \<in> set kvs. plain (snd kv))"
| "plain _ \<longleftrightarrow> True"

section \<open>Strings\<close>

lemma expect_Cons [simp]: "expect c (d # r) = (if d = c then Some r else None)"
  by (simp add: expect_def)

lemma expect_Nil [simp]: "expect c [] = None"
  by (simp add: expect_def)

lemma skip_ws_Nil [simp]: "skip_ws [] = []"
  by (simp add: skip_ws_def)

lemma skip_ws_Cons:
  "skip_ws (c # s) = (if of_char c \<in> {9, 10, 13, 32 :: nat} then skip_ws s else c # s)"
  by (simp add: skip_ws_def)

lemma esc_char_not_Nil [simp]: "esc_char c \<noteq> []"
  by (simp add: esc_char_def)

lemma length_esc: "length s \<le> length (concat (map esc_char s))"
proof (induction s)
  case (Cons c s)
  have "0 < length (esc_char c)" by simp
  with Cons show ?case unfolding list.map concat.simps length_append list.size by linarith
qed simp

lemma uescape_control:
  assumes "of_char c < (32::nat)"
  shows "uescape (CHR ''0'' # CHR ''0'' # hex_char (of_char c div 16)
     # hex_char (of_char c mod 16) # rest) = Some ([c], rest)"
proof -
  have "hex_val (CHR ''0'') = Some 0" by code_simp
  moreover have "of_char c div 16 < (16::nat)" "of_char c mod 16 < (16::nat)"
    using assms by simp_all
  ultimately have "hex4 (CHR ''0'' # CHR ''0'' # hex_char (of_char c div 16)
     # hex_char (of_char c mod 16) # rest) = Some (of_char c, rest)"
    by (simp add: hex4_def)
  then show ?thesis using assms by (simp add: uescape_def utf8_def)
qed

lemma scan_str_esc:
  "scan_str (Suc n) (esc_char c @ s) = map_option (\<lambda>(u, r). (c # u, r)) (scan_str n s)"
proof -
  have simple: "map_option (\<lambda>(u, r). ([d] @ u, r)) x = map_option (\<lambda>(u, r). (d # u, r)) x" for d x
    by simp
  have "simple_escape (CHR 0x22) = Some (CHR 0x22)" "simple_escape (CHR 0x5C) = Some (CHR 0x5C)"
    "simple_escape (CHR ''n'') = Some (CHR 0x0A)" "simple_escape (CHR ''r'') = Some (CHR 0x0D)"
    "simple_escape (CHR ''t'') = Some (CHR 0x09)" "simple_escape (CHR ''f'') = Some (CHR 0x0C)"
    "simple_escape (CHR ''b'') = Some (CHR 0x08)"
    by code_simp+
  then show ?thesis
    using uescape_control [of c s]
    by (auto simp: esc_char_def quote_char_def backslash_def)
qed

lemma scan_str_dump:
  "length s < n \<Longrightarrow> scan_str n (concat (map esc_char s) @ quote_char # r) = Some (s, r)"
proof (induction s arbitrary: n)
  case Nil
  then show ?case by (cases n) simp_all
next
  case (Cons c s)
  then obtain m where "n = Suc m" "length s < m" by (cases n) auto
  then show ?case using Cons.IH [of m] scan_str_esc [of m c] by (simp del: scan_str.simps)
qed

lemma scan_str_dump_str:
  "expect quote_char (dump_str s @ r) = Some (concat (map esc_char s) @ quote_char # r)"
  "scan_str (length (concat (map esc_char s) @ quote_char # r))
     (concat (map esc_char s) @ quote_char # r) = Some (s, r)"
proof -
  show "expect quote_char (dump_str s @ r) = Some (concat (map esc_char s) @ quote_char # r)"
    by (simp add: dump_str_def)
  show "scan_str (length (concat (map esc_char s) @ quote_char # r))
     (concat (map esc_char s) @ quote_char # r) = Some (s, r)"
    using length_esc [of s] by (intro scan_str_dump) simp
qed

section \<open>Numbers\<close>

definition stops :: "string \<Rightarrow> bool" where
  "stops r \<longleftrightarrow> r = [] \<or> hd r \<in> set (CHR 0x0A # '',]}'')"

lemma stops_Cons [simp]: "stops (c # r) \<longleftrightarrow> c \<in> set (CHR 0x0A # '',]}'')" "stops []"
  by (simp_all add: stops_def)

lemma stops_head:
  "stops r \<Longrightarrow> takeWhile is_digit r = [] \<and> take 1 r \<notin> {''.'', ''e'', ''E''}"
  by (cases r) (auto simp: is_digit_def)

lemma takeWhile_digits:
  assumes "stops r"
  shows "takeWhile is_digit (digits_of n @ r) = digits_of n"
proof -
  have "takeWhile is_digit (digits_of n @ r) = digits_of n @ takeWhile is_digit r"
    by (rule takeWhile_append2) (auto dest: digits_of_all)
  with stops_head [OF assms] show ?thesis by simp
qed

lemma int_part_digits:
  assumes "stops r"
  shows "int_part (digits_of n @ r) = digits_of n"
proof (cases "n = 0")
  case False
  obtain c cs where "digits_of n = c # cs" by (cases "digits_of n") auto
  with digits_of_leading [OF False] have "take 1 (digits_of n @ r) \<noteq> ''0''" by simp
  with takeWhile_digits [OF assms] show ?thesis by (simp add: int_part_def)
qed (simp add: int_part_def)

lemma no_frac_exp: "stops r \<Longrightarrow> frac_part r = [] \<and> exp_part r = []"
  using stops_head [of r] by (simp add: frac_part_def exp_part_def Let_def)

lemma scan_unsigned_digits:
  "stops r \<Longrightarrow> scan_unsigned neg (digits_of n @ r) =
    Some (JInt ((if neg then - 1 else 1) * int n), r)"
  by (simp add: scan_unsigned_def int_part_digits no_frac_exp)

lemma scan_number_digits:
  assumes "stops r"
  shows "scan_number (digits_of n @ r) = Some (JInt (int n), r)"
    and "scan_number (CHR ''-'' # digits_of n @ r) = Some (JInt (- int n), r)"
proof -
  obtain c cs where d: "digits_of n = c # cs" by (cases "digits_of n") auto
  then have "is_digit c" using digits_of_all [of c n] by simp
  then have "c \<noteq> CHR ''-''" by (auto simp: is_digit_def)
  with d have sign: "take 1 (digits_of n @ r) \<noteq> ''-''" by simp
  show "scan_number (digits_of n @ r) = Some (JInt (int n), r)"
    unfolding scan_number_def if_not_P [OF sign] by (simp add: scan_unsigned_digits [OF assms])
  show "scan_number (CHR ''-'' # digits_of n @ r) = Some (JInt (- int n), r)"
    by (simp add: scan_number_def scan_unsigned_digits [OF assms])
qed

lemma scan_const_int:
  assumes "stops r"
  shows "scan_const (str_of_int i @ r) = Some (JInt i, r)"
proof -
  obtain c cs where d: "digits_of (nat \<bar>i\<bar>) = c # cs" by (cases "digits_of (nat \<bar>i\<bar>)") auto
  then have "is_digit c" using digits_of_all [of c "nat \<bar>i\<bar>"] by simp
  then have c: "c \<notin> set ''nNtfI-''" by (auto simp: is_digit_def)
  show ?thesis
  proof (cases "i < 0")
    case True
    then have "str_of_int i = CHR ''-'' # c # cs" using d by (simp add: str_of_int_def)
    moreover have "scan_number (str_of_int i @ r) = Some (JInt i, r)"
      using scan_number_digits(2) [OF assms, of "nat (- i)"] True by (simp add: str_of_int_def)
    ultimately show ?thesis using c
      by (simp add: scan_const_def strip_prefix_def split del: if_split)
  next
    case False
    then have "str_of_int i = c # cs" using d by (simp add: str_of_int_def)
    moreover have "scan_number (str_of_int i @ r) = Some (JInt i, r)"
      using scan_number_digits(1) [OF assms, of "nat i"] False by (simp add: str_of_int_def)
    ultimately show ?thesis using c
      by (simp add: scan_const_def strip_prefix_def split del: if_split)
  qed
qed

section \<open>Values\<close>

definition starts_value :: "char \<Rightarrow> bool" where
  "starts_value c \<longleftrightarrow> c \<in> set (quote_char # ''ntf[{-'') \<or> is_digit c"

lemma starts_value_not:
  "starts_value c \<Longrightarrow> of_char c \<notin> {9, 10, 13, 32 :: nat} \<and> c \<notin> set '']}''"
  by (auto simp: starts_value_def is_digit_def quote_char_def)

lemma str_of_int_head: "\<exists>c t. str_of_int i = c # t \<and> c \<notin> set (quote_char # ''[{'') \<and> starts_value c"
proof -
  obtain c cs where d: "digits_of (nat \<bar>i\<bar>) = c # cs" by (cases "digits_of (nat \<bar>i\<bar>)") auto
  then have "is_digit c" using digits_of_all [of c "nat \<bar>i\<bar>"] by simp
  then have "starts_value c" "c \<notin> set (quote_char # ''[{'')"
    by (auto simp: starts_value_def is_digit_def quote_char_def)
  moreover have "str_of_int i = (if i < 0 then CHR ''-'' # c # cs else c # cs)"
    using d by (auto simp: str_of_int_def)
  moreover have "starts_value (CHR ''-'')" "CHR ''-'' \<notin> set (quote_char # ''[{'')"
    by (simp_all add: starts_value_def quote_char_def)
  ultimately show ?thesis by (cases "i < 0") auto
qed

lemma dumps_head:
  assumes "plain j"
  shows "\<exists>c t. dumps j = c # t \<and> starts_value c"
proof (cases j)
  case (JInt i)
  with str_of_int_head [of i] show ?thesis by auto
next
  case (JList xs)
  then show ?thesis by (cases xs) (simp_all add: starts_value_def)
next
  case (JDict kvs)
  then show ?thesis by (cases kvs) (auto simp: starts_value_def)
qed (use assms in \<open>simp_all add: dump_str_def starts_value_def\<close>)

lemma dumps_not_ws:
  assumes "plain j"
  shows "skip_ws (dumps j @ r) = dumps j @ r" "expect (CHR '']'') (dumps j @ r) = None"
proof -
  obtain c t where "dumps j = c # t" "starts_value c" using dumps_head [OF assms] by blast
  with starts_value_not [of c] show "skip_ws (dumps j @ r) = dumps j @ r"
    "expect (CHR '']'') (dumps j @ r) = None"
    by (simp_all add: skip_ws_Cons)
qed

definition more_items :: "nat \<Rightarrow> string \<Rightarrow> (json list \<times> string) option" where
  "more_items n r =
     (case expect (CHR '']'') (skip_ws r) of
        Some r' \<Rightarrow> Some ([], r')
      | None \<Rightarrow>
     (case expect (CHR '','') (skip_ws r) of
        Some r' \<Rightarrow> scan_items n (skip_ws r')
      | None \<Rightarrow> None))"

definition more_members :: "nat \<Rightarrow> string \<Rightarrow> (dict \<times> string) option" where
  "more_members n r =
     (case expect (CHR ''}'') (skip_ws r) of
        Some r' \<Rightarrow> Some ([], r')
      | None \<Rightarrow>
     (case expect (CHR '','') (skip_ws r) of
        Some r' \<Rightarrow> scan_members n (skip_ws r')
      | None \<Rightarrow> None))"

lemma scan_items_more:
  "scan_value n s = Some (x, r) \<Longrightarrow>
    scan_items (Suc n) s = map_option (\<lambda>(xs, r). (x # xs, r)) (more_items n r)"
  by (simp add: more_items_def split: option.split)

lemma scan_members_more:
  "scan_value n (skip_ws s) = Some (v, r) \<Longrightarrow>
    scan_members (Suc n) (dump_str k @ CHR '':'' # s) =
      map_option (\<lambda>(kvs, r). ((k, v) # kvs, r)) (more_members n r)"
  unfolding scan_members.simps scan_str_dump_str option.case prod.case
  by (simp add: more_members_def skip_ws_Cons split: option.split)

lemma rebuild_dict:
  "distinct (map fst (acc @ kvs)) \<Longrightarrow> foldl (\<lambda>d (k, v). dput k v d) acc kvs = acc @ kvs"
proof (induction kvs arbitrary: acc)
  case (Cons kv kvs)
  obtain k v where kv: "kv = (k, v)" by force
  with Cons.prems have "dput k v acc = acc @ [(k, v)]" by (intro dput_fresh) auto
  with Cons.IH [of "acc @ [(k, v)]"] Cons.prems kv show ?case by simp
qed simp

lemma stops_dump [simp]: "stops (dump_items xs @ r)" "stops (dump_members kvs @ r)"
  by (cases xs; simp) (cases kvs; auto)

lemma dumps_pos: "plain j \<Longrightarrow> 0 < length (dumps j)" "0 < length (dump_items xs)"
    "0 < length (dump_members kvs)"
proof -
  show "0 < length (dump_items xs)" by (cases xs) simp_all
  show "0 < length (dump_members kvs)" by (cases kvs) auto
qed (use dumps_head [of j] in auto)

lemma dump_str_not_ws:
  "skip_ws (dump_str k @ r) = dump_str k @ r" "expect (CHR ''}'') (dump_str k @ r) = None"
  by (simp_all add: dump_str_def skip_ws_Cons quote_char_def)

lemma scan_dumps:
  "plain j \<Longrightarrow> stops r \<Longrightarrow> length (dumps j) \<le> n \<Longrightarrow> scan_value n (dumps j @ r) = Some (j, r)"
  "\<forall>x \<in> set xs. plain x \<Longrightarrow> length (dump_items xs) \<le> Suc n \<Longrightarrow>
    more_items n (dump_items xs @ r) = Some (xs, r)"
  "\<forall>kv \<in> set kvs. plain (snd kv) \<Longrightarrow> length (dump_members kvs) \<le> Suc n \<Longrightarrow>
    more_members n (dump_members kvs @ r) = Some (kvs, r)"
proof (induction j and xs and kvs arbitrary: n r and n r and n r rule: dumps_dump_items_dump_members.induct)
  case 1
  then show ?case by (cases n) (simp_all add: scan_const_def strip_prefix_def quote_char_def)
next
  case (2 b)
  then show ?case
    by (cases n; cases b) (simp_all add: scan_const_def strip_prefix_def quote_char_def)
next
  case (3 i)
  obtain c t where "str_of_int i = c # t" "c \<notin> set (quote_char # ''[{'')"
    using str_of_int_head by blast
  with 3 scan_const_int [OF 3(2), of i] show ?case by (cases n) simp_all
next
  case (5 s)
  then obtain m where "n = Suc m" by (cases n) (simp_all add: dump_str_def)
  then show ?case
    by (simp only: dumps.simps scan_value.simps scan_str_dump_str option.case option.map prod.case)
next
  case 6
  then show ?case by (cases n) (simp_all add: quote_char_def skip_ws_Cons)
next
  case (7 x xs)
  then have "0 < length (dumps x)" by (intro dumps_pos) simp
  moreover have "0 < length (dump_items xs)" by (rule dumps_pos)
  moreover have "1 + length (dumps x) + length (dump_items xs) \<le> n" using 7 by simp
  ultimately obtain m where m: "n = Suc (Suc m)" "length (dumps x) \<le> m" "length (dump_items xs) \<le> Suc m"
    by (intro that [of "n - 2"]) linarith+
  have "scan_items (Suc m) (dumps x @ dump_items xs @ r) = Some (x # xs, r)"
    using 7 m by (subst scan_items_more [of m _ x "dump_items xs @ r"]) auto
  with m(1) 7(3) show ?case by (simp add: quote_char_def dumps_not_ws del: scan_items.simps)
next
  case 8
  then show ?case by (cases n) (simp_all add: quote_char_def skip_ws_Cons)
next
  case (9 k v kvs)
  then have "0 < length (dumps v)" by (intro dumps_pos) auto
  moreover have "0 < length (dump_members kvs)" by (rule dumps_pos)
  moreover have "2 + length (dumps v) + length (dump_members kvs) \<le> n" using 9 by simp
  ultimately obtain m where m: "n = Suc (Suc m)" "length (dumps v) \<le> m"
      "length (dump_members kvs) \<le> Suc m"
    by (intro that [of "n - 2"]) linarith+
  have plain: "plain v" "\<forall>kv \<in> set kvs. plain (snd kv)" using 9(3) by auto
  have "scan_value m (skip_ws (dumps v @ dump_members kvs @ r)) = Some (v, dump_members kvs @ r)"
    using 9(1) [OF plain(1) _ m(2)] dumps_not_ws(1) [OF plain(1)] by simp
  from scan_members_more [OF this, of k]
  have "scan_members (Suc m) (dump_str k @ CHR '':'' # dumps v @ dump_members kvs @ r)
      = Some ((k, v) # kvs, r)"
    using 9(2) [OF plain(2) m(3)] by simp
  moreover have "foldl (\<lambda>d (k, v). dput k v d) [] ((k, v) # kvs) = (k, v) # kvs"
    using 9(3) by (intro rebuild_dict [of "[]", simplified append_Nil]) simp
  ultimately show ?case
    using m(1) by (simp add: quote_char_def dump_str_not_ws del: scan_members.simps foldl_Cons)
next
  case 10
  then show ?case by (simp add: more_items_def skip_ws_Cons)
next
  case (11 x xs)
  then have "0 < length (dumps x)" by (intro dumps_pos) simp
  moreover have "0 < length (dump_items xs)" by (rule dumps_pos)
  moreover have "1 + length (dumps x) + length (dump_items xs) \<le> Suc n" using 11 by simp
  ultimately obtain m where m: "n = Suc m" "length (dumps x) \<le> m" "length (dump_items xs) \<le> Suc m"
    by (intro that [of "n - 1"]) linarith+
  have "scan_items (Suc m) (dumps x @ dump_items xs @ r) = Some (x # xs, r)"
    using 11 m by (subst scan_items_more [of m _ x "dump_items xs @ r"]) auto
  with m(1) 11(3) show ?case
    by (simp add: more_items_def skip_ws_Cons dumps_not_ws del: scan_items.simps)
next
  case 12
  then show ?case by (simp add: more_members_def skip_ws_Cons)
next
  case (13 k v kvs)
  then have "0 < length (dumps v)" by (intro dumps_pos) auto
  moreover have "0 < length (dump_members kvs)" by (rule dumps_pos)
  moreover have "2 + length (dumps v) + length (dump_members kvs) \<le> Suc n" using 13 by simp
  ultimately obtain m where m: "n = Suc m" "length (dumps v) \<le> m"
      "length (dump_members kvs) \<le> Suc m"
    by (intro that [of "n - 1"]) linarith+
  have plain: "plain v" "\<forall>kv \<in> set kvs. plain (snd kv)" using 13(3) by auto
  have "scan_value m (skip_ws (dumps v @ dump_members kvs @ r)) = Some (v, dump_members kvs @ r)"
    using 13(1) [OF plain(1) _ m(2)] dumps_not_ws(1) [OF plain(1)] by simp
  from scan_members_more [OF this, of k] show ?case
    using 13(2) [OF plain(2) m(3)] m(1)
    by (simp add: more_members_def skip_ws_Cons dump_str_not_ws del: scan_members.simps)
qed simp

lemma loads_dumps: "plain j \<Longrightarrow> loads (dumps j) = Inr j"
  using scan_dumps(1) [of j "[]" "Suc (length (dumps j))"] dumps_not_ws(1) [of j "[]"]
  by (simp add: loads_def)

lemma loads_dumps_line: "plain j \<Longrightarrow> loads (dumps j @ [CHR 0x0A]) = Inr j"
  using scan_dumps(1) [of j "[CHR 0x0A]" "Suc (length (dumps j @ [CHR 0x0A]))"]
    dumps_not_ws(1) [of j "[CHR 0x0A]"]
  by (simp add: loads_def skip_ws_def)

lemma dumps_inject: "plain a \<Longrightarrow> plain b \<Longrightarrow> dumps a = dumps b \<longleftrightarrow> a = b"
  by (metis loads_dumps sum.inject(2))

end
