(* ===== verification/Canonical.thy ===== *)
theory Canonical imports Py_Json_Roundtrip Sha256 begin

text \<open>
  \<open>src/src/openwright/canonical.py\<close>: removal of unset members, rejection of floats and of keys
  that are not strings, canonical bytes, and the hashes built on them.  What a value says,
  whatever the order of its keys and whichever unset members it spells out, is \<open>meaning\<close>;
  two values have the same canonical bytes exactly when they have the same meaning.
\<close>

section \<open>Canonical form\<close>

text \<open>
  \<open>as_str\<close> is the test \<open>isinstance(k, str)\<close> on the keys of a dictionary.  Tuples are lists here:
  the code treats the two alike.
\<close>

fun clean :: "('k \<Rightarrow> string option) \<Rightarrow> 'k pyv \<Rightarrow> json result"
  and clean_items :: "('k \<Rightarrow> string option) \<Rightarrow> 'k pyv list \<Rightarrow> json list result"
  and clean_members :: "('k \<Rightarrow> string option) \<Rightarrow> ('k \<times> 'k pyv) list \<Rightarrow> dict result"
where
  "clean as_str (JDict kvs) = sbind (clean_members as_str kvs) (\<lambda>out. Inr (JDict out))"
| "clean as_str (JList xs) = sbind (clean_items as_str xs) (\<lambda>out. Inr (JList out))"
| "clean as_str (JBool b) = Inr (JBool b)"
| "clean as_str (JFloat r) = Inl CanonicalizationError"
| "clean as_str JNull = Inr JNull"
| "clean as_str (JInt i) = Inr (JInt i)"
| "clean as_str (JStr s) = Inr (JStr s)"
| "clean_items as_str [] = Inr []"
| "clean_items as_str (x # xs) =
     sbind (clean as_str x) (\<lambda>x'. sbind (clean_items as_str xs) (\<lambda>xs'. Inr (x' # xs')))"
| "clean_members as_str [] = Inr []"
| "clean_members as_str ((k, v) # kvs) =
     (if v = JNull then clean_members as_str kvs
      else case as_str k of
        None \<Rightarrow> Inl CanonicalizationError
      | Some s \<Rightarrow>
          sbind (clean as_str v) (\<lambda>v'. sbind (clean_members as_str kvs) (\<lambda>out. Inr ((s, v') # out))))"

definition canonical_text :: "('k \<Rightarrow> string option) \<Rightarrow> 'k pyv \<Rightarrow> string result" where
  "canonical_text as_str obj = sbind (clean as_str obj) (\<lambda>cleaned. Inr (dumps (sort_keys cleaned)))"

definition canonical_bytes_of :: "('k \<Rightarrow> string option) \<Rightarrow> 'k pyv \<Rightarrow> bytes result" where
  "canonical_bytes_of as_str obj = sbind (canonical_text as_str obj) (\<lambda>s. Inr (encode_utf8 s))"

abbreviation canonical_bytes :: "json \<Rightarrow> bytes result" where
  "canonical_bytes \<equiv> canonical_bytes_of Some"

definition sha256_hex :: "bytes \<Rightarrow> string" where
  "sha256_hex data = hex (sha256 data)"

definition content_hash :: "json \<Rightarrow> string result" where
  "content_hash obj = sbind (canonical_bytes obj) (\<lambda>b. Inr (''sha256:'' @ sha256_hex b))"

datatype payload = PBytes bytes | PStr string | PValue json

definition hash_payload :: "payload \<Rightarrow> string result" where
  "hash_payload p = (case p of
     PBytes b \<Rightarrow> Inr (''sha256:'' @ sha256_hex b)
   | PStr s \<Rightarrow> Inr (''sha256:'' @ sha256_hex (encode_utf8 s))
   | PValue v \<Rightarrow> content_hash v)"

section \<open>When canonicalisation succeeds\<close>

fun canonicalizable :: "('k \<Rightarrow> string option) \<Rightarrow> 'k pyv \<Rightarrow> bool" where
  "canonicalizable as_str (JFloat r) \<longleftrightarrow> False"
| "canonicalizable as_str (JList xs) \<longleftrightarrow> (\<forall>x \<in> set xs. canonicalizable as_str x)"
| "canonicalizable as_str (JDict kvs) \<longleftrightarrow>
     (\<forall>kv \<in> set kvs. snd kv \<noteq> JNull \<longrightarrow> as_str (fst kv) \<noteq> None \<and> canonicalizable as_str (snd kv))"
| "canonicalizable as_str _ \<longleftrightarrow> True"

lemma clean_outcome:
  "if canonicalizable as_str j then \<exists>c. clean as_str j = Inr c
   else clean as_str j = Inl CanonicalizationError"
  "if (\<forall>x \<in> set xs. canonicalizable as_str x) then \<exists>c. clean_items as_str xs = Inr c
   else clean_items as_str xs = Inl CanonicalizationError"
  "if canonicalizable as_str (JDict kvs) then \<exists>c. clean_members as_str kvs = Inr c
   else clean_members as_str kvs = Inl CanonicalizationError"
proof (induction as_str j and as_str xs and as_str kvs rule: clean_clean_items_clean_members.induct)
  case (9 as_str x xs)
  then show ?case by (cases "clean as_str x") (auto split: if_splits)
next
  case (11 as_str k v kvs)
  show ?case
  proof (cases "v = JNull \<or> as_str k = None")
    case True
    with 11 show ?thesis by (auto split: if_splits)
  next
    case False
    then obtain s where "as_str k = Some s" "v \<noteq> JNull" by auto
    note IH = 11(2) [OF this(2,1)] 11(3) [OF this(2,1)]
    show ?thesis
    proof (cases "clean as_str v")
      case (Inr v')
      with IH(1) IH(2) [OF Inr] \<open>as_str k = Some s\<close> \<open>v \<noteq> JNull\<close> show ?thesis
        by (auto split: if_splits)
    qed (use IH(1) \<open>as_str k = Some s\<close> \<open>v \<noteq> JNull\<close> in \<open>auto split: if_splits\<close>)
  qed
qed (auto split: if_splits)

section \<open>Meaning\<close>

datatype value_of =
    VNull | VBool bool | VInt int | VFloat string | VStr string
  | VList "value_of list"
  | VDict "string \<Rightarrow> value_of option"

fun meaning :: "json \<Rightarrow> value_of"
  and meaning_items :: "json list \<Rightarrow> value_of list"
  and meaning_members :: "dict \<Rightarrow> string \<Rightarrow> value_of option"
where
  "meaning JNull = VNull"
| "meaning (JBool b) = VBool b"
| "meaning (JInt i) = VInt i"
| "meaning (JFloat r) = VFloat r"
| "meaning (JStr s) = VStr s"
| "meaning (JList xs) = VList (meaning_items xs)"
| "meaning (JDict kvs) = VDict (meaning_members kvs)"
| "meaning_items [] = []"
| "meaning_items (x # xs) = meaning x # meaning_items xs"
| "meaning_members [] = (\<lambda>k. None)"
| "meaning_members ((k, v) # kvs) =
     (meaning_members kvs)(k := if v = JNull then None else Some (meaning v))"

text \<open>Dictionaries have distinct keys, at every depth.\<close>

fun wf_dicts :: "json \<Rightarrow> bool" where
  "wf_dicts (JList xs) \<longleftrightarrow> (\<forall>x \<in> set xs. wf_dicts x)"
| "wf_dicts (JDict kvs) \<longleftrightarrow> distinct (map fst kvs) \<and> (\<forall>kv \<in> set kvs. wf_dicts (snd kv))"
| "wf_dicts _ \<longleftrightarrow> True"

text \<open>What \<open>clean\<close> produces, and what sorting makes of it.\<close>

fun tidy :: "json \<Rightarrow> bool" where
  "tidy (JFloat r) \<longleftrightarrow> False"
| "tidy (JList xs) \<longleftrightarrow> (\<forall>x \<in> set xs. tidy x)"
| "tidy (JDict kvs) \<longleftrightarrow> distinct (map fst kvs)
     \<and> (\<forall>kv \<in> set kvs. snd kv \<noteq> JNull \<and> tidy (snd kv))"
| "tidy _ \<longleftrightarrow> True"

fun normal :: "json \<Rightarrow> bool" where
  "normal (JFloat r) \<longleftrightarrow> False"
| "normal (JList xs) \<longleftrightarrow> (\<forall>x \<in> set xs. normal x)"
| "normal (JDict kvs) \<longleftrightarrow> sorted (map fst kvs) \<and> distinct (map fst kvs)
     \<and> (\<forall>kv \<in> set kvs. snd kv \<noteq> JNull \<and> normal (snd kv))"
| "normal _ \<longleftrightarrow> True"

lemma normal_plain: "normal j \<Longrightarrow> plain j"
  by (induction j rule: plain.induct) auto

lemma meaning_members_absent: "k \<notin> fst ` set kvs \<Longrightarrow> meaning_members kvs k = None"
  by (induction kvs) auto

lemma clean_meaning:
  "wf_dicts j \<Longrightarrow> clean Some j = Inr c \<Longrightarrow> tidy c \<and> meaning c = meaning j \<and> (c = JNull \<longleftrightarrow> j = JNull)"
  "\<forall>x \<in> set xs. wf_dicts x \<Longrightarrow> clean_items Some xs = Inr cs \<Longrightarrow>
    (\<forall>x \<in> set cs. tidy x) \<and> meaning_items cs = meaning_items xs"
  "wf_dicts (JDict kvs) \<Longrightarrow> clean_members Some kvs = Inr ms \<Longrightarrow>
    tidy (JDict ms) \<and> fst ` set ms \<subseteq> fst ` set kvs \<and> meaning_members ms = meaning_members kvs"
proof (induction j and xs and kvs arbitrary: c and cs and ms
    rule: meaning_meaning_items_meaning_members.induct)
  case (6 xs)
  from 6(3) obtain out where "clean_items Some xs = Inr out" "c = JList out"
    by (auto simp: sbind_Inr_conv)
  with 6(1) [of out] 6(2) show ?case by simp
next
  case (7 kvs)
  from 7(3) obtain out where "clean_members Some kvs = Inr out" "c = JDict out"
    by (auto simp: sbind_Inr_conv)
  with 7(1) [of out] 7(2) show ?case by simp
next
  case (9 x xs)
  then show ?case by (auto simp: sbind_Inr_conv)
next
  case (11 k v kvs)
  show ?case
  proof (cases "v = JNull")
    case True
    have "meaning_members kvs k = None" using 11(3) by (intro meaning_members_absent) simp
    with True 11(1) [of ms] 11(3,4) show ?thesis by (simp add: fun_upd_idem subset_insertI2)
  next
    case False
    with 11(4) obtain v' out where *: "clean Some v = Inr v'" "clean_members Some kvs = Inr out"
      "ms = (k, v') # out"
      by (simp add: sbind_Inr_conv) blast
    have v: "tidy v' \<and> meaning v' = meaning v \<and> (v' = JNull \<longleftrightarrow> v = JNull)"
      using 11(2) [OF False _ *(1)] 11(3) by simp
    have out: "tidy (JDict out) \<and> fst ` set out \<subseteq> fst ` set kvs
        \<and> meaning_members out = meaning_members kvs"
      using 11(1) [of out] 11(3) *(2) by simp
    then have "k \<notin> fst ` set out" using 11(3) by auto
    with v out False *(3) show ?thesis by (simp add: subset_insertI2)
  qed
qed auto

lemma meaning_members_map_of:
  "\<forall>kv \<in> set kvs. snd kv \<noteq> JNull \<Longrightarrow> meaning_members kvs = (\<lambda>k. map_option meaning (map_of kvs k))"
  by (induction kvs) auto

lemma meaning_members_set:
  assumes "distinct (map fst kvs)" "distinct (map fst lvs)" "set kvs = set lvs"
    and "\<forall>kv \<in> set kvs. snd kv \<noteq> JNull"
  shows "meaning_members kvs = meaning_members lvs"
  using map_of_inject_set [OF assms(1,2)] assms(3,4) by (simp add: meaning_members_map_of)

lemma sort_keys_null [simp]: "sort_keys v = JNull \<longleftrightarrow> v = JNull"
  by (cases v) simp_all

lemma keys_sort_values [simp]: "map fst (sort_values kvs) = map fst kvs"
  by (induction kvs) auto

lemma sort_keys_normal:
  "tidy j \<Longrightarrow> normal (sort_keys j) \<and> meaning (sort_keys j) = meaning j"
  "\<forall>x \<in> set xs. tidy x \<Longrightarrow>
    (\<forall>x \<in> set (sort_items xs). normal x) \<and> meaning_items (sort_items xs) = meaning_items xs"
  "\<forall>kv \<in> set kvs. snd kv \<noteq> JNull \<and> tidy (snd kv) \<Longrightarrow>
    (\<forall>kv \<in> set (sort_values kvs). snd kv \<noteq> JNull \<and> normal (snd kv))
    \<and> meaning_members (sort_values kvs) = meaning_members kvs"
proof (induction j and xs and kvs rule: sort_keys_sort_items_sort_values.induct)
  case (2 kvs)
  let ?s = "sort_key fst (sort_values kvs)"
  have "distinct (map fst (sort_values kvs))" using 2(2) by simp
  then have "distinct (map fst ?s)"
    by (metis distinct_map distinct_sort set_sort)
  moreover have "\<forall>kv \<in> set (sort_values kvs). snd kv \<noteq> JNull" using 2 by simp
  ultimately have "meaning_members ?s = meaning_members (sort_values kvs)"
    using 2(2) by (intro meaning_members_set) simp_all
  with 2 \<open>distinct (map fst ?s)\<close> show ?case by simp
qed auto

lemma meaning_members_sorted:
  assumes "sorted (map fst ((k, v) # kvs))" "distinct (map fst ((k, v) # kvs))" "v \<noteq> JNull"
  shows "meaning_members ((k, v) # kvs) k = Some (meaning v)"
    and "meaning_members kvs = (meaning_members ((k, v) # kvs))(k := None)"
    and "meaning_members ((k, v) # kvs) l \<noteq> None \<Longrightarrow> k \<le> l"
proof -
  show "meaning_members ((k, v) # kvs) k = Some (meaning v)" using assms(3) by simp
  have "meaning_members kvs k = None" using assms(2) by (intro meaning_members_absent) simp
  then show "meaning_members kvs = (meaning_members ((k, v) # kvs))(k := None)"
    by (simp add: fun_upd_idem)
  show "k \<le> l" if "meaning_members ((k, v) # kvs) l \<noteq> None"
  proof -
    have "l \<in> set (map fst ((k, v) # kvs))"
      using that meaning_members_absent [of l "(k, v) # kvs"] by (simp only: set_map) blast
    then show "k \<le> l" using assms(1) by (simp only: list.map fst_conv sorted_wrt.simps) auto
  qed
qed

lemma meaning_inject:
  "normal a \<Longrightarrow> normal b \<Longrightarrow> meaning a = meaning b \<Longrightarrow> a = b"
  "\<forall>x \<in> set xs. normal x \<Longrightarrow> \<forall>y \<in> set ys. normal y \<Longrightarrow> meaning_items xs = meaning_items ys \<Longrightarrow> xs = ys"
  "normal (JDict kvs) \<Longrightarrow> normal (JDict lvs) \<Longrightarrow> meaning_members kvs = meaning_members lvs \<Longrightarrow> kvs = lvs"
proof (induction a and xs and kvs arbitrary: b and ys and lvs
    rule: meaning_meaning_items_meaning_members.induct)
  case (6 xs)
  then show ?case by (cases b) simp_all
next
  case (7 kvs)
  then show ?case by (cases b) simp_all
next
  case 8
  then show ?case by (cases ys) simp_all
next
  case (9 x xs)
  then show ?case by (cases ys) simp_all
next
  case 10
  show ?case
  proof (cases lvs)
    case (Cons lv lvs')
    obtain l w where "lv = (l, w)" by force
    with Cons 10(2) have "meaning_members lvs l = Some (meaning w)" by simp
    with 10(3) show ?thesis by (metis meaning_members.simps(1) option.distinct(1))
  qed simp
next
  case (11 k v kvs)
  have kv: "sorted (map fst ((k, v) # kvs))" "distinct (map fst ((k, v) # kvs))" "v \<noteq> JNull"
    "normal v" "normal (JDict kvs)"
    using 11(3) by simp_all
  note K = meaning_members_sorted [OF kv(1-3)]
  show ?case
  proof (cases lvs)
    case Nil
    have "meaning_members ((k, v) # kvs) k = None" unfolding 11(5) Nil by simp
    with K(1) show ?thesis by (simp only: option.distinct)
  next
    case (Cons lv lvs')
    obtain l w where lv: "lv = (l, w)" by force
    have lw: "sorted (map fst ((l, w) # lvs'))" "distinct (map fst ((l, w) # lvs'))" "w \<noteq> JNull"
      "normal w" "normal (JDict lvs')"
      using 11(4) Cons lv by simp_all
    note L = meaning_members_sorted [OF lw(1-3)]
    have eq: "meaning_members ((k, v) # kvs) = meaning_members ((l, w) # lvs')"
      using 11(5) by (simp only: Cons lv)
    have "k \<le> l" by (rule K(3)) (simp only: eq L(1) option.distinct not_False_eq_True)
    moreover have "l \<le> k"
      by (rule L(3)) (simp only: eq [symmetric] K(1) option.distinct not_False_eq_True)
    ultimately have "k = l" by simp
    have "meaning v = meaning w" using K(1) L(1) eq \<open>k = l\<close> by (metis option.inject)
    with 11(2) [OF kv(3,4) lw(4)] have "v = w" by simp
    moreover have "meaning_members kvs = meaning_members lvs'"
      using K(2) L(2) eq \<open>k = l\<close> by metis
    with 11(1) [OF kv(5) lw(5)] have "kvs = lvs'" by simp
    ultimately show ?thesis using Cons lv \<open>k = l\<close> by simp
  qed
next
  case 1
  then show ?case by (cases b) simp_all
next
  case (2 x)
  then show ?case by (cases b) simp_all
next
  case (3 i)
  then show ?case by (cases b) simp_all
next
  case (4 r)
  then show ?case by simp
next
  case (5 s)
  then show ?case by (cases b) simp_all
qed

lemma canonical_text_normal:
  assumes "wf_dicts j" "canonical_text Some j = Inr s"
  shows "\<exists>c. s = dumps c \<and> normal c \<and> meaning c = meaning j"
proof -
  obtain c where c: "clean Some j = Inr c" "s = dumps (sort_keys c)"
    using assms(2) by (auto simp: canonical_text_def sbind_Inr_conv)
  with clean_meaning(1) [OF assms(1) c(1)] sort_keys_normal(1) [of c] show ?thesis by auto
qed

lemma canonical_text_eq_iff:
  assumes "wf_dicts a" "wf_dicts b" "canonical_text Some a = Inr s" "canonical_text Some b = Inr t"
  shows "s = t \<longleftrightarrow> meaning a = meaning b"
proof -
  obtain c d where "s = dumps c" "normal c" "meaning c = meaning a"
    "t = dumps d" "normal d" "meaning d = meaning b"
    using canonical_text_normal assms by metis
  then show ?thesis using dumps_inject [of c d] normal_plain meaning_inject(1) [of c d] by auto
qed

lemma canonical_bytes_text: "canonical_bytes_of f j = Inr b \<longleftrightarrow> canonical_text f j = Inr (decode_bytes b)"
  by (auto simp: canonical_bytes_of_def sbind_Inr_conv)

lemma canonical_bytes_eq_iff:
  assumes "wf_dicts a" "wf_dicts b" "canonical_bytes a = Inr x" "canonical_bytes b = Inr y"
  shows "x = y \<longleftrightarrow> meaning a = meaning b"
  using canonical_text_eq_iff [OF assms(1,2)] assms(3,4) unfolding canonical_bytes_text
  by (metis encode_decode)

lemma canonical_bytes_outcome:
  "if canonicalizable as_str j then \<exists>b. canonical_bytes_of as_str j = Inr b
   else canonical_bytes_of as_str j = Inl CanonicalizationError"
  using clean_outcome(1) [of as_str j]
  by (auto simp: canonical_bytes_of_def canonical_text_def split: if_splits)

end
