(* ===== verification/Events.thy ===== *)
theory Events imports Canonical begin

text \<open>
  \<open>src/src/openwright/events.py\<close>: the canonical \<open>ComplianceEvent\<close>.  Every class of the file is
  a record with its declared fields and an \<open>_extra\<close> dictionary for the undeclared ones, which
  the models keep (\<open>extra="allow"\<close>).  \<open>dump_X\<close> is \<open>model_dump(mode="json", exclude_none=True)\<close>:
  the declared fields in their order, unset ones omitted, then the extras; \<open>load_X\<close> is
  \<open>model_validate\<close> on a dictionary, with a \<open>ValidationError\<close> as \<open>ValueError\<close>.  The lax
  conversions of pydantic (a numeral string for an integer field) are not modelled: such
  input is an error here.
\<close>

section \<open>Fields\<close>

definition opt_field :: "string \<Rightarrow> json option \<Rightarrow> dict" where
  "opt_field k v = (case v of None \<Rightarrow> [] | Some x \<Rightarrow> [(k, x)])"

definition set_extras :: "dict \<Rightarrow> dict" where
  "set_extras ex = filter (\<lambda>(k, v). v \<noteq> JNull) ex"

definition extras_of :: "string list \<Rightarrow> dict \<Rightarrow> dict" where
  "extras_of fields d = filter (\<lambda>(k, v). k \<notin> set fields) d"

definition get_str :: "string \<Rightarrow> dict \<Rightarrow> string result" where
  "get_str k d = (case map_of d k of Some (JStr s) \<Rightarrow> Inr s | _ \<Rightarrow> Inl ValueError)"

definition get_str_default :: "string \<Rightarrow> string \<Rightarrow> dict \<Rightarrow> string result" where
  "get_str_default k dflt d =
     (case map_of d k of None \<Rightarrow> Inr dflt | Some (JStr s) \<Rightarrow> Inr s | _ \<Rightarrow> Inl ValueError)"

definition get_opt :: "(json \<Rightarrow> 'a option) \<Rightarrow> string \<Rightarrow> dict \<Rightarrow> 'a option result" where
  "get_opt conv k d = (case map_of d k of
     None \<Rightarrow> Inr None
   | Some v \<Rightarrow> if v = JNull then Inr None
             else case conv v of Some x \<Rightarrow> Inr (Some x) | None \<Rightarrow> Inl ValueError)"

definition as_string :: "json \<Rightarrow> string option" where
  "as_string v = (case v of JStr s \<Rightarrow> Some s | _ \<Rightarrow> None)"

definition as_int :: "json \<Rightarrow> int option" where
  "as_int v = (case v of JInt i \<Rightarrow> Some i | _ \<Rightarrow> None)"

definition as_obj :: "(dict \<Rightarrow> 'a result) \<Rightarrow> json \<Rightarrow> 'a option" where
  "as_obj load v = (case v of
     JDict d \<Rightarrow> (case load d of Inr x \<Rightarrow> Some x | Inl e \<Rightarrow> None)
   | _ \<Rightarrow> None)"

abbreviation "get_opt_str \<equiv> get_opt as_string"
abbreviation "get_opt_int \<equiv> get_opt as_int"
abbreviation "get_opt_obj k load \<equiv> get_opt (as_obj load) k"

definition get_enum_default :: "string \<Rightarrow> (string \<Rightarrow> 'a option) \<Rightarrow> 'a \<Rightarrow> dict \<Rightarrow> 'a result" where
  "get_enum_default k of_value dflt d = (case map_of d k of
     None \<Rightarrow> Inr dflt
   | Some (JStr s) \<Rightarrow> (case of_value s of Some x \<Rightarrow> Inr x | None \<Rightarrow> Inl ValueError)
   | _ \<Rightarrow> Inl ValueError)"

section \<open>Enumerations\<close>

datatype event_kind =
    LLM_CALL | TOOL_CALL | AGENT_DECISION | HUMAN_APPROVAL | RISK_CLASSIFICATION
  | POLICY_DECISION | INCIDENT | CONFORMANCE_FINDING | IDENTITY_CLAIM | TASK_STATUS
  | CORRECTION | GENERIC

fun event_kind_value :: "event_kind \<Rightarrow> string" where
  "event_kind_value LLM_CALL = ''llm_call''"
| "event_kind_value TOOL_CALL = ''tool_call''"
| "event_kind_value AGENT_DECISION = ''agent_decision''"
| "event_kind_value HUMAN_APPROVAL = ''human_approval''"
| "event_kind_value RISK_CLASSIFICATION = ''risk_classification''"
| "event_kind_value POLICY_DECISION = ''policy_decision''"
| "event_kind_value INCIDENT = ''incident''"
| "event_kind_value CONFORMANCE_FINDING = ''conformance_finding''"
| "event_kind_value IDENTITY_CLAIM = ''identity_claim''"
| "event_kind_value TASK_STATUS = ''task_status''"
| "event_kind_value CORRECTION = ''correction''"
| "event_kind_value GENERIC = ''generic''"

definition event_kinds :: "event_kind list" where
  "event_kinds = [LLM_CALL, TOOL_CALL, AGENT_DECISION, HUMAN_APPROVAL, RISK_CLASSIFICATION,
     POLICY_DECISION, INCIDENT, CONFORMANCE_FINDING, IDENTITY_CLAIM, TASK_STATUS,
     CORRECTION, GENERIC]"

definition event_kind_of :: "string \<Rightarrow> event_kind option" where
  "event_kind_of s = find (\<lambda>k. event_kind_value k = s) event_kinds"

datatype oversight_status = NOT_REQUIRED | PENDING | APPROVED | REJECTED | Oversight_Unknown

fun oversight_status_value :: "oversight_status \<Rightarrow> string" where
  "oversight_status_value NOT_REQUIRED = ''not_required''"
| "oversight_status_value PENDING = ''pending''"
| "oversight_status_value APPROVED = ''approved''"
| "oversight_status_value REJECTED = ''rejected''"
| "oversight_status_value Oversight_Unknown = ''unknown''"

definition oversight_status_of :: "string \<Rightarrow> oversight_status option" where
  "oversight_status_of s = find (\<lambda>k. oversight_status_value k = s)
     [NOT_REQUIRED, PENDING, APPROVED, REJECTED, Oversight_Unknown]"

section \<open>The parts of an event\<close>

record identity_claim =
  ic_claim_type :: string
  ic_public_key_id :: "string option"
  ic_agent_card_hash :: "string option"
  ic_signature_b64 :: "string option"
  ic_extra :: dict

definition identity_claim_fields :: "string list" where
  "identity_claim_fields = [''claim_type'', ''public_key_id'', ''agent_card_hash'', ''signature_b64'']"

definition dump_identity_claim :: "identity_claim \<Rightarrow> dict" where
  "dump_identity_claim x =
     [(''claim_type'', JStr (ic_claim_type x))]
     @ opt_field ''public_key_id'' (map_option JStr (ic_public_key_id x))
     @ opt_field ''agent_card_hash'' (map_option JStr (ic_agent_card_hash x))
     @ opt_field ''signature_b64'' (map_option JStr (ic_signature_b64 x))
     @ set_extras (ic_extra x)"

definition load_identity_claim :: "dict \<Rightarrow> identity_claim result" where
  "load_identity_claim d =
     sbind (get_str_default ''claim_type'' ''agentcard-binding'' d) (\<lambda>claim_type'.
     sbind (get_opt_str ''public_key_id'' d) (\<lambda>public_key_id'.
     sbind (get_opt_str ''agent_card_hash'' d) (\<lambda>agent_card_hash'.
     sbind (get_opt_str ''signature_b64'' d) (\<lambda>signature_b64'.
       Inr \<lparr>ic_claim_type = claim_type', ic_public_key_id = public_key_id', ic_agent_card_hash = agent_card_hash', ic_signature_b64 = signature_b64',
         ic_extra = extras_of identity_claim_fields d\<rparr>))))"

record actor =
  actor_agent_id :: string
  actor_agent_card_ref :: "string option"
  actor_identity_claim :: "identity_claim option"
  actor_extra :: dict

definition actor_fields :: "string list" where
  "actor_fields = [''agent_id'', ''agent_card_ref'', ''identity_claim'']"

definition dump_actor :: "actor \<Rightarrow> dict" where
  "dump_actor x =
     [(''agent_id'', JStr (actor_agent_id x))]
     @ opt_field ''agent_card_ref'' (map_option JStr (actor_agent_card_ref x))
     @ opt_field ''identity_claim'' (map_option (\<lambda>y. JDict (dump_identity_claim y)) (actor_identity_claim x))
     @ set_extras (actor_extra x)"

definition load_actor :: "dict \<Rightarrow> actor result" where
  "load_actor d =
     sbind (get_str ''agent_id'' d) (\<lambda>agent_id'.
     sbind (get_opt_str ''agent_card_ref'' d) (\<lambda>agent_card_ref'.
     sbind (get_opt_obj ''identity_claim'' load_identity_claim d) (\<lambda>identity_claim'.
       Inr \<lparr>actor_agent_id = agent_id', actor_agent_card_ref = agent_card_ref', actor_identity_claim = identity_claim',
         actor_extra = extras_of actor_fields d\<rparr>)))"

record provenance =
  prov_task_id :: "string option"
  prov_context_id :: "string option"
  prov_parent_task_id :: "string option"
  prov_root_task_id :: "string option"
  prov_extra :: dict

definition provenance_fields :: "string list" where
  "provenance_fields = [''task_id'', ''context_id'', ''parent_task_id'', ''root_task_id'']"

definition dump_provenance :: "provenance \<Rightarrow> dict" where
  "dump_provenance x =
     opt_field ''task_id'' (map_option JStr (prov_task_id x))
     @ opt_field ''context_id'' (map_option JStr (prov_context_id x))
     @ opt_field ''parent_task_id'' (map_option JStr (prov_parent_task_id x))
     @ opt_field ''root_task_id'' (map_option JStr (prov_root_task_id x))
     @ set_extras (prov_extra x)"

definition load_provenance :: "dict \<Rightarrow> provenance result" where
  "load_provenance d =
     sbind (get_opt_str ''task_id'' d) (\<lambda>task_id'.
     sbind (get_opt_str ''context_id'' d) (\<lambda>context_id'.
     sbind (get_opt_str ''parent_task_id'' d) (\<lambda>parent_task_id'.
     sbind (get_opt_str ''root_task_id'' d) (\<lambda>root_task_id'.
       Inr \<lparr>prov_task_id = task_id', prov_context_id = context_id', prov_parent_task_id = parent_task_id', prov_root_task_id = root_task_id',
         prov_extra = extras_of provenance_fields d\<rparr>))))"

record io_ref =
  io_input_ref :: "string option"
  io_output_ref :: "string option"
  io_arguments_ref :: "string option"
  io_input_tokens :: "int option"
  io_output_tokens :: "int option"
  io_total_tokens :: "int option"
  io_cost :: "string option"
  io_cost_currency :: "string option"
  io_extra :: dict

definition io_ref_fields :: "string list" where
  "io_ref_fields = [''input_ref'', ''output_ref'', ''arguments_ref'', ''input_tokens'', ''output_tokens'', ''total_tokens'', ''cost'', ''cost_currency'']"

definition dump_io_ref :: "io_ref \<Rightarrow> dict" where
  "dump_io_ref x =
     opt_field ''input_ref'' (map_option JStr (io_input_ref x))
     @ opt_field ''output_ref'' (map_option JStr (io_output_ref x))
     @ opt_field ''arguments_ref'' (map_option JStr (io_arguments_ref x))
     @ opt_field ''input_tokens'' (map_option JInt (io_input_tokens x))
     @ opt_field ''output_tokens'' (map_option JInt (io_output_tokens x))
     @ opt_field ''total_tokens'' (map_option JInt (io_total_tokens x))
     @ opt_field ''cost'' (map_option JStr (io_cost x))
     @ opt_field ''cost_currency'' (map_option JStr (io_cost_currency x))
     @ set_extras (io_extra x)"

definition load_io_ref :: "dict \<Rightarrow> io_ref result" where
  "load_io_ref d =
     sbind (get_opt_str ''input_ref'' d) (\<lambda>input_ref'.
     sbind (get_opt_str ''output_ref'' d) (\<lambda>output_ref'.
     sbind (get_opt_str ''arguments_ref'' d) (\<lambda>arguments_ref'.
     sbind (get_opt_int ''input_tokens'' d) (\<lambda>input_tokens'.
     sbind (get_opt_int ''output_tokens'' d) (\<lambda>output_tokens'.
     sbind (get_opt_int ''total_tokens'' d) (\<lambda>total_tokens'.
     sbind (get_opt_str ''cost'' d) (\<lambda>cost'.
     sbind (get_opt_str ''cost_currency'' d) (\<lambda>cost_currency'.
       Inr \<lparr>io_input_ref = input_ref', io_output_ref = output_ref', io_arguments_ref = arguments_ref', io_input_tokens = input_tokens', io_output_tokens = output_tokens', io_total_tokens = total_tokens', io_cost = cost', io_cost_currency = cost_currency',
         io_extra = extras_of io_ref_fields d\<rparr>))))))))"

record model_info =
  model_provider :: "string option"
  model_request_model :: "string option"
  model_response_model :: "string option"
  model_extra :: dict

definition model_info_fields :: "string list" where
  "model_info_fields = [''provider'', ''request_model'', ''response_model'']"

definition dump_model_info :: "model_info \<Rightarrow> dict" where
  "dump_model_info x =
     opt_field ''provider'' (map_option JStr (model_provider x))
     @ opt_field ''request_model'' (map_option JStr (model_request_model x))
     @ opt_field ''response_model'' (map_option JStr (model_response_model x))
     @ set_extras (model_extra x)"

definition load_model_info :: "dict \<Rightarrow> model_info result" where
  "load_model_info d =
     sbind (get_opt_str ''provider'' d) (\<lambda>provider'.
     sbind (get_opt_str ''request_model'' d) (\<lambda>request_model'.
     sbind (get_opt_str ''response_model'' d) (\<lambda>response_model'.
       Inr \<lparr>model_provider = provider', model_request_model = request_model', model_response_model = response_model',
         model_extra = extras_of model_info_fields d\<rparr>)))"

record tool_info =
  tool_name :: "string option"
  tool_call_id :: "string option"
  tool_extra :: dict

definition tool_info_fields :: "string list" where
  "tool_info_fields = [''name'', ''call_id'']"

definition dump_tool_info :: "tool_info \<Rightarrow> dict" where
  "dump_tool_info x =
     opt_field ''name'' (map_option JStr (tool_name x))
     @ opt_field ''call_id'' (map_option JStr (tool_call_id x))
     @ set_extras (tool_extra x)"

definition load_tool_info :: "dict \<Rightarrow> tool_info result" where
  "load_tool_info d =
     sbind (get_opt_str ''name'' d) (\<lambda>name'.
     sbind (get_opt_str ''call_id'' d) (\<lambda>call_id'.
       Inr \<lparr>tool_name = name', tool_call_id = call_id',
         tool_extra = extras_of tool_info_fields d\<rparr>))"

record oversight =
  oversight_status :: oversight_status
  oversight_approval_ref :: "string option"
  oversight_reviewer :: "string option"
  oversight_extra :: dict

definition oversight_fields :: "string list" where
  "oversight_fields = [''status'', ''approval_ref'', ''reviewer'']"

definition dump_oversight :: "oversight \<Rightarrow> dict" where
  "dump_oversight x =
     [(''status'', JStr (oversight_status_value (oversight_status x)))]
     @ opt_field ''approval_ref'' (map_option JStr (oversight_approval_ref x))
     @ opt_field ''reviewer'' (map_option JStr (oversight_reviewer x))
     @ set_extras (oversight_extra x)"

definition load_oversight :: "dict \<Rightarrow> oversight result" where
  "load_oversight d =
     sbind (get_enum_default ''status'' oversight_status_of Oversight_Unknown d) (\<lambda>status'.
     sbind (get_opt_str ''approval_ref'' d) (\<lambda>approval_ref'.
     sbind (get_opt_str ''reviewer'' d) (\<lambda>reviewer'.
       Inr \<lparr>oversight_status = status', oversight_approval_ref = approval_ref', oversight_reviewer = reviewer',
         oversight_extra = extras_of oversight_fields d\<rparr>)))"

record risk =
  risk_classification :: "string option"
  risk_rationale_ref :: "string option"
  risk_framework :: "string option"
  risk_extra :: dict

definition risk_fields :: "string list" where
  "risk_fields = [''classification'', ''rationale_ref'', ''framework'']"

definition dump_risk :: "risk \<Rightarrow> dict" where
  "dump_risk x =
     opt_field ''classification'' (map_option JStr (risk_classification x))
     @ opt_field ''rationale_ref'' (map_option JStr (risk_rationale_ref x))
     @ opt_field ''framework'' (map_option JStr (risk_framework x))
     @ set_extras (risk_extra x)"

definition load_risk :: "dict \<Rightarrow> risk result" where
  "load_risk d =
     sbind (get_opt_str ''classification'' d) (\<lambda>classification'.
     sbind (get_opt_str ''rationale_ref'' d) (\<lambda>rationale_ref'.
     sbind (get_opt_str ''framework'' d) (\<lambda>framework'.
       Inr \<lparr>risk_classification = classification', risk_rationale_ref = rationale_ref', risk_framework = framework',
         risk_extra = extras_of risk_fields d\<rparr>)))"

record source_meta =
  source_format :: string
  source_span_id :: "string option"
  source_trace_id :: "string option"
  source_collector_version :: "string option"
  source_ingested_at :: "string option"
  source_extra :: dict

definition source_meta_fields :: "string list" where
  "source_meta_fields = [''format'', ''span_id'', ''trace_id'', ''collector_version'', ''ingested_at'']"

definition dump_source_meta :: "source_meta \<Rightarrow> dict" where
  "dump_source_meta x =
     [(''format'', JStr (source_format x))]
     @ opt_field ''span_id'' (map_option JStr (source_span_id x))
     @ opt_field ''trace_id'' (map_option JStr (source_trace_id x))
     @ opt_field ''collector_version'' (map_option JStr (source_collector_version x))
     @ opt_field ''ingested_at'' (map_option JStr (source_ingested_at x))
     @ set_extras (source_extra x)"

definition load_source_meta :: "dict \<Rightarrow> source_meta result" where
  "load_source_meta d =
     sbind (get_str ''format'' d) (\<lambda>format'.
     sbind (get_opt_str ''span_id'' d) (\<lambda>span_id'.
     sbind (get_opt_str ''trace_id'' d) (\<lambda>trace_id'.
     sbind (get_opt_str ''collector_version'' d) (\<lambda>collector_version'.
     sbind (get_opt_str ''ingested_at'' d) (\<lambda>ingested_at'.
       Inr \<lparr>source_format = format', source_span_id = span_id', source_trace_id = trace_id', source_collector_version = collector_version', source_ingested_at = ingested_at',
         source_extra = extras_of source_meta_fields d\<rparr>)))))"

record ledger_fields =
  ledger_leaf_hash :: "string option"
  ledger_leaf_index :: "int option"
  ledger_checkpoint_id :: "string option"
  ledger_committed_at :: "string option"
  ledger_retention_until :: "string option"
  ledger_extra :: dict

definition ledger_fields_fields :: "string list" where
  "ledger_fields_fields = [''leaf_hash'', ''leaf_index'', ''checkpoint_id'', ''committed_at'', ''retention_until'']"

definition dump_ledger_fields :: "ledger_fields \<Rightarrow> dict" where
  "dump_ledger_fields x =
     opt_field ''leaf_hash'' (map_option JStr (ledger_leaf_hash x))
     @ opt_field ''leaf_index'' (map_option JInt (ledger_leaf_index x))
     @ opt_field ''checkpoint_id'' (map_option JStr (ledger_checkpoint_id x))
     @ opt_field ''committed_at'' (map_option JStr (ledger_committed_at x))
     @ opt_field ''retention_until'' (map_option JStr (ledger_retention_until x))
     @ set_extras (ledger_extra x)"

definition load_ledger_fields :: "dict \<Rightarrow> ledger_fields result" where
  "load_ledger_fields d =
     sbind (get_opt_str ''leaf_hash'' d) (\<lambda>leaf_hash'.
     sbind (get_opt_int ''leaf_index'' d) (\<lambda>leaf_index'.
     sbind (get_opt_str ''checkpoint_id'' d) (\<lambda>checkpoint_id'.
     sbind (get_opt_str ''committed_at'' d) (\<lambda>committed_at'.
     sbind (get_opt_str ''retention_until'' d) (\<lambda>retention_until'.
       Inr \<lparr>ledger_leaf_hash = leaf_hash', ledger_leaf_index = leaf_index', ledger_checkpoint_id = checkpoint_id', ledger_committed_at = committed_at', ledger_retention_until = retention_until',
         ledger_extra = extras_of ledger_fields_fields d\<rparr>)))))"


section \<open>The event\<close>

record compliance_event =
  schema_version :: string
  event_id :: string
  timestamp :: string
  kind :: event_kind
  actor :: actor
  provenance :: provenance
  io :: "io_ref option"
  model :: "model_info option"
  tool :: "tool_info option"
  oversight :: "oversight option"
  risk :: "risk option"
  attributes :: dict
  labels :: "(string \<times> string) list"
  source :: source_meta
  ledger :: "ledger_fields option"
  event_extra :: dict

definition compliance_event_fields :: "string list" where
  "compliance_event_fields = [''schema_version'', ''event_id'', ''timestamp'', ''kind'', ''actor'',
     ''provenance'', ''io'', ''model'', ''tool'', ''oversight'', ''risk'', ''attributes'',
     ''labels'', ''source'', ''ledger'']"

text \<open>The validator of \<open>attributes\<close>: no float at any depth of dictionaries and lists.\<close>

fun float_free :: "json \<Rightarrow> bool" where
  "float_free (JFloat r) \<longleftrightarrow> False"
| "float_free (JDict kvs) \<longleftrightarrow> list_all (\<lambda>kv. float_free (snd kv)) kvs"
| "float_free (JList xs) \<longleftrightarrow> list_all float_free xs"
| "float_free _ \<longleftrightarrow> True"

definition no_floats_in_attributes :: "dict \<Rightarrow> dict result" where
  "no_floats_in_attributes v = (if float_free (JDict v) then Inr v else Inl ValueError)"

definition model_dump :: "compliance_event \<Rightarrow> dict" where
  "model_dump e =
     [(''schema_version'', JStr (schema_version e))]
     @ [(''event_id'', JStr (event_id e))]
     @ [(''timestamp'', JStr (timestamp e))]
     @ [(''kind'', JStr (event_kind_value (kind e)))]
     @ [(''actor'', JDict (dump_actor (actor e)))]
     @ [(''provenance'', JDict (dump_provenance (provenance e)))]
     @ opt_field ''io'' (map_option (\<lambda>y. JDict (dump_io_ref y)) (io e))
     @ opt_field ''model'' (map_option (\<lambda>y. JDict (dump_model_info y)) (model e))
     @ opt_field ''tool'' (map_option (\<lambda>y. JDict (dump_tool_info y)) (tool e))
     @ opt_field ''oversight'' (map_option (\<lambda>y. JDict (dump_oversight y)) (oversight e))
     @ opt_field ''risk'' (map_option (\<lambda>y. JDict (dump_risk y)) (risk e))
     @ [(''attributes'', JDict (attributes e))]
     @ [(''labels'', JDict (map (\<lambda>(k, s). (k, JStr s)) (labels e)))]
     @ [(''source'', JDict (dump_source_meta (source e)))]
     @ opt_field ''ledger'' (map_option (\<lambda>y. JDict (dump_ledger_fields y)) (ledger e))
     @ set_extras (event_extra e)"

definition get_obj :: "string \<Rightarrow> (dict \<Rightarrow> 'a result) \<Rightarrow> dict \<Rightarrow> 'a result" where
  "get_obj k load d = (case map_of d k of Some (JDict x) \<Rightarrow> load x | _ \<Rightarrow> Inl ValueError)"

definition get_obj_default :: "string \<Rightarrow> 'a \<Rightarrow> (dict \<Rightarrow> 'a result) \<Rightarrow> dict \<Rightarrow> 'a result" where
  "get_obj_default k dflt load d = (case map_of d k of
     None \<Rightarrow> Inr dflt
   | Some (JDict x) \<Rightarrow> load x
   | _ \<Rightarrow> Inl ValueError)"

fun load_labels :: "dict \<Rightarrow> (string \<times> string) list result" where
  "load_labels [] = Inr []"
| "load_labels ((k, v) # kvs) =
     (case v of JStr s \<Rightarrow> sbind (load_labels kvs) (\<lambda>r. Inr ((k, s) # r)) | _ \<Rightarrow> Inl ValueError)"

definition empty_provenance :: provenance where
  "empty_provenance = \<lparr>prov_task_id = None, prov_context_id = None, prov_parent_task_id = None,
     prov_root_task_id = None, prov_extra = []\<rparr>"

definition COMPLIANCE_EVENT_SCHEMA_VERSION :: string where
  "COMPLIANCE_EVENT_SCHEMA_VERSION = ''1.0.0''"

definition load_kind :: "dict \<Rightarrow> event_kind result" where
  "load_kind d = (case map_of d ''kind'' of
     Some (JStr s) \<Rightarrow> (case event_kind_of s of Some k \<Rightarrow> Inr k | None \<Rightarrow> Inl ValueError)
   | _ \<Rightarrow> Inl ValueError)"

definition model_validate :: "dict \<Rightarrow> compliance_event result" where
  "model_validate d =
     sbind (get_str_default ''schema_version'' COMPLIANCE_EVENT_SCHEMA_VERSION d) (\<lambda>v.
     sbind (get_str_default ''event_id'' [] d) (\<lambda>i.
     sbind (get_str ''timestamp'' d) (\<lambda>ts.
     sbind (load_kind d) (\<lambda>k.
     sbind (get_obj ''actor'' load_actor d) (\<lambda>a.
     sbind (get_obj_default ''provenance'' empty_provenance load_provenance d) (\<lambda>p.
     sbind (get_opt_obj ''io'' load_io_ref d) (\<lambda>x1.
     sbind (get_opt_obj ''model'' load_model_info d) (\<lambda>x2.
     sbind (get_opt_obj ''tool'' load_tool_info d) (\<lambda>x3.
     sbind (get_opt_obj ''oversight'' load_oversight d) (\<lambda>x4.
     sbind (get_opt_obj ''risk'' load_risk d) (\<lambda>x5.
     sbind (get_obj_default ''attributes'' [] no_floats_in_attributes d) (\<lambda>ats.
     sbind (get_obj_default ''labels'' [] load_labels d) (\<lambda>ls.
     sbind (get_obj ''source'' load_source_meta d) (\<lambda>s.
     sbind (get_opt_obj ''ledger'' load_ledger_fields d) (\<lambda>l.
       Inr \<lparr>schema_version = v, event_id = i, timestamp = ts, kind = k, actor = a, provenance = p,
         io = x1, model = x2, tool = x3, oversight = x4, risk = x5, attributes = ats, labels = ls,
         source = s, ledger = l, event_extra = extras_of compliance_event_fields d\<rparr>)))))))))))))))"

section \<open>Construction\<close>

text \<open>The constructor call with its defaults, the form most producers use.\<close>

definition bare_actor :: "string \<Rightarrow> actor" where
  "bare_actor a = \<lparr>actor_agent_id = a, actor_agent_card_ref = None, actor_identity_claim = None,
     actor_extra = []\<rparr>"

definition bare_source :: "string \<Rightarrow> source_meta" where
  "bare_source f = \<lparr>source_format = f, source_span_id = None, source_trace_id = None,
     source_collector_version = None, source_ingested_at = None, source_extra = []\<rparr>"

definition bare_event :: "string \<Rightarrow> event_kind \<Rightarrow> actor \<Rightarrow> source_meta \<Rightarrow> compliance_event" where
  "bare_event ts k a s =
     \<lparr>schema_version = COMPLIANCE_EVENT_SCHEMA_VERSION, event_id = [], timestamp = ts, kind = k,
      actor = a, provenance = empty_provenance, io = None, model = None, tool = None,
      oversight = None, risk = None, attributes = [], labels = [], source = s, ledger = None,
      event_extra = []\<rparr>"

text \<open>A field that must be a text.\<close>

definition typed_text :: "json \<Rightarrow> string result" where
  "typed_text v = (case v of JStr s \<Rightarrow> Inr s | _ \<Rightarrow> Inl ValueError)"

definition empty_model_info :: model_info where
  "empty_model_info = \<lparr>model_provider = None, model_request_model = None,
     model_response_model = None, model_extra = []\<rparr>"

definition empty_io_ref :: io_ref where
  "empty_io_ref = \<lparr>io_input_ref = None, io_output_ref = None, io_arguments_ref = None,
     io_input_tokens = None, io_output_tokens = None, io_total_tokens = None, io_cost = None,
     io_cost_currency = None, io_extra = []\<rparr>"

section \<open>Determinism helpers\<close>

definition dump_excluding :: "string list \<Rightarrow> compliance_event \<Rightarrow> dict" where
  "dump_excluding exclude_top e = foldl (\<lambda>d key. dpop key d) (model_dump e) exclude_top"

definition content_for_id :: "compliance_event \<Rightarrow> dict" where
  "content_for_id e = dump_excluding [''event_id'', ''ledger''] e"

definition leaf_content :: "compliance_event \<Rightarrow> dict" where
  "leaf_content e = dump_excluding [''ledger''] e"

definition derive_event_id :: "compliance_event \<Rightarrow> string result" where
  "derive_event_id e =
     sbind (canonical_bytes (JDict (content_for_id e))) (\<lambda>b. Inr (''evt_'' @ take 40 (sha256_hex b)))"

definition finalize_id :: "compliance_event \<Rightarrow> compliance_event result" where
  "finalize_id e = sbind (derive_event_id e) (\<lambda>i. Inr (e\<lparr>event_id := i\<rparr>))"

definition leaf_content_bytes :: "compliance_event \<Rightarrow> bytes result" where
  "leaf_content_bytes e = canonical_bytes (JDict (leaf_content e))"

end
