(* ===== verification/Event_Laws.thy ===== *)
theory Event_Laws imports Events begin

text \<open>
  Laws of \<open>Events\<close>: reading back what a dump contains, field by field, hence
  \<open>model_validate\<close> inverts \<open>model_dump\<close> on every class; what the event id and the leaf bytes
  depend on; and when an event canonicalises.
\<close>

section \<open>Reading fields back\<close>

named_theorems field_laws \<open>getters applied to concatenated fields\<close>

definition absent :: "string \<Rightarrow> dict \<Rightarrow> bool" where
  "absent k d \<longleftrightarrow> k \<notin> fst ` set d"

definition good_extras :: "string list \<Rightarrow> dict \<Rightarrow> bool" where
  "good_extras fs ex \<longleftrightarrow> (\<forall>(k, v) \<in> set ex. k \<notin> set fs \<and> v \<noteq> JNull)"

lemma absent_map_of: "absent k d \<Longrightarrow> map_of d k = None"
  by (simp add: absent_def map_of_eq_None_iff)

lemma absent_fields [field_laws]:
  "absent k []" "k \<noteq> k' \<Longrightarrow> absent k r \<Longrightarrow> absent k ([(k', v)] @ r)"
  "k \<noteq> k' \<Longrightarrow> absent k r \<Longrightarrow> absent k (opt_field k' w @ r)"
  by (auto simp: absent_def opt_field_def split: option.splits)

lemma absent_extras:
  "good_extras fs ex \<Longrightarrow> k \<in> set fs \<Longrightarrow> absent k (set_extras ex)"
  by (auto simp: absent_def good_extras_def set_extras_def)

lemma map_of_fields [field_laws]:
  "map_of ([(k, v)] @ r) k = Some v"
  "k \<noteq> k' \<Longrightarrow> map_of ([(k', v)] @ r) k = map_of r k"
  "k \<noteq> k' \<Longrightarrow> map_of (opt_field k' w @ r) k = map_of r k"
  "absent k r \<Longrightarrow> map_of (opt_field k w @ r) k = w"
  by (cases w; simp add: opt_field_def absent_map_of)+

lemma skip_fields [field_laws]:
  "k \<noteq> k' \<Longrightarrow> get_opt conv k ([(k', v)] @ r) = get_opt conv k r"
  "k \<noteq> k' \<Longrightarrow> get_opt conv k (opt_field k' w @ r) = get_opt conv k r"
  "k \<noteq> k' \<Longrightarrow> get_str k ([(k', v)] @ r) = get_str k r"
  "k \<noteq> k' \<Longrightarrow> get_str k (opt_field k' w @ r) = get_str k r"
  "k \<noteq> k' \<Longrightarrow> get_str_default k s ([(k', v)] @ r) = get_str_default k s r"
  "k \<noteq> k' \<Longrightarrow> get_str_default k s (opt_field k' w @ r) = get_str_default k s r"
  "k \<noteq> k' \<Longrightarrow> get_obj k load ([(k', v)] @ r) = get_obj k load r"
  "k \<noteq> k' \<Longrightarrow> get_obj k load (opt_field k' w @ r) = get_obj k load r"
  "k \<noteq> k' \<Longrightarrow> get_obj_default k x load ([(k', v)] @ r) = get_obj_default k x load r"
  "k \<noteq> k' \<Longrightarrow> get_obj_default k x load (opt_field k' w @ r) = get_obj_default k x load r"
  by (simp_all add: get_opt_def get_str_def get_str_default_def get_obj_def get_obj_default_def
      map_of_fields del: append.simps append_Cons map_of_append)

lemma read_fields [field_laws]:
  "get_str k ([(k, JStr s)] @ r) = Inr s"
  "get_str_default k dflt ([(k, JStr s)] @ r) = Inr s"
  "get_obj k load ([(k, JDict x)] @ r) = load x"
  "get_obj_default k y load ([(k, JDict x)] @ r) = load x"
  by (simp_all add: get_str_def get_str_default_def get_obj_def get_obj_default_def)

lemma read_opt_fields [field_laws]:
  "absent k r \<Longrightarrow> get_opt as_string k (opt_field k (map_option JStr w) @ r) = Inr w"
  "absent k r \<Longrightarrow> get_opt as_int k (opt_field k (map_option JInt i) @ r) = Inr i"
  by (cases w; simp add: get_opt_def as_string_def opt_field_def absent_map_of)
    (cases i; simp add: get_opt_def as_int_def opt_field_def absent_map_of)

lemma read_opt_obj:
  "absent k r \<Longrightarrow> (\<And>y. w = Some y \<Longrightarrow> load (dump y) = Inr y) \<Longrightarrow>
    get_opt (as_obj load) k (opt_field k (map_option (\<lambda>y. JDict (dump y)) w) @ r) = Inr w"
  by (cases w) (simp_all add: get_opt_def as_obj_def opt_field_def absent_map_of)

lemma read_enum [field_laws]:
  "of_value (value x) = Some x \<Longrightarrow> get_enum_default k of_value dflt ([(k, JStr (value x))] @ r) = Inr x"
  by (simp add: get_enum_default_def)

lemma extras_of_fields [field_laws]:
  "k \<in> set fs \<Longrightarrow> extras_of fs ([(k, v)] @ r) = extras_of fs r"
  "k \<in> set fs \<Longrightarrow> extras_of fs (opt_field k w @ r) = extras_of fs r"
  by (auto simp: extras_of_def opt_field_def split: option.splits)

lemma extras_of_extras: "good_extras fs ex \<Longrightarrow> extras_of fs (set_extras ex) = ex"
  by (force simp: extras_of_def set_extras_def good_extras_def filter_id_conv)

lemma event_kind_roundtrip [simp]: "event_kind_of (event_kind_value k) = Some k"
  by (cases k) (simp_all add: event_kind_of_def event_kinds_def)

lemma oversight_status_roundtrip [simp]: "oversight_status_of (oversight_status_value s) = Some s"
  by (cases s) (simp_all add: oversight_status_of_def)

section \<open>Good values\<close>

text \<open>Values with distinct keys and no float: exactly what can be canonicalised losslessly.\<close>

definition good_value :: "json \<Rightarrow> bool" where
  "good_value v \<longleftrightarrow> wf_dicts v \<and> float_free v"

lemma float_free_canonicalizable: "float_free v \<Longrightarrow> canonicalizable Some v"
  by (induction v rule: float_free.induct) (auto simp: list_all_iff)

lemma good_scalars [simp]: "good_value (JStr s)" "good_value (JInt i)" "good_value (JBool b)"
    "good_value JNull"
  by (simp_all add: good_value_def)

lemma good_fields [field_laws]:
  "good_value (JDict [])"
  "absent k r \<Longrightarrow> good_value v \<Longrightarrow> good_value (JDict r) \<Longrightarrow> good_value (JDict ([(k, v)] @ r))"
  "absent k r \<Longrightarrow> good_value (JDict r) \<Longrightarrow> good_value (JDict (opt_field k (map_option JStr w) @ r))"
  "absent k r \<Longrightarrow> good_value (JDict r) \<Longrightarrow> good_value (JDict (opt_field k (map_option JInt i) @ r))"
  by (auto simp: good_value_def absent_def opt_field_def list_all_iff split: option.split)

lemma good_opt_obj:
  "absent k r \<Longrightarrow> (\<And>y. w = Some y \<Longrightarrow> good_value (JDict (dump y))) \<Longrightarrow> good_value (JDict r) \<Longrightarrow>
    good_value (JDict (opt_field k (map_option (\<lambda>y. JDict (dump y)) w) @ r))"
  by (cases w) (auto simp: good_value_def absent_def opt_field_def list_all_iff)

lemma good_set_extras: "good_value (JDict ex) \<Longrightarrow> good_value (JDict (set_extras ex))"
  unfolding good_value_def set_extras_def by (auto simp: list_all_iff distinct_map_filter)

section \<open>Round trips\<close>

definition wf_identity_claim :: "identity_claim \<Rightarrow> bool" where
  "wf_identity_claim x \<longleftrightarrow> good_extras identity_claim_fields (ic_extra x)
     \<and> good_value (JDict (ic_extra x))"

lemma load_dump_identity_claim: "wf_identity_claim x \<Longrightarrow> load_identity_claim (dump_identity_claim x) = Inr x"
proof -
  assume wf: "wf_identity_claim x"
  then have ex: "good_extras identity_claim_fields (ic_extra x)" by (simp add: wf_identity_claim_def)
  note absent_ex = absent_extras [OF ex, unfolded identity_claim_fields_def]
  note extras = extras_of_extras [OF ex, unfolded identity_claim_fields_def]
  from wf show ?thesis
    unfolding load_identity_claim_def dump_identity_claim_def identity_claim_fields_def append_assoc
    by (simp add: field_laws absent_ex extras absent_map_of del: append.simps append_Cons append_Nil)
qed

lemma good_dump_identity_claim: "wf_identity_claim x \<Longrightarrow> good_value (JDict (dump_identity_claim x))"
proof -
  assume wf: "wf_identity_claim x"
  then have ex: "good_extras identity_claim_fields (ic_extra x)" "good_value (JDict (ic_extra x))"
    by (simp_all add: wf_identity_claim_def)
  note absent_ex = absent_extras [OF ex(1), unfolded identity_claim_fields_def]
  from wf show ?thesis
    unfolding dump_identity_claim_def
    by (simp add: field_laws absent_ex good_set_extras [OF ex(2)] del: append.simps append_Cons append_Nil)
qed

definition wf_actor :: "actor \<Rightarrow> bool" where
  "wf_actor x \<longleftrightarrow> good_extras actor_fields (actor_extra x)
     \<and> good_value (JDict (actor_extra x))
     \<and> (\<forall>y. actor_identity_claim x = Some y \<longrightarrow> wf_identity_claim y)"

lemma load_dump_actor: "wf_actor x \<Longrightarrow> load_actor (dump_actor x) = Inr x"
proof -
  assume wf: "wf_actor x"
  then have ex: "good_extras actor_fields (actor_extra x)" by (simp add: wf_actor_def)
  note absent_ex = absent_extras [OF ex, unfolded actor_fields_def]
  note extras = extras_of_extras [OF ex, unfolded actor_fields_def]
  from wf show ?thesis
    unfolding load_actor_def dump_actor_def actor_fields_def append_assoc
    by (simp add: field_laws absent_ex extras absent_map_of read_opt_obj load_dump_identity_claim wf_actor_def [of x] del: append.simps append_Cons append_Nil)
qed

lemma good_dump_actor: "wf_actor x \<Longrightarrow> good_value (JDict (dump_actor x))"
proof -
  assume wf: "wf_actor x"
  then have ex: "good_extras actor_fields (actor_extra x)" "good_value (JDict (actor_extra x))"
    by (simp_all add: wf_actor_def)
  note absent_ex = absent_extras [OF ex(1), unfolded actor_fields_def]
  from wf show ?thesis
    unfolding dump_actor_def
    by (simp add: field_laws absent_ex good_set_extras [OF ex(2)] good_opt_obj good_dump_identity_claim wf_actor_def [of x] del: append.simps append_Cons append_Nil)
qed

definition wf_provenance :: "provenance \<Rightarrow> bool" where
  "wf_provenance x \<longleftrightarrow> good_extras provenance_fields (prov_extra x)
     \<and> good_value (JDict (prov_extra x))"

lemma load_dump_provenance: "wf_provenance x \<Longrightarrow> load_provenance (dump_provenance x) = Inr x"
proof -
  assume wf: "wf_provenance x"
  then have ex: "good_extras provenance_fields (prov_extra x)" by (simp add: wf_provenance_def)
  note absent_ex = absent_extras [OF ex, unfolded provenance_fields_def]
  note extras = extras_of_extras [OF ex, unfolded provenance_fields_def]
  from wf show ?thesis
    unfolding load_provenance_def dump_provenance_def provenance_fields_def append_assoc
    by (simp add: field_laws absent_ex extras absent_map_of del: append.simps append_Cons append_Nil)
qed

lemma good_dump_provenance: "wf_provenance x \<Longrightarrow> good_value (JDict (dump_provenance x))"
proof -
  assume wf: "wf_provenance x"
  then have ex: "good_extras provenance_fields (prov_extra x)" "good_value (JDict (prov_extra x))"
    by (simp_all add: wf_provenance_def)
  note absent_ex = absent_extras [OF ex(1), unfolded provenance_fields_def]
  from wf show ?thesis
    unfolding dump_provenance_def
    by (simp add: field_laws absent_ex good_set_extras [OF ex(2)] del: append.simps append_Cons append_Nil)
qed

definition wf_io_ref :: "io_ref \<Rightarrow> bool" where
  "wf_io_ref x \<longleftrightarrow> good_extras io_ref_fields (io_extra x)
     \<and> good_value (JDict (io_extra x))"

lemma load_dump_io_ref: "wf_io_ref x \<Longrightarrow> load_io_ref (dump_io_ref x) = Inr x"
proof -
  assume wf: "wf_io_ref x"
  then have ex: "good_extras io_ref_fields (io_extra x)" by (simp add: wf_io_ref_def)
  note absent_ex = absent_extras [OF ex, unfolded io_ref_fields_def]
  note extras = extras_of_extras [OF ex, unfolded io_ref_fields_def]
  from wf show ?thesis
    unfolding load_io_ref_def dump_io_ref_def io_ref_fields_def append_assoc
    by (simp add: field_laws absent_ex extras absent_map_of del: append.simps append_Cons append_Nil)
qed

lemma good_dump_io_ref: "wf_io_ref x \<Longrightarrow> good_value (JDict (dump_io_ref x))"
proof -
  assume wf: "wf_io_ref x"
  then have ex: "good_extras io_ref_fields (io_extra x)" "good_value (JDict (io_extra x))"
    by (simp_all add: wf_io_ref_def)
  note absent_ex = absent_extras [OF ex(1), unfolded io_ref_fields_def]
  from wf show ?thesis
    unfolding dump_io_ref_def
    by (simp add: field_laws absent_ex good_set_extras [OF ex(2)] del: append.simps append_Cons append_Nil)
qed

definition wf_model_info :: "model_info \<Rightarrow> bool" where
  "wf_model_info x \<longleftrightarrow> good_extras model_info_fields (model_extra x)
     \<and> good_value (JDict (model_extra x))"

lemma load_dump_model_info: "wf_model_info x \<Longrightarrow> load_model_info (dump_model_info x) = Inr x"
proof -
  assume wf: "wf_model_info x"
  then have ex: "good_extras model_info_fields (model_extra x)" by (simp add: wf_model_info_def)
  note absent_ex = absent_extras [OF ex, unfolded model_info_fields_def]
  note extras = extras_of_extras [OF ex, unfolded model_info_fields_def]
  from wf show ?thesis
    unfolding load_model_info_def dump_model_info_def model_info_fields_def append_assoc
    by (simp add: field_laws absent_ex extras absent_map_of del: append.simps append_Cons append_Nil)
qed

lemma good_dump_model_info: "wf_model_info x \<Longrightarrow> good_value (JDict (dump_model_info x))"
proof -
  assume wf: "wf_model_info x"
  then have ex: "good_extras model_info_fields (model_extra x)" "good_value (JDict (model_extra x))"
    by (simp_all add: wf_model_info_def)
  note absent_ex = absent_extras [OF ex(1), unfolded model_info_fields_def]
  from wf show ?thesis
    unfolding dump_model_info_def
    by (simp add: field_laws absent_ex good_set_extras [OF ex(2)] del: append.simps append_Cons append_Nil)
qed

definition wf_tool_info :: "tool_info \<Rightarrow> bool" where
  "wf_tool_info x \<longleftrightarrow> good_extras tool_info_fields (tool_extra x)
     \<and> good_value (JDict (tool_extra x))"

lemma load_dump_tool_info: "wf_tool_info x \<Longrightarrow> load_tool_info (dump_tool_info x) = Inr x"
proof -
  assume wf: "wf_tool_info x"
  then have ex: "good_extras tool_info_fields (tool_extra x)" by (simp add: wf_tool_info_def)
  note absent_ex = absent_extras [OF ex, unfolded tool_info_fields_def]
  note extras = extras_of_extras [OF ex, unfolded tool_info_fields_def]
  from wf show ?thesis
    unfolding load_tool_info_def dump_tool_info_def tool_info_fields_def append_assoc
    by (simp add: field_laws absent_ex extras absent_map_of del: append.simps append_Cons append_Nil)
qed

lemma good_dump_tool_info: "wf_tool_info x \<Longrightarrow> good_value (JDict (dump_tool_info x))"
proof -
  assume wf: "wf_tool_info x"
  then have ex: "good_extras tool_info_fields (tool_extra x)" "good_value (JDict (tool_extra x))"
    by (simp_all add: wf_tool_info_def)
  note absent_ex = absent_extras [OF ex(1), unfolded tool_info_fields_def]
  from wf show ?thesis
    unfolding dump_tool_info_def
    by (simp add: field_laws absent_ex good_set_extras [OF ex(2)] del: append.simps append_Cons append_Nil)
qed

definition wf_oversight :: "oversight \<Rightarrow> bool" where
  "wf_oversight x \<longleftrightarrow> good_extras oversight_fields (oversight_extra x)
     \<and> good_value (JDict (oversight_extra x))"

lemma load_dump_oversight: "wf_oversight x \<Longrightarrow> load_oversight (dump_oversight x) = Inr x"
proof -
  assume wf: "wf_oversight x"
  then have ex: "good_extras oversight_fields (oversight_extra x)" by (simp add: wf_oversight_def)
  note absent_ex = absent_extras [OF ex, unfolded oversight_fields_def]
  note extras = extras_of_extras [OF ex, unfolded oversight_fields_def]
  from wf show ?thesis
    unfolding load_oversight_def dump_oversight_def oversight_fields_def append_assoc
    by (simp add: field_laws absent_ex extras absent_map_of del: append.simps append_Cons append_Nil)
qed

lemma good_dump_oversight: "wf_oversight x \<Longrightarrow> good_value (JDict (dump_oversight x))"
proof -
  assume wf: "wf_oversight x"
  then have ex: "good_extras oversight_fields (oversight_extra x)" "good_value (JDict (oversight_extra x))"
    by (simp_all add: wf_oversight_def)
  note absent_ex = absent_extras [OF ex(1), unfolded oversight_fields_def]
  from wf show ?thesis
    unfolding dump_oversight_def
    by (simp add: field_laws absent_ex good_set_extras [OF ex(2)] del: append.simps append_Cons append_Nil)
qed

definition wf_risk :: "risk \<Rightarrow> bool" where
  "wf_risk x \<longleftrightarrow> good_extras risk_fields (risk_extra x)
     \<and> good_value (JDict (risk_extra x))"

lemma load_dump_risk: "wf_risk x \<Longrightarrow> load_risk (dump_risk x) = Inr x"
proof -
  assume wf: "wf_risk x"
  then have ex: "good_extras risk_fields (risk_extra x)" by (simp add: wf_risk_def)
  note absent_ex = absent_extras [OF ex, unfolded risk_fields_def]
  note extras = extras_of_extras [OF ex, unfolded risk_fields_def]
  from wf show ?thesis
    unfolding load_risk_def dump_risk_def risk_fields_def append_assoc
    by (simp add: field_laws absent_ex extras absent_map_of del: append.simps append_Cons append_Nil)
qed

lemma good_dump_risk: "wf_risk x \<Longrightarrow> good_value (JDict (dump_risk x))"
proof -
  assume wf: "wf_risk x"
  then have ex: "good_extras risk_fields (risk_extra x)" "good_value (JDict (risk_extra x))"
    by (simp_all add: wf_risk_def)
  note absent_ex = absent_extras [OF ex(1), unfolded risk_fields_def]
  from wf show ?thesis
    unfolding dump_risk_def
    by (simp add: field_laws absent_ex good_set_extras [OF ex(2)] del: append.simps append_Cons append_Nil)
qed

definition wf_source_meta :: "source_meta \<Rightarrow> bool" where
  "wf_source_meta x \<longleftrightarrow> good_extras source_meta_fields (source_extra x)
     \<and> good_value (JDict (source_extra x))"

lemma load_dump_source_meta: "wf_source_meta x \<Longrightarrow> load_source_meta (dump_source_meta x) = Inr x"
proof -
  assume wf: "wf_source_meta x"
  then have ex: "good_extras source_meta_fields (source_extra x)" by (simp add: wf_source_meta_def)
  note absent_ex = absent_extras [OF ex, unfolded source_meta_fields_def]
  note extras = extras_of_extras [OF ex, unfolded source_meta_fields_def]
  from wf show ?thesis
    unfolding load_source_meta_def dump_source_meta_def source_meta_fields_def append_assoc
    by (simp add: field_laws absent_ex extras absent_map_of del: append.simps append_Cons append_Nil)
qed

lemma good_dump_source_meta: "wf_source_meta x \<Longrightarrow> good_value (JDict (dump_source_meta x))"
proof -
  assume wf: "wf_source_meta x"
  then have ex: "good_extras source_meta_fields (source_extra x)" "good_value (JDict (source_extra x))"
    by (simp_all add: wf_source_meta_def)
  note absent_ex = absent_extras [OF ex(1), unfolded source_meta_fields_def]
  from wf show ?thesis
    unfolding dump_source_meta_def
    by (simp add: field_laws absent_ex good_set_extras [OF ex(2)] del: append.simps append_Cons append_Nil)
qed

definition wf_ledger_fields :: "ledger_fields \<Rightarrow> bool" where
  "wf_ledger_fields x \<longleftrightarrow> good_extras ledger_fields_fields (ledger_extra x)
     \<and> good_value (JDict (ledger_extra x))"

lemma load_dump_ledger_fields: "wf_ledger_fields x \<Longrightarrow> load_ledger_fields (dump_ledger_fields x) = Inr x"
proof -
  assume wf: "wf_ledger_fields x"
  then have ex: "good_extras ledger_fields_fields (ledger_extra x)" by (simp add: wf_ledger_fields_def)
  note absent_ex = absent_extras [OF ex, unfolded ledger_fields_fields_def]
  note extras = extras_of_extras [OF ex, unfolded ledger_fields_fields_def]
  from wf show ?thesis
    unfolding load_ledger_fields_def dump_ledger_fields_def ledger_fields_fields_def append_assoc
    by (simp add: field_laws absent_ex extras absent_map_of del: append.simps append_Cons append_Nil)
qed

lemma good_dump_ledger_fields: "wf_ledger_fields x \<Longrightarrow> good_value (JDict (dump_ledger_fields x))"
proof -
  assume wf: "wf_ledger_fields x"
  then have ex: "good_extras ledger_fields_fields (ledger_extra x)" "good_value (JDict (ledger_extra x))"
    by (simp_all add: wf_ledger_fields_def)
  note absent_ex = absent_extras [OF ex(1), unfolded ledger_fields_fields_def]
  from wf show ?thesis
    unfolding dump_ledger_fields_def
    by (simp add: field_laws absent_ex good_set_extras [OF ex(2)] del: append.simps append_Cons append_Nil)
qed

section \<open>Whole events\<close>

definition wf_opt :: "('a \<Rightarrow> bool) \<Rightarrow> 'a option \<Rightarrow> bool" where
  "wf_opt ok x \<longleftrightarrow> (\<forall>y. x = Some y \<longrightarrow> ok y)"

lemma wf_opt_simps [simp]: "wf_opt ok None" "wf_opt ok (Some y) \<longleftrightarrow> ok y"
  by (simp_all add: wf_opt_def)

lemma wf_optD: "wf_opt ok x \<Longrightarrow> x = Some y \<Longrightarrow> ok y"
  by simp

definition wf_event :: "compliance_event \<Rightarrow> bool" where
  "wf_event e \<longleftrightarrow> wf_actor (actor e) \<and> wf_provenance (provenance e) \<and> wf_source_meta (source e)
     \<and> wf_opt wf_io_ref (io e) \<and> wf_opt wf_model_info (model e) \<and> wf_opt wf_tool_info (tool e)
     \<and> wf_opt wf_oversight (oversight e) \<and> wf_opt wf_risk (risk e)
     \<and> wf_opt wf_ledger_fields (ledger e)
     \<and> good_value (JDict (attributes e)) \<and> distinct (map fst (labels e))
     \<and> good_extras compliance_event_fields (event_extra e) \<and> good_value (JDict (event_extra e))"

lemma load_labels_dump: "load_labels (map (\<lambda>(k, s). (k, JStr s)) ls) = Inr ls"
  by (induction ls) auto

lemma good_labels: "distinct (map fst ls) \<Longrightarrow> good_value (JDict (map (\<lambda>(k, s). (k, JStr s)) ls))"
  by (induction ls) (auto simp: good_value_def image_iff)

lemma good_attributes: "good_value (JDict d) \<Longrightarrow> no_floats_in_attributes d = Inr d"
  by (simp add: no_floats_in_attributes_def good_value_def)

lemma load_kind_dump [field_laws]:
  "load_kind ([(''kind'', JStr (event_kind_value k))] @ r) = Inr k"
  "k' \<noteq> ''kind'' \<Longrightarrow> load_kind ([(k', v)] @ r) = load_kind r"
  by (simp_all add: load_kind_def)

lemma model_validate_dump:
  assumes wf: "wf_event e"
  shows "model_validate (model_dump e) = Inr e"
proof -
  note parts = wf [unfolded wf_event_def]
  have ex: "good_extras compliance_event_fields (event_extra e)" using parts by simp
  note absent_ex = absent_extras [OF ex, unfolded compliance_event_fields_def]
  note extras = extras_of_extras [OF ex, unfolded compliance_event_fields_def]
  note objs = load_dump_actor load_dump_provenance load_dump_source_meta
  have opts:
    "\<And>y. io e = Some y \<Longrightarrow> load_io_ref (dump_io_ref y) = Inr y"
    "\<And>y. model e = Some y \<Longrightarrow> load_model_info (dump_model_info y) = Inr y"
    "\<And>y. tool e = Some y \<Longrightarrow> load_tool_info (dump_tool_info y) = Inr y"
    "\<And>y. oversight e = Some y \<Longrightarrow> load_oversight (dump_oversight y) = Inr y"
    "\<And>y. risk e = Some y \<Longrightarrow> load_risk (dump_risk y) = Inr y"
    "\<And>y. ledger e = Some y \<Longrightarrow> load_ledger_fields (dump_ledger_fields y) = Inr y"
    using parts by (simp_all add: load_dump_io_ref load_dump_model_info load_dump_tool_info
        load_dump_oversight load_dump_risk load_dump_ledger_fields)
  from parts show ?thesis
    unfolding model_validate_def model_dump_def compliance_event_fields_def append_assoc
    by (simp add: field_laws absent_ex extras absent_map_of objs read_opt_obj opts load_labels_dump
        good_attributes del: append.simps append_Cons append_Nil)
qed

lemma good_model_dump:
  assumes wf: "wf_event e"
  shows "good_value (JDict (model_dump e))"
proof -
  note parts = wf [unfolded wf_event_def]
  have ex: "good_extras compliance_event_fields (event_extra e)" "good_value (JDict (event_extra e))"
    using parts by simp_all
  note absent_ex = absent_extras [OF ex(1), unfolded compliance_event_fields_def]
  note goods = good_dump_actor good_dump_provenance good_dump_source_meta good_labels
  have opts:
    "\<And>y. io e = Some y \<Longrightarrow> good_value (JDict (dump_io_ref y))"
    "\<And>y. model e = Some y \<Longrightarrow> good_value (JDict (dump_model_info y))"
    "\<And>y. tool e = Some y \<Longrightarrow> good_value (JDict (dump_tool_info y))"
    "\<And>y. oversight e = Some y \<Longrightarrow> good_value (JDict (dump_oversight y))"
    "\<And>y. risk e = Some y \<Longrightarrow> good_value (JDict (dump_risk y))"
    "\<And>y. ledger e = Some y \<Longrightarrow> good_value (JDict (dump_ledger_fields y))"
    using parts by (simp_all add: good_dump_io_ref good_dump_model_info good_dump_tool_info
        good_dump_oversight good_dump_risk good_dump_ledger_fields)
  from parts show ?thesis
    unfolding model_dump_def
    by (simp add: field_laws absent_ex good_set_extras [OF ex(2)] goods good_opt_obj opts
        del: append.simps append_Cons append_Nil)
qed

section \<open>What the id and the leaf depend on\<close>

lemma dpop_fields [field_laws]:
  "dpop k ([(k, v)] @ r) = dpop k r" "k \<noteq> k' \<Longrightarrow> dpop k ([(k', v)] @ r) = [(k', v)] @ dpop k r"
  "dpop k (opt_field k w @ r) = dpop k r"
  "k \<noteq> k' \<Longrightarrow> dpop k (opt_field k' w @ r) = opt_field k' w @ dpop k r"
  by (auto simp: dpop_def opt_field_def split: option.split)

lemma leaf_content_ledger [simp]: "leaf_content (e\<lparr>ledger := l\<rparr>) = leaf_content e"
  by (simp add: leaf_content_def dump_excluding_def model_dump_def field_laws
      del: append.simps append_Cons append_Nil dpop_append)

lemma content_for_id_stable [simp]:
  "content_for_id (e\<lparr>ledger := l\<rparr>) = content_for_id e"
  "content_for_id (e\<lparr>event_id := i\<rparr>) = content_for_id e"
  by (simp_all add: content_for_id_def dump_excluding_def model_dump_def field_laws
      del: append.simps append_Cons append_Nil dpop_append)

lemma leaf_content_dump: "leaf_content e = dpop ''ledger'' (model_dump e)"
  by (simp add: leaf_content_def dump_excluding_def)

lemma good_dpop: "good_value (JDict d) \<Longrightarrow> good_value (JDict (dpop k d))"
  unfolding good_value_def dpop_def by (auto simp: list_all_iff distinct_map_filter)

lemma good_content:
  assumes "wf_event e"
  shows "good_value (JDict (leaf_content e))" "good_value (JDict (content_for_id e))"
  using good_model_dump [OF assms]
  by (simp_all add: leaf_content_def content_for_id_def dump_excluding_def good_dpop)

lemma canonical_good: "good_value v \<Longrightarrow> \<exists>b. canonical_bytes v = Inr b"
  using canonical_bytes_outcome [of Some v] float_free_canonicalizable [of v]
  by (simp add: good_value_def)

lemma finalize_id_good:
  assumes "wf_event e"
  shows "\<exists>i. derive_event_id e = Inr i \<and> finalize_id e = Inr (e\<lparr>event_id := i\<rparr>)"
  using canonical_good [OF good_content(2) [OF assms]]
  by (auto simp: finalize_id_def derive_event_id_def)

lemma finalize_id_idem:
  "finalize_id e = Inr e' \<Longrightarrow> finalize_id e' = Inr e'"
  by (auto simp: finalize_id_def derive_event_id_def sbind_Inr_conv)

lemma wf_event_updates [simp]:
  "wf_event (e\<lparr>event_id := i\<rparr>) = wf_event e"
  by (simp add: wf_event_def)

lemma wf_bare_parts [simp]:
  "wf_actor (bare_actor a)" "wf_source_meta (bare_source f)" "wf_provenance empty_provenance"
  by (simp_all add: wf_actor_def wf_source_meta_def wf_provenance_def bare_actor_def bare_source_def
      empty_provenance_def good_extras_def good_value_def)

lemma wf_bare_event [simp]:
  "wf_event (bare_event ts k a s) \<longleftrightarrow> wf_actor a \<and> wf_source_meta s"
  by (auto simp: wf_event_def bare_event_def good_extras_def good_value_def)

end
