(* ===== verification/Py_Values.thy ===== *)
theory Py_Values imports Complex_Main Py_Json begin

text \<open>
  Python's operators on JSON-shaped values: equality (a boolean is an integer, an integral
  float equals the integer), order, truth, membership, conversion to \<open>int\<close>.  A float is
  compared by the decimal value of its text; NaN is unequal and unordered.
\<close>

section \<open>Numbers\<close>

datatype num_value = Finite rat | PosInf | NegInf | NaN

definition float_value :: "string \<Rightarrow> num_value" where
  "float_value s =
     (if s = ''inf'' then PosInf else if s = ''-inf'' then NegInf else if s = ''nan'' then NaN
      else
        let neg = (take 1 s = ''-''); u = (if neg then drop 1 s else s);
            ip = takeWhile is_digit u; r = drop (length ip) u;
            fp = (if take 1 r = ''.'' then takeWhile is_digit (drop 1 r) else []);
            r = (if take 1 r = ''.'' then drop (1 + length fp) r else r);
            eneg = (take 1 (drop 1 r) = ''-'');
            ed = takeWhile is_digit (drop (if take 1 (drop 1 r) \<in> {''+'', ''-''} then 2 else 1) r);
            e = (if r = [] then 0 else nat_of_digits 0 ed);
            m = rat_of_nat (nat_of_digits 0 (ip @ fp)) / 10 ^ length fp;
            v = (if eneg then m / 10 ^ e else m * 10 ^ e)
        in Finite (if neg then - v else v))"

definition num_value_of :: "json \<Rightarrow> num_value option" where
  "num_value_of v = (case v of
     JBool b \<Rightarrow> Some (Finite (if b then 1 else 0))
   | JInt i \<Rightarrow> Some (Finite (of_int i))
   | JFloat r \<Rightarrow> Some (float_value r)
   | _ \<Rightarrow> None)"

fun num_eq :: "num_value \<Rightarrow> num_value \<Rightarrow> bool" where
  "num_eq (Finite a) (Finite b) \<longleftrightarrow> a = b"
| "num_eq PosInf PosInf \<longleftrightarrow> True"
| "num_eq NegInf NegInf \<longleftrightarrow> True"
| "num_eq _ _ \<longleftrightarrow> False"

fun num_le :: "num_value \<Rightarrow> num_value \<Rightarrow> bool" where
  "num_le NaN b \<longleftrightarrow> False"
| "num_le a NaN \<longleftrightarrow> False"
| "num_le (Finite a) (Finite b) \<longleftrightarrow> a \<le> b"
| "num_le NegInf b \<longleftrightarrow> True"
| "num_le a PosInf \<longleftrightarrow> True"
| "num_le _ _ \<longleftrightarrow> False"

section \<open>Equality\<close>

fun py_eq :: "json \<Rightarrow> json \<Rightarrow> bool"
  and py_eq_items :: "json list \<Rightarrow> json list \<Rightarrow> bool"
  and py_sub_dict :: "dict \<Rightarrow> dict \<Rightarrow> bool"
where
  "py_eq (JStr s) v \<longleftrightarrow> v = JStr s"
| "py_eq JNull v \<longleftrightarrow> v = JNull"
| "py_eq (JList xs) v \<longleftrightarrow> (case v of JList ys \<Rightarrow> py_eq_items xs ys | _ \<Rightarrow> False)"
| "py_eq (JDict xs) v \<longleftrightarrow> (case v of JDict ys \<Rightarrow> length xs = length ys \<and> py_sub_dict xs ys | _ \<Rightarrow> False)"
| "py_eq (JBool b) v \<longleftrightarrow> (case num_value_of v of
     Some n \<Rightarrow> num_eq (Finite (if b then 1 else 0)) n | None \<Rightarrow> False)"
| "py_eq (JInt i) v \<longleftrightarrow> (case num_value_of v of
     Some n \<Rightarrow> num_eq (Finite (of_int i)) n | None \<Rightarrow> False)"
| "py_eq (JFloat r) v \<longleftrightarrow> (case num_value_of v of
     Some n \<Rightarrow> num_eq (float_value r) n | None \<Rightarrow> False)"
| "py_eq_items [] ys \<longleftrightarrow> ys = []"
| "py_eq_items (x # xs) ys \<longleftrightarrow> (case ys of y # ys' \<Rightarrow> py_eq x y \<and> py_eq_items xs ys' | [] \<Rightarrow> False)"
| "py_sub_dict [] ys \<longleftrightarrow> True"
| "py_sub_dict ((k, x) # xs) ys \<longleftrightarrow>
     (case map_of ys k of Some y \<Rightarrow> py_eq x y | None \<Rightarrow> False) \<and> py_sub_dict xs ys"

section \<open>Truth, order, membership, conversion\<close>

definition truthy :: "json \<Rightarrow> bool" where
  "truthy v = (case v of
     JNull \<Rightarrow> False
   | JBool b \<Rightarrow> b
   | JInt i \<Rightarrow> i \<noteq> 0
   | JFloat r \<Rightarrow> float_value r \<noteq> Finite 0
   | JStr s \<Rightarrow> s \<noteq> []
   | JList xs \<Rightarrow> xs \<noteq> []
   | JDict d \<Rightarrow> d \<noteq> [])"

text \<open>Optional arguments as values, \<open>d.get(k)\<close> and \<open>a or b\<close>.\<close>

abbreviation attr :: "dict \<Rightarrow> string \<Rightarrow> json" where
  "attr d k \<equiv> dget_or d k JNull"

definition opt_str :: "string option \<Rightarrow> json" where
  "opt_str v = (case v of None \<Rightarrow> JNull | Some s \<Rightarrow> JStr s)"

definition opt_int :: "int option \<Rightarrow> json" where
  "opt_int v = (case v of None \<Rightarrow> JNull | Some i \<Rightarrow> JInt i)"

definition py_or :: "json \<Rightarrow> json \<Rightarrow> json" where
  "py_or a b = (if truthy a then a else b)"

text \<open>\<open>a <= b\<close>: numbers, strings, and lists by their first difference; otherwise a TypeError.\<close>

fun py_le :: "json \<Rightarrow> json \<Rightarrow> bool result"
  and py_le_items :: "json list \<Rightarrow> json list \<Rightarrow> bool result"
where
  "py_le (JStr a) v = (case v of JStr b \<Rightarrow> Inr (a \<le> b) | _ \<Rightarrow> Inl TypeError)"
| "py_le (JList xs) v = (case v of JList ys \<Rightarrow> py_le_items xs ys | _ \<Rightarrow> Inl TypeError)"
| "py_le JNull v = Inl TypeError"
| "py_le (JDict d) v = Inl TypeError"
| "py_le (JBool b) v = (case num_value_of v of
     Some n \<Rightarrow> Inr (num_le (Finite (if b then 1 else 0)) n) | None \<Rightarrow> Inl TypeError)"
| "py_le (JInt i) v = (case num_value_of v of
     Some n \<Rightarrow> Inr (num_le (Finite (of_int i)) n) | None \<Rightarrow> Inl TypeError)"
| "py_le (JFloat r) v = (case num_value_of v of
     Some n \<Rightarrow> Inr (num_le (float_value r) n) | None \<Rightarrow> Inl TypeError)"
| "py_le_items [] ys = Inr True"
| "py_le_items (x # xs) ys = (case ys of
     [] \<Rightarrow> Inr False
   | y # ys' \<Rightarrow> if py_eq x y then py_le_items xs ys' else py_le x y)"

definition hashable :: "json \<Rightarrow> bool" where
  "hashable v = (case v of JList _ \<Rightarrow> False | JDict _ \<Rightarrow> False | _ \<Rightarrow> True)"

fun is_substring :: "string \<Rightarrow> string \<Rightarrow> bool" where
  "is_substring p [] \<longleftrightarrow> p = []"
| "is_substring p (c # cs) \<longleftrightarrow> take (length p) (c # cs) = p \<or> is_substring p cs"

definition py_in :: "json \<Rightarrow> json \<Rightarrow> bool result" where
  "py_in x container = (case container of
     JList ys \<Rightarrow> Inr (list_ex (py_eq x) ys)
   | JStr s \<Rightarrow> (case x of JStr p \<Rightarrow> Inr (is_substring p s) | _ \<Rightarrow> Inl TypeError)
   | JDict d \<Rightarrow> if hashable x then Inr (list_ex (\<lambda>kv. py_eq x (JStr (fst kv))) d) else Inl TypeError
   | _ \<Rightarrow> Inl TypeError)"

definition digit_text :: "string \<Rightarrow> int option" where
  "digit_text s =
     (let t = rev (dropWhile is_space (rev (dropWhile is_space s)));
          neg = (take 1 t = ''-''); u = (if take 1 t \<in> {''+'', ''-''} then drop 1 t else t);
          parts = split_at (CHR ''_'') u
      in if list_all (\<lambda>p. p \<noteq> [] \<and> list_all is_digit p) parts
         then Some ((if neg then - 1 else 1) * int (nat_of_digits 0 (concat parts))) else None)"

definition py_int :: "json \<Rightarrow> int result" where
  "py_int v = (case v of
     JInt i \<Rightarrow> Inr i
   | JBool b \<Rightarrow> Inr (if b then 1 else 0)
   | JStr s \<Rightarrow> (case digit_text s of Some i \<Rightarrow> Inr i | None \<Rightarrow> Inl ValueError)
   | JFloat r \<Rightarrow> (case float_value r of
       Finite q \<Rightarrow> Inr (if q < 0 then - \<lfloor>- q\<rfloor> else \<lfloor>q\<rfloor>)
     | NaN \<Rightarrow> Inl ValueError
     | _ \<Rightarrow> Inl OverflowError)
   | _ \<Rightarrow> Inl TypeError)"

text \<open>The index of a list, a Python integer or boolean.\<close>

definition py_index :: "'a list \<Rightarrow> int \<Rightarrow> 'a result" where
  "py_index xs i =
     (let j = (if i < 0 then i + int (length xs) else i)
      in if 0 \<le> j \<and> j < int (length xs) then Inr (xs ! nat j) else Inl IndexError)"

lemma py_index_nat [simp]: "py_index xs (int i) = (if i < length xs then Inr (xs ! i) else Inl IndexError)"
  by (simp add: py_index_def)

lemma py_eq_JStr [simp]: "py_eq v (JStr s) \<longleftrightarrow> v = JStr s"
  by (cases v) (auto simp: num_value_of_def)

lemma py_eq_JNull [simp]: "py_eq v JNull \<longleftrightarrow> v = JNull"
  by (cases v) (auto simp: num_value_of_def)

lemma py_eq_JInt [simp]: "py_eq (JInt i) (JInt j) \<longleftrightarrow> i = j"
  by (simp add: num_value_of_def)

text \<open>The text of a natural number reads back.\<close>

lemma digit_not: "is_digit c \<Longrightarrow> \<not> is_space c \<and> c \<notin> set ''-/_.+''"
  by (auto simp: is_digit_def is_space_def)

lemma digit_text_digits:
  assumes "s \<noteq> []" "\<forall>c \<in> set s. is_digit c"
  shows "digit_text s = Some (int (nat_of_digits 0 s))"
proof -
  have "\<forall>c \<in> set s. is_digit c \<Longrightarrow> dropWhile is_space s = s" for s :: string
    using digit_not by (cases s) auto
  from this [of s] this [of "rev s"] assms(2)
  have strip: "rev (dropWhile is_space (rev (dropWhile is_space s))) = s" by simp
  have "take 1 s \<notin> {''+'', ''-''}" using assms digit_not by (cases s) auto
  moreover have "split_at (CHR ''_'') s = [s]" using assms(2) digit_not by (intro split_at_no_sep) auto
  ultimately show ?thesis using assms by (simp add: digit_text_def strip Let_def list_all_iff)
qed

end
