(* ===== verification/Ledger_Backends.thy ===== *)
theory Ledger_Backends imports Event_Laws Py_Values begin

text \<open>
  The storage backends of \<open>src/src/openwright/ledger.py\<close> and the contract the ledger relies on.
  The locale \<open>ledger_backend\<close> is the abstract class: a backend stands for the list of records
  appended so far.  It is provided by the in-memory list, by the JSON-lines file with its
  byte offsets, and by the SQL table with its cached identities.
\<close>

section \<open>The contract\<close>

locale ledger_backend =
  fixes append_record :: "dict \<Rightarrow> 'b \<Rightarrow> 'b"
    and size_of :: "'b \<Rightarrow> int"
    and iter_records :: "'b \<Rightarrow> json list result"
    and get_record :: "int \<Rightarrow> 'b \<Rightarrow> json result \<times> 'b"
    and holds :: "'b \<Rightarrow> dict list \<Rightarrow> bool"
  assumes append_holds: "holds b rs \<Longrightarrow> plain (JDict r) \<Longrightarrow> holds (append_record r b) (rs @ [r])"
    and size_holds: "holds b rs \<Longrightarrow> size_of b = int (length rs)"
    and iter_holds: "holds b rs \<Longrightarrow> iter_records b = Inr (map JDict rs)"
    and get_holds: "holds b rs \<Longrightarrow> i < length rs \<Longrightarrow> fst (get_record (int i) b) = Inr (JDict (rs ! i))"
    and get_beyond: "holds b rs \<Longrightarrow> length rs \<le> i \<Longrightarrow> fst (get_record (int i) b) = Inl IndexError"
    and get_keeps: "holds b rs \<Longrightarrow> holds (snd (get_record j b)) rs"
begin

lemma append_all:
  "holds b rs \<Longrightarrow> list_all (\<lambda>r. plain (JDict r)) qs \<Longrightarrow>
    holds (foldl (\<lambda>b r. append_record r b) b qs) (rs @ qs)"
proof (induction qs arbitrary: b rs)
  case (Cons q qs)
  then show ?case using Cons.IH [OF append_holds [OF Cons.prems(1), of q]] by simp
qed simp

text \<open>Append-only: a record once stored is read back unchanged after any further appends.\<close>

lemma stored_forever:
  assumes "holds b rs" "i < length rs" "list_all (\<lambda>r. plain (JDict r)) qs"
  shows "fst (get_record (int i) (foldl (\<lambda>b r. append_record r b) b qs)) = Inr (JDict (rs ! i))"
  using get_holds [OF append_all [OF assms(1,3)], of i] assms(2) by (simp add: nth_append)

end

section \<open>In memory\<close>

type_synonym memory_backend = "dict list"

definition mem_append_record :: "dict \<Rightarrow> memory_backend \<Rightarrow> memory_backend" where
  "mem_append_record r b = b @ [r]"

definition mem_size :: "memory_backend \<Rightarrow> int" where
  "mem_size b = int (length b)"

definition mem_iter_records :: "memory_backend \<Rightarrow> json list result" where
  "mem_iter_records b = Inr (map JDict b)"

definition mem_get_record :: "int \<Rightarrow> memory_backend \<Rightarrow> json result \<times> memory_backend" where
  "mem_get_record i b = (sbind (py_index b i) (\<lambda>r. Inr (JDict r)), b)"

interpretation memory: ledger_backend mem_append_record mem_size mem_iter_records mem_get_record
    "\<lambda>b rs. b = rs"
  by unfold_locales
    (simp_all add: mem_append_record_def mem_size_def mem_iter_records_def mem_get_record_def
      py_index_def Let_def)

section \<open>JSON-lines file\<close>

definition newline :: char where
  "newline = CHR 0x0A"

record file_backend =
  file_bytes :: string
  file_offsets :: "nat list"

definition heal_torn_tail :: "string \<Rightarrow> string" where
  "heal_torn_tail data =
     (if data \<noteq> [] \<and> last data \<noteq> newline
      then rev (dropWhile (\<lambda>c. c \<noteq> newline) (rev data)) else data)"

text \<open>Lines with their terminator, as iteration over a binary file yields them.\<close>

definition first_line :: "string \<Rightarrow> string" where
  "first_line s = takeWhile (\<lambda>c. c \<noteq> newline) s @ take 1 (dropWhile (\<lambda>c. c \<noteq> newline) s)"

lemma first_line_shrinks:
  "s \<noteq> [] \<Longrightarrow> length (drop (length (first_line s)) s) < length s"
  by (cases s) (simp_all add: first_line_def)

function file_lines :: "string \<Rightarrow> string list" where
  "file_lines s = (if s = [] then [] else first_line s # file_lines (drop (length (first_line s)) s))"
  by pat_completeness auto
termination
  by (relation "measure length") (use first_line_shrinks in \<open>simp_all del: length_drop\<close>)

declare file_lines.simps [simp del]

definition blank :: "string \<Rightarrow> bool" where
  "blank line \<longleftrightarrow> list_all is_space line"

fun line_offsets :: "nat \<Rightarrow> string list \<Rightarrow> nat list" where
  "line_offsets pos [] = []"
| "line_offsets pos (l # ls) =
     (if blank l then line_offsets (pos + length l) ls
      else pos # line_offsets (pos + length l) ls)"

definition index_offsets :: "string \<Rightarrow> nat list" where
  "index_offsets data = line_offsets 0 (file_lines data)"

definition open_file_backend :: "string \<Rightarrow> file_backend" where
  "open_file_backend data =
     (let healed = heal_torn_tail data
      in \<lparr>file_bytes = healed, file_offsets = index_offsets healed\<rparr>)"

definition record_line :: "dict \<Rightarrow> string" where
  "record_line r = dumps (JDict r) @ [newline]"

definition file_append_record :: "dict \<Rightarrow> file_backend \<Rightarrow> file_backend" where
  "file_append_record r b =
     b\<lparr>file_bytes := file_bytes b @ record_line r,
       file_offsets := file_offsets b @ [length (file_bytes b)]\<rparr>"

definition file_size :: "file_backend \<Rightarrow> int" where
  "file_size b = int (length (file_offsets b))"

text \<open>Text mode also ends a line at a carriage return and translates it.\<close>

fun translate_newlines :: "bool \<Rightarrow> string \<Rightarrow> string" where
  "translate_newlines after_cr [] = []"
| "translate_newlines after_cr (c # cs) =
     (if c = CHR 0x0D then newline # translate_newlines True cs
      else if c = newline \<and> after_cr then translate_newlines False cs
      else c # translate_newlines False cs)"

definition universal_newlines :: "string \<Rightarrow> string" where
  "universal_newlines s = translate_newlines False s"

fun load_lines :: "string list \<Rightarrow> json list result" where
  "load_lines [] = Inr []"
| "load_lines (l # ls) =
     (if blank l then load_lines ls
      else sbind (loads l) (\<lambda>r. sbind (load_lines ls) (\<lambda>rs. Inr (r # rs))))"

definition file_iter_records :: "file_backend \<Rightarrow> json list result" where
  "file_iter_records b = load_lines (file_lines (universal_newlines (file_bytes b)))"

definition file_get_record :: "int \<Rightarrow> file_backend \<Rightarrow> json result \<times> file_backend" where
  "file_get_record i b =
     (if \<not> (0 \<le> i \<and> i < int (length (file_offsets b))) then Inl IndexError
      else loads (first_line (drop (file_offsets b ! nat i) (file_bytes b))), b)"

section \<open>Printed records are single lines\<close>

definition printable :: "string \<Rightarrow> bool" where
  "printable s \<longleftrightarrow> list_all (\<lambda>c. 32 \<le> (of_char c :: nat)) s"

lemma printable_append [simp]: "printable (s @ t) \<longleftrightarrow> printable s \<and> printable t"
  by (simp add: printable_def)

lemma printable_Nil [simp]: "printable []"
  by (simp add: printable_def)

lemma printable_Cons: "printable (c # s) \<longleftrightarrow> 32 \<le> (of_char c :: nat) \<and> printable s"
  by (simp add: printable_def)

lemma hex_char_printable: "32 \<le> (of_char (hex_char n) :: nat)"
proof -
  have "\<forall>n \<in> set [0..<16]. 32 \<le> (of_char (hex_char n) :: nat)" by code_simp
  then have "32 \<le> (of_char (hex_char (n mod 16)) :: nat)" by simp
  then show ?thesis by (simp add: hex_char_def)
qed

lemma esc_char_printable: "printable (esc_char c)"
  using hex_char_printable by (auto simp: esc_char_def printable_def)

lemma dump_str_printable: "printable (dump_str s)"
proof -
  have "printable (concat (map esc_char s))"
    by (induction s) (simp_all add: esc_char_printable)
  then show ?thesis by (simp add: dump_str_def printable_Cons quote_char_def)
qed

lemma digits_printable: "printable (digits_of n)"
  by (induction n rule: digits_of.induct)
    (subst digits_of.simps, simp add: printable_Cons hex_char_printable)

lemma dumps_printable:
  "plain j \<Longrightarrow> printable (dumps j)"
  "\<forall>x \<in> set xs. plain x \<Longrightarrow> printable (dump_items xs)"
  "\<forall>kv \<in> set kvs. plain (snd kv) \<Longrightarrow> printable (dump_members kvs)"
proof (induction j and xs and kvs rule: dumps_dump_items_dump_members.induct)
  case (3 i)
  then show ?case by (simp add: str_of_int_def digits_printable printable_Cons)
qed (auto simp: printable_Cons dump_str_printable)

lemma printable_no_newline: "printable s \<Longrightarrow> newline \<notin> set s \<and> CHR 0x0D \<notin> set s"
  by (auto simp: printable_def list_all_iff newline_def)

lemma record_printable: "plain (JDict r) \<Longrightarrow> printable (dumps (JDict r))"
  by (rule dumps_printable(1))

lemma first_line_record:
  assumes "plain (JDict r)"
  shows "first_line (record_line r @ rest) = record_line r"
proof -
  have "newline \<notin> set (dumps (JDict r))"
    using printable_no_newline [OF record_printable [OF assms]] by simp
  then have "takeWhile (\<lambda>c. c \<noteq> newline) (record_line r @ rest) = dumps (JDict r)"
    "dropWhile (\<lambda>c. c \<noteq> newline) (record_line r @ rest) = newline # rest"
    unfolding record_line_def append_assoc
    by (subst takeWhile_append2 dropWhile_append2; auto)+
  then show ?thesis by (simp add: first_line_def record_line_def)
qed

lemma loads_record_line: "plain (JDict r) \<Longrightarrow> loads (record_line r) = Inr (JDict r)"
  by (simp add: record_line_def newline_def loads_dumps_line)

section \<open>The file holds its records\<close>

definition file_text :: "dict list \<Rightarrow> string" where
  "file_text rs = concat (map record_line rs)"

lemma file_text_simps [simp]:
  "file_text [] = []" "file_text (r # rs) = record_line r @ file_text rs"
  "file_text (rs @ qs) = file_text rs @ file_text qs"
  by (simp_all add: file_text_def)

lemma record_line_not_Nil [simp]: "record_line r \<noteq> []"
  by (simp add: record_line_def)

lemma record_line_not_blank: "\<not> blank (record_line r)"
  by (cases r) (auto simp: record_line_def blank_def is_space_def)

lemma file_lines_Cons:
  "plain (JDict r) \<Longrightarrow> file_lines (record_line r @ rest) = record_line r # file_lines rest"
  using first_line_record [of r rest] by (subst file_lines.simps) simp

definition plain_records :: "dict list \<Rightarrow> bool" where
  "plain_records rs \<longleftrightarrow> list_all (\<lambda>r. plain (JDict r)) rs"

lemma plain_records_simps [simp]:
  "plain_records []" "plain_records (r # rs) \<longleftrightarrow> plain (JDict r) \<and> plain_records rs"
  "plain_records (rs @ qs) \<longleftrightarrow> plain_records rs \<and> plain_records qs"
  by (simp_all add: plain_records_def)

lemma plain_records_nth: "plain_records rs \<Longrightarrow> i < length rs \<Longrightarrow> plain (JDict (rs ! i))"
  by (simp add: plain_records_def list_all_length)

lemma file_lines_text: "plain_records rs \<Longrightarrow> file_lines (file_text rs) = map record_line rs"
proof (induction rs)
  case Nil
  show ?case by (subst file_lines.simps) simp
qed (simp add: file_lines_Cons)

lemma universal_newlines_text: "plain_records rs \<Longrightarrow> universal_newlines (file_text rs) = file_text rs"
proof -
  have no_cr: "CHR 0x0D \<notin> set s \<Longrightarrow> translate_newlines False s = s" for s
    by (induction s) auto
  have "plain_records rs \<Longrightarrow> CHR 0x0D \<notin> set (file_text rs)"
  proof (induction rs)
    case (Cons r rs)
    with printable_no_newline [OF record_printable [of r]] show ?case
      by (simp add: record_line_def newline_def)
  qed simp
  with no_cr show "plain_records rs \<Longrightarrow> ?thesis" by (simp add: universal_newlines_def)
qed

lemma load_lines_records: "plain_records rs \<Longrightarrow> load_lines (map record_line rs) = Inr (map JDict rs)"
  by (induction rs) (simp_all add: record_line_not_blank loads_record_line)

lemma line_offsets_append:
  "line_offsets pos (map record_line (rs @ qs)) =
    line_offsets pos (map record_line rs) @ line_offsets (pos + length (file_text rs)) (map record_line qs)"
  by (induction rs arbitrary: pos) (simp_all add: record_line_not_blank add.assoc)

lemma length_line_offsets [simp]: "length (line_offsets pos (map record_line rs)) = length rs"
  by (induction rs arbitrary: pos) (simp_all add: record_line_not_blank)

lemma line_offsets_nth:
  "i < length rs \<Longrightarrow>
    line_offsets pos (map record_line rs) ! i = pos + length (file_text (take i rs))"
  by (induction rs arbitrary: pos i) (auto simp: record_line_not_blank nth_Cons split: nat.split)

definition file_holds :: "file_backend \<Rightarrow> dict list \<Rightarrow> bool" where
  "file_holds b rs \<longleftrightarrow> plain_records rs \<and> file_bytes b = file_text rs
     \<and> file_offsets b = line_offsets 0 (map record_line rs)"

lemma file_get:
  assumes "file_holds b rs" "i < length rs"
  shows "fst (file_get_record (int i) b) = Inr (JDict (rs ! i))"
proof -
  have plain: "plain (JDict (rs ! i))"
    using assms plain_records_nth by (auto simp: file_holds_def)
  have "file_text rs = file_text (take i rs) @ record_line (rs ! i) @ file_text (drop (Suc i) rs)"
    by (metis assms(2) file_text_simps(2,3) id_take_nth_drop)
  then have "drop (file_offsets b ! i) (file_bytes b)
      = record_line (rs ! i) @ file_text (drop (Suc i) rs)"
    using assms line_offsets_nth [OF assms(2), of 0] by (simp add: file_holds_def)
  then show ?thesis
    using assms by (simp add: file_get_record_def file_holds_def first_line_record [OF plain]
        loads_record_line [OF plain])
qed

lemma file_append:
  "file_holds b rs \<Longrightarrow> plain (JDict r) \<Longrightarrow> file_holds (file_append_record r b) (rs @ [r])"
  using line_offsets_append [of 0 rs "[r]"]
  by (simp add: file_holds_def file_append_record_def record_line_not_blank)

interpretation jsonl: ledger_backend file_append_record file_size file_iter_records file_get_record file_holds
  by unfold_locales
    (simp_all add: file_append file_get, auto simp: file_size_def file_iter_records_def
      file_get_record_def file_holds_def universal_newlines_text file_lines_text load_lines_records)

section \<open>Crash and reopen\<close>

lemma heal_complete: "file_text rs = [] \<or> last (file_text rs) = newline"
  by (induction rs) (auto simp: record_line_def)

lemma open_complete: "plain_records rs \<Longrightarrow> file_holds (open_file_backend (file_text rs)) rs"
  using heal_complete [of rs]
  by (auto simp: open_file_backend_def heal_torn_tail_def Let_def file_holds_def index_offsets_def
      file_lines_text)

lemma heal_torn:
  assumes "newline \<notin> set torn"
  shows "heal_torn_tail (file_text rs @ torn) = file_text rs"
proof (cases "torn = []")
  case True
  with heal_complete [of rs] show ?thesis by (auto simp: heal_torn_tail_def)
next
  case False
  with assms have "last (file_text rs @ torn) \<noteq> newline" by (metis last_appendR last_in_set)
  moreover have "dropWhile (\<lambda>c. c \<noteq> newline) (rev torn @ rev (file_text rs)) = rev (file_text rs)"
  proof -
    have "dropWhile (\<lambda>c. c \<noteq> newline) (rev torn @ rev (file_text rs))
        = dropWhile (\<lambda>c. c \<noteq> newline) (rev (file_text rs))"
      by (rule dropWhile_append2) (use assms in auto)
    also have "\<dots> = rev (file_text rs)"
      using heal_complete [of rs] by (cases "rev (file_text rs)") (auto simp: last_rev hd_rev)
    finally show ?thesis .
  qed
  ultimately show ?thesis using False by (simp add: heal_torn_tail_def)
qed

lemma torn_line: "plain (JDict r) \<Longrightarrow> k < length (record_line r) \<Longrightarrow> newline \<notin> set (take k (record_line r))"
  using printable_no_newline [OF record_printable [of r]]
  by (auto simp: record_line_def dest: in_set_takeD)

lemma crash_atomic:
  assumes "plain_records rs" "plain (JDict r)"
  shows "file_holds (open_file_backend (file_text rs @ take k (record_line r)))
      (if k < length (record_line r) then rs else rs @ [r])"
proof (cases "k < length (record_line r)")
  case True
  have "open_file_backend (file_text rs @ take k (record_line r)) = open_file_backend (file_text rs)"
    using heal_torn [OF torn_line [OF assms(2) True], of rs] heal_torn [of "[]" rs]
    by (simp add: open_file_backend_def)
  with open_complete [OF assms(1)] True show ?thesis by simp
next
  case False
  with open_complete [of "rs @ [r]"] assms show ?thesis by simp
qed

end
