(* ===== verification/Sql_Backend.thy ===== *)
theory Sql_Backend imports Ledger_Backends begin

text \<open>
  The SQL backend of \<open>src/src/openwright/ledger.py\<close>: rows with identities that the database
  assigns in increasing order, and a handle that caches the identities it knows.  The
  sqlite and PostgreSQL branches differ only in how the new identity is reported
  (\<open>lastrowid\<close> or \<open>RETURNING\<close>).  Several handles may share one table.
\<close>

section \<open>The table\<close>

record sql_table =
  tbl_rows :: "(int \<times> string) list"
  tbl_next :: int

definition db_insert :: "string \<Rightarrow> sql_table \<Rightarrow> int \<times> sql_table" where
  "db_insert payload t =
     (tbl_next t, t\<lparr>tbl_rows := tbl_rows t @ [(tbl_next t, payload)], tbl_next := tbl_next t + 1\<rparr>)"

definition order_by_idx :: "(int \<times> string) list \<Rightarrow> (int \<times> string) list" where
  "order_by_idx rows = sort_key fst rows"

section \<open>The backend\<close>

record sql_backend =
  sql_tbl :: sql_table
  sql_idx :: "int list"

definition load_idx :: "sql_table \<Rightarrow> int list" where
  "load_idx t = map fst (order_by_idx (tbl_rows t))"

definition sql_open :: "sql_table \<Rightarrow> sql_backend" where
  "sql_open t = \<lparr>sql_tbl = t, sql_idx = load_idx t\<rparr>"

definition sql_append_record :: "dict \<Rightarrow> sql_backend \<Rightarrow> sql_backend" where
  "sql_append_record r b =
     (let (new_idx, t) = db_insert (dumps (JDict r)) (sql_tbl b)
      in b\<lparr>sql_tbl := t, sql_idx := sql_idx b @ [new_idx]\<rparr>)"

definition sql_size :: "sql_backend \<Rightarrow> int" where
  "sql_size b = int (length (tbl_rows (sql_tbl b)))"

fun load_rows :: "(int \<times> string) list \<Rightarrow> json list result" where
  "load_rows [] = Inr []"
| "load_rows ((i, rec) # rows) = sbind (loads rec) (\<lambda>r. sbind (load_rows rows) (\<lambda>rs. Inr (r # rs)))"

definition sql_iter_records :: "sql_backend \<Rightarrow> json list result" where
  "sql_iter_records b = load_rows (order_by_idx (tbl_rows (sql_tbl b)))"

definition sql_get_record :: "int \<Rightarrow> sql_backend \<Rightarrow> json result \<times> sql_backend" where
  "sql_get_record i b =
     (if i < 0 then (Inl IndexError, b)
      else
        let b' = (if int (length (sql_idx b)) \<le> i then b\<lparr>sql_idx := load_idx (sql_tbl b)\<rparr> else b)
        in (if int (length (sql_idx b')) \<le> i then Inl IndexError
            else case map_of (tbl_rows (sql_tbl b')) (sql_idx b' ! nat i) of
              None \<Rightarrow> Inl IndexError
            | Some rec \<Rightarrow> loads rec, b'))"

text \<open>What another handle of the same table does: an insert this handle does not see, or an
  insert that is rolled back and only consumes an identity.\<close>

definition foreign_append :: "dict \<Rightarrow> sql_backend \<Rightarrow> sql_backend" where
  "foreign_append r b = b\<lparr>sql_tbl := snd (db_insert (dumps (JDict r)) (sql_tbl b))\<rparr>"

definition rolled_back_insert :: "sql_backend \<Rightarrow> sql_backend" where
  "rolled_back_insert b = b\<lparr>sql_tbl := (sql_tbl b)\<lparr>tbl_next := tbl_next (sql_tbl b) + 1\<rparr>\<rparr>"

section \<open>The table holds its records\<close>

definition table_holds :: "sql_table \<Rightarrow> dict list \<Rightarrow> bool" where
  "table_holds t rs \<longleftrightarrow> plain_records rs \<and> map snd (tbl_rows t) = map (\<lambda>r. dumps (JDict r)) rs
     \<and> sorted_wrt (<) (map fst (tbl_rows t)) \<and> (\<forall>i \<in> fst ` set (tbl_rows t). i < tbl_next t)"

lemma table_holds_length: "table_holds t rs \<Longrightarrow> length (tbl_rows t) = length rs"
  unfolding table_holds_def by (metis length_map)

lemma table_insert:
  "table_holds t rs \<Longrightarrow> plain (JDict r) \<Longrightarrow>
    table_holds (snd (db_insert (dumps (JDict r)) t)) (rs @ [r])"
  by (fastforce simp: table_holds_def db_insert_def sorted_wrt_append)

lemma order_by_idx_id: "table_holds t rs \<Longrightarrow> order_by_idx (tbl_rows t) = tbl_rows t"
  unfolding table_holds_def order_by_idx_def
  by (intro sort_key_id_if_sorted) (auto intro: strict_sorted_imp_sorted)

lemma load_rows_plain:
  "plain_records rs \<Longrightarrow> map snd rows = map (\<lambda>r. dumps (JDict r)) rs \<Longrightarrow> load_rows rows = Inr (map JDict rs)"
  by (induction rs arbitrary: rows) (auto simp: map_eq_Cons_conv loads_dumps)

lemma load_rows_table: "table_holds t rs \<Longrightarrow> load_rows (tbl_rows t) = Inr (map JDict rs)"
  by (simp add: table_holds_def load_rows_plain)

lemma row_at:
  assumes "table_holds t rs" "i < length rs"
  shows "map_of (tbl_rows t) (map fst (tbl_rows t) ! i) = Some (dumps (JDict (rs ! i)))"
proof -
  note len = table_holds_length [OF assms(1)]
  have "distinct (map fst (tbl_rows t))"
    using assms(1) by (simp add: table_holds_def strict_sorted_iff)
  moreover have "snd (tbl_rows t ! i) = dumps (JDict (rs ! i))"
    using assms len unfolding table_holds_def by (metis nth_map)
  ultimately show ?thesis
    using assms(2) len by (metis map_of_is_SomeI nth_map nth_mem prod.collapse)
qed

text \<open>A handle that knows a prefix of the identities reads every position correctly, whatever
  other handles have appended since.\<close>

lemma lagging_get:
  assumes "table_holds (sql_tbl b) rs" "sql_idx b = map fst (take k (tbl_rows (sql_tbl b)))"
    and "i < length rs"
  shows "fst (sql_get_record (int i) b) = Inr (JDict (rs ! i))"
proof -
  have plain: "plain (JDict (rs ! i))"
    using assms(1,3) plain_records_nth by (auto simp: table_holds_def)
  note len = table_holds_length [OF assms(1)] and order = order_by_idx_id [OF assms(1)]
  have "sql_idx b ! i = map fst (tbl_rows (sql_tbl b)) ! i" if "i < length (sql_idx b)"
    using that by (simp add: assms(2))
  then show ?thesis
    using row_at [OF assms(1,3)] assms(3) len
    by (auto simp: sql_get_record_def Let_def load_idx_def order loads_dumps [OF plain])
qed

definition sql_holds :: "sql_backend \<Rightarrow> dict list \<Rightarrow> bool" where
  "sql_holds b rs \<longleftrightarrow> table_holds (sql_tbl b) rs \<and> sql_idx b = map fst (tbl_rows (sql_tbl b))"

lemma sql_append: "sql_holds b rs \<Longrightarrow> plain (JDict r) \<Longrightarrow> sql_holds (sql_append_record r b) (rs @ [r])"
  using table_insert [of "sql_tbl b" rs r]
  by (simp add: sql_holds_def sql_append_record_def db_insert_def)

lemma sql_get: "sql_holds b rs \<Longrightarrow> i < length rs \<Longrightarrow> fst (sql_get_record (int i) b) = Inr (JDict (rs ! i))"
  by (rule lagging_get [where k = "length rs"]) (auto simp: sql_holds_def dest: table_holds_length)

lemma sql_reopen: "table_holds t rs \<Longrightarrow> sql_holds (sql_open t) rs"
  by (simp add: sql_holds_def sql_open_def load_idx_def order_by_idx_id)

interpretation sql: ledger_backend sql_append_record sql_size sql_iter_records sql_get_record sql_holds
proof
  fix b rs i j
  assume h: "sql_holds b rs"
  then have t: "table_holds (sql_tbl b) rs" "length (tbl_rows (sql_tbl b)) = length rs"
    by (simp_all add: sql_holds_def table_holds_length)
  show "sql_size b = int (length rs)" by (simp add: sql_size_def t)
  show "sql_iter_records b = Inr (map JDict rs)"
    using t by (simp add: sql_iter_records_def order_by_idx_id [OF t(1)] load_rows_table)
  show "fst (sql_get_record (int i) b) = Inl IndexError" if "length rs \<le> i"
    using h that t(2) by (simp add: sql_get_record_def load_idx_def order_by_idx_id [OF t(1)] sql_holds_def)
  show "sql_holds (snd (sql_get_record j b)) rs"
    using h t by (auto simp: sql_get_record_def Let_def sql_holds_def load_idx_def order_by_idx_id [OF t(1)])
qed (simp_all add: sql_append sql_get)

section \<open>Two writers\<close>

text \<open>
  After another writer's insert, an append through this handle extends its cached
  identities with the new row only: the position of the foreign row is then served with
  this handle's own row, although \<open>iter_records\<close> and \<open>size\<close> see both.
\<close>

lemma stale_positions:
  assumes "sql_holds b rs" "plain (JDict q)" "plain (JDict r)"
  defines "b' \<equiv> sql_append_record r (foreign_append q b)"
  shows "sql_iter_records b' = Inr (map JDict (rs @ [q, r]))"
    and "sql_size b' = int (length rs) + 2"
    and "fst (sql_get_record (int (length rs)) b') = Inr (JDict r)"
proof -
  have t: "table_holds (sql_tbl b) rs" and idx: "sql_idx b = map fst (tbl_rows (sql_tbl b))"
    using assms(1) by (simp_all add: sql_holds_def)
  define t' where "t' = snd (db_insert (dumps (JDict r)) (snd (db_insert (dumps (JDict q)) (sql_tbl b))))"
  have t': "table_holds t' (rs @ [q, r])"
    using table_insert [OF table_insert [OF t assms(2)] assms(3)] by (simp add: t'_def)
  have b': "sql_tbl b' = t'" "sql_idx b' = sql_idx b @ [tbl_next (sql_tbl b) + 1]"
    by (simp_all add: b'_def sql_append_record_def foreign_append_def db_insert_def t'_def)
  show "sql_iter_records b' = Inr (map JDict (rs @ [q, r]))"
    using load_rows_table [OF t'] by (simp add: sql_iter_records_def b' order_by_idx_id [OF t'])
  show "sql_size b' = int (length rs) + 2"
    using table_holds_length [OF t'] by (simp add: sql_size_def b')
  have "map fst (tbl_rows t') ! Suc (length rs) = tbl_next (sql_tbl b) + 1"
    using table_holds_length [OF t] by (simp add: t'_def db_insert_def nth_append)
  with row_at [OF t', of "Suc (length rs)"]
  have "map_of (tbl_rows t') (tbl_next (sql_tbl b) + 1) = Some (dumps (JDict r))"
    by (simp add: nth_append)
  then show "fst (sql_get_record (int (length rs)) b') = Inr (JDict r)"
    using table_holds_length [OF t] assms(3)
    by (simp add: sql_get_record_def b' idx nth_append loads_dumps)
qed

end
