(* ===== verification/Signing.thy ===== *)
theory Signing imports Event_Laws begin

text \<open>
  \<open>src/src/openwright/signing.py\<close>: key ids, signature checks, key sources and signed
  checkpoints.  Ed25519 itself is the package \<open>cryptography\<close> and is a parameter: \<open>ed_check\<close> is
  \<open>Ed25519PublicKey.from_public_bytes(key).verify(signature, data)\<close>, which returns, raises
  \<open>InvalidSignature\<close> or, for a malformed key, \<open>ValueError\<close>.
\<close>

section \<open>Keys and signatures\<close>

datatype ed_outcome = Valid | InvalidSignature | BadKey

type_synonym ed_check = "bytes \<Rightarrow> bytes \<Rightarrow> bytes \<Rightarrow> ed_outcome"

definition key_id_for :: "bytes \<Rightarrow> string" where
  "key_id_for public_key_raw = ''ed25519:'' @ take 32 (sha256_hex public_key_raw)"

definition verify_signature :: "ed_check \<Rightarrow> bytes \<Rightarrow> bytes \<Rightarrow> bytes \<Rightarrow> bool" where
  "verify_signature ed public_key_raw signature data =
     (case ed public_key_raw signature data of
        Valid \<Rightarrow> True
      | InvalidSignature \<Rightarrow> False
      | BadKey \<Rightarrow> False)"

record key_source =
  ks_sign :: "bytes \<Rightarrow> bytes"
  ks_public_key_raw :: bytes

definition ks_key_id :: "key_source \<Rightarrow> string" where
  "ks_key_id key = key_id_for (ks_public_key_raw key)"

text \<open>A private key object of the library: its signing function and its raw public key.\<close>

record private_key =
  sk_sign :: "bytes \<Rightarrow> bytes"
  sk_public_raw :: bytes

datatype pem_key = Ed25519Key private_key | OtherKey

definition private_key_holder :: "private_key \<Rightarrow> key_source" where
  "private_key_holder sk = \<lparr>ks_sign = sk_sign sk, ks_public_key_raw = sk_public_raw sk\<rparr>"

definition in_memory_key_source :: "private_key \<Rightarrow> private_key option \<Rightarrow> key_source" where
  "in_memory_key_source generated sk =
     private_key_holder (case sk of Some k \<Rightarrow> k | None \<Rightarrow> generated)"

definition file_key_source ::
  "(bytes \<Rightarrow> bytes option \<Rightarrow> pem_key result) \<Rightarrow> bytes \<Rightarrow> bytes option \<Rightarrow> key_source result"
where
  "file_key_source load_pem file password =
     sbind (load_pem file password) (\<lambda>key. case key of
       Ed25519Key sk \<Rightarrow> Inr (private_key_holder sk)
     | OtherKey \<Rightarrow> Inl TypeError)"

definition env_key_source ::
  "(bytes \<Rightarrow> bytes option \<Rightarrow> pem_key result) \<Rightarrow> (string \<Rightarrow> string option) \<Rightarrow> string \<Rightarrow>
    bytes option \<Rightarrow> key_source result"
where
  "env_key_source load_pem environ env_var password =
     (case environ env_var of
        None \<Rightarrow> Inl KeyError
      | Some pem \<Rightarrow>
          (if pem = [] then Inl KeyError
           else sbind (load_pem (encode_utf8 pem) password) (\<lambda>key. case key of
             Ed25519Key sk \<Rightarrow> Inr (private_key_holder sk)
           | OtherKey \<Rightarrow> Inl TypeError)))"

text \<open>The public point of a PKCS#11 token, wrapped in a DER octet string or raw.\<close>

definition ed25519_raw_from_ec_point :: "bytes \<Rightarrow> bytes" where
  "ed25519_raw_from_ec_point ec_point =
     (if length ec_point = 34 \<and> ec_point ! 0 = 0x04 \<and> ec_point ! 1 = 0x20 then drop 2 ec_point
      else if length ec_point = 32 then ec_point
      else drop (length ec_point - 32) ec_point)"

text \<open>
  The choice of the token slot.  \<open>slots\<close> are the present tokens with their labels (already
  stripped); the caller may name a slot or a label.
\<close>

definition pkcs11_slot :: "(nat \<times> string) list \<Rightarrow> string option \<Rightarrow> nat option \<Rightarrow> nat result" where
  "pkcs11_slot slots token_label slot =
     (case (slot, token_label) of
        (Some s, _) \<Rightarrow> Inr s
      | (None, Some label) \<Rightarrow>
          (case find (\<lambda>s. snd s = label) slots of
             None \<Rightarrow> Inl KeyError
           | Some s \<Rightarrow> Inr (fst s))
      | (None, None) \<Rightarrow> (case slots of [] \<Rightarrow> Inl RuntimeError | s # _ \<Rightarrow> Inr (fst s)))"

datatype p11_class = CKO_PRIVATE_KEY | CKO_PUBLIC_KEY

record p11_object =
  p11_class :: p11_class
  p11_label :: string
  p11_ec_point :: bytes
  p11_sign :: "bytes \<Rightarrow> bytes"

definition pkcs11_find :: "p11_object list \<Rightarrow> p11_class \<Rightarrow> string \<Rightarrow> p11_object result" where
  "pkcs11_find objects obj_class label =
     (case filter (\<lambda>x. p11_class x = obj_class \<and> p11_label x = label) objects of
        [] \<Rightarrow> Inl KeyError
      | x # _ \<Rightarrow> Inr x)"

definition pkcs11_bind :: "p11_object list \<Rightarrow> string \<Rightarrow> key_source result" where
  "pkcs11_bind objects key_label =
     sbind (pkcs11_find objects CKO_PRIVATE_KEY key_label) (\<lambda>priv.
     sbind (pkcs11_find objects CKO_PUBLIC_KEY key_label) (\<lambda>pub.
       Inr \<lparr>ks_sign = p11_sign priv,
            ks_public_key_raw = ed25519_raw_from_ec_point (p11_ec_point pub)\<rparr>))"

section \<open>Checkpoints\<close>

definition checkpoint_signing_bytes :: "string \<Rightarrow> int \<Rightarrow> string \<Rightarrow> string \<Rightarrow> bytes result" where
  "checkpoint_signing_bytes origin sz root_hash_hex ts =
     canonical_bytes (JDict
       [(''origin'', JStr origin),
        (''root_hash'', JStr root_hash_hex),
        (''timestamp'', JStr ts),
        (''tree_size'', JInt sz)])"

record checkpoint =
  cp_origin :: string
  cp_tree_size :: int
  cp_root_hash :: string
  cp_timestamp :: string
  cp_public_key_id :: string
  cp_signature :: string
  cp_extra :: dict

definition cp_signing_bytes :: "checkpoint \<Rightarrow> bytes result" where
  "cp_signing_bytes cp =
     checkpoint_signing_bytes (cp_origin cp) (cp_tree_size cp) (cp_root_hash cp) (cp_timestamp cp)"

definition cp_verify :: "ed_check \<Rightarrow> checkpoint \<Rightarrow> bytes \<Rightarrow> bool result" where
  "cp_verify ed cp public_key_raw =
     (if key_id_for public_key_raw \<noteq> cp_public_key_id cp then Inr False
      else case b64decode (cp_signature cp) of
        Inl e \<Rightarrow> Inr False
      | Inr sig \<Rightarrow> sbind (cp_signing_bytes cp) (\<lambda>data. Inr (verify_signature ed public_key_raw sig data)))"

definition sign_checkpoint :: "key_source \<Rightarrow> string \<Rightarrow> int \<Rightarrow> string \<Rightarrow> string \<Rightarrow> checkpoint result" where
  "sign_checkpoint key origin sz root_hash_hex ts =
     sbind (checkpoint_signing_bytes origin sz root_hash_hex ts) (\<lambda>data.
       Inr \<lparr>cp_origin = origin, cp_tree_size = sz, cp_root_hash = root_hash_hex,
         cp_timestamp = ts, cp_public_key_id = ks_key_id key,
         cp_signature = b64encode (ks_sign key data), cp_extra = []\<rparr>)"

definition dump_checkpoint :: "checkpoint \<Rightarrow> dict" where
  "dump_checkpoint cp =
     [(''origin'', JStr (cp_origin cp)),
      (''tree_size'', JInt (cp_tree_size cp)),
      (''root_hash'', JStr (cp_root_hash cp)),
      (''timestamp'', JStr (cp_timestamp cp)),
      (''public_key_id'', JStr (cp_public_key_id cp)),
      (''signature'', JStr (cp_signature cp))] @ cp_extra cp"

definition load_checkpoint :: "dict \<Rightarrow> checkpoint result" where
  "load_checkpoint d =
     sbind (get_str ''origin'' d) (\<lambda>a.
     sbind (case map_of d ''tree_size'' of Some (JInt n) \<Rightarrow> Inr n | _ \<Rightarrow> Inl ValueError) (\<lambda>n.
     sbind (get_str ''root_hash'' d) (\<lambda>r.
     sbind (get_str ''timestamp'' d) (\<lambda>t.
     sbind (get_str ''public_key_id'' d) (\<lambda>k.
     sbind (get_str ''signature'' d) (\<lambda>s.
       Inr \<lparr>cp_origin = a, cp_tree_size = n, cp_root_hash = r, cp_timestamp = t,
         cp_public_key_id = k, cp_signature = s,
         cp_extra = extras_of [''origin'', ''tree_size'', ''root_hash'', ''timestamp'',
           ''public_key_id'', ''signature''] d\<rparr>))))))"

section \<open>The signed bytes\<close>

lemma checkpoint_signing_bytes_total:
  "\<exists>b. checkpoint_signing_bytes origin sz root ts = Inr b"
  unfolding checkpoint_signing_bytes_def by (rule canonical_good) (simp add: good_value_def)

lemma checkpoint_signing_bytes_inject:
  "checkpoint_signing_bytes a n r t = checkpoint_signing_bytes a' n' r' t' \<longleftrightarrow>
    a = a' \<and> n = n' \<and> r = r' \<and> t = t'"
proof
  let ?d = "\<lambda>a n r t. [(''origin'', JStr a), (''root_hash'', JStr r), (''timestamp'', JStr t),
    (''tree_size'', JInt n)] :: dict"
  assume eq: "checkpoint_signing_bytes a n r t = checkpoint_signing_bytes a' n' r' t'"
  obtain b where b: "checkpoint_signing_bytes a n r t = Inr b"
    using checkpoint_signing_bytes_total by blast
  have "meaning (JDict (?d a n r t)) = meaning (JDict (?d a' n' r' t'))"
    using canonical_bytes_eq_iff [of "JDict (?d a n r t)" "JDict (?d a' n' r' t')" b b] eq b
    by (simp add: checkpoint_signing_bytes_def)
  then have "meaning_members (?d a n r t) k = meaning_members (?d a' n' r' t') k" for k
    by (simp only: meaning.simps value_of.inject)
  from this [of "''origin''"] this [of "''root_hash''"] this [of "''timestamp''"]
    this [of "''tree_size''"]
  show "a = a' \<and> n = n' \<and> r = r' \<and> t = t'" by simp
qed simp

lemma sign_checkpoint_total: "\<exists>cp. sign_checkpoint key origin sz root ts = Inr cp"
  using checkpoint_signing_bytes_total [of origin sz root ts] by (auto simp: sign_checkpoint_def)

lemma sign_checkpoint_fields:
  assumes "sign_checkpoint key origin sz root ts = Inr cp"
  shows "cp_origin cp = origin" "cp_tree_size cp = sz" "cp_root_hash cp = root"
    "cp_timestamp cp = ts" "cp_public_key_id cp = ks_key_id key"
    and "\<exists>data. cp_signing_bytes cp = Inr data \<and> cp_signature cp = b64encode (ks_sign key data)"
  using assms by (auto simp: sign_checkpoint_def sbind_Inr_conv cp_signing_bytes_def)

lemma sign_checkpoint_verifies:
  assumes "\<And>d. ed (ks_public_key_raw key) (ks_sign key d) d = Valid"
    and "sign_checkpoint key origin sz root ts = Inr cp"
  shows "cp_verify ed cp (ks_public_key_raw key) = Inr True"
  using sign_checkpoint_fields [OF assms(2)] assms(1)
  by (auto simp: cp_verify_def ks_key_id_def verify_signature_def)

lemma load_dump_checkpoint:
  assumes "good_extras [''origin'', ''tree_size'', ''root_hash'', ''timestamp'', ''public_key_id'',
    ''signature''] (cp_extra cp)"
  shows "load_checkpoint (dump_checkpoint cp) = Inr cp"
proof -
  have "extras_of [''origin'', ''tree_size'', ''root_hash'', ''timestamp'', ''public_key_id'',
      ''signature''] (cp_extra cp) = cp_extra cp"
    using assms by (auto simp: extras_of_def good_extras_def filter_id_conv)
  then show ?thesis
    by (simp add: load_checkpoint_def dump_checkpoint_def get_str_def extras_of_def)
qed

end
