(* ===== verification/Timestamps.thy ===== *)
theory Timestamps imports Canonical begin

text \<open>
  \<open>to_rfc3339\<close> of \<open>canonical.py\<close> on the Gregorian calendar of Python's \<open>datetime\<close>: integer
  seconds or nanoseconds, and datetimes with or without an offset, become a UTC string with a
  nine-digit fraction.  The calendar functions are those of the standard library's
  \<open>datetime\<close> (days counted from 0001-01-01); \<open>strftime\<close> is modelled for years of four digits,
  where it is the same on every platform.
\<close>

section \<open>The calendar\<close>

definition is_leap :: "int \<Rightarrow> bool" where
  "is_leap y \<longleftrightarrow> y mod 4 = 0 \<and> (y mod 100 \<noteq> 0 \<or> y mod 400 = 0)"

definition days_before_year :: "int \<Rightarrow> int" where
  "days_before_year y = (y - 1) * 365 + (y - 1) div 4 - (y - 1) div 100 + (y - 1) div 400"

definition month_starts :: "int list" where
  "month_starts = [0, 31, 59, 90, 120, 151, 181, 212, 243, 273, 304, 334]"

definition days_before_month :: "bool \<Rightarrow> int \<Rightarrow> int" where
  "days_before_month leap m = month_starts ! nat (m - 1) + (if 2 < m \<and> leap then 1 else 0)"

definition ymd2ord :: "int \<Rightarrow> int \<Rightarrow> int \<Rightarrow> int" where
  "ymd2ord y m d = days_before_year y + days_before_month (is_leap y) m + d"

text \<open>Month and day of the \<open>n\<close>-th day (from 0) of a year.\<close>

definition month_day :: "bool \<Rightarrow> int \<Rightarrow> int \<times> int" where
  "month_day leap n =
     (let m = (n + 50) div 32;
          start = days_before_month leap m
      in if n < start then (m - 1, n - days_before_month leap (m - 1) + 1)
         else (m, n - start + 1))"

definition ord2ymd :: "int \<Rightarrow> int \<times> int \<times> int" where
  "ord2ymd ordinal =
     (let n = ordinal - 1;
          n400 = n div 146097; n = n mod 146097;
          n100 = n div 36524; n = n mod 36524;
          n4 = n div 1461; n = n mod 1461;
          n1 = n div 365; n = n mod 365;
          year = n400 * 400 + 1 + n100 * 100 + n4 * 4 + n1
      in if n1 = 4 \<or> n100 = 4 then (year - 1, 12, 31)
         else let leap = (n1 = 3 \<and> (n4 \<noteq> 24 \<or> n100 = 3)); md = month_day leap n
              in (year, fst md, snd md))"

definition epoch_ordinal :: int where
  "epoch_ordinal = 719163"

section \<open>Timestamps\<close>

record py_datetime =
  year :: int
  month :: int
  day :: int
  hour :: int
  minute :: int
  second :: int
  microsecond :: int
  utc_offset :: "int option"

datatype stamp_value = TDatetime py_datetime | TInt int | TStr string | TOther

definition in_years :: "int \<Rightarrow> bool" where
  "in_years ordinal \<longleftrightarrow> 1 \<le> ordinal \<and> ordinal \<le> 3652059"

text \<open>Microseconds from the epoch; a naive datetime is read as UTC.\<close>

definition utc_micros :: "py_datetime \<Rightarrow> int" where
  "utc_micros dt =
     ((ymd2ord (year dt) (month dt) (day dt) - epoch_ordinal) * 86400
        + hour dt * 3600 + minute dt * 60 + second dt) * 1000000 + microsecond dt
     - (case utc_offset dt of None \<Rightarrow> 0 | Some offset \<Rightarrow> offset)"

definition pad :: "nat \<Rightarrow> int \<Rightarrow> string" where
  "pad w n = map (\<lambda>i. hex_char (nat (n div 10 ^ (w - 1 - i) mod 10))) [0..<w]"

definition strftime_utc :: "int \<Rightarrow> string" where
  "strftime_utc secs =
     (let (y, m, d) = ord2ymd (secs div 86400 + epoch_ordinal); t = secs mod 86400
      in pad 4 y @ ''-'' @ pad 2 m @ ''-'' @ pad 2 d @ ''T''
         @ pad 2 (t div 3600) @ '':'' @ pad 2 (t div 60 mod 60) @ '':'' @ pad 2 (t mod 60))"

definition format_ns :: "int \<Rightarrow> string result" where
  "format_ns ns =
     (let secs = ns div 1000000000; rem = ns mod 1000000000
      in if \<not> in_years (secs div 86400 + epoch_ordinal) then Inl ValueError
         else Inr (strftime_utc secs @ ''.'' @ pad 9 rem @ ''Z''))"

definition to_rfc3339 :: "stamp_value \<Rightarrow> string result" where
  "to_rfc3339 value = (case value of
     TDatetime dt \<Rightarrow>
       (let us = utc_micros dt; secs = us div 1000000; micros = us mod 1000000
        in if \<not> in_years (secs div 86400 + epoch_ordinal) then Inl OverflowError
           else format_ns (secs * 1000000000 + micros * 1000))
   | TInt n \<Rightarrow> format_ns (if 10 ^ 14 < n then n else n * 1000000000)
   | TStr s \<Rightarrow> Inr s
   | TOther \<Rightarrow> Inl CanonicalizationError)"

section \<open>The calendar is order-preserving\<close>

definition month_end :: "bool \<Rightarrow> int \<Rightarrow> int" where
  "month_end leap m =
     (if m = 12 then if leap then 366 else 365 else days_before_month leap (m + 1))"

definition valid_md :: "bool \<Rightarrow> int \<Rightarrow> int \<Rightarrow> bool" where
  "valid_md leap m d \<longleftrightarrow> 1 \<le> m \<and> m \<le> 12 \<and> 1 \<le> d \<and> days_before_month leap m + d \<le> month_end leap m"

lemma month_table:
  "days_before_month leap 1 = 0" "days_before_month leap 2 = 31"
  "days_before_month leap 3 = (if leap then 60 else 59)"
  "days_before_month leap 4 = (if leap then 91 else 90)"
  "days_before_month leap 5 = (if leap then 121 else 120)"
  "days_before_month leap 6 = (if leap then 152 else 151)"
  "days_before_month leap 7 = (if leap then 182 else 181)"
  "days_before_month leap 8 = (if leap then 213 else 212)"
  "days_before_month leap 9 = (if leap then 244 else 243)"
  "days_before_month leap 10 = (if leap then 274 else 273)"
  "days_before_month leap 11 = (if leap then 305 else 304)"
  "days_before_month leap 12 = (if leap then 335 else 334)"
  by (simp_all add: days_before_month_def month_starts_def)

lemma month_cases:
  "1 \<le> m \<Longrightarrow> m \<le> (12::int) \<Longrightarrow> m = 1 \<or> m = 2 \<or> m = 3 \<or> m = 4 \<or> m = 5 \<or> m = 6 \<or> m = 7
    \<or> m = 8 \<or> m = 9 \<or> m = 10 \<or> m = 11 \<or> m = 12"
  by presburger

lemma month_guess:
  assumes "1 \<le> m" "m \<le> 12" "days_before_month leap m \<le> n" "n < month_end leap m"
  shows "(n + 50) div 32 = m \<or> (n + 50) div 32 = m + 1 \<and> n < days_before_month leap (m + 1)"
  using month_cases [OF assms(1,2)] assms(3,4) unfolding month_end_def
  by (elim disjE; hypsubst) (simp_all add: month_table split: if_splits, linarith+)

lemma month_exists:
  assumes "0 \<le> n" "n < (if leap then 366 else 365)"
  obtains m where "1 \<le> m" "m \<le> 12" "days_before_month leap m \<le> n" "n < month_end leap m"
proof (rule ccontr)
  assume "\<not> thesis"
  then have H: "1 \<le> m \<Longrightarrow> m \<le> 12 \<Longrightarrow> days_before_month leap m \<le> n \<Longrightarrow> month_end leap m \<le> n" for m
    using that [of m] by linarith
  note steps = H [of 1] H [of 2] H [of 3] H [of 4] H [of 5] H [of 6] H [of 7] H [of 8] H [of 9]
    H [of 10] H [of 11] H [of 12]
  show False
    using assms steps by (cases leap) (simp_all add: month_end_def month_table)
qed

lemma month_day:
  assumes "0 \<le> n" "n < (if leap then 366 else 365)"
  shows "valid_md leap (fst (month_day leap n)) (snd (month_day leap n))"
    and "days_before_month leap (fst (month_day leap n)) + snd (month_day leap n) = n + 1"
proof -
  obtain m where m: "1 \<le> m" "m \<le> 12" "days_before_month leap m \<le> n" "n < month_end leap m"
    using month_exists [OF assms] .
  have "month_day leap n = (m, n - days_before_month leap m + 1)"
    using month_guess [OF m] m(3) by (auto simp: month_day_def Let_def)
  with m show "valid_md leap (fst (month_day leap n)) (snd (month_day leap n))"
    and "days_before_month leap (fst (month_day leap n)) + snd (month_day leap n) = n + 1"
    by (auto simp: valid_md_def)
qed

lemma quot_rem: "0 \<le> r \<Longrightarrow> r < n \<Longrightarrow> (q * n + r) div n = (q::int)"
    "0 \<le> r \<Longrightarrow> r < n \<Longrightarrow> (q * n + r) mod n = r"
  by (simp_all add: div_mult_self3)

lemma year_parts:
  fixes a b c d :: int
  assumes "0 \<le> b" "b \<le> 3" "0 \<le> c" "c \<le> 24" "0 \<le> d" "d \<le> 3"
  shows "(a * 400 + b * 100 + c * 4 + d) div 4 = a * 100 + b * 25 + c"
    and "(a * 400 + b * 100 + c * 4 + d) div 100 = a * 4 + b"
    and "(a * 400 + b * 100 + c * 4 + d) div 400 = a"
  using quot_rem(1) [of d 4 "a * 100 + b * 25 + c"] quot_rem(1) [of "c * 4 + d" 100 "a * 4 + b"]
    quot_rem(1) [of "b * 100 + c * 4 + d" 400 a] assms
  by (simp_all add: algebra_simps)

lemma days_before_year_parts:
  assumes "0 \<le> b" "b \<le> 3" "0 \<le> c" "c \<le> 24" "0 \<le> d" "d \<le> 3"
  shows "days_before_year (a * 400 + 1 + b * 100 + c * 4 + d) =
      a * 146097 + b * 36524 + c * 1461 + d * 365"
    and "is_leap (a * 400 + 1 + b * 100 + c * 4 + d) \<longleftrightarrow> d = 3 \<and> (c \<noteq> 24 \<or> b = 3)"
proof -
  have y: "a * 400 + 1 + b * 100 + c * 4 + d - 1 = a * 400 + b * 100 + c * 4 + d" by simp
  show "days_before_year (a * 400 + 1 + b * 100 + c * 4 + d) =
      a * 146097 + b * 36524 + c * 1461 + d * 365"
    unfolding days_before_year_def y year_parts [OF assms] by simp
  show "is_leap (a * 400 + 1 + b * 100 + c * 4 + d) \<longleftrightarrow> d = 3 \<and> (c \<noteq> 24 \<or> b = 3)"
  proof (cases "d = 3")
    case True
    have "(a * 400 + 1 + b * 100 + c * 4 + d) mod 4 = 0"
      using quot_rem(2) [of 0 4 "a * 100 + b * 25 + c + 1"] True by (simp add: algebra_simps)
    moreover have "(a * 400 + 1 + b * 100 + c * 4 + d) mod 100 = (if c = 24 then 0 else c * 4 + 4)"
      using quot_rem(2) [of 0 100 "a * 4 + b + 1"] quot_rem(2) [of "c * 4 + 4" 100 "a * 4 + b"] True assms
      by (auto simp: algebra_simps)
    moreover have "(a * 400 + 1 + b * 100 + c * 4 + d) mod 400 =
        (if c = 24 \<and> b = 3 then 0 else b * 100 + c * 4 + 4)"
      using quot_rem(2) [of 0 400 "a + 1"] quot_rem(2) [of "b * 100 + c * 4 + 4" 400 a] True assms
      by (auto simp: algebra_simps)
    ultimately show ?thesis using True assms unfolding is_leap_def by auto
  next
    case False
    have "(a * 400 + 1 + b * 100 + c * 4 + d) mod 4 = 1 + d"
      using quot_rem(2) [of "1 + d" 4 "a * 100 + b * 25 + c"] False assms by (simp add: algebra_simps)
    with False assms show ?thesis by (simp add: is_leap_def)
  qed
qed

lemma div_rem_cases:
  fixes n :: int
  assumes "0 < k"
  obtains q r where "n div k = q" "n mod k = r" "n = q * k + r" "0 \<le> r" "r < k"
  using assms that [of "n div k" "n mod k"] by simp

lemma ord2ymd_inverse:
  assumes "ord2ymd ordinal = (y, m, d)"
  shows "ymd2ord y m d = ordinal \<and> valid_md (is_leap y) m d"
proof -
  obtain a r where a: "(ordinal - 1) div 146097 = a" "(ordinal - 1) mod 146097 = r"
    "ordinal - 1 = a * 146097 + r" "0 \<le> r" "r < 146097"
    by (rule div_rem_cases [of 146097]) simp
  obtain b s where b: "r div 36524 = b" "r mod 36524 = s" "r = b * 36524 + s" "0 \<le> s" "s < 36524"
    by (rule div_rem_cases [of 36524]) simp
  obtain c t where c: "s div 1461 = c" "s mod 1461 = t" "s = c * 1461 + t" "0 \<le> t" "t < 1461"
    by (rule div_rem_cases [of 1461]) simp
  obtain e u where e: "t div 365 = e" "t mod 365 = u" "t = e * 365 + u" "0 \<le> u" "u < 365"
    by (rule div_rem_cases [of 365]) simp
  have bounds: "0 \<le> b" "b \<le> 4" "0 \<le> c" "c \<le> 24" "0 \<le> e" "e \<le> 4"
  proof -
    show "0 \<le> b" using a(4) b(3,5) by linarith
    show "b \<le> 4" using a(5) b(3,4) by linarith
    show "0 \<le> c" using b(4) c(3,5) by linarith
    show "c \<le> 24" using b(5) c(3,4) by linarith
    show "0 \<le> e" using c(4) e(3,5) by linarith
    show "e \<le> 4" using c(5) e(3,4) by linarith
  qed
  let ?year = "a * 400 + 1 + b * 100 + c * 4 + e"
  note def = assms [unfolded ord2ymd_def Let_def a(1,2) b(1,2) c(1,2) e(1,2)]
  consider (last4) "b = 4" | (last1) "b \<noteq> 4" "e = 4" | (normal) "b \<le> 3" "e \<le> 3"
    using bounds by linarith
  then show ?thesis
  proof cases
    case last4
    then have "s = 0" using a(5) b(3,4) by linarith
    moreover from this have "c = 0" "t = 0" using c(3,4) bounds(3) by linarith+
    moreover from this have "e = 0" using e(3,4) bounds(5) by linarith
    ultimately have zero: "s = 0" "c = 0" "e = 0" by simp_all
    with last4 def have ymd: "y = a * 400 + 1 + 3 * 100 + 24 * 4 + 3" "m = 12" "d = 31" by auto
    show ?thesis
      using days_before_year_parts [of 3 24 3 a] a(3) b(3) last4 zero(1)
      by (simp add: ymd ymd2ord_def valid_md_def month_end_def month_table)
  next
    case last1
    then have "u = 0" using c(5) e(3,4) by linarith
    moreover have "c \<noteq> 24" using last1(2) b(5) c(3) e(3,4) by linarith
    ultimately have zero: "c \<noteq> 24" "u = 0" by simp_all
    from last1 def have ymd: "y = a * 400 + 1 + b * 100 + c * 4 + 3" "m = 12" "d = 31" by auto
    show ?thesis
      using days_before_year_parts [of b c 3 a] a(3) b(3) c(3) e(3) last1 zero bounds
      by (simp add: ymd ymd2ord_def valid_md_def month_end_def month_table)
  next
    case normal
    note parts = days_before_year_parts [OF bounds(1) normal(1) bounds(3,4,5) normal(2), of a]
    have ymd: "y = ?year" "m = fst (month_day (is_leap ?year) u)" "d = snd (month_day (is_leap ?year) u)"
      using def normal unfolding parts(2) by (auto split: if_splits)
    have "u < (if is_leap ?year then 366 else 365)" using e(5) by simp
    from month_day [OF e(4) this] show ?thesis
      using parts(1) a(3) b(3) c(3) e(3) by (simp add: ymd ymd2ord_def)
  qed
qed

lemma div_step:
  fixes y k :: int
  assumes "0 < k"
  shows "y div k = (y - 1) div k + (if y mod k = 0 then 1 else 0)"
proof -
  obtain q r where q: "y div k = q" "y mod k = r" "y = q * k + r" "0 \<le> r" "r < k"
    by (rule div_rem_cases [OF assms])
  show ?thesis
  proof (cases "r = 0")
    case True
    then have "y - 1 = (q - 1) * k + (k - 1)" using q by (simp add: algebra_simps)
    moreover have "((q - 1) * k + (k - 1)) div k = q - 1"
      using assms by (intro quot_rem(1)) simp_all
    ultimately have "(y - 1) div k = q - 1" by (simp only:)
    with q True show ?thesis by simp
  next
    case False
    then have "y - 1 = q * k + (r - 1)" using q by simp
    moreover have "(q * k + (r - 1)) div k = q" using q False by (intro quot_rem(1)) simp_all
    ultimately have "(y - 1) div k = q" by (simp only:)
    with q False show ?thesis by simp
  qed
qed

lemma days_before_year_step:
  "days_before_year (y + 1) = days_before_year y + (if is_leap y then 366 else 365)"
proof -
  have "y mod 100 = 0 \<Longrightarrow> y mod 4 = 0" "y mod 400 = 0 \<Longrightarrow> y mod 100 = 0"
    using mod_mod_cancel [of 4 100 y] mod_mod_cancel [of 100 400 y] by simp_all
  then have leap: "(if is_leap y then 366 else 365) = 365 + (if y mod 4 = 0 then 1 else 0)
      - (if y mod 100 = 0 then 1 else 0) + (if y mod 400 = 0 then 1 else (0::int))"
    unfolding is_leap_def by (cases "y mod 4 = 0"; cases "y mod 100 = 0"; cases "y mod 400 = 0") simp_all
  moreover define a b c a' b' c' where "a = (y - 1) div 4" "b = (y - 1) div 100" "c = (y - 1) div 400"
    "a' = y div 4" "b' = y div 100" "c' = y div 400"
  note defs = this
  have parts: "a' = a + (if y mod 4 = 0 then 1 else 0)" "b' = b + (if y mod 100 = 0 then 1 else 0)"
    "c' = c + (if y mod 400 = 0 then 1 else 0)"
    unfolding defs by (rule div_step; simp)+
  show ?thesis
    unfolding days_before_year_def add_diff_cancel_right' defs [symmetric] leap parts by simp
qed

lemma days_before_year_mono: "y \<le> y' \<Longrightarrow> days_before_year y \<le> days_before_year y'"
proof (induction y' rule: int_ge_induct)
  case (step i)
  then show ?case using days_before_year_step [of i] by (simp split: if_splits)
qed simp

lemma month_end_bounds:
  assumes "1 \<le> m" "m \<le> 12"
  shows "0 \<le> days_before_month leap m" "month_end leap m \<le> (if leap then 366 else 365)"
    and "m < m' \<Longrightarrow> m' \<le> 12 \<Longrightarrow> month_end leap m \<le> days_before_month leap m'"
proof -
  show "0 \<le> days_before_month leap m" "month_end leap m \<le> (if leap then 366 else 365)"
    using month_cases [OF assms] by (elim disjE; simp add: month_end_def month_table)+
  have up: "days_before_month leap i \<le> days_before_month leap (i + 1)" if "1 \<le> i" "i < 12" for i
    using month_cases [OF that(1) less_imp_le [OF that(2)]] that(2)
    by (elim disjE) (simp_all add: month_table)
  have "days_before_month leap (m + 1) \<le> days_before_month leap m'" if "m + 1 \<le> m'" "m' \<le> 12"
    using that assms(1)
  proof (induction m' rule: int_ge_induct)
    case (step i)
    then show ?case using up [of i] by simp
  qed simp
  then show "m < m' \<Longrightarrow> m' \<le> 12 \<Longrightarrow> month_end leap m \<le> days_before_month leap m'"
    by (simp add: month_end_def)
qed

lemma ymd2ord_less:
  assumes "valid_md (is_leap y) m d" "valid_md (is_leap y') m' d'"
    and "ymd2ord y m d < ymd2ord y' m' d'"
  shows "y < y' \<or> y = y' \<and> (m < m' \<or> m = m' \<and> d < d')"
proof (rule ccontr)
  assume not: "\<not> ?thesis"
  note v = assms(1,2) [unfolded valid_md_def]
  then consider "y' < y" | "y' = y" "m' < m" | "y' = y" "m' = m" "d' \<le> d" using not by linarith
  then show False
  proof cases
    case 1
    then have "days_before_year (y' + 1) \<le> days_before_year y"
      by (intro days_before_year_mono) simp
    then show False
      using assms(3) v month_end_bounds(2) [of m' "is_leap y'"] month_end_bounds(1) [of m "is_leap y"]
      unfolding days_before_year_step ymd2ord_def by linarith
  next
    case 2
    then show False
      using assms(3) v month_end_bounds(3) [of m' m "is_leap y"] unfolding ymd2ord_def
      by (simp add: valid_md_def)
  next
    case 3
    then show False using assms(3) by (simp add: ymd2ord_def)
  qed
qed

section \<open>Fixed-width texts are ordered as numbers\<close>

lemma append_less_iff:
  fixes u u' :: "'a :: linorder list"
  shows "length u = length u' \<Longrightarrow> u @ v < u' @ v' \<longleftrightarrow> u < u' \<or> u = u' \<and> v < v'"
  by (induction u u' rule: list_induct2) auto

lemma length_pad [simp]: "length (pad w n) = w"
  by (simp add: pad_def)

lemma pad_Suc: "pad (Suc w) n = pad w (n div 10) @ [hex_char (nat (n mod 10))]"
proof -
  have "n div 10 ^ (w - i) = n div 10 div 10 ^ (w - 1 - i)" if "i < w" for i
  proof -
    have "w - i = Suc (w - 1 - i)" using that by simp
    then show ?thesis by (simp add: zdiv_zmult2_eq mult.commute)
  qed
  then show ?thesis by (simp add: pad_def)
qed

lemma digit_less:
  "\<forall>a \<in> set [0..<10]. \<forall>b \<in> set [0..<10]. hex_char a < hex_char b \<longleftrightarrow> a < b"
  by code_simp

lemma pad_less:
  "0 \<le> a \<Longrightarrow> a < 10 ^ w \<Longrightarrow> 0 \<le> b \<Longrightarrow> b < 10 ^ w \<Longrightarrow> a < b \<Longrightarrow> pad w a < pad w b"
proof (induction w arbitrary: a b)
  case (Suc w)
  then have ih: "a div 10 < b div 10 \<Longrightarrow> pad w (a div 10) < pad w (b div 10)"
    by (intro Suc.IH) (simp_all add: div_less_iff_less_mult)
  have "a mod 10 < b mod 10" if "a div 10 = b div 10"
    using Suc.prems(5) that by (metis add_less_cancel_left mult_div_mod_eq)
  then have "hex_char (nat (a mod 10)) < hex_char (nat (b mod 10))" if "a div 10 = b div 10"
    using digit_less that by (simp add: nat_less_iff)
  moreover have "a div 10 \<le> b div 10" using Suc.prems(5) by (simp add: zdiv_mono1)
  ultimately show ?case
    using ih by (cases "a div 10 = b div 10") (simp_all add: pad_Suc append_less_iff)
qed simp

lemma valid_md_small:
  assumes "valid_md leap m d"
  shows "0 \<le> m \<and> m < 10 ^ 2" "0 \<le> d \<and> d < 10 ^ 2"
proof -
  from assms have m: "1 \<le> m" "m \<le> 12" and d: "1 \<le> d" "days_before_month leap m + d \<le> month_end leap m"
    by (simp_all add: valid_md_def)
  show "0 \<le> m \<and> m < 10 ^ 2" using m by simp
  have "month_end leap m \<le> days_before_month leap m + 31"
    using month_cases [OF m] by (elim disjE; simp add: month_end_def month_table)
  with d show "0 \<le> d \<and> d < 10 ^ 2" by simp
qed

lemma year_small:
  assumes "in_years (ymd2ord y m d)" "valid_md (is_leap y) m d"
  shows "1 \<le> y \<and> y < 10 ^ 4"
proof -
  note v = assms(2) [unfolded valid_md_def]
  have "y < 10000"
  proof (rule ccontr)
    assume "\<not> y < 10000"
    then have "days_before_year 10000 \<le> days_before_year y" by (intro days_before_year_mono) simp
    moreover have "days_before_year 10000 = 3652059" by code_simp
    ultimately show False
      using assms(1) v month_end_bounds(1) [of m "is_leap y"] unfolding in_years_def ymd2ord_def by linarith
  qed
  moreover have "0 < y"
  proof (rule ccontr)
    assume "\<not> 0 < y"
    then have "days_before_year (y + 1) \<le> days_before_year 1" by (intro days_before_year_mono) simp
    moreover have "days_before_year 1 = 0" by code_simp
    ultimately show False
      using assms(1) v month_end_bounds(2) [of m "is_leap y"]
      unfolding in_years_def ymd2ord_def days_before_year_step by linarith
  qed
  ultimately show ?thesis by simp
qed

definition date_text :: "int \<times> int \<times> int \<Rightarrow> string" where
  "date_text ymd = (case ymd of (y, m, d) \<Rightarrow> pad 4 y @ ''-'' @ pad 2 m @ ''-'' @ pad 2 d)"

definition time_text :: "int \<Rightarrow> string" where
  "time_text t = pad 2 (t div 3600) @ '':'' @ pad 2 (t div 60 mod 60) @ '':'' @ pad 2 (t mod 60)"

lemma strftime_split:
  "strftime_utc secs =
    date_text (ord2ymd (secs div 86400 + epoch_ordinal)) @ ''T'' @ time_text (secs mod 86400)"
  by (simp add: strftime_utc_def date_text_def time_text_def Let_def split: prod.split)

lemma length_date_time [simp]: "length (date_text ymd) = 10" "length (time_text t) = 8"
  by (simp_all add: date_text_def time_text_def split: prod.split)

lemma date_text_less:
  assumes "in_years a" "in_years b" "a < b"
  shows "date_text (ord2ymd a) < date_text (ord2ymd b)"
proof -
  obtain y m d where a: "ord2ymd a = (y, m, d)" by (metis prod_cases3)
  obtain y' m' d' where b: "ord2ymd b = (y', m', d')" by (metis prod_cases3)
  note va = ord2ymd_inverse [OF a] and vb = ord2ymd_inverse [OF b]
  have lex: "y < y' \<or> y = y' \<and> (m < m' \<or> m = m' \<and> d < d')"
    using va vb assms(3) by (intro ymd2ord_less) auto
  have small: "0 \<le> y \<and> y < 10 ^ 4" "0 \<le> y' \<and> y' < 10 ^ 4"
    using year_small [of y m d] year_small [of y' m' d'] va vb assms by auto
  note more = va [THEN conjunct2, THEN valid_md_small(1)] va [THEN conjunct2, THEN valid_md_small(2)]
    vb [THEN conjunct2, THEN valid_md_small(1)] vb [THEN conjunct2, THEN valid_md_small(2)]
  have "y < y' \<Longrightarrow> pad 4 y < pad 4 y'" "m < m' \<Longrightarrow> pad 2 m < pad 2 m'" "d < d' \<Longrightarrow> pad 2 d < pad 2 d'"
    using small more by (simp_all add: pad_less)
  with lex show ?thesis by (auto simp: a b date_text_def append_less_iff)
qed

lemma time_text_less:
  assumes "0 \<le> s" "s < t" "t < 86400"
  shows "time_text s < time_text t"
proof -
  have hour_bound: "x div 3600 < 10 ^ 2" "0 \<le> x div 3600" if "0 \<le> x" "x < 86400" for x :: int
    using that by (simp_all add: div_less_iff_less_mult pos_imp_zdiv_nonneg_iff)
  have small: "x mod 60 < 10 ^ 2" "0 \<le> x mod 60" for x :: int
    using pos_mod_bound [of 60 x] by simp_all
  have "s div 60 div 60 = s div 3600" "t div 60 div 60 = t div 3600"
    by (simp_all add: zdiv_zmult2_eq [symmetric])
  moreover have "s div 60 \<le> t div 60" using assms by (intro zdiv_mono1) simp_all
  moreover have "s div 3600 \<le> t div 3600" using assms by (intro zdiv_mono1) simp_all
  moreover have "s mod 60 < t mod 60" if "s div 60 = t div 60"
    using assms(2) that by (metis add_less_cancel_left mult_div_mod_eq)
  moreover have "s div 60 mod 60 < t div 60 mod 60"
    if "s div 60 < t div 60" "s div 60 div 60 = t div 60 div 60"
    using that by (metis add_less_cancel_left mult_div_mod_eq)
  ultimately have lex: "s div 3600 < t div 3600 \<or> s div 3600 = t div 3600 \<and>
      (s div 60 mod 60 < t div 60 mod 60 \<or> s div 60 mod 60 = t div 60 mod 60 \<and> s mod 60 < t mod 60)"
    by (metis mult_div_mod_eq order_le_less)
  have hours: "s div 3600 < t div 3600 \<Longrightarrow> pad 2 (s div 3600) < pad 2 (t div 3600)"
    using assms hour_bound by (intro pad_less) simp_all
  have sixty: "a mod 60 < b mod 60 \<Longrightarrow> pad 2 (a mod 60) < pad 2 (b mod 60)" for a b :: int
    using small by (intro pad_less) simp_all
  from lex show ?thesis
    unfolding time_text_def
    by (elim disjE conjE) (simp_all only: hours sixty append_less_iff length_pad simp_thms)
qed

lemma strftime_less:
  assumes "in_years (s div 86400 + epoch_ordinal)" "in_years (t div 86400 + epoch_ordinal)" "s < t"
  shows "strftime_utc s < strftime_utc t"
proof (cases "s div 86400 = t div 86400")
  case True
  have "s mod 86400 < t mod 86400" using assms(3) True by (metis add_less_cancel_left mult_div_mod_eq)
  then have "time_text (s mod 86400) < time_text (t mod 86400)" by (intro time_text_less) simp_all
  then show ?thesis by (simp add: strftime_split True append_less_iff)
next
  case False
  have "s div 86400 \<le> t div 86400" using assms(3) by (intro zdiv_mono1) simp_all
  with False have "s div 86400 + epoch_ordinal < t div 86400 + epoch_ordinal" by simp
  from date_text_less [OF assms(1,2) this] show ?thesis by (simp add: strftime_split append_less_iff)
qed

lemma format_ns_less:
  assumes "format_ns a = Inr s" "format_ns b = Inr t"
  shows "length s = 30" and "a < b \<Longrightarrow> s < t"
proof -
  have range: "in_years (a div 1000000000 div 86400 + epoch_ordinal)"
    "in_years (b div 1000000000 div 86400 + epoch_ordinal)"
    and eqs: "s = strftime_utc (a div 1000000000) @ ''.'' @ pad 9 (a mod 1000000000) @ ''Z''"
    "t = strftime_utc (b div 1000000000) @ ''.'' @ pad 9 (b mod 1000000000) @ ''Z''"
    using assms by (auto simp: format_ns_def Let_def split: if_splits)
  show "length s = 30" by (simp add: eqs strftime_split)
  show "s < t" if "a < b"
  proof (cases "a div 1000000000 = b div 1000000000")
    case True
    have "a mod 1000000000 < b mod 1000000000"
      using that True by (metis add_less_cancel_left mult_div_mod_eq)
    then have "pad 9 (a mod 1000000000) < pad 9 (b mod 1000000000)" by (intro pad_less) simp_all
    then show ?thesis by (simp add: eqs True append_less_iff)
  next
    case False
    have "a div 1000000000 \<le> b div 1000000000" using that by (intro zdiv_mono1) simp_all
    with False have "strftime_utc (a div 1000000000) < strftime_utc (b div 1000000000)"
      using range by (intro strftime_less) simp_all
    moreover have "length (strftime_utc x) = length (strftime_utc y)" for x y
      by (simp add: strftime_split)
    ultimately show ?thesis unfolding eqs by (subst append_less_iff) simp_all
  qed
qed

end
