(* ===== verification/Retention.thy ===== *)
theory Retention imports Timestamps begin

text \<open>
  The retention date of a committed record (\<open>Ledger.commit\<close> in \<open>ledger.py\<close>): the commit time
  is read back with \<open>datetime.fromisoformat\<close>, the retention period is added and the sum
  is printed with \<open>to_rfc3339\<close>.  \<open>fromisoformat\<close> is modelled on its extended format
  \<open>YYYY-MM-DD?HH[:MM[:SS[.f...]]][+HH:MM[:SS]]\<close> as read since Python 3.11; the basic and
  week-date formats raise \<open>ValueError\<close> here.
\<close>

section \<open>Reading ISO 8601\<close>

definition take_digits :: "nat \<Rightarrow> string \<Rightarrow> (int \<times> string) option" where
  "take_digits n s =
     (if length (take n s) = n \<and> list_all is_digit (take n s)
      then Some (int (nat_of_digits 0 (take n s)), drop n s) else None)"

definition take_char :: "char \<Rightarrow> string \<Rightarrow> string option" where
  "take_char c s = (case s of [] \<Rightarrow> None | d # r \<Rightarrow> if d = c then Some r else None)"

definition days_in_month :: "int \<Rightarrow> int \<Rightarrow> int" where
  "days_in_month y m = month_end (is_leap y) m - days_before_month (is_leap y) m"

definition iso_date :: "string \<Rightarrow> ((int \<times> int \<times> int) \<times> string) option" where
  "iso_date s =
     Option.bind (take_digits 4 s) (\<lambda>(y, s).
     Option.bind (take_char (CHR ''-'') s) (\<lambda>s.
     Option.bind (take_digits 2 s) (\<lambda>(m, s).
     Option.bind (take_char (CHR ''-'') s) (\<lambda>s.
     Option.bind (take_digits 2 s) (\<lambda>(d, s).
       if 1 \<le> y \<and> 1 \<le> m \<and> m \<le> 12 \<and> 1 \<le> d \<and> d \<le> days_in_month y m
       then Some ((y, m, d), s) else None)))))"

text \<open>Hours, optional minutes and seconds, and the microseconds of an optional fraction.\<close>

definition iso_fraction :: "string \<Rightarrow> (int \<times> string) option" where
  "iso_fraction s = (case take_char (CHR ''.'') s of
     None \<Rightarrow> Some (0, s)
   | Some r \<Rightarrow>
       (let ds = takeWhile is_digit r
        in if ds = [] then None
           else Some (int (nat_of_digits 0 (take 6 (ds @ ''000000''))), drop (length ds) r)))"

definition iso_field :: "string \<Rightarrow> (int \<times> string \<times> bool) option" where
  "iso_field s = (case take_char (CHR '':'') s of
     None \<Rightarrow> Some (0, s, False)
   | Some r \<Rightarrow> map_option (\<lambda>(n, r). (n, r, True)) (take_digits 2 r))"

definition iso_time :: "string \<Rightarrow> ((int \<times> int \<times> int \<times> int) \<times> string) option" where
  "iso_time s =
     Option.bind (take_digits 2 s) (\<lambda>(h, s).
     Option.bind (iso_field s) (\<lambda>(mi, s, more).
     Option.bind (if more then iso_field s else Some (0, s, False)) (\<lambda>(sec, s, more).
     Option.bind (if more then iso_fraction s else Some (0, s)) (\<lambda>(us, s).
       if h < 24 \<and> mi < 60 \<and> sec < 60 then Some ((h, mi, sec, us), s) else None))))"

definition iso_offset :: "string \<Rightarrow> int option option" where
  "iso_offset s = (case s of
     [] \<Rightarrow> Some None
   | c # r \<Rightarrow>
       (if c = CHR ''Z'' \<and> r = [] then Some (Some 0)
        else if c \<in> {CHR ''+'', CHR ''-''} then
          Option.bind (iso_time r) (\<lambda>((h, mi, sec, us), rest).
            if rest = [] then Some (Some ((if c = CHR ''-'' then - 1 else 1)
              * ((h * 3600 + mi * 60 + sec) * 1000000 + us))) else None)
        else None))"

definition fromisoformat :: "string \<Rightarrow> py_datetime result" where
  "fromisoformat s =
     (case iso_date s of
        None \<Rightarrow> Inl ValueError
      | Some ((y, m, d), []) \<Rightarrow>
          Inr \<lparr>year = y, month = m, day = d, hour = 0, minute = 0, second = 0, microsecond = 0,
            utc_offset = None\<rparr>
      | Some ((y, m, d), sep # rest) \<Rightarrow>
          (case iso_time rest of
             None \<Rightarrow> Inl ValueError
           | Some ((h, mi, sec, us), rest) \<Rightarrow>
               (case iso_offset rest of
                  None \<Rightarrow> Inl ValueError
                | Some off \<Rightarrow>
                    Inr \<lparr>year = y, month = m, day = d, hour = h, minute = mi, second = sec,
                      microsecond = us, utc_offset = off\<rparr>)))"

section \<open>Adding the retention period\<close>

text \<open>\<open>datetime + timedelta\<close> moves the local fields and keeps the offset.\<close>

definition local_micros :: "py_datetime \<Rightarrow> int" where
  "local_micros dt =
     ((ymd2ord (year dt) (month dt) (day dt) * 24 + hour dt) * 60 + minute dt) * 60000000
       + second dt * 1000000 + microsecond dt"

definition add_micros :: "py_datetime \<Rightarrow> int \<Rightarrow> py_datetime result" where
  "add_micros dt us =
     (let total = local_micros dt + us;
          days = total div 86400000000; t = total mod 86400000000;
          ymd = ord2ymd days
      in if \<not> in_years days then Inl OverflowError
         else Inr (dt\<lparr>year := fst ymd, month := fst (snd ymd), day := snd (snd ymd),
           hour := t div 3600000000, minute := t div 60000000 mod 60,
           second := t div 1000000 mod 60, microsecond := t mod 1000000\<rparr>))"

definition replace_Z :: "string \<Rightarrow> string" where
  "replace_Z s = concat (map (\<lambda>c. if c = CHR ''Z'' then ''+00:00'' else [c]) s)"

definition retention_until :: "string \<Rightarrow> int \<Rightarrow> string result" where
  "retention_until committed_at period =
     sbind (fromisoformat (replace_Z committed_at)) (\<lambda>base.
     sbind (add_micros base period) (\<lambda>until. to_rfc3339 (TDatetime until)))"

section \<open>Reading back what the clock prints\<close>

lemma pad_digits: "c \<in> set (pad w n) \<Longrightarrow> is_digit c"
proof -
  have "nat (x mod 10) < 10" for x :: int by (simp add: nat_less_iff)
  then show "c \<in> set (pad w n) \<Longrightarrow> is_digit c" by (auto simp: pad_def)
qed

lemma nat_of_digits_pad: "0 \<le> n \<Longrightarrow> n < 10 ^ w \<Longrightarrow> nat_of_digits 0 (pad w n) = nat n"
proof (induction w arbitrary: n)
  case (Suc w)
  then have "nat_of_digits 0 (pad w (n div 10)) = nat (n div 10)"
    by (intro Suc.IH) (simp_all add: div_less_iff_less_mult pos_imp_zdiv_nonneg_iff)
  moreover have "nat (n mod 10) < 10" by (simp add: nat_less_iff)
  ultimately show ?case using Suc.prems(1)
    by (simp add: pad_Suc nat_of_digits_append) (simp add: nat_eq_iff nat_div_distrib nat_mod_distrib)
qed (simp add: pad_def)

lemma take_digits_pad:
  "0 \<le> n \<Longrightarrow> n < 10 ^ w \<Longrightarrow> take_digits w (pad w n @ s) = Some (n, s)"
  by (auto simp: take_digits_def list_all_iff nat_of_digits_pad dest: pad_digits)

lemma pad_add: "pad (w + k) n = pad w (n div 10 ^ k) @ pad k n"
proof (induction k arbitrary: n)
  case 0
  show ?case by (simp add: pad_def)
next
  case (Suc k)
  have "pad (w + Suc k) n = pad (w + k) (n div 10) @ [hex_char (nat (n mod 10))]"
    by (simp add: pad_Suc)
  then show ?case by (simp add: Suc.IH pad_Suc zdiv_zmult2_eq)
qed

lemma take_pad: "take 6 (pad 9 n) = pad 6 (n div 1000)"
  using pad_add [of 6 3 n] by simp

lemma replace_Z_id: "CHR ''Z'' \<notin> set s \<Longrightarrow> replace_Z s = s"
  unfolding replace_Z_def by (induction s) auto

lemma replace_Z_append: "replace_Z (s @ t) = replace_Z s @ replace_Z t"
  by (simp add: replace_Z_def)

lemma no_Z_in_pad: "CHR ''Z'' \<notin> set (pad w n)"
  by (auto simp: is_digit_def dest: pad_digits)

lemma no_Z_in_strftime: "CHR ''Z'' \<notin> set (strftime_utc secs)"
  by (simp add: strftime_split date_text_def time_text_def no_Z_in_pad split: prod.split)

lemma iso_date_text:
  assumes "0 \<le> y" "y < 10 ^ 4" "1 \<le> y" "valid_md (is_leap y) m d"
  shows "iso_date (date_text (y, m, d) @ s) = Some ((y, m, d), s)"
proof -
  have "d \<le> days_in_month y m" "1 \<le> m" "m \<le> 12" "1 \<le> d"
    using assms(4) by (simp_all add: valid_md_def days_in_month_def)
  then show ?thesis
    using assms valid_md_small [OF assms(4)]
    by (simp add: iso_date_def date_text_def take_digits_pad take_char_def)
qed

lemma iso_field_pad:
  "0 \<le> n \<Longrightarrow> n < 10 ^ 2 \<Longrightarrow> iso_field (CHR '':'' # pad 2 n @ s) = Some (n, s, True)"
  by (simp add: iso_field_def take_char_def take_digits_pad)

lemma iso_fraction_pad:
  assumes "0 \<le> n" "n < 10 ^ 9" "takeWhile is_digit s = []"
  shows "iso_fraction (CHR ''.'' # pad 9 n @ s) = Some (n div 1000, s)"
proof -
  have "takeWhile is_digit (pad 9 n @ s) = pad 9 n"
    using assms(3) by (subst takeWhile_append2) (auto dest: pad_digits)
  moreover have "nat_of_digits 0 (pad 6 (n div 1000)) = nat (n div 1000)"
    using assms by (intro nat_of_digits_pad) (simp_all add: div_less_iff_less_mult pos_imp_zdiv_nonneg_iff)
  moreover have "pad 9 n \<noteq> []" by (metis length_pad list.size(3) zero_neq_numeral)
  ultimately show ?thesis
    using assms by (simp add: iso_fraction_def take_char_def take_pad pos_imp_zdiv_nonneg_iff)
qed

lemma time_parts:
  fixes t :: int
  assumes "0 \<le> t" "t < 86400"
  shows "0 \<le> t div 3600" "t div 3600 < 24" "0 \<le> t div 60 mod 60" "t div 60 mod 60 < 60"
    "0 \<le> t mod 60" "t mod 60 < 60"
    and "t div 3600 * 3600 + t div 60 mod 60 * 60 + t mod 60 = t"
proof -
  have "t div 60 div 60 = t div 3600" by (simp add: zdiv_zmult2_eq [symmetric])
  then have "t div 60 = t div 3600 * 60 + t div 60 mod 60"
    using div_mult_mod_eq [of "t div 60" 60] by linarith
  then show "t div 3600 * 3600 + t div 60 mod 60 * 60 + t mod 60 = t"
    using div_mult_mod_eq [of t 60] by linarith
qed (use assms in \<open>simp_all add: div_less_iff_less_mult pos_imp_zdiv_nonneg_iff\<close>)

lemma iso_time_text:
  assumes "0 \<le> t" "t < 86400" "0 \<le> n" "n < 10 ^ 9" "takeWhile is_digit s = []"
  shows "iso_time (time_text t @ CHR ''.'' # pad 9 n @ s) =
    Some ((t div 3600, t div 60 mod 60, t mod 60, n div 1000), s)"
proof -
  note tp = time_parts [OF assms(1,2)]
  have "take_digits 2 (pad 2 (t div 3600) @ r) = Some (t div 3600, r)" for r
    using tp(1,2) by (intro take_digits_pad) simp_all
  moreover have "iso_field (CHR '':'' # pad 2 (t div 60 mod 60) @ r) = Some (t div 60 mod 60, r, True)" for r
    using tp(3,4) by (intro iso_field_pad) simp_all
  moreover have "iso_field (CHR '':'' # pad 2 (t mod 60) @ r) = Some (t mod 60, r, True)" for r
    using tp(5,6) by (intro iso_field_pad) simp_all
  moreover note iso_fraction_pad [OF assms(3-5)] tp(2,4,6)
  ultimately show ?thesis
    unfolding iso_time_def time_text_def append_assoc append_Cons append_Nil
    by (simp only: Option.bind.simps prod.case if_True simp_thms)
qed

lemma micros_of_ns:
  "ns div 1000000000 * 1000000 + ns mod 1000000000 div 1000 = ns div (1000::int)"
proof -
  have "ns = ns mod 1000000000 + ns div 1000000000 * 1000000 * 1000"
    using div_mult_mod_eq [of ns 1000000000] by simp
  then have "ns div 1000 = (ns mod 1000000000 + ns div 1000000000 * 1000000 * 1000) div 1000" by simp
  then show ?thesis by (simp only: div_mult_self1 numeral_neq_zero not_False_eq_True add.commute)
qed

lemma local_sum:
  fixes D :: int
  assumes "o' = D + e" "h * 3600 + mi * 60 + s = t" "D * 86400 + t = secs" "secs * 1000000 + u = x"
  shows "((o' * 24 + h) * 60 + mi) * 60000000 + s * 1000000 + u = x + e * 86400000000"
  unfolding assms(1) assms(4,3,2) [symmetric] by (simp add: algebra_simps)

lemma utc_sum:
  fixes D :: int
  assumes "(h * 3600 + mi * 60 + s) * 1000000 + u = t" "D * 86400000000 + t = x"
  shows "(D * 86400 + h * 3600 + mi * 60 + s) * 1000000 + u = x"
  unfolding assms(2,1) [symmetric] by (simp add: algebra_simps)

lemma fromisoformat_clock:
  assumes "format_ns ns = Inr s"
  shows "\<exists>dt. fromisoformat (replace_Z s) = Inr dt \<and> utc_offset dt = Some 0
    \<and> local_micros dt = ns div 1000 + epoch_ordinal * 86400000000"
proof -
  let ?secs = "ns div 1000000000" and ?rem = "ns mod 1000000000"
  let ?ord = "?secs div 86400 + epoch_ordinal" and ?t = "?secs mod 86400"
  have "in_years ?ord"
    and s: "s = (strftime_utc ?secs @ ''.'' @ pad 9 ?rem) @ ''Z''"
    using assms by (auto simp: format_ns_def Let_def split: if_splits)
  obtain y m d where ymd: "ord2ymd ?ord = (y, m, d)" by (metis prod_cases3)
  note inv = ord2ymd_inverse [OF ymd]
  have y: "1 \<le> y" "y < 10 ^ 4" using year_small [of y m d] inv \<open>in_years ?ord\<close> by simp_all
  have replaced: "replace_Z s = date_text (y, m, d) @ CHR ''T'' # time_text ?t @ CHR ''.'' # pad 9 ?rem @ ''+00:00''"
  proof -
    have "CHR ''Z'' \<notin> set (strftime_utc ?secs @ ''.'' @ pad 9 ?rem)"
      by (simp add: no_Z_in_strftime no_Z_in_pad)
    then have "replace_Z (strftime_utc ?secs @ ''.'' @ pad 9 ?rem) = strftime_utc ?secs @ ''.'' @ pad 9 ?rem"
      by (rule replace_Z_id)
    then have "replace_Z s = (strftime_utc ?secs @ ''.'' @ pad 9 ?rem) @ replace_Z ''Z''"
      unfolding s replace_Z_append [of _ "''Z''"] by (rule arg_cong)
    then show ?thesis by (simp add: replace_Z_def strftime_split ymd)
  qed
  have t: "0 \<le> ?t" "?t < 86400" by simp_all
  have "takeWhile is_digit ''+00:00'' = []" by code_simp
  then have iso_t: "iso_time (time_text ?t @ CHR ''.'' # pad 9 ?rem @ ''+00:00'') =
      Some ((?t div 3600, ?t div 60 mod 60, ?t mod 60, ?rem div 1000), ''+00:00'')"
    using t by (intro iso_time_text) simp_all
  have iso_d: "iso_date (date_text (y, m, d) @ r) = Some ((y, m, d), r)" for r
    using y inv by (intro iso_date_text) simp_all
  have off: "iso_offset ''+00:00'' = Some (Some 0)" by code_simp
  let ?dt = "\<lparr>year = y, month = m, day = d, hour = ?t div 3600, minute = ?t div 60 mod 60,
    second = ?t mod 60, microsecond = ?rem div 1000, utc_offset = Some 0\<rparr>"
  have "fromisoformat (replace_Z s) = Inr ?dt"
    unfolding fromisoformat_def replaced iso_d option.case prod.case list.case iso_t off ..
  moreover have "local_micros ?dt = ns div 1000 + epoch_ordinal * 86400000000"
  proof -
    have o: "ymd2ord y m d = ?ord" using inv by simp
    show ?thesis
      unfolding local_micros_def py_datetime.simps
      by (rule local_sum [OF o time_parts(7) [OF t] div_mult_mod_eq micros_of_ns])
  qed
  moreover have "utc_offset ?dt = Some 0" by (simp only: py_datetime.simps)
  ultimately show ?thesis by blast
qed

definition day_micros :: int where
  "day_micros = 86400000000"

lemma shifted_quotient:
  fixes x e n :: int
  assumes "n \<noteq> 0"
  shows "(x div n + e - e) * n + (x + e * n) mod n = x"
  using div_mult_mod_eq [of x n] by simp

lemma utc_micros_add:
  assumes "add_micros dt us = Inr dt'" "utc_offset dt = Some 0"
    and "local_micros dt = t + epoch_ordinal * day_micros"
  shows "utc_micros dt' = t + us" and "in_years ((t + us) div day_micros + epoch_ordinal)"
proof -
  let ?total = "local_micros dt + us"
  let ?days = "?total div day_micros" and ?t = "?total mod day_micros"
  obtain y m d where ymd: "ord2ymd ?days = (y, m, d)" by (metis prod_cases3)
  note inv = ord2ymd_inverse [OF ymd]
  have total: "?total = (t + us) + epoch_ordinal * day_micros" using assms(3) by simp
  have days: "?days = (t + us) div day_micros + epoch_ordinal"
    unfolding total day_micros_def by simp
  have t: "0 \<le> ?t div 1000000" "?t div 1000000 < 86400"
    by (simp_all add: day_micros_def pos_imp_zdiv_nonneg_iff div_less_iff_less_mult)
  from assms(1) have dt': "in_years ?days" "dt' = dt\<lparr>year := y, month := m, day := d,
      hour := ?t div 3600000000, minute := ?t div 60000000 mod 60,
      second := ?t div 1000000 mod 60, microsecond := ?t mod 1000000\<rparr>"
    by (auto simp: add_micros_def Let_def day_micros_def [symmetric] ymd split: if_splits)
  show "in_years ((t + us) div day_micros + epoch_ordinal)" using dt'(1) days by simp
  have "?t div 3600000000 = ?t div 1000000 div 3600" "?t div 60000000 = ?t div 1000000 div 60"
    by (simp_all add: zdiv_zmult2_eq [symmetric])
  then have "?t div 3600000000 * 3600 + ?t div 60000000 mod 60 * 60 + ?t div 1000000 mod 60 = ?t div 1000000"
    using time_parts(7) [OF t] by (simp only:)
  then have clock: "(?t div 3600000000 * 3600 + ?t div 60000000 mod 60 * 60 + ?t div 1000000 mod 60) * 1000000
      + ?t mod 1000000 = ?t"
    by (simp only: div_mult_mod_eq)
  have date: "(?days - epoch_ordinal) * 86400000000 + ?t = t + us"
    unfolding days unfolding total unfolding day_micros_def by (rule shifted_quotient) simp
  have fields: "year dt' = y" "month dt' = m" "day dt' = d" "utc_offset dt' = Some 0"
    "hour dt' = ?t div 3600000000" "minute dt' = ?t div 60000000 mod 60"
    "second dt' = ?t div 1000000 mod 60" "microsecond dt' = ?t mod 1000000"
    by (simp_all add: dt'(2) assms(2))
  have "utc_micros dt' = ((?days - epoch_ordinal) * 86400 + ?t div 3600000000 * 3600
      + ?t div 60000000 mod 60 * 60 + ?t div 1000000 mod 60) * 1000000 + ?t mod 1000000"
    using inv by (simp only: utc_micros_def fields option.case diff_zero)
  also have "\<dots> = t + us" by (rule utc_sum [OF clock date])
  finally show "utc_micros dt' = t + us" .
qed

lemma rescale:
  fixes x :: int
  shows "x div 1000000 * 1000000000 + x mod 1000000 * 1000 = x * 1000"
proof -
  have "(q * 1000000 + r) * 1000 = q * 1000000000 + r * 1000" for q r :: int by simp
  from this [of "x div 1000000" "x mod 1000000"] show ?thesis by (simp only: div_mult_mod_eq)
qed

lemma retention_until_clock:
  assumes "format_ns ns = Inr s" "retention_until s period = Inr r"
  shows "format_ns ((ns div 1000 + period) * 1000) = Inr r"
proof -
  obtain dt where dt: "fromisoformat (replace_Z s) = Inr dt" "utc_offset dt = Some 0"
    "local_micros dt = ns div 1000 + epoch_ordinal * day_micros"
    using fromisoformat_clock [OF assms(1)] unfolding day_micros_def by blast
  with assms(2) obtain dt' where dt': "add_micros dt period = Inr dt'" "to_rfc3339 (TDatetime dt') = Inr r"
    by (auto simp: retention_until_def sbind_Inr_conv)
  note us = utc_micros_add [OF dt'(1) dt(2,3)]
  show ?thesis
    using dt'(2) us(1) by (simp add: to_rfc3339_def Let_def rescale split: if_splits)
qed

lemma retention_until_total:
  assumes "format_ns ns = Inr s" "in_years ((ns div 1000 + period) div day_micros + epoch_ordinal)"
  shows "\<exists>r. retention_until s period = Inr r"
proof -
  obtain dt where dt: "fromisoformat (replace_Z s) = Inr dt" "utc_offset dt = Some 0"
    "local_micros dt = ns div 1000 + epoch_ordinal * day_micros"
    using fromisoformat_clock [OF assms(1)] unfolding day_micros_def by blast
  have days: "(local_micros dt + period) div day_micros = (ns div 1000 + period) div day_micros + epoch_ordinal"
    unfolding dt(3) by (simp add: day_micros_def algebra_simps)
  then have "\<exists>dt'. add_micros dt period = Inr dt'"
    using assms(2) by (simp add: add_micros_def Let_def day_micros_def)
  then obtain dt' where dt': "add_micros dt period = Inr dt'" by blast
  note us = utc_micros_add [OF dt' dt(2,3)]
  have "x div 1000000 div 86400 = x div day_micros" for x :: int
    by (simp add: day_micros_def zdiv_zmult2_eq [symmetric])
  moreover have "x * 1000 div 1000000000 = x div 1000000" for x :: int
    using div_mult_mult2 [of 1000 x 1000000] by simp
  ultimately have "\<exists>r. to_rfc3339 (TDatetime dt') = Inr r"
    using us by (simp add: to_rfc3339_def Let_def rescale format_ns_def del: distrib_right_numeral)
  then show ?thesis by (auto simp: retention_until_def dt(1) dt')
qed

end
