(* ===== verification/Ledger.thy ===== *)
theory Ledger imports Sql_Backend Signing Retention Merkle_Incremental begin

text \<open>
  \<open>Ledger\<close> of \<open>src/src/openwright/ledger.py\<close> over any backend: opening (the leaves are rebuilt
  from storage), committing, corrections, reads, proofs and checkpoints.  A clock reading is an
  argument.  A commit is split where the code takes its lock: \<open>prepare_commit\<close> runs outside,
  \<open>install_commit\<close> inside.
\<close>

section \<open>State\<close>

record 'b backend_ops =
  append_op :: "dict \<Rightarrow> 'b \<Rightarrow> 'b"
  size_op :: "'b \<Rightarrow> int"
  iter_op :: "'b \<Rightarrow> json list result"
  get_op :: "int \<Rightarrow> 'b \<Rightarrow> json result \<times> 'b"

record 'b ledger_state =
  led_backend :: 'b
  led_origin :: string
  led_retention :: "int option"
  led_leaves :: "bytes list"
  led_tree :: merkle_tree

definition leaf_bytes_from_record :: "json \<Rightarrow> bytes result" where
  "leaf_bytes_from_record record =
     (case record of
        JDict d \<Rightarrow> (case dget_or d ''ledger'' (JDict []) of
          JDict l \<Rightarrow> (case dget_or l ''leaf_hash'' (JStr []) of
            JStr ref \<Rightarrow> fromhex (last (split_at (CHR '':'') ref))
          | _ \<Rightarrow> Inl AttributeError)
        | _ \<Rightarrow> Inl AttributeError)
      | _ \<Rightarrow> Inl AttributeError)"

definition open_ledger ::
  "'b backend_ops \<Rightarrow> 'b \<Rightarrow> string \<Rightarrow> int option \<Rightarrow> 'b ledger_state result"
where
  "open_ledger ops backend origin retention =
     sbind (iter_op ops backend) (\<lambda>records.
     sbind (map_result leaf_bytes_from_record records) (\<lambda>leaves.
       Inr \<lparr>led_backend = backend, led_origin = origin, led_retention = retention,
         led_leaves = leaves, led_tree = from_leaves leaves\<rparr>))"

section \<open>Commitment\<close>

record prepared =
  prep_event :: compliance_event
  prep_leaf :: bytes
  prep_committed_at :: string
  prep_retention_until :: "string option"

definition prepare_commit :: "int option \<Rightarrow> string \<Rightarrow> compliance_event \<Rightarrow> prepared result" where
  "prepare_commit retention committed_at e =
     sbind (finalize_id e) (\<lambda>e.
     sbind (leaf_content_bytes e) (\<lambda>b.
     sbind (case retention of
              None \<Rightarrow> Inr None
            | Some period \<Rightarrow> sbind (retention_until committed_at period) (\<lambda>r. Inr (Some r)))
       (\<lambda>until. Inr \<lparr>prep_event = e, prep_leaf = leaf_hash b, prep_committed_at = committed_at,
          prep_retention_until = until\<rparr>)))"

definition stamp :: "prepared \<Rightarrow> int \<Rightarrow> compliance_event" where
  "stamp p i = (prep_event p)\<lparr>ledger := Some
     \<lparr>ledger_leaf_hash = Some (''sha256:'' @ hex (prep_leaf p)), ledger_leaf_index = Some i,
      ledger_checkpoint_id = None, ledger_committed_at = Some (prep_committed_at p),
      ledger_retention_until = prep_retention_until p, ledger_extra = []\<rparr>\<rparr>"

definition install_commit ::
  "'b backend_ops \<Rightarrow> prepared \<Rightarrow> 'b ledger_state \<Rightarrow> compliance_event \<times> 'b ledger_state"
where
  "install_commit ops p led =
     (let e = stamp p (size_op ops (led_backend led))
      in (e, led\<lparr>led_backend := append_op ops (model_dump e) (led_backend led),
                 led_leaves := led_leaves led @ [prep_leaf p],
                 led_tree := append_leaf (prep_leaf p) (led_tree led)\<rparr>))"

definition commit ::
  "'b backend_ops \<Rightarrow> string \<Rightarrow> compliance_event \<Rightarrow> 'b ledger_state \<Rightarrow>
    (compliance_event \<times> 'b ledger_state) result"
where
  "commit ops committed_at e led =
     sbind (prepare_commit (led_retention led) committed_at e) (\<lambda>p. Inr (install_commit ops p led))"

definition correction_event :: "string \<Rightarrow> string \<Rightarrow> string \<Rightarrow> string \<Rightarrow> compliance_event" where
  "correction_event ts target_event_id reason actor_id =
     (bare_event ts CORRECTION (bare_actor actor_id) (bare_source ''sdk''))
       \<lparr>attributes := [(''corrects_event_id'', JStr target_event_id), (''reason'', JStr reason)]\<rparr>"

definition correct ::
  "'b backend_ops \<Rightarrow> string \<Rightarrow> string \<Rightarrow> string \<Rightarrow> string \<Rightarrow> string \<Rightarrow> 'b ledger_state \<Rightarrow>
    (compliance_event \<times> 'b ledger_state) result"
where
  "correct ops ts committed_at target_event_id reason actor_id led =
     commit ops committed_at (correction_event ts target_event_id reason actor_id) led"

section \<open>Reads and proofs\<close>

definition ledger_size :: "'b ledger_state \<Rightarrow> int" where
  "ledger_size led = int (length (led_leaves led))"

definition validate_record :: "json \<Rightarrow> compliance_event result" where
  "validate_record v = (case v of JDict d \<Rightarrow> model_validate d | _ \<Rightarrow> Inl ValueError)"

definition get_event ::
  "'b backend_ops \<Rightarrow> int \<Rightarrow> 'b ledger_state \<Rightarrow> compliance_event result \<times> 'b ledger_state"
where
  "get_event ops i led =
     (let (r, b) = get_op ops i (led_backend led)
      in (sbind r validate_record, led\<lparr>led_backend := b\<rparr>))"

definition events :: "'b backend_ops \<Rightarrow> 'b ledger_state \<Rightarrow> compliance_event list result" where
  "events ops led = sbind (iter_op ops (led_backend led)) (map_result validate_record)"

definition ledger_root :: "'b ledger_state \<Rightarrow> bytes" where
  "ledger_root led = tree_root (led_tree led)"

definition root_hex :: "'b ledger_state \<Rightarrow> string" where
  "root_hex led = hex (ledger_root led)"

text \<open>\<open>xs[:n]\<close>; a negative bound counts from the end.\<close>

definition py_take :: "int \<Rightarrow> 'a list \<Rightarrow> 'a list" where
  "py_take n xs = take (nat (if n < 0 then int (length xs) + n else n)) xs"

definition pinned_leaves :: "int option \<Rightarrow> 'b ledger_state \<Rightarrow> bytes list" where
  "pinned_leaves size_pin led = (case size_pin of
     None \<Rightarrow> led_leaves led
   | Some n \<Rightarrow> py_take n (led_leaves led))"

definition inclusion_proof_hex :: "int \<Rightarrow> int option \<Rightarrow> 'b ledger_state \<Rightarrow> string list result" where
  "inclusion_proof_hex i size_pin led =
     sbind (inclusion_proof (pinned_leaves size_pin led) i) (\<lambda>p. Inr (map hex p))"

definition consistency_proof_hex :: "int \<Rightarrow> int option \<Rightarrow> 'b ledger_state \<Rightarrow> string list result" where
  "consistency_proof_hex old_size size_pin led =
     sbind (consistency_proof (pinned_leaves size_pin led) old_size) (\<lambda>p. Inr (map hex p))"

definition json_opt :: "string option \<Rightarrow> json" where
  "json_opt s = (case s of None \<Rightarrow> JNull | Some x \<Rightarrow> JStr x)"

definition prove_retention ::
  "'b backend_ops \<Rightarrow> int \<Rightarrow> 'b ledger_state \<Rightarrow> dict result \<times> 'b ledger_state"
where
  "prove_retention ops i led =
     (let (r, led') = get_event ops i led
      in (sbind r (\<lambda>e. sbind (inclusion_proof_hex i None led') (\<lambda>p. Inr
           [(''event_id'', JStr (event_id e)),
            (''committed_at'', json_opt (Option.bind (ledger e) ledger_committed_at)),
            (''retention_until'', json_opt (Option.bind (ledger e) ledger_retention_until)),
            (''leaf_index'', JInt i),
            (''inclusion_proof'', JList (map JStr p))])), led'))"

definition ledger_checkpoint ::
  "key_source \<Rightarrow> string \<Rightarrow> string option \<Rightarrow> 'b ledger_state \<Rightarrow> checkpoint result"
where
  "ledger_checkpoint key clock ts led =
     sign_checkpoint key (led_origin led) (ledger_size led) (root_hex led)
       (case ts of None \<Rightarrow> clock | Some t \<Rightarrow> if t = [] then clock else t)"

end
