(* ===== verification/Record_Properties.thy ===== *)
theory Record_Properties imports Signing Retention Merkle begin

text \<open>
  The properties of canonicalisation, timestamps, event records and signed checkpoints:
  what equal bytes mean, that records survive storage as JSON text, which part of an event
  its id and its Merkle leaf bind, and what an accepted signature covers.
\<close>

section \<open>Canonical bytes\<close>

text \<open> C16. Canonical form is exact: for JSON values without duplicate keys, two values have the
  same canonical bytes if and only if they mean the same, where a dictionary means the finite map
  of its non-null members and everything else means itself.\<close>

theorem canonical_bytes_meaning:
  assumes "wf_dicts a" "wf_dicts b" "canonical_bytes a = Inr x" "canonical_bytes b = Inr y"
  shows "x = y \<longleftrightarrow> meaning a = meaning b"
  by (rule canonical_bytes_eq_iff [OF assms])

theorem canonical_bytes_meaning_witness:
  "\<exists>x. canonical_bytes (JDict [(''b'', JInt 1), (''a'', JNull)]) = Inr x
     \<and> canonical_bytes (JDict [(''b'', JInt 1)]) = Inr x"
proof -
  let ?a = "JDict [(''b'', JInt 1), (''a'', JNull)] :: json" and ?b = "JDict [(''b'', JInt 1)] :: json"
  obtain x y where xy: "canonical_bytes ?a = Inr x" "canonical_bytes ?b = Inr y"
    by (simp add: canonical_bytes_of_def canonical_text_def)
  have "meaning ?a = meaning ?b" by (simp add: fun_eq_iff)
  then have "x = y" using canonical_bytes_meaning [OF _ _ xy] by simp
  with xy show ?thesis by blast
qed

text \<open> Canonicalisation fails exactly on the values it must refuse: it returns bytes when no
  float and no non-string key stands under a non-null member, and raises CanonicalizationError
  otherwise; \<open>hash_payload\<close> of a value fails in the same cases.\<close>

theorem canonicalization_error:
  "((\<exists>b. canonical_bytes j = Inr b) \<longleftrightarrow> canonicalizable Some j)
   \<and> (canonical_bytes j = Inl CanonicalizationError \<longleftrightarrow> \<not> canonicalizable Some j)
   \<and> (hash_payload (PValue j) = Inl CanonicalizationError \<longleftrightarrow> \<not> canonicalizable Some j)"
  using canonical_bytes_outcome [of Some j]
  by (cases "canonicalizable Some j") (auto simp: hash_payload_def content_hash_def)

section \<open>Records as text\<close>

lemma good_plain: "good_value j \<Longrightarrow> plain j"
proof -
  have "wf_dicts j \<Longrightarrow> float_free j \<Longrightarrow> plain j"
    by (induction j rule: plain.induct) (auto simp: list_all_iff)
  then show "good_value j \<Longrightarrow> plain j" by (simp add: good_value_def)
qed

lemma event_plain: "wf_event e \<Longrightarrow> plain (JDict (model_dump e))"
  by (rule good_plain [OF good_model_dump])

text \<open> C38. Storage round trip: a well-formed event, dumped to JSON text as the backends write it,
  parsed and validated, is the same event, every optional part, extra and ledger field included.\<close>

theorem event_text_roundtrip:
  assumes "wf_event e"
  shows "sbind (loads (dumps (JDict (model_dump e))))
      (\<lambda>v. case v of JDict d \<Rightarrow> model_validate d | _ \<Rightarrow> Inl ValueError) = Inr e"
  by (simp add: loads_dumps [OF event_plain [OF assms]] model_validate_dump [OF assms])

definition sample_event :: "string \<Rightarrow> compliance_event" where
  "sample_event agent = (bare_event ''2026-01-01T00:00:00.000000000Z'' TOOL_CALL
     (bare_actor agent) (bare_source ''sdk''))\<lparr>attributes := [(''n'', JInt 3)]\<rparr>"

lemma wf_sample_event [simp]: "wf_event (sample_event a)"
proof -
  have "wf_event (bare_event ts k (bare_actor a) (bare_source f))" for ts k f by simp
  then show ?thesis by (simp add: sample_event_def wf_event_def good_value_def bare_event_def)
qed

theorem event_text_roundtrip_witness:
  "sbind (loads (dumps (JDict (model_dump (sample_event ''agent-1'')))))
     (\<lambda>v. case v of JDict d \<Rightarrow> model_validate d | _ \<Rightarrow> Inl ValueError) = Inr (sample_event ''agent-1'')"
  by (rule event_text_roundtrip) simp

section \<open>What an id and a leaf bind\<close>

lemma content_bytes:
  assumes "wf_event e"
  shows "\<exists>b. canonical_bytes (JDict (content_for_id e)) = Inr b \<and> wf_dicts (JDict (content_for_id e))"
    "\<exists>b. leaf_content_bytes e = Inr b \<and> wf_dicts (JDict (leaf_content e))"
  using canonical_good [OF good_content(1) [OF assms]] canonical_good [OF good_content(2) [OF assms]]
    good_content [OF assms]
  unfolding good_value_def leaf_content_bytes_def by blast+

text \<open> C15. The event id is a function of the content alone: it ignores any id or ledger fields the
  event already carries, is a fixed point of \<open>finalize_id\<close>, always exists for a well-formed event,
  and two such events with equal ids have content of equal meaning unless two different byte
  strings with the same 160-bit digest prefix are at hand.\<close>

theorem event_id_binds_content:
  assumes "wf_event e" "wf_event e'" "finalize_id e = Inr f" "finalize_id e' = Inr f'"
  shows "finalize_id (e\<lparr>event_id := i, ledger := l\<rparr>) = Inr (f\<lparr>ledger := l\<rparr>) \<and> finalize_id f = Inr f
    \<and> (event_id f = event_id f' \<longleftrightarrow>
        (meaning (JDict (content_for_id e)) = meaning (JDict (content_for_id e'))
         \<or> (\<exists>x y. canonical_bytes (JDict (content_for_id e)) = Inr x
              \<and> canonical_bytes (JDict (content_for_id e')) = Inr y
              \<and> x \<noteq> y \<and> take 40 (sha256_hex x) = take 40 (sha256_hex y))))"
proof -
  obtain x y where xy: "canonical_bytes (JDict (content_for_id e)) = Inr x"
    "canonical_bytes (JDict (content_for_id e')) = Inr y"
    and wf: "wf_dicts (JDict (content_for_id e))" "wf_dicts (JDict (content_for_id e'))"
    using content_bytes(1) [OF assms(1)] content_bytes(1) [OF assms(2)] by blast
  have f: "f = e\<lparr>event_id := ''evt_'' @ take 40 (sha256_hex x)\<rparr>"
    "f' = e'\<lparr>event_id := ''evt_'' @ take 40 (sha256_hex y)\<rparr>"
    using assms(3,4) xy by (simp_all add: finalize_id_def derive_event_id_def)
  have "finalize_id (e\<lparr>event_id := i, ledger := l\<rparr>) = Inr (f\<lparr>ledger := l\<rparr>)"
    using xy by (simp add: finalize_id_def derive_event_id_def f)
  moreover have "finalize_id f = Inr f" by (rule finalize_id_idem [OF assms(3)])
  ultimately show ?thesis
    using canonical_bytes_eq_iff [OF wf xy] xy by (auto simp: f)
qed

theorem event_id_binds_content_witness:
  "\<exists>f. finalize_id (sample_event ''a'') = Inr f
     \<and> finalize_id (sample_event ''a''\<lparr>event_id := ''x'', ledger := None\<rparr>) = Inr (f\<lparr>ledger := None\<rparr>)"
proof -
  have wf: "wf_event (sample_event ''a'')" by simp
  obtain f where f: "finalize_id (sample_event ''a'') = Inr f" using finalize_id_good [OF wf] by blast
  from event_id_binds_content [OF wf wf f f, where i = "''x''" and l = None] f show ?thesis by blast
qed

text \<open> C14. The Merkle leaf binds the whole event except its ledger fields: the leaf bytes do not
  change when the ledger stamps the event, and two well-formed events with the same leaf hash have
  leaf content of equal meaning, or else the two leaf strings are a SHA-256 collision.\<close>

theorem leaf_binds_event:
  assumes "wf_event e" "wf_event e'" "leaf_content_bytes e = Inr x" "leaf_content_bytes e' = Inr y"
    and "leaf_hash x = leaf_hash y"
  shows "leaf_content_bytes (e\<lparr>ledger := l\<rparr>) = Inr x
    \<and> (meaning (JDict (leaf_content e)) = meaning (JDict (leaf_content e'))
       \<or> (leaf_prefix @ x \<noteq> leaf_prefix @ y \<and> sha256 (leaf_prefix @ x) = sha256 (leaf_prefix @ y)))"
proof -
  have "wf_dicts (JDict (leaf_content e))" "wf_dicts (JDict (leaf_content e'))"
    using content_bytes(2) [OF assms(1)] content_bytes(2) [OF assms(2)] by blast+
  from canonical_bytes_eq_iff [OF this, of x y] assms(3-5)
  show ?thesis by (auto simp: leaf_content_bytes_def leaf_hash_def)
qed

theorem leaf_binds_event_witness:
  "\<exists>x. leaf_content_bytes (sample_event ''a'') = Inr x
     \<and> leaf_content_bytes (sample_event ''a''\<lparr>ledger := None\<rparr>) = Inr x"
proof -
  have wf: "wf_event (sample_event ''a'')" by simp
  obtain x where x: "leaf_content_bytes (sample_event ''a'') = Inr x"
    using content_bytes(2) [OF wf] by blast
  from leaf_binds_event [OF wf wf x x refl, of None] x show ?thesis by blast
qed

section \<open>Time stamps and retention\<close>

text \<open> Stamps sort as time: two nanosecond instants that \<open>to_rfc3339\<close> accepts are printed with
  the same width, and the printed strings compare (as the report windows compare them) exactly as
  the instants do.\<close>

theorem stamp_order:
  assumes "10 ^ 14 < a" "10 ^ 14 < b" "to_rfc3339 (TInt a) = Inr s" "to_rfc3339 (TInt b) = Inr t"
  shows "length s = 30 \<and> length t = 30 \<and> (s < t \<longleftrightarrow> a < b) \<and> (s = t \<longleftrightarrow> a = b)"
proof -
  have ab: "format_ns a = Inr s" "format_ns b = Inr t" using assms by (simp_all add: to_rfc3339_def)
  note lt = format_ns_less(2) [OF ab] format_ns_less(2) [OF ab(2,1)]
  have "a = b \<Longrightarrow> s = t" using ab by simp
  then have "(s < t \<longleftrightarrow> a < b) \<and> (s = t \<longleftrightarrow> a = b)" using lt
    by (metis linorder_less_linear order_less_imp_not_less)
  then show ?thesis using format_ns_less(1) [OF ab] format_ns_less(1) [OF ab(2,1)] by simp
qed

theorem stamp_order_witness:
  "\<exists>s t. to_rfc3339 (TInt 1767225600000000001) = Inr s \<and> to_rfc3339 (TInt 1767225600000000002) = Inr t
     \<and> s < t"
proof -
  have ok: "in_years (1767225600000000001 div 1000000000 div 86400 + epoch_ordinal)"
    "in_years (1767225600000000002 div 1000000000 div 86400 + epoch_ordinal)"
    by (simp_all add: in_years_def epoch_ordinal_def)
  obtain s where s: "to_rfc3339 (TInt 1767225600000000001) = Inr s"
    using ok(1) by (simp add: to_rfc3339_def format_ns_def Let_def)
  obtain t where t: "to_rfc3339 (TInt 1767225600000000002) = Inr t"
    using ok(2) by (simp add: to_rfc3339_def format_ns_def Let_def)
  from stamp_order [OF _ _ s t] s t show ?thesis by simp
qed

text \<open> Retention is exact: for a commit stamp printed from an instant, the retention deadline
  that is computed through text is the stamp of the instant (in whole microseconds) plus the
  retention period, and it exists whenever that instant lies in the years 1 to 9999.\<close>

theorem retention_exact:
  assumes "10 ^ 14 < ns" "to_rfc3339 (TInt ns) = Inr s"
    and "in_years ((ns div 1000 + period) div day_micros + epoch_ordinal)"
  shows "\<exists>r. retention_until s period = Inr r \<and> format_ns ((ns div 1000 + period) * 1000) = Inr r"
proof -
  have s: "format_ns ns = Inr s" using assms(1,2) by (simp add: to_rfc3339_def)
  obtain r where r: "retention_until s period = Inr r" using retention_until_total [OF s assms(3)] by blast
  with retention_until_clock [OF s r] show ?thesis by blast
qed

theorem retention_exact_witness:
  "\<exists>s r. to_rfc3339 (TInt 1767225600000000001) = Inr s
     \<and> retention_until s (10 * day_micros) = Inr r"
proof -
  have ok: "in_years (1767225600000000001 div 1000000000 div 86400 + epoch_ordinal)"
    by (simp_all add: in_years_def epoch_ordinal_def)
  obtain s where s: "to_rfc3339 (TInt 1767225600000000001) = Inr s"
    using ok by (simp add: to_rfc3339_def format_ns_def Let_def)
  from retention_exact [OF _ s, of "10 * day_micros"] s show ?thesis
    by (auto simp: in_years_def epoch_ordinal_def day_micros_def)
qed

section \<open>Checkpoints\<close>

text \<open> Signing a tree head always succeeds, records exactly the given origin, size, root and
  time, and the checkpoint verifies under the signer's key whenever the signature scheme accepts
  what it signs.\<close>

theorem sign_then_verify:
  assumes "\<forall>d. ed (ks_public_key_raw key) (ks_sign key d) d = Valid"
  shows "\<exists>cp. sign_checkpoint key org n root ts = Inr cp
    \<and> (cp_origin cp, cp_tree_size cp, cp_root_hash cp, cp_timestamp cp) = (org, n, root, ts)
    \<and> cp_verify ed cp (ks_public_key_raw key) = Inr True
    \<and> load_checkpoint (dump_checkpoint cp) = Inr cp"
proof -
  obtain cp where cp: "sign_checkpoint key org n root ts = Inr cp" using sign_checkpoint_total by blast
  have "cp_extra cp = []" using cp by (auto simp: sign_checkpoint_def sbind_Inr_conv)
  then have "load_checkpoint (dump_checkpoint cp) = Inr cp"
    by (intro load_dump_checkpoint) (simp add: good_extras_def)
  with cp sign_checkpoint_fields [OF cp] sign_checkpoint_verifies [of ed key, OF _ cp] assms
  show ?thesis by auto
qed

definition echo_key :: key_source where
  "echo_key = \<lparr>ks_sign = (\<lambda>d. d), ks_public_key_raw = [1, 2, 3]\<rparr>"

definition echo_check :: ed_check where
  "echo_check pub sig d = (if sig = d then Valid else InvalidSignature)"

theorem sign_then_verify_witness:
  "\<exists>cp. sign_checkpoint echo_key ''o'' 3 ''ab'' ''t'' = Inr cp
     \<and> cp_verify echo_check cp (ks_public_key_raw echo_key) = Inr True"
  using sign_then_verify [of echo_check echo_key "''o''" 3 "''ab''" "''t''"]
  by (auto simp: echo_check_def echo_key_def)

text \<open> An accepted checkpoint is covered by the signature in full: verification succeeds only
  if the key id matches and the signature check accepts the bytes of origin, size, root and time,
  and those bytes determine all four, so that changing any one changes what must have been signed.\<close>

theorem checkpoint_tamper_evident:
  assumes "cp_verify ed cp pub = Inr True"
  shows "key_id_for pub = cp_public_key_id cp
    \<and> (\<exists>sig data. b64decode (cp_signature cp) = Inr sig \<and> cp_signing_bytes cp = Inr data
        \<and> ed pub sig data = Valid)
    \<and> (cp_signing_bytes cp = cp_signing_bytes cp' \<longleftrightarrow>
        (cp_origin cp, cp_tree_size cp, cp_root_hash cp, cp_timestamp cp)
          = (cp_origin cp', cp_tree_size cp', cp_root_hash cp', cp_timestamp cp'))"
proof -
  have "verify_signature ed pub sig d \<longleftrightarrow> ed pub sig d = Valid" for sig d
    by (cases "ed pub sig d") (simp_all add: verify_signature_def)
  with assms show ?thesis
    by (auto simp: cp_verify_def sbind_Inr_conv cp_signing_bytes_def
        checkpoint_signing_bytes_inject split: if_splits sum.splits)
qed

theorem checkpoint_tamper_evident_witness:
  "\<exists>cp data. cp_verify echo_check cp [1, 2, 3] = Inr True \<and> cp_signing_bytes cp = Inr data
     \<and> cp_signing_bytes (cp\<lparr>cp_tree_size := cp_tree_size cp + 1\<rparr>) \<noteq> Inr data"
proof -
  obtain cp where cp: "sign_checkpoint echo_key ''o'' 3 ''ab'' ''t'' = Inr cp"
    using sign_checkpoint_total by blast
  have ok: "cp_verify echo_check cp [1, 2, 3] = Inr True"
    using sign_checkpoint_verifies [of echo_check echo_key, OF _ cp]
    by (simp add: echo_check_def echo_key_def)
  from checkpoint_tamper_evident [OF ok, of "cp\<lparr>cp_tree_size := cp_tree_size cp + 1\<rparr>"]
  show ?thesis using ok by fastforce
qed

end
