(* ===== verification/Ledger_Laws.thy ===== *)
theory Ledger_Laws imports Ledger Record_Properties begin

text \<open>
  The ledger invariant and what every operation does to it, proved once for any backend that
  satisfies the contract \<open>ledger_backend\<close>: the backend holds the dumps of the committed events, the
  leaves are their hashes in order, and the frontier tree is the tree of those leaves.
\<close>

section \<open>The invariant\<close>

definition committed :: "compliance_event \<Rightarrow> nat \<Rightarrow> bytes \<Rightarrow> bool" where
  "committed e i h \<longleftrightarrow> wf_event e \<and> finalize_id e = Inr e
     \<and> (\<exists>b. leaf_content_bytes e = Inr b \<and> h = leaf_hash b)
     \<and> (\<exists>l. ledger e = Some l \<and> ledger_leaf_hash l = Some (''sha256:'' @ hex h)
          \<and> ledger_leaf_index l = Some (int i))"

definition log_of :: "compliance_event list \<Rightarrow> bytes list \<Rightarrow> bool" where
  "log_of es hs \<longleftrightarrow> length hs = length es \<and> (\<forall>i < length es. committed (es ! i) i (hs ! i))"

definition ledger_ok ::
  "('b \<Rightarrow> dict list \<Rightarrow> bool) \<Rightarrow> 'b ledger_state \<Rightarrow> compliance_event list \<Rightarrow> bool"
where
  "ledger_ok holds led es \<longleftrightarrow> holds (led_backend led) (map model_dump es)
     \<and> log_of es (led_leaves led) \<and> led_tree led = from_leaves (led_leaves led)"

lemma log_of_snoc: "log_of es hs \<Longrightarrow> committed e (length es) h \<Longrightarrow> log_of (es @ [e]) (hs @ [h])"
  by (auto simp: log_of_def nth_append less_Suc_eq)

lemma log_of_leaf_32: "log_of es hs \<Longrightarrow> digests hs"
  by (fastforce simp: log_of_def committed_def digests_def in_set_conv_nth)

lemma from_leaves_snoc: "from_leaves (hs @ [h]) = append_leaf h (from_leaves hs)"
  by (simp add: from_leaves_def)

lemma from_leaves_root: "tree_root (from_leaves hs) = tree_hash hs"
  by (rule stands_for_root [OF from_leaves_stands])

section \<open>One event\<close>

lemma colon_free_hex: "CHR '':'' \<notin> set (hex bs)"
  by (auto dest: set_hex simp: hex_digits_def)

lemma map_of_opt_field: "map_of (opt_field k (Some v) @ r) k = Some v"
  by (simp add: opt_field_def)

lemma finalize_id_ledger: "finalize_id e = Inr f \<Longrightarrow> finalize_id (e\<lparr>ledger := l\<rparr>) = Inr (f\<lparr>ledger := l\<rparr>)"
  by (auto simp: finalize_id_def derive_event_id_def sbind_Inr_conv)

lemma leaf_bytes_from_dump:
  assumes "committed e i h"
  shows "leaf_bytes_from_record (JDict (model_dump e)) = Inr h"
proof -
  obtain l where l: "ledger e = Some l" "ledger_leaf_hash l = Some (''sha256:'' @ hex h)"
    using assms by (auto simp: committed_def)
  have "map_of (dump_ledger_fields l) ''leaf_hash'' = Some (JStr (''sha256:'' @ hex h))"
    using l by (simp add: dump_ledger_fields_def field_laws opt_field_def)
  moreover have "map_of (model_dump e) ''ledger'' = Some (JDict (dump_ledger_fields l))"
    using l(1) unfolding model_dump_def
    by (simp add: field_laws map_of_opt_field del: append.simps append_Cons append_Nil map_of_append)
  moreover have "last (split_at (CHR '':'') (''sha256:'' @ hex h)) = hex h"
    using split_at_snoc [OF colon_free_hex, of "''sha256''" h] by simp
  ultimately show ?thesis by (simp add: leaf_bytes_from_record_def dget_or_def)
qed

lemma stamp_committed:
  assumes "wf_event e" "prepare_commit retention clk e = Inr p"
  shows "committed (stamp p (int i)) i (prep_leaf p)"
proof -
  obtain e' b where p: "finalize_id e = Inr e'" "leaf_content_bytes e' = Inr b"
    "prep_event p = e'" "prep_leaf p = leaf_hash b"
    using assms(2) by (auto simp: prepare_commit_def sbind_Inr_conv)
  have e': "\<exists>x. e' = e\<lparr>event_id := x\<rparr>" using p(1) by (auto simp: finalize_id_def sbind_Inr_conv)
  then have "wf_event e'" using assms(1) by auto
  then have "wf_event (stamp p (int i))"
    by (simp add: stamp_def p(3) wf_event_def wf_ledger_fields_def good_extras_def good_value_def)
  moreover have "finalize_id (stamp p (int i)) = Inr (stamp p (int i))"
    unfolding stamp_def p(3) by (rule finalize_id_ledger [OF finalize_id_idem [OF p(1)]])
  moreover have "leaf_content_bytes (stamp p (int i)) = Inr b"
    using p by (simp add: leaf_content_bytes_def stamp_def)
  ultimately show ?thesis using p(4) by (simp add: committed_def stamp_def)
qed

lemma prepare_total:
  assumes "wf_event e"
    and "case retention of None \<Rightarrow> True | Some period \<Rightarrow> \<exists>r. retention_until clk period = Inr r"
  shows "\<exists>p. prepare_commit retention clk e = Inr p"
proof -
  obtain i where i: "finalize_id e = Inr (e\<lparr>event_id := i\<rparr>)"
    using finalize_id_good [OF assms(1)] by blast
  have "wf_event (e\<lparr>event_id := i\<rparr>)" using assms(1) by simp
  from canonical_good [OF good_content(1) [OF this]] obtain b
    where "leaf_content_bytes (e\<lparr>event_id := i\<rparr>) = Inr b" by (auto simp: leaf_content_bytes_def)
  with i assms(2) show ?thesis by (auto simp: prepare_commit_def split: option.splits)
qed

lemma wf_correction_event [simp]: "wf_event (correction_event ts target reason who)"
proof -
  have "wf_event (bare_event ts CORRECTION (bare_actor who) (bare_source ''sdk''))" by simp
  then show ?thesis by (simp add: correction_event_def wf_event_def good_value_def bare_event_def)
qed

section \<open>Runs\<close>

text \<open>What can happen to an open ledger: commits (a correction is one) and reads.\<close>

inductive ledger_run ::
  "'b backend_ops \<Rightarrow> 'b ledger_state \<Rightarrow> compliance_event list \<Rightarrow> 'b ledger_state \<Rightarrow> bool"
  for ops :: "'b backend_ops" and led :: "'b ledger_state"
where
  run_start: "ledger_run ops led [] led"
| run_commit: "ledger_run ops led es led' \<Longrightarrow> wf_event e \<Longrightarrow> commit ops clk e led' = Inr (e', led'') \<Longrightarrow>
    ledger_run ops led (es @ [e']) led''"
| run_read: "ledger_run ops led es led' \<Longrightarrow> ledger_run ops led es (snd (get_event ops i led'))"

lemma py_take_nat [simp]: "py_take (int n) xs = take n xs"
  by (simp add: py_take_def)

lemma ledger_root_ok: "ledger_ok holds led es \<Longrightarrow> ledger_root led = tree_hash (led_leaves led)"
  by (simp add: ledger_ok_def ledger_root_def from_leaves_root)

lemma ledger_size_ok: "ledger_ok holds led es \<Longrightarrow> ledger_size led = int (length es)"
  by (simp add: ledger_ok_def ledger_size_def log_of_def)

lemma pinned_inclusion:
  assumes "ledger_ok holds led es" "i < n" "n \<le> length es"
  shows "\<exists>p. inclusion_proof_hex (int i) (Some (int n)) led = Inr (map hex p)
    \<and> verify_inclusion (int i) (int n) (led_leaves led ! i) p (tree_hash (take n (led_leaves led)))"
proof -
  have len: "length (take n (led_leaves led)) = n"
    using assms(1,3) by (simp add: ledger_ok_def log_of_def)
  with assms(2) have i: "i < length (take n (led_leaves led))" by simp
  obtain p where "inclusion_proof (take n (led_leaves led)) (int i) = Inr p"
    "verify_inclusion (int i) (int n) (led_leaves led ! i) p (tree_hash (take n (led_leaves led)))"
    using generated_inclusion_verifies [OF i] assms(2) unfolding len by auto
  then show ?thesis by (auto simp: inclusion_proof_hex_def pinned_leaves_def)
qed

lemma pinned_consistency:
  assumes "ledger_ok holds led es" "0 < m" "m \<le> n" "n \<le> length es"
  shows "\<exists>p. consistency_proof_hex (int m) (Some (int n)) led = Inr (map hex p)
    \<and> verify_consistency (int m) (int n) (tree_hash (take m (led_leaves led)))
        (tree_hash (take n (led_leaves led))) p"
proof -
  have len: "length (take n (led_leaves led)) = n"
    using assms(1,4) by (simp add: ledger_ok_def log_of_def)
  with assms(3) have m: "m \<le> length (take n (led_leaves led))" by simp
  obtain p where "consistency_proof (take n (led_leaves led)) (int m) = Inr p"
    "verify_consistency (int m) (int n) (tree_hash (take m (led_leaves led)))
       (tree_hash (take n (led_leaves led))) p"
    using generated_consistency_verifies [OF assms(2) m] assms(3) unfolding len
    by (auto simp: min_def)
  then show ?thesis by (auto simp: consistency_proof_hex_def pinned_leaves_def)
qed

section \<open>Any backend that keeps the contract\<close>

context ledger_backend
begin

abbreviation ops :: "'b backend_ops" where
  "ops \<equiv> \<lparr>append_op = append_record, size_op = size_of, iter_op = iter_records, get_op = get_record\<rparr>"

lemma install_ok:
  assumes "ledger_ok holds led es" "wf_event e" "prepare_commit retention clk e = Inr p"
    and "install_commit ops p led = (e', led')"
  shows "ledger_ok holds led' (es @ [e'])" "e' = stamp p (int (length es))"
    "led_leaves led' = led_leaves led @ [prep_leaf p]"
    "led_origin led' = led_origin led" "led_retention led' = led_retention led"
proof -
  have "size_of (led_backend led) = int (length es)"
    using assms(1) size_holds by (fastforce simp: ledger_ok_def)
  with assms(4) show e': "e' = stamp p (int (length es))"
    "led_leaves led' = led_leaves led @ [prep_leaf p]"
    "led_origin led' = led_origin led" "led_retention led' = led_retention led"
    by (auto simp: install_commit_def Let_def)
  have c: "committed e' (length es) (prep_leaf p)"
    unfolding e' by (rule stamp_committed [OF assms(2,3)])
  then have "plain (JDict (model_dump e'))"
    by (simp add: committed_def event_plain del: plain.simps)
  with assms(1) have "holds (append_record (model_dump e') (led_backend led)) (map model_dump (es @ [e']))"
    using append_holds by (simp add: ledger_ok_def)
  with assms(1,4) log_of_snoc [OF _ c] show "ledger_ok holds led' (es @ [e'])"
    by (auto simp: ledger_ok_def install_commit_def Let_def from_leaves_snoc)
qed

lemma commit_ok:
  assumes "ledger_ok holds led es" "wf_event e" "commit ops clk e led = Inr (e', led')"
  shows "ledger_ok holds led' (es @ [e']) \<and> take (length es) (led_leaves led') = led_leaves led
    \<and> led_origin led' = led_origin led \<and> led_retention led' = led_retention led"
proof -
  obtain p where p: "prepare_commit (led_retention led) clk e = Inr p" "install_commit ops p led = (e', led')"
    using assms(3) by (auto simp: commit_def sbind_Inr_conv)
  have "length (led_leaves led) = length es" using assms(1) by (simp add: ledger_ok_def log_of_def)
  with install_ok [OF assms(1,2) p] show ?thesis by simp
qed

lemma commit_total:
  assumes "wf_event e"
    and "case led_retention led of None \<Rightarrow> True | Some period \<Rightarrow> \<exists>r. retention_until clk period = Inr r"
  shows "\<exists>e' led'. commit ops clk e led = Inr (e', led')"
  using prepare_total [OF assms] by (auto simp: commit_def)

lemma get_event_ok:
  assumes "ledger_ok holds led es"
  shows "i < length es \<Longrightarrow> fst (get_event ops (int i) led) = Inr (es ! i)"
    and "length es \<le> i \<Longrightarrow> fst (get_event ops (int i) led) = Inl IndexError"
    and "ledger_ok holds (snd (get_event ops j led)) es"
proof -
  have h: "holds (led_backend led) (map model_dump es)" and log: "log_of es (led_leaves led)"
    using assms by (simp_all add: ledger_ok_def)
  show "fst (get_event ops (int i) led) = Inr (es ! i)" if "i < length es"
  proof -
    have "wf_event (es ! i)" using log that by (simp add: log_of_def committed_def)
    with get_holds [OF h, of i] that show ?thesis
      by (simp add: get_event_def validate_record_def model_validate_dump split_beta)
  qed
  show "fst (get_event ops (int i) led) = Inl IndexError" if "length es \<le> i"
    using get_beyond [OF h, of i] that by (simp add: get_event_def split_beta)
  show "ledger_ok holds (snd (get_event ops j led)) es"
    using assms get_keeps [OF h, of j] by (simp add: ledger_ok_def get_event_def split_beta)
qed

lemma events_ok:
  assumes "ledger_ok holds led es"
  shows "events ops led = Inr es"
proof -
  have "iter_records (led_backend led) = Inr (map JDict (map model_dump es))"
    using assms iter_holds by (auto simp: ledger_ok_def)
  moreover have "\<forall>e \<in> set es. wf_event e"
    using assms by (auto simp: ledger_ok_def log_of_def committed_def in_set_conv_nth)
  then have "map_result validate_record (map JDict (map model_dump es)) = Inr es"
    by (induction es) (simp_all add: validate_record_def model_validate_dump)
  ultimately show ?thesis by (simp add: events_def)
qed

lemma reopen_ok:
  assumes "holds b (map model_dump es)" "log_of es hs"
  shows "open_ledger ops b origin retention = Inr \<lparr>led_backend = b, led_origin = origin,
    led_retention = retention, led_leaves = hs, led_tree = from_leaves hs\<rparr>"
proof -
  have "map_result leaf_bytes_from_record (map JDict (map model_dump es)) = Inr hs"
    using assms(2)
  proof (induction es arbitrary: hs rule: rev_induct)
    case (snoc e es)
    obtain hs' h where hs: "hs = hs' @ [h]" "length hs' = length es"
      using snoc.prems by (cases hs rule: rev_cases) (auto simp: log_of_def)
    have "log_of es hs'" "committed e (length es) h"
      using snoc.prems by (auto simp: log_of_def hs(1) nth_append split: if_splits)
    with snoc.IH show ?case
      by (simp add: map_result_append leaf_bytes_from_dump hs(1))
  qed (simp add: log_of_def)
  then show ?thesis using iter_holds [OF assms(1)] by (simp add: open_ledger_def)
qed

lemma run_ok:
  assumes "ledger_run ops led es led'" "ledger_ok holds led es0"
  shows "ledger_ok holds led' (es0 @ es) \<and> led_origin led' = led_origin led
    \<and> take (length es0) (led_leaves led') = led_leaves led"
  using assms
proof (induction rule: ledger_run.induct)
  case run_start
  then show ?case by (simp add: ledger_ok_def log_of_def)
next
  case (run_commit es led' e clk e' led'')
  then have ih: "ledger_ok holds led' (es0 @ es)" "led_origin led' = led_origin led"
    "take (length es0) (led_leaves led') = led_leaves led" by simp_all
  from commit_ok [OF ih(1) run_commit.hyps(2,3)]
  have c: "ledger_ok holds led'' (es0 @ es @ [e'])" "led_origin led'' = led_origin led'"
    "take (length es0 + length es) (led_leaves led'') = led_leaves led'" by simp_all
  have "take (length es0) (led_leaves led'') = take (length es0) (led_leaves led')"
    unfolding c(3) [symmetric] by simp
  with c ih show ?case by simp
next
  case (run_read es led' i)
  then show ?case using get_event_ok(3) [of led' "es0 @ es" i]
    by (simp add: get_event_def split_beta)
qed

end

end
