(* ===== verification/Sharded.thy ===== *)
theory Sharded imports Ledger_Laws begin

text \<open>
  \<open>ShardedLedger\<close> of \<open>src/src/openwright/ledger.py\<close>: single-writer shards, events routed by a hash of
  the agent id, one checkpoint over the super-tree of the shard roots, and inclusion proofs
  pinned to the sizes and roots the checkpoint lists.
\<close>

section \<open>The sharded ledger\<close>

record 'b sharded =
  sh_shards :: "'b ledger_state list"
  sh_origin :: string

definition open_sharded :: "'b ledger_state list \<Rightarrow> string \<Rightarrow> 'b sharded result" where
  "open_sharded shards origin =
     (if shards = [] then Inl ValueError else Inr \<lparr>sh_shards = shards, sh_origin = origin\<rparr>)"

definition int_from_bytes :: "bytes \<Rightarrow> int" where
  "int_from_bytes bs = foldl (\<lambda>acc b. acc * 256 + uint b) 0 bs"

definition default_route :: "'b sharded \<Rightarrow> compliance_event \<Rightarrow> int" where
  "default_route sh e =
     int_from_bytes (take 8 (sha256 (encode_utf8 (actor_agent_id (actor e))))) mod int (length (sh_shards sh))"

definition py_position :: "int \<Rightarrow> 'a list \<Rightarrow> nat" where
  "py_position i xs = nat (if i < 0 then i + int (length xs) else i)"

definition shard_commit ::
  "'b backend_ops \<Rightarrow> (compliance_event \<Rightarrow> int) \<Rightarrow> string \<Rightarrow> compliance_event \<Rightarrow> int option \<Rightarrow>
    'b sharded \<Rightarrow> (int \<times> compliance_event \<times> 'b sharded) result"
where
  "shard_commit ops route committed_at e shard sh =
     (let s = (case shard of Some i \<Rightarrow> i | None \<Rightarrow> route e)
      in sbind (py_index (sh_shards sh) s) (\<lambda>led.
         sbind (commit ops committed_at e led) (\<lambda>(e', led').
           Inr (s, e', sh\<lparr>sh_shards := (sh_shards sh)[py_position s (sh_shards sh) := led']\<rparr>))))"

definition shard_roots :: "'b sharded \<Rightarrow> bytes list" where
  "shard_roots sh = map ledger_root (sh_shards sh)"

definition super_root :: "'b sharded \<Rightarrow> bytes" where
  "super_root sh = shard_super_root (shard_roots sh)"

definition super_root_hex :: "'b sharded \<Rightarrow> string" where
  "super_root_hex sh = hex (super_root sh)"

definition total_size :: "'b sharded \<Rightarrow> int" where
  "total_size sh = sum_list (map ledger_size (sh_shards sh))"

definition shard_entry :: "nat \<Rightarrow> int \<times> bytes \<Rightarrow> json" where
  "shard_entry i snap = JDict [(''index'', JInt (int i)), (''size'', JInt (fst snap)),
     (''root'', JStr (hex (snd snap)))]"

definition sharded_checkpoint ::
  "key_source \<Rightarrow> string \<Rightarrow> string option \<Rightarrow> 'b sharded \<Rightarrow> checkpoint result"
where
  "sharded_checkpoint key clock ts sh =
     (let snap = map (\<lambda>s. (ledger_size s, ledger_root s)) (sh_shards sh);
          super = shard_super_root (map snd snap); total = sum_list (map fst snap)
      in sbind (sign_checkpoint key (sh_origin sh) total (hex super)
           (case ts of None \<Rightarrow> clock | Some t \<Rightarrow> if t = [] then clock else t)) (\<lambda>cp.
         Inr (cp\<lparr>cp_extra := dput ''shards''
           (JList (map (\<lambda>(i, x). shard_entry i x) (zip [0..<length snap] snap))) (cp_extra cp)\<rparr>)))"

section \<open>Proofs pinned to a checkpoint\<close>

record sharded_proof =
  sp_shard_index :: int
  sp_num_shards :: int
  sp_leaf_index :: int
  sp_shard_size :: json
  sp_shard_root :: string
  sp_shard_proof :: "string list"
  sp_super_proof :: "string list"

text \<open>\<open>{s["index"]: s for s in checkpoint.shards}\<close>\<close>

fun shard_meta :: "json list \<Rightarrow> (json \<times> dict) list result" where
  "shard_meta [] = Inr []"
| "shard_meta (v # vs) = (case v of
     JDict d \<Rightarrow> (case map_of d ''index'' of
        None \<Rightarrow> Inl KeyError
      | Some k \<Rightarrow> if hashable k then sbind (shard_meta vs) (\<lambda>m. Inr ((k, d) # m)) else Inl TypeError)
   | _ \<Rightarrow> Inl TypeError)"

definition meta_at :: "(json \<times> dict) list \<Rightarrow> int \<Rightarrow> dict result" where
  "meta_at meta i = (case find (\<lambda>(k, d). py_eq (JInt i) k) (rev meta) of
     None \<Rightarrow> Inl KeyError
   | Some (k, d) \<Rightarrow> Inr d)"

definition meta_root :: "(json \<times> dict) list \<Rightarrow> int \<Rightarrow> bytes result" where
  "meta_root meta i = sbind (meta_at meta i) (\<lambda>d. case map_of d ''root'' of
     None \<Rightarrow> Inl KeyError
   | Some (JStr s) \<Rightarrow> fromhex s
   | _ \<Rightarrow> Inl TypeError)"

definition meta_size :: "(json \<times> dict) list \<Rightarrow> int \<Rightarrow> json result" where
  "meta_size meta i = sbind (meta_at meta i) (\<lambda>d. case map_of d ''size'' of
     None \<Rightarrow> Inl KeyError
   | Some v \<Rightarrow> Inr v)"

text \<open>The bound of a slice: None means no bound.\<close>

definition slice_bound :: "json \<Rightarrow> int option result" where
  "slice_bound v = (case v of
     JNull \<Rightarrow> Inr None
   | JInt n \<Rightarrow> Inr (Some n)
   | JBool b \<Rightarrow> Inr (Some (if b then 1 else 0))
   | _ \<Rightarrow> Inl TypeError)"

definition proof_roots :: "checkpoint option \<Rightarrow> int \<Rightarrow> 'b sharded \<Rightarrow> (bytes list \<times> json) result" where
  "proof_roots cp shard sh = (case cp of
     Some c \<Rightarrow>
       (case map_of (cp_extra c) ''shards'' of
          None \<Rightarrow> Inl AttributeError
        | Some (JList vs) \<Rightarrow>
            sbind (shard_meta vs) (\<lambda>meta.
            sbind (map_result (\<lambda>i. meta_root meta (int i)) [0..<length (sh_shards sh)]) (\<lambda>roots.
            sbind (meta_size meta shard) (\<lambda>n. Inr (roots, n))))
        | _ \<Rightarrow> Inl TypeError)
   | None \<Rightarrow>
       sbind (py_index (sh_shards sh) shard) (\<lambda>led. Inr (shard_roots sh, JInt (ledger_size led))))"

definition sharded_inclusion_proof ::
  "int \<Rightarrow> int \<Rightarrow> checkpoint option \<Rightarrow> 'b sharded \<Rightarrow> sharded_proof result"
where
  "sharded_inclusion_proof shard i cp sh =
     sbind (proof_roots cp shard sh) (\<lambda>(roots, shard_size).
     sbind (py_index roots shard) (\<lambda>root.
     sbind (py_index (sh_shards sh) shard) (\<lambda>led.
     sbind (slice_bound shard_size) (\<lambda>bound.
     sbind (inclusion_proof_hex i bound led) (\<lambda>shard_proof.
     sbind (shard_super_proof roots shard) (\<lambda>super_proof.
       Inr \<lparr>sp_shard_index = shard, sp_num_shards = int (length (sh_shards sh)), sp_leaf_index = i,
         sp_shard_size = shard_size, sp_shard_root = hex root, sp_shard_proof = shard_proof,
         sp_super_proof = map hex super_proof\<rparr>))))))"

section \<open>Routing\<close>

lemma default_route_range:
  "sh_shards sh \<noteq> [] \<Longrightarrow> 0 \<le> default_route sh e \<and> default_route sh e < int (length (sh_shards sh))"
  by (simp add: default_route_def)

lemma default_route_agent:
  "actor_agent_id (actor e) = actor_agent_id (actor e') \<Longrightarrow> default_route sh e = default_route sh e'"
  by (simp add: default_route_def)

section \<open>The snapshot in the checkpoint\<close>

definition snapshot :: "'b sharded \<Rightarrow> (int \<times> bytes) list" where
  "snapshot sh = map (\<lambda>s. (ledger_size s, ledger_root s)) (sh_shards sh)"

definition snapshot_entries :: "nat \<Rightarrow> (int \<times> bytes) list \<Rightarrow> json list" where
  "snapshot_entries n snap = map (\<lambda>(i, x). shard_entry i x) (zip [n..<n + length snap] snap)"

definition entry_dict :: "nat \<Rightarrow> int \<times> bytes \<Rightarrow> dict" where
  "entry_dict i x = [(''index'', JInt (int i)), (''size'', JInt (fst x)), (''root'', JStr (hex (snd x)))]"

lemma snapshot_entries_simps [simp]:
  "snapshot_entries n [] = []"
  "snapshot_entries n (x # xs) = shard_entry n x # snapshot_entries (Suc n) xs"
  by (simp_all add: snapshot_entries_def upt_rec)

lemma shard_meta_snapshot:
  "shard_meta (snapshot_entries n snap) =
    Inr (map (\<lambda>(i, x). (JInt (int i), entry_dict i x)) (zip [n..<n + length snap] snap))"
  by (induction snap arbitrary: n) (simp_all add: shard_entry_def entry_dict_def hashable_def upt_rec)

lemma meta_at_snapshot:
  assumes "i < length snap"
  shows "meta_at (map (\<lambda>(i, x). (JInt (int i), entry_dict i x)) (zip [0..<length snap] snap)) (int i) =
    Inr (entry_dict i (snap ! i))"
  using assms
proof (induction snap rule: rev_induct)
  case (snoc x snap)
  then show ?case by (cases "i = length snap") (auto simp: meta_at_def nth_append simp del: py_eq.simps)
qed simp

lemma sharded_checkpoint_fields:
  assumes "sharded_checkpoint key clock ts sh = Inr cp"
  shows "cp_root_hash cp = super_root_hex sh" "cp_tree_size cp = total_size sh"
    "map_of (cp_extra cp) ''shards'' = Some (JList (snapshot_entries 0 (snapshot sh)))"
proof -
  obtain cp0 where cp0: "sign_checkpoint key (sh_origin sh) (total_size sh) (super_root_hex sh)
      (case ts of None \<Rightarrow> clock | Some t \<Rightarrow> if t = [] then clock else t) = Inr cp0"
    "cp = cp0\<lparr>cp_extra := dput ''shards'' (JList (snapshot_entries 0 (snapshot sh))) (cp_extra cp0)\<rparr>"
    using assms
    by (auto simp: sharded_checkpoint_def Let_def sbind_Inr_conv snapshot_def comp_def total_size_def
        super_root_hex_def super_root_def shard_roots_def snapshot_entries_def)
  show "cp_root_hash cp = super_root_hex sh" "cp_tree_size cp = total_size sh"
    using sign_checkpoint_fields [OF cp0(1)] by (simp_all add: cp0(2))
  show "map_of (cp_extra cp) ''shards'' = Some (JList (snapshot_entries 0 (snapshot sh)))"
    by (simp add: cp0(2) dput_def update_conv')
qed

lemma map_result_const:
  "\<forall>i < n. f i = Inr (g i) \<Longrightarrow> map_result f [0..<n] = Inr (map g [0..<n])"
  by (induction n) (simp_all add: map_result_append)

lemma proof_roots_pinned:
  assumes "sharded_checkpoint key clock ts sh = Inr cp" "length (sh_shards sh') = length (sh_shards sh)"
    and "k < length (sh_shards sh)"
  shows "proof_roots (Some cp) (int k) sh' = Inr (shard_roots sh, JInt (ledger_size (sh_shards sh ! k)))"
proof -
  let ?meta = "map (\<lambda>(i, x). (JInt (int i), entry_dict i x)) (zip [0..<length (snapshot sh)] (snapshot sh))"
  have len: "length (snapshot sh) = length (sh_shards sh)" by (simp add: snapshot_def)
  have nth: "snapshot sh ! i = (ledger_size (sh_shards sh ! i), ledger_root (sh_shards sh ! i))"
    if "i < length (sh_shards sh)" for i using that by (simp add: snapshot_def)
  have roots: "map (\<lambda>i. ledger_root (sh_shards sh ! i)) [0..<length (sh_shards sh)] = shard_roots sh"
    by (rule nth_equalityI) (simp_all add: shard_roots_def)
  have "meta_root ?meta (int i) = Inr (ledger_root (sh_shards sh ! i))" if "i < length (sh_shards sh)" for i
    using meta_at_snapshot [of i "snapshot sh"] that nth [OF that]
    by (simp add: meta_root_def len entry_dict_def)
  then have "map_result (\<lambda>i. meta_root ?meta (int i)) [0..<length (sh_shards sh')] = Inr (shard_roots sh)"
    using map_result_const [of "length (sh_shards sh)" _ "\<lambda>i. ledger_root (sh_shards sh ! i)"] assms(2)
    by (simp add: roots)
  moreover have "meta_size ?meta (int k) = Inr (JInt (ledger_size (sh_shards sh ! k)))"
    using meta_at_snapshot [of k "snapshot sh"] assms(3) nth [OF assms(3)]
    by (simp add: meta_size_def len entry_dict_def)
  moreover have "shard_meta (snapshot_entries 0 (snapshot sh)) = Inr ?meta"
    using shard_meta_snapshot [of 0 "snapshot sh"] by simp
  ultimately show ?thesis
    using sharded_checkpoint_fields(3) [OF assms(1)] by (simp add: proof_roots_def)
qed

text \<open>A shard's pinned proof verifies against the signed super-root, whatever was appended since.\<close>

lemma sharded_pinned_proof:
  assumes "sharded_checkpoint key clock ts sh = Inr cp" "length (sh_shards sh') = length (sh_shards sh)"
    and "k < length (sh_shards sh)"
    and "ledger_ok holds (sh_shards sh ! k) es" "ledger_ok holds' (sh_shards sh' ! k) es'"
    and "take (length es) (led_leaves (sh_shards sh' ! k)) = led_leaves (sh_shards sh ! k)"
    and "length es \<le> length es'" "i < length es"
  shows "\<exists>pf p q. sharded_inclusion_proof (int k) (int i) (Some cp) sh' = Inr pf
    \<and> sp_shard_proof pf = map hex p \<and> sp_super_proof pf = map hex q
    \<and> sp_shard_root pf = root_hex (sh_shards sh ! k) \<and> sp_shard_size pf = JInt (int (length es))
    \<and> verify_sharded_inclusion (led_leaves (sh_shards sh' ! k) ! i) (int i) (int (length es)) p
        (ledger_root (sh_shards sh ! k)) (int k) (int (length (sh_shards sh))) q (super_root sh)"
proof -
  let ?led = "sh_shards sh ! k" and ?led' = "sh_shards sh' ! k"
  have roots: "proof_roots (Some cp) (int k) sh' = Inr (shard_roots sh, JInt (int (length es)))"
    using proof_roots_pinned [OF assms(1-3)] ledger_size_ok [OF assms(4)] by simp
  obtain p where p: "inclusion_proof_hex (int i) (Some (int (length es))) ?led' = Inr (map hex p)"
    "verify_inclusion (int i) (int (length es)) (led_leaves ?led' ! i) p (tree_hash (led_leaves ?led))"
    using pinned_inclusion [OF assms(5,8,7)] assms(6) by auto
  have k: "k < length (map leaf_hash (shard_roots sh))" using assms(3) by (simp add: shard_roots_def)
  obtain q where q: "shard_super_proof (shard_roots sh) (int k) = Inr q"
    "verify_inclusion (int k) (int (length (sh_shards sh))) (leaf_hash (ledger_root ?led)) q (super_root sh)"
    using generated_inclusion_verifies [OF k] assms(3)
    by (auto simp: shard_super_proof_def super_root_def shard_super_root_def shard_roots_def)
  have "verify_sharded_inclusion (led_leaves ?led' ! i) (int i) (int (length es)) p
      (ledger_root ?led) (int k) (int (length (sh_shards sh))) q (super_root sh)"
    using p(2) q(2) ledger_root_ok [OF assms(4)] by (simp add: verify_sharded_inclusion_def)
  with roots p(1) q(1) assms(2,3) show ?thesis
    by (simp add: sharded_inclusion_proof_def slice_bound_def shard_roots_def root_hex_def) blast
qed

end
