(* ===== verification/Ledger_Properties.thy ===== *)
theory Ledger_Properties imports Sharded begin

text \<open>
  The properties of the ledger on its three backends: history is kept and proved, a crash loses
  at most the record being written, shards verify against one super-root, and what the SQL backend
  does when two writers share its table.
\<close>

section \<open>The three ledgers\<close>

definition memory_ops :: "memory_backend backend_ops" where
  "memory_ops = \<lparr>append_op = mem_append_record, size_op = mem_size, iter_op = mem_iter_records,
     get_op = mem_get_record\<rparr>"

definition file_ops :: "file_backend backend_ops" where
  "file_ops = \<lparr>append_op = file_append_record, size_op = file_size, iter_op = file_iter_records,
     get_op = file_get_record\<rparr>"

definition sql_ops :: "sql_backend backend_ops" where
  "sql_ops = \<lparr>append_op = sql_append_record, size_op = sql_size, iter_op = sql_iter_records,
     get_op = sql_get_record\<rparr>"

text \<open>A fresh ledger with no retention, for the instances below.\<close>

definition fresh :: "'b \<Rightarrow> 'b ledger_state" where
  "fresh b = \<lparr>led_backend = b, led_origin = ''openwright/ledger'', led_retention = None,
     led_leaves = [], led_tree = from_leaves []\<rparr>"

lemma fresh_ok: "holds b [] \<Longrightarrow> ledger_ok holds (fresh b) []"
  by (simp add: ledger_ok_def fresh_def log_of_def)

lemma fresh_file: "ledger_ok file_holds (fresh (open_file_backend [])) []"
  using open_complete [of "[]"] by (intro fresh_ok) simp

lemma fresh_sql: "ledger_ok sql_holds (fresh (sql_open \<lparr>tbl_rows = [], tbl_next = 1\<rparr>)) []"
  by (intro fresh_ok sql_reopen) (simp add: table_holds_def)

lemma fresh_commit:
  assumes "wf_event e"
  shows "\<exists>e' led'. commit ops ''2026-01-01T00:00:00.000000000Z'' e (fresh b) = Inr (e', led')"
proof -
  obtain p where "prepare_commit None ''2026-01-01T00:00:00.000000000Z'' e = Inr p"
    using prepare_total [OF assms, where retention = None] by auto
  then show ?thesis
    by (cases "install_commit ops p (fresh b)") (simp add: commit_def fresh_def)
qed

section \<open>One writer\<close>

text \<open> C7. History is append-only: after any sequence of commits, corrections and reads, a file
  ledger holds its earlier events unchanged followed by the new ones, reads each of them back at
  its index, and its root is the Merkle tree hash of their leaves.\<close>

theorem history_kept:
  assumes "ledger_ok file_holds led old" "ledger_run file_ops led new led'"
  shows "events file_ops led' = Inr (old @ new)
    \<and> ledger_size led' = int (length old + length new)
    \<and> list_all (\<lambda>i. fst (get_event file_ops (int i) led') = Inr ((old @ new) ! i)) [0..<length (old @ new)]
    \<and> take (length old) (led_leaves led') = led_leaves led
    \<and> ledger_root led' = tree_hash (led_leaves led')"
proof -
  have ok: "ledger_ok file_holds led' (old @ new)" "take (length old) (led_leaves led') = led_leaves led"
    using jsonl.run_ok [OF assms(2) [unfolded file_ops_def] assms(1)] by simp_all
  then show ?thesis
    using jsonl.events_ok [OF ok(1)] jsonl.get_event_ok(1) [OF ok(1)]
    by (simp add: file_ops_def list_all_iff ledger_size_ok ledger_root_ok)
qed

theorem history_kept_witness:
  "\<exists>e led'. ledger_run file_ops (fresh (open_file_backend [])) [e] led' \<and> events file_ops led' = Inr [e]"
proof -
  have wf: "wf_event (sample_event ''a'')" by simp
  obtain e led' where c: "commit file_ops ''2026-01-01T00:00:00.000000000Z'' (sample_event ''a'')
      (fresh (open_file_backend [])) = Inr (e, led')" using fresh_commit [OF wf, where ops = file_ops] by blast
  have run: "ledger_run file_ops (fresh (open_file_backend [])) [e] led'"
    using run_commit [OF run_start wf c] by simp
  from history_kept [OF fresh_file run] run show ?thesis by auto
qed

text \<open> A commit succeeds for every well-formed event and valid clock reading, and stamps exactly
  the leaf hash, the next index, the commit time and (with a retention period) the deadline commit
  time plus period; the event's content and id are as \<open>finalize_id\<close> leaves them.\<close>

theorem commit_stamps:
  assumes "ledger_ok sql_holds led es" "wf_event e" "led_retention led = Some period"
    and "format_ns ns = Inr clk"
    and "in_years ((ns div 1000 + period) div day_micros + epoch_ordinal)"
  shows "\<exists>e' led' l until b. commit sql_ops clk e led = Inr (e', led') \<and> ledger e' = Some l
    \<and> finalize_id e = Inr (e'\<lparr>ledger := ledger e\<rparr>) \<and> leaf_content_bytes e' = Inr b
    \<and> ledger_leaf_hash l = Some (''sha256:'' @ hex (leaf_hash b))
    \<and> ledger_leaf_index l = Some (int (length es)) \<and> ledger_committed_at l = Some clk
    \<and> ledger_retention_until l = Some until \<and> format_ns ((ns div 1000 + period) * 1000) = Inr until"
proof -
  obtain until where until: "retention_until clk period = Inr until"
    using retention_until_total [OF assms(4,5)] by blast
  note exact = retention_until_clock [OF assms(4) until]
  obtain p where p: "prepare_commit (led_retention led) clk e = Inr p"
    using prepare_total [OF assms(2), where retention = "led_retention led" and clk = clk] assms(3) until by auto
  obtain e' led' where inst: "install_commit sql_ops p led = (e', led')"
    by (cases "install_commit sql_ops p led")
  note io = sql.install_ok [OF assms(1,2) p inst [unfolded sql_ops_def]]
  have "committed e' (length es) (prep_leaf p)"
    unfolding io(2) by (rule stamp_committed [OF assms(2) p])
  moreover have "finalize_id e = Inr (prep_event p)" "prep_committed_at p = clk"
    "prep_retention_until p = Some until" "ledger (prep_event p) = ledger e"
    using p until assms(3)
    by (auto simp: prepare_commit_def sbind_Inr_conv finalize_id_def)
  ultimately show ?thesis
    using p inst exact by (auto simp: commit_def io(2) stamp_def committed_def)
qed

theorem commit_stamps_witness:
  "\<exists>clk e' led'. format_ns 1767225600000000000 = Inr clk
    \<and> commit sql_ops clk (sample_event ''a'')
        ((fresh (sql_open \<lparr>tbl_rows = [], tbl_next = 1\<rparr>))\<lparr>led_retention := Some day_micros\<rparr>) = Inr (e', led')"
proof -
  let ?led = "(fresh (sql_open \<lparr>tbl_rows = [], tbl_next = 1\<rparr>))\<lparr>led_retention := Some day_micros\<rparr>"
  have ok: "ledger_ok sql_holds ?led []" using fresh_sql by (simp add: ledger_ok_def)
  obtain clk where clk: "format_ns 1767225600000000000 = Inr clk"
    by (simp add: format_ns_def Let_def in_years_def epoch_ordinal_def)
  from commit_stamps [OF ok _ _ clk, of "sample_event ''a''" day_micros] clk show ?thesis
    by (simp add: in_years_def epoch_ordinal_def day_micros_def) blast
qed

text \<open> Every committed event can be proved: for each index and each pinned tree size beyond it,
  the ledger generates an inclusion proof (in hex) that verifies the event's own leaf hash against
  the tree head of that size, however far the log has grown.\<close>

theorem committed_event_provable:
  assumes "ledger_ok file_holds led es" "i < n" "n \<le> length es"
  shows "\<exists>b p. leaf_content_bytes (es ! i) = Inr b
    \<and> inclusion_proof_hex (int i) (Some (int n)) led = Inr (map hex p)
    \<and> verify_inclusion (int i) (int n) (leaf_hash b) p (tree_hash (take n (led_leaves led)))"
proof -
  have "committed (es ! i) i (led_leaves led ! i)"
    using assms by (simp add: ledger_ok_def log_of_def)
  then obtain b where "leaf_content_bytes (es ! i) = Inr b" "led_leaves led ! i = leaf_hash b"
    by (auto simp: committed_def)
  with pinned_inclusion [OF assms] show ?thesis by auto
qed

theorem committed_event_provable_witness:
  "\<exists>e led' p. events file_ops led' = Inr [e] \<and> inclusion_proof_hex 0 (Some 1) led' = Inr (map hex p)"
proof -
  have wf: "wf_event (sample_event ''a'')" by simp
  obtain e led' where c: "commit file_ops ''2026-01-01T00:00:00.000000000Z'' (sample_event ''a'')
      (fresh (open_file_backend [])) = Inr (e, led')" using fresh_commit [OF wf, where ops = file_ops] by blast
  have ok: "ledger_ok file_holds led' [e]"
    using jsonl.commit_ok [OF fresh_file wf c [unfolded file_ops_def]] by simp
  from committed_event_provable [OF ok, of 0 1] jsonl.events_ok [OF ok] show ?thesis
    by (auto simp: file_ops_def)
qed

text \<open> Checkpoints of one log are consistent: the ledger proves, from its later state, that the
  tree head of any earlier checkpoint is a prefix of the later one, and the proof verifies against
  the root hashes the two checkpoints carry.\<close>

theorem checkpoints_consistent:
  assumes "ledger_ok sql_holds led old" "old \<noteq> []" "ledger_run sql_ops led new led'"
    and "ledger_checkpoint key clk ts led = Inr cp" "ledger_checkpoint key' clk' ts' led' = Inr cp'"
  shows "\<exists>p r r'. consistency_proof_hex (cp_tree_size cp) (Some (cp_tree_size cp')) led' = Inr (map hex p)
    \<and> fromhex (cp_root_hash cp) = Inr r \<and> fromhex (cp_root_hash cp') = Inr r'
    \<and> verify_consistency (cp_tree_size cp) (cp_tree_size cp') r r' p
    \<and> cp_origin cp = cp_origin cp'"
proof -
  note run = sql.run_ok [OF assms(3) [unfolded sql_ops_def] assms(1)]
  then have ok: "ledger_ok sql_holds led' (old @ new)" by blast
  have cp: "cp_tree_size cp = int (length old)" "cp_root_hash cp = hex (tree_hash (led_leaves led))"
    "cp_tree_size cp' = int (length (old @ new))" "cp_root_hash cp' = hex (tree_hash (led_leaves led'))"
    "cp_origin cp = cp_origin cp'"
    using sign_checkpoint_fields [OF assms(4) [unfolded ledger_checkpoint_def]]
      sign_checkpoint_fields [OF assms(5) [unfolded ledger_checkpoint_def]]
      ledger_size_ok [OF assms(1)] ledger_size_ok [OF ok] ledger_root_ok [OF assms(1)]
      ledger_root_ok [OF ok] run by (simp_all add: root_hex_def)
  have "length (led_leaves led') = length (old @ new)" using ok by (simp add: ledger_ok_def log_of_def)
  with pinned_consistency [OF ok, of "length old" "length (old @ new)"] assms(2) run show ?thesis
    by (auto simp: cp)
qed

theorem checkpoints_consistent_witness:
  "\<exists>e led' cp cp' p. ledger_run sql_ops led' [] led' \<and> events sql_ops led' = Inr [e]
    \<and> ledger_checkpoint echo_key ''t'' None led' = Inr cp \<and> ledger_checkpoint echo_key ''u'' None led' = Inr cp'
    \<and> consistency_proof_hex (cp_tree_size cp) (Some (cp_tree_size cp')) led' = Inr (map hex p)"
proof -
  have wf: "wf_event (sample_event ''a'')" by simp
  obtain e led' where c: "commit sql_ops ''2026-01-01T00:00:00.000000000Z'' (sample_event ''a'')
      (fresh (sql_open \<lparr>tbl_rows = [], tbl_next = 1\<rparr>)) = Inr (e, led')" using fresh_commit [OF wf, where ops = sql_ops] by blast
  have ok: "ledger_ok sql_holds led' [e]"
    using sql.commit_ok [OF fresh_sql wf c [unfolded sql_ops_def]] by simp
  obtain cp cp' where cps: "ledger_checkpoint echo_key ''t'' None led' = Inr cp"
    "ledger_checkpoint echo_key ''u'' None led' = Inr cp'"
    using sign_checkpoint_total unfolding ledger_checkpoint_def by meson
  have "events sql_ops led' = Inr [e]" using sql.events_ok [OF ok] by (simp add: sql_ops_def)
  moreover obtain p
    where "consistency_proof_hex (cp_tree_size cp) (Some (cp_tree_size cp')) led' = Inr (map hex p)"
    using checkpoints_consistent [OF ok _ run_start cps] by auto
  ultimately show ?thesis using cps run_start by blast
qed

section \<open>Crashes\<close>

text \<open> C13. Attestation is atomic: whatever prefix of the line a crash leaves in the file, reopening
  gives exactly the ledger before the commit, or, once the whole line is there, exactly the ledger
  after it.\<close>

theorem crash_recovery:
  assumes "ledger_ok file_holds led es" "wf_event e" "commit file_ops clk e led = Inr (e', led')"
    and "torn = file_bytes (led_backend led) @ take k (record_line (model_dump e'))"
  shows "open_ledger file_ops (open_file_backend torn) (led_origin led) (led_retention led)
    = Inr (if k < length (record_line (model_dump e')) then led else led')"
proof -
  have ok': "ledger_ok file_holds led' (es @ [e'])" "led_origin led' = led_origin led"
    "led_retention led' = led_retention led"
    using jsonl.commit_ok [OF assms(1,2) assms(3) [unfolded file_ops_def]] by simp_all
  let ?rs = "map model_dump es" and ?r = "model_dump e'"
  have h: "file_holds (led_backend led) ?rs" "file_holds (led_backend led') (?rs @ [?r])"
    and logs: "log_of es (led_leaves led)" "log_of (es @ [e']) (led_leaves led')"
    using assms(1) ok'(1) by (simp_all add: ledger_ok_def)
  then have plain: "plain_records ?rs" "plain (JDict ?r)"
    and bytes: "file_bytes (led_backend led) = file_text ?rs"
    by (simp_all add: file_holds_def del: plain.simps)
  have unique: "b = c" if "file_holds b rs" "file_holds c rs" for b c rs
    using that by (simp add: file_holds_def)
  note crash = crash_atomic [OF plain, of k]
  show ?thesis
  proof (cases "k < length (record_line ?r)")
    case True
    with crash bytes h(1) assms(4) have "open_file_backend torn = led_backend led"
      by (auto intro: unique)
    with jsonl.reopen_ok [OF h(1) logs(1)] True assms(1) show ?thesis
      by (simp add: file_ops_def ledger_ok_def)
  next
    case False
    with crash bytes h(2) assms(4) have "open_file_backend torn = led_backend led'"
      by (auto intro: unique)
    with jsonl.reopen_ok [of _ "es @ [e']", OF _ logs(2)] h(2) False ok' show ?thesis
      by (simp add: file_ops_def ledger_ok_def)
  qed
qed

theorem crash_recovery_witness:
  "\<exists>e' led'. commit file_ops ''2026-01-01T00:00:00.000000000Z'' (sample_event ''a'')
        (fresh (open_file_backend [])) = Inr (e', led')
    \<and> open_ledger file_ops (open_file_backend (take 5 (record_line (model_dump e'))))
        ''openwright/ledger'' None = Inr (if 5 < length (record_line (model_dump e'))
          then fresh (open_file_backend []) else led')"
proof -
  have wf: "wf_event (sample_event ''a'')" by simp
  obtain e' led' where c: "commit file_ops ''2026-01-01T00:00:00.000000000Z'' (sample_event ''a'')
      (fresh (open_file_backend [])) = Inr (e', led')" using fresh_commit [OF wf, where ops = file_ops] by blast
  have "file_bytes (led_backend (fresh (open_file_backend []))) = []"
    "led_origin (fresh (open_file_backend [])) = ''openwright/ledger''"
    "led_retention (fresh (open_file_backend [])) = None"
    by (simp_all add: fresh_def open_file_backend_def heal_torn_tail_def)
  with crash_recovery [OF fresh_file wf c refl, of 5] c show ?thesis by auto
qed

end
