(* ===== verification/Ledger_Concurrent.thy ===== *)
theory Ledger_Concurrent imports Ledger_Laws begin

text \<open>
  Many threads on one ledger.  \<open>commit\<close> computes the id, the leaf, the stamp and the retention
  deadline, takes the lock, and then changes the event, the backend, the leaf list and the tree in
  four statements; \<open>checkpoint\<close> reads the size and the root in two statements under the same lock.
  Here the lock is state and every statement is a step, so a thread holding the lock is seen with
  its work half done.  A backend that refuses a record stores nothing of it and the exception
  releases the lock.  Every thread commits an event object of its own; \<open>events\<close> and \<open>get_event\<close>,
  which read the backend without the lock, are not steps.
\<close>

section \<open>The statements under the lock\<close>

definition stamp_event :: "'b backend_ops \<Rightarrow> prepared \<Rightarrow> 'b ledger_state \<Rightarrow> compliance_event" where
  "stamp_event ops p led = stamp p (size_op ops (led_backend led))"

definition store_event :: "'b backend_ops \<Rightarrow> compliance_event \<Rightarrow> 'b ledger_state \<Rightarrow> 'b ledger_state" where
  "store_event ops e led = led\<lparr>led_backend := append_op ops (model_dump e) (led_backend led)\<rparr>"

definition list_leaf :: "prepared \<Rightarrow> 'b ledger_state \<Rightarrow> 'b ledger_state" where
  "list_leaf p led = led\<lparr>led_leaves := led_leaves led @ [prep_leaf p]\<rparr>"

definition grow_tree :: "prepared \<Rightarrow> 'b ledger_state \<Rightarrow> 'b ledger_state" where
  "grow_tree p led = led\<lparr>led_tree := append_leaf (prep_leaf p) (led_tree led)\<rparr>"

text \<open>One after the other they are the commit of the sequential model.\<close>

lemma install_statements:
  "install_commit ops p led =
    (let e = stamp_event ops p led in (e, grow_tree p (list_leaf p (store_event ops e led))))"
  by (simp add: install_commit_def stamp_event_def store_event_def list_leaf_def grow_tree_def Let_def)

section \<open>Threads\<close>

text \<open>What a thread was started for, and where it stands.\<close>

datatype job = Commit_Job compliance_event | Snapshot_Job

datatype thread =
    Waiting compliance_event
  | Prepared prepared
  | Entered prepared
  | Stamped prepared compliance_event
  | Stored prepared compliance_event
  | Listed prepared compliance_event
  | Committed compliance_event
  | Failed py_exn
  | Asking
  | Looking
  | Measured int
  | Answered int string

record 'b system =
  sys_ledger :: "'b ledger_state"
  sys_lock :: "nat option"
  sys_threads :: "thread list"

text \<open>\<open>threading.Lock\<close>: a thread that asks while the lock is held, by whomever, waits.\<close>

definition acquire :: "nat \<Rightarrow> 'b system \<Rightarrow> 'b system option" where
  "acquire t s = (case sys_lock s of None \<Rightarrow> Some (s\<lparr>sys_lock := Some t\<rparr>) | Some _ \<Rightarrow> None)"

definition release :: "'b system \<Rightarrow> 'b system" where
  "release s = s\<lparr>sys_lock := None\<rparr>"

definition goes_to :: "nat \<Rightarrow> thread \<Rightarrow> 'b system \<Rightarrow> 'b system" where
  "goes_to t x s = s\<lparr>sys_threads := (sys_threads s)[t := x]\<rparr>"

definition on_ledger :: "('b ledger_state \<Rightarrow> 'b ledger_state) \<Rightarrow> 'b system \<Rightarrow> 'b system" where
  "on_ledger f s = s\<lparr>sys_ledger := f (sys_ledger s)\<rparr>"

inductive thread_step :: "'b backend_ops \<Rightarrow> nat \<Rightarrow> thread \<Rightarrow> 'b system \<Rightarrow> 'b system \<Rightarrow> bool"
  for ops :: "'b backend_ops" and t :: nat
where
  step_prepare:
    "prepare_commit (led_retention (sys_ledger s)) clock e = Inr p \<Longrightarrow>
     thread_step ops t (Waiting e) s (goes_to t (Prepared p) s)"
| step_raise:
    "prepare_commit (led_retention (sys_ledger s)) clock e = Inl x \<Longrightarrow>
     thread_step ops t (Waiting e) s (goes_to t (Failed x) s)"
| step_enter: "acquire t s = Some s' \<Longrightarrow> thread_step ops t (Prepared p) s (goes_to t (Entered p) s')"
| step_stamp:
    "thread_step ops t (Entered p) s (goes_to t (Stamped p (stamp_event ops p (sys_ledger s))) s)"
| step_store:
    "thread_step ops t (Stamped p e) s (goes_to t (Stored p e) (on_ledger (store_event ops e) s))"
| step_refuse: "thread_step ops t (Stamped p e) s (goes_to t (Failed x) (release s))"
| step_list: "thread_step ops t (Stored p e) s (goes_to t (Listed p e) (on_ledger (list_leaf p) s))"
| step_grow:
    "thread_step ops t (Listed p e) s (goes_to t (Committed e) (release (on_ledger (grow_tree p) s)))"
| step_ask: "acquire t s = Some s' \<Longrightarrow> thread_step ops t Asking s (goes_to t Looking s')"
| step_measure: "thread_step ops t Looking s (goes_to t (Measured (ledger_size (sys_ledger s))) s)"
| step_answer:
    "thread_step ops t (Measured n) s (goes_to t (Answered n (root_hex (sys_ledger s))) (release s))"

inductive commit_step :: "'b backend_ops \<Rightarrow> 'b system \<Rightarrow> 'b system \<Rightarrow> bool"
  for ops :: "'b backend_ops"
where
  step_thread:
    "t < length (sys_threads s) \<Longrightarrow> thread_step ops t (sys_threads s ! t) s s' \<Longrightarrow> commit_step ops s s'"

inductive commit_steps :: "'b backend_ops \<Rightarrow> 'b system \<Rightarrow> 'b system \<Rightarrow> bool"
  for ops :: "'b backend_ops" and s :: "'b system"
where
  steps_refl: "commit_steps ops s s"
| steps_step: "commit_steps ops s s' \<Longrightarrow> commit_step ops s' s'' \<Longrightarrow> commit_steps ops s s''"

inductive_cases thread_stepE: "thread_step ops t x s s'"
inductive_cases commit_stepE: "commit_step ops s s'"

fun start_thread :: "job \<Rightarrow> thread" where
  "start_thread (Commit_Job e) = Waiting e"
| "start_thread Snapshot_Job = Asking"

definition started :: "'b ledger_state \<Rightarrow> job list \<Rightarrow> 'b system" where
  "started led jobs = \<lparr>sys_ledger = led, sys_lock = None, sys_threads = map start_thread jobs\<rparr>"

lemmas system_defs = goes_to_def on_ledger_def release_def

lemma steps_append:
  "commit_steps ops s s' \<Longrightarrow> commit_steps ops s' s'' \<Longrightarrow> commit_steps ops s s''"
  by (rotate_tac, induction rule: commit_steps.induct) (auto intro: commit_steps.intros)

section \<open>What threads leave behind\<close>

fun committed_event :: "thread \<Rightarrow> compliance_event option" where
  "committed_event (Committed e) = Some e"
| "committed_event _ = None"

definition committed_events :: "thread list \<Rightarrow> compliance_event list" where
  "committed_events ts = List.map_filter committed_event ts"

lemma committed_events_Cons [simp]:
  "committed_events [] = []"
  "committed_events (x # ts) = (case committed_event x of None \<Rightarrow> [] | Some e \<Rightarrow> [e]) @ committed_events ts"
  by (simp_all add: committed_events_def map_filter_def split: option.split)

lemma committed_events_update:
  "t < length ts \<Longrightarrow> committed_event (ts ! t) = None \<Longrightarrow>
    mset (committed_events (ts[t := x])) = mset (committed_events ts)
      + (case committed_event x of None \<Rightarrow> {#} | Some e \<Rightarrow> {#e#})"
  by (induction ts arbitrary: t) (auto simp: nth_Cons split: nat.splits option.splits)

lemma in_committed_events: "e \<in> set (committed_events ts) \<longleftrightarrow> Committed e \<in> set ts"
proof (induction ts)
  case (Cons x ts)
  then show ?case by (cases x) auto
qed simp

text \<open>A thread works on the job it was started for; a committed event is that job's event with its
  id and its ledger fields filled in.\<close>

definition prepares :: "compliance_event \<Rightarrow> prepared \<Rightarrow> bool" where
  "prepares e p \<longleftrightarrow> (\<exists>retention clk. prepare_commit retention clk e = Inr p)"

fun serves :: "job \<Rightarrow> thread \<Rightarrow> bool" where
  "serves (Commit_Job e) x = (case x of
     Waiting e' \<Rightarrow> e' = e
   | Prepared p \<Rightarrow> prepares e p
   | Entered p \<Rightarrow> prepares e p
   | Stamped p e' \<Rightarrow> prepares e p
   | Stored p e' \<Rightarrow> prepares e p
   | Listed p e' \<Rightarrow> prepares e p
   | Committed e' \<Rightarrow> finalize_id e = Inr (e'\<lparr>ledger := ledger e\<rparr>)
   | Failed _ \<Rightarrow> True
   | _ \<Rightarrow> False)"
| "serves Snapshot_Job x = (case x of
     Asking \<Rightarrow> True
   | Looking \<Rightarrow> True
   | Measured n \<Rightarrow> True
   | Answered n r \<Rightarrow> True
   | _ \<Rightarrow> False)"

text \<open>An answered snapshot is a prefix of the log and its root.\<close>

fun snapshot_ok :: "bytes list \<Rightarrow> nat \<Rightarrow> thread \<Rightarrow> bool" where
  "snapshot_ok hs n (Answered k r) \<longleftrightarrow>
     (\<exists>m. n \<le> m \<and> m \<le> length hs \<and> k = int m \<and> r = hex (tree_hash (take m hs)))"
| "snapshot_ok hs n _ \<longleftrightarrow> True"

lemma snapshot_more:
  "snapshot_ok hs n x \<Longrightarrow> take (length hs) hs' = hs \<Longrightarrow> snapshot_ok hs' n x"
proof (induction hs n x rule: snapshot_ok.induct)
  case (1 hs n k r)
  then obtain m where m: "n \<le> m" "m \<le> length hs" "k = int m" "r = hex (tree_hash (take m hs))" by auto
  have "take m hs' = take m (take (length hs) hs')" using m(2) by simp
  then have "take m hs' = take m hs" by (simp only: 1(2))
  moreover have "length hs \<le> length hs'" using 1(2) by (metis length_take min.cobounded1)
  ultimately show ?case using m by auto
qed simp_all

section \<open>The invariant\<close>

text \<open>The lock is held by exactly the thread that is between its acquisition and its release.  The
  ledger is a whole one, \<open>led0\<close>, to which that thread has done a part of its work.\<close>

fun inside :: "thread \<Rightarrow> bool" where
  "inside (Entered p) \<longleftrightarrow> True"
| "inside (Stamped p e) \<longleftrightarrow> True"
| "inside (Stored p e) \<longleftrightarrow> True"
| "inside (Listed p e) \<longleftrightarrow> True"
| "inside Looking \<longleftrightarrow> True"
| "inside (Measured n) \<longleftrightarrow> True"
| "inside _ \<longleftrightarrow> False"

fun part_done :: "'b backend_ops \<Rightarrow> thread \<Rightarrow> 'b ledger_state \<Rightarrow> 'b ledger_state \<Rightarrow> bool" where
  "part_done ops (Stamped p e) led0 led \<longleftrightarrow> e = stamp_event ops p led0 \<and> led = led0"
| "part_done ops (Stored p e) led0 led \<longleftrightarrow> e = stamp_event ops p led0 \<and> led = store_event ops e led0"
| "part_done ops (Listed p e) led0 led \<longleftrightarrow>
     e = stamp_event ops p led0 \<and> led = list_leaf p (store_event ops e led0)"
| "part_done ops (Measured n) led0 led \<longleftrightarrow> n = ledger_size led0 \<and> led = led0"
| "part_done ops _ led0 led \<longleftrightarrow> led = led0"

definition threads_ok :: "nat \<Rightarrow> job list \<Rightarrow> compliance_event list \<Rightarrow> 'b ledger_state \<Rightarrow> 'b system \<Rightarrow> bool" where
  "threads_ok n jobs new led0 s \<longleftrightarrow> length (sys_threads s) = length jobs
     \<and> mset new = mset (committed_events (sys_threads s))
     \<and> (\<forall>t < length jobs. serves (jobs ! t) (sys_threads s ! t))
     \<and> (\<forall>t < length jobs. inside (sys_threads s ! t) \<longleftrightarrow> sys_lock s = Some t)
     \<and> (\<forall>t < length jobs. snapshot_ok (led_leaves led0) n (sys_threads s ! t))"

definition held_ok :: "'b backend_ops \<Rightarrow> 'b ledger_state \<Rightarrow> 'b system \<Rightarrow> bool" where
  "held_ok ops led0 s \<longleftrightarrow> (case sys_lock s of
     None \<Rightarrow> sys_ledger s = led0
   | Some t \<Rightarrow> t < length (sys_threads s) \<and> part_done ops (sys_threads s ! t) led0 (sys_ledger s))"

definition system_ok ::
  "('b \<Rightarrow> dict list \<Rightarrow> bool) \<Rightarrow> 'b backend_ops \<Rightarrow> compliance_event list \<Rightarrow> job list \<Rightarrow> 'b system \<Rightarrow>
    compliance_event list \<Rightarrow> bool"
where
  "system_ok holds ops es0 jobs s new \<longleftrightarrow>
     (\<exists>led0. ledger_ok holds led0 (es0 @ new) \<and> threads_ok (length es0) jobs new led0 s \<and> held_ok ops led0 s)"

text \<open>A thread moves without the lock: the ledger and the lock stay.\<close>

lemma outside_move:
  assumes "threads_ok n jobs new led0 s" "held_ok ops led0 s" "t < length jobs"
    and "\<not> inside (sys_threads s ! t)" "\<not> inside x"
    and "committed_event (sys_threads s ! t) = None" "committed_event x = None"
    and "serves (jobs ! t) x" "snapshot_ok (led_leaves led0) n x"
  shows "threads_ok n jobs new led0 (goes_to t x s) \<and> held_ok ops led0 (goes_to t x s)"
proof -
  have "sys_lock s \<noteq> Some t" using assms(1,3,4) by (auto simp: threads_ok_def)
  with assms show ?thesis
    by (auto simp: threads_ok_def held_ok_def goes_to_def committed_events_update nth_list_update
        split: option.splits)
qed

text \<open>A thread moves in, inside, or out of the section the lock guards.\<close>

lemma inside_move:
  assumes "threads_ok n jobs new led0 s" "t < length jobs"
    and "sys_lock s = None \<or> sys_lock s = Some t"
    and "committed_event (sys_threads s ! t) = None"
    and "new' = new @ (case committed_event x of None \<Rightarrow> [] | Some e \<Rightarrow> [e])"
    and "serves (jobs ! t) x" "snapshot_ok (led_leaves led1) n x"
    and "take (length (led_leaves led0)) (led_leaves led1) = led_leaves led0"
    and "if inside x then part_done ops x led1 led else led = led1"
    and "s' = \<lparr>sys_ledger = led, sys_lock = if inside x then Some t else None,
          sys_threads = (sys_threads s)[t := x]\<rparr>"
  shows "threads_ok n jobs new' led1 s' \<and> held_ok ops led1 s'"
proof -
  have len: "length (sys_threads s) = length jobs" using assms(1) by (simp add: threads_ok_def)
  have others: "\<not> inside (sys_threads s ! u)" if "u \<noteq> t" "u < length jobs" for u
    using that assms(1,3) by (auto simp: threads_ok_def)
  have snaps: "snapshot_ok (led_leaves led1) n (sys_threads s ! u)" if "u < length jobs" for u
    using snapshot_more [OF _ assms(8)] that assms(1) by (simp add: threads_ok_def)
  have "mset new' = mset (committed_events (sys_threads s'))"
    using assms(1,2,4,5,10) len
    by (simp add: threads_ok_def committed_events_update split: option.split)
  moreover have "serves (jobs ! u) (sys_threads s' ! u)" if "u < length jobs" for u
    using assms(1,2,6,10) len that by (cases "u = t") (simp_all add: threads_ok_def)
  moreover have "inside (sys_threads s' ! u) \<longleftrightarrow> sys_lock s' = Some u" if "u < length jobs" for u
    using others [OF _ that] assms(2,10) len by (cases "u = t") simp_all
  moreover have "snapshot_ok (led_leaves led1) n (sys_threads s' ! u)" if "u < length jobs" for u
    using snaps [OF that] assms(2,7,10) len by (cases "u = t") simp_all
  ultimately have "threads_ok n jobs new' led1 s'" using assms(10) len by (simp add: threads_ok_def)
  moreover have "held_ok ops led1 s'" using assms(2,9,10) len by (simp add: held_ok_def)
  ultimately show ?thesis ..
qed

section \<open>Every step keeps it\<close>

fun wf_job :: "job \<Rightarrow> bool" where
  "wf_job (Commit_Job e) \<longleftrightarrow> wf_event e"
| "wf_job Snapshot_Job \<longleftrightarrow> True"

lemma prepares_stamp:
  assumes "prepares e p"
  shows "finalize_id e = Inr ((stamp p i)\<lparr>ledger := ledger e\<rparr>)"
proof -
  have "finalize_id e = Inr (prep_event p)"
    using assms by (auto simp: prepares_def prepare_commit_def sbind_Inr_conv)
  moreover from this have "(prep_event p)\<lparr>ledger := ledger e\<rparr> = prep_event p"
    by (auto simp: finalize_id_def sbind_Inr_conv dest!: sym [of _ "prep_event p"])
  ultimately show ?thesis by (simp add: stamp_def)
qed

lemma serves_prepared:
  "serves j (Prepared p) \<or> serves j (Entered p) \<or> serves j (Stamped p e) \<or> serves j (Stored p e)
    \<or> serves j (Listed p e) \<Longrightarrow> \<exists>e0. j = Commit_Job e0 \<and> prepares e0 p"
  by (cases j) auto

lemma acquire_free: "acquire t s = Some s' \<Longrightarrow> sys_lock s = None \<and> s' = s\<lparr>sys_lock := Some t\<rparr>"
  by (simp add: acquire_def split: option.splits)

context ledger_backend
begin

lemma entering:
  assumes "ledger_ok holds led0 (es0 @ new)" "threads_ok (length es0) jobs new led0 s" "held_ok ops led0 s"
    and "t < length jobs" "acquire t s = Some s'" "serves (jobs ! t) x"
    and "committed_event (sys_threads s ! t) = None" "x = Entered p \<or> x = Looking"
  shows "system_ok holds ops es0 jobs (goes_to t x s') new"
proof -
  have free: "sys_lock s = None" "s' = s\<lparr>sys_lock := Some t\<rparr>" using acquire_free [OF assms(5)] by simp_all
  then have "sys_ledger s = led0" using assms(3) by (simp add: held_ok_def)
  with free assms(8) have "threads_ok (length es0) jobs new led0 (goes_to t x s') \<and> held_ok ops led0 (goes_to t x s')"
    by (intro inside_move [OF assms(2,4) _ assms(7) _ assms(6), where led = led0]) (auto simp: goes_to_def)
  with assms(1) show ?thesis unfolding system_ok_def by blast
qed

lemma working:
  assumes "ledger_ok holds led0 (es0 @ new)" "threads_ok (length es0) jobs new led0 s"
    and "t < length jobs" "sys_lock s = Some t" "serves (jobs ! t) x"
    and "committed_event (sys_threads s ! t) = None" "committed_event x = None"
    and "snapshot_ok (led_leaves led0) (length es0) x"
    and "if inside x then part_done ops x led0 led else led = led0"
    and "s' = \<lparr>sys_ledger = led, sys_lock = if inside x then Some t else None,
          sys_threads = (sys_threads s)[t := x]\<rparr>"
  shows "system_ok holds ops es0 jobs s' new"
proof -
  have "threads_ok (length es0) jobs new led0 s' \<and> held_ok ops led0 s'"
    using assms(4,7,9) by (intro inside_move [OF assms(2,3) _ assms(6) _ assms(5,8) _ _ assms(10)]) auto
  with assms(1) show ?thesis unfolding system_ok_def by blast
qed

lemma finishing:
  assumes "ledger_ok holds led0 (es0 @ new)" "threads_ok (length es0) jobs new led0 s" "held_ok ops led0 s"
    and "t < length jobs" "sys_threads s ! t = Listed p e" "list_all wf_job jobs"
  shows "system_ok holds ops es0 jobs (goes_to t (Committed e) (release (on_ledger (grow_tree p) s))) (new @ [e])"
proof -
  have t: "sys_lock s = Some t" "serves (jobs ! t) (Listed p e)" using assms(2,4,5) by (auto simp: threads_ok_def)
  then have part: "e = stamp_event ops p led0" "sys_ledger s = list_leaf p (store_event ops e led0)"
    using assms(3,5) by (simp_all add: held_ok_def)
  obtain e0 where e0: "jobs ! t = Commit_Job e0" "prepares e0 p" using serves_prepared t(2) by blast
  obtain retention clk where p: "prepare_commit retention clk e0 = Inr p" using e0(2) by (auto simp: prepares_def)
  have wf: "wf_event e0" using e0(1) assms(4,6) by (metis list_all_length wf_job.simps(1))
  let ?led = "grow_tree p (sys_ledger s)"
  have inst: "install_commit ops p led0 = (e, ?led)"
    by (simp add: install_statements part Let_def)
  note io = install_ok [OF assms(1) wf p inst]
  have "threads_ok (length es0) jobs (new @ [e]) ?led (goes_to t (Committed e) (release (on_ledger (grow_tree p) s)))
    \<and> held_ok ops ?led (goes_to t (Committed e) (release (on_ledger (grow_tree p) s)))"
    using t(1) e0 io(3) assms(5) prepares_stamp [OF e0(2)] part(1)
    by (intro inside_move [OF assms(2,4), where x = "Committed e" and led = ?led])
      (auto simp: system_defs stamp_event_def)
  with io(1) show ?thesis unfolding system_ok_def by auto
qed

lemma step_ok:
  assumes "commit_step ops s s'" "system_ok holds ops es0 jobs s new" "list_all wf_job jobs"
  shows "\<exists>new'. system_ok holds ops es0 jobs s' new'"
proof -
  obtain led0 where ok: "ledger_ok holds led0 (es0 @ new)" "threads_ok (length es0) jobs new led0 s" "held_ok ops led0 s"
    using assms(2) by (auto simp: system_ok_def)
  obtain t where t': "t < length (sys_threads s)" and step: "thread_step ops t (sys_threads s ! t) s s'"
    using assms(1) by (rule commit_stepE)
  then have t: "t < length jobs" and serves: "serves (jobs ! t) (sys_threads s ! t)"
    and lock: "inside (sys_threads s ! t) \<longleftrightarrow> sys_lock s = Some t"
    using ok(2) by (simp_all add: threads_ok_def)
  have part: "part_done ops (sys_threads s ! t) led0 (sys_ledger s)" if "inside (sys_threads s ! t)"
    using ok(3) lock that by (simp add: held_ok_def)
  from step show ?thesis
  proof cases
    case (step_prepare clock e p)
    then have "serves (jobs ! t) (Prepared p)" using serves by (cases "jobs ! t") (auto simp: prepares_def)
    with outside_move [OF ok(2,3) t, of "Prepared p"] step_prepare ok(1) show ?thesis
      unfolding system_ok_def by (metis committed_event.simps inside.simps snapshot_ok.simps)
  next
    case (step_raise clock e x)
    then have "serves (jobs ! t) (Failed x)" using serves by (cases "jobs ! t") auto
    with outside_move [OF ok(2,3) t, of "Failed x"] step_raise ok(1) show ?thesis
      unfolding system_ok_def by (metis committed_event.simps inside.simps snapshot_ok.simps)
  next
    case (step_enter s1 p)
    then have "serves (jobs ! t) (Entered p)" using serves by (cases "jobs ! t") auto
    with entering [OF ok t step_enter(3)] step_enter show ?thesis by auto
  next
    case (step_stamp p)
    then have "system_ok holds ops es0 jobs s' new"
      using serves lock part
      by (intro working [OF ok(1,2) t, where x = "Stamped p (stamp_event ops p led0)" and led = led0])
        (cases "jobs ! t"; auto simp: system_defs)+
    then show ?thesis ..
  next
    case (step_store p e)
    then have "system_ok holds ops es0 jobs s' new"
      using serves lock part
      by (intro working [OF ok(1,2) t, where x = "Stored p e" and led = "store_event ops e led0"])
        (cases "jobs ! t"; auto simp: system_defs)+
    then show ?thesis ..
  next
    case (step_refuse p e x)
    then have "system_ok holds ops es0 jobs s' new"
      using serves lock part
      by (intro working [OF ok(1,2) t, where x = "Failed x" and led = led0])
        (cases "jobs ! t"; auto simp: system_defs)+
    then show ?thesis ..
  next
    case (step_list p e)
    then have "system_ok holds ops es0 jobs s' new"
      using serves lock part
      by (intro working [OF ok(1,2) t, where x = "Listed p e" and led = "list_leaf p (store_event ops e led0)"])
        (cases "jobs ! t"; auto simp: system_defs)+
    then show ?thesis ..
  next
    case (step_grow p e)
    then show ?thesis using finishing [OF ok t _ assms(3)] by auto
  next
    case (step_ask s1)
    then have "serves (jobs ! t) Looking" using serves by (cases "jobs ! t") auto
    with entering [OF ok t step_ask(3)] step_ask show ?thesis by auto
  next
    case step_measure
    then have "system_ok holds ops es0 jobs s' new"
      using serves lock part
      by (intro working [OF ok(1,2) t, where x = "Measured (ledger_size led0)" and led = led0])
        (cases "jobs ! t"; auto simp: system_defs)+
    then show ?thesis ..
  next
    case (step_answer n)
    have "length (led_leaves led0) = length (es0 @ new)" using ok(1) by (simp add: ledger_ok_def log_of_def)
    then have "snapshot_ok (led_leaves led0) (length es0) (Answered (ledger_size led0) (root_hex led0))"
      using ledger_root_ok [OF ok(1)] by (auto simp: ledger_size_def root_hex_def intro!: exI [of _ "length (es0 @ new)"])
    with step_answer have "system_ok holds ops es0 jobs s' new"
      using serves lock part
      by (intro working [OF ok(1,2) t, where x = "Answered n (root_hex led0)" and led = led0])
        (cases "jobs ! t"; auto simp: system_defs)+
    then show ?thesis ..
  qed
qed

lemma steps_ok:
  assumes "commit_steps ops s s'" "system_ok holds ops es0 jobs s []" "list_all wf_job jobs"
  shows "\<exists>new. system_ok holds ops es0 jobs s' new"
  using assms
proof (induction rule: commit_steps.induct)
  case (steps_step s' s'')
  then show ?case using step_ok by blast
qed blast

lemma started_ok: "ledger_ok holds led es0 \<Longrightarrow> system_ok holds ops es0 jobs (started led jobs) []"
proof -
  assume ok: "ledger_ok holds led es0"
  have one: "serves j (start_thread j)" "\<not> inside (start_thread j)" "snapshot_ok hs n (start_thread j)"
    "committed_event (start_thread j) = None" for j hs n
    by (cases j; simp)+
  have "committed_events (map start_thread jobs) = []" by (induction jobs) (simp_all add: one)
  with ok show "system_ok holds ops es0 jobs (started led jobs) []"
    unfolding system_ok_def
    by (intro exI [of _ led]) (simp add: threads_ok_def held_ok_def started_def one)
qed

end

end
