(* ===== verification/Concurrency_Properties.thy ===== *)
theory Concurrency_Properties imports Ledger_Properties Ledger_Concurrent begin

text \<open>
  Properties of the ledger with several writers: threads sharing one ledger, shards under one
  super-root, and processes sharing one SQL table.
\<close>

section \<open>Threads\<close>

text \<open>Statements a thread has still to execute.\<close>

fun thread_work :: "thread \<Rightarrow> nat" where
  "thread_work (Waiting e) = 6"
| "thread_work (Prepared p) = 5"
| "thread_work (Entered p) = 4"
| "thread_work (Stamped p e) = 3"
| "thread_work (Stored p e) = 2"
| "thread_work (Listed p e) = 1"
| "thread_work Asking = 3"
| "thread_work Looking = 2"
| "thread_work (Measured n) = 1"
| "thread_work (Committed e) = 0"
| "thread_work (Failed x) = 0"
| "thread_work (Answered n r) = 0"

definition work :: "'b system \<Rightarrow> nat" where
  "work s = sum_list (map thread_work (sys_threads s))"

lemma work_update:
  "t < length ts \<Longrightarrow> thread_work x < thread_work (ts ! t) \<Longrightarrow>
    sum_list (map thread_work (ts[t := x])) < sum_list (map thread_work ts)"
  by (induction ts arbitrary: t) (auto simp: nth_Cons split: nat.splits)

lemma thread_step_work:
  "thread_step ops t x s s' \<Longrightarrow> \<exists>y. sys_threads s' = (sys_threads s)[t := y] \<and> thread_work y < thread_work x"
  by (erule thread_stepE) (auto simp: system_defs dest!: acquire_free)

lemma step_work: "commit_step ops s s' \<Longrightarrow> work s' < work s"
  by (auto simp: work_def elim!: commit_stepE dest!: thread_step_work intro!: work_update)

text \<open>Whoever holds the lock, and whoever is outside the section it guards, can move; when the
  lock is free, so can those who ask for it.\<close>

lemma thread_moves:
  assumes "thread_work x \<noteq> 0" "inside x \<or> sys_lock s = None"
  shows "\<exists>s'. thread_step ops t x s s'"
proof (cases x)
  case (Waiting e)
  then show ?thesis
    using thread_step.step_prepare [where s = s and clock = "''c''" and e = e]
      thread_step.step_raise [where s = s and clock = "''c''" and e = e]
    by (cases "prepare_commit (led_retention (sys_ledger s)) ''c'' e") blast+
qed (use assms thread_step.intros [where s = s] in \<open>fastforce simp: acquire_def\<close>)+

definition quiet :: "'b system \<Rightarrow> bool" where
  "quiet s \<longleftrightarrow> sys_lock s = None \<and> list_all (\<lambda>x. thread_work x = 0) (sys_threads s)"

lemma quiet_or_moves:
  assumes "\<forall>t < length (sys_threads s). inside (sys_threads s ! t) \<longleftrightarrow> sys_lock s = Some t"
    and "\<forall>t. sys_lock s = Some t \<longrightarrow> t < length (sys_threads s)"
  shows "quiet s \<or> (\<exists>s'. commit_step ops s s')"
proof (cases "sys_lock s")
  case None
  show ?thesis
  proof (cases "quiet s")
    case False
    with None obtain t where t: "t < length (sys_threads s)" "thread_work (sys_threads s ! t) \<noteq> 0"
      by (auto simp: quiet_def list_all_length)
    from thread_moves [OF t(2), of s] None step_thread [OF t(1)] show ?thesis by blast
  qed simp
next
  case (Some t)
  with assms have t: "t < length (sys_threads s)" "inside (sys_threads s ! t)" by simp_all
  from t(2) have "thread_work (sys_threads s ! t) \<noteq> 0" by (cases "sys_threads s ! t") simp_all
  from thread_moves [OF this, of s] t step_thread [OF t(1)] show ?thesis by blast
qed

text \<open>The lock alone, without a claim about the ledger.\<close>

lemma lock_held:
  assumes "commit_steps ops (started led jobs) s"
  shows "(\<forall>t < length (sys_threads s). inside (sys_threads s ! t) \<longleftrightarrow> sys_lock s = Some t)
    \<and> (\<forall>t. sys_lock s = Some t \<longrightarrow> t < length (sys_threads s))"
  using assms
proof (induction rule: commit_steps.induct)
  case steps_refl
  have "\<not> inside (start_thread j)" for j by (cases j) simp_all
  then show ?case by (simp add: started_def)
next
  case (steps_step s' s'')
  from steps_step.hyps(2) obtain t where t: "t < length (sys_threads s')"
    and step: "thread_step ops t (sys_threads s' ! t) s' s''" by (rule commit_stepE)
  from step show ?case
    using steps_step.IH t by cases (auto simp: system_defs nth_list_update dest!: acquire_free split: if_splits)
qed

text \<open> C12. Concurrent commits serialise.  Threads commit well-formed events to one file ledger and take
  snapshots of it, in any interleaving of their statements; a thread that asks for the lock while
  another is between its acquisition and its release waits.  Whenever the lock is free, the
  ledger holds its earlier events followed by exactly the events of the threads that have
  returned, each being the event that thread was given with its id and its ledger fields filled in;
  indices have no gaps, every leaf is the hash of its event, the root is the tree hash of the
  leaves.  Every snapshot taken on the way is a size and the root of the log cut to that size.\<close>

theorem concurrent_commits_serialise:
  assumes "ledger_ok file_holds led old" "list_all wf_job jobs"
    and "commit_steps file_ops (started led jobs) s" "sys_lock s = None"
  shows "\<exists>new. events file_ops (sys_ledger s) = Inr (old @ new)
    \<and> mset new = mset (committed_events (sys_threads s))
    \<and> (\<forall>t e'. t < length jobs \<and> sys_threads s ! t = Committed e' \<longrightarrow>
          (\<exists>e. jobs ! t = Commit_Job e \<and> finalize_id e = Inr (e'\<lparr>ledger := ledger e\<rparr>)))
    \<and> map (\<lambda>e. Option.bind (ledger e) ledger_leaf_index) (old @ new)
        = map (\<lambda>i. Some (int i)) [0..<length (old @ new)]
    \<and> map (\<lambda>e. map_sum id leaf_hash (leaf_content_bytes e)) (old @ new) = map Inr (led_leaves (sys_ledger s))
    \<and> ledger_root (sys_ledger s) = tree_hash (led_leaves (sys_ledger s))
    \<and> (\<forall>t n r. t < length jobs \<and> sys_threads s ! t = Answered n r \<longrightarrow>
          int (length old) \<le> n \<and> n \<le> int (length (old @ new))
          \<and> r = hex (tree_hash (take (nat n) (led_leaves (sys_ledger s)))))"
proof -
  obtain new where new: "system_ok file_holds file_ops old jobs s new"
    using jsonl.steps_ok [OF assms(3) [unfolded file_ops_def] jsonl.started_ok [OF assms(1)] assms(2)]
    by (auto simp: file_ops_def)
  then have ok: "ledger_ok file_holds (sys_ledger s) (old @ new)"
    "threads_ok (length old) jobs new (sys_ledger s) s"
    using assms(4) by (auto simp: system_ok_def held_ok_def)
  let ?hs = "led_leaves (sys_ledger s)"
  define es where "es = old @ new"
  have log: "length ?hs = length es" "\<forall>i < length es. committed (es ! i) i (?hs ! i)"
    using ok(1) unfolding ledger_ok_def log_of_def es_def by blast+
  have "map (\<lambda>e. Option.bind (ledger e) ledger_leaf_index) es = map (\<lambda>i. Some (int i)) [0..<length es]"
    using log by (intro nth_equalityI) (auto simp: committed_def)
  moreover have "map (\<lambda>e. map_sum id leaf_hash (leaf_content_bytes e)) es = map Inr ?hs"
    using log by (intro nth_equalityI) (auto simp: committed_def)
  moreover have "\<exists>e. jobs ! t = Commit_Job e \<and> finalize_id e = Inr (e'\<lparr>ledger := ledger e\<rparr>)"
    if "t < length jobs" "sys_threads s ! t = Committed e'" for t e'
  proof -
    have "serves (jobs ! t) (Committed e')" using ok(2) that unfolding threads_ok_def by metis
    then show ?thesis by (cases "jobs ! t") simp_all
  qed
  moreover have "int (length old) \<le> n \<and> n \<le> int (length es) \<and> r = hex (tree_hash (take (nat n) ?hs))"
    if "t < length jobs" "sys_threads s ! t = Answered n r" for t n r
  proof -
    have "snapshot_ok ?hs (length old) (Answered n r)" using ok(2) that unfolding threads_ok_def by metis
    then show ?thesis using log(1) by auto
  qed
  ultimately show ?thesis
    using jsonl.events_ok [OF ok(1)] ok(2) ledger_root_ok [OF ok(1)]
    by (intro exI [of _ new]) (simp only: file_ops_def threads_ok_def es_def [symmetric], blast)
qed

text \<open>Runs of one thread alone.\<close>

lemma move:
  "thread_step ops t x s s' \<Longrightarrow> t < length (sys_threads s) \<Longrightarrow> sys_threads s ! t = x \<Longrightarrow> commit_step ops s s'"
  by (auto intro: step_thread)

lemma move_first: "commit_step ops s s' \<Longrightarrow> commit_steps ops s' s'' \<Longrightarrow> commit_steps ops s s''"
  by (rule steps_append [OF steps_step [OF steps_refl]])

lemma run_prepare:
  assumes "t < length (sys_threads s)" "sys_threads s ! t = Waiting e"
    "prepare_commit (led_retention (sys_ledger s)) clk e = Inr p"
  shows "commit_steps ops s (goes_to t (Prepared p) s)"
  by (rule move_first [OF move [OF step_prepare [OF assms(3)] assms(1,2)] steps_refl])

lemma run_commit_alone:
  assumes "t < length (sys_threads s)" "sys_threads s ! t = Prepared p" "sys_lock s = None"
    "install_commit ops p (sys_ledger s) = (e, led')"
  shows "commit_steps ops s (s\<lparr>sys_ledger := led', sys_threads := (sys_threads s)[t := Committed e]\<rparr>)"
proof -
  have e: "e = stamp_event ops p (sys_ledger s)"
    "led' = grow_tree p (list_leaf p (store_event ops e (sys_ledger s)))"
    using assms(4) by (auto simp: install_statements Let_def)
  let ?at = "\<lambda>x led lock. s\<lparr>sys_ledger := led, sys_lock := lock, sys_threads := (sys_threads s)[t := x]\<rparr>"
  let ?led = "sys_ledger s"
  have set: "s\<lparr>sys_lock := Some t, sys_ledger := led, sys_threads := ts\<rparr>
      = s\<lparr>sys_ledger := led, sys_lock := Some t, sys_threads := ts\<rparr>" for led ts by (cases s) simp
  have "acquire t s = Some (s\<lparr>sys_lock := Some t\<rparr>)" using assms(3) by (simp add: acquire_def)
  from move [OF step_enter [OF this] assms(1,2)]
  have "commit_step ops s (?at (Entered p) ?led (Some t))" by (simp add: goes_to_def)
  moreover have "commit_step ops (?at (Entered p) ?led (Some t)) (?at (Stamped p e) ?led (Some t))"
    using move [OF step_stamp [where ops = ops and t = t and p = p and s = "?at (Entered p) ?led (Some t)"]] assms(1) e
    by (simp add: goes_to_def)
  moreover have "commit_step ops (?at (Stamped p e) ?led (Some t)) (?at (Stored p e) (store_event ops e ?led) (Some t))"
    using move [OF step_store, where t = t and ops = ops and s = "?at (Stamped p e) ?led (Some t)"] assms(1) by (simp add: system_defs set)
  moreover have "commit_step ops (?at (Stored p e) (store_event ops e ?led) (Some t))
      (?at (Listed p e) (list_leaf p (store_event ops e ?led)) (Some t))"
    using move [OF step_list, where t = t and ops = ops and s = "?at (Stored p e) (store_event ops e ?led) (Some t)"] assms(1)
    by (simp add: system_defs set)
  moreover have "commit_step ops (?at (Listed p e) (list_leaf p (store_event ops e ?led)) (Some t))
      (?at (Committed e) led' None)"
    using move [OF step_grow, where t = t and ops = ops and s = "?at (Listed p e) (list_leaf p (store_event ops e ?led)) (Some t)"] assms(1) e(2)
    by (cases s) (simp add: system_defs)
  ultimately have "commit_steps ops s (?at (Committed e) led' None)"
    by (blast intro: steps_refl move_first)
  moreover have "?at (Committed e) led' None = s\<lparr>sys_ledger := led', sys_threads := (sys_threads s)[t := Committed e]\<rparr>"
    using assms(3) by (cases s) simp
  ultimately show ?thesis by simp
qed

lemma run_snapshot:
  assumes "t < length (sys_threads s)" "sys_threads s ! t = Asking" "sys_lock s = None"
  shows "commit_steps ops s (goes_to t (Answered (ledger_size (sys_ledger s)) (root_hex (sys_ledger s))) s)"
proof -
  let ?at = "\<lambda>x lock. s\<lparr>sys_lock := lock, sys_threads := (sys_threads s)[t := x]\<rparr>"
  let ?n = "ledger_size (sys_ledger s)"
  have "acquire t s = Some (s\<lparr>sys_lock := Some t\<rparr>)" using assms(3) by (simp add: acquire_def)
  from move [OF step_ask [OF this] assms(1,2)]
  have "commit_step ops s (?at Looking (Some t))" by (simp add: goes_to_def)
  moreover have "commit_step ops (?at Looking (Some t)) (?at (Measured ?n) (Some t))"
    using move [OF step_measure, where t = t and ops = ops and s = "?at Looking (Some t)"] assms(1) by (simp add: goes_to_def)
  moreover have "commit_step ops (?at (Measured ?n) (Some t)) (?at (Answered ?n (root_hex (sys_ledger s))) None)"
    using move [OF step_answer, where t = t and ops = ops and s = "?at (Measured ?n) (Some t)"] assms(1) by (simp add: system_defs)
  ultimately have "commit_steps ops s (?at (Answered ?n (root_hex (sys_ledger s))) None)"
    by (blast intro: steps_refl move_first)
  moreover have "?at x None = goes_to t x s" for x using assms(3) by (cases s) (simp add: goes_to_def)
  ultimately show ?thesis by simp
qed

text \<open>Two committers and a reader, for the instances: both have prepared before either locks, and the
  second is the first to commit.\<close>

abbreviation sample_jobs :: "job list" where
  "sample_jobs \<equiv> [Commit_Job (sample_event ''a''), Commit_Job (sample_event ''b''), Snapshot_Job]"

lemma both_prepared:
  obtains p q where "commit_steps ops (started (fresh b) sample_jobs)
      \<lparr>sys_ledger = fresh b, sys_lock = None, sys_threads = [Prepared p, Prepared q, Asking]\<rparr>"
proof -
  let ?clk = "''2026-01-01T00:00:00.000000000Z''"
  have "\<exists>p. prepare_commit None ?clk (sample_event x) = Inr p" for x
    by (rule prepare_total) simp_all
  then obtain p q where pq: "prepare_commit None ?clk (sample_event ''a'') = Inr p"
    "prepare_commit None ?clk (sample_event ''b'') = Inr q" by blast
  let ?s = "started (fresh b) sample_jobs"
  have "commit_steps ops ?s (goes_to 1 (Prepared q) (goes_to 0 (Prepared p) ?s))"
    by (rule steps_append [OF run_prepare [where t = 0] run_prepare [where t = 1]])
      (use pq in \<open>simp_all add: started_def goes_to_def fresh_def\<close>)
  then show ?thesis using that by (simp add: started_def goes_to_def)
qed

theorem concurrent_commits_serialise_witness:
  "\<exists>s e1 e2 r new. commit_steps file_ops (started (fresh (open_file_backend [])) sample_jobs) s
    \<and> sys_threads s = [Committed e1, Committed e2, Answered 1 r]
    \<and> events file_ops (sys_ledger s) = Inr new \<and> mset new = {#e1, e2#}
    \<and> finalize_id (sample_event ''a'') = Inr (e1\<lparr>ledger := None\<rparr>)
    \<and> r = hex (tree_hash (take 1 (led_leaves (sys_ledger s))))"
proof -
  let ?b = "open_file_backend []"
  obtain p q where run: "commit_steps file_ops (started (fresh ?b) sample_jobs)
      \<lparr>sys_ledger = fresh ?b, sys_lock = None, sys_threads = [Prepared p, Prepared q, Asking]\<rparr>"
    (is "commit_steps _ _ ?s0") using both_prepared .
  obtain e2 led1 where two: "install_commit file_ops q (fresh ?b) = (e2, led1)" by fastforce
  let ?s1 = "?s0\<lparr>sys_ledger := led1, sys_threads := [Prepared p, Committed e2, Asking]\<rparr>"
  have s1: "commit_steps file_ops ?s0 ?s1"
    using run_commit_alone [where t = 1 and s = ?s0 and p = q and ops = file_ops] two by simp
  have n: "ledger_size led1 = 1" using two by (auto simp: install_commit_def Let_def ledger_size_def fresh_def)
  let ?s2 = "?s1\<lparr>sys_threads := [Prepared p, Committed e2, Answered 1 (root_hex led1)]\<rparr>"
  have s2: "commit_steps file_ops ?s1 ?s2"
    using run_snapshot [where t = 2 and s = ?s1 and ops = file_ops] n by (simp add: goes_to_def)
  obtain e1 led2 where one: "install_commit file_ops p led1 = (e1, led2)" by fastforce
  let ?s3 = "?s2\<lparr>sys_ledger := led2, sys_threads := [Committed e1, Committed e2, Answered 1 (root_hex led1)]\<rparr>"
  have "commit_steps file_ops ?s2 ?s3"
    using run_commit_alone [where t = 0 and s = ?s2 and p = p] one by simp
  then have all: "commit_steps file_ops (started (fresh ?b) sample_jobs) ?s3"
    using run s1 s2 steps_append by blast
  have "list_all wf_job sample_jobs" by simp
  from concurrent_commits_serialise [OF fresh_file this all] obtain new where new:
    "events file_ops led2 = Inr new" "mset new = mset (committed_events (sys_threads ?s3))"
    "\<forall>t e'. t < length sample_jobs \<and> sys_threads ?s3 ! t = Committed e' \<longrightarrow>
        (\<exists>e. sample_jobs ! t = Commit_Job e \<and> finalize_id e = Inr (e'\<lparr>ledger := ledger e\<rparr>))"
    "\<forall>t n r. t < length sample_jobs \<and> sys_threads ?s3 ! t = Answered n r \<longrightarrow>
        r = hex (tree_hash (take (nat n) (led_leaves led2)))"
    by (simp only: system.simps append_Nil) blast
  from new(3) [rule_format, of 0 e1] have "finalize_id (sample_event ''a'') = Inr (e1\<lparr>ledger := None\<rparr>)"
    by (simp add: sample_event_def bare_event_def)
  moreover from new(4) [rule_format, of 2] have "root_hex led1 = hex (tree_hash (take 1 (led_leaves led2)))" by simp
  ultimately show ?thesis
    using all new(1,2) by (intro exI [of _ ?s3] exI [of _ e1] exI [of _ e2] exI [of _ "root_hex led1"] exI [of _ new]) simp
qed

lemma run_to_the_end:
  assumes "commit_steps ops (started led jobs) s"
  shows "\<exists>s'. commit_steps ops s s' \<and> quiet s'"
  using assms
proof (induction "work s" arbitrary: s rule: less_induct)
  case less
  consider "quiet s" | s' where "commit_step ops s s'"
    using quiet_or_moves lock_held [OF less.prems] by blast
  then show ?case
  proof cases
    case 2
    with less.hyps [OF step_work steps_step] less.prems obtain s'' where "commit_steps ops s' s''" "quiet s''" by blast
    with 2 steps_append [OF steps_step [OF steps_refl 2]] show ?thesis by blast
  qed (blast intro: steps_refl)
qed

text \<open> C40. Commits always finish.  Whatever state the threads have reached, every statement executed
  brings the end nearer, and either some thread can move or all have returned and the lock is
  free: no schedule blocks, on its own lock or on another's, and none runs forever.  So from every
  such state the threads can be run to the end.\<close>

theorem commits_finish:
  assumes "commit_steps sql_ops (started led jobs) s"
  shows "(\<forall>s'. commit_step sql_ops s s' \<longrightarrow> work s' < work s)
    \<and> (quiet s \<or> (\<exists>s'. commit_step sql_ops s s'))
    \<and> (\<exists>s'. commit_steps sql_ops s s' \<and> quiet s')"
  using step_work quiet_or_moves lock_held [OF assms] run_to_the_end [OF assms] by blast

theorem commits_finish_witness:
  "\<exists>p q s s'. commit_steps sql_ops (started (fresh (sql_open \<lparr>tbl_rows = [], tbl_next = 1\<rparr>)) sample_jobs) s
    \<and> sys_threads s = [Prepared p, Entered q, Asking] \<and> sys_lock s = Some 1
    \<and> (\<exists>s''. commit_step sql_ops s s'') \<and> commit_steps sql_ops s s' \<and> quiet s'"
proof -
  let ?led = "fresh (sql_open \<lparr>tbl_rows = [], tbl_next = 1\<rparr>)"
  obtain p q where run: "commit_steps sql_ops (started ?led sample_jobs)
      \<lparr>sys_ledger = ?led, sys_lock = None, sys_threads = [Prepared p, Prepared q, Asking]\<rparr>"
    (is "commit_steps _ _ ?both") using both_prepared .
  let ?s = "\<lparr>sys_ledger = ?led, sys_lock = Some 1, sys_threads = [Prepared p, Entered q, Asking]\<rparr>"
  have free: "acquire 1 ?both = Some (?both\<lparr>sys_lock := Some 1\<rparr>)" by (simp add: acquire_def)
  from step_enter [OF free, where ops = sql_ops and p = q] have "thread_step sql_ops 1 (Prepared q) ?both ?s"
    by (simp add: goes_to_def)
  then have "commit_step sql_ops ?both ?s" using step_thread [of 1 ?both sql_ops ?s] by simp
  with run have s: "commit_steps sql_ops (started ?led sample_jobs) ?s" by (rule steps_step)
  have "\<not> quiet ?s" by (simp add: quiet_def)
  with commits_finish [OF s] obtain s' where "\<exists>s''. commit_step sql_ops ?s s''"
    "commit_steps sql_ops ?s s'" "quiet s'" by blast
  with s show ?thesis
    by (intro exI [of _ p] exI [of _ q] exI [of _ ?s] exI [of _ s']) simp
qed

section \<open>Shards\<close>

text \<open> A sharded proof pinned to a checkpoint verifies: for every event that was in a shard when
  the checkpoint was taken, the proof generated later, after the shard has grown, passes
  \<open>verify_sharded_inclusion\<close> against the signed super-root.\<close>

theorem sharded_proof_verifies:
  assumes "ledger_ok file_holds led es" "ledger_run file_ops led new led'" "i < length es"
    and "sharded_checkpoint key clk ts \<lparr>sh_shards = ls @ led # rs, sh_origin = org\<rparr> = Inr cp"
    and "length ls' = length ls" "length rs' = length rs"
    and "sharded_inclusion_proof (int (length ls)) (int i) (Some cp)
          \<lparr>sh_shards = ls' @ led' # rs', sh_origin = org\<rparr> = res"
  shows "\<exists>pf p q b super root. res = Inr pf \<and> sp_shard_proof pf = map hex p \<and> sp_super_proof pf = map hex q
    \<and> leaf_content_bytes (es ! i) = Inr b \<and> fromhex (cp_root_hash cp) = Inr super
    \<and> fromhex (sp_shard_root pf) = Inr root
    \<and> verify_sharded_inclusion (leaf_hash b) (int i) (int (length es)) p root
        (int (length ls)) (int (length ls + Suc (length rs))) q super"
proof -
  let ?sh = "\<lparr>sh_shards = ls @ led # rs, sh_origin = org\<rparr>"
  let ?sh' = "\<lparr>sh_shards = ls' @ led' # rs', sh_origin = org\<rparr>"
  note run = jsonl.run_ok [OF assms(2) [unfolded file_ops_def] assms(1)]
  have k: "sh_shards ?sh ! length ls = led" "sh_shards ?sh' ! length ls = led'"
    using assms(5) by (simp_all add: nth_append)
  have "committed ((es @ new) ! i) i (led_leaves led' ! i)"
    using run assms(3) by (simp add: ledger_ok_def log_of_def)
  then obtain b where b: "leaf_content_bytes (es ! i) = Inr b" "led_leaves led' ! i = leaf_hash b"
    using assms(3) by (auto simp: committed_def nth_append)
  obtain pf p q where pf: "res = Inr pf" "sp_shard_proof pf = map hex p" "sp_super_proof pf = map hex q"
    "sp_shard_root pf = root_hex led"
    "verify_sharded_inclusion (led_leaves led' ! i) (int i) (int (length es)) p
       (ledger_root led) (int (length ls)) (int (length (sh_shards ?sh))) q (super_root ?sh)"
    using sharded_pinned_proof [OF assms(4), of ?sh' "length ls" file_holds es file_holds "es @ new" i]
      run assms k by auto
  moreover have "cp_root_hash cp = hex (super_root ?sh)"
    using sharded_checkpoint_fields(1) [OF assms(4)] by (simp add: super_root_hex_def)
  ultimately show ?thesis
    using b by (intro exI [of _ pf] exI [of _ p] exI [of _ q] exI [of _ b] exI [of _ "super_root ?sh"]
      exI [of _ "ledger_root led"]) (simp add: root_hex_def)
qed

theorem sharded_proof_verifies_witness:
  "\<exists>led cp pf. sharded_checkpoint echo_key ''t'' None
      \<lparr>sh_shards = [fresh (open_file_backend []), led], sh_origin = ''o''\<rparr> = Inr cp
    \<and> sharded_inclusion_proof 1 0 (Some cp)
      \<lparr>sh_shards = [fresh (open_file_backend []), led], sh_origin = ''o''\<rparr> = Inr pf"
proof -
  have wf: "wf_event (sample_event ''a'')" by simp
  obtain e led where c: "commit file_ops ''2026-01-01T00:00:00.000000000Z'' (sample_event ''a'')
      (fresh (open_file_backend [])) = Inr (e, led)"
    using fresh_commit [OF wf, where ops = file_ops] by blast
  have ok: "ledger_ok file_holds led [e]"
    using jsonl.commit_ok [OF fresh_file wf c [unfolded file_ops_def]] by simp
  let ?sh = "\<lparr>sh_shards = [fresh (open_file_backend [])] @ led # [], sh_origin = ''o''\<rparr>"
  obtain cp where cp: "sharded_checkpoint echo_key ''t'' None ?sh = Inr cp"
    using sign_checkpoint_total [of echo_key "''o''" "total_size ?sh" "super_root_hex ?sh" "''t''"]
    by (auto simp: sharded_checkpoint_def Let_def total_size_def super_root_hex_def super_root_def
        shard_roots_def)
  from sharded_proof_verifies [OF ok run_start _ cp refl refl refl, of 0] cp show ?thesis by auto
qed

section \<open>One table, two writers\<close>

text \<open> A reader that lags behind another writer of the same table still reads every position
  correctly, because it reloads the identities it is missing.\<close>

theorem sql_lagging_reader:
  assumes "sql_holds b rs" "plain (JDict q)" "i \<le> length rs"
  shows "fst (sql_get_record (int i) (foreign_append q (rolled_back_insert b))) = Inr (JDict ((rs @ [q]) ! i))"
proof -
  let ?b = "foreign_append q (rolled_back_insert b)"
  have t: "table_holds (sql_tbl (rolled_back_insert b)) rs"
    using assms(1) by (fastforce simp: sql_holds_def table_holds_def rolled_back_insert_def)
  have "sql_idx ?b = map fst (take (length rs) (tbl_rows (sql_tbl ?b)))"
    using assms(1) table_holds_length [of "sql_tbl b" rs]
    by (auto simp: sql_holds_def foreign_append_def rolled_back_insert_def db_insert_def)
  with lagging_get [of ?b "rs @ [q]" "length rs" i] table_insert [OF t assms(2)] assms(3)
  show ?thesis by (simp add: foreign_append_def)
qed

theorem sql_lagging_reader_witness:
  "fst (sql_get_record 0 (foreign_append [] (rolled_back_insert
      (sql_open \<lparr>tbl_rows = [], tbl_next = 1\<rparr>)))) = Inr (JDict [])"
  using sql_lagging_reader [OF sql_reopen, of "\<lparr>tbl_rows = [], tbl_next = 1\<rparr>" "[]" "[]" 0]
  by (simp add: table_holds_def)

text \<open> A writer that lags does not: after another writer's insert \<open>q\<close>, an append of \<open>r\<close> through
  the stale handle leaves position \<open>length rs\<close> served with \<open>r\<close>, while iteration, which rebuilds the
  leaves on open, has \<open>q\<close> there.\<close>

theorem sql_stale_writer:
  assumes "sql_holds b rs" "plain (JDict q)" "plain (JDict r)"
  shows "sql_iter_records (sql_append_record r (foreign_append q b)) = Inr (map JDict (rs @ [q, r]))
    \<and> sql_size (sql_append_record r (foreign_append q b)) = int (length rs) + 2
    \<and> fst (sql_get_record (int (length rs)) (sql_append_record r (foreign_append q b))) = Inr (JDict r)"
  using stale_positions [OF assms] by simp

theorem sql_stale_writer_witness:
  "fst (sql_get_record 0 (sql_append_record [(''a'', JNull)] (foreign_append []
      (sql_open \<lparr>tbl_rows = [], tbl_next = 1\<rparr>)))) = Inr (JDict [(''a'', JNull)])"
  using sql_stale_writer [OF sql_reopen, of "\<lparr>tbl_rows = [], tbl_next = 1\<rparr>" "[]" "[]" "[(''a'', JNull)]"]
  by (simp add: table_holds_def)

section \<open>Backends\<close>

text \<open> C30. What the backends have in common: after the same appends to fresh ones, memory, file and table
  report the same size, iterate over the same records and answer every index from 0 up with the
  same record or the same IndexError.  They part at negative indices: the file and the table
  refuse them, the memory backend counts them from the end, as its list does.\<close>

theorem backends_agree:
  assumes "list_all (\<lambda>r. plain (JDict r)) rs"
  defines "m \<equiv> foldl (\<lambda>b r. mem_append_record r b) [] rs"
    and "f \<equiv> foldl (\<lambda>b r. file_append_record r b) (open_file_backend []) rs"
    and "s \<equiv> foldl (\<lambda>b r. sql_append_record r b) (sql_open \<lparr>tbl_rows = [], tbl_next = 1\<rparr>) rs"
  shows "fst (file_get_record i f)
        = (if 0 \<le> i \<and> i < int (length rs) then Inr (JDict (rs ! nat i)) else Inl IndexError)
    \<and> fst (sql_get_record i s) = fst (file_get_record i f)
    \<and> fst (mem_get_record i m)
        = (if - int (length rs) \<le> i \<and> i < 0 then Inr (JDict (rs ! nat (int (length rs) + i)))
           else fst (file_get_record i f))
    \<and> mem_size m = int (length rs) \<and> file_size f = int (length rs) \<and> sql_size s = int (length rs)
    \<and> mem_iter_records m = Inr (map JDict rs) \<and> file_iter_records f = Inr (map JDict rs)
    \<and> sql_iter_records s = Inr (map JDict rs)"
proof -
  have m: "m = rs" using memory.append_all [of "[]" "[]" rs] assms(1) by (simp add: m_def)
  have f: "file_holds f rs"
    using jsonl.append_all [of "open_file_backend []" "[]" rs] assms(1) open_complete [of "[]"]
    by (simp add: f_def)
  have "sql_holds (sql_open \<lparr>tbl_rows = [], tbl_next = 1\<rparr>) []"
    by (rule sql_reopen) (simp add: table_holds_def)
  from sql.append_all [OF this assms(1)] have s: "sql_holds s rs" by (simp add: s_def)
  have gets: "fst (file_get_record i f) = (if 0 \<le> i \<and> i < int (length rs) then Inr (JDict (rs ! nat i)) else Inl IndexError)
      \<and> fst (sql_get_record i s) = fst (file_get_record i f)
      \<and> fst (mem_get_record i m)
        = (if - int (length rs) \<le> i \<and> i < 0 then Inr (JDict (rs ! nat (int (length rs) + i)))
           else fst (file_get_record i f))"
  proof (cases i)
    case (nonneg k)
    then show ?thesis
      using memory.get_holds [OF m] memory.get_beyond [OF m] jsonl.get_holds [OF f] jsonl.get_beyond [OF f]
        sql.get_holds [OF s] sql.get_beyond [OF s]
      by (cases "k < length rs") simp_all
  next
    case (neg k)
    then show ?thesis
      by (auto simp: file_get_record_def sql_get_record_def mem_get_record_def py_index_def Let_def m add.commute)
  qed
  show ?thesis
    using gets memory.size_holds [OF m] memory.iter_holds [OF m]
      jsonl.size_holds [OF f] jsonl.iter_holds [OF f] sql.size_holds [OF s] sql.iter_holds [OF s]
    by blast
qed

theorem backends_agree_witness:
  "fst (mem_get_record (-1) [[(''a'', JInt 1)], [(''b'', JInt 2)]]) = Inr (JDict [(''b'', JInt 2)])
    \<and> fst (file_get_record (-1) (file_append_record [(''b'', JInt 2)] (file_append_record [(''a'', JInt 1)]
          (open_file_backend [])))) = Inl IndexError
    \<and> fst (sql_get_record 1 (sql_append_record [(''b'', JInt 2)] (sql_append_record [(''a'', JInt 1)]
          (sql_open \<lparr>tbl_rows = [], tbl_next = 1\<rparr>)))) = Inr (JDict [(''b'', JInt 2)])"
  using backends_agree [of "[[(''a'', JInt 1)], [(''b'', JInt 2)]]" "-1"]
    backends_agree [of "[[(''a'', JInt 1)], [(''b'', JInt 2)]]" 1]
  by (simp add: mem_append_record_def)

end
