(* ===== verification/Crosswalk.thy ===== *)
theory Crosswalk imports Ledger_Laws begin

text \<open>
  \<open>src/src/openwright/crosswalk.py\<close>: the declarative schema of a crosswalk, the predicate interpreter
  over event dumps, and the three-state evaluation.  Events are the dumps of
  \<open>ComplianceEvent\<close> records; where the code compares events by identity (\<open>other is ev\<close>, and \<open>in\<close>,
  which tries identity first) the model uses their positions.
\<close>

section \<open>Schema\<close>

datatype control_status = SATISFIED | NOT_SATISFIED | INSUFFICIENT_EVIDENCE

fun control_status_value :: "control_status \<Rightarrow> string" where
  "control_status_value SATISFIED = ''satisfied''"
| "control_status_value NOT_SATISFIED = ''not_satisfied''"
| "control_status_value INSUFFICIENT_EVIDENCE = ''insufficient_evidence''"

datatype empty_scope_policy = Empty_Insufficient | Empty_Satisfied | Empty_Not_Satisfied

fun empty_scope_status :: "empty_scope_policy \<Rightarrow> control_status" where
  "empty_scope_status Empty_Insufficient = INSUFFICIENT_EVIDENCE"
| "empty_scope_status Empty_Satisfied = SATISFIED"
| "empty_scope_status Empty_Not_Satisfied = NOT_SATISFIED"

record event_filter =
  ef_kind :: "string list option"
  ef_risk_classification :: "string list option"
  ef_oversight_status :: "string list option"
  ef_source_format :: "string list option"
  ef_attribute_equals :: dict
  ef_has :: "string list"

datatype condition = Condition
  (cond_type: string)
  (cond_path: "string option")
  (cond_op: "string option")
  (cond_value: json)
  (cond_link: "string option")
  (cond_target: "event_filter option")
  (cond_conditions: "condition list")

record citation =
  cit_instrument :: string
  cit_article :: "string option"
  cit_clause :: "string option"
  cit_paragraphs :: "string list"
  cit_url :: "string option"
  cit_quote :: "string option"
  cit_effective_date :: "string option"
  cit_notes :: "string option"
  cit_extra :: dict

record control =
  ctl_id :: string
  ctl_title :: string
  ctl_requirement :: string
  ctl_citation :: citation
  ctl_scope :: event_filter
  ctl_condition :: condition
  ctl_empty_scope :: empty_scope_policy
  ctl_rationale :: "string option"
  ctl_completeness_sensitive :: bool
  ctl_variant :: "string option"
  ctl_applies_to_profiles :: "string list"

record crosswalk =
  cw_id :: string
  cw_title :: string
  cw_version :: string
  cw_source :: string
  cw_reviewed_as_of :: string
  cw_description :: "string option"
  cw_disclaimer :: "string option"
  cw_default_profiles :: "string list"
  cw_controls :: "control list"

definition select_profile :: "crosswalk \<Rightarrow> string list option \<Rightarrow> crosswalk" where
  "select_profile cw profile =
     (let selected = (case profile of Some p \<Rightarrow> p | None \<Rightarrow> cw_default_profiles cw)
      in cw\<lparr>cw_controls := filter (\<lambda>c. ctl_applies_to_profiles c = []
           \<or> list_ex (\<lambda>p. p \<in> set selected) (ctl_applies_to_profiles c)) (cw_controls cw)\<rparr>)"

section \<open>Definition hash\<close>

definition strs :: "string list \<Rightarrow> json" where
  "strs xs = JList (map JStr xs)"

definition dump_event_filter :: "event_filter \<Rightarrow> dict" where
  "dump_event_filter f =
     opt_field ''kind'' (map_option strs (ef_kind f))
     @ opt_field ''risk_classification'' (map_option strs (ef_risk_classification f))
     @ opt_field ''oversight_status'' (map_option strs (ef_oversight_status f))
     @ opt_field ''source_format'' (map_option strs (ef_source_format f))
     @ [(''attribute_equals'', JDict (ef_attribute_equals f))]
     @ [(''has'', strs (ef_has f))]"

fun dump_condition :: "condition \<Rightarrow> json" where
  "dump_condition (Condition t path oper val link target conds) = JDict
     ([(''type'', JStr t)]
      @ opt_field ''path'' (map_option JStr path)
      @ opt_field ''op'' (map_option JStr oper)
      @ (if val = JNull then [] else [(''value'', val)])
      @ opt_field ''link'' (map_option JStr link)
      @ opt_field ''target'' (map_option (\<lambda>f. JDict (dump_event_filter f)) target)
      @ [(''conditions'', JList (map dump_condition conds))])"

definition dump_citation :: "citation \<Rightarrow> dict" where
  "dump_citation c =
     [(''instrument'', JStr (cit_instrument c))]
     @ opt_field ''article'' (map_option JStr (cit_article c))
     @ opt_field ''clause'' (map_option JStr (cit_clause c))
     @ [(''paragraphs'', strs (cit_paragraphs c))]
     @ opt_field ''url'' (map_option JStr (cit_url c))
     @ opt_field ''quote'' (map_option JStr (cit_quote c))
     @ opt_field ''effective_date'' (map_option JStr (cit_effective_date c))
     @ opt_field ''notes'' (map_option JStr (cit_notes c))
     @ set_extras (cit_extra c)"

definition dump_control :: "control \<Rightarrow> dict" where
  "dump_control c =
     [(''id'', JStr (ctl_id c)), (''title'', JStr (ctl_title c)),
      (''requirement'', JStr (ctl_requirement c)),
      (''citation'', JDict (dump_citation (ctl_citation c))),
      (''scope'', JDict (dump_event_filter (ctl_scope c))),
      (''condition'', dump_condition (ctl_condition c)),
      (''empty_scope'', JStr (control_status_value (empty_scope_status (ctl_empty_scope c))))]
     @ opt_field ''rationale'' (map_option JStr (ctl_rationale c))
     @ [(''completeness_sensitive'', JBool (ctl_completeness_sensitive c))]
     @ opt_field ''variant'' (map_option JStr (ctl_variant c))
     @ [(''applies_to_profiles'', strs (ctl_applies_to_profiles c))]"

definition dump_crosswalk :: "crosswalk \<Rightarrow> dict" where
  "dump_crosswalk cw =
     [(''id'', JStr (cw_id cw)), (''title'', JStr (cw_title cw)), (''version'', JStr (cw_version cw)),
      (''source'', JStr (cw_source cw)), (''reviewed_as_of'', JStr (cw_reviewed_as_of cw))]
     @ opt_field ''description'' (map_option JStr (cw_description cw))
     @ opt_field ''disclaimer'' (map_option JStr (cw_disclaimer cw))
     @ [(''default_profiles'', strs (cw_default_profiles cw)),
        (''controls'', JList (map (\<lambda>c. JDict (dump_control c)) (cw_controls cw)))]"

definition crosswalk_content_hash :: "crosswalk \<Rightarrow> string result" where
  "crosswalk_content_hash cw = content_hash (JDict (dump_crosswalk cw))"

section \<open>Predicates over events\<close>

fun get_path :: "json \<Rightarrow> string list \<Rightarrow> json" where
  "get_path cur [] = cur"
| "get_path cur (part # parts) = (case cur of
     JDict d \<Rightarrow> (case map_of d part of Some v \<Rightarrow> get_path v parts | None \<Rightarrow> JNull)
   | _ \<Rightarrow> JNull)"

definition get_dotted :: "dict \<Rightarrow> string \<Rightarrow> json" where
  "get_dotted d dotted = get_path (JDict d) (split_at (CHR ''.'') dotted)"

definition one_of :: "json \<Rightarrow> string list option \<Rightarrow> bool" where
  "one_of v allowed = (case allowed of None \<Rightarrow> True | Some xs \<Rightarrow> list_ex (\<lambda>x. py_eq v (JStr x)) xs)"

definition matches :: "dict \<Rightarrow> event_filter \<Rightarrow> bool" where
  "matches ev f \<longleftrightarrow>
     one_of (dget_or ev ''kind'' JNull) (ef_kind f)
     \<and> one_of (get_dotted ev ''risk.classification'') (ef_risk_classification f)
     \<and> one_of (get_dotted ev ''oversight.status'') (ef_oversight_status f)
     \<and> one_of (get_dotted ev ''source.format'') (ef_source_format f)
     \<and> list_all (\<lambda>(path, v). py_eq (get_dotted ev path) v) (ef_attribute_equals f)
     \<and> list_all (\<lambda>path. get_dotted ev path \<noteq> JNull) (ef_has f)"

definition target_matches :: "event_filter option \<Rightarrow> dict \<Rightarrow> bool" where
  "target_matches target ev = (case target of None \<Rightarrow> True | Some f \<Rightarrow> matches ev f)"

definition by_id :: "dict list \<Rightarrow> json \<Rightarrow> dict option" where
  "by_id evs ref = find (\<lambda>e. truthy (dget_or e ''event_id'' JNull)
     \<and> py_eq (dget_or e ''event_id'' JNull) ref) (rev evs)"

definition link_key :: "string \<Rightarrow> string option" where
  "link_key link = map_of
     [(''same_task'', ''provenance.task_id''), (''same_context'', ''provenance.context_id''),
      (''references_root'', ''provenance.root_task_id'')] link"

definition linked :: "dict list \<Rightarrow> nat \<Rightarrow> string option \<Rightarrow> event_filter option \<Rightarrow> bool result" where
  "linked evs i link target =
     (let ev = evs ! i in
      if link = Some ''approval_ref'' then
        (let ref = get_dotted ev ''oversight.approval_ref''
         in if \<not> truthy ref then Inr False
            else if \<not> hashable ref then Inl TypeError
            else Inr (case by_id evs ref of None \<Rightarrow> False | Some cand \<Rightarrow> target_matches target cand))
      else case Option.bind link link_key of
        None \<Rightarrow> Inl ValueError
      | Some key \<Rightarrow>
          (let mine = get_dotted ev key
           in Inr (mine \<noteq> JNull \<and> list_ex (\<lambda>j. j \<noteq> i \<and> py_eq (get_dotted (evs ! j) key) mine
                \<and> target_matches target (evs ! j)) [0..<length evs])))"

definition field_test :: "dict \<Rightarrow> string option \<Rightarrow> string option \<Rightarrow> json \<Rightarrow> bool result" where
  "field_test ev path oper val =
     (let actual = (case path of None \<Rightarrow> JNull | Some p \<Rightarrow> if p = [] then JNull else get_dotted ev p);
          oper = (case oper of None \<Rightarrow> ''exists'' | Some x \<Rightarrow> if x = [] then ''exists'' else x)
      in if oper = ''exists'' then Inr (actual \<noteq> JNull)
         else if oper = ''eq'' then Inr (py_eq actual val)
         else if oper = ''ne'' then Inr (\<not> py_eq actual val)
         else if oper = ''in'' then (if truthy val then py_in actual val else Inr False)
         else if oper = ''gte'' then (if actual = JNull then Inr False else py_le val actual)
         else if oper = ''lte'' then (if actual = JNull then Inr False else py_le actual val)
         else Inr False)"

fun cond_holds :: "dict list \<Rightarrow> nat \<Rightarrow> condition \<Rightarrow> bool result"
  and any_holds :: "dict list \<Rightarrow> nat \<Rightarrow> condition list \<Rightarrow> bool result"
  and all_hold :: "dict list \<Rightarrow> nat \<Rightarrow> condition list \<Rightarrow> bool result"
where
  "cond_holds evs i (Condition t path oper val link target conds) =
     (if t = ''committed'' then Inr (truthy (get_dotted (evs ! i) ''ledger.leaf_hash''))
      else if t = ''field'' then field_test (evs ! i) path oper val
      else if t = ''linked'' then linked evs i link target
      else if t = ''any_of'' then any_holds evs i conds
      else if t = ''all_of'' then all_hold evs i conds
      else if t = ''not'' then sbind (all_hold evs i conds) (\<lambda>b. Inr (\<not> b))
      else Inl ValueError)"
| "any_holds evs i [] = Inr False"
| "any_holds evs i (c # cs) =
     sbind (cond_holds evs i c) (\<lambda>b. if b then Inr True else any_holds evs i cs)"
| "all_hold evs i [] = Inr True"
| "all_hold evs i (c # cs) =
     sbind (cond_holds evs i c) (\<lambda>b. if b then all_hold evs i cs else Inr False)"

section \<open>Evaluation\<close>

record control_result =
  cr_control_id :: string
  cr_title :: string
  cr_status :: control_status
  cr_requirement :: string
  cr_citation :: citation
  cr_reason :: string
  cr_evaluated_count :: nat
  cr_satisfied_count :: nat
  cr_evidence_event_ids :: "string list"
  cr_gap_event_ids :: "string list"

record crosswalk_result =
  res_crosswalk_id :: string
  res_crosswalk_title :: string
  res_crosswalk_version :: string
  res_crosswalk_content_hash :: "string option"
  res_source :: string
  res_reviewed_as_of :: string
  res_disclaimer :: "string option"
  res_controls :: "control_result list"

definition status_count :: "control_status \<Rightarrow> crosswalk_result \<Rightarrow> nat" where
  "status_count st r = length (filter (\<lambda>c. cr_status c = st) (res_controls r))"

definition MAX_IDS :: nat where
  "MAX_IDS = 50"

definition nat_text :: "nat \<Rightarrow> string" where
  "nat_text n = str_of_int (int n)"

definition empty_scope_reason :: "control_status \<Rightarrow> string" where
  "empty_scope_reason status =
     (if status = INSUFFICIENT_EVIDENCE then
        ''No events fell within this control's scope, so there is nothing to evaluate. ''
        @ ''Reported as insufficient evidence rather than a failure (FR-MAP-07).''
      else ''No events in scope; control policy treats empty scope as '' @ control_status_value status @ ''.'')"

definition is_gap_marker :: "compliance_event \<Rightarrow> bool" where
  "is_gap_marker e \<longleftrightarrow> py_eq (dget_or (attributes e) ''marker'' JNull) (JStr ''evidence_gap'')"

definition dropped_count :: "compliance_event \<Rightarrow> int result" where
  "dropped_count e =
     (let v = dget_or (attributes e) ''dropped_events'' JNull in if truthy v then py_int v else Inr 0)"

fun filter_result :: "('a \<Rightarrow> bool result) \<Rightarrow> 'a list \<Rightarrow> 'a list result" where
  "filter_result f [] = Inr []"
| "filter_result f (x # xs) =
     sbind (f x) (\<lambda>b. sbind (filter_result f xs) (\<lambda>ys. Inr (if b then x # ys else ys)))"

text \<open>\<open>e in passed\<close>: identity or equality.\<close>

definition listed :: "dict list \<Rightarrow> nat \<Rightarrow> nat list \<Rightarrow> bool" where
  "listed evs i js \<longleftrightarrow> list_ex (\<lambda>j. j = i \<or> py_eq (JDict (evs ! j)) (JDict (evs ! i))) js"

definition evaluate_control :: "compliance_event list \<Rightarrow> control \<Rightarrow> control_result result" where
  "evaluate_control es ctrl =
     (let evs = map model_dump es;
          scoped = filter (\<lambda>i. matches (evs ! i) (ctl_scope ctrl)) [0..<length evs];
          base = \<lparr>cr_control_id = ctl_id ctrl, cr_title = ctl_title ctrl,
            cr_status = empty_scope_status (ctl_empty_scope ctrl),
            cr_requirement = ctl_requirement ctrl, cr_citation = ctl_citation ctrl,
            cr_reason = empty_scope_reason (empty_scope_status (ctl_empty_scope ctrl)),
            cr_evaluated_count = 0, cr_satisfied_count = 0, cr_evidence_event_ids = [],
            cr_gap_event_ids = []\<rparr>
      in if scoped = [] then Inr base
         else sbind (filter_result (\<lambda>i. cond_holds evs i (ctl_condition ctrl)) scoped) (\<lambda>passed.
           let violators = filter (\<lambda>i. \<not> listed evs i passed) scoped;
               ids = (\<lambda>is. take MAX_IDS (map (\<lambda>i. event_id (es ! i)) is))
           in Inr (base\<lparr>
             cr_status := (if violators \<noteq> [] then NOT_SATISFIED else SATISFIED),
             cr_reason := (if violators \<noteq> []
               then nat_text (length violators) @ '' of '' @ nat_text (length scoped)
                 @ '' in-scope event(s) did not satisfy the required predicate.''
               else ''All '' @ nat_text (length scoped)
                 @ '' in-scope event(s) satisfied the required predicate.''),
             cr_evaluated_count := length scoped, cr_satisfied_count := length passed,
             cr_evidence_event_ids := ids passed, cr_gap_event_ids := ids violators\<rparr>)))"

definition completeness_override ::
  "compliance_event list \<Rightarrow> int \<Rightarrow> string list \<Rightarrow> control_result \<Rightarrow> control_result"
where
  "completeness_override gap_markers gap_dropped sensitive r =
     (if cr_control_id r \<in> set sensitive \<and> cr_status r \<noteq> NOT_SATISFIED
      then r\<lparr>cr_status := NOT_SATISFIED,
        cr_reason := ''Record-keeping completeness fails: the log self-attests ''
          @ nat_text (length gap_markers) @ '' evidence-gap marker(s) (~'' @ str_of_int gap_dropped
          @ '' dropped event(s)). '' @ cr_reason r,
        cr_gap_event_ids := take MAX_IDS (cr_gap_event_ids r
          @ take MAX_IDS (filter (\<lambda>i. i \<noteq> []) (map event_id gap_markers)))\<rparr>
      else r)"

definition evaluate :: "crosswalk \<Rightarrow> compliance_event list \<Rightarrow> crosswalk_result result" where
  "evaluate cw es =
     (let gap_markers = filter is_gap_marker es in
      sbind (map_result dropped_count gap_markers) (\<lambda>dropped.
      sbind (map_result (evaluate_control es) (cw_controls cw)) (\<lambda>results.
      sbind (crosswalk_content_hash cw) (\<lambda>h.
        let sensitive = map ctl_id (filter ctl_completeness_sensitive (cw_controls cw));
            results = (if gap_markers = [] then results
              else map (completeness_override gap_markers (sum_list dropped) sensitive) results)
        in Inr \<lparr>res_crosswalk_id = cw_id cw, res_crosswalk_title = cw_title cw,
             res_crosswalk_version = cw_version cw, res_crosswalk_content_hash = Some h,
             res_source = cw_source cw, res_reviewed_as_of = cw_reviewed_as_of cw,
             res_disclaimer = cw_disclaimer cw, res_controls = results\<rparr>))))"

end
