(* ===== verification/Crosswalk_Laws.thy ===== *)
theory Crosswalk_Laws imports Crosswalk Record_Properties begin

text \<open>
  The evaluation refines a three-state verdict: an abstract function of the events and a control
  that speaks of events holding or failing, with no lists, counts or identities.  Committed events
  are pairwise different as dictionaries (their leaf indices differ), so the code's \<open>e not in passed\<close>
  means what it should.
\<close>

section \<open>Filtering with a fallible predicate\<close>

lemma filter_result_Inr:
  "filter_result f xs = Inr ys \<Longrightarrow>
    (\<forall>x \<in> set xs. \<exists>b. f x = Inr b) \<and> ys = filter (\<lambda>x. f x = Inr True) xs"
  by (induction xs arbitrary: ys) (auto simp: sbind_Inr_conv)

lemma map_result_Inr: "map_result f xs = Inr ys \<Longrightarrow> list_all2 (\<lambda>x y. f x = Inr y) xs ys"
  by (induction xs arbitrary: ys) (auto simp: sbind_Inr_conv)

section \<open>Events of one log differ\<close>

lemma py_sub_dict_lookup:
  "py_sub_dict xs ys \<Longrightarrow> (k, x) \<in> set xs \<Longrightarrow> \<exists>y. map_of ys k = Some y \<and> py_eq x y"
  by (induction xs) (auto split: option.splits)

lemma dump_leaf_index:
  assumes "committed e i h"
  shows "\<exists>l. (''ledger'', JDict l) \<in> set (model_dump e) \<and> map_of (model_dump e) ''ledger'' = Some (JDict l)
    \<and> (''leaf_index'', JInt (int i)) \<in> set l \<and> map_of l ''leaf_index'' = Some (JInt (int i))"
proof -
  obtain l where l: "ledger e = Some l" "ledger_leaf_index l = Some (int i)" and wf: "wf_event e"
    using assms by (auto simp: committed_def)
  have index: "map_of (dump_ledger_fields l) ''leaf_index'' = Some (JInt (int i))"
    using l(2) unfolding dump_ledger_fields_def
    by (simp add: field_laws map_of_opt_field del: append.simps append_Cons append_Nil map_of_append)
  moreover have "map_of (model_dump e) ''ledger'' = Some (JDict (dump_ledger_fields l))"
    using l(1) unfolding model_dump_def
    by (simp add: field_laws map_of_opt_field del: append.simps append_Cons append_Nil map_of_append)
  ultimately show ?thesis by (intro exI [of _ "dump_ledger_fields l"]) (simp add: map_of_SomeD)
qed

lemma log_distinct:
  assumes "log_of es hs" "i < length es" "j < length es" "i \<noteq> j"
  shows "\<not> py_eq (JDict (model_dump (es ! i))) (JDict (model_dump (es ! j)))"
proof
  assume eq: "py_eq (JDict (model_dump (es ! i))) (JDict (model_dump (es ! j)))"
  have "committed (es ! i) i (hs ! i)" "committed (es ! j) j (hs ! j)"
    using assms by (simp_all add: log_of_def)
  then obtain l l' where l: "(''ledger'', JDict l) \<in> set (model_dump (es ! i))"
    "(''leaf_index'', JInt (int i)) \<in> set l"
    "map_of (model_dump (es ! j)) ''ledger'' = Some (JDict l')" "map_of l' ''leaf_index'' = Some (JInt (int j))"
    using dump_leaf_index by meson
  have "py_sub_dict (model_dump (es ! i)) (model_dump (es ! j))" using eq by simp
  from py_sub_dict_lookup [OF this l(1)] l(3) have "py_sub_dict l l'" by simp
  from py_sub_dict_lookup [OF this l(2)] l(4) have "py_eq (JInt (int i)) (JInt (int j))" by simp
  with assms(4) show False by (simp only: py_eq_JInt of_nat_eq_iff)
qed

section \<open>The verdict\<close>

definition in_scope :: "compliance_event list \<Rightarrow> control \<Rightarrow> nat \<Rightarrow> bool" where
  "in_scope es c i \<longleftrightarrow> i < length es \<and> matches (model_dump (es ! i)) (ctl_scope c)"

definition event_holds :: "compliance_event list \<Rightarrow> control \<Rightarrow> nat \<Rightarrow> bool result" where
  "event_holds es c i = cond_holds (map model_dump es) i (ctl_condition c)"

definition attested_gap :: "crosswalk \<Rightarrow> compliance_event list \<Rightarrow> control \<Rightarrow> bool" where
  "attested_gap cw es c \<longleftrightarrow> (\<exists>e \<in> set es. is_gap_marker e)
     \<and> (\<exists>c' \<in> set (cw_controls cw). ctl_completeness_sensitive c' \<and> ctl_id c' = ctl_id c)"

definition predicate_verdict :: "compliance_event list \<Rightarrow> control \<Rightarrow> control_status" where
  "predicate_verdict es c =
     (if \<forall>i. \<not> in_scope es c i then empty_scope_status (ctl_empty_scope c)
      else if \<exists>i. in_scope es c i \<and> event_holds es c i = Inr False then NOT_SATISFIED
      else SATISFIED)"

definition verdict :: "crosswalk \<Rightarrow> compliance_event list \<Rightarrow> control \<Rightarrow> control_status" where
  "verdict cw es c =
     (if attested_gap cw es c then NOT_SATISFIED else predicate_verdict es c)"

lemma scoped_empty:
  "filter (\<lambda>i. matches (map model_dump es ! i) (ctl_scope c)) [0..<length es] = [] \<longleftrightarrow> (\<forall>i. \<not> in_scope es c i)"
  by (auto simp: filter_empty_conv in_scope_def)

lemma evaluate_control_cases:
  assumes "log_of es hs" "evaluate_control es c = Inr r"
  shows "cr_control_id r = ctl_id c
    \<and> cr_status r = predicate_verdict es c
    \<and> (\<forall>i. in_scope es c i \<longrightarrow> (\<exists>b. event_holds es c i = Inr b))
    \<and> set (cr_evidence_event_ids r) \<subseteq> event_id ` ((!) es) ` {i. in_scope es c i \<and> event_holds es c i = Inr True}"
proof -
  let ?evs = "map model_dump es"
  let ?scoped = "filter (\<lambda>i. matches (?evs ! i) (ctl_scope c)) [0..<length es]"
  have scoped: "i \<in> set ?scoped \<longleftrightarrow> in_scope es c i" for i by (auto simp: in_scope_def)
  show ?thesis
  proof (cases "?scoped = []")
    case True
    with assms(2) show ?thesis
      using scoped_empty [of es c] by (auto simp: evaluate_control_def predicate_verdict_def)
  next
    case False
    then obtain passed where passed:
      "filter_result (\<lambda>i. cond_holds ?evs i (ctl_condition c)) ?scoped = Inr passed"
      and r: "cr_control_id r = ctl_id c"
        "cr_status r = (if filter (\<lambda>i. \<not> listed ?evs i passed) ?scoped \<noteq> [] then NOT_SATISFIED else SATISFIED)"
        "cr_evidence_event_ids r = take MAX_IDS (map (\<lambda>i. event_id (es ! i)) passed)"
      using assms(2) by (auto simp: evaluate_control_def Let_def sbind_Inr_conv)
    note fr = filter_result_Inr [OF passed, folded event_holds_def]
    then have total: "\<exists>b. event_holds es c i = Inr b" if "in_scope es c i" for i
      using scoped that by blast
    have in_passed: "j \<in> set passed \<longleftrightarrow> in_scope es c j \<and> event_holds es c j = Inr True" for j
      using fr scoped by auto
    have listed: "listed ?evs i passed \<longleftrightarrow> i \<in> set passed" if "in_scope es c i" for i
    proof
      assume "listed ?evs i passed"
      then obtain j where j: "j \<in> set passed" "j = i \<or> py_eq (JDict (?evs ! j)) (JDict (?evs ! i))"
        by (auto simp: listed_def list_ex_iff simp del: py_eq.simps)
      have "i < length es" "j < length es" using that in_passed [of j] j(1) by (auto simp: in_scope_def)
      with j log_distinct [OF assms(1), of j i] show "i \<in> set passed" by (auto simp del: py_eq.simps)
    qed (auto simp: listed_def list_ex_iff)
    have fails: "event_holds es c i \<noteq> Inr True \<longleftrightarrow> event_holds es c i = Inr False" if "in_scope es c i" for i
      using total [OF that] by auto
    have violators: "filter (\<lambda>i. \<not> listed ?evs i passed) ?scoped \<noteq> [] \<longleftrightarrow>
        (\<exists>i. in_scope es c i \<and> event_holds es c i = Inr False)"
      unfolding filter_empty_conv using scoped in_passed listed fails by blast
    have "cr_status r = predicate_verdict es c"
      using False scoped_empty [of es c] unfolding predicate_verdict_def r(2) violators by (simp only: if_False)
    moreover have "set (cr_evidence_event_ids r) \<subseteq> event_id ` ((!) es) ` set passed"
      using set_take_subset [of MAX_IDS "map (\<lambda>i. event_id (es ! i)) passed"]
      by (simp add: r(3) image_image)
    moreover have "set passed = {i. in_scope es c i \<and> event_holds es c i = Inr True}"
      using in_passed by blast
    ultimately show ?thesis using r(1) total by simp
  qed
qed

lemma evaluate_parts:
  assumes "evaluate cw es = Inr res"
  shows "\<exists>rs dropped h. map_result (evaluate_control es) (cw_controls cw) = Inr rs
    \<and> crosswalk_content_hash cw = Inr h \<and> res_crosswalk_content_hash res = Some h
    \<and> res_controls res = (if filter is_gap_marker es = [] then rs
        else map (completeness_override (filter is_gap_marker es) dropped
          (map ctl_id (filter ctl_completeness_sensitive (cw_controls cw)))) rs)"
  using assms by (auto simp: evaluate_def Let_def sbind_Inr_conv)

lemma override_status:
  "cr_status (completeness_override gaps n ids r) =
    (if cr_control_id r \<in> set ids then NOT_SATISFIED else cr_status r)"
  "cr_control_id (completeness_override gaps n ids r) = cr_control_id r"
  "cr_evidence_event_ids (completeness_override gaps n ids r) = cr_evidence_event_ids r"
  by (auto simp: completeness_override_def)

lemma evaluate_verdicts:
  assumes "log_of es hs" "evaluate cw es = Inr res"
  shows "map (\<lambda>r. (cr_control_id r, cr_status r)) (res_controls res)
    = map (\<lambda>c. (ctl_id c, verdict cw es c)) (cw_controls cw)"
proof -
  obtain rs dropped h where rs: "map_result (evaluate_control es) (cw_controls cw) = Inr rs"
    "res_controls res = (if filter is_gap_marker es = [] then rs
        else map (completeness_override (filter is_gap_marker es) dropped
          (map ctl_id (filter ctl_completeness_sensitive (cw_controls cw)))) rs)"
    using evaluate_parts [OF assms(2)] by blast
  note all2 = map_result_Inr [OF rs(1)]
  have len: "length rs = length (cw_controls cw)" using all2 by (simp add: list_all2_lengthD)
  have each: "evaluate_control es (cw_controls cw ! k) = Inr (rs ! k)" if "k < length rs" for k
    using list_all2_nthD [OF all2] that len by simp
  let ?ids = "map ctl_id (filter ctl_completeness_sensitive (cw_controls cw))"
  have gap: "attested_gap cw es c \<longleftrightarrow> filter is_gap_marker es \<noteq> [] \<and> ctl_id c \<in> set ?ids" for c
    by (simp add: attested_gap_def filter_empty_conv image_iff) metis
  show ?thesis
  proof (rule nth_equalityI)
    fix k assume "k < length (map (\<lambda>r. (cr_control_id r, cr_status r)) (res_controls res))"
    then have k: "k < length rs" by (simp add: rs(2) split: if_splits)
    from evaluate_control_cases [OF assms(1) each [OF k]] k len
    show "map (\<lambda>r. (cr_control_id r, cr_status r)) (res_controls res) ! k
        = map (\<lambda>c. (ctl_id c, verdict cw es c)) (cw_controls cw) ! k"
      by (simp add: rs(2) override_status verdict_def gap del: set_map set_filter)
  qed (simp add: rs(2) len)
qed

section \<open>Properties\<close>

text \<open> C4. Three-state evaluation: over the events of a ledger, \<open>evaluate\<close> reports for every control
  exactly the verdict: not satisfied if an attested evidence gap meets a completeness-sensitive
  control, the declared policy if nothing is in scope, not satisfied if some in-scope event fails
  the predicate, and satisfied only if every in-scope event holds.\<close>

theorem evaluation_is_verdict:
  assumes "ledger_ok holds led es" "evaluate cw es = Inr res"
  shows "map (\<lambda>r. (cr_control_id r, cr_status r)) (res_controls res)
    = map (\<lambda>c. (ctl_id c, verdict cw es c)) (cw_controls cw)"
  using evaluate_verdicts [OF _ assms(2)] assms(1) unfolding ledger_ok_def by blast

definition any_event :: event_filter where
  "any_event = \<lparr>ef_kind = None, ef_risk_classification = None, ef_oversight_status = None,
     ef_source_format = None, ef_attribute_equals = [], ef_has = []\<rparr>"

definition sample_control :: control where
  "sample_control = \<lparr>ctl_id = ''c'', ctl_title = ''t'', ctl_requirement = ''r'',
     ctl_citation = \<lparr>cit_instrument = ''i'', cit_article = None, cit_clause = None, cit_paragraphs = [],
       cit_url = None, cit_quote = None, cit_effective_date = None, cit_notes = None, cit_extra = []\<rparr>,
     ctl_scope = any_event,
     ctl_condition = Condition ''committed'' None None JNull None None [],
     ctl_empty_scope = Empty_Insufficient, ctl_rationale = None, ctl_completeness_sensitive = False,
     ctl_variant = None, ctl_applies_to_profiles = []\<rparr>"

definition sample_crosswalk :: crosswalk where
  "sample_crosswalk = \<lparr>cw_id = ''x'', cw_title = ''t'', cw_version = ''1'', cw_source = ''s'',
     cw_reviewed_as_of = ''d'', cw_description = None, cw_disclaimer = None, cw_default_profiles = [],
     cw_controls = [sample_control]\<rparr>"

lemma sample_hash: "\<exists>h. crosswalk_content_hash sample_crosswalk = Inr h"
proof -
  have "canonicalizable Some (JDict (dump_crosswalk sample_crosswalk))"
    by (simp add: dump_crosswalk_def sample_crosswalk_def sample_control_def dump_control_def
        dump_citation_def dump_event_filter_def any_event_def set_extras_def strs_def opt_field_def)
  with canonical_bytes_outcome [of Some "JDict (dump_crosswalk sample_crosswalk)"] show ?thesis
    by (auto simp: crosswalk_content_hash_def content_hash_def)
qed

theorem evaluation_is_verdict_witness:
  "\<exists>res. evaluate sample_crosswalk [] = Inr res
    \<and> map (\<lambda>r. (cr_control_id r, cr_status r)) (res_controls res) = [(''c'', INSUFFICIENT_EVIDENCE)]"
proof -
  obtain res where res: "evaluate sample_crosswalk [] = Inr res"
    using sample_hash by (auto simp: evaluate_def sample_crosswalk_def evaluate_control_def Let_def)
  let ?led = "\<lparr>led_backend = [], led_origin = [], led_retention = None, led_leaves = [],
    led_tree = from_leaves []\<rparr>"
  have "ledger_ok (=) ?led []" by (simp add: ledger_ok_def log_of_def)
  from evaluation_is_verdict [OF this res] res show ?thesis
    by (simp add: sample_crosswalk_def sample_control_def verdict_def predicate_verdict_def
        attested_gap_def in_scope_def)
qed

text \<open> Cited evidence is genuine: every event id a control result cites belongs to an event of the
  log that is in the control's scope and satisfies its predicate.\<close>

theorem evidence_is_genuine:
  assumes "log_of es hs" "evaluate cw es = Inr res" "k < length (res_controls res)"
    and "eid \<in> set (cr_evidence_event_ids (res_controls res ! k))"
  shows "k < length (cw_controls cw)
    \<and> (\<exists>i. in_scope es (cw_controls cw ! k) i \<and> event_holds es (cw_controls cw ! k) i = Inr True
         \<and> event_id (es ! i) = eid)"
proof -
  obtain rs dropped h where rs: "map_result (evaluate_control es) (cw_controls cw) = Inr rs"
    "res_controls res = (if filter is_gap_marker es = [] then rs
        else map (completeness_override (filter is_gap_marker es) dropped
          (map ctl_id (filter ctl_completeness_sensitive (cw_controls cw)))) rs)"
    using evaluate_parts [OF assms(2)] by blast
  note all2 = map_result_Inr [OF rs(1)]
  have k: "k < length rs" using assms(3) by (simp add: rs(2) split: if_splits)
  then have each: "evaluate_control es (cw_controls cw ! k) = Inr (rs ! k)" "k < length (cw_controls cw)"
    using list_all2_nthD [OF all2] list_all2_lengthD [OF all2] by simp_all
  have "eid \<in> set (cr_evidence_event_ids (rs ! k))"
    using assms(4) k by (simp add: rs(2) override_status split: if_splits)
  with evaluate_control_cases [OF assms(1) each(1)] each(2) show ?thesis by blast
qed

theorem evidence_is_genuine_witness:
  "\<exists>e res. evaluate sample_crosswalk [e] = Inr res \<and> in_scope [e] sample_control 0
    \<and> event_holds [e] sample_control 0 = Inr True \<and> [event_id e] = cr_evidence_event_ids (res_controls res ! 0)"
proof -
  let ?base = "sample_event ''a''"
  have wf: "wf_event ?base" by simp
  obtain p where p: "prepare_commit None ''t'' ?base = Inr p"
    using prepare_total [OF wf, where retention = None] by auto
  let ?e = "stamp p 0"
  have log: "log_of [?e] [prep_leaf p]" using stamp_committed [OF wf p, of 0] by (simp add: log_of_def)
  have scope: "in_scope [?e] sample_control 0"
    by (simp add: in_scope_def matches_def one_of_def sample_control_def any_event_def)
  have ledger: "map_of (model_dump ?e) ''ledger'' = Some (JDict (dump_ledger_fields (the (ledger ?e))))"
    unfolding model_dump_def stamp_def
    by (simp add: field_laws map_of_opt_field del: append.simps append_Cons append_Nil map_of_append)
  have hold: "cond_holds [model_dump ?e] 0 (ctl_condition sample_control) = Inr True"
    using ledger by (simp add: sample_control_def get_dotted_def truthy_def)
      (simp add: stamp_def dump_ledger_fields_def opt_field_def)
  have "\<exists>x. prep_event p = ?base\<lparr>event_id := x\<rparr>"
    using p by (auto simp: prepare_commit_def sbind_Inr_conv finalize_id_def)
  then have atts: "attributes ?e = [(''n'', JInt 3)]" by (auto simp: stamp_def sample_event_def)
  have mt: "matches (model_dump ?e) (ctl_scope sample_control)" using scope by (simp add: in_scope_def)
  obtain h where h: "crosswalk_content_hash sample_crosswalk = Inr h" using sample_hash by blast
  obtain r where r: "evaluate_control [?e] sample_control = Inr r" "cr_evidence_event_ids r = [event_id ?e]"
    using mt hold by (simp add: evaluate_control_def Let_def listed_def MAX_IDS_def)
  have "\<not> is_gap_marker ?e" by (simp add: is_gap_marker_def atts dget_or_def)
  then obtain res where res: "evaluate sample_crosswalk [?e] = Inr res" and rs: "res_controls res = [r]"
    using h r(1) by (auto simp: evaluate_def Let_def sample_crosswalk_def)
  have "0 < length (res_controls res)" "event_id ?e \<in> set (cr_evidence_event_ids (res_controls res ! 0))"
    using rs r(2) by simp_all
  from evidence_is_genuine [OF log res this]
  have "event_holds [?e] sample_control 0 = Inr True"
    by (simp add: sample_crosswalk_def in_scope_def)
  with res rs r(2) scope show ?thesis
    by (intro exI [of _ ?e] exI [of _ res]) simp
qed

end
