(* ===== verification/Authz.thy ===== *)
theory Authz imports Py_Text begin

text \<open>
  \<open>src/src/openwright/authz.py\<close>: capabilities, principals, the opt-in authorizer, and the table of
  bearer tokens of the collector.
\<close>

datatype capability = WRITE_EVIDENCE | GENERATE_REPORT | ADMIN

record principal =
  pr_id :: string
  pr_capabilities :: "capability set"

definition has_capability :: "principal \<Rightarrow> capability \<Rightarrow> bool" where
  "has_capability p cap \<longleftrightarrow> ADMIN \<in> pr_capabilities p \<or> cap \<in> pr_capabilities p"

definition require_capability :: "principal option \<Rightarrow> capability \<Rightarrow> unit result" where
  "require_capability p cap = (case p of
     None \<Rightarrow> Inr ()
   | Some q \<Rightarrow> if \<not> has_capability q cap then Inl AuthorizationError else Inr ())"

type_synonym token_authority = "string \<Rightarrow> principal option"

definition token_add :: "string \<Rightarrow> principal \<Rightarrow> token_authority \<Rightarrow> token_authority" where
  "token_add token p auth = auth(token \<mapsto> p)"

definition principal_for :: "token_authority \<Rightarrow> string option \<Rightarrow> principal option" where
  "principal_for auth token = (case token of
     None \<Rightarrow> None
   | Some t \<Rightarrow> if t = [] then None else auth t)"

definition lower_char :: "char \<Rightarrow> char" where
  "lower_char c = (let n = of_char c in if 65 \<le> n \<and> n \<le> (90::nat) then char_of (n + 32) else c)"

definition strip :: "string \<Rightarrow> string" where
  "strip s = rev (dropWhile is_space (rev (dropWhile is_space s)))"

definition bearer_token :: "string option \<Rightarrow> string option" where
  "bearer_token header = (case header of
     None \<Rightarrow> None
   | Some h \<Rightarrow> if h \<noteq> [] \<and> map lower_char (take 7 h) = ''bearer '' then Some (strip (drop 7 h)) else None)"

definition authorize_bearer :: "token_authority \<Rightarrow> string option \<Rightarrow> capability \<Rightarrow> bool" where
  "authorize_bearer auth header cap = (case principal_for auth (bearer_token header) of
     None \<Rightarrow> False
   | Some p \<Rightarrow> has_capability p cap)"

lemma authorize_bearer_iff:
  "authorize_bearer auth header cap \<longleftrightarrow> (\<exists>h t p. header = Some h \<and> map lower_char (take 7 h) = ''bearer ''
     \<and> t = strip (drop 7 h) \<and> t \<noteq> [] \<and> auth t = Some p
     \<and> (ADMIN \<in> pr_capabilities p \<or> cap \<in> pr_capabilities p))"
  by (auto simp: authorize_bearer_def principal_for_def bearer_token_def has_capability_def
      split: option.splits if_splits)

end
