(* ===== verification/Report.thy ===== *)
theory Report imports Crosswalk_Laws Authz begin

text \<open>
  \<open>build_report\<close> of \<open>src/src/openwright/report.py\<close>: the signed JSON report with every event, its
  inclusion proof pinned to the checkpoint, the control results and the attested gaps.  The PEM
  encoding of a public key is the function \<open>pem\<close>; fresh identifiers and clock readings are arguments.
\<close>

section \<open>Constants\<close>

definition REPORT_VERSION :: string where
  "REPORT_VERSION = ''1.0.0''"

definition OPENWRIGHT_VERSION :: string where
  "OPENWRIGHT_VERSION = ''0.7.1''"

definition BOUNDARY_STATEMENT :: string where
  "BOUNDARY_STATEMENT =
     ''This report constitutes EVIDENCE that the listed controls were exercised at ''
     @ ''runtime, attested with a tamper-evident Merkle log and an Ed25519 signature. ''
     @ ''It DOES NOT constitute legal compliance, certification, conformity assessment, ''
     @ ''or an audit opinion. Determinations of compliance are reserved for qualified ''
     @ ''auditors, notified bodies, and counsel. Crosswalks are maintainer-authored, ''
     @ ''rigorously cited, and pending qualified legal/standards review.''"

section \<open>Building\<close>

record report_args =
  ra_scope_description :: string
  ra_agent_ids :: "string list option"
  ra_period :: "dict option"
  ra_checkpoint :: "checkpoint option"
  ra_report_id :: "string option"
  ra_generated_at :: "string option"
  ra_authorize :: "principal option option"
  ra_uuid :: string
  ra_clock :: string
  ra_now :: string

definition signing_payload :: "dict \<Rightarrow> bytes result" where
  "signing_payload report = canonical_bytes (JDict (filter (\<lambda>(k, v). k \<noteq> ''signature'') report))"

definition report_item :: "compliance_event \<Rightarrow> nat \<Rightarrow> string list \<Rightarrow> json" where
  "report_item e i proof = JDict
     [(''event'', JDict (model_dump e)),
      (''leaf_index'', JInt (int i)),
      (''leaf_hash'', json_opt (Option.bind (ledger e) ledger_leaf_hash)),
      (''inclusion_proof'', strs proof)]"

fun report_items ::
  "'b backend_ops \<Rightarrow> int \<Rightarrow> nat list \<Rightarrow> 'b ledger_state \<Rightarrow>
    (compliance_event \<times> json) list result \<times> 'b ledger_state"
where
  "report_items ops n [] led = (Inr [], led)"
| "report_items ops n (i # is) led =
     (let (r, led) = get_event ops (int i) led
      in case sbind r (\<lambda>e. sbind (inclusion_proof_hex (int i) (Some n) led) (\<lambda>p.
             Inr (e, report_item e i p))) of
           Inl x \<Rightarrow> (Inl x, led)
         | Inr item \<Rightarrow> (let (rs, led) = report_items ops n is led
             in (sbind rs (\<lambda>items. Inr (item # items)), led)))"

definition gap_entry :: "nat \<Rightarrow> compliance_event \<Rightarrow> json" where
  "gap_entry i e = JDict
     [(''event_id'', JStr (event_id e)),
      (''leaf_index'', JInt (int i)),
      (''dropped_events'', dget_or (attributes e) ''dropped_events'' JNull),
      (''window_start'', dget_or (attributes e) ''window_start'' JNull),
      (''window_end'', dget_or (attributes e) ''window_end'' JNull)]"

definition evidence_gaps :: "compliance_event list \<Rightarrow> json list" where
  "evidence_gaps es =
     map (\<lambda>(i, e). gap_entry i e) (filter (\<lambda>(i, e). is_gap_marker e) (zip [0..<length es] es))"

definition dump_control_result :: "control_result \<Rightarrow> json" where
  "dump_control_result c = JDict
     [(''control_id'', JStr (cr_control_id c)), (''title'', JStr (cr_title c)),
      (''status'', JStr (control_status_value (cr_status c))),
      (''requirement'', JStr (cr_requirement c)),
      (''citation'', JDict (dump_citation (cr_citation c))), (''reason'', JStr (cr_reason c)),
      (''evaluated_count'', JInt (int (cr_evaluated_count c))),
      (''satisfied_count'', JInt (int (cr_satisfied_count c))),
      (''evidence_event_ids'', strs (cr_evidence_event_ids c)),
      (''gap_event_ids'', strs (cr_gap_event_ids c))]"

definition report_period :: "dict option \<Rightarrow> compliance_event list \<Rightarrow> dict" where
  "report_period period es = (case period of
     Some p \<Rightarrow> p
   | None \<Rightarrow> if es = [] then []
       else [(''start'', JStr (Min (timestamp ` set es))), (''end'', JStr (Max (timestamp ` set es)))])"

definition report_agents :: "string list option \<Rightarrow> compliance_event list \<Rightarrow> string list" where
  "report_agents agent_ids es =
     (let seen = sort (remdups (map (\<lambda>e. actor_agent_id (actor e)) es))
      in case agent_ids of None \<Rightarrow> seen | Some xs \<Rightarrow> if xs = [] then seen else sort xs)"

definition report_body ::
  "(bytes \<Rightarrow> string) \<Rightarrow> key_source \<Rightarrow> crosswalk_result \<Rightarrow> report_args \<Rightarrow> checkpoint \<Rightarrow>
    compliance_event list \<Rightarrow> json list \<Rightarrow> dict"
where
  "report_body pem key cr a cp es items =
     [(''report_version'', JStr REPORT_VERSION),
      (''report_id'', JStr (str_or (ra_report_id a) (''rpt_'' @ ra_uuid a))),
      (''generated_at'', JStr (str_or (ra_generated_at a) (ra_now a))),
      (''tool'', JDict [(''name'', JStr ''openwright''), (''version'', JStr OPENWRIGHT_VERSION)]),
      (''boundary_statement'', JStr BOUNDARY_STATEMENT),
      (''scope'', JDict [(''description'', JStr (ra_scope_description a)),
         (''agent_ids'', strs (report_agents (ra_agent_ids a) es))]),
      (''period'', JDict (report_period (ra_period a) es)),
      (''crosswalk'', JDict
         [(''id'', JStr (res_crosswalk_id cr)), (''title'', JStr (res_crosswalk_title cr)),
          (''version'', JStr (res_crosswalk_version cr)),
          (''content_hash'', json_opt (res_crosswalk_content_hash cr)),
          (''source'', JStr (res_source cr)), (''reviewed_as_of'', JStr (res_reviewed_as_of cr)),
          (''disclaimer'', json_opt (res_disclaimer cr))]),
      (''summary'', JDict
         [(''total'', JInt (int (length (res_controls cr)))),
          (''satisfied'', JInt (int (status_count SATISFIED cr))),
          (''not_satisfied'', JInt (int (status_count NOT_SATISFIED cr))),
          (''insufficient_evidence'', JInt (int (status_count INSUFFICIENT_EVIDENCE cr)))]),
      (''controls'', JList (map dump_control_result (res_controls cr))),
      (''evidence_gaps'', JList (evidence_gaps es)),
      (''checkpoint'', JDict (dump_checkpoint cp)),
      (''events'', JList items),
      (''public_key_pem'', JStr (pem (ks_public_key_raw key)))]"

definition sign_report :: "key_source \<Rightarrow> dict \<Rightarrow> dict result" where
  "sign_report key report =
     sbind (signing_payload report) (\<lambda>payload. Inr (report @
       [(''signature'', JDict
          [(''algorithm'', JStr ''ed25519''),
           (''public_key_id'', JStr (ks_key_id key)),
           (''signature'', JStr (b64encode (ks_sign key payload)))])]))"

definition build_report ::
  "'b backend_ops \<Rightarrow> (bytes \<Rightarrow> string) \<Rightarrow> key_source \<Rightarrow> crosswalk_result \<Rightarrow> report_args \<Rightarrow>
    'b ledger_state \<Rightarrow> dict result \<times> 'b ledger_state"
where
  "build_report ops pem key cr a led =
     (case (case ra_authorize a of None \<Rightarrow> Inr () | Some p \<Rightarrow> require_capability p GENERATE_REPORT) of
        Inl x \<Rightarrow> (Inl x, led)
      | Inr _ \<Rightarrow>
     (case (case ra_checkpoint a of Some cp \<Rightarrow> Inr cp | None \<Rightarrow> ledger_checkpoint key (ra_clock a) None led) of
        Inl x \<Rightarrow> (Inl x, led)
      | Inr cp \<Rightarrow>
          (let (r, led') = report_items ops (cp_tree_size cp) [0..<nat (cp_tree_size cp)] led
           in (sbind r (\<lambda>items. sign_report key (report_body pem key cr a cp (map fst items) (map snd items))),
               led'))))"

section \<open>What a report contains\<close>

context ledger_backend
begin

lemma report_items_ok:
  assumes "ledger_ok holds led es" "n \<le> length es" "\<forall>i \<in> set is. i < n" "distinct is"
  shows "\<exists>ps led'. report_items ops (int n) is led
      = (Inr (map (\<lambda>i. (es ! i, report_item (es ! i) i (map hex (ps i)))) is), led')
    \<and> ledger_ok holds led' es \<and> led_leaves led' = led_leaves led
    \<and> (\<forall>i \<in> set is. verify_inclusion (int i) (int n) (led_leaves led ! i) (ps i)
         (tree_hash (take n (led_leaves led))))"
  using assms
proof (induction "is" arbitrary: led)
  case (Cons i "is")
  let ?led = "snd (get_event ops (int i) led)"
  have i: "i < n" "i < length es" using Cons.prems by auto
  have ok: "ledger_ok holds ?led es" by (rule get_event_ok(3) [OF Cons.prems(1)])
  have leaves: "led_leaves ?led = led_leaves led" by (simp add: get_event_def split_beta)
  obtain p where p: "inclusion_proof_hex (int i) (Some (int n)) ?led = Inr (map hex p)"
    "verify_inclusion (int i) (int n) (led_leaves led ! i) p (tree_hash (take n (led_leaves led)))"
    using pinned_inclusion [OF ok i(1) Cons.prems(2)] unfolding leaves by blast
  obtain ps led' where rest: "report_items ops (int n) is ?led
      = (Inr (map (\<lambda>i. (es ! i, report_item (es ! i) i (map hex (ps i)))) is), led')"
    "ledger_ok holds led' es" "led_leaves led' = led_leaves led"
    "\<forall>i \<in> set is. verify_inclusion (int i) (int n) (led_leaves led ! i) (ps i)
       (tree_hash (take n (led_leaves led)))"
    using Cons.IH [OF ok Cons.prems(2)] Cons.prems(3,4) unfolding leaves by auto
  have get: "fst (get_event ops (int i) led) = Inr (es ! i)" by (rule get_event_ok(1) [OF Cons.prems(1) i(2)])
  have same: "map (\<lambda>j. (es ! j, report_item (es ! j) j (map hex ((ps(i := p)) j)))) is
      = map (\<lambda>i. (es ! i, report_item (es ! i) i (map hex (ps i)))) is"
    using Cons.prems(4) by auto
  have "report_items ops (int n) (i # is) led
      = (Inr (map (\<lambda>j. (es ! j, report_item (es ! j) j (map hex ((ps(i := p)) j)))) (i # is)), led')"
    using get p(1) rest(1) by (simp add: split_beta same del: fun_upd_apply) simp
  with rest p Cons.prems(4) show ?case by (intro exI [of _ "ps(i := p)"] exI [of _ led']) auto
qed auto

end

end
