(* ===== verification/Verify.thy ===== *)
theory Verify imports Report begin

text \<open>
  The offline verifier \<open>src/src/openwright/verify.py\<close>.  A report is any JSON dictionary: every access
  the code makes on a value of the wrong type is a branch here, caught where the code catches it
  and an exception of \<open>verify_report\<close> where it does not.  Parameters: \<open>ed\<close> is the Ed25519 check, \<open>unpem\<close>
  the PEM decoder of the library.  The texts of checks and errors are not modelled.
\<close>

section \<open>Access to untyped values\<close>

definition or_empty :: "json \<Rightarrow> json" where
  "or_empty v = (if truthy v then v else JDict [])"

definition call_get :: "json \<Rightarrow> string \<Rightarrow> json \<Rightarrow> json result" where
  "call_get v k dflt = (case v of JDict d \<Rightarrow> Inr (dget_or d k dflt) | _ \<Rightarrow> Inl AttributeError)"

definition item_at :: "json \<Rightarrow> string \<Rightarrow> json result" where
  "item_at v k = (case v of
     JDict d \<Rightarrow> (case map_of d k of Some x \<Rightarrow> Inr x | None \<Rightarrow> Inl KeyError)
   | _ \<Rightarrow> Inl TypeError)"

text \<open>The characters of a text, each with the bytes that continue it.\<close>

definition continues :: "char \<Rightarrow> bool" where
  "continues c \<longleftrightarrow> 128 \<le> (of_char c :: nat) \<and> (of_char c :: nat) < 192"

fun characters :: "string \<Rightarrow> string list" where
  "characters [] = []"
| "characters (c # s) = (case characters s of
     (d # w) # ws \<Rightarrow> if continues d then (c # d # w) # ws else [c] # (d # w) # ws
   | ws \<Rightarrow> [c] # ws)"

definition iterate :: "json \<Rightarrow> json list result" where
  "iterate v = (case v of
     JList vs \<Rightarrow> Inr vs
   | JDict d \<Rightarrow> Inr (map (\<lambda>kv. JStr (fst kv)) d)
   | JStr s \<Rightarrow> Inr (map JStr (characters s))
   | _ \<Rightarrow> Inl TypeError)"

definition length_of :: "json \<Rightarrow> int result" where
  "length_of v = (case v of
     JList vs \<Rightarrow> Inr (int (length vs))
   | JDict d \<Rightarrow> Inr (int (length d))
   | JStr s \<Rightarrow> Inr (int (length (characters s)))
   | _ \<Rightarrow> Inl TypeError)"

definition sliceable :: "json \<Rightarrow> unit result" where
  "sliceable v = (case v of JStr _ \<Rightarrow> Inr () | JList _ \<Rightarrow> Inr () | _ \<Rightarrow> Inl TypeError)"

definition b64decode_value :: "json \<Rightarrow> bytes result" where
  "b64decode_value v = (case v of JStr s \<Rightarrow> b64decode s | _ \<Rightarrow> Inl TypeError)"

definition fromhex_value :: "json \<Rightarrow> bytes result" where
  "fromhex_value v = (case v of JStr s \<Rightarrow> fromhex s | _ \<Rightarrow> Inl TypeError)"

definition caught :: "bool result \<Rightarrow> bool" where
  "caught r = (case r of Inr b \<Rightarrow> b | Inl _ \<Rightarrow> False)"

definition pem_key :: "(string \<Rightarrow> bytes result) \<Rightarrow> json \<Rightarrow> bytes result" where
  "pem_key unpem v = (case v of JStr s \<Rightarrow> unpem s | _ \<Rightarrow> Inl AttributeError)"

section \<open>Signed bytes and leaves\<close>

definition without :: "string \<Rightarrow> dict \<Rightarrow> dict" where
  "without k d = filter (\<lambda>(k', v). k' \<noteq> k) d"

definition checkpoint_bytes :: "json \<Rightarrow> bytes result" where
  "checkpoint_bytes cp =
     sbind (item_at cp ''origin'') (\<lambda>origin.
     sbind (item_at cp ''root_hash'') (\<lambda>rt.
     sbind (item_at cp ''timestamp'') (\<lambda>ts.
     sbind (item_at cp ''tree_size'') (\<lambda>n.
       canonical_bytes (JDict [(''origin'', origin), (''root_hash'', rt), (''timestamp'', ts),
         (''tree_size'', n)])))))"

definition report_signing_payload :: "dict \<Rightarrow> bytes result" where
  "report_signing_payload report = canonical_bytes (JDict (without ''signature'' report))"

definition leaf_from_event :: "json \<Rightarrow> bytes result" where
  "leaf_from_event v = (case v of
     JDict d \<Rightarrow> sbind (canonical_bytes (JDict (without ''ledger'' d))) (\<lambda>b. Inr (leaf_hash b))
   | _ \<Rightarrow> Inl AttributeError)"

text \<open>\<open>verify_inclusion\<close> on an index of any type: comparisons come first, then bit operations.\<close>

definition verify_inclusion_value :: "json \<Rightarrow> int \<Rightarrow> bytes \<Rightarrow> bytes list \<Rightarrow> bytes \<Rightarrow> bool result" where
  "verify_inclusion_value idx n leaf proof rt = (case idx of
     JInt i \<Rightarrow> Inr (verify_inclusion i n leaf proof rt)
   | JBool b \<Rightarrow> Inr (verify_inclusion (if b then 1 else 0) n leaf proof rt)
   | JFloat r \<Rightarrow>
       (let v = float_value r in
        if num_le (Finite (of_int n)) v \<or> (num_le v (Finite 0) \<and> \<not> num_eq v (Finite 0)) then Inr False
        else if proof = [] then Inr (n - 1 = 0 \<and> leaf = rt)
        else if n - 1 = 0 then Inr False else Inl TypeError)
   | _ \<Rightarrow> Inl TypeError)"

section \<open>The result\<close>

datatype warning = Embedded_Key_Used | Selective_Leaves nat int | Selective_Verdicts int int

datatype report_error = No_Key | Bad_Embedded_Key | Verdict_Absent json | Verdict_Differs json json string

record control_entry =
  ce_control_id :: json
  ce_status :: json
  ce_title :: json

record verification =
  vr_valid :: bool
  vr_checks :: "(string \<times> bool) list"
  vr_warnings :: "warning list"
  vr_controls :: "control_entry list"
  vr_gaps :: "control_entry list"
  vr_errors :: "report_error list"

definition start_verification :: verification where
  "start_verification = \<lparr>vr_valid = True, vr_checks = [], vr_warnings = [], vr_controls = [],
     vr_gaps = [], vr_errors = []\<rparr>"

definition add_check :: "string \<Rightarrow> bool \<Rightarrow> verification \<Rightarrow> verification" where
  "add_check name ok res =
     res\<lparr>vr_checks := vr_checks res @ [(name, ok)], vr_valid := vr_valid res \<and> ok\<rparr>"

definition add_warning :: "warning \<Rightarrow> verification \<Rightarrow> verification" where
  "add_warning w res = res\<lparr>vr_warnings := vr_warnings res @ [w]\<rparr>"

definition fail_with :: "report_error \<Rightarrow> verification \<Rightarrow> verification" where
  "fail_with e res = res\<lparr>vr_valid := False, vr_errors := vr_errors res @ [e]\<rparr>"

section \<open>Steps\<close>

text \<open>Step 1: the key, or the final result when there is none.\<close>

definition establish_key ::
  "(string \<Rightarrow> bytes result) \<Rightarrow> dict \<Rightarrow> bytes option \<Rightarrow> verification + (bytes \<times> verification)"
where
  "establish_key unpem report trusted =
     (let embedded = dget_or report ''public_key_pem'' JNull; res = start_verification
      in case trusted of
        None \<Rightarrow>
          (if \<not> truthy embedded then Inl (fail_with No_Key res)
           else case pem_key unpem embedded of
             Inl _ \<Rightarrow> Inl (fail_with Bad_Embedded_Key res)
           | Inr pub \<Rightarrow> Inr (pub, add_warning Embedded_Key_Used res))
      | Some pub \<Rightarrow>
          (if truthy embedded \<and> (case pem_key unpem embedded of Inl _ \<Rightarrow> False | Inr k \<Rightarrow> k \<noteq> pub)
           then Inr (pub, add_check ''embedded_key_matches_trusted'' False res)
           else Inr (pub, res)))"

text \<open>Steps 2 and 3: the two signatures.\<close>

definition signature_ok :: "ed_check \<Rightarrow> bytes \<Rightarrow> json \<Rightarrow> bytes result \<Rightarrow> bool" where
  "signature_ok ed pub block payload =
     caught (sbind (call_get block ''signature'' (JStr [])) (\<lambda>s.
             sbind (b64decode_value s) (\<lambda>sig.
             sbind payload (\<lambda>data. Inr (verify_signature ed pub sig data)))))"

definition key_id_mismatch :: "json \<Rightarrow> bytes \<Rightarrow> bool" where
  "key_id_mismatch k pub \<longleftrightarrow> truthy k \<and> k \<noteq> JStr (key_id_for pub)"

definition check_report_signature ::
  "ed_check \<Rightarrow> dict \<Rightarrow> bytes \<Rightarrow> verification \<Rightarrow> verification result"
where
  "check_report_signature ed report pub res =
     (let block = or_empty (dget_or report ''signature'' JNull);
          ok = signature_ok ed pub block (report_signing_payload report)
      in sbind (call_get block ''public_key_id'' (JStr [])) (\<lambda>k.
         let res = add_check ''report_signature'' ok res
         in Inr (if key_id_mismatch k pub then add_check ''report_key_id'' False res else res)))"

definition check_checkpoint_signature ::
  "ed_check \<Rightarrow> dict \<Rightarrow> bytes \<Rightarrow> verification \<Rightarrow> (json \<times> verification) result"
where
  "check_checkpoint_signature ed report pub res =
     (let cp = or_empty (dget_or report ''checkpoint'' JNull);
          ok = signature_ok ed pub cp (checkpoint_bytes cp)
      in sbind (call_get cp ''public_key_id'' JNull) (\<lambda>k.
         let ok = (if key_id_mismatch k pub then False else ok)
         in sbind (call_get cp ''root_hash'' (JStr [])) (\<lambda>rt.
            sbind (sliceable rt) (\<lambda>_. Inr (cp, add_check ''checkpoint_signature'' ok res)))))"

definition checkpoint_head :: "json \<Rightarrow> (bytes \<times> int) result" where
  "checkpoint_head cp =
     sbind (item_at cp ''root_hash'') (\<lambda>r. sbind (fromhex_value r) (\<lambda>rt.
     sbind (item_at cp ''tree_size'') (\<lambda>n. sbind (py_int n) (\<lambda>n. Inr (rt, n)))))"

text \<open>Step 4: the events.\<close>

record event_scan =
  sc_leaf_ok :: bool
  sc_incl_ok :: bool
  sc_present :: "json list"
  sc_leaves :: "(int \<times> bytes) list"

definition stored_leaf :: "json \<Rightarrow> bytes result" where
  "stored_leaf v =
     (if \<not> truthy v then Inr []
      else case v of JStr s \<Rightarrow> fromhex (last (split_at (CHR '':'') s)) | _ \<Rightarrow> Inl AttributeError)"

definition int_index :: "json \<Rightarrow> int option" where
  "int_index v = (case v of JInt i \<Rightarrow> Some i | JBool b \<Rightarrow> Some (if b then 1 else 0) | _ \<Rightarrow> None)"

definition scan_event :: "int \<Rightarrow> bytes \<Rightarrow> json \<Rightarrow> event_scan \<Rightarrow> event_scan result" where
  "scan_event n rt item sc =
     sbind (call_get item ''event'' JNull) (\<lambda>ev.
     let ev = or_empty ev in
     sbind (call_get item ''leaf_index'' JNull) (\<lambda>idx.
     sbind (call_get ev ''event_id'' JNull) (\<lambda>eid.
     if \<not> hashable eid then Inl TypeError else
     sbind (leaf_from_event ev) (\<lambda>recomputed.
     sbind (call_get item ''leaf_hash'' (JStr [])) (\<lambda>stored.
     sbind (stored_leaf stored) (\<lambda>stored_bytes.
     sbind (call_get item ''inclusion_proof'' (JList [])) (\<lambda>pf.
     sbind (iterate pf) (\<lambda>hs.
     sbind (map_result fromhex_value hs) (\<lambda>proof.
     sbind (verify_inclusion_value idx n recomputed proof rt) (\<lambda>incl.
       Inr \<lparr>sc_leaf_ok = (sc_leaf_ok sc \<and> recomputed = stored_bytes),
            sc_incl_ok = (sc_incl_ok sc \<and> incl),
            sc_present = sc_present sc @ [eid],
            sc_leaves = (case int_index idx of
               Some i \<Rightarrow> (i, recomputed) # filter (\<lambda>x. fst x \<noteq> i) (sc_leaves sc)
             | None \<Rightarrow> sc_leaves sc)\<rparr>))))))))))"

fun scan_events :: "int \<Rightarrow> bytes \<Rightarrow> json list \<Rightarrow> event_scan \<Rightarrow> event_scan result" where
  "scan_events n rt [] sc = Inr sc"
| "scan_events n rt (v # vs) sc = sbind (scan_event n rt v sc) (scan_events n rt vs)"

definition scan_start :: event_scan where
  "scan_start = \<lparr>sc_leaf_ok = True, sc_incl_ok = True, sc_present = [], sc_leaves = []\<rparr>"

text \<open>Step 5: the whole tree, when every leaf is there.\<close>

definition check_full_tree :: "int \<Rightarrow> bytes \<Rightarrow> event_scan \<Rightarrow> verification \<Rightarrow> verification" where
  "check_full_tree n rt sc res =
     (let leaves = sc_leaves sc in
      if int (length leaves) = n \<and> list_all (\<lambda>i. map_of leaves (int i) \<noteq> None) [0..<nat n]
      then add_check ''full_tree_root''
        (tree_hash (map (\<lambda>i. the (map_of leaves (int i))) [0..<nat n]) = rt) res
      else add_warning (Selective_Leaves (length leaves) n) res)"

text \<open>Step 6: cited evidence.\<close>

fun cited_present :: "json list \<Rightarrow> json list \<Rightarrow> bool result" where
  "cited_present present [] = Inr True"
| "cited_present present (e # es) =
     (if \<not> hashable e then Inl TypeError
      else sbind (cited_present present es) (\<lambda>b. Inr (list_ex (\<lambda>p. py_eq p e) present \<and> b)))"

definition note_control :: "json \<Rightarrow> json \<Rightarrow> json \<Rightarrow> verification \<Rightarrow> verification" where
  "note_control cid status title res =
     (let entry = \<lparr>ce_control_id = cid, ce_status = status, ce_title = title\<rparr>
      in res\<lparr>vr_controls := vr_controls res @ [entry],
           vr_gaps := vr_gaps res @ (if status \<noteq> JStr ''satisfied'' then [entry] else [])\<rparr>)"

fun check_controls :: "json list \<Rightarrow> json list \<Rightarrow> verification \<Rightarrow> (bool \<times> verification) result" where
  "check_controls present [] res = Inr (True, res)"
| "check_controls present (c # cs) res =
     sbind (call_get c ''control_id'' JNull) (\<lambda>cid.
     sbind (call_get c ''status'' JNull) (\<lambda>status.
     sbind (call_get c ''title'' (JStr [])) (\<lambda>title.
     sbind (call_get c ''evidence_event_ids'' (JList [])) (\<lambda>v.
     sbind (iterate v) (\<lambda>ids.
     sbind (cited_present present ids) (\<lambda>ok.
     sbind (check_controls present cs (note_control cid status title res)) (\<lambda>(ok', res').
       Inr (ok \<and> ok', res'))))))))"

text \<open>Steps 2 to 6 with an established key; the result tells whether all steps were reached.\<close>

definition verify_body ::
  "ed_check \<Rightarrow> dict \<Rightarrow> bytes \<Rightarrow> verification \<Rightarrow> (bool \<times> verification) result"
where
  "verify_body ed report pub res =
     sbind (check_report_signature ed report pub res) (\<lambda>res.
     sbind (check_checkpoint_signature ed report pub res) (\<lambda>(cp, res).
     case checkpoint_head cp of
       Inl _ \<Rightarrow> Inr (False, add_check ''checkpoint_well_formed'' False res)
     | Inr (rt, n) \<Rightarrow>
         (let events = dget_or report ''events'' JNull in
          sbind (iterate (if truthy events then events else JList [])) (\<lambda>items.
          sbind (scan_events n rt items scan_start) (\<lambda>sc.
          let res = add_check ''event_leaf_hashes'' (sc_leaf_ok sc) res;
              res = add_check ''inclusion_proofs'' (sc_incl_ok sc) res;
              res = check_full_tree n rt sc res
          in sbind (iterate (dget_or report ''controls'' (JList []))) (\<lambda>cs.
             sbind (check_controls (sc_present sc) cs res) (\<lambda>(ok, res).
               Inr (True, add_check ''evidence_events_present'' ok res))))))))"

section \<open>Deep verification\<close>

fun load_events :: "json list \<Rightarrow> compliance_event list result" where
  "load_events [] = Inr []"
| "load_events (v # vs) =
     sbind (call_get v ''event'' JNull) (\<lambda>ev.
     sbind (validate_record (or_empty ev)) (\<lambda>e.
     sbind (load_events vs) (\<lambda>es. Inr (e # es))))"

fun verdict_mismatches :: "(string \<times> control_status) list \<Rightarrow> json list \<Rightarrow> report_error list result" where
  "verdict_mismatches recomputed [] = Inr []"
| "verdict_mismatches recomputed (c # cs) =
     sbind (call_get c ''control_id'' JNull) (\<lambda>cid.
     sbind (call_get c ''status'' JNull) (\<lambda>want.
     if \<not> hashable cid then Inl TypeError
     else sbind (verdict_mismatches recomputed cs) (\<lambda>rest.
       Inr ((case (case cid of JStr s \<Rightarrow> map_of (rev recomputed) s | _ \<Rightarrow> None) of
          None \<Rightarrow> [Verdict_Absent cid]
        | Some got \<Rightarrow> if JStr (control_status_value got) \<noteq> want
            then [Verdict_Differs cid want (control_status_value got)] else []) @ rest))))"

definition deep_crosswalk ::
  "(string \<Rightarrow> crosswalk result option) \<Rightarrow> crosswalk option \<Rightarrow> json \<Rightarrow> crosswalk result"
where
  "deep_crosswalk builtins cw ident = (case cw of
     Some c \<Rightarrow> Inr c
   | None \<Rightarrow> (case ident of
       JStr s \<Rightarrow> (case builtins s of Some r \<Rightarrow> r | None \<Rightarrow> Inl KeyError)
     | _ \<Rightarrow> Inl KeyError))"

text \<open>The re-derivation, once the crosswalk in hand is the pinned one.\<close>

definition deep_rederive :: "dict \<Rightarrow> crosswalk \<Rightarrow> verification \<Rightarrow> verification result" where
  "deep_rederive report cw res =
     (let events = dget_or report ''events'' (JList []) in
      sbind (length_of events) (\<lambda>count.
      sbind (call_get (or_empty (dget_or report ''checkpoint'' JNull)) ''tree_size'' JNull) (\<lambda>ts.
      sbind (if truthy ts then py_int ts else Inr count) (\<lambda>n.
      let res = (if count < n then add_warning (Selective_Verdicts count n) res else res) in
      case sbind (iterate events) load_events of
        Inl _ \<Rightarrow> Inr (add_check ''deep_verify_events'' False res)
      | Inr es \<Rightarrow>
          sbind (evaluate cw es) (\<lambda>out.
          sbind (iterate (dget_or report ''controls'' (JList []))) (\<lambda>cs.
          sbind (verdict_mismatches (map (\<lambda>r. (cr_control_id r, cr_status r)) (res_controls out)) cs) (\<lambda>bad.
            Inr (let res = add_check ''deep_verify_verdicts'' (bad = []) res
                 in res\<lparr>vr_errors := vr_errors res @ bad\<rparr>))))))))"

definition deep_verify ::
  "(string \<Rightarrow> crosswalk result option) \<Rightarrow> dict \<Rightarrow> crosswalk option \<Rightarrow> verification \<Rightarrow> verification result"
where
  "deep_verify builtins report cw res =
     (let block = or_empty (dget_or report ''crosswalk'' JNull) in
      sbind (call_get block ''content_hash'' JNull) (\<lambda>pinned.
      if \<not> truthy pinned then Inr (add_check ''deep_verify_crosswalk_pin'' False res)
      else sbind (call_get block ''id'' JNull) (\<lambda>ident.
      case deep_crosswalk builtins cw ident of
        Inl _ \<Rightarrow> Inr (add_check ''deep_verify_crosswalk'' False res)
      | Inr cw \<Rightarrow>
          sbind (crosswalk_content_hash cw) (\<lambda>actual.
          if JStr actual \<noteq> pinned then Inr (add_check ''deep_verify_crosswalk_pin'' False res)
          else deep_rederive report cw (add_check ''deep_verify_crosswalk_pin'' True res)))))"

definition verify_report ::
  "ed_check \<Rightarrow> (string \<Rightarrow> bytes result) \<Rightarrow> (string \<Rightarrow> crosswalk result option) \<Rightarrow> dict \<Rightarrow>
    bytes option \<Rightarrow> bool \<Rightarrow> crosswalk option \<Rightarrow> verification result"
where
  "verify_report ed unpem builtins report trusted deep cw =
     (case establish_key unpem report trusted of
        Inl res \<Rightarrow> Inr res
      | Inr (pub, res) \<Rightarrow>
          sbind (verify_body ed report pub res) (\<lambda>(finished, res).
            if finished \<and> deep then deep_verify builtins report cw res else Inr res))"

section \<open>Consistency between checkpoints\<close>

definition checkpoint_signed :: "ed_check \<Rightarrow> bytes \<Rightarrow> json \<Rightarrow> bool result" where
  "checkpoint_signed ed pub cp =
     sbind (call_get cp ''signature'' (JStr [])) (\<lambda>s.
     sbind (b64decode_value s) (\<lambda>sig.
     sbind (checkpoint_bytes cp) (\<lambda>data.
     if \<not> verify_signature ed pub sig data then Inr False
     else sbind (call_get cp ''public_key_id'' JNull) (\<lambda>k. Inr (k = JStr (key_id_for pub))))))"

definition verify_consistency_between ::
  "ed_check \<Rightarrow> json \<Rightarrow> json \<Rightarrow> json list \<Rightarrow> bytes option \<Rightarrow> bool result"
where
  "verify_consistency_between ed old new proof_hex trusted =
     (case trusted of
        None \<Rightarrow> Inr False
      | Some pub \<Rightarrow>
          sbind (checkpoint_signed ed pub old) (\<lambda>ok. if \<not> ok then Inr False else
          sbind (checkpoint_signed ed pub new) (\<lambda>ok. if \<not> ok then Inr False else
          sbind (item_at old ''tree_size'') (\<lambda>m. sbind (py_int m) (\<lambda>m.
          sbind (item_at new ''tree_size'') (\<lambda>n. sbind (py_int n) (\<lambda>n.
          sbind (item_at old ''root_hash'') (\<lambda>a. sbind (fromhex_value a) (\<lambda>a.
          sbind (item_at new ''root_hash'') (\<lambda>b. sbind (fromhex_value b) (\<lambda>b.
          sbind (map_result fromhex_value proof_hex) (\<lambda>proof.
            Inr (verify_consistency m n a b proof)))))))))))))"

end
