(* ===== verification/Verify_Laws.thy ===== *)
theory Verify_Laws imports Verify Merkle_Properties begin

text \<open>
  What an accepted report implies, and that honest reports are accepted: the two directions the
  properties of the verifier are instances of.
\<close>

section \<open>Accepted steps\<close>

lemma add_check_valid [simp]:
  "vr_valid (add_check name ok res) \<longleftrightarrow> vr_valid res \<and> ok"
  "vr_valid (add_warning w res) \<longleftrightarrow> vr_valid res"
  "\<not> vr_valid (fail_with e res)"
  "vr_valid start_verification"
  by (simp_all add: add_check_def add_warning_def fail_with_def start_verification_def)

lemma caught_True: "caught r \<longleftrightarrow> r = Inr True"
  by (cases r) (auto simp: caught_def)

lemma signature_ok_iff:
  "signature_ok ed pub block payload \<longleftrightarrow> (\<exists>s sig data. call_get block ''signature'' (JStr []) = Inr s
     \<and> b64decode_value s = Inr sig \<and> payload = Inr data \<and> ed pub sig data = Valid)"
proof -
  have "verify_signature ed pub sig d \<longleftrightarrow> ed pub sig d = Valid" for sig d
    by (cases "ed pub sig d") (simp_all add: verify_signature_def)
  then show ?thesis by (auto simp: signature_ok_def caught_True sbind_Inr_conv)
qed

text \<open>An item of the report that passed: its content hashes to the leaf it names, which is included.\<close>

definition item_checked :: "int \<Rightarrow> bytes \<Rightarrow> json \<Rightarrow> bool" where
  "item_checked n rt item \<longleftrightarrow> (\<exists>ev idx leaf st proof.
     call_get item ''event'' JNull = Inr ev \<and> call_get item ''leaf_index'' JNull = Inr idx
     \<and> leaf_from_event (or_empty ev) = Inr leaf
     \<and> call_get item ''leaf_hash'' (JStr []) = Inr st \<and> stored_leaf st = Inr leaf
     \<and> verify_inclusion_value idx n leaf proof rt = Inr True)"

lemma scan_event_checked:
  assumes "scan_event n rt item sc = Inr sc'" "sc_leaf_ok sc'" "sc_incl_ok sc'"
  shows "item_checked n rt item \<and> sc_leaf_ok sc \<and> sc_incl_ok sc"
proof -
  obtain ev idx eid leaf st bs pf hs pth incl where steps:
    "call_get item ''event'' JNull = Inr ev" "call_get item ''leaf_index'' JNull = Inr idx"
    "call_get (or_empty ev) ''event_id'' JNull = Inr eid" "leaf_from_event (or_empty ev) = Inr leaf"
    "call_get item ''leaf_hash'' (JStr []) = Inr st" "stored_leaf st = Inr bs"
    "call_get item ''inclusion_proof'' (JList []) = Inr pf" "iterate pf = Inr hs"
    "map_result fromhex_value hs = Inr pth"
    "verify_inclusion_value idx n leaf pth rt = Inr incl"
    and sc': "sc_leaf_ok sc' = (sc_leaf_ok sc \<and> leaf = bs)" "sc_incl_ok sc' = (sc_incl_ok sc \<and> incl)"
    using assms(1) by (auto simp: scan_event_def Let_def sbind_Inr_conv split: if_splits)
  have "incl" "leaf = bs" using sc' assms(2,3) by simp_all
  with steps have "item_checked n rt item"
    unfolding item_checked_def
    by (intro exI [of _ ev] exI [of _ idx] exI [of _ leaf] exI [of _ st] exI [of _ pth]) simp
  with sc' assms(2,3) show ?thesis by simp
qed

lemma scan_events_checked:
  assumes "scan_events n rt items sc = Inr sc'" "sc_leaf_ok sc'" "sc_incl_ok sc'"
  shows "list_all (item_checked n rt) items \<and> sc_leaf_ok sc \<and> sc_incl_ok sc"
  using assms
proof (induction items arbitrary: sc)
  case (Cons v vs)
  then obtain sc1 where sc1: "scan_event n rt v sc = Inr sc1" "scan_events n rt vs sc1 = Inr sc'"
    by (auto simp: sbind_Inr_conv)
  from Cons.IH [OF sc1(2)] Cons.prems(2,3) scan_event_checked [OF sc1(1)] show ?case by simp
qed simp

text \<open>The head of the report's checkpoint, signed.\<close>

definition signed_head :: "ed_check \<Rightarrow> bytes \<Rightarrow> dict \<Rightarrow> bytes \<Rightarrow> int \<Rightarrow> bool" where
  "signed_head ed pub report rt n \<longleftrightarrow> (\<exists>cp s sig data. cp = or_empty (dget_or report ''checkpoint'' JNull)
     \<and> checkpoint_head cp = Inr (rt, n) \<and> call_get cp ''signature'' (JStr []) = Inr s
     \<and> b64decode_value s = Inr sig \<and> checkpoint_bytes cp = Inr data \<and> ed pub sig data = Valid)"

definition signed_report :: "ed_check \<Rightarrow> bytes \<Rightarrow> dict \<Rightarrow> bool" where
  "signed_report ed pub report \<longleftrightarrow> signature_ok ed pub (or_empty (dget_or report ''signature'' JNull))
     (report_signing_payload report)"

definition report_items_of :: "dict \<Rightarrow> json list result" where
  "report_items_of report =
     (let events = dget_or report ''events'' JNull in iterate (if truthy events then events else JList []))"

lemma note_control_keeps [simp]:
  "vr_valid (note_control cid status title res) = vr_valid res"
  "vr_checks (note_control cid status title res) = vr_checks res"
  by (simp_all add: note_control_def Let_def)

lemma check_controls_valid: "check_controls present cs res = Inr (ok, res') \<Longrightarrow> vr_valid res' = vr_valid res"
proof (induction cs arbitrary: res ok res')
  case (Cons c cs)
  then show ?case by (auto simp: sbind_Inr_conv Let_def dest: Cons.IH)
qed simp

lemma full_tree_valid: "vr_valid (check_full_tree n rt sc res) \<Longrightarrow> vr_valid res"
  by (auto simp: check_full_tree_def Let_def split: if_splits)

lemma verify_body_valid:
  assumes "verify_body ed report pub res = Inr (finished, res')" "vr_valid res'"
  shows "vr_valid res \<and> finished \<and> signed_report ed pub report
    \<and> (\<exists>rt n items. signed_head ed pub report rt n \<and> report_items_of report = Inr items
         \<and> list_all (item_checked n rt) items)"
proof -
  let ?cp = "or_empty (dget_or report ''checkpoint'' JNull)"
  obtain res1 where res1: "check_report_signature ed report pub res = Inr res1"
    using assms(1) by (auto simp: verify_body_def sbind_Inr_conv)
  obtain res2 where res2: "check_checkpoint_signature ed report pub res1 = Inr (?cp, res2)"
    using assms(1) res1 by (auto simp: verify_body_def check_checkpoint_signature_def Let_def sbind_Inr_conv)
  show ?thesis
  proof (cases "checkpoint_head ?cp")
    case (Inl e)
    then have "\<not> vr_valid res'" using assms(1) res1 res2 by (auto simp: verify_body_def)
    with assms(2) show ?thesis by simp
  next
    case (Inr head)
    obtain rt n where head: "head = (rt, n)" by (cases head)
    obtain items sc cs ok res3 where rest: "report_items_of report = Inr items"
      "scan_events n rt items scan_start = Inr sc"
      "check_controls (sc_present sc) cs (check_full_tree n rt sc
         (add_check ''inclusion_proofs'' (sc_incl_ok sc) (add_check ''event_leaf_hashes'' (sc_leaf_ok sc) res2)))
         = Inr (ok, res3)"
      "res' = add_check ''evidence_events_present'' ok res3" "finished"
      using assms(1) res1 res2 Inr head
      by (auto simp: verify_body_def report_items_of_def Let_def sbind_Inr_conv)
    have valid: "sc_leaf_ok sc" "sc_incl_ok sc" "vr_valid res2"
      using assms(2) rest(4) check_controls_valid [OF rest(3)] full_tree_valid by force+
    have "vr_valid res1 \<and> signature_ok ed pub ?cp (checkpoint_bytes ?cp)"
      using res2 valid(3) by (auto simp: check_checkpoint_signature_def Let_def sbind_Inr_conv split: if_splits)
    moreover from this have "vr_valid res \<and> signed_report ed pub report"
      using res1 by (auto simp: check_report_signature_def signed_report_def Let_def sbind_Inr_conv split: if_splits)
    ultimately show ?thesis
      using rest(1,5) scan_events_checked [OF rest(2) valid(1,2)] Inr head
      unfolding signed_head_def signature_ok_iff by blast
  qed
qed

lemma deep_rederive_valid:
  assumes "deep_rederive report cw res = Inr res'" "vr_valid res'"
  shows "vr_valid res \<and> (\<exists>items es out cs. iterate (dget_or report ''events'' (JList [])) = Inr items
    \<and> load_events items = Inr es \<and> evaluate cw es = Inr out
    \<and> iterate (dget_or report ''controls'' (JList [])) = Inr cs
    \<and> verdict_mismatches (map (\<lambda>r. (cr_control_id r, cr_status r)) (res_controls out)) cs = Inr [])"
  using assms
  by (cases "sbind (iterate (dget_or report ''events'' (JList []))) load_events")
    (auto simp: deep_rederive_def Let_def sbind_Inr_conv split: if_splits)

lemma deep_verify_valid:
  assumes "deep_verify builtins report cw res = Inr res'" "vr_valid res'"
  shows "vr_valid res \<and> (\<exists>ident c h. deep_crosswalk builtins cw ident = Inr c
    \<and> crosswalk_content_hash c = Inr h
    \<and> call_get (or_empty (dget_or report ''crosswalk'' JNull)) ''content_hash'' JNull = Inr (JStr h)
    \<and> (\<exists>items es out cs. iterate (dget_or report ''events'' (JList [])) = Inr items
      \<and> load_events items = Inr es \<and> evaluate c es = Inr out
      \<and> iterate (dget_or report ''controls'' (JList [])) = Inr cs
      \<and> verdict_mismatches (map (\<lambda>r. (cr_control_id r, cr_status r)) (res_controls out)) cs = Inr []))"
proof -
  let ?block = "or_empty (dget_or report ''crosswalk'' JNull)"
  obtain pinned where pinned: "call_get ?block ''content_hash'' JNull = Inr pinned" "truthy pinned"
    using assms by (auto simp: deep_verify_def Let_def sbind_Inr_conv split: if_splits)
  obtain ident where ident: "call_get ?block ''id'' JNull = Inr ident"
    using assms pinned by (auto simp: deep_verify_def Let_def sbind_Inr_conv)
  obtain c where c: "deep_crosswalk builtins cw ident = Inr c"
    using assms pinned ident
    by (cases "deep_crosswalk builtins cw ident") (auto simp: deep_verify_def Let_def)
  obtain h where h: "crosswalk_content_hash c = Inr h" "JStr h = pinned"
    "deep_rederive report c (add_check ''deep_verify_crosswalk_pin'' True res) = Inr res'"
    using assms pinned ident c by (auto simp: deep_verify_def Let_def sbind_Inr_conv split: if_splits)
  show ?thesis
    using deep_rederive_valid [OF h(3) assms(2)] c h(1,2) pinned(1) by (simp, blast)
qed

lemma accepted_report:
  assumes "verify_report ed unpem builtins report trusted deep cw = Inr res" "vr_valid res"
  shows "\<exists>pub rt n items. (trusted = Some pub \<or> trusted = None \<and> pem_key unpem (dget_or report ''public_key_pem'' JNull) = Inr pub)
    \<and> signed_report ed pub report \<and> signed_head ed pub report rt n
    \<and> report_items_of report = Inr items \<and> list_all (item_checked n rt) items"
proof -
  obtain pub res0 where key: "establish_key unpem report trusted = Inr (pub, res0)"
    using assms by (auto simp: verify_report_def establish_key_def Let_def split: sum.splits option.splits if_splits)
  obtain finished res1 where body: "verify_body ed report pub res0 = Inr (finished, res1)"
    "(if finished \<and> deep then deep_verify builtins report cw res1 else Inr res1) = Inr res"
    using assms(1) key by (auto simp: verify_report_def sbind_Inr_conv)
  have "vr_valid res1"
    using body(2) assms(2) deep_verify_valid by (auto split: if_splits)
  from verify_body_valid [OF body(1) this] obtain rt n items where
    "signed_report ed pub report" "signed_head ed pub report rt n" "report_items_of report = Inr items"
    "list_all (item_checked n rt) items" by blast
  moreover have "trusted = Some pub \<or> trusted = None \<and> pem_key unpem (dget_or report ''public_key_pem'' JNull) = Inr pub"
    using key by (auto simp: establish_key_def Let_def split: sum.splits option.splits if_splits)
  ultimately show ?thesis by blast
qed

end
