(* ===== verification/Verify_Honest.thy ===== *)
theory Verify_Honest imports Verify_Laws begin

text \<open>
  Honest reports pass: the verifier, run on what \<open>build_report\<close> produced from a ledger, finds every
  check true.  The steps follow the verifier's.
\<close>

section \<open>Events\<close>

text \<open>The item of a committed event with a proof that verifies.\<close>

definition good_item :: "compliance_event \<Rightarrow> nat \<Rightarrow> bytes \<Rightarrow> bytes list \<Rightarrow> int \<Rightarrow> bytes \<Rightarrow> bool" where
  "good_item e i leaf p n rt \<longleftrightarrow> committed e i leaf \<and> verify_inclusion (int i) n leaf p rt"

lemma event_id_dump: "dget_or (model_dump e) ''event_id'' JNull = JStr (event_id e)"
  unfolding model_dump_def dget_or_def
  by (simp add: field_laws del: append.simps append_Cons append_Nil map_of_append)

lemma committed_leaf:
  assumes "committed e i leaf"
  shows "leaf_from_event (JDict (model_dump e)) = Inr leaf"
    "json_opt (Option.bind (ledger e) ledger_leaf_hash) = JStr (''sha256:'' @ hex leaf)"
  using assms leaf_content_dump [of e]
  by (auto simp: committed_def leaf_from_event_def without_def leaf_content_bytes_def dpop_def json_opt_def)

lemma stored_leaf_hash: "stored_leaf (JStr (''sha256:'' @ hex h)) = Inr h"
  using split_at_snoc [OF colon_free_hex, of "''sha256''" h] by (simp add: stored_leaf_def truthy_def)

lemma map_result_hex: "map_result fromhex_value (map JStr (map hex p)) = Inr p"
  by (induction p) (simp_all add: fromhex_value_def)

lemma scan_good_item:
  assumes "good_item e i leaf p n rt" "\<forall>x \<in> set (sc_leaves sc). fst x \<noteq> int i"
  shows "scan_event n rt (report_item e i (map hex p)) sc = Inr (sc\<lparr>
    sc_present := sc_present sc @ [JStr (event_id e)],
    sc_leaves := (int i, leaf) # sc_leaves sc\<rparr>)"
proof -
  have "committed e i leaf" "verify_inclusion (int i) n leaf p rt"
    using assms(1) by (simp_all add: good_item_def)
  note leaf = committed_leaf [OF this(1)] and incl = this(2)
  have "model_dump e \<noteq> []" by (simp add: model_dump_def)
  then have ev: "or_empty (JDict (model_dump e)) = JDict (model_dump e)"
    by (simp add: or_empty_def truthy_def)
  have "filter (\<lambda>x. fst x \<noteq> int i) (sc_leaves sc) = sc_leaves sc"
    using assms(2) by (simp add: filter_id_conv)
  then show ?thesis
    using leaf incl
    by (simp add: scan_event_def report_item_def call_get_def dget_or_def [of "[(''event'', _), _, _, _]"]
        dget_or_def [of _ "''leaf_index''"] ev event_id_dump hashable_def stored_leaf_hash
        verify_inclusion_value_def int_index_def strs_def iterate_def map_result_hex
        dget_or_def [of _ "''leaf_hash''"] dget_or_def [of _ "''inclusion_proof''"]
        del: map_map append.simps append_Cons)
qed

lemma scan_good_items:
  assumes "\<forall>i \<in> set is. good_item (es ! i) i (leaves ! i) (ps i) n rt" "distinct is"
    and "\<forall>i \<in> set is. \<forall>x \<in> set (sc_leaves sc). fst x \<noteq> int i"
  shows "scan_events n rt (map (\<lambda>i. report_item (es ! i) i (map hex (ps i))) is) sc = Inr (sc\<lparr>
    sc_present := sc_present sc @ map (\<lambda>i. JStr (event_id (es ! i))) is,
    sc_leaves := rev (map (\<lambda>i. (int i, leaves ! i)) is) @ sc_leaves sc\<rparr>)"
  using assms
proof (induction "is" arbitrary: sc)
  case (Cons i "is")
  let ?sc = "sc\<lparr>sc_present := sc_present sc @ [JStr (event_id (es ! i))],
    sc_leaves := (int i, leaves ! i) # sc_leaves sc\<rparr>"
  have step: "scan_event n rt (report_item (es ! i) i (map hex (ps i))) sc = Inr ?sc"
    using Cons.prems by (intro scan_good_item) auto
  have "scan_events n rt (map (\<lambda>i. report_item (es ! i) i (map hex (ps i))) is) ?sc = Inr (?sc\<lparr>
      sc_present := sc_present ?sc @ map (\<lambda>i. JStr (event_id (es ! i))) is,
      sc_leaves := rev (map (\<lambda>i. (int i, leaves ! i)) is) @ sc_leaves ?sc\<rparr>)"
    using Cons.prems by (intro Cons.IH) auto
  then show ?case using step by simp
qed simp

lemma full_tree_good:
  assumes "length leaves = n" "sc_leaves sc = rev (map (\<lambda>i. (int i, leaves ! i)) [0..<n])"
  shows "check_full_tree (int n) (tree_hash leaves) sc res = add_check ''full_tree_root'' True res"
proof -
  have lookup: "map_of (sc_leaves sc) (int i) = Some (leaves ! i)" if "i < n" for i
  proof -
    have "distinct (map fst (sc_leaves sc))"
      by (simp add: assms(2) rev_map [symmetric] comp_def distinct_map inj_on_def)
    moreover have "(int i, leaves ! i) \<in> set (sc_leaves sc)" using that by (auto simp: assms(2))
    ultimately show ?thesis by simp
  qed
  have "map (\<lambda>i. the (map_of (sc_leaves sc) (int i))) [0..<n] = leaves"
    by (rule nth_equalityI) (simp_all add: lookup assms(1))
  then show ?thesis
    using lookup by (simp add: check_full_tree_def Let_def assms(2) [THEN arg_cong [of _ _ length]] list_all_iff)
qed

section \<open>Controls\<close>

lemma cited_present_all: "set ids \<subseteq> set present \<Longrightarrow> cited_present (map JStr present) (map JStr ids) = Inr True"
  by (induction ids) (auto simp: hashable_def list_ex_iff)

lemma check_controls_good:
  assumes "\<forall>r \<in> set rs. set (cr_evidence_event_ids r) \<subseteq> set present"
  shows "\<exists>res'. check_controls (map JStr present) (map dump_control_result rs) res = Inr (True, res')
    \<and> vr_checks res' = vr_checks res \<and> vr_valid res' = vr_valid res"
  using assms
proof (induction rs arbitrary: res)
  case (Cons r rs)
  then have cited: "cited_present (map JStr present) (map JStr (cr_evidence_event_ids r)) = Inr True"
    by (intro cited_present_all) simp
  have IH: "\<exists>res'. check_controls (map JStr present) (map dump_control_result rs) r0 = Inr (True, res')
      \<and> vr_checks res' = vr_checks r0 \<and> vr_valid res' = vr_valid r0" for r0
    using Cons.prems by (intro Cons.IH) simp
  show ?case
    using cited IH [of "note_control (JStr (cr_control_id r)) (JStr (control_status_value (cr_status r)))
      (JStr (cr_title r)) res"]
    by (auto simp: dump_control_result_def [of r] call_get_def dget_or_def strs_def iterate_def)
qed simp

section \<open>Signatures\<close>

lemma honest_checkpoint:
  assumes "\<forall>d. ed (ks_public_key_raw key) (ks_sign key d) d = Valid"
    and "ledger_checkpoint key clk ts led = Inr cp" "ledger_ok holds led es"
  shows "signature_ok ed (ks_public_key_raw key) (JDict (dump_checkpoint cp))
      (checkpoint_bytes (JDict (dump_checkpoint cp)))"
    "checkpoint_head (JDict (dump_checkpoint cp)) = Inr (tree_hash (led_leaves led), int (length es))"
    "or_empty (JDict (dump_checkpoint cp)) = JDict (dump_checkpoint cp)"
    "call_get (JDict (dump_checkpoint cp)) ''public_key_id'' JNull = Inr (JStr (ks_key_id key))"
    "call_get (JDict (dump_checkpoint cp)) ''root_hash'' (JStr []) = Inr (JStr (hex (tree_hash (led_leaves led))))"
    "cp_tree_size cp = int (length es)"
    "call_get (JDict (dump_checkpoint cp)) ''tree_size'' JNull = Inr (JInt (int (length es)))"
proof -
  note f = sign_checkpoint_fields [OF assms(2) [unfolded ledger_checkpoint_def]]
  obtain data where data: "cp_signing_bytes cp = Inr data" "cp_signature cp = b64encode (ks_sign key data)"
    using f(6) by blast
  have cp: "cp_tree_size cp = int (length es)" "cp_root_hash cp = hex (tree_hash (led_leaves led))"
    "cp_public_key_id cp = ks_key_id key"
    using f ledger_size_ok [OF assms(3)] ledger_root_ok [OF assms(3)] by (simp_all add: root_hex_def)
  have "checkpoint_bytes (JDict (dump_checkpoint cp)) = Inr data"
    using data(1) by (simp add: checkpoint_bytes_def item_at_def dump_checkpoint_def cp_signing_bytes_def
        checkpoint_signing_bytes_def)
  then show "signature_ok ed (ks_public_key_raw key) (JDict (dump_checkpoint cp))
      (checkpoint_bytes (JDict (dump_checkpoint cp)))"
    using assms(1) data(2)
    by (simp add: signature_ok_iff call_get_def dget_or_def dump_checkpoint_def b64decode_value_def)
  show "checkpoint_head (JDict (dump_checkpoint cp)) = Inr (tree_hash (led_leaves led), int (length es))"
    using cp by (simp add: checkpoint_head_def item_at_def dump_checkpoint_def fromhex_value_def py_int_def)
  show "or_empty (JDict (dump_checkpoint cp)) = JDict (dump_checkpoint cp)"
    by (simp add: or_empty_def truthy_def dump_checkpoint_def)
  show "call_get (JDict (dump_checkpoint cp)) ''public_key_id'' JNull = Inr (JStr (ks_key_id key))"
    "call_get (JDict (dump_checkpoint cp)) ''root_hash'' (JStr []) = Inr (JStr (hex (tree_hash (led_leaves led))))"
    "cp_tree_size cp = int (length es)"
    "call_get (JDict (dump_checkpoint cp)) ''tree_size'' JNull = Inr (JInt (int (length es)))"
    using cp by (simp_all add: call_get_def dget_or_def dump_checkpoint_def)
qed

lemma honest_signature:
  assumes "\<forall>d. ed (ks_public_key_raw key) (ks_sign key d) d = Valid" "sign_report key body = Inr report"
    and "''signature'' \<notin> fst ` set body"
  shows "signature_ok ed (ks_public_key_raw key) (or_empty (dget_or report ''signature'' JNull))
      (report_signing_payload report)"
    "call_get (or_empty (dget_or report ''signature'' JNull)) ''public_key_id'' (JStr []) = Inr (JStr (ks_key_id key))"
    "k \<noteq> ''signature'' \<Longrightarrow> dget_or report k v = dget_or body k v"
proof -
  obtain payload where p: "signing_payload body = Inr payload"
    and report: "report = body @ [(''signature'', JDict
          [(''algorithm'', JStr ''ed25519''), (''public_key_id'', JStr (ks_key_id key)),
           (''signature'', JStr (b64encode (ks_sign key payload)))])]"
    using assms(2) by (auto simp: sign_report_def sbind_Inr_conv)
  have none: "map_of body ''signature'' = None" using assms(3) by (simp add: map_of_eq_None_iff)
  then have sig: "or_empty (dget_or report ''signature'' JNull) = JDict
          [(''algorithm'', JStr ''ed25519''), (''public_key_id'', JStr (ks_key_id key)),
           (''signature'', JStr (b64encode (ks_sign key payload)))]"
    by (simp add: report dget_or_def map_add_def or_empty_def truthy_def)
  have "filter (\<lambda>(k, v). k \<noteq> ''signature'') body = body"
    using assms(3) by (force simp: filter_id_conv)
  then have "report_signing_payload report = Inr payload"
    using p by (simp add: report_signing_payload_def signing_payload_def report without_def)
  then show "signature_ok ed (ks_public_key_raw key) (or_empty (dget_or report ''signature'' JNull))
      (report_signing_payload report)"
    using assms(1) unfolding signature_ok_iff sig
    by (simp add: call_get_def dget_or_def b64decode_value_def)
  show "call_get (or_empty (dget_or report ''signature'' JNull)) ''public_key_id'' (JStr []) = Inr (JStr (ks_key_id key))"
    unfolding sig by (simp add: call_get_def dget_or_def)
  show "k \<noteq> ''signature'' \<Longrightarrow> dget_or report k v = dget_or body k v"
    by (simp add: report dget_or_def map_add_def split: option.split)
qed

section \<open>The whole report\<close>

lemma body_keys:
  "''signature'' \<notin> fst ` set (report_body pem key cr a cp es items)"
  "dget_or (report_body pem key cr a cp es items) ''public_key_pem'' JNull = JStr (pem (ks_public_key_raw key))"
  "dget_or (report_body pem key cr a cp es items) ''checkpoint'' JNull = JDict (dump_checkpoint cp)"
  "dget_or (report_body pem key cr a cp es items) ''events'' v = JList items"
  "dget_or (report_body pem key cr a cp es items) ''controls'' v = JList (map dump_control_result (res_controls cr))"
  "call_get (or_empty (dget_or (report_body pem key cr a cp es items) ''crosswalk'' JNull)) ''content_hash'' JNull
     = Inr (json_opt (res_crosswalk_content_hash cr))"
  "call_get (or_empty (dget_or (report_body pem key cr a cp es items) ''crosswalk'' JNull)) ''id'' JNull
     = Inr (JStr (res_crosswalk_id cr))"
  by (simp_all add: report_body_def dget_or_def call_get_def or_empty_def truthy_def)

definition honest_checks :: "(string \<times> bool) list" where
  "honest_checks = [(''report_signature'', True), (''checkpoint_signature'', True),
     (''event_leaf_hashes'', True), (''inclusion_proofs'', True), (''full_tree_root'', True),
     (''evidence_events_present'', True)]"

lemma honest_body:
  assumes ed: "\<forall>d. ed (ks_public_key_raw key) (ks_sign key d) d = Valid"
    and cp: "ledger_checkpoint key clk ts led = Inr cp" "ledger_ok holds led es"
    and items: "\<forall>i < length es. good_item (es ! i) i (led_leaves led ! i) (ps i) (int (length es)) (tree_hash (led_leaves led))"
    and cited: "\<forall>r \<in> set (res_controls cr). set (cr_evidence_event_ids r) \<subseteq> event_id ` set es"
    and report: "sign_report key (report_body pem key cr a cp es
      (map (\<lambda>i. report_item (es ! i) i (map hex (ps i))) [0..<length es])) = Inr report"
  shows "\<exists>res'. verify_body ed report (ks_public_key_raw key) res = Inr (True, res')
    \<and> vr_checks res' = vr_checks res @ honest_checks \<and> vr_valid res' = vr_valid res"
proof -
  let ?pub = "ks_public_key_raw key" and ?n = "length es"
  let ?items = "map (\<lambda>i. report_item (es ! i) i (map hex (ps i))) [0..<?n]"
  note sig = honest_signature [where ed = ed and key = key, OF ed report body_keys(1)]
  have look: "dget_or report ''checkpoint'' JNull = JDict (dump_checkpoint cp)"
    "dget_or report ''events'' JNull = JList ?items"
    "dget_or report ''controls'' (JList []) = JList (map dump_control_result (res_controls cr))"
    by (simp_all add: sig(3) body_keys del: map_map)
  note head = honest_checkpoint [where ed = ed and key = key, OF ed cp]
  have id: "\<not> key_id_mismatch (JStr (ks_key_id key)) ?pub"
    by (simp add: key_id_mismatch_def ks_key_id_def)
  have step2: "check_report_signature ed report ?pub res = Inr (add_check ''report_signature'' True res)"
    using sig(1,2) id by (simp add: check_report_signature_def Let_def)
  have step3: "check_checkpoint_signature ed report ?pub r
      = Inr (JDict (dump_checkpoint cp), add_check ''checkpoint_signature'' True r)" for r
    using head id by (simp add: check_checkpoint_signature_def Let_def look sliceable_def)
  obtain sc where scan: "scan_events (int ?n) (tree_hash (led_leaves led)) ?items scan_start = Inr sc"
    and sc: "sc_leaf_ok sc" "sc_incl_ok sc" "sc_present sc = map JStr (map event_id es)"
      "sc_leaves sc = rev (map (\<lambda>i. (int i, led_leaves led ! i)) [0..<?n])"
  proof -
    have "map (\<lambda>i. JStr (event_id (es ! i))) [0..<?n] = map JStr (map event_id es)"
      by (rule nth_equalityI) simp_all
    moreover have "scan_events (int ?n) (tree_hash (led_leaves led)) ?items scan_start = Inr (scan_start\<lparr>
        sc_present := sc_present scan_start @ map (\<lambda>i. JStr (event_id (es ! i))) [0..<?n],
        sc_leaves := rev (map (\<lambda>i. (int i, led_leaves led ! i)) [0..<?n]) @ sc_leaves scan_start\<rparr>)"
      by (rule scan_good_items) (use items in \<open>auto simp: scan_start_def\<close>)
    ultimately show ?thesis using that by (simp add: scan_start_def del: map_map)
  qed
  have iter: "iterate (if truthy (JList ?items) then JList ?items else JList []) = Inr ?items"
    by (simp add: iterate_def truthy_def)
  have len: "length (led_leaves led) = ?n" using cp(2) by (simp add: ledger_ok_def log_of_def)
  note full = full_tree_good [OF len sc(4)]
  let ?res5 = "add_check ''full_tree_root'' True (add_check ''inclusion_proofs'' True
      (add_check ''event_leaf_hashes'' True (add_check ''checkpoint_signature'' True
        (add_check ''report_signature'' True res))))"
  obtain res6 where res6: "check_controls (map JStr (map event_id es))
      (map dump_control_result (res_controls cr)) ?res5 = Inr (True, res6)"
    "vr_checks res6 = vr_checks ?res5" "vr_valid res6 = vr_valid ?res5"
    using check_controls_good [of "res_controls cr" "map event_id es" ?res5] cited by auto
  have "verify_body ed report ?pub res = Inr (True, add_check ''evidence_events_present'' True res6)"
    unfolding verify_body_def step2 step3 look Let_def sbind.simps prod.case head(2) sum.case iter scan
      sc(1,2) [THEN eqTrueI] full sc(3)
    by (simp only: iterate_def pyv.case sbind.simps res6(1) prod.case)
  then show ?thesis using res6(2,3) by (simp add: add_check_def honest_checks_def)
qed

section \<open>Deep verification of an honest report\<close>

lemma load_items:
  "\<forall>i \<in> set is. wf_event (es ! i) \<Longrightarrow>
    load_events (map (\<lambda>i. report_item (es ! i) i (ps i)) is) = Inr (map (\<lambda>i. es ! i) is)"
proof (induction "is")
  case (Cons i "is")
  have "or_empty (JDict (model_dump (es ! i))) = JDict (model_dump (es ! i))"
    by (simp add: or_empty_def truthy_def model_dump_def)
  with Cons show ?case
    by (simp add: report_item_def [of "es ! i"] call_get_def dget_or_def validate_record_def model_validate_dump)
qed simp

lemma no_mismatch:
  assumes "distinct (map fst statuses)" "set (map (\<lambda>r. (cr_control_id r, cr_status r)) rs) \<subseteq> set statuses"
  shows "verdict_mismatches statuses (map dump_control_result rs) = Inr []"
  using assms(2)
proof (induction rs)
  case (Cons r rs)
  have "map_of (rev statuses) (cr_control_id r) = Some (cr_status r)"
    using Cons.prems assms(1) by (intro map_of_is_SomeI) (auto simp: rev_map [symmetric])
  with Cons show ?case
    by (simp add: dump_control_result_def [of r] call_get_def dget_or_def hashable_def)
qed simp

text \<open>Deep verification of a report whose control results \<open>cr\<close> came from anywhere, under the crosswalk
  whose evaluation on the report's events is \<open>now\<close>.\<close>

lemma deep_outcome:
  assumes ed: "\<forall>d. ed (ks_public_key_raw key) (ks_sign key d) d = Valid"
    and cp: "ledger_checkpoint key clk ts led = Inr cp" "ledger_ok holds led es"
    and eval: "evaluate cw es = Inr now" "crosswalk_content_hash cw = Inr h" "res_crosswalk_content_hash cr = Some h"
    and report: "sign_report key (report_body pem key cr a cp es
      (map (\<lambda>i. report_item (es ! i) i (map hex (ps i))) [0..<length es])) = Inr report"
    and mism: "verdict_mismatches (map (\<lambda>r. (cr_control_id r, cr_status r)) (res_controls now))
      (map dump_control_result (res_controls cr)) = Inr bad"
  shows "\<exists>res'. deep_verify builtins report (Some cw) res = Inr res'
    \<and> (vr_valid res' \<longleftrightarrow> vr_valid res \<and> bad = []) \<and> (\<exists>cs. vr_checks res' = vr_checks res @ cs)"
proof -
  let ?items = "map (\<lambda>i. report_item (es ! i) i (map hex (ps i))) [0..<length es]"
  note sig = honest_signature(3) [where ed = ed and key = key, OF ed report body_keys(1)]
  have log: "log_of es (led_leaves led)" using cp(2) by (simp add: ledger_ok_def)
  have "\<forall>i \<in> set [0..<length es]. wf_event (es ! i)" using log by (simp add: log_of_def committed_def)
  from load_items [OF this, of "\<lambda>i. map hex (ps i)"]
  have load: "load_events ?items = Inr es" by (simp add: map_nth)
  have "truthy (JStr h)"
    using eval(2) by (auto simp: crosswalk_content_hash_def content_hash_def sbind_Inr_conv truthy_def)
  moreover have "call_get (or_empty (dget_or report ''crosswalk'' JNull)) ''content_hash'' JNull = Inr (JStr h)"
    by (simp add: sig body_keys eval(3) json_opt_def)
  moreover have "call_get (or_empty (dget_or report ''crosswalk'' JNull)) ''id'' JNull = Inr (JStr (res_crosswalk_id cr))"
    by (simp add: sig body_keys)
  ultimately have deep: "deep_verify builtins report (Some cw) res
      = deep_rederive report cw (add_check ''deep_verify_crosswalk_pin'' True res)"
    using eval(2) by (simp add: deep_verify_def Let_def deep_crosswalk_def)
  have look: "dget_or report ''checkpoint'' JNull = JDict (dump_checkpoint cp)"
    "dget_or report ''events'' (JList []) = JList ?items"
    "dget_or report ''controls'' (JList []) = JList (map dump_control_result (res_controls cr))"
    by (simp_all add: sig body_keys del: map_map)
  note head = honest_checkpoint [where ed = ed and key = key, OF ed cp]
  have size: "(if truthy (JInt (int (length es))) then py_int (JInt (int (length es))) else Inr (int (length es)))
      = Inr (int (length es))"
    by (simp add: py_int_def)
  have "deep_rederive report cw r = Inr (let res = add_check ''deep_verify_verdicts'' (bad = []) r
        in res\<lparr>vr_errors := vr_errors res @ bad\<rparr>)" for r
    unfolding deep_rederive_def look head(3,7) Let_def sbind.simps
    by (simp add: length_of_def iterate_def load size eval(1) mism Let_def del: map_map)
  then show ?thesis by (auto simp: deep add_check_def Let_def)
qed

lemma honest_deep:
  assumes ed: "\<forall>d. ed (ks_public_key_raw key) (ks_sign key d) d = Valid"
    and cp: "ledger_checkpoint key clk ts led = Inr cp" "ledger_ok holds led es"
    and eval: "evaluate cw es = Inr cr" "distinct (map ctl_id (cw_controls cw))"
    and report: "sign_report key (report_body pem key cr a cp es
      (map (\<lambda>i. report_item (es ! i) i (map hex (ps i))) [0..<length es])) = Inr report"
  shows "\<exists>res'. deep_verify builtins report (Some cw) res = Inr res' \<and> vr_valid res' = vr_valid res
    \<and> (\<exists>cs. vr_checks res' = vr_checks res @ cs)"
proof -
  let ?statuses = "map (\<lambda>r. (cr_control_id r, cr_status r)) (res_controls cr)"
  obtain h where h: "crosswalk_content_hash cw = Inr h" "res_crosswalk_content_hash cr = Some h"
    using evaluate_parts [OF eval(1)] by blast
  have log: "log_of es (led_leaves led)" using cp(2) by (simp add: ledger_ok_def)
  have "map fst ?statuses = map ctl_id (cw_controls cw)"
    using evaluate_verdicts [OF log eval(1)] by (metis (no_types, lifting) comp_apply fst_conv list.map_comp map_eq_conv)
  then have "verdict_mismatches ?statuses (map dump_control_result (res_controls cr)) = Inr []"
    using eval(2) by (intro no_mismatch) simp_all
  from deep_outcome [where ed = ed and key = key, OF ed cp eval(1) h report this, of builtins res] show ?thesis by simp
qed

end
