(* ===== verification/Verify_Properties.thy ===== *)
theory Verify_Properties imports Verify_Honest Ledger_Properties begin

text \<open>
  The properties of reports and of the offline verifier.
\<close>

section \<open>A report can always be built and is accepted\<close>

text \<open>What the caller hands in carries no floating-point number.\<close>

definition args_float_free :: "report_args \<Rightarrow> crosswalk_result \<Rightarrow> bool" where
  "args_float_free a cr \<longleftrightarrow> float_free (JDict (case ra_period a of None \<Rightarrow> [] | Some p \<Rightarrow> p))
     \<and> list_all (\<lambda>c. float_free (JDict (cit_extra (cr_citation c)))) (res_controls cr)"

lemma float_free_append: "float_free (JDict (a @ b)) \<longleftrightarrow> float_free (JDict a) \<and> float_free (JDict b)"
  by simp

lemma float_free_simps:
  "float_free (json_opt s)" "float_free (strs xs)" "float_free (JDict [])"
  "float_free (JDict (opt_field k (map_option JStr w)))"
  by (auto simp: json_opt_def strs_def opt_field_def list_all_iff split: option.split)

lemma float_free_extras: "float_free (JDict d) \<Longrightarrow> float_free (JDict (set_extras d))"
  by (auto simp: set_extras_def list_all_iff)

lemma float_free_lookup: "float_free (JDict d) \<Longrightarrow> float_free (dget_or d k JNull)"
  by (force simp: dget_or_def list_all_iff split: option.split dest: map_of_SomeD)

lemma float_free_citation: "float_free (JDict (cit_extra c)) \<Longrightarrow> float_free (JDict (dump_citation c))"
  unfolding dump_citation_def float_free_append
  by (simp only: float_free_simps float_free_extras) (simp add: strs_def list_all_iff)

lemma float_free_control:
  "float_free (JDict (cit_extra (cr_citation c))) \<Longrightarrow> float_free (dump_control_result c)"
  using float_free_citation [of "cr_citation c"] by (simp add: dump_control_result_def strs_def list_all_iff)

lemma float_free_gap: "wf_event e \<Longrightarrow> float_free (gap_entry i e)"
proof -
  assume "wf_event e"
  then have "float_free (JDict (attributes e))" by (simp only: wf_event_def good_value_def)
  from float_free_lookup [OF this] show ?thesis by (simp add: gap_entry_def)
qed

lemma float_free_gaps: "\<forall>e \<in> set es. wf_event e \<Longrightarrow> float_free (JList (evidence_gaps es))"
  using float_free_gap by (auto simp: evidence_gaps_def list_all_iff set_zip)

lemma float_free_item: "wf_event e \<Longrightarrow> float_free (report_item e i p)"
  using good_model_dump [of e] by (simp add: report_item_def float_free_simps good_value_def)

lemma float_free_body:
  assumes "\<forall>e \<in> set es. wf_event e" "args_float_free a cr" "cp_extra cp = []" "list_all float_free items"
  shows "float_free (JDict (report_body pem key cr a cp es items))"
  using assms float_free_gaps [OF assms(1)] float_free_control
  by (auto simp: report_body_def args_float_free_def float_free_simps dump_checkpoint_def list_all_iff
      report_period_def split: option.splits)

lemma sign_report_total: "float_free (JDict body) \<Longrightarrow> \<exists>report. sign_report key body = Inr report"
proof -
  assume "float_free (JDict body)"
  then have "float_free (JDict (filter (\<lambda>(k, v). k \<noteq> ''signature'') body))"
    by (auto simp: list_all_iff)
  from float_free_canonicalizable [OF this] obtain b where "signing_payload body = Inr b"
    using canonical_bytes_outcome [of Some "JDict (filter (\<lambda>(k, v). k \<noteq> ''signature'') body)"]
    unfolding signing_payload_def by (auto simp only: if_True)
  then show ?thesis by (simp add: sign_report_def)
qed

lemma evidence_in_log:
  assumes "log_of es hs" "evaluate cw es = Inr cr"
  shows "\<forall>r \<in> set (res_controls cr). set (cr_evidence_event_ids r) \<subseteq> event_id ` set es"
proof
  fix r assume "r \<in> set (res_controls cr)"
  obtain rs dropped h where rs: "map_result (evaluate_control es) (cw_controls cw) = Inr rs"
    "res_controls cr = (if filter is_gap_marker es = [] then rs
        else map (completeness_override (filter is_gap_marker es) dropped
          (map ctl_id (filter ctl_completeness_sensitive (cw_controls cw)))) rs)"
    using evaluate_parts [OF assms(2)] by blast
  obtain r0 where r0: "r0 \<in> set rs" "cr_evidence_event_ids r = cr_evidence_event_ids r0"
    using \<open>r \<in> set (res_controls cr)\<close> rs(2) override_status(3) by (auto split: if_splits)
  then obtain c where "evaluate_control es c = Inr r0"
    using map_result_Inr [OF rs(1)] by (auto simp: list_all2_conv_all_nth in_set_conv_nth)
  from evaluate_control_cases [OF assms(1) this] r0(2)
  show "set (cr_evidence_event_ids r) \<subseteq> event_id ` set es" by (fastforce simp: in_scope_def)
qed

lemma honest_report:
  assumes ed: "\<forall>d. ed (ks_public_key_raw key) (ks_sign key d) d = Valid"
    and led: "ledger_ok file_holds led0 old" "ledger_checkpoint key clk ts led0 = Inr cp"
      "ledger_run file_ops led0 new led"
    and args: "args_float_free a cr" "ra_checkpoint a = Some cp"
      "ra_authorize a = None"
  obtains led' ps report where "build_report file_ops pem key cr a led = (Inr report, led')"
    "sign_report key (report_body pem key cr a cp old
      (map (\<lambda>i. report_item (old ! i) i (map hex (ps i))) [0..<length old])) = Inr report"
    "\<forall>i < length old. good_item (old ! i) i (led_leaves led0 ! i) (ps i) (int (length old)) (tree_hash (led_leaves led0))"
proof -
  let ?n = "length old"
  note run = jsonl.run_ok [OF led(3) [unfolded file_ops_def] led(1)]
  have ok: "ledger_ok file_holds led (old @ new)" and pre: "take ?n (led_leaves led) = led_leaves led0"
    using run by simp_all
  have log: "log_of old (led_leaves led0)" using led(1) by (simp add: ledger_ok_def)
  then have len: "length (led_leaves led0) = ?n" by (simp add: log_of_def)
  obtain ps led' where items: "report_items file_ops (int ?n) [0..<?n] led
      = (Inr (map (\<lambda>i. ((old @ new) ! i, report_item ((old @ new) ! i) i (map hex (ps i)))) [0..<?n]), led')"
    "\<forall>i \<in> set [0..<?n]. verify_inclusion (int i) (int ?n) (led_leaves led ! i) (ps i) (tree_hash (led_leaves led0))"
    using jsonl.report_items_ok [OF ok, of ?n "[0..<?n]"] pre by (auto simp: file_ops_def)
  have same: "map (\<lambda>i. ((old @ new) ! i, report_item ((old @ new) ! i) i (map hex (ps i)))) [0..<?n]
      = map (\<lambda>i. (old ! i, report_item (old ! i) i (map hex (ps i)))) [0..<?n]"
    by (simp add: nth_append)
  have leaf: "led_leaves led ! i = led_leaves led0 ! i" if "i < ?n" for i
    unfolding pre [symmetric] using that by simp
  have good: "\<forall>i < ?n. good_item (old ! i) i (led_leaves led0 ! i) (ps i) (int ?n) (tree_hash (led_leaves led0))"
    using items(2) log leaf by (simp add: good_item_def log_of_def)
  have wf: "\<forall>e \<in> set old. wf_event e" using log by (auto simp: log_of_def committed_def in_set_conv_nth)
  let ?items = "map (\<lambda>i. report_item (old ! i) i (map hex (ps i))) [0..<?n]"
  have "list_all float_free ?items" using wf float_free_item by (simp add: list_all_iff)
  moreover have "cp_extra cp = []"
    using led(2) by (auto simp: ledger_checkpoint_def sign_checkpoint_def sbind_Inr_conv)
  ultimately obtain report where report: "sign_report key (report_body pem key cr a cp old ?items) = Inr report"
    using sign_report_total [OF float_free_body [OF wf args(1)]] by blast
  have size: "cp_tree_size cp = int ?n" by (rule honest_checkpoint(6) [where ed = ed and key = key, OF ed led(2,1)])
  have fst_snd: "map fst (map (\<lambda>i. (old ! i, report_item (old ! i) i (map hex (ps i)))) [0..<?n]) = old"
    "map snd (map (\<lambda>i. (old ! i, report_item (old ! i) i (map hex (ps i)))) [0..<?n]) = ?items"
    by (simp_all add: comp_def map_nth)
  have "build_report file_ops pem key cr a led = (Inr report, led')"
    unfolding build_report_def args(2,3) option.case sum.case size Let_def nat_int items(1) same prod.case sbind.simps
      fst_snd report by simp
  with report good show ?thesis using that by blast
qed

lemma honest_report_passes:
  assumes "\<forall>d. ed (ks_public_key_raw key) (ks_sign key d) d = Valid"
    and "unpem (pem (ks_public_key_raw key)) = Inr (ks_public_key_raw key)"
    and "pem (ks_public_key_raw key) \<noteq> []"
    and "ledger_ok file_holds led0 old" "ledger_checkpoint key clk ts led0 = Inr cp"
      "ledger_run file_ops led0 new led"
    and "evaluate cw old = Inr cr" "distinct (map ctl_id (cw_controls cw))"
    and "args_float_free a cr" "ra_checkpoint a = Some cp" "ra_authorize a = None"
    and "trusted = None \<or> trusted = Some (ks_public_key_raw key)"
  shows "\<exists>report led' res. build_report file_ops pem key cr a led = (Inr report, led')
    \<and> verify_report ed unpem builtins report trusted deep (Some cw) = Inr res
    \<and> vr_valid res \<and> take 6 (vr_checks res) = honest_checks
    \<and> checkpoint_head (or_empty (dget_or report ''checkpoint'' JNull))
        = Inr (tree_hash (led_leaves led0), int (length old))"
proof -
  obtain led' ps report where built: "build_report file_ops pem key cr a led = (Inr report, led')"
    and report: "sign_report key (report_body pem key cr a cp old
      (map (\<lambda>i. report_item (old ! i) i (map hex (ps i))) [0..<length old])) = Inr report"
    and good: "\<forall>i < length old. good_item (old ! i) i (led_leaves led0 ! i) (ps i) (int (length old)) (tree_hash (led_leaves led0))"
    by (rule honest_report [where ed = ed and key = key, OF assms(1,4,5,6,9,10,11)])
  have log: "log_of old (led_leaves led0)" using assms(4) by (simp add: ledger_ok_def)
  have "dget_or report ''public_key_pem'' JNull = JStr (pem (ks_public_key_raw key))"
    using honest_signature(3) [where ed = ed and key = key, OF assms(1) report body_keys(1)]
    by (simp add: body_keys)
  then obtain res0 where key: "establish_key unpem report trusted = Inr (ks_public_key_raw key, res0)"
    "vr_valid res0" "vr_checks res0 = []"
    using assms(2,3,12) by (auto simp: establish_key_def Let_def pem_key_def truthy_def add_warning_def start_verification_def)
  obtain res1 where body: "verify_body ed report (ks_public_key_raw key) res0 = Inr (True, res1)"
    "vr_checks res1 = honest_checks" "vr_valid res1"
    using honest_body [where ed = ed and key = key, OF assms(1,5,4) good evidence_in_log [OF log assms(7)] report]
      key(2,3) by (metis append_Nil)
  have "dget_or report ''checkpoint'' JNull = JDict (dump_checkpoint cp)"
    using honest_signature(3) [where ed = ed and key = key, OF assms(1) report body_keys(1)]
    by (simp add: body_keys)
  then have head: "checkpoint_head (or_empty (dget_or report ''checkpoint'' JNull))
      = Inr (tree_hash (led_leaves led0), int (length old))"
    using honest_checkpoint(2,3) [where ed = ed and key = key, OF assms(1,5,4)] by simp
  have six: "length honest_checks = 6" by (simp add: honest_checks_def)
  show ?thesis
  proof (cases deep)
    case True
    obtain res2 cs where deep: "deep_verify builtins report (Some cw) res1 = Inr res2" "vr_valid res2"
      "vr_checks res2 = honest_checks @ cs"
      using honest_deep [where ed = ed and key = key, OF assms(1,5,4,7,8) report] body(2,3) by metis
    have "verify_report ed unpem builtins report trusted deep (Some cw) = Inr res2"
      by (simp add: verify_report_def key(1) body(1) True deep(1))
    with built deep(2,3) six head show ?thesis by (metis append_eq_conv_conj)
  next
    case False
    have "verify_report ed unpem builtins report trusted deep (Some cw) = Inr res1"
      by (simp add: verify_report_def key(1) body(1) False)
    with built body(2,3) six head show ?thesis by (metis order_refl take_all)
  qed
qed

definition plain_args :: "checkpoint \<Rightarrow> report_args" where
  "plain_args cp = \<lparr>ra_scope_description = ''s'', ra_agent_ids = None, ra_period = None,
     ra_checkpoint = Some cp, ra_report_id = None, ra_generated_at = None, ra_authorize = None,
     ra_uuid = ''u'', ra_clock = ''t'', ra_now = ''t''\<rparr>"

text \<open>The report of an empty ledger, for the instances below.\<close>

lemma sample_parts:
  obtains cp cr where "ledger_checkpoint echo_key ''t'' None (fresh (open_file_backend [])) = Inr cp"
    "evaluate sample_crosswalk [] = Inr cr" "args_float_free (plain_args cp) cr"
proof -
  obtain cp where cp: "ledger_checkpoint echo_key ''t'' None (fresh (open_file_backend [])) = Inr cp"
    using sign_checkpoint_total unfolding ledger_checkpoint_def by blast
  obtain cr where cr: "evaluate sample_crosswalk [] = Inr cr"
    "list_all (\<lambda>c. cit_extra (cr_citation c) = []) (res_controls cr)"
    using sample_hash
    by (auto simp: evaluate_def sample_crosswalk_def sample_control_def evaluate_control_def Let_def)
  have "args_float_free (plain_args cp) cr"
    using cr(2) by (simp add: args_float_free_def plain_args_def list_all_iff)
  with cp cr(1) show ?thesis using that by blast
qed

lemma sample_report:
  obtains report res where "verify_report echo_check (\<lambda>s. Inr [1, 2, 3]) (\<lambda>s. None) report (Some [1, 2, 3]) True
      (Some sample_crosswalk) = Inr res" "vr_valid res"
    "checkpoint_head (or_empty (dget_or report ''checkpoint'' JNull)) = Inr (tree_hash [], int (length ([] :: bytes list)))"
proof -
  obtain cp cr where parts: "ledger_checkpoint echo_key ''t'' None (fresh (open_file_backend [])) = Inr cp"
    "evaluate sample_crosswalk [] = Inr cr" "args_float_free (plain_args cp) cr" by (rule sample_parts)
  from honest_report_passes [where ed = echo_check and key = echo_key and pem = "\<lambda>k. ''P''"
      and unpem = "\<lambda>s. Inr [1, 2, 3]" and trusted = "Some [1, 2, 3]" and deep = True and builtins = "\<lambda>s. None",
      OF _ _ _ fresh_file parts(1) run_start parts(2) _ parts(3)] that
  show ?thesis
    by (auto simp: echo_check_def echo_key_def plain_args_def sample_crosswalk_def fresh_def)
qed

text \<open> C2. Honest reports verify: for a checkpoint of a file ledger, a report built at any later time
  over the events of that checkpoint is produced, and the verifier accepts it with all six checks
  true, with the embedded key or a trusted one, and also when it re-derives every verdict from the
  events under the pinned crosswalk.\<close>

theorem honest_report_verifies:
  assumes "\<forall>d. ed (ks_public_key_raw key) (ks_sign key d) d = Valid"
    and "unpem (pem (ks_public_key_raw key)) = Inr (ks_public_key_raw key)"
    and "pem (ks_public_key_raw key) \<noteq> []"
    and "ledger_ok file_holds led0 old" "ledger_checkpoint key clk ts led0 = Inr cp"
      "ledger_run file_ops led0 new led"
    and "evaluate cw old = Inr cr" "distinct (map ctl_id (cw_controls cw))"
    and "args_float_free a cr" "ra_checkpoint a = Some cp" "ra_authorize a = None"
    and "trusted = None \<or> trusted = Some (ks_public_key_raw key)"
  shows "\<exists>report led' res. build_report file_ops pem key cr a led = (Inr report, led')
    \<and> verify_report ed unpem builtins report trusted deep (Some cw) = Inr res
    \<and> vr_valid res \<and> take 6 (vr_checks res) = honest_checks
    \<and> checkpoint_head (or_empty (dget_or report ''checkpoint'' JNull))
        = Inr (tree_hash (led_leaves led0), int (length old))"
  using assms by (rule honest_report_passes)

theorem honest_report_verifies_witness:
  "\<exists>cr cp report led' res. build_report file_ops (\<lambda>k. ''P'') echo_key cr (plain_args cp)
      (fresh (open_file_backend [])) = (Inr report, led')
    \<and> verify_report echo_check (\<lambda>s. Inr [1, 2, 3]) (\<lambda>s. None) report None True (Some sample_crosswalk) = Inr res
    \<and> vr_valid res"
proof -
  obtain cp cr where parts: "ledger_checkpoint echo_key ''t'' None (fresh (open_file_backend [])) = Inr cp"
    "evaluate sample_crosswalk [] = Inr cr" "args_float_free (plain_args cp) cr" by (rule sample_parts)
  from honest_report_verifies [where ed = echo_check and key = echo_key and pem = "\<lambda>k. ''P''"
      and unpem = "\<lambda>s. Inr [1, 2, 3]" and trusted = None and deep = True and builtins = "\<lambda>s. None",
      OF _ _ _ fresh_file parts(1) run_start parts(2) _ parts(3)]
  show ?thesis
    by (auto simp: echo_check_def echo_key_def plain_args_def sample_crosswalk_def)
qed

section \<open>An accepted report says the truth\<close>

text \<open> C1. Acceptance is sound: if the verifier accepts a report under a trusted key, then that key
  signed the report and the tree head in it, and, whenever that head is the head of a log of leaf
  hashes, each event of the report with leaf index \<open>i\<close> hashes to the log's leaf at \<open>i\<close>, unless the
  strings hashed for the tree and the proof contain a SHA-256 collision.\<close>

theorem accepted_report_sound:
  assumes "verify_report ed unpem builtins report (Some pub) deep cw = Inr res" "vr_valid res"
    and "checkpoint_head (or_empty (dget_or report ''checkpoint'' JNull)) = Inr (tree_hash leaves, int (length leaves))"
    and "digests leaves"
  shows "signed_report ed pub report \<and> signed_head ed pub report (tree_hash leaves) (int (length leaves))
    \<and> (\<exists>items. report_items_of report = Inr items \<and> (\<forall>item \<in> set items. \<exists>ev idx leaf proof.
         call_get item ''event'' JNull = Inr ev \<and> leaf_from_event (or_empty ev) = Inr leaf
         \<and> call_get item ''leaf_index'' JNull = Inr idx
         \<and> (\<forall>i. idx = JInt i \<longrightarrow> (0 \<le> i \<and> i < int (length leaves) \<and> leaf = leaves ! nat i)
              \<or> collision (set (inclusion_transcript leaves (nat i) leaf proof)))))"
proof -
  obtain rt n items where acc: "signed_report ed pub report" "signed_head ed pub report rt n"
    "report_items_of report = Inr items" "list_all (item_checked n rt) items"
    using accepted_report [OF assms(1,2)] by auto
  have head: "rt = tree_hash leaves" "n = int (length leaves)"
    using acc(2) assms(3) by (auto simp: signed_head_def)
  have "\<exists>ev idx leaf proof. call_get item ''event'' JNull = Inr ev \<and> leaf_from_event (or_empty ev) = Inr leaf
         \<and> call_get item ''leaf_index'' JNull = Inr idx
         \<and> (\<forall>i. idx = JInt i \<longrightarrow> (0 \<le> i \<and> i < int (length leaves) \<and> leaf = leaves ! nat i)
              \<or> collision (set (inclusion_transcript leaves (nat i) leaf proof)))" if item: "item \<in> set items" for item
  proof -
    obtain ev idx leaf pth where c: "call_get item ''event'' JNull = Inr ev"
      "call_get item ''leaf_index'' JNull = Inr idx" "leaf_from_event (or_empty ev) = Inr leaf"
      "verify_inclusion_value idx n leaf pth rt = Inr True"
      using acc(4) item by (auto simp: list_all_iff item_checked_def)
    have "length leaf = 32"
      using c(3) by (auto simp: leaf_from_event_def sbind_Inr_conv split: pyv.splits)
    then have "(0 \<le> i \<and> i < int (length leaves) \<and> leaf = leaves ! nat i)
        \<or> collision (set (inclusion_transcript leaves (nat i) leaf pth))" if "idx = JInt i" for i
      using inclusion_sound_nat [OF assms(4), of leaf i pth] c(4) that head
      by (auto simp: verify_inclusion_value_def)
    with c(1-3) show ?thesis by blast
  qed
  with acc(1-3) head show ?thesis by blast
qed

theorem accepted_report_sound_witness:
  "\<exists>report. signed_report echo_check [1, 2, 3] report \<and> signed_head echo_check [1, 2, 3] report (tree_hash []) 0"
proof -
  obtain report res where r: "verify_report echo_check (\<lambda>s. Inr [1, 2, 3]) (\<lambda>s. None) report (Some [1, 2, 3]) True
      (Some sample_crosswalk) = Inr res" "vr_valid res"
    "checkpoint_head (or_empty (dget_or report ''checkpoint'' JNull)) = Inr (tree_hash [], int (length ([] :: bytes list)))"
    by (rule sample_report)
  from accepted_report_sound [OF r] show ?thesis by auto
qed

text \<open> C3. Deep verification re-derives the verdicts: an accepted deep verification means the report
  pins the content hash of the crosswalk in hand, its events load, and every reported control
  carries exactly the status that evaluating that crosswalk on those events yields.\<close>

theorem deep_verdicts_follow:
  assumes "verify_report ed unpem builtins report trusted True (Some cw) = Inr res" "vr_valid res"
  shows "\<exists>h es out cs. crosswalk_content_hash cw = Inr h
    \<and> call_get (or_empty (dget_or report ''crosswalk'' JNull)) ''content_hash'' JNull = Inr (JStr h)
    \<and> sbind (iterate (dget_or report ''events'' (JList []))) load_events = Inr es
    \<and> evaluate cw es = Inr out \<and> iterate (dget_or report ''controls'' (JList [])) = Inr cs
    \<and> (\<forall>c \<in> set cs. \<exists>i st. call_get c ''control_id'' JNull = Inr (JStr i)
         \<and> map_of (rev (map (\<lambda>r. (cr_control_id r, cr_status r)) (res_controls out))) i = Some st
         \<and> call_get c ''status'' JNull = Inr (JStr (control_status_value st)))"
proof -
  obtain pub res0 where key: "establish_key unpem report trusted = Inr (pub, res0)"
    using assms by (auto simp: verify_report_def establish_key_def Let_def split: sum.splits option.splits if_splits)
  obtain finished res1 where body: "verify_body ed report pub res0 = Inr (finished, res1)"
    "(if finished then deep_verify builtins report (Some cw) res1 else Inr res1) = Inr res"
    using assms(1) key by (auto simp: verify_report_def sbind_Inr_conv)
  have finished
  proof (rule ccontr)
    assume "\<not> finished"
    with body assms(2) verify_body_valid [OF body(1)] show False by simp
  qed
  with body(2) have "deep_verify builtins report (Some cw) res1 = Inr res" by simp
  from deep_verify_valid [OF this assms(2)] obtain h items es out cs where deep:
    "crosswalk_content_hash cw = Inr h"
    "call_get (or_empty (dget_or report ''crosswalk'' JNull)) ''content_hash'' JNull = Inr (JStr h)"
    "iterate (dget_or report ''events'' (JList [])) = Inr items" "load_events items = Inr es"
    "evaluate cw es = Inr out" "iterate (dget_or report ''controls'' (JList [])) = Inr cs"
    "verdict_mismatches (map (\<lambda>r. (cr_control_id r, cr_status r)) (res_controls out)) cs = Inr []"
    by (auto simp: deep_crosswalk_def)
  have "\<forall>c \<in> set cs. \<exists>i st. call_get c ''control_id'' JNull = Inr (JStr i) \<and> map_of (rev sts) i = Some st
      \<and> call_get c ''status'' JNull = Inr (JStr (control_status_value st))"
    if "verdict_mismatches sts cs = Inr []" for sts
    using that
    by (induction cs) (auto simp: sbind_Inr_conv split: if_splits option.splits pyv.splits)
  from this [OF deep(7)] deep(1-6) show ?thesis by auto
qed

theorem deep_verdicts_follow_witness:
  "\<exists>report h. crosswalk_content_hash sample_crosswalk = Inr h
    \<and> call_get (or_empty (dget_or report ''crosswalk'' JNull)) ''content_hash'' JNull = Inr (JStr h)"
proof -
  obtain report res where r: "verify_report echo_check (\<lambda>s. Inr [1, 2, 3]) (\<lambda>s. None) report (Some [1, 2, 3]) True
      (Some sample_crosswalk) = Inr res" "vr_valid res"
    by (rule sample_report)
  from deep_verdicts_follow [OF r] show ?thesis by blast
qed

text \<open> The verifier is not total on untrusted reports: an inclusion proof entry that is not hex
  makes \<open>verify_report\<close> raise ValueError for every key and mode, although the module promises a result.\<close>

theorem malformed_proof_raises:
  "verify_report ed unpem builtins
     [(''checkpoint'', JDict [(''root_hash'', JStr []), (''tree_size'', JInt 1)]),
      (''events'', JList [JDict [(''inclusion_proof'', JList [JStr ''zz''])]])]
     (Some pub) deep cw = Inl ValueError"
proof -
  have "fromhex ''zz'' = Inl ValueError" "fromhex [] = Inr []" by code_simp+
  moreover have "\<exists>leaf. leaf_from_event (JDict []) = Inr leaf"
    using canonical_bytes_outcome [of Some "JDict []"] by (auto simp: leaf_from_event_def without_def)
  ultimately show ?thesis
    by (auto simp: verify_report_def establish_key_def verify_body_def check_report_signature_def
        check_checkpoint_signature_def dget_or_def call_get_def or_empty_def truthy_def sliceable_def
        key_id_mismatch_def checkpoint_head_def item_at_def fromhex_value_def py_int_def iterate_def
        scan_event_def hashable_def stored_leaf_def Let_def)
qed

end
