(* ===== verification/Py_Json_Layout.thy ===== *)
theory Py_Json_Layout imports Py_Json_Roundtrip begin

text \<open>
  \<open>json.dumps\<close> with its other layouts: the default separators, an indent, and \<open>ensure_ascii\<close>,
  which escapes every character outside printable ASCII.  \<open>loads\<close> reads each of them back.
\<close>

section \<open>Escaping to ASCII\<close>

text \<open>The first code point of a UTF-8 text and its number of bytes.\<close>

definition code_point :: "string \<Rightarrow> nat \<times> nat" where
  "code_point s =
     (let b = (\<lambda>i. if i < length s then of_char (s ! i) else 0x80 :: nat); c = b 0 in
      if c < 0xC0 then (c, 1)
      else if c < 0xE0 then ((c - 0xC0) * 64 + (b 1 - 0x80), 2)
      else if c < 0xF0 then (((c - 0xE0) * 64 + (b 1 - 0x80)) * 64 + (b 2 - 0x80), 3)
      else ((((c - 0xF0) * 64 + (b 1 - 0x80)) * 64 + (b 2 - 0x80)) * 64 + (b 3 - 0x80), 4))"

definition unicode_escape :: "nat \<Rightarrow> string" where
  "unicode_escape n = [CHR 0x5C, CHR ''u'', hex_char (n div 4096 mod 16), hex_char (n div 256 mod 16),
     hex_char (n div 16 mod 16), hex_char (n mod 16)]"

definition escape_point :: "nat \<Rightarrow> string" where
  "escape_point n =
     (if n < 127 then esc_char (char_of n)
      else if n < 0x10000 then unicode_escape n
      else unicode_escape (0xD800 + (n - 0x10000) div 0x400)
        @ unicode_escape (0xDC00 + (n - 0x10000) mod 0x400))"

fun escape_points :: "nat \<Rightarrow> string \<Rightarrow> string" where
  "escape_points skip [] = []"
| "escape_points (Suc k) (c # s) = escape_points k s"
| "escape_points 0 (c # s) =
     (let (n, k) = code_point (c # s) in escape_point n @ escape_points (k - 1) s)"

text \<open>The code points of a text, and the texts that are the UTF-8 encoding of their code points.\<close>

fun points :: "nat \<Rightarrow> string \<Rightarrow> nat list" where
  "points skip [] = []"
| "points (Suc k) (c # s) = points k s"
| "points 0 (c # s) = (let (n, k) = code_point (c # s) in n # points (k - 1) s)"

definition scalar :: "nat \<Rightarrow> bool" where
  "scalar n \<longleftrightarrow> n < 0xD800 \<or> (0xE000 \<le> n \<and> n < 0x110000)"

definition utf8_text :: "string \<Rightarrow> bool" where
  "utf8_text s \<longleftrightarrow> list_all scalar (points 0 s) \<and> concat (map utf8 (points 0 s)) = s"

lemma escape_points_eq: "escape_points k s = concat (map escape_point (points k s))"
  by (induction k s rule: escape_points.induct) (simp_all split: prod.split)

lemma of_char_byte: "n < 256 \<Longrightarrow> (of_char (char_of n) :: nat) = n"
  by simp

lemma code_point_utf8:
  assumes "scalar n"
  shows "code_point (utf8 n @ s) = (n, length (utf8 n))"
proof -
  have bound: "n < 0x110000" using assms by (auto simp: scalar_def)
  consider "n < 0x80" | "0x80 \<le> n" "n < 0x800" | "0x800 \<le> n" "n < 0x10000" | "0x10000 \<le> n" by linarith
  then show ?thesis
  proof cases
    case 1
    then have "(of_char (char_of n) :: nat) = n" by (intro of_char_byte) simp
    with 1 show ?thesis by (simp add: utf8_def code_point_def Let_def)
  next
    case 2
    let ?a = "0xC0 + n div 64" and ?b = "0x80 + n mod 64"
    have v: "(of_char (char_of ?a) :: nat) = ?a" "(of_char (char_of ?b) :: nat) = ?b"
      using 2 by (intro of_char_byte; linarith)+
    have "?a < 0xE0" "(?a - 0xC0) * 64 + (?b - 0x80) = n" using 2 div_mult_mod_eq [of n 64] by simp_all
    with 2 show ?thesis unfolding utf8_def code_point_def Let_def by (simp add: v)
  next
    case 3
    let ?a = "0xE0 + n div 4096" and ?b = "0x80 + n div 64 mod 64" and ?c = "0x80 + n mod 64"
    have v: "(of_char (char_of ?a) :: nat) = ?a" "(of_char (char_of ?b) :: nat) = ?b"
        "(of_char (char_of ?c) :: nat) = ?c"
      using 3 by (intro of_char_byte; linarith)+
    have "n div 4096 = n div 64 div 64" by (simp add: div_mult2_eq [symmetric])
    then have "((?a - 0xE0) * 64 + (?b - 0x80)) * 64 + (?c - 0x80) = n"
      by (simp only: add_diff_cancel_left' div_mult_mod_eq)
    moreover have "?a < 0xF0" using 3 by linarith
    ultimately
    show ?thesis using 3 unfolding utf8_def code_point_def Let_def by (simp add: v)
  next
    case 4
    define a b c d where "a = 0xF0 + n div 262144" and "b = 0x80 + n div 4096 mod 64"
      and "c = 0x80 + n div 64 mod 64" and "d = 0x80 + n mod 64"
    note defs = this
    have v: "a < 256" "b < 256" "c < 256" "d < 256" unfolding defs using bound by linarith+
    have "n div 4096 = n div 64 div 64" "n div 262144 = n div 4096 div 64" by (simp_all add: div_mult2_eq [symmetric])
    then have "(((a - 0xF0) * 64 + (b - 0x80)) * 64 + (c - 0x80)) * 64 + (d - 0x80) = n"
      unfolding defs by (simp only: add_diff_cancel_left' div_mult_mod_eq)
    moreover have "utf8 n = [char_of a, char_of b, char_of c, char_of d]"
      using 4 by (simp add: utf8_def defs)
    moreover have "0xF0 \<le> a" by (simp add: defs)
    ultimately show ?thesis unfolding code_point_def Let_def by (simp add: v)
  qed
qed

lemma utf8_not_Nil [simp]: "utf8 n \<noteq> []"
  by (simp add: utf8_def)

lemma points_skip: "points (length u) (u @ s) = points 0 s"
  by (induction u) simp_all

lemma points_utf8:
  assumes "scalar n"
  shows "points 0 (utf8 n @ s) = n # points 0 s"
proof -
  obtain c u where u: "utf8 n = c # u" by (cases "utf8 n") auto
  with code_point_utf8 [OF assms, of s] points_skip [of u s] show ?thesis by simp
qed

lemma points_concat: "list_all scalar ns \<Longrightarrow> points 0 (concat (map utf8 ns)) = ns"
  by (induction ns) (simp_all add: points_utf8)

lemma utf8_textE:
  assumes "utf8_text s"
  obtains ns where "list_all scalar ns" "s = concat (map utf8 ns)" "points 0 s = ns"
  using assms unfolding utf8_text_def by metis

lemma utf8_textI: "list_all scalar ns \<Longrightarrow> utf8_text (concat (map utf8 ns))"
  by (simp add: utf8_text_def points_concat)

lemma utf8_text_Nil [simp]: "utf8_text []"
  by (simp add: utf8_text_def)

lemma utf8_text_append [intro, simp]: "utf8_text s \<Longrightarrow> utf8_text t \<Longrightarrow> utf8_text (s @ t)"
proof (elim utf8_textE)
  fix ms ns assume "list_all scalar ms" "s = concat (map utf8 ms)" "list_all scalar ns" "t = concat (map utf8 ns)"
  then show ?thesis using utf8_textI [of "ms @ ns"] by simp
qed

lemma utf8_text_Cons [simp]:
  assumes "of_char c < (128 :: nat)"
  shows "utf8_text (c # s) \<longleftrightarrow> utf8_text s"
proof -
  have u: "utf8 (of_char c) = [c]" "scalar (of_char c)"
    using assms by (simp_all add: utf8_def scalar_def)
  with points_utf8 [OF u(2), of s] show ?thesis by (simp add: utf8_text_def)
qed

definition ascii :: "string \<Rightarrow> bool" where
  "ascii s \<longleftrightarrow> list_all (\<lambda>c. of_char c < (128::nat)) s"

lemma ascii_text: "ascii s \<Longrightarrow> utf8_text s"
  by (induction s) (simp_all add: ascii_def)

subsection \<open>Reading an escaped code point\<close>

lemma hex4_digits:
  assumes "n < 0x10000"
  shows "hex4 (hex_char (n div 4096 mod 16) # hex_char (n div 256 mod 16) # hex_char (n div 16 mod 16)
    # hex_char (n mod 16) # s) = Some (n, s)"
proof -
  have top: "n div 4096 mod 16 = n div 4096" using assms by simp
  have "((n div 4096 mod 16 * 16 + n div 256 mod 16) * 16 + n div 16 mod 16) * 16 + n mod 16 = n"
  proof -
    have "n div 256 = n div 16 div 16" "n div 4096 = n div 256 div 16" by (simp_all add: div_mult2_eq [symmetric])
    then have "n div 4096 * 16 + n div 256 mod 16 = n div 256" "n div 256 * 16 + n div 16 mod 16 = n div 16"
      by (simp_all only: div_mult_mod_eq)
    with top show ?thesis by (simp only: div_mult_mod_eq)
  qed
  then show ?thesis by (simp only: hex4_def list.case hex_char_facts mod_less_divisor zero_less_numeral option.case prod.case)
qed

lemma scan_str_unicode:
  assumes "uescape (v @ s) = Some (t, s)"
  shows "scan_str (Suc n) (CHR 0x5C # CHR ''u'' # v @ s) = map_option (\<lambda>(v, r). (t @ v, r)) (scan_str n s)"
  using assms by (simp add: quote_char_def backslash_def)

lemma scan_str_point:
  assumes "scalar n"
  shows "scan_str (Suc m) (escape_point n @ s) = map_option (\<lambda>(v, r). (utf8 n @ v, r)) (scan_str m s)"
proof -
  consider "n < 127" | "127 \<le> n" "n < 0x10000" | "0x10000 \<le> n" by linarith
  then show ?thesis
  proof cases
    case 1
    then have "utf8 n = [char_of n]" "escape_point n = esc_char (char_of n)"
      by (simp_all add: utf8_def escape_point_def)
    then show ?thesis by (simp add: scan_str_esc del: scan_str.simps)
  next
    case 2
    let ?v = "[hex_char (n div 4096 mod 16), hex_char (n div 256 mod 16), hex_char (n div 16 mod 16), hex_char (n mod 16)]"
    have "hex4 (?v @ s) = Some (n, s)" using hex4_digits [OF 2(2), of s] by simp
    then have "uescape (?v @ s) = Some (utf8 n, s)"
      using assms 2(2) unfolding uescape_def scalar_def by auto
    from scan_str_unicode [OF this] 2 show ?thesis
      by (simp add: escape_point_def unicode_escape_def del: scan_str.simps)
  next
    case 3
    define x where "x = n - 0x10000"
    have x: "n = 0x10000 + x" "x < 0x100000" using 3 assms by (auto simp: x_def scalar_def)
    have hi: "0xD800 + x div 0x400 < 0x10000" "0xD800 + x div 0x400 < 0xDC00" using x(2) by linarith+
    have lo: "0xDC00 + x mod 0x400 < 0x10000" "0xDC00 + x mod 0x400 < 0xE000" by linarith+
    have "0x10000 + x div 0x400 * 0x400 + x mod 0x400 = n" using x(1) by presburger
    moreover define h l where "h = 0xD800 + x div 0x400" and "l = 0xDC00 + x mod 0x400"
    ultimately have hl: "h < 0x10000" "l < 0x10000" "0xD800 \<le> h" "h < 0xDC00" "0xDC00 \<le> l" "l < 0xE000"
      "0x10000 + (h - 0xD800) * 0x400 + (l - 0xDC00) = n"
      using hi lo by simp_all
    define w where "w = drop 2 (unicode_escape l)"
    have w: "unicode_escape l = backslash # CHR ''u'' # w" "hex4 (w @ s) = Some (l, s)"
      using hex4_digits [OF hl(2), of s] by (simp_all add: w_def unicode_escape_def backslash_def)
    let ?v = "hex_char (h div 4096 mod 16) # hex_char (h div 256 mod 16) # hex_char (h div 16 mod 16) # hex_char (h mod 16)
      # unicode_escape l"
    have "hex4 (?v @ s) = Some (h, backslash # CHR ''u'' # w @ s)" using hex4_digits [OF hl(1)] by (simp add: w(1))
    then have "uescape (?v @ s) = Some (utf8 n, s)"
      using hl(3-7) w(2) unfolding uescape_def by (simp only:) simp
    from scan_str_unicode [OF this] have "scan_str (Suc m) (unicode_escape h @ unicode_escape l @ s)
        = map_option (\<lambda>(v, r). (utf8 n @ v, r)) (scan_str m s)"
      by (simp add: unicode_escape_def del: scan_str.simps)
    moreover have "escape_point n = unicode_escape h @ unicode_escape l"
      using 3 by (simp add: escape_point_def x_def h_def l_def)
    ultimately show ?thesis by (simp del: scan_str.simps)
  qed
qed

lemma escape_point_not_Nil [simp]: "escape_point n \<noteq> []"
  by (simp add: escape_point_def unicode_escape_def)

lemma scan_str_points:
  "list_all scalar ns \<Longrightarrow> length ns < m \<Longrightarrow>
    scan_str m (concat (map escape_point ns) @ quote_char # r) = Some (concat (map utf8 ns), r)"
proof (induction ns arbitrary: m)
  case Nil
  then show ?case by (cases m) simp_all
next
  case (Cons n ns)
  then obtain k where "m = Suc k" "length ns < k" by (cases m) auto
  then show ?case using Cons scan_str_point [of n k] by (simp del: scan_str.simps)
qed

lemma length_escape_points: "length ns \<le> length (concat (map escape_point ns))"
proof (induction ns)
  case (Cons n ns)
  have "0 < length (escape_point n)" by simp
  with Cons show ?case unfolding list.map concat.simps length_append list.size by linarith
qed simp

section \<open>Layouts\<close>

record layout =
  lay_ascii :: bool
  lay_break :: "nat \<Rightarrow> string"
  lay_sep :: "nat \<Rightarrow> string"
  lay_colon :: string

definition default_layout :: layout where
  "default_layout = \<lparr>lay_ascii = True, lay_break = (\<lambda>n. []), lay_sep = (\<lambda>n. '' ''), lay_colon = '' ''\<rparr>"

definition compact_ascii :: layout where
  "compact_ascii = \<lparr>lay_ascii = True, lay_break = (\<lambda>n. []), lay_sep = (\<lambda>n. []), lay_colon = []\<rparr>"

definition line_break :: "nat \<Rightarrow> nat \<Rightarrow> string" where
  "line_break width n = CHR 0x0A # replicate (width * n) (CHR '' '')"

definition indented :: "nat \<Rightarrow> layout" where
  "indented width = \<lparr>lay_ascii = True, lay_break = line_break width, lay_sep = line_break width,
     lay_colon = '' ''\<rparr>"

definition print_str :: "layout \<Rightarrow> string \<Rightarrow> string" where
  "print_str L s =
     (if lay_ascii L then quote_char # escape_points 0 s @ [quote_char] else dump_str s)"

fun dumps_in :: "layout \<Rightarrow> nat \<Rightarrow> json \<Rightarrow> string"
  and dump_items_in :: "layout \<Rightarrow> nat \<Rightarrow> json list \<Rightarrow> string"
  and dump_members_in :: "layout \<Rightarrow> nat \<Rightarrow> dict \<Rightarrow> string"
where
  "dumps_in L n JNull = ''null''"
| "dumps_in L n (JBool b) = (if b then ''true'' else ''false'')"
| "dumps_in L n (JInt i) = str_of_int i"
| "dumps_in L n (JFloat r) = float_token r"
| "dumps_in L n (JStr s) = print_str L s"
| "dumps_in L n (JList []) = ''[]''"
| "dumps_in L n (JList (x # xs)) =
     ''['' @ lay_break L (Suc n) @ dumps_in L (Suc n) x @ dump_items_in L n xs"
| "dumps_in L n (JDict []) = ''{}''"
| "dumps_in L n (JDict ((k, v) # kvs)) =
     ''{'' @ lay_break L (Suc n) @ print_str L k @ '':'' @ lay_colon L @ dumps_in L (Suc n) v
     @ dump_members_in L n kvs"
| "dump_items_in L n [] = lay_break L n @ '']''"
| "dump_items_in L n (x # xs) =
     '','' @ lay_sep L (Suc n) @ dumps_in L (Suc n) x @ dump_items_in L n xs"
| "dump_members_in L n [] = lay_break L n @ ''}''"
| "dump_members_in L n ((k, v) # kvs) =
     '','' @ lay_sep L (Suc n) @ print_str L k @ '':'' @ lay_colon L @ dumps_in L (Suc n) v
     @ dump_members_in L n kvs"

section \<open>Reading a layout back\<close>

definition white :: "string \<Rightarrow> bool" where
  "white s \<longleftrightarrow> list_all (\<lambda>c. of_char c \<in> {9, 10, 13, 32 :: nat}) s"

definition sane :: "layout \<Rightarrow> bool" where
  "sane L \<longleftrightarrow> (\<forall>n. white (lay_break L n) \<and> (lay_break L n = [] \<or> hd (lay_break L n) = CHR 0x0A))
     \<and> (\<forall>n. white (lay_sep L n)) \<and> white (lay_colon L)"

lemma sane_layouts [simp]: "sane default_layout" "sane compact_ascii" "sane (indented w)"
  by (auto simp: sane_def default_layout_def compact_ascii_def indented_def white_def line_break_def
      list_all_iff)

fun text_json :: "json \<Rightarrow> bool" where
  "text_json (JStr s) \<longleftrightarrow> utf8_text s"
| "text_json (JList xs) \<longleftrightarrow> (\<forall>x \<in> set xs. text_json x)"
| "text_json (JDict kvs) \<longleftrightarrow> (\<forall>kv \<in> set kvs. utf8_text (fst kv) \<and> text_json (snd kv))"
| "text_json _ \<longleftrightarrow> True"

definition fits :: "layout \<Rightarrow> json \<Rightarrow> bool" where
  "fits L j \<longleftrightarrow> plain j \<and> (lay_ascii L \<longrightarrow> text_json j)"

lemma skip_ws_white [simp]: "white s \<Longrightarrow> skip_ws (s @ t) = skip_ws t"
  unfolding skip_ws_def white_def by (rule dropWhile_append2) (auto simp: list_all_iff)

lemma print_str_shape:
  assumes "lay_ascii L \<Longrightarrow> utf8_text s"
  obtains body where "print_str L s = quote_char # body @ [quote_char]"
    "\<And>r. scan_str (length (body @ quote_char # r)) (body @ quote_char # r) = Some (s, r)"
proof (cases "lay_ascii L")
  case True
  with assms obtain ns where ns: "list_all scalar ns" "s = concat (map utf8 ns)" "points 0 s = ns"
    using utf8_textE by blast
  with True that [of "concat (map escape_point ns)"] length_escape_points [of ns] scan_str_points [OF ns(1)]
  show ?thesis by (simp add: print_str_def escape_points_eq del: scan_str.simps)
next
  case False
  with that [of "concat (map esc_char s)"] scan_str_dump_str(2) [of s] show ?thesis
    by (simp add: print_str_def dump_str_def del: scan_str.simps)
qed

lemma print_str_scan:
  assumes "lay_ascii L \<Longrightarrow> utf8_text s"
  obtains body where "expect quote_char (print_str L s @ r) = Some body"
    "scan_str (length body) body = Some (s, r)"
    "skip_ws (print_str L s @ r) = print_str L s @ r" "expect (CHR ''}'') (print_str L s @ r) = None"
    "print_str L s \<noteq> []"
proof -
  obtain body where "print_str L s = quote_char # body @ [quote_char]"
    "scan_str (length (body @ quote_char # r)) (body @ quote_char # r) = Some (s, r)"
    using print_str_shape [OF assms] by metis
  with that [of "body @ quote_char # r"] show ?thesis by (simp add: skip_ws_Cons quote_char_def)
qed

lemma dumps_in_head:
  assumes "plain j"
  shows "\<exists>c t. dumps_in L n j = c # t \<and> starts_value c"
proof (cases j)
  case (JInt i)
  with str_of_int_head [of i] show ?thesis by auto
next
  case (JList xs)
  then show ?thesis by (cases xs) (simp_all add: starts_value_def)
next
  case (JDict kvs)
  then show ?thesis by (cases kvs) (auto simp: starts_value_def)
qed (use assms in \<open>simp_all add: print_str_def dump_str_def starts_value_def\<close>)

lemma dumps_in_not_ws:
  assumes "plain j"
  shows "skip_ws (dumps_in L n j @ r) = dumps_in L n j @ r"
    "expect (CHR '']'') (dumps_in L n j @ r) = None" "0 < length (dumps_in L n j)"
proof -
  obtain c t where "dumps_in L n j = c # t" "starts_value c" using dumps_in_head [OF assms] by blast
  with starts_value_not [of c] show "skip_ws (dumps_in L n j @ r) = dumps_in L n j @ r"
    "expect (CHR '']'') (dumps_in L n j @ r) = None" "0 < length (dumps_in L n j)"
    by (simp_all add: skip_ws_Cons)
qed

lemma stops_dump_in:
  assumes "sane L"
  shows "stops (dump_items_in L n xs @ r)" "stops (dump_members_in L n kvs @ r)"
    "0 < length (dump_items_in L n xs)" "0 < length (dump_members_in L n kvs)"
proof -
  have "lay_break L n = [] \<or> (\<exists>t. lay_break L n = CHR 0x0A # t)"
    using assms unfolding sane_def by (metis list.collapse)
  note br = this
  show "stops (dump_items_in L n xs @ r)" "0 < length (dump_items_in L n xs)"
    using br by (cases xs; auto)+
  have "stops (dump_members_in L n kvs @ r) \<and> 0 < length (dump_members_in L n kvs)"
  proof (cases kvs)
    case Nil
    with br show ?thesis by auto
  next
    case (Cons kv rest)
    then show ?thesis by (cases kv) simp
  qed
  then show "stops (dump_members_in L n kvs @ r)" "0 < length (dump_members_in L n kvs)" by simp_all
qed

lemma scan_members_print:
  assumes "lay_ascii L \<Longrightarrow> utf8_text k" "white (lay_colon L)"
    and "scan_value n (skip_ws s) = Some (v, r)"
  shows "scan_members (Suc n) (print_str L k @ CHR '':'' # lay_colon L @ s) =
      map_option (\<lambda>(kvs, r). ((k, v) # kvs, r)) (more_members n r)"
proof -
  obtain body where "expect quote_char (print_str L k @ CHR '':'' # lay_colon L @ s) = Some body"
    "scan_str (length body) body = Some (k, CHR '':'' # lay_colon L @ s)"
    using print_str_scan [where r = "CHR '':'' # lay_colon L @ s", OF assms(1)] by metis
  then show ?thesis
    unfolding scan_members.simps option.case prod.case
    using assms(2,3) by (simp add: more_members_def skip_ws_Cons split: option.split)
qed

lemma sane_white: "sane L \<Longrightarrow> white (lay_break L n)" "sane L \<Longrightarrow> white (lay_sep L n)"
    "sane L \<Longrightarrow> white (lay_colon L)"
  by (simp_all add: sane_def)

lemma skip_ws_bracket [simp]:
  "skip_ws (CHR '','' # s) = CHR '','' # s" "skip_ws (CHR '']'' # s) = CHR '']'' # s"
  "skip_ws (CHR ''}'' # s) = CHR ''}'' # s" "skip_ws (CHR '':'' # s) = CHR '':'' # s"
  by (simp_all add: skip_ws_Cons)

text \<open>One more element, whose text follows the white space of its separator.\<close>

lemma scan_items_in:
  assumes "plain x" "white gap" "scan_value n (dumps_in L l x @ rest) = Some (x, rest)"
    and "more_items n rest = Some (xs, r)"
  shows "scan_items (Suc n) (skip_ws (gap @ dumps_in L l x @ rest)) = Some (x # xs, r)"
  using assms by (simp add: dumps_in_not_ws scan_items_more del: scan_items.simps)

lemma scan_members_in:
  assumes "plain v" "white gap" "sane L" "lay_ascii L \<Longrightarrow> utf8_text k"
    and "scan_value n (dumps_in L l v @ rest) = Some (v, rest)"
    and "more_members n rest = Some (kvs, r)"
  shows "scan_members (Suc n) (skip_ws (gap @ print_str L k @ CHR '':'' # lay_colon L @ dumps_in L l v @ rest))
    = Some ((k, v) # kvs, r)"
proof -
  have "skip_ws (gap @ print_str L k @ CHR '':'' # lay_colon L @ dumps_in L l v @ rest)
      = print_str L k @ CHR '':'' # lay_colon L @ dumps_in L l v @ rest"
    using assms(2) print_str_scan [where r = "CHR '':'' # lay_colon L @ dumps_in L l v @ rest", OF assms(4)]
    by (metis skip_ws_white)
  then show ?thesis
    using scan_members_print [where L = L and k = k and s = "dumps_in L l v @ rest", OF assms(4) sane_white(3) [OF assms(3)]]
      assms(1,5,6) dumps_in_not_ws(1) [OF assms(1)]
    by (simp del: scan_members.simps)
qed

lemma scan_dumps_in:
  assumes L: "sane L"
  shows
  "fits L j \<Longrightarrow> stops r \<Longrightarrow> length (dumps_in L l j) \<le> n \<Longrightarrow> scan_value n (dumps_in L l j @ r) = Some (j, r)"
  "\<forall>x \<in> set xs. fits L x \<Longrightarrow> length (dump_items_in L l xs) \<le> Suc n \<Longrightarrow>
    more_items n (dump_items_in L l xs @ r) = Some (xs, r)"
  "\<forall>kv \<in> set kvs. (lay_ascii L \<longrightarrow> utf8_text (fst kv)) \<and> fits L (snd kv) \<Longrightarrow>
    length (dump_members_in L l kvs) \<le> Suc n \<Longrightarrow>
    more_members n (dump_members_in L l kvs @ r) = Some (kvs, r)"
  using L
proof (induction L l j and L l xs and L l kvs arbitrary: n r and n r and n r
    rule: dumps_in_dump_items_in_dump_members_in.induct)
  case 1
  then show ?case by (cases n) (simp_all add: scan_const_def strip_prefix_def quote_char_def)
next
  case (2 L l b)
  then show ?case
    by (cases n; cases b) (simp_all add: scan_const_def strip_prefix_def quote_char_def)
next
  case (3 L l i)
  obtain c t where "str_of_int i = c # t" "c \<notin> set (quote_char # ''[{'')"
    using str_of_int_head by blast
  with 3 scan_const_int [OF 3(2), of i] show ?case by (cases n) simp_all
next
  case (4 L l r')
  then show ?case by (simp add: fits_def)
next
  case (5 L l s)
  then have "lay_ascii L \<Longrightarrow> utf8_text s" by (simp add: fits_def)
  from print_str_scan [where r = r, OF this] obtain body where
    "expect quote_char (print_str L s @ r) = Some body" "scan_str (length body) body = Some (s, r)"
    "print_str L s \<noteq> []" by metis
  with 5(3) show ?case by (cases n) (simp_all del: scan_str.simps)
next
  case 6
  then show ?case by (cases n) (simp_all add: quote_char_def skip_ws_Cons)
next
  case (7 L l x xs)
  have fit: "fits L x" "\<forall>x \<in> set xs. fits L x" "plain x" using 7(3) by (auto simp: fits_def)
  have "0 < length (dumps_in L (Suc l) x)" using dumps_in_not_ws(3) [OF fit(3)] .
  moreover have "0 < length (dump_items_in L l xs)" using stops_dump_in(3) [OF 7(6)] .
  moreover have "1 + length (dumps_in L (Suc l) x) + length (dump_items_in L l xs) \<le> n" using 7(5) by simp
  ultimately obtain m where m: "n = Suc (Suc m)" "length (dumps_in L (Suc l) x) \<le> m"
      "length (dump_items_in L l xs) \<le> Suc m"
    by (intro that [of "n - 2"]) linarith+
  have *: "scan_items (Suc m) (skip_ws (lay_break L (Suc l) @ dumps_in L (Suc l) x @ dump_items_in L l xs @ r))
      = Some (x # xs, r)"
    by (rule scan_items_in [OF fit(3) sane_white(1) [OF 7(6)]
        7(1) [OF fit(1) stops_dump_in(1) [OF 7(6)] m(2) 7(6)] 7(2) [OF fit(2) m(3) 7(6)]])
  moreover have "expect (CHR '']'') (skip_ws (lay_break L (Suc l) @ dumps_in L (Suc l) x @ dump_items_in L l xs @ r)) = None"
    using sane_white(1) [OF 7(6)] dumps_in_not_ws [OF fit(3)] by simp
  ultimately show ?case using m(1) by (simp add: quote_char_def del: scan_items.simps skip_ws_white)
next
  case 8
  then show ?case by (cases n) (simp_all add: quote_char_def skip_ws_Cons)
next
  case (9 L l k v kvs)
  have fit: "fits L v" "\<forall>kv \<in> set kvs. (lay_ascii L \<longrightarrow> utf8_text (fst kv)) \<and> fits L (snd kv)" "plain v"
    "lay_ascii L \<Longrightarrow> utf8_text k" using 9(3) by (auto simp: fits_def)
  have "0 < length (dumps_in L (Suc l) v)" using dumps_in_not_ws(3) [OF fit(3)] .
  moreover have "0 < length (dump_members_in L l kvs)" using stops_dump_in(4) [OF 9(6)] .
  moreover have "2 + length (dumps_in L (Suc l) v) + length (dump_members_in L l kvs) \<le> n" using 9(5) by simp
  ultimately obtain m where m: "n = Suc (Suc m)" "length (dumps_in L (Suc l) v) \<le> m"
      "length (dump_members_in L l kvs) \<le> Suc m"
    by (intro that [of "n - 2"]) linarith+
  let ?txt = "print_str L k @ CHR '':'' # lay_colon L @ dumps_in L (Suc l) v @ dump_members_in L l kvs @ r"
  have "scan_members (Suc m) (skip_ws (lay_break L (Suc l) @ ?txt)) = Some ((k, v) # kvs, r)"
    by (rule scan_members_in [OF fit(3) sane_white(1) [OF 9(6)] 9(6) fit(4)
        9(1) [OF fit(1) stops_dump_in(2) [OF 9(6)] m(2) 9(6)] 9(2) [OF fit(2) m(3) 9(6)]])
  moreover have "expect (CHR ''}'') (skip_ws (lay_break L (Suc l) @ ?txt)) = None"
    using sane_white(1) [OF 9(6)] print_str_scan [OF fit(4)] by (metis skip_ws_white)
  moreover have "foldl (\<lambda>d (k, v). dput k v d) [] ((k, v) # kvs) = (k, v) # kvs"
    using 9(3) by (intro rebuild_dict [of "[]", simplified append_Nil]) (simp add: fits_def)
  ultimately show ?case
    using m(1) by (simp add: quote_char_def del: scan_members.simps foldl_Cons skip_ws_white)
next
  case (10 L l)
  then show ?case by (simp add: more_items_def sane_white)
next
  case (11 L l x xs)
  have fit: "fits L x" "\<forall>x \<in> set xs. fits L x" "plain x" using 11(3) by (auto simp: fits_def)
  have "0 < length (dumps_in L (Suc l) x)" using dumps_in_not_ws(3) [OF fit(3)] .
  moreover have "0 < length (dump_items_in L l xs)" using stops_dump_in(3) [OF 11(5)] .
  moreover have "1 + length (dumps_in L (Suc l) x) + length (dump_items_in L l xs) \<le> Suc n" using 11(4) by simp
  ultimately obtain m where m: "n = Suc m" "length (dumps_in L (Suc l) x) \<le> m"
      "length (dump_items_in L l xs) \<le> Suc m"
    by (intro that [of "n - 1"]) linarith+
  have "scan_items (Suc m) (skip_ws (lay_sep L (Suc l) @ dumps_in L (Suc l) x @ dump_items_in L l xs @ r))
      = Some (x # xs, r)"
    by (rule scan_items_in [OF fit(3) sane_white(2) [OF 11(5)]
        11(1) [OF fit(1) stops_dump_in(1) [OF 11(5)] m(2) 11(5)] 11(2) [OF fit(2) m(3) 11(5)]])
  then show ?case using m(1) by (simp add: more_items_def del: scan_items.simps skip_ws_white)
next
  case (12 L l)
  then show ?case by (simp add: more_members_def sane_white)
next
  case (13 L l k v kvs)
  have fit: "fits L v" "\<forall>kv \<in> set kvs. (lay_ascii L \<longrightarrow> utf8_text (fst kv)) \<and> fits L (snd kv)" "plain v"
    "lay_ascii L \<Longrightarrow> utf8_text k" using 13(3) by (auto simp: fits_def)
  have "0 < length (dumps_in L (Suc l) v)" using dumps_in_not_ws(3) [OF fit(3)] .
  moreover have "0 < length (dump_members_in L l kvs)" using stops_dump_in(4) [OF 13(5)] .
  moreover have "2 + length (dumps_in L (Suc l) v) + length (dump_members_in L l kvs) \<le> Suc n" using 13(4) by simp
  ultimately obtain m where m: "n = Suc m" "length (dumps_in L (Suc l) v) \<le> m"
      "length (dump_members_in L l kvs) \<le> Suc m"
    by (intro that [of "n - 1"]) linarith+
  have "scan_members (Suc m) (skip_ws (lay_sep L (Suc l) @ print_str L k @ CHR '':'' # lay_colon L
      @ dumps_in L (Suc l) v @ dump_members_in L l kvs @ r)) = Some ((k, v) # kvs, r)"
    by (rule scan_members_in [OF fit(3) sane_white(2) [OF 13(5)] 13(5) fit(4)
        13(1) [OF fit(1) stops_dump_in(2) [OF 13(5)] m(2) 13(5)] 13(2) [OF fit(2) m(3) 13(5)]])
  then show ?case using m(1) by (simp add: more_members_def del: scan_members.simps skip_ws_white)
qed

lemma loads_dumps_in: "sane L \<Longrightarrow> fits L j \<Longrightarrow> loads (dumps_in L n j) = Inr j"
  using scan_dumps_in(1) [of L j "[]" n "Suc (length (dumps_in L n j))"] dumps_in_not_ws(1) [of j L n "[]"]
  by (simp add: loads_def fits_def)

lemma loads_dumps_in_line: "sane L \<Longrightarrow> fits L j \<Longrightarrow> loads (dumps_in L n j @ [CHR 0x0A]) = Inr j"
  using scan_dumps_in(1) [of L j "[CHR 0x0A]" n "Suc (length (dumps_in L n j @ [CHR 0x0A]))"]
    dumps_in_not_ws(1) [of j L n "[CHR 0x0A]"]
  by (simp add: loads_def fits_def skip_ws_def)

end
