(* ===== verification/Witness.thy ===== *)
theory Witness imports Verify Merkle_Properties Py_Json_Layout begin

text \<open>
  \<open>src/src/openwright/witness.py\<close> and \<open>witness_service.py\<close>: an independent party that co-signs tree
  heads after checking the producer's signature and a consistency proof from the head it endorsed
  last; the HTTP handler and its client.  The state of a witness is its key and the last endorsed
  checkpoint.  Parameters: \<open>ed\<close> is the Ed25519 check, \<open>pem\<close> and \<open>unpem\<close> print and read PEM keys.
  Bodies of replies are given as JSON values; the texts of errors are not modelled.
\<close>

section \<open>The witness\<close>

record witness_cosignature =
  wc_witness_key_id :: string
  wc_tree_size :: int
  wc_root_hash :: string
  wc_signature :: string

record witness =
  wit_key :: key_source
  wit_last :: "checkpoint option"

definition new_witness :: "key_source \<Rightarrow> witness" where
  "new_witness key = \<lparr>wit_key = key, wit_last = None\<rparr>"

definition witness_key_id :: "witness \<Rightarrow> string" where
  "witness_key_id w = ks_key_id (wit_key w)"

text \<open>Step 2 of \<open>cosign\<close>: the head must extend the last endorsed one.\<close>

definition extends_last :: "checkpoint option \<Rightarrow> checkpoint \<Rightarrow> json \<Rightarrow> unit result" where
  "extends_last last_cp cp proof_hex = (case last_cp of
     None \<Rightarrow> Inr ()
   | Some old \<Rightarrow>
       (if cp_tree_size cp < cp_tree_size old then Inl WitnessError
        else if cp_tree_size old < cp_tree_size cp then
          sbind (iterate (if truthy proof_hex then proof_hex else JList [])) (\<lambda>hs.
          sbind (map_result fromhex_value hs) (\<lambda>proof.
          sbind (fromhex (cp_root_hash old)) (\<lambda>a.
          sbind (fromhex (cp_root_hash cp)) (\<lambda>b.
            if verify_consistency (cp_tree_size old) (cp_tree_size cp) a b proof
            then Inr () else Inl WitnessError))))
        else Inr ()))"

definition cosign ::
  "ed_check \<Rightarrow> checkpoint \<Rightarrow> bytes \<Rightarrow> json \<Rightarrow> witness \<Rightarrow> witness_cosignature result \<times> witness"
where
  "cosign ed cp producer_key proof_hex w =
     (case sbind (cp_verify ed cp producer_key) (\<lambda>ok.
           if \<not> ok then Inl WitnessError
           else sbind (extends_last (wit_last w) cp proof_hex) (\<lambda>_. cp_signing_bytes cp)) of
        Inl e \<Rightarrow> (Inl e, w)
      | Inr data \<Rightarrow>
          (Inr \<lparr>wc_witness_key_id = ks_key_id (wit_key w), wc_tree_size = cp_tree_size cp,
             wc_root_hash = cp_root_hash cp, wc_signature = b64encode (ks_sign (wit_key w) data)\<rparr>,
           w\<lparr>wit_last := Some cp\<rparr>))"

definition verify_cosignature ::
  "ed_check \<Rightarrow> checkpoint \<Rightarrow> witness_cosignature \<Rightarrow> bytes \<Rightarrow> bool result"
where
  "verify_cosignature ed cp cosig witness_key =
     (if key_id_for witness_key \<noteq> wc_witness_key_id cosig then Inr False
      else if wc_tree_size cosig \<noteq> cp_tree_size cp \<or> wc_root_hash cosig \<noteq> cp_root_hash cp
      then Inr False
      else case b64decode (wc_signature cosig) of
        Inl e \<Rightarrow> Inr False
      | Inr sig \<Rightarrow> sbind (cp_signing_bytes cp) (\<lambda>data. Inr (verify_signature ed witness_key sig data)))"

section \<open>The service and its client\<close>

definition dump_cosignature :: "witness_cosignature \<Rightarrow> dict" where
  "dump_cosignature c =
     [(''witness_key_id'', JStr (wc_witness_key_id c)),
      (''tree_size'', JInt (wc_tree_size c)),
      (''root_hash'', JStr (wc_root_hash c)),
      (''signature'', JStr (wc_signature c))]"

definition load_cosignature :: "dict \<Rightarrow> witness_cosignature result" where
  "load_cosignature d =
     sbind (get_str ''witness_key_id'' d) (\<lambda>k.
     sbind (case map_of d ''tree_size'' of Some (JInt n) \<Rightarrow> Inr n | _ \<Rightarrow> Inl ValueError) (\<lambda>n.
     sbind (get_str ''root_hash'' d) (\<lambda>r.
     sbind (get_str ''signature'' d) (\<lambda>s.
       Inr \<lparr>wc_witness_key_id = k, wc_tree_size = n, wc_root_hash = r, wc_signature = s\<rparr>))))"

text \<open>A reply with its status; an exception that escapes the handler leaves no reply.\<close>

datatype http_reply = Reply int dict | Refused int py_exn | No_Reply py_exn

definition witness_get :: "(bytes \<Rightarrow> string) \<Rightarrow> string \<Rightarrow> witness \<Rightarrow> http_reply" where
  "witness_get pem path w =
     (if path \<noteq> ''/pubkey'' then Refused 404 KeyError
      else Reply 200 [(''public_key_pem'', JStr (pem (ks_public_key_raw (wit_key w)))),
                      (''key_id'', JStr (witness_key_id w))])"

text \<open>The handler catches \<open>WitnessError\<close>, \<open>KeyError\<close>, \<open>ValueError\<close> and \<open>TypeError\<close>.\<close>

definition refusal :: "py_exn \<Rightarrow> http_reply" where
  "refusal e = (if e \<in> {WitnessError, KeyError, ValueError, TypeError, CanonicalizationError}
     then Refused 409 e else No_Reply e)"

definition parse_cosign_request ::
  "(string \<Rightarrow> bytes result) \<Rightarrow> string \<Rightarrow> (checkpoint \<times> bytes \<times> json) result"
where
  "parse_cosign_request unpem body =
     sbind (loads (if body = [] then ''{}'' else body)) (\<lambda>req.
     sbind (item_at req ''checkpoint'') (\<lambda>v.
     sbind (case v of JDict d \<Rightarrow> load_checkpoint d | _ \<Rightarrow> Inl ValueError) (\<lambda>cp.
     sbind (item_at req ''producer_public_key_pem'') (\<lambda>k.
     sbind (pem_key unpem k) (\<lambda>producer_key.
     sbind (call_get req ''consistency_proof_hex'' JNull) (\<lambda>p.
       Inr (cp, producer_key, p)))))))"

definition witness_post ::
  "ed_check \<Rightarrow> (string \<Rightarrow> bytes result) \<Rightarrow> string \<Rightarrow> string \<Rightarrow> witness \<Rightarrow> http_reply \<times> witness"
where
  "witness_post ed unpem path body w =
     (if path \<noteq> ''/cosign'' then (Refused 404 KeyError, w)
      else case parse_cosign_request unpem body of
        Inl e \<Rightarrow> (refusal e, w)
      | Inr (cp, producer_key, p) \<Rightarrow>
          (case cosign ed cp producer_key p w of
             (Inl e, w') \<Rightarrow> (refusal e, w')
           | (Inr cosig, w') \<Rightarrow> (Reply 200 (dump_cosignature cosig), w')))"

definition cosign_payload :: "checkpoint \<Rightarrow> string \<Rightarrow> json \<Rightarrow> dict" where
  "cosign_payload cp producer_pem proof_hex =
     [(''checkpoint'', JDict (dump_checkpoint cp)),
      (''producer_public_key_pem'', JStr producer_pem),
      (''consistency_proof_hex'', proof_hex)]"

text \<open>The client turns any error status into \<open>WitnessError\<close>.\<close>

definition client_cosign ::
  "(string \<Rightarrow> string \<Rightarrow> witness \<Rightarrow> http_reply \<times> witness) \<Rightarrow> checkpoint \<Rightarrow> string \<Rightarrow> json \<Rightarrow> witness \<Rightarrow>
    witness_cosignature result \<times> witness"
where
  "client_cosign post cp producer_pem proof_hex w =
     (let (reply, w') = post ''/cosign''
        (dumps_in default_layout 0 (JDict (cosign_payload cp producer_pem proof_hex))) w
      in (case reply of
            Reply code body \<Rightarrow> load_cosignature body
          | Refused code e \<Rightarrow> Inl WitnessError
          | No_Reply e \<Rightarrow> Inl e, w'))"

section \<open>What a witness endorses\<close>

lemma verify_signature_Valid: "verify_signature ed pub sig d \<longleftrightarrow> ed pub sig d = Valid"
  by (cases "ed pub sig d") (simp_all add: verify_signature_def)

lemma cosign_cases:
  assumes "cosign ed cp pub proof_hex w = (r, w')"
  obtains (refused) e where "r = Inl e" "w' = w"
  | (endorsed) data where "cp_verify ed cp pub = Inr True" "extends_last (wit_last w) cp proof_hex = Inr ()"
      "cp_signing_bytes cp = Inr data" "w' = w\<lparr>wit_last := Some cp\<rparr>"
      "r = Inr \<lparr>wc_witness_key_id = ks_key_id (wit_key w), wc_tree_size = cp_tree_size cp,
        wc_root_hash = cp_root_hash cp, wc_signature = b64encode (ks_sign (wit_key w) data)\<rparr>"
proof (cases "sbind (cp_verify ed cp pub) (\<lambda>ok. if \<not> ok then Inl WitnessError
    else sbind (extends_last (wit_last w) cp proof_hex) (\<lambda>_. cp_signing_bytes cp))")
  case (Inl e)
  with assms show ?thesis by (intro refused [of e]) (simp_all add: cosign_def)
next
  case (Inr data)
  then have "cp_verify ed cp pub = Inr True" "extends_last (wit_last w) cp proof_hex = Inr ()"
    "cp_signing_bytes cp = Inr data"
    by (auto simp: sbind_Inr_conv split: if_splits)
  then show ?thesis using assms Inr by (intro endorsed [of data]) (simp_all add: cosign_def)
qed

lemma cosign_endorses:
  assumes "cp_verify ed cp pub = Inr True" "extends_last (wit_last w) cp proof_hex = Inr ()"
  obtains data where "cp_signing_bytes cp = Inr data"
    "cosign ed cp pub proof_hex w =
      (Inr \<lparr>wc_witness_key_id = ks_key_id (wit_key w), wc_tree_size = cp_tree_size cp,
        wc_root_hash = cp_root_hash cp, wc_signature = b64encode (ks_sign (wit_key w) data)\<rparr>,
       w\<lparr>wit_last := Some cp\<rparr>)"
proof -
  obtain data where "cp_signing_bytes cp = Inr data"
    unfolding cp_signing_bytes_def using checkpoint_signing_bytes_total by blast
  with assms that show ?thesis by (simp add: cosign_def)
qed

lemma cosignature_verifies:
  assumes "\<forall>d. ed (ks_public_key_raw (wit_key w)) (ks_sign (wit_key w) d) d = Valid"
    and "cosign ed cp pub proof_hex w = (Inr cosig, w')"
  shows "verify_cosignature ed cp cosig (ks_public_key_raw (wit_key w)) = Inr True"
  using assms(2)
proof (cases rule: cosign_cases)
  case (endorsed data)
  with assms(1) show ?thesis
    by (simp add: verify_cosignature_def ks_key_id_def verify_signature_Valid)
qed simp

text \<open>The proof a call supplies, once decoded.\<close>

definition proof_bytes :: "json \<Rightarrow> bytes list" where
  "proof_bytes p =
     (case sbind (iterate (if truthy p then p else JList [])) (map_result fromhex_value) of
        Inl e \<Rightarrow> []
      | Inr proof \<Rightarrow> proof)"

text \<open>
  A history of calls: each is refused, leaving the witness as it was, or endorses a head.  The
  trace records the endorsed heads with the proofs they came with.
\<close>

inductive witness_run :: "ed_check \<Rightarrow> witness \<Rightarrow> (checkpoint \<times> json) list \<Rightarrow> witness \<Rightarrow> bool"
  for ed :: ed_check and w0 :: witness
where
  start: "witness_run ed w0 [] w0"
| endorse: "witness_run ed w0 tr w \<Longrightarrow> cosign ed cp pub p w = (Inr cosig, w') \<Longrightarrow>
    witness_run ed w0 (tr @ [(cp, p)]) w'"
| refuse: "witness_run ed w0 tr w \<Longrightarrow> cosign ed cp pub p w = (Inl e, w') \<Longrightarrow>
    witness_run ed w0 tr w'"

text \<open>Two heads are linked when the supplied consistency proof between their roots verifies.\<close>

definition linked_heads :: "checkpoint \<Rightarrow> checkpoint \<Rightarrow> bytes list \<Rightarrow> bool" where
  "linked_heads old new proof \<longleftrightarrow> (\<exists>a b. fromhex (cp_root_hash old) = Inr a
     \<and> fromhex (cp_root_hash new) = Inr b
     \<and> verify_consistency (cp_tree_size old) (cp_tree_size new) a b proof)"

definition follows :: "checkpoint \<Rightarrow> checkpoint \<times> json \<Rightarrow> bool" where
  "follows old entry \<longleftrightarrow> cp_tree_size old = cp_tree_size (fst entry)
     \<or> cp_tree_size old < cp_tree_size (fst entry)
       \<and> linked_heads old (fst entry) (proof_bytes (snd entry))"

lemma extends_last_conv: "extends_last (Some old) cp p = Inr () \<Longrightarrow> follows old (cp, p)"
  unfolding extends_last_def linked_heads_def follows_def proof_bytes_def
  by (auto simp: sbind_Inr_conv split: if_splits)

definition head_chain :: "(checkpoint \<times> json) list \<Rightarrow> bool" where
  "head_chain tr \<longleftrightarrow> (\<forall>i. Suc i < length tr \<longrightarrow> follows (fst (tr ! i)) (tr ! Suc i))"

lemma head_chain_snoc:
  "head_chain tr \<Longrightarrow> (tr \<noteq> [] \<Longrightarrow> follows (fst (last tr)) x) \<Longrightarrow> head_chain (tr @ [x])"
  by (cases tr rule: rev_cases) (auto simp: head_chain_def nth_append less_Suc_eq)

lemma witness_run_chain:
  "witness_run ed (new_witness key) tr w \<Longrightarrow>
    head_chain tr \<and> wit_last w = (if tr = [] then None else Some (fst (last tr))) \<and> wit_key w = key
    \<and> (\<forall>x \<in> set tr. \<exists>pub. cp_verify ed (fst x) pub = Inr True)"
proof (induction rule: witness_run.induct)
  case start
  show ?case by (simp add: head_chain_def new_witness_def)
next
  case (endorse tr w cp pub p cosig w')
  from endorse.hyps(2) show ?case
  proof (cases rule: cosign_cases)
    case (endorsed data)
    then have "tr \<noteq> [] \<Longrightarrow> follows (fst (last tr)) (cp, p)"
      using endorse.IH extends_last_conv by simp
    with endorse.IH endorsed head_chain_snoc [of tr "(cp, p)"] show ?thesis by auto
  qed simp
next
  case (refuse tr w cp pub p e w')
  from refuse.hyps(2) refuse.IH show ?case by (cases rule: cosign_cases) simp_all
qed

section \<open>What consecutive endorsements say about the logs\<close>

text \<open>The trees the endorsed heads are heads of.\<close>

definition heads_of :: "(checkpoint \<times> json) list \<Rightarrow> bytes list list \<Rightarrow> bool" where
  "heads_of tr Ls \<longleftrightarrow> length Ls = length tr \<and> (\<forall>i < length tr. digests (Ls ! i)
     \<and> cp_tree_size (fst (tr ! i)) = int (length (Ls ! i))
     \<and> cp_root_hash (fst (tr ! i)) = hex (tree_hash (Ls ! i)))"

definition step_transcript :: "(checkpoint \<times> json) list \<Rightarrow> bytes list list \<Rightarrow> nat \<Rightarrow> bytes set" where
  "step_transcript tr Ls k = set (consistency_transcript (Ls ! k) (Ls ! Suc k) (tree_hash (Ls ! k))
     (proof_bytes (snd (tr ! Suc k))))"

text \<open>Heads of the same size have the same root: the one check \<open>cosign\<close> does not make.\<close>

definition fork_free :: "(checkpoint \<times> json) list \<Rightarrow> bool" where
  "fork_free tr \<longleftrightarrow> (\<forall>x \<in> set tr. \<forall>y \<in> set tr.
     cp_tree_size (fst x) = cp_tree_size (fst y) \<longrightarrow> cp_root_hash (fst x) = cp_root_hash (fst y))"

lemma endorsed_step:
  assumes tr: "head_chain tr" "heads_of tr Ls" "fork_free tr" and k: "Suc k < length tr"
    and free: "\<not> collision (step_transcript tr Ls k)"
  shows "Ls ! k = take (length (Ls ! k)) (Ls ! Suc k)"
proof -
  have d: "digests (Ls ! k)" "digests (Ls ! Suc k)"
    and sizes: "cp_tree_size (fst (tr ! k)) = int (length (Ls ! k))"
      "cp_tree_size (fst (tr ! Suc k)) = int (length (Ls ! Suc k))"
    and roots: "cp_root_hash (fst (tr ! k)) = hex (tree_hash (Ls ! k))"
      "cp_root_hash (fst (tr ! Suc k)) = hex (tree_hash (Ls ! Suc k))"
    using tr(2) k by (simp_all add: heads_of_def)
  from tr(1) k have follows: "follows (fst (tr ! k)) (tr ! Suc k)" by (simp add: head_chain_def)
  show ?thesis
  proof (cases "length (Ls ! k) = length (Ls ! Suc k)")
    case True
    have "tr ! k \<in> set tr" "tr ! Suc k \<in> set tr" using k by simp_all
    moreover have "cp_tree_size (fst (tr ! k)) = cp_tree_size (fst (tr ! Suc k))"
      using sizes True by (simp only:)
    ultimately have "cp_root_hash (fst (tr ! k)) = cp_root_hash (fst (tr ! Suc k))"
      using tr(3) unfolding fork_free_def by blast
    then have "tree_hash (Ls ! k) = tree_hash (Ls ! Suc k)" using roots by simp
    moreover have "set (tree_inputs (Ls ! k) @ tree_inputs (Ls ! Suc k)) \<subseteq> step_transcript tr Ls k"
      by (auto simp: step_transcript_def consistency_transcript_def)
    then have "\<not> collision (set (tree_inputs (Ls ! k) @ tree_inputs (Ls ! Suc k)))"
      using free collision_mono by blast
    ultimately have "Ls ! k = Ls ! Suc k" using d True by (intro tree_hash_inject) auto
    then show ?thesis using True by simp
  next
    case False
    with follows sizes roots have v: "verify_consistency (int (length (Ls ! k)))
        (int (length (Ls ! Suc k))) (tree_hash (Ls ! k)) (tree_hash (Ls ! Suc k))
        (proof_bytes (snd (tr ! Suc k)))"
      by (simp add: follows_def linked_heads_def)
    show ?thesis
    proof (cases "Ls ! k = []")
      case False
      from consistency_binds [OF d False v] free show ?thesis by (simp add: step_transcript_def)
    qed simp
  qed
qed

lemma endorsed_prefixes:
  assumes tr: "head_chain tr" "heads_of tr Ls" "fork_free tr"
    and free: "\<forall>k. Suc k < length tr \<longrightarrow> \<not> collision (step_transcript tr Ls k)"
  shows "i \<le> j \<Longrightarrow> j < length tr \<Longrightarrow> Ls ! i = take (length (Ls ! i)) (Ls ! j)"
proof (induction j rule: dec_induct)
  case (step j)
  then have pre: "Ls ! i = take (length (Ls ! i)) (Ls ! j)" by simp
  from arg_cong [OF pre, of length] have le: "length (Ls ! i) \<le> length (Ls ! j)" by simp
  have "Ls ! j = take (length (Ls ! j)) (Ls ! Suc j)"
    using endorsed_step [OF tr] step.prems free by blast
  from arg_cong [OF this, of "take (length (Ls ! i))"] le
  have "take (length (Ls ! i)) (Ls ! j) = take (length (Ls ! i)) (Ls ! Suc j)"
    by (simp only: take_take min.absorb1)
  with pre show ?case by (rule trans)
qed simp

section \<open>The service relays the witness\<close>

lemma load_dump_cosignature: "load_cosignature (dump_cosignature c) = Inr c"
  by (simp add: load_cosignature_def dump_cosignature_def get_str_def)

text \<open>The errors a call with well-typed arguments can raise are all answered with 409.\<close>

lemma fromhex_error: "fromhex s = Inl e \<Longrightarrow> e = ValueError"
proof (induction s rule: fromhex.induct)
  case (3 c d cs)
  show ?case
  proof (cases "is_space c")
    case False
    with 3 show ?thesis
      by (cases "hex_val c"; cases "hex_val d") (auto simp: sbind_Inl_conv)
  qed (use 3 in simp)
qed (simp_all split: if_splits)

lemma fromhex_strings_error: "map_result fromhex_value (map JStr hs) = Inl e \<Longrightarrow> e = ValueError"
  by (induction hs) (auto simp: sbind_Inl_conv fromhex_value_def dest: fromhex_error)

lemma extends_last_error:
  "extends_last last_cp cp (JList (map JStr hs)) = Inl e \<Longrightarrow> e = WitnessError \<or> e = ValueError"
  unfolding extends_last_def iterate_def
  by (auto simp: sbind_Inl_conv truthy_def dest: fromhex_error fromhex_strings_error
      split: option.splits if_splits)

lemma cp_verify_total: "\<exists>ok. cp_verify ed cp pub = Inr ok"
  using checkpoint_signing_bytes_total
    [of "cp_origin cp" "cp_tree_size cp" "cp_root_hash cp" "cp_timestamp cp"]
  by (cases "b64decode (cp_signature cp)") (auto simp: cp_verify_def cp_signing_bytes_def)

lemma cosign_error:
  "cosign ed cp pub (JList (map JStr hs)) w = (Inl e, w') \<Longrightarrow> e = WitnessError \<or> e = ValueError"
proof -
  assume asm: "cosign ed cp pub (JList (map JStr hs)) w = (Inl e, w')"
  obtain data where data: "cp_signing_bytes cp = Inr data"
    unfolding cp_signing_bytes_def using checkpoint_signing_bytes_total by blast
  obtain ok where ok: "cp_verify ed cp pub = Inr ok" using cp_verify_total by blast
  show ?thesis
  proof (cases "\<not> ok")
    case True
    with asm ok show ?thesis by (simp add: cosign_def)
  next
    case False
    with asm ok data have "extends_last (wit_last w) cp (JList (map JStr hs)) = Inl e"
      by (cases "extends_last (wit_last w) cp (JList (map JStr hs))") (simp_all add: cosign_def)
    then show ?thesis by (rule extends_last_error)
  qed
qed

definition as_witness_error :: "'a result \<Rightarrow> 'a result" where
  "as_witness_error r = (case r of Inl e \<Rightarrow> Inl WitnessError | Inr x \<Rightarrow> Inr x)"

lemma client_relays:
  assumes "good_extras [''origin'', ''tree_size'', ''root_hash'', ''timestamp'', ''public_key_id'',
      ''signature''] (cp_extra cp)"
    and "fits default_layout (JDict (dump_checkpoint cp))" "utf8_text producer_pem" "list_all utf8_text hs"
    and "unpem producer_pem = Inr pub"
  shows "client_cosign (witness_post ed unpem) cp producer_pem (JList (map JStr hs)) w =
    (as_witness_error (fst (cosign ed cp pub (JList (map JStr hs)) w)),
     snd (cosign ed cp pub (JList (map JStr hs)) w))"
proof -
  let ?p = "JList (map JStr hs)"
  let ?body = "dumps_in default_layout 0 (JDict (cosign_payload cp producer_pem ?p))"
  have "fits default_layout (JDict (cosign_payload cp producer_pem ?p))"
    using assms(2-4) by (auto simp: fits_def cosign_payload_def list_all_iff)
  then have loads: "loads ?body = Inr (JDict (cosign_payload cp producer_pem ?p))"
    by (intro loads_dumps_in) simp
  have body: "?body \<noteq> []" by (simp add: cosign_payload_def)
  have parse: "parse_cosign_request unpem ?body = Inr (cp, pub, ?p)"
    using load_dump_checkpoint [OF assms(1)] assms(5) unfolding parse_cosign_request_def
    by (simp add: body loads) (simp add: cosign_payload_def item_at_def call_get_def pem_key_def dget_or_def)
  obtain r w' where c: "cosign ed cp pub ?p w = (r, w')" by (cases "cosign ed cp pub ?p w")
  show ?thesis
  proof (cases r)
    case (Inl e)
    then have "e = WitnessError \<or> e = ValueError" using c cosign_error by blast
    then have "refusal e = Refused 409 e" by (auto simp: refusal_def)
    with c Inl parse show ?thesis
      by (simp add: client_cosign_def witness_post_def as_witness_error_def)
  next
    case (Inr cosig)
    with c parse show ?thesis
      by (simp add: client_cosign_def witness_post_def as_witness_error_def load_dump_cosignature)
  qed
qed

end
