(* ===== verification/Checkpoint_Store.thy ===== *)
theory Checkpoint_Store imports Py_Json_Layout Py_Values Signing Retention begin

text \<open>
  \<open>src/src/openwright/checkpoint_store.py\<close>: the interface of checkpoint stores as the locale
  \<open>checkpoint_store\<close>, the directory store and the S3 store.  A directory is the association list
  of its file names and texts.  The S3 client is the package \<open>boto3\<close> and is a parameter: a record
  of the three calls the store makes; \<open>s3_laws\<close> states their documented behaviour, in particular
  that \<open>list_objects_v2\<close> returns at most 1000 keys, the first in the order of their bytes.
\<close>

section \<open>The interface\<close>

definition latest ::
  "('s \<Rightarrow> int list result) \<Rightarrow> (int \<Rightarrow> 's \<Rightarrow> checkpoint option result) \<Rightarrow> 's \<Rightarrow> checkpoint option result"
where
  "latest tree_sizes get s =
     sbind (tree_sizes s) (\<lambda>sizes. if sizes = [] then Inr None else get (Max (set sizes)) s)"

text \<open>
  A store stands for a partial function from tree sizes to checkpoints.  \<open>listed s m\<close> says that
  the contents are small enough for \<open>tree_sizes\<close> to be complete.
\<close>

locale checkpoint_store =
  fixes put :: "checkpoint \<Rightarrow> 's \<Rightarrow> 's"
    and get :: "int \<Rightarrow> 's \<Rightarrow> checkpoint option result"
    and tree_sizes :: "'s \<Rightarrow> int list result"
    and keeps :: "'s \<Rightarrow> (int \<Rightarrow> checkpoint option) \<Rightarrow> bool"
    and storable :: "checkpoint \<Rightarrow> bool"
    and listed :: "(int \<Rightarrow> checkpoint option) \<Rightarrow> bool"
  assumes put_keeps: "keeps s m \<Longrightarrow> storable cp \<Longrightarrow> keeps (put cp s) (m(cp_tree_size cp \<mapsto> cp))"
    and get_keeps: "keeps s m \<Longrightarrow> 0 \<le> n \<Longrightarrow> get n s = Inr (m n)"
    and sizes_keeps: "keeps s m \<Longrightarrow> listed m \<Longrightarrow> \<exists>ns. tree_sizes s = Inr ns \<and> sorted ns \<and> set ns = dom m"
    and keeps_finite: "keeps s m \<Longrightarrow> finite (dom m) \<and> (\<forall>n \<in> dom m. 0 \<le> n)"
begin

lemma latest_empty: "keeps s Map.empty \<Longrightarrow> listed Map.empty \<Longrightarrow> latest tree_sizes get s = Inr None"
  using sizes_keeps [of s Map.empty] by (auto simp: latest_def)

lemma latest_max:
  assumes "keeps s m" "listed m" "dom m \<noteq> {}"
  shows "latest tree_sizes get s = Inr (m (Max (dom m)))"
proof -
  obtain ns where ns: "tree_sizes s = Inr ns" "set ns = dom m" using sizes_keeps assms by blast
  have "ns \<noteq> []" using ns(2) assms(3) by (metis list.set(1))
  moreover have "Max (dom m) \<in> dom m" using keeps_finite [OF assms(1)] assms(3) by (intro Max_in) auto
  then have "get (Max (dom m)) s = Inr (m (Max (dom m)))"
    using keeps_finite [OF assms(1)] by (intro get_keeps [OF assms(1)]) blast
  ultimately show ?thesis using ns by (simp add: latest_def)
qed

text \<open>The last one put under the largest size is the latest.\<close>

lemma latest_put:
  assumes "keeps s m" "storable cp" "listed (m(cp_tree_size cp \<mapsto> cp))"
    and "\<forall>n \<in> dom m. n \<le> cp_tree_size cp"
  shows "latest tree_sizes get (put cp s) = Inr (Some cp)"
proof -
  have "Max (dom (m(cp_tree_size cp \<mapsto> cp))) = cp_tree_size cp"
    using assms(4) keeps_finite [OF assms(1)] by (intro Max_eqI) auto
  with latest_max [OF put_keeps [OF assms(1,2)] assms(3)] show ?thesis by simp
qed

end

section \<open>File names\<close>

definition pad_left :: "nat \<Rightarrow> string \<Rightarrow> string" where
  "pad_left width s = replicate (width - length s) (CHR ''0'') @ s"

text \<open>\<open>f"{n:012d}"\<close>.\<close>

definition fmt012 :: "int \<Rightarrow> string" where
  "fmt012 n = (if n < 0 then CHR ''-'' # pad_left 11 (digits_of (nat (- n)))
     else pad_left 12 (digits_of (nat n)))"

definition checkpoint_name :: "int \<Rightarrow> string" where
  "checkpoint_name n = ''checkpoint-'' @ fmt012 n @ ''.json''"

text \<open>\<open>int(stem.split("-")[1])\<close> on a name without its extension.\<close>

definition stem_size :: "string \<Rightarrow> int result" where
  "stem_size stem = sbind (py_index (split_at (CHR ''-'') stem) 1) (\<lambda>part. py_int (JStr part))"

definition validate_checkpoint :: "json \<Rightarrow> checkpoint result" where
  "validate_checkpoint v = (case v of JDict d \<Rightarrow> load_checkpoint d | _ \<Rightarrow> Inl ValueError)"

fun sizes_of :: "(string \<Rightarrow> int result) \<Rightarrow> string list \<Rightarrow> int list result" where
  "sizes_of f [] = Inr []"
| "sizes_of f (x # xs) = sbind (f x) (\<lambda>n. sbind (sizes_of f xs) (\<lambda>ns. Inr (n # ns)))"

section \<open>The directory store\<close>

type_synonym directory = "(string \<times> string) list"

definition local_put :: "checkpoint \<Rightarrow> directory \<Rightarrow> directory" where
  "local_put cp dir =
     dput (checkpoint_name (cp_tree_size cp)) (dumps_in (indented 2) 0 (JDict (dump_checkpoint cp))) dir"

definition local_get :: "int \<Rightarrow> directory \<Rightarrow> checkpoint option result" where
  "local_get n dir = (case map_of dir (checkpoint_name n) of
     None \<Rightarrow> Inr None
   | Some text \<Rightarrow> sbind (loads text) (\<lambda>v. sbind (validate_checkpoint v) (\<lambda>cp. Inr (Some cp))))"

text \<open>\<open>glob("checkpoint-*.json")\<close>.\<close>

definition checkpoint_glob :: "string \<Rightarrow> bool" where
  "checkpoint_glob name \<longleftrightarrow> 16 \<le> length name \<and> take 11 name = ''checkpoint-''
     \<and> drop (length name - 5) name = ''.json''"

definition name_size :: "string \<Rightarrow> int result" where
  "name_size name = stem_size (take (length name - 5) name)"

definition local_tree_sizes :: "directory \<Rightarrow> int list result" where
  "local_tree_sizes dir =
     sbind (sizes_of name_size (filter checkpoint_glob (map fst dir))) (\<lambda>ns. Inr (sort ns))"

section \<open>The S3 store\<close>

record s3_lock =
  lock_mode :: string
  lock_until :: int

record 'c s3_client =
  put_object :: "string \<Rightarrow> string \<Rightarrow> string \<Rightarrow> s3_lock option \<Rightarrow> 'c \<Rightarrow> 'c"
  get_object :: "string \<Rightarrow> string \<Rightarrow> 'c \<Rightarrow> string result"
  list_objects_v2 :: "string \<Rightarrow> string \<Rightarrow> 'c \<Rightarrow> string list"

record 'c s3_store =
  s3_api :: "'c s3_client"
  s3_service :: 'c
  s3_bucket :: string
  s3_prefix :: string
  s3_lock_mode :: "string option"
  s3_retention :: "int option"

definition s3_open ::
  "'c s3_client \<Rightarrow> 'c \<Rightarrow> string \<Rightarrow> string \<Rightarrow> string option \<Rightarrow> int option \<Rightarrow> 'c s3_store result"
where
  "s3_open client service bucket prefix mode retention =
     sbind (case mode of
              None \<Rightarrow> Inr ()
            | Some m \<Rightarrow>
                (if m \<notin> {''COMPLIANCE'', ''GOVERNANCE''} then Inl ValueError
                 else if retention = None then Inl ValueError else Inr ()))
       (\<lambda>_. Inr \<lparr>s3_api = client, s3_service = service, s3_bucket = bucket,
          s3_prefix = strip_slashes prefix, s3_lock_mode = mode, s3_retention = retention\<rparr>)"

definition s3_key :: "'c s3_store \<Rightarrow> int \<Rightarrow> string" where
  "s3_key st n = s3_prefix st @ ''/'' @ checkpoint_name n"

text \<open>The lock an object is written with; \<open>now\<close> is the clock in microseconds.\<close>

definition s3_lock_of :: "'c s3_store \<Rightarrow> int \<Rightarrow> s3_lock option result" where
  "s3_lock_of st now = (case s3_lock_mode st of
     None \<Rightarrow> Inr None
   | Some mode \<Rightarrow> (case s3_retention st of
       None \<Rightarrow> Inl TypeError
     | Some r \<Rightarrow> Inr (Some \<lparr>lock_mode = mode, lock_until = now + r\<rparr>)))"

definition s3_put :: "int \<Rightarrow> checkpoint \<Rightarrow> 'c s3_store \<Rightarrow> (string \<times> 'c s3_store) result" where
  "s3_put now cp st =
     sbind (s3_lock_of st now) (\<lambda>lock.
       Inr (''s3://'' @ s3_bucket st @ ''/'' @ s3_key st (cp_tree_size cp),
         st\<lparr>s3_service := put_object (s3_api st) (s3_bucket st) (s3_key st (cp_tree_size cp))
              (dumps_in default_layout 0 (JDict (dump_checkpoint cp))) lock (s3_service st)\<rparr>))"

definition s3_get :: "int \<Rightarrow> 'c s3_store \<Rightarrow> checkpoint option result" where
  "s3_get n st = (case get_object (s3_api st) (s3_bucket st) (s3_key st n) (s3_service st) of
     Inl e \<Rightarrow> Inr None
   | Inr body \<Rightarrow> sbind (loads body) (\<lambda>v. sbind (validate_checkpoint v) (\<lambda>cp. Inr (Some cp))))"

text \<open>\<open>str.replace(p, "")\<close> for a text \<open>p\<close> that is not empty.\<close>

fun remove_text :: "string \<Rightarrow> nat \<Rightarrow> string \<Rightarrow> string" where
  "remove_text p skip [] = []"
| "remove_text p (Suc k) (c # s) = remove_text p k s"
| "remove_text p 0 (c # s) =
     (if take (length p) (c # s) = p then remove_text p (length p - 1) s else c # remove_text p 0 s)"

definition key_size :: "string \<Rightarrow> int result" where
  "key_size key = stem_size (remove_text ''.json'' 0 (last (split_at (CHR ''/'') key)))"

definition s3_list_prefix :: "'c s3_store \<Rightarrow> string" where
  "s3_list_prefix st = s3_prefix st @ ''/checkpoint-''"

definition s3_tree_sizes :: "'c s3_store \<Rightarrow> int list result" where
  "s3_tree_sizes st =
     sbind (sizes_of key_size
       (list_objects_v2 (s3_api st) (s3_bucket st) (s3_list_prefix st) (s3_service st)))
       (\<lambda>ns. Inr (sort ns))"

text \<open>The documented behaviour of the service: \<open>objects\<close> is the current version under each key.\<close>

definition max_keys :: nat where
  "max_keys = 1000"

definition listing :: "(string \<times> string \<Rightarrow> 'v option) \<Rightarrow> string \<Rightarrow> string \<Rightarrow> string list" where
  "listing objects bucket p = take max_keys
     (sorted_list_of_set {k. (bucket, k) \<in> dom objects \<and> take (length p) k = p})"

definition s3_laws ::
  "'c s3_client \<Rightarrow> ('c \<Rightarrow> string \<times> string \<Rightarrow> (string \<times> s3_lock option) option) \<Rightarrow> bool"
where
  "s3_laws client objects \<longleftrightarrow>
     (\<forall>b k v l c. objects (put_object client b k v l c) = (objects c)((b, k) \<mapsto> (v, l)))
     \<and> (\<forall>b k c. get_object client b k c = (case objects c (b, k) of
          None \<Rightarrow> Inl KeyError | Some (v, l) \<Rightarrow> Inr v))
     \<and> (\<forall>b p c. list_objects_v2 client b p c = listing (objects c) b p)"

section \<open>Names are read back\<close>

lemma pad_left_digits: "c \<in> set (pad_left w (digits_of n)) \<Longrightarrow> is_digit c"
  using digits_of_all [of c n] by (auto simp: pad_left_def is_digit_def)

lemma nat_of_zeros: "nat_of_digits 0 (replicate k (CHR ''0'')) = 0"
proof -
  have "digit_val (CHR ''0'') = Some 0" by code_simp
  then show ?thesis by (induction k) simp_all
qed

lemma nat_of_pad_left: "nat_of_digits 0 (pad_left w (digits_of n)) = n"
  by (simp add: pad_left_def nat_of_digits_append nat_of_zeros)

lemma split_at_first: "sep \<notin> set s \<Longrightarrow> split_at sep (s @ sep # t) = s # split_at sep t"
  by (induction s) auto

lemma fmt012_digits: "0 \<le> n \<Longrightarrow> c \<in> set (fmt012 n) \<Longrightarrow> is_digit c"
  using pad_left_digits by (auto simp: fmt012_def)

lemma fmt012_not_Nil [simp]: "fmt012 n \<noteq> []"
  by (simp add: fmt012_def pad_left_def)

lemma digit_text_fmt012: "0 \<le> n \<Longrightarrow> digit_text (fmt012 n) = Some n"
  using digit_text_digits [OF fmt012_not_Nil, of n] fmt012_digits [of n] nat_of_pad_left [of 12 "nat n"]
  by (simp add: fmt012_def)

lemma stem_size_checkpoint: "0 \<le> n \<Longrightarrow> stem_size (''checkpoint-'' @ fmt012 n) = Inr n"
proof -
  assume n: "0 \<le> n"
  have "split_at (CHR ''-'') (''checkpoint'' @ CHR ''-'' # fmt012 n)
      = ''checkpoint'' # split_at (CHR ''-'') (fmt012 n)"
    by (rule split_at_first) simp
  also have "split_at (CHR ''-'') (fmt012 n) = [fmt012 n]"
    using fmt012_digits [OF n] digit_not by (intro split_at_no_sep) auto
  finally have "split_at (CHR ''-'') (''checkpoint-'' @ fmt012 n) = [''checkpoint'', fmt012 n]" by simp
  with digit_text_fmt012 [OF n] show ?thesis
    unfolding stem_size_def by (simp add: py_index_def py_int_def del: split_at.simps)
qed

lemma checkpoint_name_stem:
  "checkpoint_name n = (''checkpoint-'' @ fmt012 n) @ ''.json''"
  "length (checkpoint_name n) - 5 = length (''checkpoint-'' @ fmt012 n)"
  by (simp_all add: checkpoint_name_def)

lemma stem_of_checkpoint_name:
  "take (length (checkpoint_name n) - 5) (checkpoint_name n) = ''checkpoint-'' @ fmt012 n"
  "drop (length (checkpoint_name n) - 5) (checkpoint_name n) = ''.json''"
proof -
  have "take (length u) (u @ v) = u" "drop (length u) (u @ v) = v" for u v :: string by simp_all
  then show "take (length (checkpoint_name n) - 5) (checkpoint_name n) = ''checkpoint-'' @ fmt012 n"
    "drop (length (checkpoint_name n) - 5) (checkpoint_name n) = ''.json''"
    unfolding checkpoint_name_stem(2) unfolding checkpoint_name_stem(1) by blast+
qed

lemma name_size_checkpoint: "0 \<le> n \<Longrightarrow> name_size (checkpoint_name n) = Inr n"
  unfolding name_size_def stem_of_checkpoint_name by (rule stem_size_checkpoint)

lemma checkpoint_name_inject: "0 \<le> n \<Longrightarrow> 0 \<le> m \<Longrightarrow> checkpoint_name n = checkpoint_name m \<Longrightarrow> n = m"
  using name_size_checkpoint by (metis sum.inject(2))

lemma checkpoint_glob_name: "checkpoint_glob (checkpoint_name n)"
  using stem_of_checkpoint_name(2) [of n] by (simp add: checkpoint_glob_def) (simp add: checkpoint_name_def)

lemma remove_text_none:
  "\<forall>c \<in> set s. c \<noteq> d \<Longrightarrow> remove_text (d # p) 0 (s @ t) = s @ remove_text (d # p) 0 t"
  by (induction s) auto

lemma key_size_checkpoint: "0 \<le> n \<Longrightarrow> key_size (p @ ''/'' @ checkpoint_name n) = Inr n"
proof -
  assume n: "0 \<le> n"
  have no: "CHR ''/'' \<notin> set (checkpoint_name n)" "\<forall>c \<in> set (''checkpoint-'' @ fmt012 n). c \<noteq> CHR ''.''"
    using fmt012_digits [OF n] digit_not by (auto simp: checkpoint_name_def)
  have "last (split_at (CHR ''/'') (p @ ''/'' @ checkpoint_name n)) = checkpoint_name n"
    using split_at_snoc [OF no(1), of p] by simp
  moreover have "remove_text ''.json'' 0 ((''checkpoint-'' @ fmt012 n) @ ''.json'') = ''checkpoint-'' @ fmt012 n"
    by (subst remove_text_none [OF no(2)]) simp
  ultimately show ?thesis
    using stem_size_checkpoint [OF n] by (simp add: key_size_def checkpoint_name_def)
qed

lemma sizes_of_map: "\<forall>n \<in> set ns. f (g n) = Inr n \<Longrightarrow> sizes_of f (map g ns) = Inr ns"
  by (induction ns) simp_all

section \<open>Checkpoints are read back\<close>

definition checkpoint_fields :: "string list" where
  "checkpoint_fields = [''origin'', ''tree_size'', ''root_hash'', ''timestamp'', ''public_key_id'', ''signature'']"

definition storable :: "checkpoint \<Rightarrow> bool" where
  "storable cp \<longleftrightarrow> 0 \<le> cp_tree_size cp \<and> cp_tree_size cp < 10 ^ 12
     \<and> good_extras checkpoint_fields (cp_extra cp)
     \<and> plain (JDict (dump_checkpoint cp)) \<and> text_json (JDict (dump_checkpoint cp))"

lemma read_checkpoint:
  assumes "storable cp" "sane L"
  shows "sbind (loads (dumps_in L 0 (JDict (dump_checkpoint cp)))) validate_checkpoint = Inr cp"
  using assms loads_dumps_in [of L "JDict (dump_checkpoint cp)" 0] load_dump_checkpoint [of cp]
  by (simp add: storable_def fits_def validate_checkpoint_def checkpoint_fields_def)

section \<open>Both stores keep the contract\<close>

definition local_keeps :: "directory \<Rightarrow> (int \<Rightarrow> checkpoint option) \<Rightarrow> bool" where
  "local_keeps dir m \<longleftrightarrow> finite (dom m)
     \<and> (\<forall>n cp. m n = Some cp \<longrightarrow> storable cp \<and> cp_tree_size cp = n
          \<and> map_of dir (checkpoint_name n) = Some (dumps_in (indented 2) 0 (JDict (dump_checkpoint cp))))
     \<and> (\<forall>name \<in> fst ` set dir. checkpoint_glob name \<longrightarrow> (\<exists>n \<in> dom m. name = checkpoint_name n))"

lemma keeps_size: "local_keeps dir m \<Longrightarrow> n \<in> dom m \<Longrightarrow> 0 \<le> n"
  by (auto simp: local_keeps_def storable_def)

lemma local_put_keeps:
  assumes "local_keeps dir m" "storable cp"
  shows "local_keeps (local_put cp dir) (m(cp_tree_size cp \<mapsto> cp))"
proof -
  let ?n = "cp_tree_size cp"
  have n: "0 \<le> ?n" using assms(2) by (simp add: storable_def)
  have "map_of (local_put cp dir) (checkpoint_name k) = map_of dir (checkpoint_name k)"
    if "m k = Some c" "k \<noteq> ?n" for k c
  proof -
    have "0 \<le> k" using assms(1) that(1) keeps_size by blast
    then have "checkpoint_name k \<noteq> checkpoint_name ?n" using checkpoint_name_inject n that(2) by blast
    then show ?thesis by (simp add: local_put_def dput_def update_conv)
  qed
  moreover have "fst ` set (local_put cp dir) = insert (checkpoint_name ?n) (fst ` set dir)"
    by (simp add: local_put_def dput_def dom_update)
  moreover have "map_of (local_put cp dir) (checkpoint_name ?n)
      = Some (dumps_in (indented 2) 0 (JDict (dump_checkpoint cp)))"
    by (simp add: local_put_def dput_def update_conv)
  ultimately show ?thesis using assms unfolding local_keeps_def by auto
qed

lemma local_get_keeps:
  assumes "local_keeps dir m" "0 \<le> n"
  shows "local_get n dir = Inr (m n)"
proof (cases "m n")
  case None
  have "checkpoint_name n \<notin> fst ` set dir"
  proof
    assume "checkpoint_name n \<in> fst ` set dir"
    with assms(1) checkpoint_glob_name obtain k where "k \<in> dom m" "checkpoint_name n = checkpoint_name k"
      unfolding local_keeps_def by blast
    moreover from this(1) have "0 \<le> k" by (rule keeps_size [OF assms(1)])
    ultimately have "n = k" using assms(2) checkpoint_name_inject by blast
    with \<open>k \<in> dom m\<close> None show False by auto
  qed
  then have "map_of dir (checkpoint_name n) = None" by (simp add: map_of_eq_None_iff)
  with None show ?thesis by (simp add: local_get_def)
next
  case (Some cp)
  with assms(1) have "storable cp"
    "map_of dir (checkpoint_name n) = Some (dumps_in (indented 2) 0 (JDict (dump_checkpoint cp)))"
    by (auto simp: local_keeps_def)
  with Some read_checkpoint [of cp "indented 2"] show ?thesis
    by (auto simp: local_get_def sbind_Inr_conv)
qed

lemma local_sizes_keep:
  assumes "local_keeps dir m"
  shows "\<exists>ns. local_tree_sizes dir = Inr ns \<and> sorted ns \<and> set ns = dom m"
proof -
  let ?names = "filter checkpoint_glob (map fst dir)"
  have names: "\<forall>name \<in> set ?names. \<exists>n \<in> dom m. name = checkpoint_name n"
    using assms by (auto simp: local_keeps_def)
  then obtain f where f: "\<forall>name \<in> set ?names. f name \<in> dom m \<and> name = checkpoint_name (f name)" by metis
  then have eq: "?names = map checkpoint_name (map f ?names)"
    by (metis (no_types, lifting) map_idI map_map comp_apply)
  have rd: "\<forall>n \<in> set (map f ?names). name_size (checkpoint_name n) = Inr n"
  proof
    fix n assume "n \<in> set (map f ?names)"
    with f have "n \<in> dom m" by (metis imageE set_map)
    then show "name_size (checkpoint_name n) = Inr n"
      using keeps_size [OF assms] name_size_checkpoint by blast
  qed
  have sizes: "sizes_of name_size ?names = Inr (map f ?names)"
    using sizes_of_map [OF rd] by (simp only: eq [symmetric])
  have "n \<in> set (map f ?names)" if "n \<in> dom m" for n
  proof -
    have "map_of dir (checkpoint_name n) \<noteq> None" using that assms by (auto simp: local_keeps_def)
    then have "checkpoint_name n \<in> set ?names"
      by (simp add: map_of_eq_None_iff checkpoint_glob_name)
    with f that keeps_size [OF assms] checkpoint_name_inject show ?thesis
      by (metis image_eqI image_set)
  qed
  then have "set (map f ?names) = dom m" using f by auto
  with sizes show ?thesis by (simp add: local_tree_sizes_def)
qed

interpretation local: checkpoint_store local_put local_get local_tree_sizes local_keeps storable "\<lambda>m. True"
proof unfold_locales
  fix dir m
  assume "local_keeps dir m"
  then show "finite (dom m) \<and> (\<forall>n \<in> dom m. 0 \<le> n)" using keeps_size by (simp add: local_keeps_def)
qed (rule local_put_keeps local_get_keeps local_sizes_keep; assumption)+

text \<open>The S3 store: \<open>now\<close> is the clock at a put.\<close>

definition s3_after_put :: "int \<Rightarrow> checkpoint \<Rightarrow> 'c s3_store \<Rightarrow> 'c s3_store" where
  "s3_after_put now cp st = (case s3_put now cp st of Inl e \<Rightarrow> st | Inr (key, st') \<Rightarrow> st')"

definition s3_holds ::
  "('c \<Rightarrow> string \<times> string \<Rightarrow> (string \<times> s3_lock option) option) \<Rightarrow> 'c s3_store \<Rightarrow>
    (int \<Rightarrow> checkpoint option) \<Rightarrow> bool"
where
  "s3_holds objects st m \<longleftrightarrow> s3_laws (s3_api st) objects
     \<and> (s3_lock_mode st \<noteq> None \<longrightarrow> s3_retention st \<noteq> None) \<and> finite (dom m)
     \<and> (\<forall>n cp. m n = Some cp \<longrightarrow> storable cp \<and> cp_tree_size cp = n
          \<and> (\<exists>lock. objects (s3_service st) (s3_bucket st, s3_key st n)
               = Some (dumps_in default_layout 0 (JDict (dump_checkpoint cp)), lock)))
     \<and> (\<forall>key. (s3_bucket st, key) \<in> dom (objects (s3_service st)) \<longrightarrow>
          take (length (s3_list_prefix st)) key = s3_list_prefix st \<longrightarrow> (\<exists>n \<in> dom m. key = s3_key st n))"

definition s3_keeps :: "'c s3_store \<Rightarrow> (int \<Rightarrow> checkpoint option) \<Rightarrow> bool" where
  "s3_keeps st m \<longleftrightarrow> (\<exists>objects. s3_holds objects st m)"

definition one_page :: "(int \<Rightarrow> checkpoint option) \<Rightarrow> bool" where
  "one_page m \<longleftrightarrow> card (dom m) \<le> max_keys"

lemma s3_key_prefix: "take (length (s3_list_prefix st)) (s3_key st n) = s3_list_prefix st"
  by (simp add: s3_key_def s3_list_prefix_def checkpoint_name_def)

lemma s3_key_size: "0 \<le> n \<Longrightarrow> key_size (s3_key st n) = Inr n"
  unfolding s3_key_def by (rule key_size_checkpoint)

lemma s3_key_inject: "0 \<le> n \<Longrightarrow> 0 \<le> k \<Longrightarrow> s3_key st n = s3_key st k \<Longrightarrow> n = k"
  using s3_key_size by (metis sum.inject(2))

lemma s3_size: "s3_holds objects st m \<Longrightarrow> n \<in> dom m \<Longrightarrow> 0 \<le> n \<and> n < 10 ^ 12"
  by (auto simp: s3_holds_def storable_def)

lemma s3_put_lock:
  assumes "s3_lock_mode st \<noteq> None \<longrightarrow> s3_retention st \<noteq> None"
  obtains lock where "s3_lock_of st now = Inr lock"
    "s3_after_put now cp st = st\<lparr>s3_service := put_object (s3_api st) (s3_bucket st)
       (s3_key st (cp_tree_size cp)) (dumps_in default_layout 0 (JDict (dump_checkpoint cp))) lock (s3_service st)\<rparr>"
proof -
  obtain lock where "s3_lock_of st now = Inr lock"
    using assms by (cases "s3_lock_mode st"; cases "s3_retention st") (simp_all add: s3_lock_of_def)
  with that show ?thesis by (simp add: s3_after_put_def s3_put_def)
qed

lemma s3_put_holds:
  assumes "s3_holds objects st m" "storable cp"
  shows "s3_holds objects (s3_after_put now cp st) (m(cp_tree_size cp \<mapsto> cp))"
proof -
  let ?n = "cp_tree_size cp" and ?text = "dumps_in default_layout 0 (JDict (dump_checkpoint cp))"
  have n: "0 \<le> ?n" using assms(2) by (simp add: storable_def)
  obtain lock where st: "s3_after_put now cp st = st\<lparr>s3_service := put_object (s3_api st)
      (s3_bucket st) (s3_key st ?n) ?text lock (s3_service st)\<rparr>"
    using assms(1) s3_put_lock unfolding s3_holds_def by metis
  have obj: "objects (s3_service (s3_after_put now cp st))
      = (objects (s3_service st))((s3_bucket st, s3_key st ?n) \<mapsto> (?text, lock))"
    using assms(1) by (simp add: st s3_holds_def s3_laws_def)
  have other: "s3_key st k \<noteq> s3_key st ?n" if "m k = Some c" "k \<noteq> ?n" for k c
    using s3_key_inject n s3_size [OF assms(1)] that by blast
  have keys: "s3_key (s3_after_put now cp st) = s3_key st" "s3_bucket (s3_after_put now cp st) = s3_bucket st"
    "s3_list_prefix (s3_after_put now cp st) = s3_list_prefix st" "s3_api (s3_after_put now cp st) = s3_api st"
    "s3_lock_mode (s3_after_put now cp st) = s3_lock_mode st"
    "s3_retention (s3_after_put now cp st) = s3_retention st"
    by (simp_all add: st s3_key_def s3_list_prefix_def fun_eq_iff)
  show ?thesis
    using assms other unfolding s3_holds_def keys obj by auto
qed

lemma s3_get_holds:
  assumes "s3_holds objects st m" "0 \<le> n"
  shows "s3_get n st = Inr (m n)"
proof (cases "m n")
  case None
  have "(s3_bucket st, s3_key st n) \<notin> dom (objects (s3_service st))"
  proof
    assume "(s3_bucket st, s3_key st n) \<in> dom (objects (s3_service st))"
    with assms(1) s3_key_prefix obtain k where k: "k \<in> dom m" "s3_key st n = s3_key st k"
      unfolding s3_holds_def by blast
    with assms s3_size [OF assms(1) k(1)] have "n = k" using s3_key_inject by blast
    with k None show False by auto
  qed
  then have "objects (s3_service st) (s3_bucket st, s3_key st n) = None" by auto
  with None assms(1) show ?thesis by (simp add: s3_get_def s3_holds_def s3_laws_def)
next
  case (Some cp)
  with assms(1) obtain lock where cp: "storable cp" "objects (s3_service st) (s3_bucket st, s3_key st n)
      = Some (dumps_in default_layout 0 (JDict (dump_checkpoint cp)), lock)"
    unfolding s3_holds_def by blast
  with assms(1) have "get_object (s3_api st) (s3_bucket st) (s3_key st n) (s3_service st)
      = Inr (dumps_in default_layout 0 (JDict (dump_checkpoint cp)))"
    by (simp add: s3_holds_def s3_laws_def)
  with Some read_checkpoint [OF cp(1), of default_layout] show ?thesis
    by (auto simp: s3_get_def sbind_Inr_conv)
qed

text \<open>The keys come in the order of the sizes, so a page holds the smallest sizes.\<close>

lemma pad_left_pad: "int n < 10 ^ w \<Longrightarrow> 0 < w \<Longrightarrow> pad_left w (digits_of n) = pad w (int n)"
proof (induction w arbitrary: n)
  case (Suc w)
  have zeros: "pad k 0 = replicate k (CHR ''0'')" for k
    by (rule nth_equalityI) (simp_all add: pad_def hex_char_def hex_digits_def)
  show ?case
  proof (cases "n < 10")
    case True
    then have "digits_of n = [hex_char n]" by (simp add: digits_of.simps)
    with True show ?thesis by (simp add: pad_left_def pad_Suc zeros)
  next
    case False
    then have "digits_of n = digits_of (n div 10) @ [hex_char (n mod 10)]" by (subst digits_of.simps) simp
    moreover have "0 < w" using Suc.prems(1) False by (cases w) auto
    moreover have "int (n div 10) < 10 ^ w" using Suc.prems(1) by (simp add: zdiv_int div_less_iff_less_mult)
    ultimately show ?thesis using Suc.IH [of "n div 10"]
      by (simp add: pad_left_def pad_Suc zdiv_int nat_mod_distrib)
  qed
qed simp

lemma s3_key_less:
  assumes "0 \<le> a" "a < b" "b < 10 ^ 12"
  shows "s3_key st a < s3_key st b"
proof -
  have "fmt012 a = pad 12 a" "fmt012 b = pad 12 b"
    using assms pad_left_pad [of "nat a" 12] pad_left_pad [of "nat b" 12] by (simp_all add: fmt012_def)
  moreover have "pad 12 a < pad 12 b" using assms by (intro pad_less) simp_all
  ultimately show ?thesis by (simp add: s3_key_def checkpoint_name_def append_less_iff)
qed

lemma sorted_list_of_image:
  assumes "finite A" "\<And>a b. a \<in> A \<Longrightarrow> b \<in> A \<Longrightarrow> a < b \<Longrightarrow> f a < f b"
  shows "sorted_list_of_set (f ` A) = map f (sorted_list_of_set (A :: int set))"
proof (rule sorted_distinct_set_unique)
  let ?as = "sorted_list_of_set A"
  have "sorted_wrt (<) ?as" by simp
  then have "sorted_wrt (\<lambda>x y. f x < f y) ?as"
    by (rule sorted_wrt_mono_rel [rotated]) (use assms in simp)
  then have "sorted_wrt (<) (map f ?as)" by (simp add: sorted_wrt_map)
  then show "sorted (map f ?as)" "distinct (map f ?as)" by (simp_all add: strict_sorted_iff)
qed (use assms(1) in simp_all)

lemma s3_tree_sizes_page:
  assumes "s3_holds objects st m"
  shows "s3_tree_sizes st = Inr (take max_keys (sorted_list_of_set (dom m)))"
proof -
  let ?ns = "sorted_list_of_set (dom m)"
  have fin: "finite (dom m)" using assms by (simp add: s3_holds_def)
  have "{k. (s3_bucket st, k) \<in> dom (objects (s3_service st))
      \<and> take (length (s3_list_prefix st)) k = s3_list_prefix st} = s3_key st ` dom m"
    using assms s3_key_prefix unfolding s3_holds_def by fastforce
  moreover have "sorted_list_of_set (s3_key st ` dom m) = map (s3_key st) ?ns"
    using s3_size [OF assms] fin by (intro sorted_list_of_image s3_key_less) blast+
  ultimately have "list_objects_v2 (s3_api st) (s3_bucket st) (s3_list_prefix st) (s3_service st)
      = map (s3_key st) (take max_keys ?ns)"
    using assms by (simp add: s3_holds_def s3_laws_def listing_def take_map)
  moreover have "\<forall>n \<in> set (take max_keys ?ns). key_size (s3_key st n) = Inr n"
    using s3_size [OF assms] fin s3_key_size by (metis in_set_takeD set_sorted_list_of_set)
  ultimately have "s3_tree_sizes st = Inr (sort (take max_keys ?ns))"
    by (simp add: s3_tree_sizes_def sizes_of_map)
  then show ?thesis by (simp add: sorted_sort_id sorted_wrt_take)
qed

interpretation s3: checkpoint_store "s3_after_put now" s3_get s3_tree_sizes s3_keeps storable one_page
  for now
proof unfold_locales
  fix st :: "'c s3_store" and m n and cp
  show "s3_keeps st m \<Longrightarrow> storable cp \<Longrightarrow> s3_keeps (s3_after_put now cp st) (m(cp_tree_size cp \<mapsto> cp))"
    using s3_put_holds unfolding s3_keeps_def by blast
  show "s3_keeps st m \<Longrightarrow> 0 \<le> n \<Longrightarrow> s3_get n st = Inr (m n)"
    using s3_get_holds unfolding s3_keeps_def by blast
  assume "s3_keeps st m"
  then obtain objects where holds: "s3_holds objects st m" by (auto simp: s3_keeps_def)
  have fin: "finite (dom m)" using holds by (simp add: s3_holds_def)
  with s3_size [OF holds] show "finite (dom m) \<and> (\<forall>n \<in> dom m. 0 \<le> n)" by blast
  assume "one_page m"
  then have "take max_keys (sorted_list_of_set (dom m)) = sorted_list_of_set (dom m)"
    by (simp add: one_page_def)
  with s3_tree_sizes_page [OF holds] fin
  show "\<exists>ns. s3_tree_sizes st = Inr ns \<and> sorted ns \<and> set ns = dom m" by simp
qed

text \<open>Beyond one page the largest sizes are not listed.\<close>

lemma s3_latest_beyond:
  assumes holds: "s3_holds objects st m" and many: "max_keys < card (dom m)"
  obtains n where "latest s3_tree_sizes s3_get st = Inr (m n)" "n \<in> dom m" "n < Max (dom m)"
    "card {k \<in> dom m. k \<le> n} = max_keys"
proof -
  let ?ns = "sorted_list_of_set (dom m)" and ?k = "max_keys - 1"
  have fin: "finite (dom m)" using holds by (simp add: s3_holds_def)
  have len: "length ?ns = card (dom m)" and set: "set ?ns = dom m" using fin by simp_all
  have pos: "0 < max_keys" by (simp add: max_keys_def)
  have less: "?ns ! a < ?ns ! b" if "a < b" "b < card (dom m)" for a b
    using that len by (intro sorted_wrt_nth_less [of "(<)"]) simp_all
  have iff: "?ns ! a \<le> ?ns ! b \<longleftrightarrow> a \<le> b" if "a < card (dom m)" "b < card (dom m)" for a b
    using less [of a b] less [of b a] that by (cases a b rule: linorder_cases) auto
  let ?n = "?ns ! ?k"
  have page: "{k \<in> dom m. k \<le> ?n} = set (take max_keys ?ns)"
  proof
    show "{k \<in> dom m. k \<le> ?n} \<subseteq> set (take max_keys ?ns)"
    proof
      fix x assume "x \<in> {k \<in> dom m. k \<le> ?n}"
      then have x: "x \<in> set ?ns" "x \<le> ?n" using set by auto
      then obtain j where j: "j < card (dom m)" "x = ?ns ! j"
        unfolding in_set_conv_nth len by blast
      moreover have "j \<le> ?k" using x(2) j iff [OF j(1), of ?k] many pos by simp
      then have "j < max_keys" using pos by simp
      ultimately show "x \<in> set (take max_keys ?ns)"
        by (simp add: in_set_conv_nth len) (metis nth_take)
    qed
    show "set (take max_keys ?ns) \<subseteq> {k \<in> dom m. k \<le> ?n}"
    proof
      fix x assume "x \<in> set (take max_keys ?ns)"
      then obtain j where j: "j < max_keys" "x = ?ns ! j"
        by (auto simp: in_set_conv_nth len)
      with many pos iff [of j ?k] have "x \<le> ?n" by simp
      moreover have "x \<in> dom m" using j many len set nth_mem [of j ?ns] by simp
      ultimately show "x \<in> {k \<in> dom m. k \<le> ?n}" by simp
    qed
  qed
  have n: "?n \<in> set (take max_keys ?ns)"
    using many pos len by (auto simp: in_set_conv_nth intro: exI [of _ ?k])
  with page have dom: "?n \<in> dom m" by blast
  have "Max (set (take max_keys ?ns)) = ?n" using n page by (intro Max_eqI) auto
  moreover have "s3_get ?n st = Inr (m ?n)"
    using s3_get_holds [OF holds] s3_size [OF holds dom] by blast
  moreover from n have "take max_keys ?ns \<noteq> []" by (metis list.set(1) empty_iff)
  ultimately have "latest s3_tree_sizes s3_get st = Inr (m ?n)"
    by (simp add: latest_def s3_tree_sizes_page [OF holds])
  moreover have "?n < Max (dom m)"
  proof -
    have "?n < ?ns ! max_keys" using less [of ?k max_keys] many pos by simp
    moreover have "?ns ! max_keys \<in> dom m" using many len set nth_mem [of max_keys ?ns] by simp
    ultimately show ?thesis using fin Max_ge less_le_trans by blast
  qed
  moreover have "card {k \<in> dom m. k \<le> ?n} = max_keys"
    unfolding page using many len by (simp add: distinct_card)
  ultimately show ?thesis using that dom by blast
qed

end
