(* ===== verification/Anchor.thy ===== *)
theory Anchor imports Checkpoint_Store Witness begin

text \<open>
  \<open>src/src/openwright/anchor.py\<close>: the append-only anchor of published checkpoints, in memory or in a
  file, and \<open>detect_equivocation\<close>.  Published checkpoints are untyped JSON values; the supplied
  consistency proofs are a dictionary from pairs of sizes to lists of hex texts.  A published size is a
  JSON integer; the texts and floats that pydantic would convert to one (\<open>'5'\<close>, \<open>5.0\<close>) are validation
  errors here, so that such a head counts as not validly signed.
\<close>

section \<open>The anchor\<close>

datatype anchor = Anchor_Memory "json list" | Anchor_File string

definition publish :: "checkpoint \<Rightarrow> anchor \<Rightarrow> anchor" where
  "publish cp a = (case a of
     Anchor_Memory cps \<Rightarrow> Anchor_Memory (cps @ [JDict (dump_checkpoint cp)])
   | Anchor_File text \<Rightarrow>
       Anchor_File (text @ dumps_in compact_ascii 0 (JDict (dump_checkpoint cp)) @ [newline]))"

definition anchor_checkpoints :: "anchor \<Rightarrow> json list result" where
  "anchor_checkpoints a = (case a of
     Anchor_Memory cps \<Rightarrow> Inr cps
   | Anchor_File text \<Rightarrow> load_lines (file_lines (universal_newlines text)))"

section \<open>Detection\<close>

datatype equivocation_reason = Same_Size_Different_Roots | History_Rewritten

record equivocation_proof =
  eq_reason :: equivocation_reason
  eq_tree_size :: int
  eq_checkpoint_a :: json
  eq_checkpoint_b :: json

definition is_validly_signed :: "ed_check \<Rightarrow> bytes \<Rightarrow> json \<Rightarrow> bool" where
  "is_validly_signed ed pub v = caught (sbind (validate_checkpoint v) (\<lambda>cp. cp_verify ed cp pub))"

text \<open>The first loop: the checkpoints by size, or two that fork.\<close>

fun group_by_size ::
  "json list \<Rightarrow> (int \<times> json) list \<Rightarrow> (equivocation_proof + (int \<times> json) list) result"
where
  "group_by_size [] by_size = Inr (Inr by_size)"
| "group_by_size (cp # cps) by_size =
     sbind (item_at cp ''tree_size'') (\<lambda>n. sbind (py_int n) (\<lambda>sz.
       case map_of by_size sz of
         None \<Rightarrow> group_by_size cps (AList.update sz cp by_size)
       | Some prev \<Rightarrow>
           sbind (item_at prev ''root_hash'') (\<lambda>a. sbind (item_at cp ''root_hash'') (\<lambda>b.
             if \<not> py_eq a b
             then Inr (Inl \<lparr>eq_reason = Same_Size_Different_Roots, eq_tree_size = sz,
               eq_checkpoint_a = prev, eq_checkpoint_b = cp\<rparr>)
             else group_by_size cps (AList.update sz cp by_size)))))"

text \<open>The second loop: a supplied proof between two of them that fails.\<close>

type_synonym size_proofs = "((int \<times> int) \<times> string list) list"

fun check_proofs :: "(int \<times> json) list \<Rightarrow> size_proofs \<Rightarrow> equivocation_proof option result" where
  "check_proofs by_size [] = Inr None"
| "check_proofs by_size (((m, n), proof) # rest) =
     (case (map_of by_size m, map_of by_size n) of
        (Some a, Some b) \<Rightarrow>
          (if n \<le> m then check_proofs by_size rest
           else
             sbind (item_at a ''root_hash'') (\<lambda>ra. sbind (fromhex_value ra) (\<lambda>ra.
             sbind (item_at b ''root_hash'') (\<lambda>rb. sbind (fromhex_value rb) (\<lambda>rb.
             sbind (map_result fromhex proof) (\<lambda>proof.
               if \<not> verify_consistency m n ra rb proof
               then Inr (Some \<lparr>eq_reason = History_Rewritten, eq_tree_size = n,
                 eq_checkpoint_a = a, eq_checkpoint_b = b\<rparr>)
               else check_proofs by_size rest))))))
      | _ \<Rightarrow> check_proofs by_size rest)"

definition detect_equivocation ::
  "ed_check \<Rightarrow> json list \<Rightarrow> bytes \<Rightarrow> size_proofs \<Rightarrow> equivocation_proof option result"
where
  "detect_equivocation ed checkpoints pub consistency_proofs =
     sbind (group_by_size (filter (is_validly_signed ed pub) checkpoints) []) (\<lambda>r. case r of
       Inl p \<Rightarrow> Inr (Some p)
     | Inr by_size \<Rightarrow> check_proofs by_size consistency_proofs)"

section \<open>What is published is read back\<close>

lemma escape_points_printable: "printable (escape_points k s)"
proof -
  have "printable (escape_point n)" for n
    using esc_char_printable hex_char_printable
    by (auto simp: escape_point_def unicode_escape_def printable_Cons)
  then have "printable (concat (map escape_point ns))" for ns by (induction ns) simp_all
  then show ?thesis by (simp add: escape_points_eq)
qed

lemma print_str_printable: "printable (print_str compact_ascii s)"
  using escape_points_printable by (simp add: print_str_def compact_ascii_def printable_Cons quote_char_def)

lemma compact_printable:
  "plain j \<Longrightarrow> printable (dumps_in compact_ascii n j)"
  "\<forall>x \<in> set xs. plain x \<Longrightarrow> printable (dump_items_in compact_ascii n xs)"
  "\<forall>kv \<in> set kvs. plain (snd kv) \<Longrightarrow>
    printable (dump_members_in compact_ascii n kvs)"
proof (induction compact_ascii n j and compact_ascii n xs and compact_ascii n kvs
    rule: dumps_in_dump_items_in_dump_members_in.induct)
  case (3 n i)
  then show ?case by (simp add: str_of_int_def digits_printable printable_Cons)
next
  case (5 n s)
  then show ?case by (simp add: print_str_printable)
next
  case (9 n k v kvs)
  then have "printable (print_str compact_ascii k)" by (simp add: print_str_printable)
  with 9 show ?case by (auto simp: printable_Cons) (simp_all add: compact_ascii_def)
next
  case (13 n k v kvs)
  then have "printable (print_str compact_ascii k)" by (simp add: print_str_printable)
  with 13 show ?case by (auto simp: printable_Cons) (simp_all add: compact_ascii_def)
qed (auto simp: printable_Cons, simp_all add: compact_ascii_def)

lemma file_lines_bodies:
  "\<forall>b \<in> set bs. printable b \<Longrightarrow>
    file_lines (concat (map (\<lambda>b. b @ [newline]) bs)) = map (\<lambda>b. b @ [newline]) bs"
proof (induction bs)
  case Nil
  show ?case by (subst file_lines.simps) simp
next
  case (Cons b bs)
  then have "newline \<notin> set b" using printable_no_newline by simp
  then have "takeWhile (\<lambda>c. c \<noteq> newline) (b @ newline # s) = b"
    "dropWhile (\<lambda>c. c \<noteq> newline) (b @ newline # s) = newline # s" for s
    by (subst takeWhile_append2 dropWhile_append2; auto)+
  then have "first_line (b @ newline # s) = b @ [newline]" for s by (simp add: first_line_def)
  with Cons show ?case by (subst file_lines.simps) simp
qed

lemma universal_newlines_bodies:
  "\<forall>b \<in> set bs. printable b \<Longrightarrow>
    universal_newlines (concat (map (\<lambda>b. b @ [newline]) bs)) = concat (map (\<lambda>b. b @ [newline]) bs)"
proof -
  have no_cr: "CHR 0x0D \<notin> set s \<Longrightarrow> translate_newlines False s = s" for s
    by (induction s) auto
  have "\<forall>b \<in> set bs. printable b \<Longrightarrow> CHR 0x0D \<notin> set (concat (map (\<lambda>b. b @ [newline]) bs))"
    using printable_no_newline by (induction bs) (auto simp: newline_def)
  with no_cr show "\<forall>b \<in> set bs. printable b \<Longrightarrow> ?thesis" by (simp add: universal_newlines_def)
qed

definition compact_line :: "checkpoint \<Rightarrow> string" where
  "compact_line cp = dumps_in compact_ascii 0 (JDict (dump_checkpoint cp))"

lemma compact_line_printable: "storable cp \<Longrightarrow> printable (compact_line cp)"
  unfolding compact_line_def storable_def by (intro compact_printable(1)) simp_all

lemma compact_line_loads:
  assumes "storable cp"
  shows "loads (compact_line cp @ [newline]) = Inr (JDict (dump_checkpoint cp))"
    "\<not> blank (compact_line cp @ [newline])"
proof -
  show "loads (compact_line cp @ [newline]) = Inr (JDict (dump_checkpoint cp))"
    using assms unfolding compact_line_def newline_def
    by (intro loads_dumps_in_line) (simp_all add: fits_def storable_def)
  show "\<not> blank (compact_line cp @ [newline])"
    by (simp add: compact_line_def dump_checkpoint_def blank_def is_space_def)
qed

definition anchor_keeps :: "anchor \<Rightarrow> checkpoint list \<Rightarrow> bool" where
  "anchor_keeps a cps \<longleftrightarrow> list_all storable cps \<and> (case a of
     Anchor_Memory vs \<Rightarrow> vs = map (\<lambda>cp. JDict (dump_checkpoint cp)) cps
   | Anchor_File text \<Rightarrow> text = concat (map (\<lambda>b. b @ [newline]) (map compact_line cps)))"

lemma anchor_keeps_new: "anchor_keeps (Anchor_Memory []) []" "anchor_keeps (Anchor_File []) []"
  by (simp_all add: anchor_keeps_def)

lemma publish_keeps: "anchor_keeps a cps \<Longrightarrow> storable cp \<Longrightarrow> anchor_keeps (publish cp a) (cps @ [cp])"
  by (cases a) (simp_all add: anchor_keeps_def publish_def compact_line_def)

lemma anchor_reads:
  assumes "anchor_keeps a cps"
  shows "anchor_checkpoints a = Inr (map (\<lambda>cp. JDict (dump_checkpoint cp)) cps)"
proof (cases a)
  case (Anchor_File content)
  let ?bs = "map compact_line cps"
  have ok: "list_all storable cps" using assms by (simp add: anchor_keeps_def)
  then have "\<forall>b \<in> set ?bs. printable b" using compact_line_printable by (auto simp: list_all_iff)
  then have "anchor_checkpoints a = load_lines (map (\<lambda>b. b @ [newline]) ?bs)"
    using assms Anchor_File file_lines_bodies [of ?bs] universal_newlines_bodies [of ?bs]
    unfolding anchor_keeps_def anchor_checkpoints_def by (simp only: anchor.case)
  also have "\<dots> = Inr (map (\<lambda>cp. JDict (dump_checkpoint cp)) cps)"
    using ok by (induction cps) (simp_all add: compact_line_loads)
  finally show ?thesis .
qed (use assms in \<open>simp add: anchor_keeps_def anchor_checkpoints_def\<close>)

section \<open>What detection decides\<close>

lemma fromhex_list_error: "map_result fromhex hs = Inl e \<Longrightarrow> e = ValueError"
  by (induction hs) (auto simp: sbind_Inl_conv dest: fromhex_error)

definition signed_as :: "ed_check \<Rightarrow> bytes \<Rightarrow> json \<Rightarrow> checkpoint \<Rightarrow> bool" where
  "signed_as ed pub v cp \<longleftrightarrow> validate_checkpoint v = Inr cp \<and> cp_verify ed cp pub = Inr True"

lemma is_validly_signed_conv: "is_validly_signed ed pub v \<longleftrightarrow> (\<exists>cp. signed_as ed pub v cp)"
  by (cases "validate_checkpoint v"; cases "sbind (validate_checkpoint v) (\<lambda>cp. cp_verify ed cp pub)")
    (auto simp: is_validly_signed_def caught_def signed_as_def)

lemma signed_as_unique: "signed_as ed pub v cp \<Longrightarrow> signed_as ed pub v cp' \<Longrightarrow> cp = cp'"
  by (simp add: signed_as_def)

lemma signed_fields:
  assumes "signed_as ed pub v cp"
  shows "item_at v ''tree_size'' = Inr (JInt (cp_tree_size cp))"
    "item_at v ''root_hash'' = Inr (JStr (cp_root_hash cp))"
  using assms
  by (auto simp: signed_as_def validate_checkpoint_def load_checkpoint_def sbind_Inr_conv get_str_def
      item_at_def split: pyv.splits option.splits)

text \<open>The table of the first loop: every checkpoint seen agrees with the entry of its size.\<close>

definition table_of :: "ed_check \<Rightarrow> bytes \<Rightarrow> json set \<Rightarrow> (int \<times> json) list \<Rightarrow> bool" where
  "table_of ed pub seen by_size \<longleftrightarrow>
     (\<forall>k w. map_of by_size k = Some w \<longrightarrow> w \<in> seen \<and> (\<exists>cp. signed_as ed pub w cp \<and> cp_tree_size cp = k))
     \<and> (\<forall>v \<in> seen. \<forall>cp. signed_as ed pub v cp \<longrightarrow> (\<exists>w cp'. map_of by_size (cp_tree_size cp) = Some w
          \<and> signed_as ed pub w cp' \<and> cp_root_hash cp' = cp_root_hash cp))"

definition forks :: "ed_check \<Rightarrow> bytes \<Rightarrow> json set \<Rightarrow> equivocation_proof \<Rightarrow> bool" where
  "forks ed pub seen p \<longleftrightarrow> eq_reason p = Same_Size_Different_Roots
     \<and> {eq_checkpoint_a p, eq_checkpoint_b p} \<subseteq> seen
     \<and> (\<exists>a b. signed_as ed pub (eq_checkpoint_a p) a \<and> signed_as ed pub (eq_checkpoint_b p) b
          \<and> cp_tree_size a = eq_tree_size p \<and> cp_tree_size b = eq_tree_size p
          \<and> cp_root_hash a \<noteq> cp_root_hash b)"

lemma groups_insert:
  assumes "table_of ed pub seen by_size" "signed_as ed pub v cp"
    and "\<And>w cp'. map_of by_size (cp_tree_size cp) = Some w \<Longrightarrow> signed_as ed pub w cp' \<Longrightarrow>
      cp_root_hash cp' = cp_root_hash cp"
  shows "table_of ed pub (insert v seen) (AList.update (cp_tree_size cp) v by_size)"
proof -
  have "\<exists>w cp''. map_of (AList.update (cp_tree_size cp) v by_size) (cp_tree_size cp') = Some w
      \<and> signed_as ed pub w cp'' \<and> cp_root_hash cp'' = cp_root_hash cp'"
    if "u \<in> insert v seen" "signed_as ed pub u cp'" for u cp'
  proof (cases "cp_tree_size cp' = cp_tree_size cp")
    case True
    have "cp_root_hash cp = cp_root_hash cp'"
    proof (cases "u = v")
      case True
      with that(2) assms(2) signed_as_unique show ?thesis by blast
    next
      case False
      with that(1) have "u \<in> seen" by simp
      with assms(1) that(2) True obtain w c where "map_of by_size (cp_tree_size cp) = Some w"
        "signed_as ed pub w c" "cp_root_hash c = cp_root_hash cp'"
        unfolding table_of_def by metis
      with assms(3) show ?thesis by metis
    qed
    with True assms(2) show ?thesis by (simp add: update_conv) blast
  next
    case False
    then have "u \<noteq> v" using that(2) assms(2) signed_as_unique by blast
    with that assms(1) False show ?thesis unfolding table_of_def by (simp add: update_conv)
  qed
  with assms(1,2) show ?thesis unfolding table_of_def by (auto simp: update_conv)
qed

lemma group_by_size_decides:
  assumes "\<forall>v \<in> set cps. is_validly_signed ed pub v" "table_of ed pub seen by_size"
  shows "case group_by_size cps by_size of
      Inl e \<Rightarrow> False
    | Inr (Inl p) \<Rightarrow> forks ed pub (seen \<union> set cps) p
    | Inr (Inr by_size') \<Rightarrow> table_of ed pub (seen \<union> set cps) by_size'"
  using assms
proof (induction cps arbitrary: seen by_size)
  case (Cons v cps)
  then obtain cp where cp: "signed_as ed pub v cp" by (auto simp: is_validly_signed_conv)
  have rest: "\<forall>v \<in> set cps. is_validly_signed ed pub v" using Cons.prems(1) by simp
  have more: "insert v seen \<union> set cps = seen \<union> set (v # cps)" by auto
  let ?n = "cp_tree_size cp"
  note fields = signed_fields [OF cp]
  show ?case
  proof (cases "map_of by_size ?n")
    case None
    have "table_of ed pub (insert v seen) (AList.update ?n v by_size)"
      by (rule groups_insert [OF Cons.prems(2) cp]) (simp add: None)
    moreover have "group_by_size (v # cps) by_size = group_by_size cps (AList.update ?n v by_size)"
      by (simp add: fields None py_int_def)
    ultimately show ?thesis using Cons.IH [OF rest] unfolding more [symmetric] by metis
  next
    case (Some w)
    with Cons.prems(2) obtain c where w: "w \<in> seen" "signed_as ed pub w c" "cp_tree_size c = ?n"
      unfolding table_of_def by blast
    show ?thesis
    proof (cases "cp_root_hash c = cp_root_hash cp")
      case True
      have "table_of ed pub (insert v seen) (AList.update ?n v by_size)"
      proof (rule groups_insert [OF Cons.prems(2) cp])
        fix u c'
        assume "map_of by_size ?n = Some u" "signed_as ed pub u c'"
        then have "c' = c" using Some w(2) signed_as_unique by simp
        with True show "cp_root_hash c' = cp_root_hash cp" by simp
      qed
      moreover have "group_by_size (v # cps) by_size = group_by_size cps (AList.update ?n v by_size)"
        by (simp add: fields signed_fields [OF w(2)] Some True py_int_def del: py_eq.simps)
      ultimately show ?thesis using Cons.IH [OF rest] unfolding more [symmetric] by metis
    next
      case False
      then have "forks ed pub (seen \<union> set (v # cps)) \<lparr>eq_reason = Same_Size_Different_Roots,
          eq_tree_size = ?n, eq_checkpoint_a = w, eq_checkpoint_b = v\<rparr>"
        using w cp by (auto simp: forks_def)
      moreover have "group_by_size (v # cps) by_size = Inr (Inl \<lparr>eq_reason = Same_Size_Different_Roots,
          eq_tree_size = ?n, eq_checkpoint_a = w, eq_checkpoint_b = v\<rparr>)"
        using False by (simp add: fields signed_fields [OF w(2)] Some py_int_def del: py_eq.simps)
      ultimately show ?thesis by (simp only: sum.case)
    qed
  qed
qed simp

text \<open>A supplied proof between two checkpoints verifies.\<close>

definition proof_verifies :: "int \<Rightarrow> int \<Rightarrow> checkpoint \<Rightarrow> checkpoint \<Rightarrow> string list \<Rightarrow> bool" where
  "proof_verifies m n a b proof_hex \<longleftrightarrow> (\<exists>ra rb proof. fromhex (cp_root_hash a) = Inr ra
     \<and> fromhex (cp_root_hash b) = Inr rb \<and> map_result fromhex proof_hex = Inr proof
     \<and> verify_consistency m n ra rb proof)"

definition rewritten :: "ed_check \<Rightarrow> bytes \<Rightarrow> json set \<Rightarrow> size_proofs \<Rightarrow> equivocation_proof \<Rightarrow> bool" where
  "rewritten ed pub seen proofs p \<longleftrightarrow> eq_reason p = History_Rewritten
     \<and> {eq_checkpoint_a p, eq_checkpoint_b p} \<subseteq> seen
     \<and> (\<exists>a b proof. signed_as ed pub (eq_checkpoint_a p) a \<and> signed_as ed pub (eq_checkpoint_b p) b
          \<and> cp_tree_size a < cp_tree_size b \<and> cp_tree_size b = eq_tree_size p
          \<and> ((cp_tree_size a, cp_tree_size b), proof) \<in> set proofs
          \<and> \<not> proof_verifies (cp_tree_size a) (cp_tree_size b) a b proof)"

definition all_proofs_verify :: "ed_check \<Rightarrow> bytes \<Rightarrow> (int \<times> json) list \<Rightarrow> size_proofs \<Rightarrow> bool" where
  "all_proofs_verify ed pub by_size proofs \<longleftrightarrow> (\<forall>m n proof a b v w. ((m, n), proof) \<in> set proofs \<longrightarrow>
     map_of by_size m = Some v \<longrightarrow> map_of by_size n = Some w \<longrightarrow> signed_as ed pub v a \<longrightarrow>
     signed_as ed pub w b \<longrightarrow> m < n \<longrightarrow> proof_verifies m n a b proof)"

lemma check_proofs_decides:
  assumes "table_of ed pub seen by_size"
  shows "case check_proofs by_size proofs of
      Inl e \<Rightarrow> e = ValueError \<and> \<not> all_proofs_verify ed pub by_size proofs
    | Inr None \<Rightarrow> all_proofs_verify ed pub by_size proofs
    | Inr (Some p) \<Rightarrow> rewritten ed pub seen proofs p"
proof (induction proofs)
  case (Cons entry rest)
  obtain m n pf where entry: "entry = ((m, n), pf)" by (cases entry) auto
  have skip: ?case if "check_proofs by_size (entry # rest) = check_proofs by_size rest"
    "all_proofs_verify ed pub by_size [entry]"
    using Cons.IH that
    by (auto simp: all_proofs_verify_def rewritten_def split: sum.splits option.splits)
  show ?case
  proof (cases "\<exists>v w. map_of by_size m = Some v \<and> map_of by_size n = Some w \<and> m < n")
    case False
    then show ?thesis
      by (intro skip) (auto simp: entry all_proofs_verify_def split: option.splits)
  next
    case True
    then obtain v w where vw: "map_of by_size m = Some v" "map_of by_size n = Some w" "m < n" by blast
    with assms obtain a b where ab: "v \<in> seen" "signed_as ed pub v a" "cp_tree_size a = m"
      "w \<in> seen" "signed_as ed pub w b" "cp_tree_size b = n"
      unfolding table_of_def by blast
    let ?p = "\<lparr>eq_reason = History_Rewritten, eq_tree_size = n, eq_checkpoint_a = v, eq_checkpoint_b = w\<rparr>"
    have eq: "check_proofs by_size (entry # rest) =
        sbind (fromhex (cp_root_hash a)) (\<lambda>ra. sbind (fromhex (cp_root_hash b)) (\<lambda>rb.
        sbind (map_result fromhex pf) (\<lambda>pr.
          if \<not> verify_consistency m n ra rb pr then Inr (Some ?p) else check_proofs by_size rest)))"
      using vw(3) by (simp add: entry vw(1,2) signed_fields(2) [OF ab(2)] signed_fields(2) [OF ab(5)]
          fromhex_value_def)
    consider (bad) "\<not> proof_verifies m n a b pf" "check_proofs by_size (entry # rest) = Inl ValueError"
      | (good) "proof_verifies m n a b pf" "check_proofs by_size (entry # rest) = check_proofs by_size rest"
      | (wrong) "\<not> proof_verifies m n a b pf" "check_proofs by_size (entry # rest) = Inr (Some ?p)"
    proof (cases "fromhex (cp_root_hash a)")
      case (Inr ra)
      note ra = this
      show ?thesis
      proof (cases "fromhex (cp_root_hash b)")
        case (Inr rb)
        note rb = this
        show ?thesis
        proof (cases "map_result fromhex pf")
          case (Inr pr)
          show ?thesis
          proof (cases "verify_consistency m n ra rb pr")
            case True
            with ra rb Inr have "proof_verifies m n a b pf" by (auto simp: proof_verifies_def)
            with good True show ?thesis by (simp add: eq ra rb Inr)
          next
            case False
            with ra rb Inr have "\<not> proof_verifies m n a b pf" by (auto simp: proof_verifies_def)
            with wrong False show ?thesis by (simp add: eq ra rb Inr)
          qed
        qed (use bad fromhex_list_error [of pf] in \<open>simp add: proof_verifies_def eq ra rb\<close>)
      qed (use bad fromhex_error [of "cp_root_hash b"] in \<open>simp add: proof_verifies_def eq ra\<close>)
    qed (use bad fromhex_error [of "cp_root_hash a"] in \<open>simp add: proof_verifies_def eq\<close>)
    then show ?thesis
    proof cases
      case good
      show ?thesis
        by (rule skip [OF good(2)])
          (use good(1) vw in \<open>auto simp: entry all_proofs_verify_def
            dest!: signed_as_unique [OF ab(2)] signed_as_unique [OF ab(5)]\<close>)
    next
      case wrong
      then have "rewritten ed pub seen (entry # rest) \<lparr>eq_reason = History_Rewritten, eq_tree_size = n,
          eq_checkpoint_a = v, eq_checkpoint_b = w\<rparr>"
        using ab vw(3) by (auto simp: rewritten_def entry)
      with wrong(2) show ?thesis by simp
    next
      case bad
      from bad(1) have "\<not> all_proofs_verify ed pub by_size (entry # rest)"
        using vw ab(2,5) unfolding all_proofs_verify_def entry list.set by blast
      with bad(2) show ?thesis by simp
    qed
  qed
qed (simp add: all_proofs_verify_def)

lemma table_start: "table_of ed pub {} []"
  by (simp add: table_of_def)

definition consistent_heads :: "ed_check \<Rightarrow> bytes \<Rightarrow> json set \<Rightarrow> size_proofs \<Rightarrow> bool" where
  "consistent_heads ed pub seen proofs \<longleftrightarrow> (\<forall>v \<in> seen. \<forall>w \<in> seen. \<forall>a b.
     signed_as ed pub v a \<longrightarrow> signed_as ed pub w b \<longrightarrow>
       (cp_tree_size a = cp_tree_size b \<longrightarrow> cp_root_hash a = cp_root_hash b)
       \<and> (cp_tree_size a < cp_tree_size b \<longrightarrow> (\<forall>proof.
            ((cp_tree_size a, cp_tree_size b), proof) \<in> set proofs \<longrightarrow>
            proof_verifies (cp_tree_size a) (cp_tree_size b) a b proof)))"

lemma table_consistent:
  assumes "table_of ed pub seen by_size" "all_proofs_verify ed pub by_size proofs"
  shows "consistent_heads ed pub seen proofs"
  unfolding consistent_heads_def
proof (intro ballI allI impI)
  fix v w a b
  assume v: "v \<in> seen" "signed_as ed pub v a" and w: "w \<in> seen" "signed_as ed pub w b"
  obtain v' a' where a': "map_of by_size (cp_tree_size a) = Some v'" "signed_as ed pub v' a'"
    "cp_root_hash a' = cp_root_hash a"
    using assms(1) v unfolding table_of_def by metis
  obtain w' b' where b': "map_of by_size (cp_tree_size b) = Some w'" "signed_as ed pub w' b'"
    "cp_root_hash b' = cp_root_hash b"
    using assms(1) w unfolding table_of_def by metis
  show "(cp_tree_size a = cp_tree_size b \<longrightarrow> cp_root_hash a = cp_root_hash b)
     \<and> (cp_tree_size a < cp_tree_size b \<longrightarrow> (\<forall>proof.
          ((cp_tree_size a, cp_tree_size b), proof) \<in> set proofs \<longrightarrow>
          proof_verifies (cp_tree_size a) (cp_tree_size b) a b proof))"
  proof (intro conjI impI allI)
    assume "cp_tree_size a = cp_tree_size b"
    with a' b' signed_as_unique show "cp_root_hash a = cp_root_hash b" by (metis option.inject)
  next
    fix pf
    assume "cp_tree_size a < cp_tree_size b" "((cp_tree_size a, cp_tree_size b), pf) \<in> set proofs"
    with assms(2) a' b' have "proof_verifies (cp_tree_size a) (cp_tree_size b) a' b' pf"
      unfolding all_proofs_verify_def by blast
    with a'(3) b'(3) show "proof_verifies (cp_tree_size a) (cp_tree_size b) a b pf"
      by (simp add: proof_verifies_def)
  qed
qed

lemma table_inconsistent:
  assumes "table_of ed pub seen by_size" "\<not> all_proofs_verify ed pub by_size proofs"
  shows "\<not> consistent_heads ed pub seen proofs"
proof
  assume cons: "consistent_heads ed pub seen proofs"
  from assms(2) obtain m n pf a b v w where entry: "((m, n), pf) \<in> set proofs"
    "map_of by_size m = Some v" "map_of by_size n = Some w" "signed_as ed pub v a"
    "signed_as ed pub w b" "m < n" "\<not> proof_verifies m n a b pf"
    unfolding all_proofs_verify_def by blast
  with assms(1) signed_as_unique have "v \<in> seen" "w \<in> seen" "cp_tree_size a = m" "cp_tree_size b = n"
    unfolding table_of_def by blast+
  with cons entry show False unfolding consistent_heads_def by blast
qed

lemma consistent_mono:
  "consistent_heads ed pub seen proofs \<Longrightarrow> S \<subseteq> seen \<Longrightarrow> consistent_heads ed pub S proofs"
  unfolding consistent_heads_def by blast

lemma detect_decides:
  "case detect_equivocation ed cps pub proofs of
     Inl e \<Rightarrow> e = ValueError \<and> \<not> consistent_heads ed pub (set cps) proofs
   | Inr None \<Rightarrow> consistent_heads ed pub (set cps) proofs
   | Inr (Some p) \<Rightarrow> forks ed pub (set cps) p \<or> rewritten ed pub (set cps) proofs p"
proof -
  let ?valid = "filter (is_validly_signed ed pub) cps"
  have sub: "set ?valid \<subseteq> set cps" by auto
  have all: "consistent_heads ed pub (set ?valid) proofs \<Longrightarrow> consistent_heads ed pub (set cps) proofs"
    unfolding consistent_heads_def set_filter is_validly_signed_conv by blast
  have group: "case group_by_size ?valid [] of
      Inl e \<Rightarrow> False
    | Inr (Inl p) \<Rightarrow> forks ed pub (set ?valid) p
    | Inr (Inr by_size) \<Rightarrow> table_of ed pub (set ?valid) by_size"
  proof -
    have "\<forall>v \<in> set ?valid. is_validly_signed ed pub v" by simp
    from group_by_size_decides [OF this table_start] show ?thesis by (simp only: Un_empty_left)
  qed
  show ?thesis
  proof (cases "group_by_size ?valid []")
    case (Inr r)
    note r = this
    show ?thesis
    proof (cases r)
      case (Inl p)
      with group r sub have "forks ed pub (set cps) p" by (auto simp: forks_def)
      with r Inl show ?thesis by (simp add: detect_equivocation_def)
    next
      case (Inr by_size)
      with group r have table: "table_of ed pub (set ?valid) by_size" by simp
      have "detect_equivocation ed cps pub proofs = check_proofs by_size proofs"
        using r Inr by (simp add: detect_equivocation_def)
      with check_proofs_decides [OF table, of proofs] table_consistent [OF table, of proofs] sub all
        table_inconsistent [OF table, of proofs] consistent_mono [OF _ sub, of ed pub proofs]
      show ?thesis by (auto simp: rewritten_def split: sum.splits option.splits)
    qed
  qed (use group in simp)
qed

lemma forks_inconsistent: "forks ed pub seen p \<Longrightarrow> \<not> consistent_heads ed pub seen proofs"
proof
  assume "forks ed pub seen p" and cons: "consistent_heads ed pub seen proofs"
  then obtain a b where "signed_as ed pub (eq_checkpoint_a p) a" "signed_as ed pub (eq_checkpoint_b p) b"
    "cp_tree_size a = cp_tree_size b" "cp_root_hash a \<noteq> cp_root_hash b"
    "eq_checkpoint_a p \<in> seen" "eq_checkpoint_b p \<in> seen"
    by (auto simp: forks_def)
  with cons show False unfolding consistent_heads_def by metis
qed

lemma rewritten_inconsistent: "rewritten ed pub seen proofs p \<Longrightarrow> \<not> consistent_heads ed pub seen proofs"
proof
  assume "rewritten ed pub seen proofs p" and cons: "consistent_heads ed pub seen proofs"
  then obtain a b pf where "signed_as ed pub (eq_checkpoint_a p) a" "signed_as ed pub (eq_checkpoint_b p) b"
    "cp_tree_size a < cp_tree_size b" "((cp_tree_size a, cp_tree_size b), pf) \<in> set proofs"
    "\<not> proof_verifies (cp_tree_size a) (cp_tree_size b) a b pf"
    "eq_checkpoint_a p \<in> seen" "eq_checkpoint_b p \<in> seen"
    by (auto simp: rewritten_def)
  with cons show False unfolding consistent_heads_def by metis
qed

lemma detect_None_iff:
  "detect_equivocation ed cps pub proofs = Inr None \<longleftrightarrow> consistent_heads ed pub (set cps) proofs"
proof (cases "detect_equivocation ed cps pub proofs")
  case (Inl e)
  with detect_decides [where ed = ed and cps = cps and pub = pub and proofs = proofs] show ?thesis by simp
next
  case (Inr r)
  with detect_decides [where ed = ed and cps = cps and pub = pub and proofs = proofs] forks_inconsistent rewritten_inconsistent show ?thesis
    by (cases r) auto
qed

end
