(* ===== verification/Scheduler.thy ===== *)
theory Scheduler imports Checkpoint_Store Ledger_Properties begin

text \<open>
  \<open>src/src/openwright/scheduler.py\<close>: periodic signing of tree heads into a checkpoint store.  The
  ledger is given by what its \<open>checkpoint(key)\<close> returns at the time of the tick.  The callback
  cannot change the state of the scheduler, its exceptions are swallowed, and it is not modelled.
  A run interleaves commits with iterations of the loop.
\<close>

section \<open>The scheduler\<close>

record scheduler =
  sch_skip_if_unchanged :: bool
  sch_count :: int
  sch_last_size :: "int option"
  sch_running :: bool

definition new_scheduler :: "bool \<Rightarrow> scheduler" where
  "new_scheduler skip = \<lparr>sch_skip_if_unchanged = skip, sch_count = 0, sch_last_size = None,
     sch_running = False\<rparr>"

definition tick ::
  "(checkpoint \<Rightarrow> 's \<Rightarrow> 's) \<Rightarrow> checkpoint result \<Rightarrow> scheduler \<Rightarrow> 's \<Rightarrow>
    checkpoint option result \<times> scheduler \<times> 's"
where
  "tick put cp s store = (case cp of
     Inl e \<Rightarrow> (Inl e, s, store)
   | Inr cp \<Rightarrow>
       (if sch_skip_if_unchanged s \<and> sch_last_size s = Some (cp_tree_size cp)
        then (Inr None, s, store)
        else (Inr (Some cp),
          s\<lparr>sch_last_size := Some (cp_tree_size cp), sch_count := sch_count s + 1\<rparr>, put cp store)))"

text \<open>One iteration of the loop: a failed tick is logged and retried at the next.\<close>

definition loop_step ::
  "(checkpoint \<Rightarrow> 's \<Rightarrow> 's) \<Rightarrow> checkpoint result \<Rightarrow> scheduler \<Rightarrow> 's \<Rightarrow> scheduler \<times> 's"
where
  "loop_step put cp s store = snd (tick put cp s store)"

definition start_scheduler :: "scheduler \<Rightarrow> scheduler result" where
  "start_scheduler s = (if sch_running s then Inl RuntimeError else Inr (s\<lparr>sch_running := True\<rparr>))"

definition stop_scheduler :: "scheduler \<Rightarrow> scheduler" where
  "stop_scheduler s = s\<lparr>sch_running := False\<rparr>"

section \<open>Runs over a growing ledger\<close>

inductive sched_run ::
  "'b backend_ops \<Rightarrow> (checkpoint \<Rightarrow> 's \<Rightarrow> 's) \<Rightarrow> key_source \<Rightarrow> 'b ledger_state \<Rightarrow> 's \<Rightarrow>
    'b ledger_state \<Rightarrow> scheduler \<Rightarrow> 's \<Rightarrow> bool"
  for ops :: "'b backend_ops" and put :: "checkpoint \<Rightarrow> 's \<Rightarrow> 's" and key :: key_source
    and led0 :: "'b ledger_state" and store0 :: 's
where
  sched_start: "sched_run ops put key led0 store0 led0 (new_scheduler skip) store0"
| sched_commit: "sched_run ops put key led0 store0 led s store \<Longrightarrow> wf_event e \<Longrightarrow>
    commit ops clk e led = Inr (e', led') \<Longrightarrow> sched_run ops put key led0 store0 led' s store"
| sched_beat: "sched_run ops put key led0 store0 led s store \<Longrightarrow> utf8_text clk \<Longrightarrow>
    loop_step put (ledger_checkpoint key clk None led) s store = (s', store') \<Longrightarrow>
    sched_run ops put key led0 store0 led s' store'"

text \<open>A stored head is the signed head of the ledger at the time it had that size.\<close>

definition head_at :: "ed_check \<Rightarrow> key_source \<Rightarrow> bytes list \<Rightarrow> checkpoint \<Rightarrow> bool" where
  "head_at ed key leaves cp \<longleftrightarrow> 0 \<le> cp_tree_size cp \<and> cp_tree_size cp \<le> int (length leaves)
     \<and> cp_root_hash cp = hex (tree_hash (take (nat (cp_tree_size cp)) leaves))
     \<and> cp_verify ed cp (ks_public_key_raw key) = Inr True"

definition sched_ok ::
  "ed_check \<Rightarrow> key_source \<Rightarrow> bytes list \<Rightarrow> scheduler \<Rightarrow> (int \<Rightarrow> checkpoint option) \<Rightarrow> bool"
where
  "sched_ok ed key leaves s m \<longleftrightarrow> (\<forall>cp \<in> ran m. head_at ed key leaves cp) \<and>
     (case sch_last_size s of
        None \<Rightarrow> m = Map.empty
      | Some n \<Rightarrow> n \<in> dom m \<and> (\<forall>k \<in> dom m. k \<le> n))"

lemma head_at_grows:
  assumes "head_at ed key leaves cp" "take (length leaves) leaves' = leaves"
  shows "head_at ed key leaves' cp"
proof -
  have n: "nat (cp_tree_size cp) \<le> length leaves" using assms(1) unfolding head_at_def by linarith
  from arg_cong [OF assms(2), of length] have le: "length leaves \<le> length leaves'" by simp
  have "take (nat (cp_tree_size cp)) leaves' = take (nat (cp_tree_size cp)) leaves"
    using n by (subst assms(2) [symmetric]) (simp only: take_take min.absorb1)
  with assms(1) n le show ?thesis by (simp add: head_at_def)
qed

lemma sched_ok_grows:
  "sched_ok ed key leaves s m \<Longrightarrow> take (length leaves) leaves' = leaves \<Longrightarrow> sched_ok ed key leaves' s m"
  unfolding sched_ok_def using head_at_grows by blast

lemma hex_text: "ascii (hex bs)" "utf8_text (hex bs)"
proof -
  have "\<forall>c \<in> set hex_digits. of_char c < (128::nat)" by code_simp
  with set_hex show *: "ascii (hex bs)" by (auto simp: ascii_def list_all_iff)
  show "utf8_text (hex bs)" by (rule ascii_text [OF *])
qed

lemma signed_text:
  assumes "sign_checkpoint key origin n rt ts = Inr cp"
  shows "utf8_text (cp_public_key_id cp)" "utf8_text (cp_signature cp)"
proof -
  note f = sign_checkpoint_fields [OF assms]
  have "ascii (cp_public_key_id cp)"
    using f(5) hex_text(1) by (auto simp: ks_key_id_def key_id_for_def sha256_hex_def ascii_def
        list_all_iff dest: in_set_takeD)
  then show "utf8_text (cp_public_key_id cp)" by (rule ascii_text)
  obtain data where "cp_signature cp = b64encode (ks_sign key data)" using f(6) by blast
  then have "ascii (cp_signature cp)" using b64encode_ascii by (simp add: ascii_def)
  then show "utf8_text (cp_signature cp)" by (rule ascii_text)
qed

lemma new_head:
  assumes ed: "\<forall>d. ed (ks_public_key_raw key) (ks_sign key d) d = Valid"
    and led: "ledger_ok holds led es" and small: "length (led_leaves led) < 10 ^ 12"
    and asc: "utf8_text (led_origin led)" "utf8_text clk"
  obtains cp where "ledger_checkpoint key clk None led = Inr cp" "head_at ed key (led_leaves led) cp"
    "storable cp" "cp_tree_size cp = int (length (led_leaves led))" "cp_root_hash cp = root_hex led"
proof -
  obtain cp where cp: "ledger_checkpoint key clk None led = Inr cp"
    unfolding ledger_checkpoint_def option.case using sign_checkpoint_total by blast
  note signed = cp [unfolded ledger_checkpoint_def option.case]
  note f = sign_checkpoint_fields [OF signed]
  have size: "cp_tree_size cp = int (length (led_leaves led))" using f(2) by (simp add: ledger_size_def)
  have root: "cp_root_hash cp = hex (tree_hash (led_leaves led))"
    using f(3) ledger_root_ok [OF led] by (simp add: root_hex_def)
  have verify: "cp_verify ed cp (ks_public_key_raw key) = Inr True"
    by (rule sign_checkpoint_verifies [OF _ signed]) (use ed in simp)
  have extra: "cp_extra cp = []" using signed by (auto simp: sign_checkpoint_def sbind_Inr_conv)
  have "utf8_text (root_hex led)" by (simp add: root_hex_def hex_text)
  then have "storable cp"
    using f asc small size root extra hex_text signed_text [OF signed]
    by (simp add: storable_def good_extras_def dump_checkpoint_def)
  with that cp size root verify f(3) show ?thesis by (simp add: head_at_def)
qed

lemma tick_ok:
  assumes keep: "local_keeps dir m" and ok: "sched_ok ed key leaves s m"
    and cp: "head_at ed key leaves cp" "storable cp" "cp_tree_size cp = int (length leaves)"
    and tick: "tick local_put (Inr cp) s dir = (r, s', dir')"
  obtains m' where "local_keeps dir' m'" "sched_ok ed key leaves s' m'" "sch_last_size s' = Some (cp_tree_size cp)"
proof (cases "sch_skip_if_unchanged s \<and> sch_last_size s = Some (cp_tree_size cp)")
  case True
  with tick that keep ok show ?thesis by (simp add: tick_def)
next
  case False
  let ?m = "m(cp_tree_size cp \<mapsto> cp)"
  have st: "s' = s\<lparr>sch_last_size := Some (cp_tree_size cp), sch_count := sch_count s + 1\<rparr>" "dir' = local_put cp dir"
    using tick False by (auto simp: tick_def)
  have "k \<le> cp_tree_size cp" if "k \<in> dom m" for k
  proof -
    from that obtain c where c: "m k = Some c" by blast
    then have "c \<in> ran m" by (rule ranI)
    then have "head_at ed key leaves c" using ok by (simp add: sched_ok_def)
    moreover have "cp_tree_size c = k" using keep c by (simp add: local_keeps_def)
    ultimately show ?thesis using cp(3) by (simp add: head_at_def)
  qed
  then have "sched_ok ed key leaves s' ?m"
    using ok cp(1) unfolding st sched_ok_def by (auto simp: ran_def)
  moreover have "local_keeps dir' ?m" unfolding st by (rule local.put_keeps [OF keep cp(2)])
  ultimately show ?thesis using that st by simp
qed

lemma sched_run_ok:
  assumes ed: "\<forall>d. ed (ks_public_key_raw key) (ks_sign key d) d = Valid"
    and start: "ledger_ok file_holds led0 es0" "utf8_text (led_origin led0)"
  shows "sched_run file_ops local_put key led0 [] led s dir \<Longrightarrow> length (led_leaves led) < 10 ^ 12 \<Longrightarrow>
    \<exists>es m. ledger_ok file_holds led es \<and> led_origin led = led_origin led0 \<and> local_keeps dir m
      \<and> sched_ok ed key (led_leaves led) s m"
proof (induction rule: sched_run.induct)
  case (sched_start skip)
  have "local_keeps [] Map.empty" by (simp add: local_keeps_def)
  moreover have "sched_ok ed key (led_leaves led0) (new_scheduler skip) Map.empty"
    by (simp add: sched_ok_def new_scheduler_def)
  ultimately show ?case using start by blast
next
  case (sched_commit led s dir e clk e' led')
  have grow: "\<exists>h. led_leaves led' = led_leaves led @ [h]"
    using sched_commit.hyps(3) by (auto simp: commit_def install_commit_def Let_def sbind_Inr_conv)
  then have "length (led_leaves led) < 10 ^ 12" using sched_commit.prems by auto
  with sched_commit.IH obtain es m where inv: "ledger_ok file_holds led es" "led_origin led = led_origin led0"
    "local_keeps dir m" "sched_ok ed key (led_leaves led) s m" by blast
  from jsonl.commit_ok [OF inv(1) sched_commit.hyps(2) sched_commit.hyps(3) [unfolded file_ops_def]]
  have "ledger_ok file_holds led' (es @ [e'])" "led_origin led' = led_origin led" by simp_all
  moreover have "sched_ok ed key (led_leaves led') s m"
    using grow by (intro sched_ok_grows [OF inv(4)]) auto
  ultimately show ?case using inv by metis
next
  case (sched_beat led s dir clk s' dir')
  then obtain es m where inv: "ledger_ok file_holds led es" "led_origin led = led_origin led0"
    "local_keeps dir m" "sched_ok ed key (led_leaves led) s m" by blast
  have origin: "utf8_text (led_origin led)" using inv(2) start(2) by simp
  obtain cp where cp: "ledger_checkpoint key clk None led = Inr cp" "head_at ed key (led_leaves led) cp"
    "storable cp" "cp_tree_size cp = int (length (led_leaves led))"
    by (rule new_head [where ed = ed and key = key, OF ed inv(1) sched_beat.prems origin sched_beat.hyps(2)])
  obtain r where "tick local_put (Inr cp) s dir = (r, s', dir')"
    using sched_beat.hyps(3) by (cases "tick local_put (Inr cp) s dir") (auto simp: loop_step_def cp(1))
  then obtain m' where "local_keeps dir' m'" "sched_ok ed key (led_leaves led) s' m'"
    by (rule tick_ok [OF inv(3,4) cp(2,3,4)])
  with inv(1,2) show ?case by blast
qed

end
