(* ===== verification/Attestation_Properties.thy ===== *)
theory Attestation_Properties imports Witness Anchor Scheduler begin

text \<open>
  The properties of witnesses, anchors, checkpoint stores and the scheduler.
\<close>

section \<open>Witnesses\<close>

text \<open>
  C21. A witness endorses one growing history.  Take any sequence of \<open>cosign\<close> calls on a fresh
  witness, accepted or refused, with any producer keys and any proofs.  Every endorsed head was
  validly signed; and if the endorsed roots are the heads of some trees, no two of them of equal
  size with different roots, then the leaves under an earlier head are a prefix of the leaves
  under every later one, or the supplied proofs exhibit a SHA-256 collision.
\<close>

theorem witness_history:
  assumes "witness_run ed (new_witness key) tr w" "heads_of tr Ls" "fork_free tr"
    and "i \<le> j" "j < length tr"
  shows "(\<exists>pub. cp_verify ed (fst (tr ! i)) pub = Inr True)
    \<and> (Ls ! i = take (length (Ls ! i)) (Ls ! j)
       \<or> (\<exists>k. Suc k < length tr \<and> collision (step_transcript tr Ls k)))"
proof -
  from witness_run_chain [OF assms(1)] have chain: "head_chain tr"
    and signed: "\<forall>x \<in> set tr. \<exists>pub. cp_verify ed (fst x) pub = Inr True" by simp_all
  have "tr ! i \<in> set tr" using assms(4,5) by simp
  with signed endorsed_prefixes [OF chain assms(2,3) _ assms(4,5)] show ?thesis by blast
qed

text \<open>Two leaves, then three, with the honest proof between the heads.\<close>

definition signed_head :: "bytes list \<Rightarrow> checkpoint result" where
  "signed_head leaves = sign_checkpoint echo_key ''log'' (int (length leaves)) (hex (tree_hash leaves)) ''t''"

lemma signed_head_obtain:
  obtains cp where "signed_head leaves = Inr cp" "cp_verify echo_check cp [1, 2, 3] = Inr True"
    "cp_tree_size cp = int (length leaves)" "cp_root_hash cp = hex (tree_hash leaves)" "cp_extra cp = []"
proof -
  obtain cp where cp: "signed_head leaves = Inr cp"
    unfolding signed_head_def using sign_checkpoint_total by blast
  have "cp_verify echo_check cp [1, 2, 3] = Inr True"
    using sign_checkpoint_verifies [of echo_check echo_key, OF _ cp [unfolded signed_head_def]]
    by (simp add: echo_check_def echo_key_def)
  moreover have "cp_extra cp = []"
    using cp by (auto simp: signed_head_def sign_checkpoint_def sbind_Inr_conv)
  ultimately show ?thesis using that cp sign_checkpoint_fields [OF cp [unfolded signed_head_def]] by blast
qed

lemma hex_proof_bytes [simp]:
  "map_result fromhex_value (map (\<lambda>h. JStr (hex h)) p) = Inr p"
  "proof_bytes (JList (map (\<lambda>h. JStr (hex h)) p)) = p"
proof -
  show *: "map_result fromhex_value (map (\<lambda>h. JStr (hex h)) p) = Inr p"
    by (induction p) (simp_all add: fromhex_value_def)
  then show "proof_bytes (JList (map (\<lambda>h. JStr (hex h)) p)) = p"
    by (cases p) (simp_all add: proof_bytes_def iterate_def truthy_def)
qed

lemma two_three_proof:
  obtains p where "verify_consistency 2 3 (tree_hash two_leaves) (tree_hash three_leaves) p"
proof -
  have "(0::nat) < 2" "(2::nat) \<le> length three_leaves" by simp_all
  then obtain p where "verify_consistency (int 2) (int (length three_leaves))
      (tree_hash (take 2 three_leaves)) (tree_hash three_leaves) p"
    by (rule generated_consistency_verifies)
  with that show ?thesis by simp
qed

lemma endorse_both:
  obtains a b p w where "witness_run echo_check (new_witness echo_key)
      [(a, JNull), (b, JList (map (\<lambda>h. JStr (hex h)) p))] w"
    "heads_of [(a, JNull), (b, JList (map (\<lambda>h. JStr (hex h)) p))] [two_leaves, three_leaves]"
    "cp_tree_size a = 2" "cp_tree_size b = 3"
proof -
  obtain a where a: "cp_verify echo_check a [1, 2, 3] = Inr True" "cp_tree_size a = 2"
    "cp_root_hash a = hex (tree_hash two_leaves)" by (rule signed_head_obtain [of two_leaves]) simp
  obtain b where b: "cp_verify echo_check b [1, 2, 3] = Inr True" "cp_tree_size b = 3"
    "cp_root_hash b = hex (tree_hash three_leaves)" by (rule signed_head_obtain [of three_leaves]) simp
  obtain p where p: "verify_consistency 2 3 (tree_hash two_leaves) (tree_hash three_leaves) p"
    by (rule two_three_proof)
  let ?p = "JList (map (\<lambda>h. JStr (hex h)) p)" and ?w = "new_witness echo_key"
  have "extends_last (wit_last ?w) a JNull = Inr ()" by (simp add: new_witness_def extends_last_def)
  from cosign_endorses [OF a(1) this]
  obtain c1 where c1: "cosign echo_check a [1, 2, 3] JNull ?w = (Inr c1, ?w\<lparr>wit_last := Some a\<rparr>)"
    by metis
  have "extends_last (wit_last (?w\<lparr>wit_last := Some a\<rparr>)) b ?p = Inr ()"
    using a b p by (cases p) (simp_all add: extends_last_def iterate_def truthy_def fromhex_value_def)
  from cosign_endorses [OF b(1) this]
  obtain c2 w2 where c2: "cosign echo_check b [1, 2, 3] ?p (?w\<lparr>wit_last := Some a\<rparr>) = (Inr c2, w2)"
    by metis
  have "witness_run echo_check ?w [(a, JNull), (b, ?p)] w2"
    using witness_run.endorse [OF witness_run.endorse [OF witness_run.start c1] c2] by simp
  moreover have "heads_of [(a, JNull), (b, ?p)] [two_leaves, three_leaves]"
    using a b by (auto simp: heads_of_def two_leaves_def three_leaves_def less_Suc_eq)
  ultimately show ?thesis using that a b by blast
qed

theorem witness_history_witness:
  "\<exists>tr w. witness_run echo_check (new_witness echo_key) tr w \<and> length tr = 2
    \<and> (two_leaves = take 2 three_leaves
       \<or> (\<exists>k. Suc k < length tr \<and> collision (step_transcript tr [two_leaves, three_leaves] k)))"
proof -
  obtain a b p w where run: "witness_run echo_check (new_witness echo_key)
      [(a, JNull), (b, JList (map (\<lambda>h. JStr (hex h)) p))] w"
    "heads_of [(a, JNull), (b, JList (map (\<lambda>h. JStr (hex h)) p))] [two_leaves, three_leaves]"
    and sizes: "cp_tree_size a = 2" "cp_tree_size b = 3"
    by (rule endorse_both)
  let ?tr = "[(a, JNull), (b, JList (map (\<lambda>h. JStr (hex h)) p))]"
  have ff: "fork_free ?tr" using sizes by (simp add: fork_free_def)
  have "witness_run echo_check (new_witness echo_key) ?tr w \<and> length ?tr = 2
    \<and> (two_leaves = take 2 three_leaves
       \<or> (\<exists>k. Suc k < length ?tr \<and> collision (step_transcript ?tr [two_leaves, three_leaves] k)))"
    using witness_history [OF run ff, of 0 1] run(1) by auto
  then show ?thesis by blast
qed

text \<open> The service and its client add nothing to the witness: a client's \<open>cosign\<close> over the HTTP
  handler has the effect of the in-process call on the witness, returns the same cosignature, and
  turns each of its refusals into \<open>WitnessError\<close>; and an endorsement it returns verifies under the
  witness's key for exactly that head.
\<close>

theorem service_relays_witness:
  assumes "storable cp" "utf8_text producer_pem" "list_all utf8_text hs" "unpem producer_pem = Inr pub"
    and "\<forall>d. ed (ks_public_key_raw (wit_key w)) (ks_sign (wit_key w) d) d = Valid"
    and "cosign ed cp pub (JList (map JStr hs)) w = (r, w')"
  shows "client_cosign (witness_post ed unpem) cp producer_pem (JList (map JStr hs)) w
      = (as_witness_error r, w')
    \<and> (case r of
        Inl e \<Rightarrow> w' = w
      | Inr cosig \<Rightarrow> verify_cosignature ed cp cosig (ks_public_key_raw (wit_key w)) = Inr True
          \<and> wit_last w' = Some cp)"
proof
  have "fits default_layout (JDict (dump_checkpoint cp))" using assms(1) by (simp add: storable_def fits_def)
  then show "client_cosign (witness_post ed unpem) cp producer_pem (JList (map JStr hs)) w
      = (as_witness_error r, w')"
    using client_relays [of cp producer_pem hs unpem pub ed w] assms
    by (simp add: storable_def checkpoint_fields_def)
  show "case r of
        Inl e \<Rightarrow> w' = w
      | Inr cosig \<Rightarrow> verify_cosignature ed cp cosig (ks_public_key_raw (wit_key w)) = Inr True
          \<and> wit_last w' = Some cp"
    using assms(6)
  proof (cases rule: cosign_cases)
    case (endorsed data)
    have "verify_cosignature ed cp \<lparr>wc_witness_key_id = ks_key_id (wit_key w), wc_tree_size = cp_tree_size cp,
        wc_root_hash = cp_root_hash cp, wc_signature = b64encode (ks_sign (wit_key w) data)\<rparr>
        (ks_public_key_raw (wit_key w)) = Inr True"
      by (rule cosignature_verifies [where ed = ed and w = w, OF assms(5)])
        (use assms(6) endorsed in simp)
    with endorsed show ?thesis by simp
  qed simp
qed

lemma echo_scheme: "\<forall>d. echo_check (ks_public_key_raw echo_key) (ks_sign echo_key d) d = Valid"
  by (simp add: echo_check_def echo_key_def)

lemma signed_head_storable:
  assumes "signed_head leaves = Inr cp" "length leaves < 10 ^ 12"
  shows "storable cp"
proof -
  note f = sign_checkpoint_fields [OF assms(1) [unfolded signed_head_def]]
  have "cp_extra cp = []"
    using assms(1) by (auto simp: signed_head_def sign_checkpoint_def sbind_Inr_conv)
  then show ?thesis
    using f(1-4) assms(2) signed_text [OF assms(1) [unfolded signed_head_def]]
    by (simp add: storable_def good_extras_def dump_checkpoint_def hex_text)
qed

theorem service_relays_witness_witness:
  "\<exists>cp cosig. client_cosign (witness_post echo_check (\<lambda>p. Inr [1, 2, 3])) cp ''pem'' (JList []) (new_witness echo_key)
      = (Inr cosig, \<lparr>wit_key = echo_key, wit_last = Some cp\<rparr>)
    \<and> verify_cosignature echo_check cp cosig [1, 2, 3] = Inr True"
proof -
  let ?w = "new_witness echo_key"
  obtain cp where cp: "signed_head two_leaves = Inr cp" "cp_verify echo_check cp [1, 2, 3] = Inr True"
    by (rule signed_head_obtain)
  have "extends_last (wit_last ?w) cp (JList (map JStr [])) = Inr ()"
    by (simp add: new_witness_def extends_last_def)
  from cosign_endorses [OF cp(2) this] obtain cosig where c:
    "cosign echo_check cp [1, 2, 3] (JList (map JStr [])) ?w = (Inr cosig, ?w\<lparr>wit_last := Some cp\<rparr>)" by metis
  have st: "storable cp" by (rule signed_head_storable [OF cp(1)]) simp
  have key: "wit_key ?w = echo_key" by (simp add: new_witness_def)
  have "utf8_text ''pem''" "list_all utf8_text []" "(\<lambda>p. Inr [1, 2, 3]) ''pem'' = (Inr [1, 2, 3] :: bytes result)"
    by simp_all
  from service_relays_witness [where ed = echo_check and w = ?w, unfolded key, OF st this echo_scheme c]
  show ?thesis by (auto simp: as_witness_error_def new_witness_def echo_key_def)
qed

text \<open> The witness does endorse a fork at equal size: once it has endorsed a head, any validly
  signed head of the same size is endorsed, whatever its root and without any proof, so one
  producer key obtains co-signatures for two different roots of the same size.
\<close>

theorem witness_endorses_equal_size:
  assumes "wit_last w = Some old" "cp_verify ed cp pub = Inr True" "cp_tree_size cp = cp_tree_size old"
  shows "\<exists>cosig. cosign ed cp pub proof_hex w = (Inr cosig, w\<lparr>wit_last := Some cp\<rparr>)
    \<and> wc_tree_size cosig = cp_tree_size old \<and> wc_root_hash cosig = cp_root_hash cp"
proof -
  have "extends_last (wit_last w) cp proof_hex = Inr ()" using assms(1,3) by (simp add: extends_last_def)
  from cosign_endorses [OF assms(2) this] obtain data where
    "cosign ed cp pub proof_hex w = (Inr \<lparr>wc_witness_key_id = ks_key_id (wit_key w),
       wc_tree_size = cp_tree_size cp, wc_root_hash = cp_root_hash cp,
       wc_signature = b64encode (ks_sign (wit_key w) data)\<rparr>, w\<lparr>wit_last := Some cp\<rparr>)" by metis
  with assms(3) show ?thesis by simp
qed

theorem witness_endorses_equal_size_witness:
  "\<exists>old cp cosig. cp_root_hash old \<noteq> cp_root_hash cp
    \<and> cosign echo_check cp [1, 2, 3] JNull \<lparr>wit_key = echo_key, wit_last = Some old\<rparr>
      = (Inr cosig, \<lparr>wit_key = echo_key, wit_last = Some cp\<rparr>)"
proof -
  obtain old where old: "sign_checkpoint echo_key ''o'' 2 ''aa'' ''t'' = Inr old"
    using sign_checkpoint_total by blast
  obtain cp where cp: "sign_checkpoint echo_key ''o'' 2 ''bb'' ''t'' = Inr cp"
    using sign_checkpoint_total by blast
  have "cp_verify echo_check cp [1, 2, 3] = Inr True"
    using sign_checkpoint_verifies [of echo_check echo_key, OF _ cp] echo_scheme by (simp add: echo_key_def)
  from witness_endorses_equal_size [where w = "\<lparr>wit_key = echo_key, wit_last = Some old\<rparr>", OF _ this]
    sign_checkpoint_fields [OF old] sign_checkpoint_fields [OF cp]
  obtain cosig where "cosign echo_check cp [1, 2, 3] JNull \<lparr>wit_key = echo_key, wit_last = Some old\<rparr>
      = (Inr cosig, \<lparr>wit_key = echo_key, wit_last = Some cp\<rparr>)" by fastforce
  with sign_checkpoint_fields [OF old] sign_checkpoint_fields [OF cp] show ?thesis
    by (intro exI [of _ old] exI [of _ cp] exI [of _ cosig]) simp
qed

section \<open>Anchors\<close>

text \<open>
  C22. Equivocation detection is exact.  \<open>detect_equivocation\<close> answers \<open>None\<close> exactly when, among the
  checkpoints validly signed by the key, equal sizes have equal roots and every supplied proof
  between two of them verifies; what it returns otherwise is genuine evidence (two signed
  checkpoints of one size with different roots, or two whose supplied proof fails); the one
  error, \<open>ValueError\<close>, needs malformed hex and never hides behind a consistent input.  A checkpoint
  whose size is not a JSON integer counts as not validly signed (pydantic would convert \<open>'5'\<close> or \<open>5.0\<close>).
\<close>

theorem equivocation_exact:
  "(detect_equivocation ed cps pub proofs = Inr None \<longleftrightarrow> consistent_heads ed pub (set cps) proofs)
   \<and> (case detect_equivocation ed cps pub proofs of
        Inl e \<Rightarrow> e = ValueError
      | Inr None \<Rightarrow> True
      | Inr (Some p) \<Rightarrow> forks ed pub (set cps) p \<or> rewritten ed pub (set cps) proofs p)"
  using detect_decides [where ed = ed and cps = cps and pub = pub and proofs = proofs]
    detect_None_iff [of ed cps pub proofs]
  by (cases "detect_equivocation ed cps pub proofs") (auto split: option.splits)

text \<open>
  C23. An honest producer is never accused.  Whatever heads a ledger signed at whatever earlier
  sizes, and whichever consistency proofs it handed out between any sizes, publishing those heads
  to an anchor (in memory or in a file) and running detection on what is read back finds nothing.
\<close>

theorem honest_producer_not_accused:
  assumes "ledger_ok file_holds led es" "list_all (head_at ed key (led_leaves led)) cps"
    and "anchor_keeps a cps"
    and "list_all (\<lambda>((m, n), pf). consistency_proof_hex m (Some n) led = Inr pf) proofs"
  shows "\<exists>vs. anchor_checkpoints a = Inr vs
    \<and> detect_equivocation ed vs (ks_public_key_raw key) proofs = Inr None"
proof -
  let ?pub = "ks_public_key_raw key" and ?vs = "map (\<lambda>cp. JDict (dump_checkpoint cp)) cps"
  let ?L = "led_leaves led"
  have len: "length ?L = length es" using assms(1) by (simp add: ledger_ok_def log_of_def)
  have good: "load_checkpoint (dump_checkpoint cp) = Inr cp" "head_at ed key ?L cp" if "cp \<in> set cps" for cp
    using that assms(2,3) load_dump_checkpoint [of cp]
    by (auto simp: anchor_keeps_def list_all_iff storable_def checkpoint_fields_def)
  have head: "head_at ed key ?L c" if "v \<in> set ?vs" "signed_as ed ?pub v c" for v c
    using that good by (auto simp: signed_as_def validate_checkpoint_def)
  have "consistent_heads ed ?pub (set ?vs) proofs"
    unfolding consistent_heads_def
  proof (intro ballI allI impI conjI)
    fix v w a b
    assume vw: "v \<in> set ?vs" "w \<in> set ?vs" "signed_as ed ?pub v a" "signed_as ed ?pub w b"
    note h = head [OF vw(1,3)] head [OF vw(2,4)]
    show "cp_root_hash a = cp_root_hash b" if "cp_tree_size a = cp_tree_size b"
      using h that by (simp add: head_at_def)
    show "proof_verifies (cp_tree_size a) (cp_tree_size b) a b pf"
      if "cp_tree_size a < cp_tree_size b" "((cp_tree_size a, cp_tree_size b), pf) \<in> set proofs" for pf
    proof -
      define m where "m = nat (cp_tree_size a)"
      define n where "n = nat (cp_tree_size b)"
      have mn: "cp_tree_size a = int m" "cp_tree_size b = int n" using h by (simp_all add: m_def n_def head_at_def)
      have pf: "consistency_proof_hex (int m) (Some (int n)) led = Inr pf"
        using assms(4) that(2) by (auto simp: list_all_iff mn)
      then have "0 < m" by (auto simp: consistency_proof_hex_def consistency_proof_def sbind_Inr_conv Let_def split: if_splits)
      moreover have "m \<le> n" "n \<le> length es" using that(1) h(2) len by (simp_all add: mn head_at_def)
      ultimately obtain p where p: "consistency_proof_hex (int m) (Some (int n)) led = Inr (map hex p)"
        "verify_consistency (int m) (int n) (tree_hash (take m ?L)) (tree_hash (take n ?L)) p"
        using pinned_consistency [OF assms(1)] by blast
      have "map_result fromhex (map hex p) = Inr p" by (induction p) simp_all
      with p pf h show ?thesis by (simp add: proof_verifies_def head_at_def mn)
    qed
  qed
  then have "detect_equivocation ed ?vs ?pub proofs = Inr None" by (simp only: detect_None_iff)
  with anchor_reads [OF assms(3)] show ?thesis by blast
qed

lemma two_commits:
  obtains led1 led2 e1 e2 where "ledger_ok file_holds led1 [e1]" "ledger_ok file_holds led2 [e1, e2]"
    "take 1 (led_leaves led2) = led_leaves led1" "led_origin led1 = ''openwright/ledger''"
    "sched_run file_ops local_put echo_key (fresh (open_file_backend [])) [] led1 (new_scheduler True) []"
proof -
  let ?led0 = "fresh (open_file_backend [])" and ?clk = "''2026-01-01T00:00:00.000000000Z''"
  have wf: "wf_event (sample_event a)" for a by simp
  obtain e1 led1 where c1: "commit file_ops ?clk (sample_event ''a'') ?led0 = Inr (e1, led1)"
    using fresh_commit [OF wf, where ops = file_ops] by blast
  note ok1 = jsonl.commit_ok [OF fresh_file wf c1 [unfolded file_ops_def]]
  have "led_retention led1 = None" using ok1 by (simp add: fresh_def)
  then obtain e2 led2 where c2: "commit file_ops ?clk (sample_event ''b'') led1 = Inr (e2, led2)"
    using jsonl.commit_total [OF wf [of "''b''"], where led = led1 and clk = ?clk]
    unfolding file_ops_def by force
  have led1: "ledger_ok file_holds led1 [e1]" using ok1 by simp
  note ok2 = jsonl.commit_ok [OF led1 wf c2 [unfolded file_ops_def]]
  have run: "sched_run file_ops local_put echo_key ?led0 [] led1 (new_scheduler True) []"
    by (rule sched_commit [OF sched_start wf c1])
  have "led_origin led1 = ''openwright/ledger''" using ok1 by (simp add: fresh_def)
  moreover have "ledger_ok file_holds led2 [e1, e2]" "take 1 (led_leaves led2) = led_leaves led1"
    using ok2 by simp_all
  ultimately show ?thesis using that led1 run by blast
qed

theorem honest_producer_not_accused_witness:
  "\<exists>a vs pf. anchor_checkpoints a = Inr vs \<and> length vs = 2
    \<and> detect_equivocation echo_check vs [1, 2, 3] [((1, 2), pf)] = Inr None"
proof -
  obtain led1 led2 e1 e2 where led: "ledger_ok file_holds led1 [e1]" "ledger_ok file_holds led2 [e1, e2]"
    "take 1 (led_leaves led2) = led_leaves led1" "led_origin led1 = ''openwright/ledger''"
    by (rule two_commits)
  have len: "length (led_leaves led1) = 1" "length (led_leaves led2) = 2"
    using led(1,2) by (simp_all add: ledger_ok_def log_of_def)
  let ?led2 = "led2\<lparr>led_origin := ''x''\<rparr>"
  have led2: "ledger_ok file_holds ?led2 [e1, e2]" using led(2) by (simp add: ledger_ok_def)
  have "length (led_leaves led1) < 10 ^ 12" "utf8_text (led_origin led1)" "utf8_text ''t''" using len led(4) by simp_all
  then obtain a where a: "head_at echo_check echo_key (led_leaves led1) a" "storable a"
    by (rule new_head [where ed = echo_check and key = echo_key, OF echo_scheme led(1)])
  have "length (led_leaves ?led2) < 10 ^ 12" "utf8_text (led_origin ?led2)" "utf8_text ''t''" using len by simp_all
  then obtain b where b: "head_at echo_check echo_key (led_leaves ?led2) b" "storable b"
    by (rule new_head [where ed = echo_check and key = echo_key, OF echo_scheme led2])
  have "head_at echo_check echo_key (led_leaves ?led2) a"
    using head_at_grows [OF a(1)] led(3) len(1) by simp
  with b have heads: "list_all (head_at echo_check echo_key (led_leaves ?led2)) [a, b]" by simp
  have keeps: "anchor_keeps (publish b (publish a (Anchor_File []))) [a, b]"
    using publish_keeps [OF publish_keeps [OF anchor_keeps_new(2) a(2)] b(2)] by simp
  obtain p where "consistency_proof_hex (int 1) (Some (int 2)) ?led2 = Inr (map hex p)"
    using pinned_consistency [OF led2, of 1 2] by auto
  then have "list_all (\<lambda>((m, n), pf). consistency_proof_hex m (Some n) ?led2 = Inr pf) [((1, 2), map hex p)]"
    by simp
  from honest_producer_not_accused [OF led2 heads keeps this]
  obtain vs where vs: "anchor_checkpoints (publish b (publish a (Anchor_File []))) = Inr vs"
    "detect_equivocation echo_check vs [1, 2, 3] [((1, 2), map hex p)] = Inr None"
    by (auto simp: echo_key_def)
  moreover have "length vs = 2" using vs(1) anchor_reads [OF keeps] by auto
  ultimately show ?thesis by blast
qed

section \<open>Scheduled checkpoints\<close>

text \<open> A scheduled tick leaves the current head in the store.  Run a scheduler with a directory
  store against a growing ledger, ticks and commits interleaved in any order: each next tick,
  whether it signs or skips, ends with \<open>latest()\<close> returning a checkpoint of exactly the current
  size and root that verifies under the signing key.
\<close>

theorem scheduler_latest:
  assumes "\<forall>d. ed (ks_public_key_raw key) (ks_sign key d) d = Valid"
    and "ledger_ok file_holds led0 es0" "utf8_text (led_origin led0)" "utf8_text clk"
    and "sched_run file_ops local_put key led0 [] led s dir" "length (led_leaves led) < 10 ^ 12"
    and "tick local_put (ledger_checkpoint key clk None led) s dir = (r, s', dir')"
  shows "\<exists>cp. latest local_tree_sizes local_get dir' = Inr (Some cp)
    \<and> cp_tree_size cp = ledger_size led \<and> cp_root_hash cp = root_hex led
    \<and> cp_verify ed cp (ks_public_key_raw key) = Inr True
    \<and> (r = Inr None \<or> r = Inr (Some cp))"
proof -
  obtain es m where inv: "ledger_ok file_holds led es" "led_origin led = led_origin led0"
    "local_keeps dir m" "sched_ok ed key (led_leaves led) s m"
    using sched_run_ok [where ed = ed and key = key, OF assms(1-3,5,6)] by blast
  have origin: "utf8_text (led_origin led)" using inv(2) assms(3) by simp
  obtain cp where cp: "ledger_checkpoint key clk None led = Inr cp" "head_at ed key (led_leaves led) cp"
    "storable cp" "cp_tree_size cp = int (length (led_leaves led))" "cp_root_hash cp = root_hex led"
    by (rule new_head [where ed = ed and key = key, OF assms(1) inv(1) assms(6) origin assms(4)])
  have tick: "tick local_put (Inr cp) s dir = (r, s', dir')" using assms(7) cp(1) by simp
  then obtain m' where m': "local_keeps dir' m'" "sched_ok ed key (led_leaves led) s' m'"
    "sch_last_size s' = Some (cp_tree_size cp)"
    by (rule tick_ok [OF inv(3,4) cp(2,3,4)])
  then have dom: "cp_tree_size cp \<in> dom m'" "\<forall>k \<in> dom m'. k \<le> cp_tree_size cp"
    by (simp_all add: sched_ok_def)
  then obtain c where c: "m' (cp_tree_size cp) = Some c" by blast
  have "Max (dom m') = cp_tree_size cp"
    using dom m'(1) by (intro Max_eqI) (auto simp: local_keeps_def)
  with local.latest_max [OF m'(1)] dom c
  have latest: "latest local_tree_sizes local_get dir' = Inr (Some c)" by auto
  have c_head: "head_at ed key (led_leaves led) c" "cp_tree_size c = cp_tree_size cp"
    using m' c ranI [of m' _ c] by (auto simp: sched_ok_def local_keeps_def)
  then have "cp_root_hash c = cp_root_hash cp" using cp(2) by (simp add: head_at_def)
  moreover have "r = Inr None \<or> r = Inr (Some c)"
  proof (cases "sch_skip_if_unchanged s \<and> sch_last_size s = Some (cp_tree_size cp)")
    case False
    then have r: "r = Inr (Some cp)" "dir' = local_put cp dir" using tick by (auto simp: tick_def)
    have "local_get (cp_tree_size cp) dir' = Inr (Some cp)"
      using local.get_keeps [OF local.put_keeps [OF inv(3) cp(3)], of "cp_tree_size cp"] cp(2) r(2)
      by (simp add: head_at_def)
    moreover have "local_get (cp_tree_size cp) dir' = Inr (Some c)"
      using local.get_keeps [OF m'(1), of "cp_tree_size cp"] c cp(2) by (simp add: head_at_def)
    ultimately show ?thesis using r(1) by simp
  qed (use tick in \<open>auto simp: tick_def\<close>)
  ultimately show ?thesis using latest c_head cp by (auto simp: ledger_size_def head_at_def)
qed

theorem scheduler_latest_witness:
  "\<exists>(led :: file_backend ledger_state) s dir cp. latest local_tree_sizes local_get dir = Inr (Some cp) \<and> cp_tree_size cp = 1
    \<and> tick local_put (ledger_checkpoint echo_key ''t'' None led) (new_scheduler True) [] = (Inr (Some cp), s, dir)"
proof -
  obtain led1 led2 e1 e2 where led: "ledger_ok file_holds led1 [e1]" "led_origin led1 = ''openwright/ledger''"
    "sched_run file_ops local_put echo_key (fresh (open_file_backend [])) [] led1 (new_scheduler True) []"
    by (rule two_commits)
  have len: "length (led_leaves led1) = 1" using led(1) by (simp add: ledger_ok_def log_of_def)
  have small: "length (led_leaves led1) < 10 ^ 12" and asc: "utf8_text (led_origin led1)" "utf8_text ''t''"
    "utf8_text (led_origin (fresh (open_file_backend [])))"
    using len led(2) by (simp_all add: fresh_def)
  obtain cp where cp: "ledger_checkpoint echo_key ''t'' None led1 = Inr cp"
    by (rule new_head [where ed = echo_check and key = echo_key, OF echo_scheme led(1) small asc(1,2)])
  obtain r s' dir' where tick: "tick local_put (ledger_checkpoint echo_key ''t'' None led1) (new_scheduler True) []
      = (r, s', dir')" by (cases "tick local_put (ledger_checkpoint echo_key ''t'' None led1) (new_scheduler True) []")
  have "r \<noteq> Inr None" using tick by (auto simp: cp tick_def new_scheduler_def)
  with scheduler_latest [where ed = echo_check and key = echo_key, OF echo_scheme fresh_file asc(3,2) led(3) small tick]
  obtain c where "latest local_tree_sizes local_get dir' = Inr (Some c)" "cp_tree_size c = ledger_size led1"
    "r = Inr (Some c)" by blast
  with tick len have "latest local_tree_sizes local_get dir' = Inr (Some c) \<and> cp_tree_size c = 1
    \<and> tick local_put (ledger_checkpoint echo_key ''t'' None led1) (new_scheduler True) [] = (Inr (Some c), s', dir')"
    by (simp add: ledger_size_def)
  then show ?thesis by blast
qed

section \<open>More checkpoints than one listing\<close>

text \<open> The S3 store lists one page only: as soon as it holds more than 1000 checkpoints,
  \<open>tree_sizes()\<close> misses the largest and \<open>latest()\<close> returns the thousandth smallest, an old head,
  although the newer ones are in the bucket.
\<close>

theorem s3_latest_stale:
  assumes "s3_holds objects st m" "max_keys < card (dom m)"
  shows "\<exists>n cp. latest s3_tree_sizes s3_get st = Inr (Some cp) \<and> cp_tree_size cp = n
    \<and> n < Max (dom m) \<and> card {k \<in> dom m. k \<le> n} = max_keys
    \<and> s3_get (Max (dom m)) st = Inr (m (Max (dom m)))"
proof -
  obtain n where n: "latest s3_tree_sizes s3_get st = Inr (m n)" "n \<in> dom m" "n < Max (dom m)"
    "card {k \<in> dom m. k \<le> n} = max_keys"
    by (rule s3_latest_beyond [OF assms])
  then obtain cp where cp: "m n = Some cp" by blast
  with assms(1) have "cp_tree_size cp = n" by (simp add: s3_holds_def)
  moreover have "0 \<le> n" using s3_size [OF assms(1) n(2)] by simp
  then have "s3_get (Max (dom m)) st = Inr (m (Max (dom m)))"
    using s3_get_holds [OF assms(1)] n(3) by simp
  ultimately show ?thesis using n cp by auto
qed

text \<open>A client that behaves as documented, and a thousand and one checkpoints put through it.\<close>

type_synonym bucket_map = "string \<times> string \<Rightarrow> (string \<times> s3_lock option) option"

definition plain_client :: "bucket_map s3_client" where
  "plain_client = \<lparr>put_object = (\<lambda>b k v l c. c((b, k) \<mapsto> (v, l))),
     get_object = (\<lambda>b k c. case c (b, k) of None \<Rightarrow> Inl KeyError | Some (v, l) \<Rightarrow> Inr v),
     list_objects_v2 = (\<lambda>b p c. listing c b p)\<rparr>"

definition sized_head :: "int \<Rightarrow> checkpoint" where
  "sized_head n = (case sign_checkpoint echo_key ''log'' n ''aa'' ''t'' of Inr cp \<Rightarrow> cp | Inl e \<Rightarrow> undefined)"

definition empty_bucket :: "bucket_map s3_store" where
  "empty_bucket = \<lparr>s3_api = plain_client, s3_service = Map.empty, s3_bucket = ''b'',
     s3_prefix = ''openwright/checkpoints'', s3_lock_mode = None, s3_retention = None\<rparr>"

lemma sized_head: "0 \<le> n \<Longrightarrow> n < 10 ^ 12 \<Longrightarrow> storable (sized_head n) \<and> cp_tree_size (sized_head n) = n"
proof -
  assume n: "0 \<le> n" "n < 10 ^ 12"
  obtain cp where cp: "sign_checkpoint echo_key ''log'' n ''aa'' ''t'' = Inr cp"
    using sign_checkpoint_total by blast
  note f = sign_checkpoint_fields [OF cp]
  have "cp_extra cp = []" using cp by (auto simp: sign_checkpoint_def sbind_Inr_conv)
  then show ?thesis
    using f(1-4) n cp signed_text [OF cp] by (simp add: sized_head_def storable_def good_extras_def dump_checkpoint_def)
qed

lemma many_puts:
  "N < 10 ^ 12 \<Longrightarrow> s3_holds (\<lambda>c. c) (fold (\<lambda>k. s3_after_put 0 (sized_head (int k))) [0..<N] empty_bucket)
     (\<lambda>k. if 0 \<le> k \<and> k < int N then Some (sized_head k) else None)"
proof (induction N)
  case 0
  have "(\<lambda>k. if 0 \<le> k \<and> k < int 0 then Some (sized_head k) else None) = Map.empty" by (rule ext) simp
  then show ?case
    by (simp add: s3_holds_def s3_laws_def plain_client_def empty_bucket_def)
next
  case (Suc N)
  let ?m = "\<lambda>N k. if 0 \<le> k \<and> k < int N then Some (sized_head k) else None"
  have head: "storable (sized_head (int N))" "cp_tree_size (sized_head (int N)) = int N"
    using sized_head [of "int N"] Suc.prems by simp_all
  have "(?m N)(int N \<mapsto> sized_head (int N)) = ?m (Suc N)" by (rule ext) auto
  with s3_put_holds [OF Suc.IH head(1), of 0] head(2) Suc.prems show ?case by simp
qed

theorem s3_latest_stale_witness:
  "\<exists>cp. latest s3_tree_sizes s3_get (fold (\<lambda>k. s3_after_put 0 (sized_head (int k))) [0..<1001] empty_bucket)
     = Inr (Some cp) \<and> cp_tree_size cp < 1000"
proof -
  let ?m = "\<lambda>k. if 0 \<le> k \<and> k < int 1001 then Some (sized_head k) else None"
  let ?st = "fold (\<lambda>k. s3_after_put 0 (sized_head (int k))) [0..<1001] empty_bucket"
  have "dom ?m = {0..<1001}" by (auto split: if_splits)
  then have many: "max_keys < card (dom ?m)" and top: "Max (dom ?m) \<le> 1000"
    by (simp_all add: max_keys_def)
  have "s3_holds (\<lambda>c. c) ?st ?m" by (rule many_puts) simp
  from s3_latest_stale [OF this many] obtain n cp where
    "latest s3_tree_sizes s3_get ?st = Inr (Some cp)" "cp_tree_size cp = n" "n < Max (dom ?m)" by blast
  moreover from this(2,3) top have "cp_tree_size cp < 1000" by linarith
  ultimately show ?thesis by blast
qed

end
