(* ===== verification/Py_Repr.thy ===== *)
theory Py_Repr imports Py_Json_Layout Py_Values begin

text \<open>
  \<open>str\<close> and \<open>repr\<close> of JSON-shaped Python values, and the arithmetic of \<open>decimal.Decimal\<close> the
  source uses (the default context: 28 digits, half-even).  Which code points beyond ASCII are
  printable is a fact of the Unicode database, the argument \<open>printable\<close>.
\<close>

section \<open>repr\<close>

definition hex_text :: "nat \<Rightarrow> nat \<Rightarrow> string" where
  "hex_text w n = map (\<lambda>i. hex_char (n div 16 ^ (w - 1 - i) mod 16)) [0..<w]"

definition repr_point :: "(nat \<Rightarrow> bool) \<Rightarrow> char \<Rightarrow> nat \<Rightarrow> string \<Rightarrow> string" where
  "repr_point printable quote n bytes_of_n =
     (if n = of_char quote \<or> n = 0x5C then backslash # bytes_of_n
      else if n = 0x09 then backslash # ''t''
      else if n = 0x0A then backslash # ''n''
      else if n = 0x0D then backslash # ''r''
      else if n < 0x20 \<or> n = 0x7F then backslash # CHR ''x'' # hex_text 2 n
      else if n < 0x7F \<or> printable n then bytes_of_n
      else if n < 0x100 then backslash # CHR ''x'' # hex_text 2 n
      else if n < 0x10000 then backslash # CHR ''u'' # hex_text 4 n
      else backslash # CHR ''U'' # hex_text 8 n)"

fun repr_points :: "(nat \<Rightarrow> bool) \<Rightarrow> char \<Rightarrow> nat \<Rightarrow> string \<Rightarrow> string" where
  "repr_points printable quote skip [] = []"
| "repr_points printable quote (Suc k) (c # s) = repr_points printable quote k s"
| "repr_points printable quote 0 (c # s) =
     (let (n, k) = code_point (c # s)
      in repr_point printable quote n (take k (c # s)) @ repr_points printable quote (k - 1) s)"

definition repr_str :: "(nat \<Rightarrow> bool) \<Rightarrow> string \<Rightarrow> string" where
  "repr_str printable s =
     (let quote = (if CHR 0x27 \<in> set s \<and> quote_char \<notin> set s then quote_char else CHR 0x27)
      in quote # repr_points printable quote 0 s @ [quote])"

definition comma_join :: "string list \<Rightarrow> string" where
  "comma_join xs = (case xs of [] \<Rightarrow> [] | y # ys \<Rightarrow> y @ concat (map (\<lambda>z. '', '' @ z) ys))"

fun py_repr :: "(nat \<Rightarrow> bool) \<Rightarrow> json \<Rightarrow> string" where
  "py_repr printable JNull = ''None''"
| "py_repr printable (JBool b) = (if b then ''True'' else ''False'')"
| "py_repr printable (JInt i) = str_of_int i"
| "py_repr printable (JFloat r) = r"
| "py_repr printable (JStr s) = repr_str printable s"
| "py_repr printable (JList xs) = ''['' @ comma_join (map (py_repr printable) xs) @ '']''"
| "py_repr printable (JDict kvs) =
     ''{'' @ comma_join (map (\<lambda>kv. repr_str printable (fst kv) @ '': '' @ py_repr printable (snd kv)) kvs)
     @ ''}''"

definition py_str :: "(nat \<Rightarrow> bool) \<Rightarrow> json \<Rightarrow> string" where
  "py_str printable v = (case v of JStr s \<Rightarrow> s | _ \<Rightarrow> py_repr printable v)"

lemma py_str_JStr [simp]: "py_str printable (JStr s) = s"
  by (simp add: py_str_def)

section \<open>Decimals\<close>

text \<open>A finite decimal is a coefficient and an exponent of ten.\<close>

datatype decimal = DFinite int int | DInfinity bool | DNaN

definition dec_digits :: "int \<Rightarrow> nat" where
  "dec_digits c = (if c = 0 then 0 else length (digits_of (nat \<bar>c\<bar>)))"

definition half_even :: "int \<Rightarrow> int \<Rightarrow> int" where
  "half_even a m =
     (let q = \<bar>a\<bar> div m; r = \<bar>a\<bar> mod m;
          q' = (if 2 * r < m \<or> (2 * r = m \<and> even q) then q else q + 1)
      in if a < 0 then - q' else q')"

definition dec_precision :: nat where
  "dec_precision = 28"

definition dec_fix :: "int \<Rightarrow> int \<Rightarrow> decimal result" where
  "dec_fix c e =
     (let d = dec_digits c - dec_precision;
          c' = (if d = 0 then c else half_even c (10 ^ d))
      in if c' \<noteq> 0 \<and> e + int d + int (dec_digits c') - 1 > 999999 then Inl DecimalException
         else Inr (DFinite c' (e + int d)))"

fun dec_add :: "decimal \<Rightarrow> decimal \<Rightarrow> decimal result" where
  "dec_add (DFinite a e) (DFinite b f) =
     (let g = min e f in dec_fix (a * 10 ^ nat (e - g) + b * 10 ^ nat (f - g)) g)"
| "dec_add DNaN y = Inr DNaN"
| "dec_add x DNaN = Inr DNaN"
| "dec_add (DInfinity s) (DInfinity t) = (if s = t then Inr (DInfinity s) else Inl DecimalException)"
| "dec_add (DInfinity s) y = Inr (DInfinity s)"
| "dec_add x (DInfinity t) = Inr (DInfinity t)"

fun dec_times_int :: "decimal \<Rightarrow> int \<Rightarrow> decimal result" where
  "dec_times_int (DFinite a e) n = dec_fix (a * n) e"
| "dec_times_int (DInfinity s) n =
     (if n = 0 then Inl DecimalException else Inr (DInfinity (s \<noteq> (n < 0))))"
| "dec_times_int DNaN n = Inr DNaN"

fun dec_div_1000 :: "decimal \<Rightarrow> decimal result" where
  "dec_div_1000 (DFinite a e) = dec_fix a (e - 3)"
| "dec_div_1000 x = Inr x"

text \<open>\<open>Decimal(text)\<close>: surrounding space and underscores are ignored.\<close>

definition lower_ascii :: "char \<Rightarrow> char" where
  "lower_ascii c = (if 65 \<le> (of_char c :: nat) \<and> (of_char c :: nat) \<le> 90
     then char_of (of_char c + 32 :: nat) else c)"

definition parse_exponent :: "string \<Rightarrow> int option" where
  "parse_exponent s =
     (if s = [] then Some 0
      else if lower_ascii (hd s) \<noteq> CHR ''e'' then None
      else let t = tl s; neg = (take 1 t = ''-'');
               u = (if take 1 t \<in> {''+'', ''-''} then tl t else t)
           in if u \<noteq> [] \<and> list_all is_digit u
              then Some ((if neg then - 1 else 1) * int (nat_of_digits 0 u)) else None)"

definition parse_decimal :: "string \<Rightarrow> decimal result" where
  "parse_decimal s =
     (let t = filter (\<lambda>c. c \<noteq> CHR ''_'') (rev (dropWhile is_space (rev (dropWhile is_space s))));
          neg = (take 1 t = ''-''); u = (if take 1 t \<in> {''+'', ''-''} then tl t else t);
          ip = takeWhile is_digit u; r = drop (length ip) u;
          fp = (if take 1 r = ''.'' then takeWhile is_digit (tl r) else []);
          r' = (if take 1 r = ''.'' then drop (1 + length fp) r else r);
          low = map lower_ascii u
      in if low \<in> {''inf'', ''infinity''} then Inr (DInfinity neg)
         else if low = ''nan'' then Inr DNaN
         else if ip @ fp = [] then Inl DecimalException
         else (case parse_exponent r' of
             None \<Rightarrow> Inl DecimalException
           | Some x \<Rightarrow> Inr (DFinite ((if neg then - 1 else 1) * int (nat_of_digits 0 (ip @ fp)))
                (x - int (length fp)))))"

text \<open>\<open>f"{d:.6f}"\<close>.\<close>

definition pad_digits :: "nat \<Rightarrow> nat \<Rightarrow> string" where
  "pad_digits w n = (let ds = digits_of n in replicate (w - length ds) (CHR ''0'') @ ds)"

definition format_6f :: "decimal \<Rightarrow> string" where
  "format_6f d = (case d of
     DNaN \<Rightarrow> ''NaN''
   | DInfinity neg \<Rightarrow> (if neg then ''-Infinity'' else ''Infinity'')
   | DFinite c e \<Rightarrow>
       (let m = nat \<bar>if - 6 \<le> e then c * 10 ^ nat (e + 6) else half_even c (10 ^ nat (- 6 - e))\<bar>
        in (if c < 0 then ''-'' else []) @ digits_of (m div 1000000) @ ''.''
           @ pad_digits 6 (m mod 1000000)))"

end
