(* ===== verification/Spans.thy ===== *)
theory Spans imports Py_Repr Record_Properties Timestamps begin

text \<open>
  Telemetry spans and their normalization to events: \<open>adapters/base.py\<close>,
  \<open>adapters/otel_genai.py\<close>, \<open>adapters/langfuse.py\<close> and \<open>adapters/a2a.py\<close> of
  \<open>src/src/openwright\<close>, and their composition \<open>_normalize\<close> of \<open>ingest/pipeline.py\<close>.  A constructor call of a pydantic model is the loading of the dictionary
  of its keywords, where \<open>None\<close> is the null.
\<close>

section \<open>Spans\<close>

record span_data =
  span_name :: string
  span_attributes :: dict
  span_resource :: dict
  span_trace_id :: "string option"
  span_span_id :: "string option"
  span_parent_span_id :: "string option"
  span_start_time_unix_nano :: "int option"
  span_status :: "string option"

section \<open>The OpenTelemetry conventions\<close>

definition A_OPERATION :: string where "A_OPERATION = ''gen_ai.operation.name''"
definition A_PROVIDER :: string where "A_PROVIDER = ''gen_ai.provider.name''"
definition A_PROVIDER_LEGACY :: string where "A_PROVIDER_LEGACY = ''gen_ai.system''"
definition A_REQUEST_MODEL :: string where "A_REQUEST_MODEL = ''gen_ai.request.model''"
definition A_RESPONSE_MODEL :: string where "A_RESPONSE_MODEL = ''gen_ai.response.model''"
definition A_INPUT_TOKENS :: string where "A_INPUT_TOKENS = ''gen_ai.usage.input_tokens''"
definition A_INPUT_TOKENS_LEGACY :: string where
  "A_INPUT_TOKENS_LEGACY = ''gen_ai.usage.prompt_tokens''"
definition A_OUTPUT_TOKENS :: string where "A_OUTPUT_TOKENS = ''gen_ai.usage.output_tokens''"
definition A_OUTPUT_TOKENS_LEGACY :: string where
  "A_OUTPUT_TOKENS_LEGACY = ''gen_ai.usage.completion_tokens''"
definition A_FINISH_REASONS :: string where "A_FINISH_REASONS = ''gen_ai.response.finish_reasons''"
definition A_TOOL_NAME :: string where "A_TOOL_NAME = ''gen_ai.tool.name''"
definition A_TOOL_CALL_ID :: string where "A_TOOL_CALL_ID = ''gen_ai.tool.call.id''"
definition A_TOOL_TYPE :: string where "A_TOOL_TYPE = ''gen_ai.tool.type''"
definition A_CONVERSATION_ID :: string where "A_CONVERSATION_ID = ''gen_ai.conversation.id''"
definition A_AGENT_NAME :: string where "A_AGENT_NAME = ''gen_ai.agent.name''"
definition A_PROMPT_LEGACY :: string where "A_PROMPT_LEGACY = ''gen_ai.prompt''"
definition A_COMPLETION_LEGACY :: string where "A_COMPLETION_LEGACY = ''gen_ai.completion''"

lemmas attribute_names = A_OPERATION_def A_PROVIDER_def A_PROVIDER_LEGACY_def A_REQUEST_MODEL_def
  A_RESPONSE_MODEL_def A_INPUT_TOKENS_def A_INPUT_TOKENS_LEGACY_def A_OUTPUT_TOKENS_def
  A_OUTPUT_TOKENS_LEGACY_def A_FINISH_REASONS_def A_TOOL_NAME_def A_TOOL_CALL_ID_def
  A_TOOL_TYPE_def A_CONVERSATION_ID_def A_AGENT_NAME_def A_PROMPT_LEGACY_def
  A_COMPLETION_LEGACY_def

definition operation_to_kind :: "(string \<times> event_kind) list" where
  "operation_to_kind =
     [(''chat'', LLM_CALL), (''generate_content'', LLM_CALL), (''text_completion'', LLM_CALL),
      (''embeddings'', LLM_CALL), (''execute_tool'', TOOL_CALL), (''invoke_agent'', AGENT_DECISION),
      (''create_agent'', AGENT_DECISION), (''invoke_workflow'', AGENT_DECISION)]"

definition kind_of_operation :: "json \<Rightarrow> event_kind result" where
  "kind_of_operation operation =
     (if hashable operation
      then Inr (case operation of
          JStr s \<Rightarrow> (case map_of operation_to_kind s of Some k \<Rightarrow> k | None \<Rightarrow> GENERIC)
        | _ \<Rightarrow> GENERIC)
      else Inl TypeError)"

fun first_of :: "dict \<Rightarrow> string list \<Rightarrow> json" where
  "first_of attrs [] = JNull"
| "first_of attrs (k # ks) = (if attr attrs k \<noteq> JNull then attr attrs k else first_of attrs ks)"

definition coerce_int :: "json \<Rightarrow> int option result" where
  "coerce_int v =
     (if v = JNull then Inr None
      else case py_int v of
        Inr i \<Rightarrow> Inr (Some i)
      | Inl e \<Rightarrow> if e \<in> {TypeError, ValueError} then Inr None else Inl e)"

definition coerce_str_list :: "(nat \<Rightarrow> bool) \<Rightarrow> json \<Rightarrow> string list" where
  "coerce_str_list printable v = (case v of
     JNull \<Rightarrow> []
   | JList xs \<Rightarrow> map (py_str printable) xs
   | _ \<Rightarrow> [py_str printable v])"

definition has_key :: "dict \<Rightarrow> string \<Rightarrow> bool" where
  "has_key d k \<longleftrightarrow> map_of d k \<noteq> None"

definition detected_semconv :: "dict \<Rightarrow> string" where
  "detected_semconv attrs =
     (if has_key attrs A_PROVIDER \<or> has_key attrs A_INPUT_TOKENS then ''gen_ai/latest''
      else if has_key attrs A_PROVIDER_LEGACY \<or> has_key attrs A_INPUT_TOKENS_LEGACY
      then ''gen_ai/legacy'' else ''gen_ai/unknown'')"

section \<open>Cost\<close>

definition lookup_rates :: "dict \<Rightarrow> json \<Rightarrow> json result" where
  "lookup_rates pricing m =
     (if \<not> truthy m then Inr (attr pricing ''default'')
      else if \<not> hashable m then Inl TypeError
      else Inr (py_or (case m of JStr s \<Rightarrow> attr pricing s | _ \<Rightarrow> JNull) (attr pricing ''default'')))"

definition rate_cost :: "(nat \<Rightarrow> bool) \<Rightarrow> dict \<Rightarrow> string \<Rightarrow> int option \<Rightarrow> decimal \<Rightarrow> decimal result" where
  "rate_cost printable rates k tok cost = (case tok of
     None \<Rightarrow> Inr cost
   | Some n \<Rightarrow>
       (if n = 0 then Inr cost
        else sbind (parse_decimal (py_str printable (dget_or rates k (JInt 0)))) (\<lambda>rate.
             sbind (dec_times_int rate n) (\<lambda>x.
             sbind (dec_div_1000 x) (\<lambda>y. dec_add cost y)))))"

definition compute_cost ::
  "(nat \<Rightarrow> bool) \<Rightarrow> dict \<Rightarrow> json \<Rightarrow> int option \<Rightarrow> int option \<Rightarrow> string option result"
where
  "compute_cost printable pricing m in_tok out_tok =
     sbind (lookup_rates pricing m) (\<lambda>rates.
       if \<not> truthy rates then Inr None
       else case rates of
         JDict r \<Rightarrow>
           sbind (rate_cost printable r ''input_per_1k'' in_tok (DFinite 0 0)) (\<lambda>c.
           sbind (rate_cost printable r ''output_per_1k'' out_tok c) (\<lambda>c'.
             Inr (Some (format_6f c'))))
       | _ \<Rightarrow> if in_tok \<in> {None, Some 0} \<and> out_tok \<in> {None, Some 0}
             then Inr (Some (format_6f (DFinite 0 0))) else Inl AttributeError)"

section \<open>From span to event\<close>

definition payload_of :: "json \<Rightarrow> payload" where
  "payload_of v = (case v of JStr s \<Rightarrow> PStr s | _ \<Rightarrow> PValue v)"

definition content_ref :: "json \<Rightarrow> json result" where
  "content_ref v = (if v = JNull then Inr JNull else sbind (hash_payload (payload_of v)) (\<lambda>r. Inr (JStr r)))"

definition total_tokens :: "int option \<Rightarrow> int option \<Rightarrow> int option" where
  "total_tokens i out =
     (let a = (case i of None \<Rightarrow> 0 | Some n \<Rightarrow> n); b = (case out of None \<Rightarrow> 0 | Some n \<Rightarrow> n)
      in if a \<noteq> 0 \<or> b \<noteq> 0 then Some (a + b) else None)"

definition span_io :: "(nat \<Rightarrow> bool) \<Rightarrow> dict option \<Rightarrow> dict \<Rightarrow> io_ref option result" where
  "span_io printable pricing attrs =
     sbind (coerce_int (first_of attrs [A_INPUT_TOKENS, A_INPUT_TOKENS_LEGACY])) (\<lambda>i.
     sbind (coerce_int (first_of attrs [A_OUTPUT_TOKENS, A_OUTPUT_TOKENS_LEGACY])) (\<lambda>out.
     sbind (case pricing of
              None \<Rightarrow> Inr None
            | Some p \<Rightarrow>
                if p \<noteq> [] \<and> (i \<noteq> None \<or> out \<noteq> None)
                then compute_cost printable p (first_of attrs [A_REQUEST_MODEL, A_RESPONSE_MODEL]) i out
                else Inr None) (\<lambda>cost.
     sbind (content_ref (attr attrs A_PROMPT_LEGACY)) (\<lambda>input_ref.
     sbind (content_ref (attr attrs A_COMPLETION_LEGACY)) (\<lambda>output_ref.
     sbind (load_io_ref
       [(''input_ref'', input_ref), (''output_ref'', output_ref),
        (''input_tokens'', opt_int i), (''output_tokens'', opt_int out),
        (''total_tokens'', opt_int (total_tokens i out)), (''cost'', opt_str cost),
        (''cost_currency'', if cost = None then JNull else JStr ''USD'')]) (\<lambda>r.
       Inr (if dump_io_ref r \<noteq> [] then Some r else None)))))))"

definition any_value :: "dict \<Rightarrow> bool" where
  "any_value d \<longleftrightarrow> list_ex (\<lambda>kv. truthy (snd kv)) d"

definition span_model :: "dict \<Rightarrow> model_info option result" where
  "span_model attrs =
     sbind (load_model_info
       [(''provider'', first_of attrs [A_PROVIDER, A_PROVIDER_LEGACY]),
        (''request_model'', attr attrs A_REQUEST_MODEL),
        (''response_model'', attr attrs A_RESPONSE_MODEL)]) (\<lambda>m.
       Inr (if any_value (dump_model_info m) then Some m else None))"

definition span_tool :: "dict \<Rightarrow> tool_info option result" where
  "span_tool attrs =
     (if truthy (attr attrs A_TOOL_NAME) \<or> truthy (attr attrs A_TOOL_CALL_ID)
      then sbind (load_tool_info
          [(''name'', attr attrs A_TOOL_NAME), (''call_id'', attr attrs A_TOOL_CALL_ID)])
        (\<lambda>t. Inr (Some t))
      else Inr None)"

definition span_attrs :: "(nat \<Rightarrow> bool) \<Rightarrow> dict \<Rightarrow> dict" where
  "span_attrs printable attrs =
     (if truthy (attr attrs A_OPERATION) then [(''operation'', attr attrs A_OPERATION)] else [])
     @ (let finish = coerce_str_list printable (attr attrs A_FINISH_REASONS)
        in if finish \<noteq> [] then [(''finish_reasons'', JList (map JStr finish))] else [])
     @ (if truthy (attr attrs A_TOOL_TYPE) then [(''tool_type'', attr attrs A_TOOL_TYPE)] else [])
     @ [(''semconv'', JStr (detected_semconv attrs))]"

definition resolved_agent :: "string option \<Rightarrow> span_data \<Rightarrow> json" where
  "resolved_agent agent_id sp =
     py_or (opt_str agent_id)
       (py_or (attr (span_attributes sp) A_AGENT_NAME)
       (py_or (attr (span_resource sp) ''service.name'') (JStr ''unknown-agent'')))"

definition span_provenance :: "dict \<Rightarrow> provenance result" where
  "span_provenance attrs =
     (if truthy (attr attrs A_CONVERSATION_ID)
      then load_provenance [(''context_id'', attr attrs A_CONVERSATION_ID)]
      else load_provenance [])"

definition span_to_event ::
  "(nat \<Rightarrow> bool) \<Rightarrow> string \<Rightarrow> string option \<Rightarrow> dict option \<Rightarrow> span_data \<Rightarrow> compliance_event result"
where
  "span_to_event printable ts agent_id pricing sp =
     (let attrs = span_attributes sp in
      sbind (kind_of_operation (attr attrs A_OPERATION)) (\<lambda>k.
      sbind (span_io printable pricing attrs) (\<lambda>i.
      sbind (span_model attrs) (\<lambda>m.
      sbind (span_tool attrs) (\<lambda>t.
      sbind (load_actor [(''agent_id'', resolved_agent agent_id sp)]) (\<lambda>a.
      sbind (span_provenance attrs) (\<lambda>p.
      sbind (no_floats_in_attributes (span_attrs printable attrs)) (\<lambda>ats.
      sbind (load_source_meta
        [(''format'', JStr ''otel-genai''), (''span_id'', opt_str (span_span_id sp)),
         (''trace_id'', opt_str (span_trace_id sp))]) (\<lambda>s.
        Inr ((bare_event ts k a s)
          \<lparr>provenance := p, io := i, model := m, tool := t, attributes := ats\<rparr>))))))))))"

section \<open>Langfuse precedence\<close>

definition LF_SESSION_ID :: string where "LF_SESSION_ID = ''langfuse.session.id''"
definition LF_USER_ID :: string where "LF_USER_ID = ''langfuse.user.id''"
definition LF_ENVIRONMENT :: string where "LF_ENVIRONMENT = ''langfuse.environment''"
definition LF_OBS_MODEL :: string where "LF_OBS_MODEL = ''langfuse.observation.model.name''"
definition LF_OBS_INPUT :: string where "LF_OBS_INPUT = ''langfuse.observation.input''"
definition LF_OBS_OUTPUT :: string where "LF_OBS_OUTPUT = ''langfuse.observation.output''"
definition LF_OBS_LEVEL :: string where "LF_OBS_LEVEL = ''langfuse.observation.level''"
definition LF_OBS_TYPE :: string where "LF_OBS_TYPE = ''langfuse.observation.type''"
definition LF_TRACE_NAME :: string where "LF_TRACE_NAME = ''langfuse.trace.name''"

lemmas langfuse_names = LF_SESSION_ID_def LF_USER_ID_def LF_ENVIRONMENT_def LF_OBS_MODEL_def
  LF_OBS_INPUT_def LF_OBS_OUTPUT_def LF_OBS_LEVEL_def LF_OBS_TYPE_def LF_TRACE_NAME_def

definition has_langfuse_attributes :: "dict \<Rightarrow> bool" where
  "has_langfuse_attributes attrs \<longleftrightarrow> list_ex (\<lambda>kv. take 9 (fst kv) = ''langfuse.'') attrs"

definition langfuse_session :: "(nat \<Rightarrow> bool) \<Rightarrow> dict \<Rightarrow> compliance_event \<Rightarrow> compliance_event" where
  "langfuse_session printable attrs e =
     (if truthy (attr attrs LF_SESSION_ID)
      then e\<lparr>provenance := (provenance e)
        \<lparr>prov_context_id := Some (py_str printable (attr attrs LF_SESSION_ID))\<rparr>\<rparr>
      else e)"

definition langfuse_model :: "(nat \<Rightarrow> bool) \<Rightarrow> dict \<Rightarrow> compliance_event \<Rightarrow> compliance_event" where
  "langfuse_model printable attrs e =
     (if truthy (attr attrs LF_OBS_MODEL)
      then e\<lparr>model := Some ((or_else (model e) empty_model_info)
        \<lparr>model_request_model := Some (py_str printable (attr attrs LF_OBS_MODEL))\<rparr>)\<rparr>
      else e)"

definition langfuse_io :: "dict \<Rightarrow> compliance_event \<Rightarrow> compliance_event result" where
  "langfuse_io attrs e =
     (let i = attr attrs LF_OBS_INPUT; out = attr attrs LF_OBS_OUTPUT; r = or_else (io e) empty_io_ref
      in if i = JNull \<and> out = JNull then Inr e
         else sbind (if i = JNull then Inr r
                     else sbind (hash_payload (payload_of i)) (\<lambda>h. Inr (r\<lparr>io_input_ref := Some h\<rparr>))) (\<lambda>r.
              sbind (if out = JNull then Inr r
                     else sbind (hash_payload (payload_of out)) (\<lambda>h. Inr (r\<lparr>io_output_ref := Some h\<rparr>))) (\<lambda>r.
                Inr (e\<lparr>io := Some r\<rparr>))))"

definition langfuse_labels :: "(string \<times> string) list" where
  "langfuse_labels =
     [(LF_USER_ID, ''user_id''), (LF_ENVIRONMENT, ''environment''), (LF_OBS_LEVEL, ''level''),
      (LF_OBS_TYPE, ''observation_type''), (LF_TRACE_NAME, ''trace_name'')]"

definition langfuse_attributes :: "(nat \<Rightarrow> bool) \<Rightarrow> dict \<Rightarrow> dict \<Rightarrow> dict" where
  "langfuse_attributes printable attrs d =
     foldl (\<lambda>d (k, label). if attr attrs k = JNull then d
         else dput (''langfuse.'' @ label) (JStr (py_str printable (attr attrs k))) d)
       d langfuse_labels"

definition apply_langfuse_precedence ::
  "(nat \<Rightarrow> bool) \<Rightarrow> dict \<Rightarrow> compliance_event \<Rightarrow> compliance_event result"
where
  "apply_langfuse_precedence printable attrs e =
     (if \<not> has_langfuse_attributes attrs then Inr e
      else sbind (langfuse_io attrs (langfuse_model printable attrs (langfuse_session printable attrs e)))
        (\<lambda>e. Inr (e\<lparr>attributes := dput ''langfuse_precedence_applied'' (JBool True)
          (langfuse_attributes printable attrs (attributes e))\<rparr>)))"

section \<open>A2A provenance\<close>

definition A2A_TASK_ID :: string where "A2A_TASK_ID = ''a2a.task.id''"
definition A2A_CONTEXT_ID :: string where "A2A_CONTEXT_ID = ''a2a.context.id''"
definition A2A_REFERENCE_TASK_IDS :: string where "A2A_REFERENCE_TASK_IDS = ''a2a.reference_task_ids''"

lemmas a2a_names = A2A_TASK_ID_def A2A_CONTEXT_ID_def A2A_REFERENCE_TASK_IDS_def

type_synonym known_tasks = "(string \<times> provenance) list"

definition root_of_parent :: "known_tasks \<Rightarrow> string \<Rightarrow> string" where
  "root_of_parent known parent =
     (case map_of known parent of
        Some p \<Rightarrow> (case prov_root_task_id p of Some r \<Rightarrow> if r \<noteq> [] then r else parent | None \<Rightarrow> parent)
      | None \<Rightarrow> parent)"

definition reconstruct_provenance ::
  "string option \<Rightarrow> string option \<Rightarrow> string list option \<Rightarrow> known_tasks \<Rightarrow> provenance"
where
  "reconstruct_provenance task_id context_id reference_task_ids known =
     (let parent = (case reference_task_ids of Some (p # ps) \<Rightarrow> Some p | _ \<Rightarrow> None);
          rt = (case parent of
            Some p \<Rightarrow> if p \<noteq> [] then Some (root_of_parent known p) else task_id
          | None \<Rightarrow> task_id)
      in \<lparr>prov_task_id = task_id, prov_context_id = context_id, prov_parent_task_id = parent,
          prov_root_task_id = rt, prov_extra = []\<rparr>)"

definition provenance_from_attributes ::
  "(nat \<Rightarrow> bool) \<Rightarrow> dict \<Rightarrow> known_tasks \<Rightarrow> provenance option"
where
  "provenance_from_attributes printable attrs known =
     (let task_id = attr attrs A2A_TASK_ID; refs = attr attrs A2A_REFERENCE_TASK_IDS;
          ctx = attr attrs A2A_CONTEXT_ID
      in if \<not> truthy task_id then None
         else let ref_list = (case refs of JList xs \<Rightarrow> xs | _ \<Rightarrow> if truthy refs then [refs] else [])
              in Some (reconstruct_provenance (Some (py_str printable task_id))
                   (if truthy ctx then Some (py_str printable ctx) else None)
                   (if ref_list \<noteq> [] then Some (map (py_str printable) ref_list) else None) known))"

section \<open>Normalization\<close>

record normalizer =
  nz_printable :: "nat \<Rightarrow> bool"
  nz_agent_id :: "string option"
  nz_pricing :: "dict option"

definition span_timestamp :: "string \<Rightarrow> span_data \<Rightarrow> string result" where
  "span_timestamp now sp = (case span_start_time_unix_nano sp of
     None \<Rightarrow> Inr now
   | Some n \<Rightarrow> if n = 0 then Inr now else to_rfc3339 (TInt n))"

definition remember :: "provenance option \<Rightarrow> known_tasks \<Rightarrow> known_tasks" where
  "remember prov known = (case prov of
     None \<Rightarrow> known
   | Some p \<Rightarrow> (case prov_task_id p of
       None \<Rightarrow> known
     | Some t \<Rightarrow> if t = [] then known else dput t p known))"

definition normalize ::
  "normalizer \<Rightarrow> string \<Rightarrow> known_tasks \<Rightarrow> span_data \<Rightarrow> (compliance_event \<times> known_tasks) result"
where
  "normalize nz now known sp =
     sbind (span_timestamp now sp) (\<lambda>ts.
     sbind (span_to_event (nz_printable nz) ts (nz_agent_id nz) (nz_pricing nz) sp) (\<lambda>e.
     sbind (apply_langfuse_precedence (nz_printable nz) (span_attributes sp) e) (\<lambda>e.
       let prov = provenance_from_attributes (nz_printable nz) (span_attributes sp) known
       in Inr (case prov of None \<Rightarrow> e | Some p \<Rightarrow> e\<lparr>provenance := p\<rparr>, remember prov known))))"

end
