(* ===== verification/Span_Laws.thy ===== *)
theory Span_Laws imports Spans begin

text \<open>
  Facts on normalization: what it reads of a span's attributes, the well-formedness of the
  events it makes, and the task lineage it keeps.
\<close>

section \<open>What a lookup reads\<close>

definition content_keys :: "string set" where
  "content_keys = {A_PROMPT_LEGACY, A_COMPLETION_LEGACY, LF_OBS_INPUT, LF_OBS_OUTPUT}"

text \<open>Attributes that agree except for the raw content, whose references agree.\<close>

definition same_refs :: "dict \<Rightarrow> dict \<Rightarrow> bool" where
  "same_refs A B \<longleftrightarrow> dom (map_of A) = dom (map_of B)
     \<and> (\<forall>k. k \<notin> content_keys \<longrightarrow> map_of A k = map_of B k)
     \<and> (\<forall>k. k \<in> content_keys \<longrightarrow> (attr A k = JNull) = (attr B k = JNull)
          \<and> hash_payload (payload_of (attr A k)) = hash_payload (payload_of (attr B k)))"

lemma sbind_assoc: "sbind (sbind r f) g = sbind r (\<lambda>a. sbind (f a) g)"
  by (cases r) simp_all

lemma has_langfuse_dom:
  "has_langfuse_attributes A \<longleftrightarrow> (\<exists>k \<in> dom (map_of A). take 9 k = ''langfuse.'')"
  by (auto simp: has_langfuse_attributes_def list_ex_iff dom_map_of_conv_image_fst image_iff)

lemma same_refs_attr: "same_refs A B \<Longrightarrow> k \<notin> content_keys \<Longrightarrow> attr A k = attr B k"
  by (simp add: same_refs_def dget_or_def)

lemma same_refs_key: "same_refs A B \<Longrightarrow> has_key A k = has_key B k"
  by (auto simp: same_refs_def has_key_def domIff set_eq_iff)

lemma same_refs_first:
  "same_refs A B \<Longrightarrow> set ks \<inter> content_keys = {} \<Longrightarrow> first_of A ks = first_of B ks"
  by (induction ks) (auto simp: same_refs_attr)

named_theorems plain_keys \<open>the keys read as they are\<close>

lemma not_content [plain_keys]:
  "A_OPERATION \<notin> content_keys" "A_PROVIDER \<notin> content_keys" "A_PROVIDER_LEGACY \<notin> content_keys"
  "A_REQUEST_MODEL \<notin> content_keys" "A_RESPONSE_MODEL \<notin> content_keys"
  "A_INPUT_TOKENS \<notin> content_keys" "A_INPUT_TOKENS_LEGACY \<notin> content_keys"
  "A_OUTPUT_TOKENS \<notin> content_keys" "A_OUTPUT_TOKENS_LEGACY \<notin> content_keys"
  "A_FINISH_REASONS \<notin> content_keys" "A_TOOL_NAME \<notin> content_keys" "A_TOOL_CALL_ID \<notin> content_keys"
  "A_TOOL_TYPE \<notin> content_keys" "A_CONVERSATION_ID \<notin> content_keys" "A_AGENT_NAME \<notin> content_keys"
  "LF_SESSION_ID \<notin> content_keys" "LF_USER_ID \<notin> content_keys" "LF_ENVIRONMENT \<notin> content_keys"
  "LF_OBS_MODEL \<notin> content_keys" "LF_OBS_LEVEL \<notin> content_keys" "LF_OBS_TYPE \<notin> content_keys"
  "LF_TRACE_NAME \<notin> content_keys" "A2A_TASK_ID \<notin> content_keys" "A2A_CONTEXT_ID \<notin> content_keys"
  "A2A_REFERENCE_TASK_IDS \<notin> content_keys"
  unfolding content_keys_def attribute_names langfuse_names a2a_names by simp_all

lemma content_key [plain_keys]:
  "A_PROMPT_LEGACY \<in> content_keys" "A_COMPLETION_LEGACY \<in> content_keys"
  "LF_OBS_INPUT \<in> content_keys" "LF_OBS_OUTPUT \<in> content_keys"
  by (simp_all add: content_keys_def)

lemma same_firsts:
  assumes "same_refs A B"
  shows "first_of A [A_INPUT_TOKENS, A_INPUT_TOKENS_LEGACY] = first_of B [A_INPUT_TOKENS, A_INPUT_TOKENS_LEGACY]"
    "first_of A [A_OUTPUT_TOKENS, A_OUTPUT_TOKENS_LEGACY] = first_of B [A_OUTPUT_TOKENS, A_OUTPUT_TOKENS_LEGACY]"
    "first_of A [A_REQUEST_MODEL, A_RESPONSE_MODEL] = first_of B [A_REQUEST_MODEL, A_RESPONSE_MODEL]"
    "first_of A [A_PROVIDER, A_PROVIDER_LEGACY] = first_of B [A_PROVIDER, A_PROVIDER_LEGACY]"
  using same_refs_first [OF assms] by (simp_all add: plain_keys del: first_of.simps)

lemma same_hash:
  assumes "same_refs A B" "k \<in> content_keys"
  shows "(attr A k = JNull) = (attr B k = JNull)"
    and "hash_payload (payload_of (attr A k)) = hash_payload (payload_of (attr B k))"
  using assms by (simp_all add: same_refs_def)

lemma same_content: "same_refs A B \<Longrightarrow> k \<in> content_keys \<Longrightarrow> content_ref (attr A k) = content_ref (attr B k)"
  by (simp add: content_ref_def same_hash)

lemma same_io:
  assumes "same_refs A B"
  shows "span_io printable pricing A = span_io printable pricing B"
  unfolding span_io_def same_firsts [OF assms] content_key [THEN same_content [OF assms]] by (rule refl)

lemma with_attributes:
  "span_attributes (sp\<lparr>span_attributes := A\<rparr>) = A" "span_resource (sp\<lparr>span_attributes := A\<rparr>) = span_resource sp"
  "span_span_id (sp\<lparr>span_attributes := A\<rparr>) = span_span_id sp"
  "span_trace_id (sp\<lparr>span_attributes := A\<rparr>) = span_trace_id sp"
  by simp_all

lemma same_event:
  assumes "same_refs A B"
  shows "span_to_event printable ts agent_id pricing (sp\<lparr>span_attributes := A\<rparr>)
    = span_to_event printable ts agent_id pricing (sp\<lparr>span_attributes := B\<rparr>)"
  unfolding span_to_event_def resolved_agent_def span_provenance_def span_attrs_def span_tool_def
    span_model_def detected_semconv_def Let_def with_attributes same_firsts [OF assms]
    same_io [OF assms] same_refs_key [OF assms] not_content [THEN same_refs_attr [OF assms]]
  by (rule refl)

lemma same_langfuse_io:
  assumes "same_refs A B"
  shows "langfuse_io A e = langfuse_io B e"
  unfolding langfuse_io_def Let_def content_key(3,4) [THEN same_hash(1) [OF assms]]
    content_key(3,4) [THEN same_hash(2) [OF assms]]
  by (rule refl)

lemma same_langfuse:
  assumes "same_refs A B"
  shows "apply_langfuse_precedence printable A e = apply_langfuse_precedence printable B e"
proof -
  have "has_langfuse_attributes A = has_langfuse_attributes B"
    using assms by (simp add: has_langfuse_dom same_refs_def)
  then show ?thesis
    unfolding apply_langfuse_precedence_def langfuse_model_def langfuse_session_def
      langfuse_attributes_def langfuse_labels_def foldl.simps prod.case
      same_langfuse_io [OF assms] not_content [THEN same_refs_attr [OF assms]]
    by simp
qed

lemma same_provenance:
  assumes "same_refs A B"
  shows "provenance_from_attributes printable A known = provenance_from_attributes printable B known"
  unfolding provenance_from_attributes_def Let_def not_content [THEN same_refs_attr [OF assms]] by (rule refl)

lemma same_normalize:
  "same_refs A B \<Longrightarrow>
    normalize nz now known (sp\<lparr>span_attributes := A\<rparr>) = normalize nz now known (sp\<lparr>span_attributes := B\<rparr>)"
  unfolding normalize_def by (simp add: same_event same_langfuse same_provenance span_timestamp_def)

section \<open>Legacy attribute names\<close>

definition legacy_names :: "(string \<times> string) list" where
  "legacy_names = [(A_PROVIDER_LEGACY, A_PROVIDER), (A_INPUT_TOKENS_LEGACY, A_INPUT_TOKENS),
     (A_OUTPUT_TOKENS_LEGACY, A_OUTPUT_TOKENS)]"

definition current_name :: "string \<Rightarrow> string" where
  "current_name k = (case map_of legacy_names k of Some k' \<Rightarrow> k' | None \<Rightarrow> k)"

definition modernize :: "dict \<Rightarrow> dict" where
  "modernize d = map (\<lambda>(k, v). (current_name k, v)) d"

definition only_legacy :: "dict \<Rightarrow> bool" where
  "only_legacy d \<longleftrightarrow> \<not> has_key d A_PROVIDER \<and> \<not> has_key d A_INPUT_TOKENS \<and> \<not> has_key d A_OUTPUT_TOKENS"

text \<open>What normalization reads of the conventions besides the tag of their generation.\<close>

definition same_reading :: "dict \<Rightarrow> dict \<Rightarrow> bool" where
  "same_reading A B \<longleftrightarrow>
     (\<forall>k. k \<notin> fst ` set legacy_names \<union> snd ` set legacy_names \<longrightarrow> attr A k = attr B k)
     \<and> first_of A [A_PROVIDER, A_PROVIDER_LEGACY] = first_of B [A_PROVIDER, A_PROVIDER_LEGACY]
     \<and> first_of A [A_INPUT_TOKENS, A_INPUT_TOKENS_LEGACY] = first_of B [A_INPUT_TOKENS, A_INPUT_TOKENS_LEGACY]
     \<and> first_of A [A_OUTPUT_TOKENS, A_OUTPUT_TOKENS_LEGACY] = first_of B [A_OUTPUT_TOKENS, A_OUTPUT_TOKENS_LEGACY]"

definition without_semconv :: "compliance_event \<Rightarrow> compliance_event" where
  "without_semconv e = e\<lparr>attributes := dpop ''semconv'' (attributes e)\<rparr>"

lemma legacy_names_unfold:
  "current_name k = (if k = A_PROVIDER_LEGACY then A_PROVIDER
     else if k = A_INPUT_TOKENS_LEGACY then A_INPUT_TOKENS
     else if k = A_OUTPUT_TOKENS_LEGACY then A_OUTPUT_TOKENS else k)"
  by (simp add: current_name_def legacy_names_def)

lemma map_of_rename_none:
  assumes "\<And>k. f k \<noteq> c"
  shows "map_of (map (\<lambda>(k, v). (f k, v)) d) c = None"
  using assms by (induction d) (simp_all add: split_beta eq_commute [of c])

lemma map_of_rename:
  assumes f: "\<And>k. f k = c \<longleftrightarrow> k \<in> {c, l}"
  shows "map_of d c = None \<Longrightarrow> map_of (map (\<lambda>(k, v). (f k, v)) d) c = map_of d l"
proof (induction d)
  case (Cons kv d)
  obtain k v where kv: "kv = (k, v)" by (cases kv)
  then have "k \<noteq> c" "map_of d c = None" using Cons.prems by (auto split: if_splits)
  with Cons.IH f [of k] kv show ?case by (auto simp: eq_commute [of c])
qed simp

lemma map_of_modernize_other:
  assumes "k \<notin> fst ` set legacy_names \<union> snd ` set legacy_names"
  shows "map_of (modernize d) k = map_of d k"
  using assms unfolding modernize_def legacy_names_def
  by (induction d) (auto simp: legacy_names_unfold split: if_splits)

lemma modernize_legacy_gone:
  "map_of (modernize d) A_PROVIDER_LEGACY = None" "map_of (modernize d) A_INPUT_TOKENS_LEGACY = None"
  "map_of (modernize d) A_OUTPUT_TOKENS_LEGACY = None"
proof -
  have neq: "current_name k \<noteq> A_PROVIDER_LEGACY" "current_name k \<noteq> A_INPUT_TOKENS_LEGACY"
    "current_name k \<noteq> A_OUTPUT_TOKENS_LEGACY" for k
    unfolding legacy_names_unfold by (simp_all add: attribute_names)
  show "map_of (modernize d) A_PROVIDER_LEGACY = None" "map_of (modernize d) A_INPUT_TOKENS_LEGACY = None"
    "map_of (modernize d) A_OUTPUT_TOKENS_LEGACY = None"
    using map_of_rename_none [of current_name, OF neq(1)] map_of_rename_none [of current_name, OF neq(2)]
      map_of_rename_none [of current_name, OF neq(3)]
    by (simp_all add: modernize_def)
qed

lemma modernize_current:
  assumes "only_legacy d"
  shows "map_of (modernize d) A_PROVIDER = map_of d A_PROVIDER_LEGACY"
    "map_of (modernize d) A_INPUT_TOKENS = map_of d A_INPUT_TOKENS_LEGACY"
    "map_of (modernize d) A_OUTPUT_TOKENS = map_of d A_OUTPUT_TOKENS_LEGACY"
proof -
  have eq: "current_name k = A_PROVIDER \<longleftrightarrow> k \<in> {A_PROVIDER, A_PROVIDER_LEGACY}"
    "current_name k = A_INPUT_TOKENS \<longleftrightarrow> k \<in> {A_INPUT_TOKENS, A_INPUT_TOKENS_LEGACY}"
    "current_name k = A_OUTPUT_TOKENS \<longleftrightarrow> k \<in> {A_OUTPUT_TOKENS, A_OUTPUT_TOKENS_LEGACY}" for k
    unfolding legacy_names_unfold by (auto simp: attribute_names)
  show "map_of (modernize d) A_PROVIDER = map_of d A_PROVIDER_LEGACY"
    "map_of (modernize d) A_INPUT_TOKENS = map_of d A_INPUT_TOKENS_LEGACY"
    "map_of (modernize d) A_OUTPUT_TOKENS = map_of d A_OUTPUT_TOKENS_LEGACY"
    using map_of_rename [of current_name A_PROVIDER A_PROVIDER_LEGACY d, OF eq(1)]
      map_of_rename [of current_name A_INPUT_TOKENS A_INPUT_TOKENS_LEGACY d, OF eq(2)]
      map_of_rename [of current_name A_OUTPUT_TOKENS A_OUTPUT_TOKENS_LEGACY d, OF eq(3)] assms
    by (simp_all add: modernize_def only_legacy_def has_key_def)
qed

lemma same_reading_modernize:
  assumes "only_legacy d"
  shows "same_reading d (modernize d)"
  using assms modernize_current [OF assms] modernize_legacy_gone [of d]
  by (auto simp: same_reading_def dget_or_def map_of_modernize_other only_legacy_def has_key_def)

lemma reading_attr:
  assumes "same_reading A B"
  shows "attr A A_OPERATION = attr B A_OPERATION" "attr A A_REQUEST_MODEL = attr B A_REQUEST_MODEL"
    "attr A A_RESPONSE_MODEL = attr B A_RESPONSE_MODEL" "attr A A_FINISH_REASONS = attr B A_FINISH_REASONS"
    "attr A A_TOOL_NAME = attr B A_TOOL_NAME" "attr A A_TOOL_CALL_ID = attr B A_TOOL_CALL_ID"
    "attr A A_TOOL_TYPE = attr B A_TOOL_TYPE" "attr A A_CONVERSATION_ID = attr B A_CONVERSATION_ID"
    "attr A A_AGENT_NAME = attr B A_AGENT_NAME" "attr A A_PROMPT_LEGACY = attr B A_PROMPT_LEGACY"
    "attr A A_COMPLETION_LEGACY = attr B A_COMPLETION_LEGACY"
  using assms unfolding same_reading_def legacy_names_def by (simp_all add: attribute_names)

lemma reading_first:
  assumes "same_reading A B"
  shows "first_of A [A_PROVIDER, A_PROVIDER_LEGACY] = first_of B [A_PROVIDER, A_PROVIDER_LEGACY]"
    "first_of A [A_INPUT_TOKENS, A_INPUT_TOKENS_LEGACY] = first_of B [A_INPUT_TOKENS, A_INPUT_TOKENS_LEGACY]"
    "first_of A [A_OUTPUT_TOKENS, A_OUTPUT_TOKENS_LEGACY] = first_of B [A_OUTPUT_TOKENS, A_OUTPUT_TOKENS_LEGACY]"
    "first_of A [A_REQUEST_MODEL, A_RESPONSE_MODEL] = first_of B [A_REQUEST_MODEL, A_RESPONSE_MODEL]"
  using assms reading_attr [OF assms] by (simp_all add: same_reading_def del: first_of.simps)
    (simp add: reading_attr [OF assms])

lemma span_attrs_split:
  "span_attrs printable A = dpop ''semconv'' (span_attrs printable A) @ [(''semconv'', JStr (detected_semconv A))]"
  by (simp add: span_attrs_def dpop_def Let_def)

lemma same_reading_event:
  assumes "same_reading A B"
  shows "sbind (span_to_event printable ts agent_id pricing (sp\<lparr>span_attributes := A\<rparr>)) (\<lambda>e. Inr (without_semconv e))
    = sbind (span_to_event printable ts agent_id pricing (sp\<lparr>span_attributes := B\<rparr>)) (\<lambda>e. Inr (without_semconv e))"
proof -
  have ats: "dpop ''semconv'' (span_attrs printable A) = dpop ''semconv'' (span_attrs printable B)"
    unfolding span_attrs_def reading_attr [OF assms] by (simp add: dpop_def Let_def)
  have ok: "no_floats_in_attributes (span_attrs printable C)
    = (if float_free (JDict (dpop ''semconv'' (span_attrs printable C))) then Inr (span_attrs printable C) else Inl ValueError)" for C
  proof -
    have "float_free (JDict (span_attrs printable C)) \<longleftrightarrow> float_free (JDict (dpop ''semconv'' (span_attrs printable C)))"
      by (subst span_attrs_split) simp
    then show ?thesis by (simp add: no_floats_in_attributes_def)
  qed
  have io: "span_io printable pricing A = span_io printable pricing B"
    unfolding span_io_def reading_first [OF assms] reading_attr [OF assms] by (rule refl)
  have m: "span_model A = span_model B" "span_tool A = span_tool B" "span_provenance A = span_provenance B"
    unfolding span_model_def span_tool_def span_provenance_def reading_first [OF assms] reading_attr [OF assms]
    by (rule refl)+
  show ?thesis
    unfolding span_to_event_def Let_def with_attributes resolved_agent_def io m ok ats reading_attr [OF assms]
    by (cases "kind_of_operation (attr B A_OPERATION)"; cases "span_io printable pricing B";
        cases "span_model B"; cases "span_tool B"; cases "span_provenance B")
      (simp_all add: sbind_assoc without_semconv_def ats)
qed

section \<open>Task lineage\<close>

text \<open>The task a chain of parents starts from.\<close>

inductive leads_to :: "known_tasks \<Rightarrow> string \<Rightarrow> string \<Rightarrow> bool" for known :: known_tasks where
  chain_top: "map_of known t = Some p \<Longrightarrow> prov_parent_task_id p = None \<Longrightarrow> leads_to known t t"
| chain_up: "map_of known t = Some p \<Longrightarrow> prov_parent_task_id p = Some q \<Longrightarrow> leads_to known q r \<Longrightarrow>
    leads_to known t r"

definition rooted :: "known_tasks \<Rightarrow> bool" where
  "rooted known \<longleftrightarrow> (\<forall>t p. map_of known t = Some p \<longrightarrow> t \<noteq> [] \<and>
     (\<exists>r. r \<noteq> [] \<and> prov_root_task_id p = Some r \<and> leads_to known t r))"

lemma leads_to_more:
  assumes "leads_to known t r" "map_of known new = None"
  shows "leads_to (dput new p known) t r"
proof -
  have keep: "map_of (dput new p known) u = Some q" if "map_of known u = Some q" for u q
    using that assms(2) by (auto simp: dput_def update_conv')
  from assms(1) show ?thesis
    by (induction rule: leads_to.induct) (blast intro: leads_to.intros keep)+
qed

inductive_cases leads_toE: "leads_to known t r"

lemma leads_to_unique:
  "leads_to known t r \<Longrightarrow> leads_to known t r' \<Longrightarrow> r = r'"
proof (induction arbitrary: r' rule: leads_to.induct)
  case (chain_top t p)
  from chain_top(3) show ?case by (rule leads_toE) (use chain_top(1,2) in simp_all)
next
  case (chain_up t p q r)
  from chain_up(5) show ?case by (rule leads_toE) (use chain_up(1,2,4) in simp_all)
qed

text \<open>A span that refers to a known task, or to none, under a task id not seen before.\<close>

definition in_order :: "(nat \<Rightarrow> bool) \<Rightarrow> dict \<Rightarrow> known_tasks \<Rightarrow> bool" where
  "in_order printable attrs known \<longleftrightarrow> (case provenance_from_attributes printable attrs known of
     None \<Rightarrow> True
   | Some p \<Rightarrow> (case prov_task_id p of Some t \<Rightarrow> t \<noteq> [] \<and> map_of known t = None | None \<Rightarrow> False)
       \<and> (case prov_parent_task_id p of Some q \<Rightarrow> map_of known q \<noteq> None | None \<Rightarrow> True))"

lemma provenance_shape:
  assumes "provenance_from_attributes printable attrs known = Some p"
  obtains t where "prov_task_id p = Some t"
    and "prov_root_task_id p = (case prov_parent_task_id p of
      Some q \<Rightarrow> if q \<noteq> [] then Some (root_of_parent known q) else Some t | None \<Rightarrow> Some t)"
  using assms that
  by (auto simp: provenance_from_attributes_def reconstruct_provenance_def Let_def
      split: if_splits option.splits list.splits)

lemma rooted_remember:
  assumes "rooted known" "in_order printable attrs known"
  shows "rooted (remember (provenance_from_attributes printable attrs known) known)"
proof (cases "provenance_from_attributes printable attrs known")
  case (Some p)
  from provenance_shape [OF Some] obtain t where t: "prov_task_id p = Some t" and
    root: "prov_root_task_id p = (case prov_parent_task_id p of
      Some q \<Rightarrow> if q \<noteq> [] then Some (root_of_parent known q) else Some t | None \<Rightarrow> Some t)" .
  have new: "t \<noteq> []" "map_of known t = None"
    and par: "\<And>q. prov_parent_task_id p = Some q \<Longrightarrow> map_of known q \<noteq> None"
    using assms(2) Some t by (auto simp: in_order_def split: option.splits)
  let ?k = "dput t p known"
  have look: "map_of ?k u = (if u = t then Some p else map_of known u)" for u
    by (auto simp: dput_def update_conv')
  have "\<exists>r. r \<noteq> [] \<and> prov_root_task_id p = Some r \<and> leads_to ?k t r"
  proof (cases "prov_parent_task_id p")
    case None
    then show ?thesis using new root leads_to.chain_top [of ?k t p] look by auto
  next
    case (Some q)
    obtain pq where pq: "map_of known q = Some pq" using par [OF Some] by auto
    with assms(1) obtain r where r: "q \<noteq> []" "r \<noteq> []" "prov_root_task_id pq = Some r" "leads_to known q r"
      unfolding rooted_def by blast
    have "leads_to ?k t r"
      using leads_to.chain_up [of ?k t p q r] leads_to_more [OF r(4) new(2)] look Some by auto
    with r pq root Some show ?thesis by (simp add: root_of_parent_def)
  qed
  moreover have "\<exists>r. r \<noteq> [] \<and> prov_root_task_id pu = Some r \<and> leads_to ?k u r" "u \<noteq> []"
    if "map_of known u = Some pu" for u pu
    using assms(1) that leads_to_more [OF _ new(2)] unfolding rooted_def by blast+
  ultimately have "rooted ?k" using new(1) by (auto simp: rooted_def look split: if_splits)
  with Some t new(1) show ?thesis by (simp add: remember_def)
qed (use assms in \<open>simp add: remember_def\<close>)

section \<open>The events of spans\<close>

definition wf_span :: "span_data \<Rightarrow> bool" where
  "wf_span sp \<longleftrightarrow> wf_dicts (JDict (span_attributes sp))"

lemma wf_attr: "wf_dicts (JDict d) \<Longrightarrow> wf_dicts (attr d k)"
  by (auto simp: dget_or_def split: option.split dest: map_of_SomeD)

lemma wf_span_attrs:
  assumes "wf_dicts (JDict d)"
  shows "wf_dicts (JDict (span_attrs printable d))"
  using assms wf_attr [OF assms] by (auto simp: span_attrs_def Let_def)

lemma load_actor_agent: "load_actor [(''agent_id'', v)] = Inr a \<Longrightarrow> wf_actor a"
  by (auto simp: load_actor_def get_opt_def get_str_def sbind_Inr_conv wf_actor_def extras_of_def
      actor_fields_def good_extras_def good_value_def)

lemma load_provenance_context:
  "load_provenance [] = Inr p \<Longrightarrow> wf_provenance p" "load_provenance [(''context_id'', v)] = Inr p \<Longrightarrow> wf_provenance p"
  by (auto simp: load_provenance_def get_opt_def sbind_Inr_conv wf_provenance_def extras_of_def
      provenance_fields_def good_extras_def good_value_def)

lemma load_source_span:
  "load_source_meta [(''format'', f), (''span_id'', u), (''trace_id'', v)] = Inr s \<Longrightarrow> wf_source_meta s"
  by (auto simp: load_source_meta_def get_opt_def get_str_def sbind_Inr_conv wf_source_meta_def
      extras_of_def source_meta_fields_def good_extras_def good_value_def)

lemma load_io_ref_extra: "load_io_ref d = Inr r \<Longrightarrow> io_extra r = extras_of io_ref_fields d"
  unfolding load_io_ref_def sbind_Inr_conv by (elim exE conjE, drule Inr_inject, hypsubst, simp)

lemma wf_span_io:
  assumes "span_io printable pricing d = Inr r"
  shows "wf_opt wf_io_ref r"
proof -
  have "wf_io_ref x" if "load_io_ref [(''input_ref'', a), (''output_ref'', b), (''input_tokens'', c),
      (''output_tokens'', f), (''total_tokens'', g), (''cost'', h), (''cost_currency'', i)] = Inr x"
    for a b c f g h i x
    using load_io_ref_extra [OF that]
    by (simp add: wf_io_ref_def extras_of_def io_ref_fields_def good_extras_def good_value_def)
  then have ok: "wf_opt wf_io_ref (if dump_io_ref x \<noteq> [] then Some x else None)"
    if "load_io_ref [(''input_ref'', a), (''output_ref'', b), (''input_tokens'', c),
      (''output_tokens'', f), (''total_tokens'', g), (''cost'', h), (''cost_currency'', i)] = Inr x"
    for a b c f g h i x
    using that by simp
  from assms obtain a b c f g h i x where
    "load_io_ref [(''input_ref'', a), (''output_ref'', b), (''input_tokens'', c),
      (''output_tokens'', f), (''total_tokens'', g), (''cost'', h), (''cost_currency'', i)] = Inr x"
    "(if dump_io_ref x \<noteq> [] then Some x else None) = r"
    unfolding span_io_def sbind_Inr_conv sum.inject by blast
  from ok [OF this(1)] this(2) show ?thesis by (simp only:)
qed

lemma wf_span_model: "span_model d = Inr r \<Longrightarrow> wf_opt wf_model_info r"
  by (auto simp: span_model_def sbind_Inr_conv load_model_info_def wf_model_info_def extras_of_def
      model_info_fields_def good_extras_def good_value_def split: if_splits)

lemma wf_span_tool: "span_tool d = Inr r \<Longrightarrow> wf_opt wf_tool_info r"
  by (auto simp: span_tool_def sbind_Inr_conv load_tool_info_def wf_tool_info_def extras_of_def
      tool_info_fields_def good_extras_def good_value_def split: if_splits)

lemma wf_span_event:
  assumes "span_to_event printable ts agent_id pricing sp = Inr e" "wf_span sp"
  shows "wf_event e" "attributes e = span_attrs printable (span_attributes sp)"
proof -
  let ?d = "span_attributes sp"
  from assms(1) obtain k i m t a p ats s where
    parts: "span_io printable pricing ?d = Inr i" "span_model ?d = Inr m" "span_tool ?d = Inr t"
      "load_actor [(''agent_id'', resolved_agent agent_id sp)] = Inr a" "span_provenance ?d = Inr p"
      "no_floats_in_attributes (span_attrs printable ?d) = Inr ats"
      "load_source_meta [(''format'', JStr ''otel-genai''), (''span_id'', opt_str (span_span_id sp)),
         (''trace_id'', opt_str (span_trace_id sp))] = Inr s"
    and e: "e = (bare_event ts k a s) \<lparr>provenance := p, io := i, model := m, tool := t, attributes := ats\<rparr>"
    unfolding span_to_event_def Let_def sbind_Inr_conv by blast
  have ats: "ats = span_attrs printable ?d" "float_free (JDict ats)"
    using parts(6) by (auto simp: no_floats_in_attributes_def split: if_splits)
  have p: "wf_provenance p"
    using parts(5) load_provenance_context by (auto simp: span_provenance_def split: if_splits)
  have "good_value (JDict ats)"
    using ats wf_span_attrs [of ?d printable] assms(2) by (simp add: good_value_def wf_span_def)
  with p show "wf_event e"
    using load_actor_agent [OF parts(4)] load_source_span [OF parts(7)] wf_span_io [OF parts(1)]
      wf_span_model [OF parts(2)] wf_span_tool [OF parts(3)]
    by (simp add: e wf_event_def bare_event_def good_extras_def good_value_def)
  show "attributes e = span_attrs printable ?d" by (simp add: e ats)
qed

lemma good_dput:
  assumes "good_value (JDict d)" "good_value v"
  shows "good_value (JDict (dput k v d))"
proof -
  have "set (dput k v d) \<subseteq> insert (k, v) (set d)" unfolding dput_def by (induction d) auto
  with assms show ?thesis
    by (auto simp: good_value_def list_all_iff dput_def distinct_update)
qed

lemma foldl_keeps:
  "P d \<Longrightarrow> (\<And>d x. x \<in> set xs \<Longrightarrow> P d \<Longrightarrow> P (f d x)) \<Longrightarrow> P (foldl f d xs)"
  by (induction xs arbitrary: d) simp_all

lemma langfuse_attributes_good:
  assumes "good_value (JDict d)" "map_of d ''marker'' = None"
  shows "good_value (JDict (langfuse_attributes printable A d))
    \<and> map_of (langfuse_attributes printable A d) ''marker'' = None"
  unfolding langfuse_attributes_def
proof (rule foldl_keeps)
  fix d :: dict and x :: "string \<times> string"
  assume "good_value (JDict d) \<and> map_of d ''marker'' = None"
  then show "good_value (JDict (case x of (k, label) \<Rightarrow> if attr A k = JNull then d
        else dput (''langfuse.'' @ label) (JStr (py_str printable (attr A k))) d))
      \<and> map_of (case x of (k, label) \<Rightarrow> if attr A k = JNull then d
        else dput (''langfuse.'' @ label) (JStr (py_str printable (attr A k))) d) ''marker'' = None"
    using good_dput [of d "JStr (py_str printable (attr A (fst x)))"]
    by (cases x) (simp add: dput_def update_conv')
qed (use assms in simp)

lemma langfuse_io_shape:
  assumes "langfuse_io A e = Inr f" "wf_opt wf_io_ref (io e)"
  shows "f = e\<lparr>io := io f\<rparr> \<and> wf_opt wf_io_ref (io f)"
proof -
  have r: "wf_io_ref (or_else (io e) empty_io_ref)"
    using assms(2) by (cases "io e")
      (simp_all add: wf_io_ref_def or_else_def empty_io_ref_def good_extras_def good_value_def)
  then have "wf_io_ref (or_else (io e) empty_io_ref\<lparr>io_input_ref := a\<rparr>)"
    "wf_io_ref (or_else (io e) empty_io_ref\<lparr>io_output_ref := a\<rparr>)"
    "wf_io_ref (or_else (io e) empty_io_ref\<lparr>io_input_ref := a, io_output_ref := b\<rparr>)" for a b
    by (simp_all add: wf_io_ref_def)
  with assms(1) r show ?thesis
    unfolding langfuse_io_def Let_def sbind_Inr_conv
    by (cases "attr A LF_OBS_INPUT = JNull"; cases "attr A LF_OBS_OUTPUT = JNull")
      (use assms(2) in \<open>auto simp: sbind_Inr_conv\<close>)
qed

lemma wf_langfuse:
  assumes "apply_langfuse_precedence printable A e = Inr e'" "wf_event e" "map_of (attributes e) ''marker'' = None"
  shows "wf_event e' \<and> map_of (attributes e') ''marker'' = None"
proof (cases "has_langfuse_attributes A")
  case True
  let ?e2 = "langfuse_model printable A (langfuse_session printable A e)"
  from assms(1) True obtain f where f: "langfuse_io A ?e2 = Inr f"
    and e': "e' = f\<lparr>attributes := dput ''langfuse_precedence_applied'' (JBool True)
        (langfuse_attributes printable A (attributes f))\<rparr>"
    by (auto simp: apply_langfuse_precedence_def sbind_Inr_conv)
  have same: "attributes ?e2 = attributes e" by (simp add: langfuse_model_def langfuse_session_def)
  have wf_part: "wf_opt wf_model_info (model e)" "wf_opt wf_io_ref (io e)" using assms(2) by (simp_all add: wf_event_def)
  have m: "wf_model_info (or_else (model e) empty_model_info\<lparr>model_request_model := x\<rparr>)" for x
    using wf_part(1) by (cases "model e")
      (simp_all add: wf_model_info_def or_else_def empty_model_info_def good_extras_def good_value_def)
  have e2: "wf_event ?e2"
    using assms(2) m by (auto simp: langfuse_model_def langfuse_session_def wf_event_def wf_provenance_def)
  have io: "io ?e2 = io e" by (simp add: langfuse_model_def langfuse_session_def)
  have f': "wf_event f" "attributes f = attributes e"
  proof -
    have shape: "f = ?e2\<lparr>io := io f\<rparr>" "wf_opt wf_io_ref (io f)"
      using langfuse_io_shape [OF f] wf_part(2) io by simp_all
    have "wf_event (?e2\<lparr>io := io f\<rparr>)" using e2 shape(2) by (simp add: wf_event_def)
    with shape(1) show "wf_event f" by simp
    have "attributes (?e2\<lparr>io := io f\<rparr>) = attributes e" using same by simp
    with shape(1) show "attributes f = attributes e" by simp
  qed
  have "good_value (JDict (langfuse_attributes printable A (attributes f)))
      \<and> map_of (langfuse_attributes printable A (attributes f)) ''marker'' = None"
    using f' assms(3) by (intro langfuse_attributes_good) (simp_all add: wf_event_def)
  with f' good_dput [of "langfuse_attributes printable A (attributes f)" "JBool True" "''langfuse_precedence_applied''"]
  show ?thesis by (simp add: e' wf_event_def dput_def update_conv')
qed (use assms in \<open>simp add: apply_langfuse_precedence_def\<close>)

lemma provenance_from_wf: "provenance_from_attributes printable A known = Some p \<Longrightarrow> wf_provenance p"
  by (auto simp: provenance_from_attributes_def reconstruct_provenance_def Let_def wf_provenance_def
      good_extras_def good_value_def split: if_splits)

text \<open>Every normalized event is well formed, and none of them can pass for a gap marker.\<close>

lemma normalize_event:
  assumes "normalize nz now known sp = Inr (e, known')" "wf_span sp"
  shows "wf_event e" "map_of (attributes e) ''marker'' = None"
proof -
  from assms(1) obtain ts e1 e2 where
    e1: "span_to_event (nz_printable nz) ts (nz_agent_id nz) (nz_pricing nz) sp = Inr e1"
    and e2: "apply_langfuse_precedence (nz_printable nz) (span_attributes sp) e1 = Inr e2"
    and e: "e = (case provenance_from_attributes (nz_printable nz) (span_attributes sp) known of
        None \<Rightarrow> e2 | Some p \<Rightarrow> e2\<lparr>provenance := p\<rparr>)"
    by (auto simp: normalize_def Let_def sbind_Inr_conv)
  have "map_of (attributes e1) ''marker'' = None"
    using wf_span_event(2) [OF e1 assms(2)] by (auto simp: span_attrs_def Let_def)
  from wf_langfuse [OF e2 wf_span_event(1) [OF e1 assms(2)] this]
  show "wf_event e" "map_of (attributes e) ''marker'' = None"
    using provenance_from_wf by (auto simp: e wf_event_def split: option.split)
qed

end
