(* ===== verification/Durable.thy ===== *)
theory Durable imports Span_Laws Ledger_Backends begin

text \<open>
  \<open>src/src/openwright/ingest/durable.py\<close>: the journal of undeclared drops and the spill buffer,
  as functions on the contents of their files (\<open>None\<close>: no such file).  A write that the device
  cuts short is an argument of the append.  The locale \<open>overflow_buffer\<close> is what the pipeline
  relies on; the spill buffer provides it.  A spilled line whose fields do not have the types
  of a span is a \<open>TypeError\<close> here.
\<close>

section \<open>Atomic writes\<close>

text \<open>What the target holds after each step of \<open>_atomic_write\<close>: the temporary file is written
  and synced beside it, then replaces it.\<close>

definition atomic_write_steps :: "string \<Rightarrow> string option \<Rightarrow> string option list" where
  "atomic_write_steps data target = [target, target, Some data]"

definition atomic_write :: "string \<Rightarrow> string option \<Rightarrow> string option" where
  "atomic_write data target = last (atomic_write_steps data target)"

lemma atomic_write_result [simp]: "atomic_write data target = Some data"
  by (simp add: atomic_write_def atomic_write_steps_def)

section \<open>The drop journal\<close>

definition journal_record :: "int \<Rightarrow> json \<Rightarrow> json \<Rightarrow> string option \<Rightarrow> string option" where
  "journal_record count window_start window_end file =
     atomic_write (dumps_in default_layout 0 (JDict
       [(''count'', JInt count), (''window_start'', window_start), (''window_end'', window_end)])) file"

definition journal_load :: "string option \<Rightarrow> dict option result" where
  "journal_load file = (case file of
     None \<Rightarrow> Inr None
   | Some content \<Rightarrow> (case loads content of
       Inl e \<Rightarrow> if e = ValueError then Inr None else Inl e
     | Inr (JDict d) \<Rightarrow>
         sbind (py_int (dget_or d ''count'' (JInt 0))) (\<lambda>n. Inr (if 0 < n then Some d else None))
     | Inr v \<Rightarrow> Inl AttributeError))"

definition journal_clear :: "string option \<Rightarrow> string option" where
  "journal_clear file = None"

definition window_mark :: "json \<Rightarrow> bool" where
  "window_mark v \<longleftrightarrow> v = JNull \<or> (\<exists>t. v = JStr t \<and> utf8_text t)"

lemma journal_load_record:
  assumes "window_mark a" "window_mark b"
  shows "journal_load (journal_record n a b file)
    = Inr (if 0 < n then Some [(''count'', JInt n), (''window_start'', a), (''window_end'', b)] else None)"
proof -
  have "fits default_layout (JDict [(''count'', JInt n), (''window_start'', a), (''window_end'', b)])"
    using assms by (auto simp: fits_def window_mark_def)
  then show ?thesis
    by (simp add: journal_load_def journal_record_def loads_dumps_in dget_or_def py_int_def
        del: dumps_in.simps)
qed

lemma journal_load_cleared [simp]: "journal_load (journal_clear file) = Inr None"
  by (simp add: journal_load_def journal_clear_def)

section \<open>The contract of an overflow buffer\<close>

text \<open>Offering items in order until one is declined: how many were taken, and the taker's state.\<close>

fun feed :: "('a \<Rightarrow> 's \<Rightarrow> bool \<times> 's) \<Rightarrow> 'a list \<Rightarrow> 's \<Rightarrow> nat \<times> 's" where
  "feed accept [] s = (0, s)"
| "feed accept (x # xs) s =
     (let (ok, s') = accept x s
      in if ok then (let (n, s'') = feed accept xs s' in (Suc n, s'')) else (0, s'))"

lemma feed_bound: "fst (feed accept xs s) \<le> length xs"
  by (induction xs arbitrary: s) (auto simp: split_beta Let_def)

locale overflow_buffer =
  fixes put :: "'a \<Rightarrow> 'b \<Rightarrow> 'b"
    and pull :: "('a \<Rightarrow> 's \<Rightarrow> bool \<times> 's) \<Rightarrow> 'b \<Rightarrow> 's \<Rightarrow> int result \<times> 'b \<times> 's"
    and size_of :: "'b \<Rightarrow> int result"
    and restart :: "'b \<Rightarrow> 'b"
    and storable :: "'a \<Rightarrow> bool"
    and holds :: "'b \<Rightarrow> 'a list \<Rightarrow> bool"
  assumes put_holds: "holds b xs \<Longrightarrow> storable x \<Longrightarrow> holds (put x b) (xs @ [x])"
    and pull_feeds: "holds b xs \<Longrightarrow> \<exists>b'. pull accept b s = (Inr (int (fst (feed accept xs s))), b', snd (feed accept xs s))
        \<and> holds b' (drop (fst (feed accept xs s)) xs)"
    and size_holds: "holds b xs \<Longrightarrow> size_of b = Inr (int (length xs))"
    and restart_holds: "holds b xs \<Longrightarrow> holds (restart b) xs"
begin

lemma put_all:
  "holds b xs \<Longrightarrow> list_all storable ys \<Longrightarrow> holds (foldl (\<lambda>b x. put x b) b ys) (xs @ ys)"
proof (induction ys arbitrary: b xs)
  case (Cons y ys)
  then show ?case using Cons.IH [OF put_holds [OF Cons.prems(1), of y]] by simp
qed simp

text \<open>First in, first out, across a restart: what was put after \<open>xs\<close> is offered after \<open>xs\<close>.\<close>

lemma fifo:
  assumes "holds b xs" "list_all storable ys" "pull accept (restart (foldl (\<lambda>b x. put x b) b ys)) s = (r, b', s')"
  shows "s' = snd (feed accept (xs @ ys) s)" "r = Inr (int (fst (feed accept (xs @ ys) s)))"
    "holds b' (drop (fst (feed accept (xs @ ys) s)) (xs @ ys))"
  using pull_feeds [OF restart_holds [OF put_all [OF assms(1,2)]], of accept s] assms(3) by auto

end

section \<open>Spans as lines\<close>

definition asdict :: "span_data \<Rightarrow> dict" where
  "asdict sp =
     [(''name'', JStr (span_name sp)), (''attributes'', JDict (span_attributes sp)),
      (''resource'', JDict (span_resource sp)), (''trace_id'', opt_str (span_trace_id sp)),
      (''span_id'', opt_str (span_span_id sp)), (''parent_span_id'', opt_str (span_parent_span_id sp)),
      (''start_time_unix_nano'', opt_int (span_start_time_unix_nano sp)),
      (''status'', opt_str (span_status sp))]"

definition span_fields :: "string list" where
  "span_fields = [''name'', ''attributes'', ''resource'', ''trace_id'', ''span_id'',
     ''parent_span_id'', ''start_time_unix_nano'', ''status'']"

definition typed :: "(json \<Rightarrow> 'a option) \<Rightarrow> 'a \<Rightarrow> string \<Rightarrow> dict \<Rightarrow> 'a result" where
  "typed conv dflt k d = (case map_of d k of
     None \<Rightarrow> Inr dflt
   | Some v \<Rightarrow> (case conv v of Some x \<Rightarrow> Inr x | None \<Rightarrow> Inl TypeError))"

definition as_dict :: "json \<Rightarrow> dict option" where
  "as_dict v = (case v of JDict d \<Rightarrow> Some d | _ \<Rightarrow> None)"

definition as_opt_string :: "json \<Rightarrow> string option option" where
  "as_opt_string v = (case v of JNull \<Rightarrow> Some None | JStr s \<Rightarrow> Some (Some s) | _ \<Rightarrow> None)"

definition as_opt_int :: "json \<Rightarrow> int option option" where
  "as_opt_int v = (case v of JNull \<Rightarrow> Some None | JInt i \<Rightarrow> Some (Some i) | _ \<Rightarrow> None)"

definition span_of_json :: "json \<Rightarrow> span_data result" where
  "span_of_json v = (case v of
     JDict d \<Rightarrow>
       (if \<not> fst ` set d \<subseteq> set span_fields \<or> \<not> has_key d ''name'' then Inl TypeError
        else sbind (typed as_string [] ''name'' d) (\<lambda>nm.
          sbind (typed as_dict [] ''attributes'' d) (\<lambda>ats.
          sbind (typed as_dict [] ''resource'' d) (\<lambda>res.
          sbind (typed as_opt_string None ''trace_id'' d) (\<lambda>tr.
          sbind (typed as_opt_string None ''span_id'' d) (\<lambda>si.
          sbind (typed as_opt_string None ''parent_span_id'' d) (\<lambda>pa.
          sbind (typed as_opt_int None ''start_time_unix_nano'' d) (\<lambda>st.
          sbind (typed as_opt_string None ''status'' d) (\<lambda>stat.
            Inr \<lparr>span_name = nm, span_attributes = ats, span_resource = res, span_trace_id = tr,
              span_span_id = si, span_parent_span_id = pa, span_start_time_unix_nano = st,
              span_status = stat\<rparr>)))))))))
   | _ \<Rightarrow> Inl TypeError)"

lemma as_opt [simp]: "as_opt_string (opt_str s) = Some s" "as_opt_int (opt_int i) = Some i"
  "as_dict (JDict d) = Some d" "as_string (JStr t) = Some t"
  by (simp_all add: as_opt_string_def as_opt_int_def as_dict_def as_string_def opt_str_def opt_int_def
      split: option.split)

lemma span_of_asdict [simp]: "span_of_json (JDict (asdict sp)) = Inr sp"
  by (simp add: span_of_json_def asdict_def span_fields_def has_key_def typed_def)

text \<open>A line that \<open>json\<close> reads back as it was written; every span without floats is such.\<close>

definition line_safe :: "span_data \<Rightarrow> bool" where
  "line_safe sp \<longleftrightarrow> newline \<notin> set (dumps (JDict (asdict sp)))
     \<and> loads (record_line (asdict sp)) = Inr (JDict (asdict sp))"

lemma plain_opt [simp]: "plain (opt_str s)" "plain (opt_int i)"
  by (simp_all add: opt_str_def opt_int_def split: option.split)

lemma plain_line_safe:
  assumes "plain (JDict (span_attributes sp))" "plain (JDict (span_resource sp))"
  shows "line_safe sp"
proof -
  have "plain (JDict (asdict sp))" using assms by (simp add: asdict_def)
  then show ?thesis
    using printable_no_newline [OF record_printable] loads_record_line by (simp add: line_safe_def)
qed

section \<open>The spill buffer\<close>

record spill =
  spill_file :: "string option"
  spill_cursor_file :: "string option"
  spill_consumed :: int

definition load_cursor :: "string option \<Rightarrow> int" where
  "load_cursor cursor = (case cursor of
     None \<Rightarrow> 0
   | Some content \<Rightarrow> (case digit_text content of Some n \<Rightarrow> n | None \<Rightarrow> 0))"

definition open_spill :: "string option \<Rightarrow> string option \<Rightarrow> spill" where
  "open_spill file cursor =
     \<lparr>spill_file = Some (or_else file []), spill_cursor_file = cursor, spill_consumed = load_cursor cursor\<rparr>"

text \<open>The process ends and a new one opens the same files.\<close>

definition reopen_spill :: "spill \<Rightarrow> spill" where
  "reopen_spill b = open_spill (spill_file b) (spill_cursor_file b)"

text \<open>\<open>append\<close>; if the device takes only the first \<open>k\<close> bytes, they stay and the call raises.\<close>

definition spill_append :: "nat option \<Rightarrow> span_data \<Rightarrow> spill \<Rightarrow> unit result \<times> spill" where
  "spill_append short sp b =
     (let line = record_line (asdict sp); old = or_else (spill_file b) []
      in case short of
        None \<Rightarrow> (Inr (), b\<lparr>spill_file := Some (old @ line)\<rparr>)
      | Some k \<Rightarrow> (Inl OSError, b\<lparr>spill_file := Some (old @ take k line)\<rparr>))"

definition spill_pending :: "spill \<Rightarrow> int result" where
  "spill_pending b = (case spill_file b of
     None \<Rightarrow> Inr 0
   | Some data \<Rightarrow>
       (if spill_consumed b < 0 then Inl OSError
        else Inr (int (length (filter (\<lambda>l. \<not> blank l) (file_lines (drop (nat (spill_consumed b)) data)))))))"

text \<open>The loop of \<open>drain\<close>: the number accepted, or what was raised; the cursor; the taker.\<close>

fun drain_lines ::
  "(span_data \<Rightarrow> 's \<Rightarrow> bool \<times> 's) \<Rightarrow> string list \<Rightarrow> int \<Rightarrow> int \<Rightarrow> 's \<Rightarrow> int result \<times> int \<times> 's"
where
  "drain_lines accept [] n pos s = (Inr n, pos, s)"
| "drain_lines accept (l # ls) n pos s =
     (if blank l then drain_lines accept ls n (pos + int (length l)) s
      else case sbind (loads l) span_of_json of
        Inl e \<Rightarrow> (Inl e, pos, s)
      | Inr sp \<Rightarrow>
          (let (ok, s') = accept sp s
           in if ok then drain_lines accept ls (n + 1) (pos + int (length l)) s'
              else (Inr n, pos, s')))"

definition compact :: "spill \<Rightarrow> spill" where
  "compact b = (if int (length (or_else (spill_file b) [])) \<le> spill_consumed b
     then b\<lparr>spill_file := Some [], spill_consumed := 0\<rparr> else b)"

definition write_cursor :: "spill \<Rightarrow> spill" where
  "write_cursor b =
     b\<lparr>spill_cursor_file := atomic_write (str_of_int (spill_consumed b)) (spill_cursor_file b)\<rparr>"

definition spill_drain ::
  "(span_data \<Rightarrow> 's \<Rightarrow> bool \<times> 's) \<Rightarrow> spill \<Rightarrow> 's \<Rightarrow> int result \<times> spill \<times> 's"
where
  "spill_drain accept b s = (case spill_file b of
     None \<Rightarrow> (Inr 0, b, s)
   | Some data \<Rightarrow>
       (if spill_consumed b < 0 then (Inl OSError, b, s)
        else let (r, pos, s') =
               drain_lines accept (file_lines (drop (nat (spill_consumed b)) data)) 0 (spill_consumed b) s;
             b' = b\<lparr>spill_consumed := pos\<rparr>
           in case r of
             Inl e \<Rightarrow> (Inl e, b', s')
           | Inr n \<Rightarrow> (Inr n, write_cursor (compact b'), s')))"

section \<open>The spill buffer is an overflow buffer\<close>

definition spill_lines :: "span_data list \<Rightarrow> string" where
  "spill_lines xs = concat (map (\<lambda>sp. record_line (asdict sp)) xs)"

lemma spill_lines_simps [simp]:
  "spill_lines [] = []" "spill_lines (x # xs) = record_line (asdict x) @ spill_lines xs"
  "spill_lines (xs @ ys) = spill_lines xs @ spill_lines ys"
  by (simp_all add: spill_lines_def)

definition spill_holds :: "spill \<Rightarrow> span_data list \<Rightarrow> bool" where
  "spill_holds b xs \<longleftrightarrow> list_all line_safe xs \<and> load_cursor (spill_cursor_file b) = spill_consumed b
     \<and> (\<exists>pre. spill_file b = Some (pre @ spill_lines xs) \<and> spill_consumed b = int (length pre))"

lemma file_lines_safe: "list_all line_safe xs \<Longrightarrow> file_lines (spill_lines xs) = map (\<lambda>sp. record_line (asdict sp)) xs"
proof (induction xs)
  case Nil
  show ?case by (subst file_lines.simps) simp
next
  case (Cons x xs)
  have nl: "newline \<notin> set (dumps (JDict (asdict x)))" using Cons.prems by (simp add: line_safe_def)
  have "takeWhile (\<lambda>c. c \<noteq> newline) (record_line (asdict x) @ spill_lines xs) = dumps (JDict (asdict x))"
    "dropWhile (\<lambda>c. c \<noteq> newline) (record_line (asdict x) @ spill_lines xs) = newline # spill_lines xs"
    unfolding record_line_def append_assoc
    by (subst takeWhile_append2 dropWhile_append2; use nl in auto)+
  then have "first_line (record_line (asdict x) @ spill_lines xs) = record_line (asdict x)"
    by (simp add: first_line_def record_line_def)
  with Cons show ?case by (subst file_lines.simps) simp
qed

lemma drain_safe_lines:
  "list_all line_safe xs \<Longrightarrow>
    drain_lines accept (map (\<lambda>sp. record_line (asdict sp)) xs) n pos s
    = (Inr (n + int (fst (feed accept xs s))), pos + int (length (spill_lines (take (fst (feed accept xs s)) xs))),
       snd (feed accept xs s))"
proof (induction xs arbitrary: n pos s)
  case (Cons x xs)
  have "sbind (loads (record_line (asdict x))) span_of_json = Inr x"
    using Cons.prems by (simp add: line_safe_def)
  with Cons show ?case by (simp add: record_line_not_blank split_beta Let_def)
qed simp

lemma load_cursor_str: "load_cursor (Some (str_of_int (int n))) = int n"
  using digit_text_digits [of "digits_of n"] digits_of_all by (auto simp: load_cursor_def str_of_int_def)

lemma write_cursor_holds:
  assumes "spill_file b = Some (pre @ spill_lines xs)" "spill_consumed b = int (length pre)" "list_all line_safe xs"
  shows "spill_holds (write_cursor b) xs"
proof -
  have "load_cursor (spill_cursor_file (write_cursor b)) = int (length pre)"
    using load_cursor_str [of "length pre"] assms(2) by (simp add: write_cursor_def)
  with assms show ?thesis by (simp add: spill_holds_def write_cursor_def)
qed

lemma spill_put: "spill_holds b xs \<Longrightarrow> line_safe x \<Longrightarrow> spill_holds (snd (spill_append None x b)) (xs @ [x])"
  unfolding spill_holds_def spill_append_def Let_def
  by (elim exE conjE, intro conjI exI) (simp_all add: or_else_def)

lemma spill_pull:
  assumes "spill_holds b xs"
  shows "\<exists>b'. spill_drain accept b s = (Inr (int (fst (feed accept xs s))), b', snd (feed accept xs s))
      \<and> spill_holds b' (drop (fst (feed accept xs s)) xs)"
proof -
  obtain pre where pre: "spill_file b = Some (pre @ spill_lines xs)" "spill_consumed b = int (length pre)"
    and safe: "list_all line_safe xs"
    using assms by (auto simp: spill_holds_def)
  obtain n s' where feed: "feed accept xs s = (n, s')" by (cases "feed accept xs s")
  let ?b = "b\<lparr>spill_consumed := int (length (pre @ spill_lines (take n xs)))\<rparr>"
  have split: "spill_lines xs = spill_lines (take n xs) @ spill_lines (drop n xs)"
    by (metis append_take_drop_id spill_lines_simps(3))
  have run: "spill_drain accept b s = (Inr (int n), write_cursor (compact ?b), s')"
    using pre safe feed by (simp add: spill_drain_def file_lines_safe drain_safe_lines)
  have rest: "list_all line_safe (drop n xs)" using safe by (metis append_take_drop_id list_all_append)
  have "spill_holds (write_cursor (compact ?b)) (drop n xs)"
  proof (cases "spill_lines (drop n xs) = []")
    case True
    then have none: "drop n xs = []" by (cases "drop n xs") simp_all
    from True have "compact ?b = ?b\<lparr>spill_file := Some [], spill_consumed := 0\<rparr>"
      using pre split by (simp add: compact_def or_else_def)
    then show ?thesis
      unfolding none by (intro write_cursor_holds [where pre = "[]"]) simp_all
  next
    case False
    then have "compact ?b = ?b" using pre(1) split by (simp add: compact_def or_else_def)
    then show ?thesis
      using pre split rest by (intro write_cursor_holds [where pre = "pre @ spill_lines (take n xs)"]) simp_all
  qed
  with run feed show ?thesis by simp
qed

lemma spill_size: "spill_holds b xs \<Longrightarrow> spill_pending b = Inr (int (length xs))"
  by (auto simp: spill_holds_def spill_pending_def file_lines_safe record_line_not_blank filter_map comp_def)

lemma spill_reopen: "spill_holds b xs \<Longrightarrow> spill_holds (reopen_spill b) xs"
  by (auto simp: spill_holds_def reopen_spill_def open_spill_def or_else_def)

interpretation spilled: overflow_buffer "\<lambda>x b. snd (spill_append None x b)" spill_drain spill_pending
    reopen_spill line_safe spill_holds
  by unfold_locales (simp_all add: spill_put spill_pull spill_size spill_reopen)

lemma open_spill_empty: "spill_holds (open_spill None None) []"
  by (simp add: spill_holds_def open_spill_def or_else_def load_cursor_def)

end
