(* ===== verification/Pipeline.thy ===== *)
theory Pipeline imports Durable Ledger_Laws begin

text \<open>
  \<open>EvidencePipeline\<close> of \<open>src/src/openwright/ingest/pipeline.py\<close>: bounded queue, overflow to the
  spill buffer, accounting of drops, gap markers, the worker and \<open>flush\<close>, the last two as
  moves between the points at which the other thread can see a change.  A call's clock readings
  and the failures of the disk and of the ledger are its arguments.  The emission of
  a marker is split where the code gives up its lock: \<open>begin_emit\<close> takes the snapshot,
  \<open>commit_marker\<close> commits it, \<open>settle\<close> subtracts it.
\<close>

section \<open>State\<close>

datatype item = Item span_data | Sentinel

text \<open>Where an emission stands: nothing, a snapshot taken (its count, its window), its marker
  committed.\<close>

datatype emission = NoEmission | Snapshot int json json | MarkerCommitted int

record pipe_config =
  pc_normalizer :: normalizer
  pc_max_queue :: int
  pc_commit_retries :: nat

record 'b pipe =
  pipe_ledger :: "'b ledger_state"
  pipe_queue :: "item list"
  pipe_known :: known_tasks
  pipe_processed :: int
  pipe_dropped :: int
  pipe_errors :: int
  pipe_retries :: int
  pipe_drop_markers :: int
  pipe_spilled :: int
  pipe_spill_recovered :: int
  pipe_recovered_drops :: int
  pipe_spill :: "spill option"
  pipe_journal :: "string option option"
  pipe_undeclared :: int
  pipe_window :: "json \<times> json"
  pipe_emission :: emission

text \<open>A new pipeline over a ledger, the files of the spill buffer (contents and cursor) and of
  the journal; \<open>None\<close> where the feature is off.\<close>

definition new_pipeline ::
  "'b ledger_state \<Rightarrow> (string option \<times> string option) option \<Rightarrow> string option option \<Rightarrow> 'b pipe result"
where
  "new_pipeline led spill_files journal =
     sbind (case journal of None \<Rightarrow> Inr None | Some file \<Rightarrow> journal_load file) (\<lambda>pending.
     sbind (case pending of
              None \<Rightarrow> Inr (0, (JNull, JNull))
            | Some d \<Rightarrow> sbind (py_int (attr d ''count'')) (\<lambda>n.
                Inr (n, (attr d ''window_start'', attr d ''window_end'')))) (\<lambda>(n, window).
       Inr \<lparr>pipe_ledger = led, pipe_queue = [], pipe_known = [], pipe_processed = 0, pipe_dropped = 0,
         pipe_errors = 0, pipe_retries = 0, pipe_drop_markers = 0, pipe_spilled = 0,
         pipe_spill_recovered = 0, pipe_recovered_drops = n,
         pipe_spill = map_option (\<lambda>(file, cursor). open_spill file cursor) spill_files,
         pipe_journal = journal, pipe_undeclared = n, pipe_window = window,
         pipe_emission = NoEmission\<rparr>))"

section \<open>Submission\<close>

definition put_nowait :: "int \<Rightarrow> 'a \<Rightarrow> 'a list \<Rightarrow> 'a list option" where
  "put_nowait maxsize x q = (if 0 < maxsize \<and> maxsize \<le> int (length q) then None else Some (q @ [x]))"

definition persist_drop_intent :: "bool \<Rightarrow> 'b pipe \<Rightarrow> 'b pipe" where
  "persist_drop_intent writable p = (case pipe_journal p of
     None \<Rightarrow> p
   | Some file \<Rightarrow>
       (if writable
        then p\<lparr>pipe_journal := Some (journal_record (pipe_undeclared p) (fst (pipe_window p))
               (snd (pipe_window p)) file)\<rparr>
        else p))"

definition record_drop :: "bool \<Rightarrow> string \<Rightarrow> 'b pipe \<Rightarrow> 'b pipe" where
  "record_drop writable now p =
     persist_drop_intent writable (p
       \<lparr>pipe_dropped := pipe_dropped p + 1, pipe_undeclared := pipe_undeclared p + 1,
        pipe_window := (if fst (pipe_window p) = JNull then JStr now else fst (pipe_window p), JStr now)\<rparr>)"

text \<open>One span.  \<open>short\<close> is a failing spill write, \<open>writable\<close> says whether the journal can be
  written.\<close>

definition submit_span :: "pipe_config \<Rightarrow> nat option \<Rightarrow> bool \<Rightarrow> string \<Rightarrow> span_data \<Rightarrow> 'b pipe \<Rightarrow> 'b pipe" where
  "submit_span cfg short writable now sp p =
     (case put_nowait (pc_max_queue cfg) (Item sp) (pipe_queue p) of
        Some q \<Rightarrow> p\<lparr>pipe_queue := q\<rparr>
      | None \<Rightarrow> (case pipe_spill p of
          None \<Rightarrow> record_drop writable now p
        | Some b \<Rightarrow> (case spill_append short sp b of
            (Inr _, b') \<Rightarrow> p\<lparr>pipe_spill := Some b', pipe_spilled := pipe_spilled p + 1\<rparr>
          | (Inl _, b') \<Rightarrow> record_drop writable now (p\<lparr>pipe_spill := Some b'\<rparr>))))"

definition submit :: "pipe_config \<Rightarrow> (span_data \<times> nat option \<times> bool \<times> string) list \<Rightarrow> 'b pipe \<Rightarrow> 'b pipe" where
  "submit cfg spans p =
     foldl (\<lambda>p (sp, short, writable, now). submit_span cfg short writable now sp p) p spans"

section \<open>Overflow flows back\<close>

definition accept_span :: "pipe_config \<Rightarrow> span_data \<Rightarrow> item list \<Rightarrow> bool \<times> item list" where
  "accept_span cfg sp q = (case put_nowait (pc_max_queue cfg) (Item sp) q of
     Some q' \<Rightarrow> (True, q')
   | None \<Rightarrow> (False, q))"

definition refill_from_spill :: "pipe_config \<Rightarrow> 'b pipe \<Rightarrow> unit result \<times> 'b pipe" where
  "refill_from_spill cfg p = (case pipe_spill p of
     None \<Rightarrow> (Inr (), p)
   | Some b \<Rightarrow>
       (case spill_drain (accept_span cfg) b (pipe_queue p) of
          (Inr n, b', q) \<Rightarrow> (Inr (), p\<lparr>pipe_spill := Some b', pipe_queue := q,
             pipe_spill_recovered := pipe_spill_recovered p + n\<rparr>)
        | (Inl e, b', q) \<Rightarrow> (Inl e, p\<lparr>pipe_spill := Some b', pipe_queue := q\<rparr>)))"

section \<open>Gap markers\<close>

definition gap_marker :: "pipe_config \<Rightarrow> string \<Rightarrow> int \<Rightarrow> json \<Rightarrow> json \<Rightarrow> compliance_event result" where
  "gap_marker cfg now n window_start window_end =
     sbind (no_floats_in_attributes
       [(''marker'', JStr ''evidence_gap''), (''dropped_events'', JInt n),
        (''window_start'', window_start), (''window_end'', window_end)]) (\<lambda>ats.
       Inr ((bare_event now GENERIC
           (bare_actor (case nz_agent_id (pc_normalizer cfg) of
              Some a \<Rightarrow> if a = [] then ''openwright-collector'' else a
            | None \<Rightarrow> ''openwright-collector''))
           (bare_source ''openwright''))\<lparr>attributes := ats\<rparr>))"

text \<open>\<open>ledger.commit\<close> on a backend that may be unavailable.\<close>

definition commit_attempt ::
  "'b backend_ops \<Rightarrow> bool \<Rightarrow> string \<Rightarrow> compliance_event \<Rightarrow> 'b ledger_state \<Rightarrow>
    (compliance_event \<times> 'b ledger_state) result"
where
  "commit_attempt ops available clock e led =
     (if available then commit ops clock e led else Inl RuntimeError)"

definition begin_emit :: "'b pipe \<Rightarrow> 'b pipe" where
  "begin_emit p =
     (if pipe_undeclared p = 0 then p
      else p\<lparr>pipe_emission := Snapshot (pipe_undeclared p) (fst (pipe_window p)) (snd (pipe_window p))\<rparr>)"

definition commit_marker ::
  "pipe_config \<Rightarrow> 'b backend_ops \<Rightarrow> bool \<Rightarrow> string \<Rightarrow> string \<Rightarrow> 'b pipe \<Rightarrow> unit result \<times> 'b pipe"
where
  "commit_marker cfg ops available now clock p = (case pipe_emission p of
     Snapshot n a b \<Rightarrow>
       (case gap_marker cfg now n a b of
          Inl e \<Rightarrow> (Inl e, p\<lparr>pipe_emission := NoEmission\<rparr>)
        | Inr marker \<Rightarrow>
            (case commit_attempt ops available clock marker (pipe_ledger p) of
               Inl e \<Rightarrow> (Inr (), p\<lparr>pipe_emission := NoEmission\<rparr>)
             | Inr (_, led) \<Rightarrow> (Inr (), p\<lparr>pipe_ledger := led, pipe_emission := MarkerCommitted n\<rparr>)))
   | _ \<Rightarrow> (Inr (), p))"

definition settle :: "bool \<Rightarrow> 'b pipe \<Rightarrow> 'b pipe" where
  "settle writable p = (case pipe_emission p of
     MarkerCommitted n \<Rightarrow>
       (let left = pipe_undeclared p - n;
            q = p\<lparr>pipe_emission := NoEmission, pipe_drop_markers := pipe_drop_markers p + 1\<rparr>
        in if left \<le> 0
           then q\<lparr>pipe_undeclared := 0, pipe_window := (JNull, JNull),
                  pipe_journal := map_option (\<lambda>f. if writable then journal_clear f else f) (pipe_journal p)\<rparr>
           else persist_drop_intent writable (q\<lparr>pipe_undeclared := left\<rparr>))
   | _ \<Rightarrow> p)"

definition emit_drop_marker_if_pending ::
  "pipe_config \<Rightarrow> 'b backend_ops \<Rightarrow> bool \<Rightarrow> bool \<Rightarrow> string \<Rightarrow> string \<Rightarrow> 'b pipe \<Rightarrow> unit result \<times> 'b pipe"
where
  "emit_drop_marker_if_pending cfg ops available writable now clock p =
     (let (r, q) = commit_marker cfg ops available now clock (begin_emit p) in (r, settle writable q))"

section \<open>The worker\<close>

text \<open>What the outside does during one pass of the worker: the readings of the clock, which
  attempts find the ledger available, whether the journal can be written.\<close>

record pass =
  ps_marker_now :: string
  ps_marker_clock :: string
  ps_now :: string
  ps_clock :: string
  ps_marker_available :: bool
  ps_available :: "nat \<Rightarrow> bool"
  ps_writable :: bool

text \<open>The retry loop: whether the event was committed, the retries used, the ledger.\<close>

fun try_commit ::
  "'b backend_ops \<Rightarrow> (nat \<Rightarrow> bool) \<Rightarrow> string \<Rightarrow> nat \<Rightarrow> nat \<Rightarrow> compliance_event \<Rightarrow> 'b ledger_state \<Rightarrow>
    bool \<times> int \<times> 'b ledger_state"
where
  "try_commit ops available clock attempt retries_left e led =
     (case commit_attempt ops (available attempt) clock e led of
        Inr (_, led') \<Rightarrow> (True, 0, led')
      | Inl _ \<Rightarrow>
          (case retries_left of
             0 \<Rightarrow> (False, 0, led)
           | Suc k \<Rightarrow>
               (let (ok, r, led') = try_commit ops available clock (Suc attempt) k e led
                in (ok, r + 1, led'))))"

definition process_span :: "pipe_config \<Rightarrow> 'b backend_ops \<Rightarrow> pass \<Rightarrow> span_data \<Rightarrow> 'b pipe \<Rightarrow> 'b pipe" where
  "process_span cfg ops ps sp p =
     (case normalize (pc_normalizer cfg) (ps_now ps) (pipe_known p) sp of
        Inl _ \<Rightarrow> p\<lparr>pipe_errors := pipe_errors p + 1\<rparr>
      | Inr (e, known) \<Rightarrow>
          (let (ok, r, led) = try_commit ops (ps_available ps) (ps_clock ps) 0 (pc_commit_retries cfg) e (pipe_ledger p);
               q = p\<lparr>pipe_known := known, pipe_ledger := led, pipe_retries := pipe_retries p + r\<rparr>
           in if ok then q\<lparr>pipe_processed := pipe_processed p + 1\<rparr>
              else q\<lparr>pipe_errors := pipe_errors p + 1\<rparr>))"

text \<open>Where the worker's loop stands, between the points at which another thread can see a change: it
  asks the queue for an item; holds one; has attested earlier drops before it; is in the \<open>finally\<close>
  clause, before \<open>task_done\<close> and after it; is in the idle branch, before the refill and after it; or
  its thread has ended.  The argument of the \<open>finally\<close> stages says whether the loop goes on after
  it: it does not after the sentinel or an exception.\<close>

datatype worker_stage =
    Getting
  | Holding item
  | Attested item
  | Finishing bool
  | Refilling bool
  | Idle_Refill
  | Idle_Attest
  | Stopped

definition emit_in_pass :: "pipe_config \<Rightarrow> 'b backend_ops \<Rightarrow> pass \<Rightarrow> 'b pipe \<Rightarrow> unit result \<times> 'b pipe" where
  "emit_in_pass cfg ops ps p = emit_drop_marker_if_pending cfg ops (ps_marker_available ps) (ps_writable ps)
     (ps_marker_now ps) (ps_marker_clock ps) p"

definition worker_move ::
  "pipe_config \<Rightarrow> 'b backend_ops \<Rightarrow> pass \<Rightarrow> worker_stage \<Rightarrow> 'b pipe \<Rightarrow> worker_stage \<times> 'b pipe"
where
  "worker_move cfg ops ps st p = (case st of
     Getting \<Rightarrow> (case pipe_queue p of
         [] \<Rightarrow> (Idle_Refill, p)
       | x # q \<Rightarrow> (Holding x, p\<lparr>pipe_queue := q\<rparr>))
   | Idle_Refill \<Rightarrow> (case refill_from_spill cfg p of
         (Inr _, q) \<Rightarrow> (Idle_Attest, q)
       | (Inl _, q) \<Rightarrow> (Stopped, q))
   | Idle_Attest \<Rightarrow> (case emit_in_pass cfg ops ps p of
         (Inr _, q) \<Rightarrow> (Getting, q)
       | (Inl _, q) \<Rightarrow> (Stopped, q))
   | Holding x \<Rightarrow> (case emit_in_pass cfg ops ps p of
         (Inr _, q) \<Rightarrow> (Attested x, q)
       | (Inl _, q) \<Rightarrow> (Finishing False, q))
   | Attested x \<Rightarrow> (case x of
         Sentinel \<Rightarrow> (Finishing False, p)
       | Item sp \<Rightarrow> (Finishing True, process_span cfg ops ps sp p))
   | Finishing goes_on \<Rightarrow> (Refilling goes_on, p)
   | Refilling goes_on \<Rightarrow> (case refill_from_spill cfg p of
         (Inr _, q) \<Rightarrow> (if goes_on then Getting else Stopped, q)
       | (Inl _, q) \<Rightarrow> (Stopped, q))
   | Stopped \<Rightarrow> (Stopped, p))"

section \<open>Flush\<close>

text \<open>\<open>unfinished_tasks\<close> of the queue: put and not yet \<open>task_done\<close>.  \<open>join\<close> returns when it is zero.\<close>

definition task_held :: "worker_stage \<Rightarrow> nat" where
  "task_held st = (case st of Holding _ \<Rightarrow> 1 | Attested _ \<Rightarrow> 1 | Finishing _ \<Rightarrow> 1 | _ \<Rightarrow> 0)"

definition unfinished :: "worker_stage \<Rightarrow> 'b pipe \<Rightarrow> nat" where
  "unfinished st p = length (pipe_queue p) + task_held st"

text \<open>Where the thread that called \<open>flush\<close> stands: about to refill, in the first \<open>join\<close>, at the first
  \<open>pending\<close>, in the second \<open>join\<close>, at the second \<open>pending\<close>, about to attest the drops, or out.\<close>

datatype flush_stage =
    F_Refill
  | F_Join
  | F_Pending
  | F_Join_Again
  | F_Pending_Again
  | F_Attest
  | F_Returned
  | F_Raised py_exn

text \<open>\<open>None\<close> while the call waits in a \<open>join\<close>, and after its end.\<close>

definition flush_move ::
  "pipe_config \<Rightarrow> 'b backend_ops \<Rightarrow> pass \<Rightarrow> nat \<Rightarrow> flush_stage \<Rightarrow> 'b pipe \<Rightarrow> (flush_stage \<times> 'b pipe) option"
where
  "flush_move cfg ops ps tasks st p = (case st of
     F_Refill \<Rightarrow> (case refill_from_spill cfg p of
         (Inr _, q) \<Rightarrow> Some (F_Join, q)
       | (Inl e, q) \<Rightarrow> Some (F_Raised e, q))
   | F_Join \<Rightarrow> if tasks = 0 then Some (F_Pending, p) else None
   | F_Pending \<Rightarrow> (case pipe_spill p of
         None \<Rightarrow> Some (F_Attest, p)
       | Some b \<Rightarrow> (case spill_pending b of
           Inl e \<Rightarrow> Some (F_Raised e, p)
         | Inr n \<Rightarrow> Some (if n = 0 then F_Join_Again else F_Refill, p)))
   | F_Join_Again \<Rightarrow> if tasks = 0 then Some (F_Pending_Again, p) else None
   | F_Pending_Again \<Rightarrow> (case pipe_spill p of
         None \<Rightarrow> Some (F_Raised AttributeError, p)
       | Some b \<Rightarrow> (case spill_pending b of
           Inl e \<Rightarrow> Some (F_Raised e, p)
         | Inr n \<Rightarrow> Some (if n = 0 then F_Attest else F_Refill, p)))
   | F_Attest \<Rightarrow> (case emit_in_pass cfg ops ps p of
         (Inr _, q) \<Rightarrow> Some (F_Returned, q)
       | (Inl e, q) \<Rightarrow> Some (F_Raised e, q))
   | F_Returned \<Rightarrow> None
   | F_Raised e \<Rightarrow> None)"

text \<open>\<open>stop\<close>, where the queue has room; a full queue makes the caller wait for it.\<close>

definition stop_pipeline :: "'b pipe \<Rightarrow> 'b pipe" where
  "stop_pipeline p = p\<lparr>pipe_queue := pipe_queue p @ [Sentinel]\<rparr>"

definition stats :: "'b pipe \<Rightarrow> dict" where
  "stats p =
     [(''processed'', JInt (pipe_processed p)), (''dropped'', JInt (pipe_dropped p)),
      (''errors'', JInt (pipe_errors p)), (''retries'', JInt (pipe_retries p)),
      (''drop_markers'', JInt (pipe_drop_markers p)), (''spilled'', JInt (pipe_spilled p)),
      (''spill_recovered'', JInt (pipe_spill_recovered p)),
      (''recovered_drops'', JInt (pipe_recovered_drops p))]"

end
