(* ===== verification/Pipeline_Laws.thy ===== *)
theory Pipeline_Laws imports Pipeline begin

text \<open>
  Submitters, the worker and \<open>flush\<close> as one step relation, and its invariant: every span offered
  is processed, in error, queued, in hand, spilled or dropped; every drop is undeclared or
  counted by a gap marker of the ledger; the journal holds what is undeclared.  The steps
  assume that a spill write is complete or has no effect and that the journal can be written.
\<close>

section \<open>Steps\<close>

text \<open>The pipeline, the span the worker has taken, and how many spans were offered so far.\<close>

record 'b flow =
  flow_pipe :: "'b pipe"
  flow_hand :: "span_data option"
  flow_offered :: int

definition good_span :: "span_data \<Rightarrow> bool" where
  "good_span sp \<longleftrightarrow> wf_span sp \<and> line_safe sp"

inductive pipe_step :: "pipe_config \<Rightarrow> 'b backend_ops \<Rightarrow> 'b flow \<Rightarrow> 'b flow \<Rightarrow> bool"
  for cfg :: pipe_config and ops :: "'b backend_ops"
where
  step_submit:
    "good_span sp \<Longrightarrow> utf8_text now \<Longrightarrow> short = None \<or> short = Some 0 \<Longrightarrow>
     pipe_step cfg ops s (s\<lparr>flow_pipe := submit_span cfg short True now sp (flow_pipe s),
       flow_offered := flow_offered s + 1\<rparr>)"
| step_begin:
    "pipe_emission (flow_pipe s) = NoEmission \<Longrightarrow>
     pipe_step cfg ops s (s\<lparr>flow_pipe := begin_emit (flow_pipe s)\<rparr>)"
| step_commit:
    "commit_marker cfg ops available now clock (flow_pipe s) = (r, p) \<Longrightarrow>
     pipe_step cfg ops s (s\<lparr>flow_pipe := p\<rparr>)"
| step_settle:
    "pipe_step cfg ops s (s\<lparr>flow_pipe := settle True (flow_pipe s)\<rparr>)"
| step_take:
    "flow_hand s = None \<Longrightarrow> pipe_queue (flow_pipe s) = Item sp # q \<Longrightarrow>
     pipe_step cfg ops s (s\<lparr>flow_pipe := (flow_pipe s)\<lparr>pipe_queue := q\<rparr>, flow_hand := Some sp\<rparr>)"
| step_process:
    "flow_hand s = Some sp \<Longrightarrow>
     pipe_step cfg ops s (s\<lparr>flow_pipe := process_span cfg ops ps sp (flow_pipe s), flow_hand := None\<rparr>)"
| step_refill:
    "refill_from_spill cfg (flow_pipe s) = (r, p) \<Longrightarrow>
     pipe_step cfg ops s (s\<lparr>flow_pipe := p\<rparr>)"

inductive pipe_steps :: "pipe_config \<Rightarrow> 'b backend_ops \<Rightarrow> 'b flow \<Rightarrow> 'b flow \<Rightarrow> bool"
  for cfg :: pipe_config and ops :: "'b backend_ops" and s :: "'b flow"
where
  flow_refl: "pipe_steps cfg ops s s"
| flow_step: "pipe_steps cfg ops s s' \<Longrightarrow> pipe_step cfg ops s' s'' \<Longrightarrow> pipe_steps cfg ops s s''"

lemma steps_trans: "pipe_steps cfg ops s t \<Longrightarrow> pipe_steps cfg ops t u \<Longrightarrow> pipe_steps cfg ops s u"
  by (rotate_tac, induction rule: pipe_steps.induct) (auto intro: pipe_steps.intros)

section \<open>The invariant\<close>

definition gap_of :: "compliance_event \<Rightarrow> int" where
  "gap_of e = (case (map_of (attributes e) ''marker'', map_of (attributes e) ''dropped_events'') of
     (Some (JStr m), Some (JInt n)) \<Rightarrow> if m = ''evidence_gap'' then n else 0
   | _ \<Rightarrow> 0)"

definition gap_total :: "compliance_event list \<Rightarrow> int" where
  "gap_total es = sum_list (map gap_of es)"

lemma gap_total_snoc [simp]: "gap_total (es @ [e]) = gap_total es + gap_of e"
  by (simp add: gap_total_def)

definition unsettled :: "emission \<Rightarrow> int" where
  "unsettled em = (case em of MarkerCommitted n \<Rightarrow> n | _ \<Rightarrow> 0)"

definition queued :: "item \<Rightarrow> bool" where
  "queued x \<longleftrightarrow> (case x of Item sp \<Rightarrow> wf_span sp | Sentinel \<Rightarrow> False)"

definition spill_part :: "spill option \<Rightarrow> span_data list \<Rightarrow> bool" where
  "spill_part b xs \<longleftrightarrow> (case b of None \<Rightarrow> xs = [] | Some b \<Rightarrow> spill_holds b xs)"

text \<open>Where the spans are; \<open>backlog\<close> is what the spill file held at the start.\<close>

definition spans_ok :: "int \<Rightarrow> 'b flow \<Rightarrow> bool" where
  "spans_ok backlog s \<longleftrightarrow> (\<exists>xs. spill_part (pipe_spill (flow_pipe s)) xs \<and> list_all wf_span xs
     \<and> list_all queued (pipe_queue (flow_pipe s)) \<and> (\<forall>sp. flow_hand s = Some sp \<longrightarrow> wf_span sp)
     \<and> flow_offered s + backlog = pipe_processed (flow_pipe s) + pipe_errors (flow_pipe s)
         + int (length (pipe_queue (flow_pipe s))) + int (length xs)
         + (if flow_hand s = None then 0 else 1) + pipe_dropped (flow_pipe s))"

definition emission_ok :: "'b pipe \<Rightarrow> bool" where
  "emission_ok p \<longleftrightarrow> (case pipe_emission p of
     NoEmission \<Rightarrow> True
   | Snapshot n a b \<Rightarrow> 0 < n \<and> n \<le> pipe_undeclared p \<and> window_mark a \<and> window_mark b
   | MarkerCommitted n \<Rightarrow> 0 < n \<and> n \<le> pipe_undeclared p)"

definition journal_ok :: "'b pipe \<Rightarrow> bool" where
  "journal_ok p \<longleftrightarrow> 0 \<le> pipe_undeclared p \<and> window_mark (fst (pipe_window p)) \<and> window_mark (snd (pipe_window p))
     \<and> (\<forall>f. pipe_journal p = Some f \<longrightarrow> journal_load f = Inr (if pipe_undeclared p = 0 then None
          else Some [(''count'', JInt (pipe_undeclared p)), (''window_start'', fst (pipe_window p)),
            (''window_end'', snd (pipe_window p))]))"

definition drops_ok ::
  "('b \<Rightarrow> dict list \<Rightarrow> bool) \<Rightarrow> compliance_event list \<Rightarrow> compliance_event list \<Rightarrow> 'b pipe \<Rightarrow> bool"
where
  "drops_ok holds es0 es p \<longleftrightarrow> ledger_ok holds (pipe_ledger p) es \<and> take (length es0) es = es0
     \<and> int (length es) = int (length es0) + pipe_processed p + pipe_drop_markers p
         + (if unsettled (pipe_emission p) = 0 then 0 else 1)
     \<and> pipe_dropped p + pipe_recovered_drops p
         = pipe_undeclared p + (gap_total es - gap_total es0) - unsettled (pipe_emission p)"

definition flow_ok ::
  "('b \<Rightarrow> dict list \<Rightarrow> bool) \<Rightarrow> compliance_event list \<Rightarrow> int \<Rightarrow> compliance_event list \<Rightarrow> 'b flow \<Rightarrow> bool"
where
  "flow_ok holds es0 backlog es s \<longleftrightarrow> spans_ok backlog s \<and> emission_ok (flow_pipe s)
     \<and> journal_ok (flow_pipe s) \<and> drops_ok holds es0 es (flow_pipe s)"

text \<open>What the parts of the invariant depend on.\<close>

lemma emission_frame:
  "emission_ok p \<Longrightarrow> pipe_emission q = pipe_emission p \<Longrightarrow> pipe_undeclared q = pipe_undeclared p \<Longrightarrow> emission_ok q"
  by (cases "pipe_emission p") (simp_all add: emission_ok_def)

lemma journal_frame:
  "journal_ok p \<Longrightarrow> pipe_journal q = pipe_journal p \<Longrightarrow> pipe_undeclared q = pipe_undeclared p \<Longrightarrow>
    pipe_window q = pipe_window p \<Longrightarrow> journal_ok q"
  by (simp add: journal_ok_def)

lemma drops_frame:
  "drops_ok holds es0 es p \<Longrightarrow> pipe_ledger q = pipe_ledger p \<Longrightarrow> pipe_processed q = pipe_processed p \<Longrightarrow>
    pipe_drop_markers q = pipe_drop_markers p \<Longrightarrow> pipe_emission q = pipe_emission p \<Longrightarrow>
    pipe_dropped q = pipe_dropped p \<Longrightarrow> pipe_recovered_drops q = pipe_recovered_drops p \<Longrightarrow>
    pipe_undeclared q = pipe_undeclared p \<Longrightarrow> drops_ok holds es0 es q"
  by (simp add: drops_ok_def)

lemmas pipe_frame = emission_frame journal_frame drops_frame

section \<open>Submission\<close>

lemma spill_short: "spill_holds b xs \<Longrightarrow> spill_holds (snd (spill_append (Some 0) sp b)) xs"
  by (auto simp: spill_holds_def spill_append_def or_else_def)

lemma record_drop_ok:
  assumes "journal_ok p" "emission_ok p" "drops_ok holds es0 es p" "utf8_text now"
  shows "journal_ok (record_drop True now p)" "emission_ok (record_drop True now p)"
    "drops_ok holds es0 es (record_drop True now p)"
proof -
  have w: "window_mark (JStr now)" using assms(4) by (auto simp: window_mark_def)
  let ?a = "if fst (pipe_window p) = JNull then JStr now else fst (pipe_window p)"
  have a: "window_mark ?a" using w assms(1) by (simp add: journal_ok_def)
  show "journal_ok (record_drop True now p)"
  proof (cases "pipe_journal p")
    case None
    then show ?thesis using assms(1) a w by (simp add: journal_ok_def record_drop_def persist_drop_intent_def)
  next
    case (Some f)
    then show ?thesis
      using assms(1) a w journal_load_record [OF a w, of "pipe_undeclared p + 1" f]
      by (simp add: journal_ok_def record_drop_def persist_drop_intent_def)
  qed
  show "emission_ok (record_drop True now p)"
    using assms(2) by (auto simp: emission_ok_def record_drop_def persist_drop_intent_def
        split: emission.splits option.splits)
  show "drops_ok holds es0 es (record_drop True now p)"
    using assms(3) by (auto simp: drops_ok_def record_drop_def persist_drop_intent_def split: option.splits)
qed

lemma record_drop_fields:
  "pipe_queue (record_drop w now p) = pipe_queue p" "pipe_spill (record_drop w now p) = pipe_spill p"
  "pipe_processed (record_drop w now p) = pipe_processed p" "pipe_errors (record_drop w now p) = pipe_errors p"
  "pipe_dropped (record_drop w now p) = pipe_dropped p + 1"
  by (simp_all add: record_drop_def persist_drop_intent_def split: option.splits)

lemma submit_ok:
  assumes "flow_ok holds es0 k es s" "good_span sp" "utf8_text now" "short = None \<or> short = Some 0"
  shows "flow_ok holds es0 k es (s\<lparr>flow_pipe := submit_span cfg short True now sp (flow_pipe s),
       flow_offered := flow_offered s + 1\<rparr>)"
proof -
  let ?p = "flow_pipe s"
  have ok: "journal_ok ?p" "emission_ok ?p" "drops_ok holds es0 es ?p" and sp: "spans_ok k s"
    using assms(1) by (simp_all add: flow_ok_def)
  obtain xs where xs: "spill_part (pipe_spill ?p) xs" "list_all wf_span xs" "list_all queued (pipe_queue ?p)"
    "\<forall>sp. flow_hand s = Some sp \<longrightarrow> wf_span sp"
    "flow_offered s + k = pipe_processed ?p + pipe_errors ?p + int (length (pipe_queue ?p))
       + int (length xs) + (if flow_hand s = None then 0 else 1) + pipe_dropped ?p"
    using sp unfolding spans_ok_def by blast
  have wf: "wf_span sp" "line_safe sp" using assms(2) by (simp_all add: good_span_def)
  consider (queue) q where "put_nowait (pc_max_queue cfg) (Item sp) (pipe_queue ?p) = Some q"
    | (drop) "put_nowait (pc_max_queue cfg) (Item sp) (pipe_queue ?p) = None" "pipe_spill ?p = None"
    | (spill) b where "put_nowait (pc_max_queue cfg) (Item sp) (pipe_queue ?p) = None" "pipe_spill ?p = Some b" "short = None"
    | (short) b where "put_nowait (pc_max_queue cfg) (Item sp) (pipe_queue ?p) = None" "pipe_spill ?p = Some b" "short = Some 0"
    using assms(4) by (cases "put_nowait (pc_max_queue cfg) (Item sp) (pipe_queue ?p)"; cases "pipe_spill ?p") auto
  then show ?thesis
  proof cases
    case queue
    then have "q = pipe_queue ?p @ [Item sp]" by (simp add: put_nowait_def split: if_splits)
    with queue have run: "submit_span cfg short True now sp ?p = ?p\<lparr>pipe_queue := pipe_queue ?p @ [Item sp]\<rparr>"
      by (simp add: submit_span_def)
    have "spans_ok k (s\<lparr>flow_pipe := submit_span cfg short True now sp ?p, flow_offered := flow_offered s + 1\<rparr>)"
      unfolding spans_ok_def run using xs wf by (intro exI [of _ xs]) (simp add: queued_def)
    then show ?thesis
      unfolding flow_ok_def flow.simps run by (intro conjI journal_frame [OF ok(1)] emission_frame [OF ok(2)] drops_frame [OF ok(3)]) simp_all
  next
    case drop
    then have "submit_span cfg short True now sp ?p = record_drop True now ?p" by (simp add: submit_span_def)
    with record_drop_ok [OF ok assms(3)] xs show ?thesis
      by (auto simp: flow_ok_def spans_ok_def record_drop_fields)
  next
    case spill
    let ?b = "snd (spill_append None sp b)"
    have run: "submit_span cfg short True now sp ?p = ?p\<lparr>pipe_spill := Some ?b, pipe_spilled := pipe_spilled ?p + 1\<rparr>"
      using spill by (simp add: submit_span_def spill_append_def Let_def)
    have "spill_holds ?b (xs @ [sp])" using spill_put wf(2) xs(1) spill by (simp add: spill_part_def)
    then have "spans_ok k (s\<lparr>flow_pipe := submit_span cfg short True now sp ?p, flow_offered := flow_offered s + 1\<rparr>)"
      unfolding spans_ok_def using xs wf run by (intro exI [of _ "xs @ [sp]"]) (simp add: spill_part_def)
    then show ?thesis
      unfolding flow_ok_def flow.simps run by (intro conjI journal_frame [OF ok(1)] emission_frame [OF ok(2)] drops_frame [OF ok(3)]) simp_all
  next
    case short
    let ?q = "?p\<lparr>pipe_spill := Some (snd (spill_append (Some 0) sp b))\<rparr>"
    have run: "submit_span cfg short True now sp ?p = record_drop True now ?q"
      using short by (simp add: submit_span_def spill_append_def Let_def)
    have "spill_holds (snd (spill_append (Some 0) sp b)) xs"
      using spill_short xs(1) short by (simp add: spill_part_def)
    then have "spans_ok k (s\<lparr>flow_pipe := record_drop True now ?q, flow_offered := flow_offered s + 1\<rparr>)"
      unfolding spans_ok_def using xs by (intro exI [of _ xs]) (simp add: spill_part_def record_drop_fields)
    moreover have "journal_ok ?q" "emission_ok ?q" "drops_ok holds es0 es ?q"
      by (intro journal_frame [OF ok(1)] emission_frame [OF ok(2)] drops_frame [OF ok(3)]; simp)+
    from record_drop_ok [OF this assms(3)]
    have "journal_ok (record_drop True now ?q)" "emission_ok (record_drop True now ?q)"
      "drops_ok holds es0 es (record_drop True now ?q)" .
    ultimately show ?thesis by (simp add: flow_ok_def run)
  qed
qed

section \<open>Overflow flowing back\<close>

lemma feed_queue:
  "list_all queued q \<Longrightarrow> list_all wf_span xs \<Longrightarrow>
    list_all queued (snd (feed (accept_span cfg) xs q)) \<and> list_all wf_span (drop (fst (feed (accept_span cfg) xs q)) xs)
    \<and> length (snd (feed (accept_span cfg) xs q)) = length q + fst (feed (accept_span cfg) xs q)"
proof (induction xs arbitrary: q)
  case (Cons x xs)
  show ?case
  proof (cases "put_nowait (pc_max_queue cfg) (Item x) q")
    case None
    with Cons.prems show ?thesis by (simp add: accept_span_def)
  next
    case (Some q')
    then have "q' = q @ [Item x]" by (simp add: put_nowait_def split: if_splits)
    with Some Cons show ?thesis by (simp add: accept_span_def split_beta queued_def)
  qed
qed simp

lemma refill_ok:
  assumes "flow_ok holds es0 k es s" "refill_from_spill cfg (flow_pipe s) = (r, p)"
  shows "flow_ok holds es0 k es (s\<lparr>flow_pipe := p\<rparr>) \<and> r = Inr ()"
proof (cases "pipe_spill (flow_pipe s)")
  case None
  with assms show ?thesis by (auto simp: refill_from_spill_def)
next
  case (Some b)
  let ?p = "flow_pipe s"
  obtain xs where xs: "spill_holds b xs" "list_all wf_span xs" "list_all queued (pipe_queue ?p)"
    "\<forall>sp. flow_hand s = Some sp \<longrightarrow> wf_span sp"
    "flow_offered s + k = pipe_processed ?p + pipe_errors ?p + int (length (pipe_queue ?p))
       + int (length xs) + (if flow_hand s = None then 0 else 1) + pipe_dropped ?p"
    using assms(1) Some unfolding flow_ok_def spans_ok_def spill_part_def by auto
  obtain n q where f: "feed (accept_span cfg) xs (pipe_queue ?p) = (n, q)" by fastforce
  obtain b' where b': "spill_drain (accept_span cfg) b (pipe_queue ?p) = (Inr (int n), b', q)"
    "spill_holds b' (drop n xs)"
    using spill_pull [OF xs(1), of "accept_span cfg" "pipe_queue ?p"] f by auto
  have p: "r = Inr ()" "p = ?p\<lparr>pipe_spill := Some b', pipe_queue := q, pipe_spill_recovered := pipe_spill_recovered ?p + int n\<rparr>"
    using assms(2) Some b'(1) by (simp_all add: refill_from_spill_def)
  have q: "list_all queued q" "list_all wf_span (drop n xs)" "length q = length (pipe_queue ?p) + n" "n \<le> length xs"
    using feed_queue [OF xs(3,2), of cfg] feed_bound [of "accept_span cfg" xs "pipe_queue ?p"] f by simp_all
  have "spans_ok k (s\<lparr>flow_pipe := p\<rparr>)"
    unfolding spans_ok_def p(2) using xs(4,5) q b'(2) by (intro exI [of _ "drop n xs"]) (simp add: spill_part_def)
  moreover have ok: "journal_ok ?p" "emission_ok ?p" "drops_ok holds es0 es ?p"
    using assms(1) by (simp_all add: flow_ok_def)
  have "journal_ok p" "emission_ok p" "drops_ok holds es0 es p"
    unfolding p(2) by (intro journal_frame [OF ok(1)] emission_frame [OF ok(2)] drops_frame [OF ok(3)]; simp)+
  ultimately show ?thesis using p(1) by (simp add: flow_ok_def)
qed

section \<open>Emission and processing\<close>

lemma commit_keeps_attributes:
  "commit ops clk e led = Inr (e', led') \<Longrightarrow> attributes e' = attributes e"
  by (auto simp: commit_def prepare_commit_def install_commit_def Let_def stamp_def finalize_id_def sbind_Inr_conv)

lemma gap_marker_shape:
  assumes "gap_marker cfg now n a b = Inr m"
  shows "gap_of m = n"
  using assms by (auto simp: gap_marker_def gap_of_def sbind_Inr_conv no_floats_in_attributes_def split: if_splits)

lemma wf_gap_marker:
  assumes "window_mark a" "window_mark b"
  shows "\<exists>m. gap_marker cfg now n a b = Inr m \<and> wf_event m"
proof -
  have "good_value (JDict [(''marker'', JStr ''evidence_gap''), (''dropped_events'', JInt n),
      (''window_start'', a), (''window_end'', b)])"
    using assms by (auto simp: good_value_def window_mark_def)
  moreover have "wf_actor (bare_actor x)" "wf_source_meta (bare_source y)" for x y
    by (simp_all add: wf_actor_def bare_actor_def wf_source_meta_def bare_source_def good_extras_def good_value_def)
  ultimately show ?thesis
    by (auto simp: gap_marker_def no_floats_in_attributes_def good_value_def wf_event_def bare_event_def
        good_extras_def empty_provenance_def wf_provenance_def)
qed

lemma begin_ok: "flow_ok holds es0 k es s \<Longrightarrow> pipe_emission (flow_pipe s) = NoEmission \<Longrightarrow>
    flow_ok holds es0 k es (s\<lparr>flow_pipe := begin_emit (flow_pipe s)\<rparr>)"
  by (auto simp: flow_ok_def begin_emit_def spans_ok_def emission_ok_def journal_ok_def drops_ok_def unsettled_def)

lemma settle_ok:
  assumes "flow_ok holds es0 k es s"
  shows "flow_ok holds es0 k es (s\<lparr>flow_pipe := settle True (flow_pipe s)\<rparr>)"
proof (cases "pipe_emission (flow_pipe s)")
  case (MarkerCommitted n)
  let ?p = "flow_pipe s"
  have n: "0 < n" "n \<le> pipe_undeclared ?p" and j: "journal_ok ?p" and d: "drops_ok holds es0 es ?p"
    and sp: "spans_ok k s"
    using assms MarkerCommitted by (simp_all add: flow_ok_def emission_ok_def)
  have "journal_ok (settle True ?p)"
  proof (cases "pipe_undeclared ?p = n")
    case True
    with MarkerCommitted show ?thesis by (auto simp: settle_def journal_ok_def window_mark_def Let_def)
  next
    case False
    with n have pos: "0 < pipe_undeclared ?p - n" by simp
    show ?thesis
      using j pos MarkerCommitted journal_load_record [of "fst (pipe_window ?p)" "snd (pipe_window ?p)" "pipe_undeclared ?p - n"]
      by (cases "pipe_journal ?p") (simp_all add: settle_def journal_ok_def persist_drop_intent_def Let_def)
  qed
  moreover have "drops_ok holds es0 es (settle True ?p)"
    using d n MarkerCommitted
    by (auto simp: settle_def drops_ok_def unsettled_def persist_drop_intent_def Let_def split: option.splits)
  moreover have "emission_ok (settle True ?p)" "spans_ok k (s\<lparr>flow_pipe := settle True ?p\<rparr>)"
    using sp MarkerCommitted
    by (auto simp: settle_def emission_ok_def spans_ok_def persist_drop_intent_def Let_def split: option.splits)
  ultimately show ?thesis by (simp add: flow_ok_def)
qed (use assms in \<open>simp_all add: settle_def\<close>)

context ledger_backend
begin

lemma commit_step_ok:
  assumes "flow_ok holds es0 k es s" "commit_marker cfg ops available now clock (flow_pipe s) = (r, p)"
  shows "\<exists>es'. flow_ok holds es0 k es' (s\<lparr>flow_pipe := p\<rparr>) \<and> r = Inr ()"
proof (cases "pipe_emission (flow_pipe s)")
  case (Snapshot n a b)
  let ?p = "flow_pipe s"
  have n: "0 < n" "n \<le> pipe_undeclared ?p" "window_mark a" "window_mark b" and j: "journal_ok ?p"
    and d: "drops_ok holds es0 es ?p" and sp: "spans_ok k s"
    using assms(1) Snapshot by (simp_all add: flow_ok_def emission_ok_def)
  obtain m where m: "gap_marker cfg now n a b = Inr m" "wf_event m" using wf_gap_marker [OF n(3,4)] by blast
  show ?thesis
  proof (cases "commit_attempt ops available clock m (pipe_ledger ?p)")
    case (Inl e)
    then have "r = Inr ()" "p = ?p\<lparr>pipe_emission := NoEmission\<rparr>"
      using assms(2) Snapshot m by (simp_all add: commit_marker_def)
    then show ?thesis
      using j d sp Snapshot by (intro exI [of _ es]) (simp add: flow_ok_def spans_ok_def emission_ok_def journal_ok_def drops_ok_def unsettled_def)
  next
    case (Inr res)
    obtain e' led where res: "res = (e', led)" by fastforce
    then have c: "commit ops clock m (pipe_ledger ?p) = Inr (e', led)"
      using Inr by (simp add: commit_attempt_def split: if_splits)
    have p: "r = Inr ()" "p = ?p\<lparr>pipe_ledger := led, pipe_emission := MarkerCommitted n\<rparr>"
      using assms(2) Snapshot m Inr res by (simp_all add: commit_marker_def)
    have g: "gap_of e' = n"
      using gap_marker_shape [OF m(1)] commit_keeps_attributes [OF c] by (simp add: gap_of_def)
    have "ledger_ok holds (pipe_ledger ?p) es" using d by (simp add: drops_ok_def)
    from commit_ok [OF this m(2) c] have led: "ledger_ok holds led (es @ [e'])" by simp
    have "length es0 \<le> length es" using d unfolding drops_ok_def by (metis nat_le_linear take_all)
    then have "drops_ok holds es0 (es @ [e']) p"
      using d led n(1) g Snapshot by (simp add: drops_ok_def p unsettled_def)
    moreover have "spans_ok k (s\<lparr>flow_pipe := p\<rparr>)" "emission_ok p" "journal_ok p"
      using sp j n by (simp_all add: p spans_ok_def emission_ok_def journal_ok_def)
    ultimately show ?thesis using p(1) by (auto simp: flow_ok_def)
  qed
qed (use assms in \<open>auto simp: commit_marker_def\<close>)

lemma commit_attempt_ok:
  assumes "commit_attempt ops available clock e led = Inr (e', led')" "wf_event e" "ledger_ok holds led es"
  shows "\<exists>e'. attributes e' = attributes e \<and> ledger_ok holds led' (es @ [e'])"
proof -
  have "commit ops clock e led = Inr (e', led')"
    using assms(1) by (simp add: commit_attempt_def split: if_splits)
  with commit_ok [OF assms(3,2)] commit_keeps_attributes show ?thesis by blast
qed

lemma try_commit_ok:
  assumes "try_commit ops available clock a n e led = (ok, r, led')" "wf_event e" "ledger_ok holds led es"
  shows "if ok then \<exists>e'. attributes e' = attributes e \<and> ledger_ok holds led' (es @ [e']) else led' = led"
  using assms(1)
proof (induction n arbitrary: a r ok led')
  case 0
  then show ?case
    using commit_attempt_ok [OF _ assms(2,3)] by (auto split: sum.splits)
next
  case (Suc n)
  show ?case
  proof (cases "commit_attempt ops (available a) clock e led")
    case (Inl x)
    obtain ok' r' l where t: "try_commit ops available clock (Suc a) n e led = (ok', r', l)"
      by (metis prod_cases3)
    with Inl Suc.prems have "ok = ok'" "led' = l" by simp_all
    with Suc.IH [OF t] show ?thesis by simp
  next
    case (Inr res)
    with Suc.prems commit_attempt_ok [OF _ assms(2,3)] show ?thesis by (cases res) auto
  qed
qed

lemma process_ok:
  assumes "flow_ok holds es0 k es s" "flow_hand s = Some sp"
  shows "\<exists>es'. flow_ok holds es0 k es' (s\<lparr>flow_pipe := process_span cfg ops ps sp (flow_pipe s), flow_hand := None\<rparr>)"
proof -
  let ?p = "flow_pipe s"
  have j: "journal_ok ?p" "emission_ok ?p" and d: "drops_ok holds es0 es ?p" and sp: "spans_ok k s"
    using assms(1) by (simp_all add: flow_ok_def)
  have wf: "wf_span sp" using sp assms(2) by (auto simp: spans_ok_def)
  show ?thesis
  proof (cases "normalize (pc_normalizer cfg) (ps_now ps) (pipe_known ?p) sp")
    case (Inl x)
    then have "process_span cfg ops ps sp ?p = ?p\<lparr>pipe_errors := pipe_errors ?p + 1\<rparr>"
      by (simp add: process_span_def)
    moreover have "spans_ok k (s\<lparr>flow_pipe := ?p\<lparr>pipe_errors := pipe_errors ?p + 1\<rparr>, flow_hand := None\<rparr>)"
      using sp assms(2) by (auto simp: spans_ok_def)
    ultimately show ?thesis
      unfolding flow_ok_def
      by (intro exI [of _ es]) (simp add: journal_frame [OF j(1)] emission_frame [OF j(2)] drops_frame [OF d])
  next
    case (Inr res)
    obtain e known where res: "res = (e, known)" by fastforce
    obtain ok r led where t: "try_commit ops (ps_available ps) (ps_clock ps) 0 (pc_commit_retries cfg) e (pipe_ledger ?p) = (ok, r, led)"
      by (metis prod_cases3)
    let ?q = "?p\<lparr>pipe_known := known, pipe_ledger := led, pipe_retries := pipe_retries ?p + r\<rparr>"
    have run: "process_span cfg ops ps sp ?p = (if ok then ?q\<lparr>pipe_processed := pipe_processed ?q + 1\<rparr> else ?q\<lparr>pipe_errors := pipe_errors ?q + 1\<rparr>)"
      using Inr res t by (simp add: process_span_def)
    from normalize_event [OF Inr [unfolded res] wf] have e: "wf_event e" "map_of (attributes e) ''marker'' = None" .
    have led0: "ledger_ok holds (pipe_ledger ?p) es" using d by (simp add: drops_ok_def)
    have len: "length es0 \<le> length es" using d unfolding drops_ok_def by (metis nat_le_linear take_all)
    have sp': "spans_ok k (s\<lparr>flow_pipe := process_span cfg ops ps sp ?p, flow_hand := None\<rparr>)"
      using sp assms(2) run by (auto simp: spans_ok_def)
    have j': "journal_ok (process_span cfg ops ps sp ?p)" "emission_ok (process_span cfg ops ps sp ?p)"
      unfolding run by (intro journal_frame [OF j(1)] emission_frame [OF j(2)]; simp)+
    show ?thesis
    proof (cases ok)
      case True
      then obtain e' where e': "attributes e' = attributes e" "ledger_ok holds led (es @ [e'])"
        using try_commit_ok [OF t e(1) led0] by auto
      then have "gap_of e' = 0" using e(2) by (simp add: gap_of_def)
      with d e'(2) True len have "drops_ok holds es0 (es @ [e']) (process_span cfg ops ps sp ?p)"
        unfolding run by (auto simp: drops_ok_def)
      with sp' j' show ?thesis by (auto simp: flow_ok_def)
    next
      case False
      then have "led = pipe_ledger ?p" using try_commit_ok [OF t e(1) led0] by simp
      with d False have "drops_ok holds es0 es (process_span cfg ops ps sp ?p)"
        unfolding run by (simp add: drops_ok_def)
      with sp' j' show ?thesis by (auto simp: flow_ok_def)
    qed
  qed
qed

lemma pipe_step_ok:
  assumes "pipe_step cfg ops s s'" "flow_ok holds es0 k es s"
  shows "\<exists>es'. flow_ok holds es0 k es' s'"
  using assms(1)
proof cases
  case (step_take sp q)
  have "queued (Item sp)" "list_all queued q" using assms(2) step_take(3) by (auto simp: flow_ok_def spans_ok_def)
  then show ?thesis
  proof -
    let ?p = "flow_pipe s"
    have ok: "journal_ok ?p" "emission_ok ?p" "drops_ok holds es0 es ?p" "spans_ok k s"
      using assms(2) by (simp_all add: flow_ok_def)
    have "spans_ok k s'" using ok(4) step_take \<open>queued (Item sp)\<close> by (auto simp: spans_ok_def queued_def)
    then show ?thesis
      using step_take unfolding flow_ok_def
      by (intro exI [of _ es]) (simp add: journal_frame [OF ok(1)] emission_frame [OF ok(2)] drops_frame [OF ok(3)])
  qed
next
  case (step_submit sp now short)
  then show ?thesis using submit_ok [OF assms(2)] by blast
next
  case step_begin
  then show ?thesis using begin_ok [OF assms(2)] by blast
next
  case (step_commit available now clock r p)
  then show ?thesis using commit_step_ok [OF assms(2)] by blast
next
  case step_settle
  then show ?thesis using settle_ok [OF assms(2)] by blast
next
  case (step_process sp ps)
  then show ?thesis using process_ok [OF assms(2)] by blast
next
  case (step_refill r p)
  then show ?thesis using refill_ok [OF assms(2)] by blast
qed

lemma pipe_steps_ok:
  "pipe_steps cfg ops s s' \<Longrightarrow> flow_ok holds es0 k es s \<Longrightarrow> \<exists>es'. flow_ok holds es0 k es' s'"
  by (induction rule: pipe_steps.induct) (blast dest: pipe_step_ok)+

end

end
