(* ===== verification/Pipeline_Run.thy ===== *)
theory Pipeline_Run imports Pipeline_Laws begin

text \<open>
  The worker and a thread that called \<open>flush\<close>, interleaved.  Their moves are steps of \<open>Pipeline_Laws\<close>;
  no schedule blocks them for good, a measure bounds what they can do, and when \<open>flush\<close> returns
  nothing is left in the queue, in the worker's hand or in the spill file.

  A move is atomic where the code's locks make it so: \<open>drain\<close> and \<open>pending\<close> hold the lock of the spill
  buffer, an emission holds \<open>_emit_lock\<close>, a commit the ledger's.  The one thing the worker can do
  while \<open>flush\<close> drains is to take an item, which lets the drain go on: \<open>flush_drains\<close>.  \<open>submit\<close> does not
  run meanwhile, as the comment of \<open>flush\<close> asks.  The counter \<open>spill_recovered\<close>, which both threads
  update without a lock, is no part of any claim.
\<close>

section \<open>The worker takes these steps\<close>

lemma begin_untouched:
  "pipe_queue (begin_emit p) = pipe_queue p \<and> pipe_spill (begin_emit p) = pipe_spill p
    \<and> pipe_processed (begin_emit p) = pipe_processed p \<and> pipe_errors (begin_emit p) = pipe_errors p
    \<and> pipe_dropped (begin_emit p) = pipe_dropped p
    \<and> pipe_recovered_drops (begin_emit p) = pipe_recovered_drops p \<and> pipe_known (begin_emit p) = pipe_known p
    \<and> (pipe_emission p = NoEmission \<longrightarrow> (\<forall>n. pipe_emission (begin_emit p) \<noteq> MarkerCommitted n))"
  by (simp add: begin_emit_def)

lemma commit_untouched:
  assumes "commit_marker cfg ops available now clock p = (r, q)"
  shows "pipe_queue q = pipe_queue p \<and> pipe_spill q = pipe_spill p
    \<and> pipe_processed q = pipe_processed p \<and> pipe_errors q = pipe_errors p
    \<and> pipe_dropped q = pipe_dropped p
    \<and> pipe_recovered_drops q = pipe_recovered_drops p \<and> pipe_known q = pipe_known p
    \<and> (\<forall>n a b. pipe_emission q \<noteq> Snapshot n a b)"
proof (cases "pipe_emission p")
  case (Snapshot n a b)
  with assms show ?thesis
    by (cases "gap_marker cfg now n a b")
      (auto simp: commit_marker_def split: sum.splits)
qed (use assms in \<open>simp_all add: commit_marker_def\<close>)

lemma settle_untouched:
  "pipe_queue (settle w p) = pipe_queue p \<and> pipe_spill (settle w p) = pipe_spill p
    \<and> pipe_processed (settle w p) = pipe_processed p \<and> pipe_errors (settle w p) = pipe_errors p
    \<and> pipe_dropped (settle w p) = pipe_dropped p
    \<and> pipe_recovered_drops (settle w p) = pipe_recovered_drops p \<and> pipe_known (settle w p) = pipe_known p
    \<and> ((\<forall>n a b. pipe_emission p \<noteq> Snapshot n a b) \<longrightarrow> pipe_emission (settle w p) = NoEmission)"
  by (cases "pipe_emission p"; cases "pipe_journal p") (simp_all add: settle_def persist_drop_intent_def Let_def)

lemma emission_untouched:
  assumes "emit_drop_marker_if_pending cfg ops available w now clock p = (r, q)"
  shows "pipe_queue q = pipe_queue p \<and> pipe_spill q = pipe_spill p \<and> pipe_processed q = pipe_processed p
    \<and> pipe_errors q = pipe_errors p \<and> pipe_dropped q = pipe_dropped p
    \<and> pipe_recovered_drops q = pipe_recovered_drops p
    \<and> pipe_known q = pipe_known p \<and> pipe_emission q = NoEmission"
proof -
  obtain r' p' where c: "commit_marker cfg ops available now clock (begin_emit p) = (r', p')" by fastforce
  with assms have "q = settle w p'" by (simp add: emit_drop_marker_if_pending_def)
  with begin_untouched [of p] commit_untouched [OF c] settle_untouched [of w p'] show ?thesis by simp
qed

text \<open>Between two items, with nothing in hand.\<close>

definition at_rest :: "'b flow \<Rightarrow> bool" where
  "at_rest s \<longleftrightarrow> flow_hand s = None \<and> pipe_emission (flow_pipe s) = NoEmission"

lemma refill_untouched:
  "refill_from_spill cfg p = (r, q) \<Longrightarrow> pipe_processed q = pipe_processed p \<and> pipe_errors q = pipe_errors p
    \<and> pipe_dropped q = pipe_dropped p \<and> pipe_emission q = pipe_emission p
    \<and> pipe_recovered_drops q = pipe_recovered_drops p"
  by (auto simp: refill_from_spill_def split: option.splits prod.splits sum.splits)

lemma process_untouched:
  "pipe_queue (process_span cfg ops ps sp p) = pipe_queue p \<and> pipe_dropped (process_span cfg ops ps sp p) = pipe_dropped p
    \<and> pipe_emission (process_span cfg ops ps sp p) = pipe_emission p
    \<and> pipe_recovered_drops (process_span cfg ops ps sp p) = pipe_recovered_drops p
    \<and> pipe_processed (process_span cfg ops ps sp p) + pipe_errors (process_span cfg ops ps sp p) = pipe_processed p + pipe_errors p + 1"
  by (simp add: process_span_def Let_def split: sum.splits prod.splits if_split del: try_commit.simps)

context ledger_backend
begin

lemma emit_steps:
  assumes "flow_ok holds es0 k es s" "pipe_emission (flow_pipe s) = NoEmission"
    and "emit_drop_marker_if_pending cfg ops available True now clock (flow_pipe s) = (r, q)"
  shows "pipe_steps cfg ops s (s\<lparr>flow_pipe := q\<rparr>) \<and> r = Inr ()"
proof -
  let ?s1 = "s\<lparr>flow_pipe := begin_emit (flow_pipe s)\<rparr>"
  obtain r0 p2 where c0: "commit_marker cfg ops available now clock (begin_emit (flow_pipe s)) = (r0, p2)"
    by fastforce
  with assms(3) have c: "commit_marker cfg ops available now clock (begin_emit (flow_pipe s)) = (r, p2)"
    and q: "q = settle True p2" by (simp_all add: emit_drop_marker_if_pending_def)
  let ?s2 = "s\<lparr>flow_pipe := p2\<rparr>"
  have s1: "pipe_step cfg ops s ?s1" by (rule step_begin [OF assms(2)])
  have s2: "pipe_step cfg ops ?s1 ?s2" using step_commit [where s = ?s1 and r = r and p = p2] c by simp
  have s3: "pipe_step cfg ops ?s2 (s\<lparr>flow_pipe := q\<rparr>)" using step_settle [where s = ?s2] q by simp
  have "flow_ok holds es0 k es ?s1" by (rule begin_ok [OF assms(1,2)])
  then have "r = Inr ()" using commit_step_ok [where s = ?s1 and r = r and p = p2] c by fastforce
  with s1 s2 s3 show ?thesis by (blast intro: pipe_steps.intros)
qed

lemma refill_step_ok:
  assumes "flow_ok holds es0 k es s" "refill_from_spill cfg (flow_pipe s) = (r, p)"
  shows "pipe_steps cfg ops s (s\<lparr>flow_pipe := p\<rparr>) \<and> r = Inr ()"
  using step_refill [where s = s, OF assms(2)] refill_ok [OF assms] by (blast intro: pipe_steps.intros)

end

section \<open>Refilling\<close>

lemma spill_part_unique: "spill_part b xs \<Longrightarrow> spill_part b ys \<Longrightarrow> length xs = length ys"
proof (cases b)
  case (Some c)
  assume "spill_part b xs" "spill_part b ys"
  with Some spill_size [of c xs] spill_size [of c ys] show ?thesis by (simp add: spill_part_def)
qed (simp add: spill_part_def)

lemma feed_length: "length q \<le> length (snd (feed (accept_span cfg) xs q))"
proof (induction xs arbitrary: q)
  case (Cons x xs)
  show ?case
  proof (cases "put_nowait (pc_max_queue cfg) (Item x) q")
    case (Some q')
    then have "length q \<le> length q'" by (auto simp: put_nowait_def split: if_splits)
    with Some Cons.IH [of q'] show ?thesis by (simp add: accept_span_def split_beta)
  qed (simp add: accept_span_def)
qed simp

text \<open>An empty queue takes at least one span back.\<close>

lemma refill_empties:
  assumes "refill_from_spill cfg p = (Inr (), q)" "pipe_queue q = []" "spill_part (pipe_spill p) xs"
  shows "spill_part (pipe_spill q) []"
proof (cases "pipe_spill p")
  case None
  with assms show ?thesis by (simp add: refill_from_spill_def spill_part_def)
next
  case (Some b)
  obtain n z where f: "feed (accept_span cfg) xs (pipe_queue p) = (n, z)" by fastforce
  obtain b' where b': "spill_drain (accept_span cfg) b (pipe_queue p) = (Inr (int n), b', z)"
    "spill_holds b' (drop n xs)"
    using spill_pull [of b xs "accept_span cfg" "pipe_queue p"] f assms(3) Some by (auto simp: spill_part_def)
  have q: "pipe_queue q = z" "pipe_spill q = Some b'" using assms(1) Some b' by (auto simp: refill_from_spill_def)
  have "xs = []"
  proof (rule ccontr)
    assume "xs \<noteq> []"
    then obtain x ys where xs: "xs = x # ys" by (cases xs) auto
    show False
    proof (cases "pipe_queue p = []")
      case True
      then have "accept_span cfg x (pipe_queue p) = (True, [Item x])"
        by (simp add: accept_span_def put_nowait_def)
      with f xs have "z = snd (feed (accept_span cfg) ys [Item x])" by (simp add: split_beta)
      with feed_length [of "[Item x]" cfg ys] q assms(2) show False by simp
    next
      case False
      with feed_length [of "pipe_queue p" cfg xs] f q assms(2) show False by simp
    qed
  qed
  with b' q show ?thesis by (simp add: spill_part_def)
qed

lemma flow_spill:
  assumes "flow_ok holds es0 k es s"
  obtains xs where "spill_part (pipe_spill (flow_pipe s)) xs"
  using assms unfolding flow_ok_def spans_ok_def by blast

lemma queue_head:
  assumes "flow_ok holds es0 k es s" "pipe_queue (flow_pipe s) \<noteq> []"
  obtains sp q where "pipe_queue (flow_pipe s) = Item sp # q"
  using assms
  by (cases "pipe_queue (flow_pipe s)"; cases "hd (pipe_queue (flow_pipe s))")
    (auto simp: flow_ok_def spans_ok_def queued_def)

text \<open>How many spans wait in the spill file.\<close>

definition spill_backlog :: "'b pipe \<Rightarrow> nat" where
  "spill_backlog p = (case pipe_spill p of
     None \<Rightarrow> 0
   | Some b \<Rightarrow> (case spill_pending b of Inr n \<Rightarrow> nat n | Inl e \<Rightarrow> 0))"

lemma backlog_part: "spill_part (pipe_spill p) xs \<Longrightarrow> spill_backlog p = length xs"
  by (auto simp: spill_part_def spill_backlog_def spill_size split: option.splits)

lemma backlog_pending:
  "flow_ok holds es0 k es s \<Longrightarrow> pipe_spill (flow_pipe s) = Some b \<Longrightarrow>
    spill_pending b = Inr (int (spill_backlog (flow_pipe s)))"
  by (erule flow_spill) (auto simp: spill_part_def spill_backlog_def spill_size)

lemma refill_numbers:
  assumes "flow_ok holds es0 k es s" "refill_from_spill cfg (flow_pipe s) = (r, p)"
  obtains n where "r = Inr ()" "spill_backlog (flow_pipe s) = spill_backlog p + n"
    "length (pipe_queue p) = length (pipe_queue (flow_pipe s)) + n"
    "pipe_queue p = [] \<longrightarrow> spill_backlog p = 0"
    "pipe_spill p = None \<longleftrightarrow> pipe_spill (flow_pipe s) = None" "pipe_undeclared p = pipe_undeclared (flow_pipe s)"
    "pipe_emission p = pipe_emission (flow_pipe s)"
proof (cases "pipe_spill (flow_pipe s)")
  case None
  with assms that [of 0] show ?thesis by (simp add: refill_from_spill_def spill_backlog_def)
next
  case (Some b)
  obtain xs where xs: "spill_holds b xs" "list_all wf_span xs" "list_all queued (pipe_queue (flow_pipe s))"
    using assms(1) Some by (auto simp: flow_ok_def spans_ok_def spill_part_def)
  obtain n z where f: "feed (accept_span cfg) xs (pipe_queue (flow_pipe s)) = (n, z)" by fastforce
  obtain b' where b': "spill_drain (accept_span cfg) b (pipe_queue (flow_pipe s)) = (Inr (int n), b', z)"
    "spill_holds b' (drop n xs)"
    using spill_pull [OF xs(1), of "accept_span cfg" "pipe_queue (flow_pipe s)"] f by auto
  then have r: "r = Inr ()" and p: "p = (flow_pipe s)\<lparr>pipe_spill := Some b', pipe_queue := z,
      pipe_spill_recovered := pipe_spill_recovered (flow_pipe s) + int n\<rparr>"
    using assms(2) Some by (auto simp: refill_from_spill_def)
  have part: "spill_part (pipe_spill p) (drop n xs)" "spill_part (pipe_spill (flow_pipe s)) xs"
    using b'(2) xs(1) Some by (simp_all add: p spill_part_def)
  have "spill_backlog p = 0" if "pipe_queue p = []"
    using backlog_part [OF refill_empties [OF assms(2) [unfolded r] that part(2)]] by simp
  moreover have "length z = length (pipe_queue (flow_pipe s)) + n" "n \<le> length xs"
    using feed_queue [OF xs(3,2), of cfg] feed_bound [of "accept_span cfg" xs "pipe_queue (flow_pipe s)"] f by simp_all
  ultimately show ?thesis
    using that [of n] r backlog_part [OF part(1)] backlog_part [OF part(2)] Some by (simp add: p)
qed

section \<open>Two threads\<close>

record 'b flushing =
  fl_pipe :: "'b pipe"
  fl_worker :: worker_stage
  fl_flush :: flush_stage

text \<open>The worker's turns that wait for something to do.\<close>

definition idling :: "worker_stage \<Rightarrow> 'b pipe \<Rightarrow> bool" where
  "idling st p \<longleftrightarrow> (st = Getting \<and> pipe_queue p = []) \<or> st = Idle_Refill \<or> st = Idle_Attest \<or> st = Stopped"

text \<open>One move of either thread, and whether it is work (1) or an idle turn (0).  \<open>allowed\<close> bounds what
  the outside may do meanwhile: clocks, availability, disk.\<close>

inductive flush_step ::
  "pipe_config \<Rightarrow> 'b backend_ops \<Rightarrow> (pass \<Rightarrow> bool) \<Rightarrow> 'b flushing \<Rightarrow> nat \<Rightarrow> 'b flushing \<Rightarrow> bool"
  for cfg :: pipe_config and ops :: "'b backend_ops" and allowed :: "pass \<Rightarrow> bool"
where
  flush_worker:
    "allowed ps \<Longrightarrow> worker_move cfg ops ps (fl_worker s) (fl_pipe s) = (st, p) \<Longrightarrow>
     flush_step cfg ops allowed s (if idling (fl_worker s) (fl_pipe s) then 0 else 1)
       (s\<lparr>fl_pipe := p, fl_worker := st\<rparr>)"
| flush_caller:
    "allowed ps \<Longrightarrow>
     flush_move cfg ops ps (unfinished (fl_worker s) (fl_pipe s)) (fl_flush s) (fl_pipe s) = Some (st, p) \<Longrightarrow>
     flush_step cfg ops allowed s 1 (s\<lparr>fl_pipe := p, fl_flush := st\<rparr>)"
| flush_drains:
    "fl_flush s = F_Refill \<Longrightarrow> refill_from_spill cfg (fl_pipe s) = (Inr (), p) \<Longrightarrow>
     length (pipe_queue (fl_pipe s)) < length (pipe_queue p) \<Longrightarrow>
     flush_step cfg ops allowed s 1 (s\<lparr>fl_pipe := p\<rparr>)"

inductive flush_run ::
  "pipe_config \<Rightarrow> 'b backend_ops \<Rightarrow> (pass \<Rightarrow> bool) \<Rightarrow> 'b flushing \<Rightarrow> nat \<Rightarrow> 'b flushing \<Rightarrow> bool"
  for cfg :: pipe_config and ops :: "'b backend_ops" and allowed :: "pass \<Rightarrow> bool" and s :: "'b flushing"
where
  flush_start: "flush_run cfg ops allowed s 0 s"
| flush_next:
    "flush_run cfg ops allowed s n s' \<Longrightarrow> flush_step cfg ops allowed s' m s'' \<Longrightarrow>
     flush_run cfg ops allowed s (n + m) s''"

inductive_cases flush_stepE: "flush_step cfg ops allowed s m s'"

lemma flush_run_append:
  "flush_run cfg ops allowed s n s' \<Longrightarrow> flush_run cfg ops allowed s' m s'' \<Longrightarrow>
    flush_run cfg ops allowed s (n + m) s''"
proof (rotate_tac, induction rule: flush_run.induct)
  case (flush_next m s1 j s2)
  then show ?case using flush_run.flush_next [of cfg ops allowed s "n + m" s1 j s2] by (simp add: add.assoc)
qed simp

text \<open>The same state as the step relation has it.\<close>

definition hand_of :: "worker_stage \<Rightarrow> span_data option" where
  "hand_of st = (case st of Holding (Item sp) \<Rightarrow> Some sp | Attested (Item sp) \<Rightarrow> Some sp | _ \<Rightarrow> None)"

definition flow_of :: "int \<Rightarrow> 'b flushing \<Rightarrow> 'b flow" where
  "flow_of offered s = \<lparr>flow_pipe = fl_pipe s, flow_hand = hand_of (fl_worker s), flow_offered = offered\<rparr>"

text \<open>A worker that is neither stopping nor stopped.\<close>

definition at_work :: "worker_stage \<Rightarrow> bool" where
  "at_work st \<longleftrightarrow> st \<notin> {Stopped, Holding Sentinel, Attested Sentinel, Finishing False, Refilling False}"

section \<open>The invariant\<close>

text \<open>Once \<open>flush\<close> has seen the spill file empty it stays empty, and once the second \<open>join\<close> has
  returned nothing is left.  Without a spill buffer the first \<open>join\<close> is enough.  \<open>attests\<close>: every commit
  of a marker finds the ledger available.\<close>

definition flush_ok :: "'b flushing \<Rightarrow> bool" where
  "flush_ok s \<longleftrightarrow> (\<forall>e. fl_flush s \<noteq> F_Raised e)
     \<and> (fl_flush s \<in> {F_Join_Again, F_Pending_Again, F_Attest, F_Returned} \<longrightarrow> spill_backlog (fl_pipe s) = 0)
     \<and> (fl_flush s \<in> {F_Pending_Again, F_Attest, F_Returned} \<or> fl_flush s = F_Pending \<and> pipe_spill (fl_pipe s) = None
         \<longrightarrow> unfinished (fl_worker s) (fl_pipe s) = 0)
     \<and> (fl_flush s \<in> {F_Join_Again, F_Pending_Again} \<longrightarrow> pipe_spill (fl_pipe s) \<noteq> None)"

definition flushing_ok ::
  "('b \<Rightarrow> dict list \<Rightarrow> bool) \<Rightarrow> pipe_config \<Rightarrow> 'b backend_ops \<Rightarrow> 'b flow \<Rightarrow> compliance_event list \<Rightarrow> int \<Rightarrow>
    int \<Rightarrow> bool \<Rightarrow> 'b flushing \<Rightarrow> bool"
where
  "flushing_ok holds cfg ops start es0 k offered attests s \<longleftrightarrow>
     (\<exists>es. flow_ok holds es0 k es (flow_of offered s)) \<and> pipe_steps cfg ops start (flow_of offered s)
     \<and> pipe_emission (fl_pipe s) = NoEmission \<and> at_work (fl_worker s) \<and> flush_ok s
     \<and> (attests \<longrightarrow> led_retention (pipe_ledger (fl_pipe s)) = None
          \<and> (fl_flush s = F_Returned \<longrightarrow> pipe_undeclared (fl_pipe s) = 0))"

text \<open>What is left to do.  A span in the spill file has the longest way to go; a waiting \<open>join\<close> may
  have to be repeated when the worker gets ahead of the refill.\<close>

definition stage_work :: "worker_stage \<Rightarrow> nat" where
  "stage_work st = (case st of Holding _ \<Rightarrow> 18 | Attested _ \<Rightarrow> 16 | Finishing _ \<Rightarrow> 14 | Refilling _ \<Rightarrow> 4 | _ \<Rightarrow> 0)"

definition caller_work :: "flush_stage \<Rightarrow> nat \<Rightarrow> nat \<Rightarrow> nat" where
  "caller_work st tasks backlog = (case st of
     F_Refill \<Rightarrow> 7
   | F_Join \<Rightarrow> if tasks = 0 \<and> backlog \<noteq> 0 then 9 else 6
   | F_Pending \<Rightarrow> if backlog \<noteq> 0 then 8 else 5
   | F_Join_Again \<Rightarrow> 4
   | F_Pending_Again \<Rightarrow> 3
   | F_Attest \<Rightarrow> 2
   | _ \<Rightarrow> 0)"

definition flush_work :: "'b flushing \<Rightarrow> nat" where
  "flush_work s = 21 * spill_backlog (fl_pipe s) + 20 * length (pipe_queue (fl_pipe s)) + stage_work (fl_worker s)
     + caller_work (fl_flush s) (unfinished (fl_worker s) (fl_pipe s)) (spill_backlog (fl_pipe s))"

lemmas stage_defs = unfinished_def task_held_def stage_work_def at_work_def hand_of_def idling_def
lemmas flush_defs = flush_ok_def flush_work_def caller_work_def

context ledger_backend
begin

lemma emission_clears:
  assumes "flow_ok holds es0 k es s" "pipe_emission (flow_pipe s) = NoEmission"
    "led_retention (pipe_ledger (flow_pipe s)) = None"
    "emit_drop_marker_if_pending cfg ops True True now clock (flow_pipe s) = (r, q)"
  shows "pipe_undeclared q = 0"
proof (cases "pipe_undeclared (flow_pipe s) = 0")
  case True
  then have "begin_emit (flow_pipe s) = flow_pipe s" by (simp add: begin_emit_def)
  with assms(2,4) True show ?thesis
    by (simp add: emit_drop_marker_if_pending_def commit_marker_def settle_def)
next
  case False
  let ?p = "flow_pipe s"
  let ?m = "gap_marker cfg now (pipe_undeclared ?p) (fst (pipe_window ?p)) (snd (pipe_window ?p))"
  have "window_mark (fst (pipe_window ?p))" "window_mark (snd (pipe_window ?p))"
    using assms(1) by (simp_all add: flow_ok_def journal_ok_def)
  from wf_gap_marker [OF this] obtain m where m: "?m = Inr m" "wf_event m" by blast
  obtain e' led' where c: "commit ops clock m (pipe_ledger ?p) = Inr (e', led')"
    using commit_total [OF m(2), where led = "pipe_ledger ?p" and clk = clock] assms(3) by auto
  have "q = settle True (begin_emit ?p\<lparr>pipe_ledger := led', pipe_emission := MarkerCommitted (pipe_undeclared ?p)\<rparr>)"
    using assms(4) False m(1) c
    by (simp add: emit_drop_marker_if_pending_def commit_marker_def begin_emit_def commit_attempt_def)
  then show ?thesis by (simp add: settle_def begin_emit_def Let_def)
qed

lemma commit_keeps_retention: "commit ops clk e led = Inr (e', led') \<Longrightarrow> led_retention led' = led_retention led"
  by (auto simp: commit_def install_commit_def Let_def sbind_Inr_conv)

lemma attempt_keeps_retention:
  "commit_attempt ops available clk e led = Inr (e', led') \<Longrightarrow> led_retention led' = led_retention led"
  using commit_keeps_retention by (auto simp: commit_attempt_def split: if_splits)

lemma try_keeps_retention:
  "try_commit ops available clk a n e led = (ok, r, led') \<Longrightarrow> led_retention led' = led_retention led"
proof (induction n arbitrary: a ok r)
  case 0
  show ?case
  proof (cases "commit_attempt ops (available a) clk e led")
    case (Inr x)
    with 0 show ?thesis by (cases x) (simp add: attempt_keeps_retention)
  qed (use 0 in simp)
next
  case (Suc n)
  show ?case
  proof (cases "commit_attempt ops (available a) clk e led")
    case (Inl x)
    obtain ok' r' l where t: "try_commit ops available clk (Suc a) n e led = (ok', r', l)" by (metis prod_cases3)
    with Suc.prems Inl have "l = led'" by simp
    with Suc.IH t show ?thesis by blast
  next
    case (Inr x)
    with Suc.prems show ?thesis by (cases x) (simp add: attempt_keeps_retention)
  qed
qed

lemma process_keeps_retention:
  "led_retention (pipe_ledger (process_span cfg ops ps sp p)) = led_retention (pipe_ledger p)"
proof (cases "normalize (pc_normalizer cfg) (ps_now ps) (pipe_known p) sp")
  case (Inr res)
  obtain e known where res: "res = (e, known)" by fastforce
  obtain ok r led where t: "try_commit ops (ps_available ps) (ps_clock ps) 0 (pc_commit_retries cfg) e (pipe_ledger p) = (ok, r, led)"
    by (metis prod_cases3)
  from try_keeps_retention [OF t] Inr res t show ?thesis
    by (simp add: process_span_def Let_def del: try_commit.simps)
qed (simp add: process_span_def)

lemma commit_marker_keeps_retention:
  assumes "commit_marker cfg ops available now clock p = (r, q)"
  shows "led_retention (pipe_ledger q) = led_retention (pipe_ledger p)"
proof (cases "pipe_emission p")
  case (Snapshot n a b)
  show ?thesis
  proof (cases "gap_marker cfg now n a b")
    case (Inr m)
    with Snapshot assms show ?thesis
      by (cases "commit_attempt ops available clock m (pipe_ledger p)")
        (auto simp: commit_marker_def dest: attempt_keeps_retention)
  qed (use Snapshot assms in \<open>auto simp: commit_marker_def\<close>)
qed (use assms in \<open>simp_all add: commit_marker_def\<close>)

lemma record_drop_ledger: "pipe_ledger (record_drop w now p) = pipe_ledger p"
  by (cases "pipe_journal p") (simp_all add: record_drop_def persist_drop_intent_def)

lemma submit_keeps_ledger: "pipe_ledger (submit_span cfg short w now sp p) = pipe_ledger p"
  by (simp add: submit_span_def record_drop_ledger split: option.split prod.split sum.split)

lemma step_keeps_retention:
  assumes "pipe_step cfg ops s s'"
  shows "led_retention (pipe_ledger (flow_pipe s')) = led_retention (pipe_ledger (flow_pipe s))"
  using assms
proof cases
  case step_settle
  then show ?thesis
    by (cases "pipe_emission (flow_pipe s)"; cases "pipe_journal (flow_pipe s)")
      (simp_all add: settle_def persist_drop_intent_def Let_def)
next
  case (step_refill r p)
  then show ?thesis by (auto simp: refill_from_spill_def split: option.splits prod.splits sum.splits)
qed (simp_all add: submit_keeps_ledger commit_marker_keeps_retention process_keeps_retention begin_emit_def)

lemma steps_keep_retention:
  "pipe_steps cfg ops s s' \<Longrightarrow> led_retention (pipe_ledger (flow_pipe s')) = led_retention (pipe_ledger (flow_pipe s))"
  by (induction rule: pipe_steps.induct) (simp_all add: step_keeps_retention)

end

section \<open>The worker's moves\<close>

text \<open>What the three kinds of move of the worker do to the measure and to what \<open>flush\<close> has seen: a
  refill, a move that keeps the number of unfinished tasks, \<open>task_done\<close>.\<close>

lemma after_refill:
  assumes "flush_ok s" "spill_backlog (fl_pipe s) = spill_backlog p + n"
    "length (pipe_queue p) = length (pipe_queue (fl_pipe s)) + n" "pipe_queue p = [] \<longrightarrow> spill_backlog p = 0"
    "pipe_spill p = None \<longleftrightarrow> pipe_spill (fl_pipe s) = None" "task_held st = task_held (fl_worker s)"
    "stage_work st + b \<le> stage_work (fl_worker s)"
  shows "flush_ok (s\<lparr>fl_pipe := p, fl_worker := st\<rparr>)" "flush_work (s\<lparr>fl_pipe := p, fl_worker := st\<rparr>) + b \<le> flush_work s"
proof -
  show "flush_ok (s\<lparr>fl_pipe := p, fl_worker := st\<rparr>)"
    using assms by (cases "fl_flush s") (auto simp: flush_ok_def unfinished_def spill_backlog_def)
  show "flush_work (s\<lparr>fl_pipe := p, fl_worker := st\<rparr>) + b \<le> flush_work s"
    using assms by (cases "fl_flush s") (auto simp: flush_work_def caller_work_def unfinished_def)
qed

lemma after_same:
  assumes "flush_ok s" "pipe_spill p = pipe_spill (fl_pipe s)" "unfinished st p = unfinished (fl_worker s) (fl_pipe s)"
    "20 * length (pipe_queue p) + stage_work st + b \<le> 20 * length (pipe_queue (fl_pipe s)) + stage_work (fl_worker s)"
  shows "flush_ok (s\<lparr>fl_pipe := p, fl_worker := st\<rparr>)" "flush_work (s\<lparr>fl_pipe := p, fl_worker := st\<rparr>) + b \<le> flush_work s"
  using assms by (simp_all add: flush_ok_def flush_work_def spill_backlog_def)

lemma after_done:
  assumes "flush_ok s" "fl_worker s = Finishing g"
  shows "flush_ok (s\<lparr>fl_worker := Refilling g\<rparr>)" "flush_work (s\<lparr>fl_worker := Refilling g\<rparr>) + 1 \<le> flush_work s"
proof -
  show "flush_ok (s\<lparr>fl_worker := Refilling g\<rparr>)"
    using assms by (cases "fl_flush s") (auto simp: flush_ok_def unfinished_def task_held_def)
  show "flush_work (s\<lparr>fl_worker := Refilling g\<rparr>) + 1 \<le> flush_work s"
    using assms by (cases "fl_flush s") (auto simp: flush_work_def caller_work_def unfinished_def task_held_def stage_work_def)
qed

lemma emission_undeclared:
  assumes "pipe_emission p = NoEmission" "pipe_undeclared p = 0"
  shows "emit_in_pass cfg ops ps p = (Inr (), p)"
  using assms by (simp add: emit_in_pass_def emit_drop_marker_if_pending_def begin_emit_def commit_marker_def settle_def)

lemma process_keeps:
  "pipe_spill (process_span cfg ops ps sp p) = pipe_spill p \<and> pipe_undeclared (process_span cfg ops ps sp p) = pipe_undeclared p"
  by (simp add: process_span_def Let_def split: sum.split prod.split if_split del: try_commit.simps)

context ledger_backend
begin

text \<open>An emission and a refill, seen from the pair of threads.\<close>

lemma emission_ok_here:
  assumes "flow_ok holds es0 k es (flow_of off s)" "pipe_emission (fl_pipe s) = NoEmission" "ps_writable ps"
    "emit_in_pass cfg ops ps (fl_pipe s) = (r, p)"
  shows "r = Inr ()" "pipe_steps cfg ops (flow_of off s) (flow_of off (s\<lparr>fl_pipe := p\<rparr>))"
    "pipe_queue p = pipe_queue (fl_pipe s)" "pipe_spill p = pipe_spill (fl_pipe s)" "pipe_emission p = NoEmission"
    "pipe_undeclared (fl_pipe s) = 0 \<longrightarrow> pipe_undeclared p = 0"
proof -
  have e: "emit_drop_marker_if_pending cfg ops (ps_marker_available ps) True (ps_marker_now ps) (ps_marker_clock ps)
      (flow_pipe (flow_of off s)) = (r, p)"
    using assms(3,4) by (simp add: emit_in_pass_def flow_of_def)
  have "pipe_emission (flow_pipe (flow_of off s)) = NoEmission" using assms(2) by (simp add: flow_of_def)
  from emit_steps [where q = p and r = r, OF assms(1) this e]
  show "r = Inr ()" "pipe_steps cfg ops (flow_of off s) (flow_of off (s\<lparr>fl_pipe := p\<rparr>))"
    by (simp_all add: flow_of_def)
  show "pipe_queue p = pipe_queue (fl_pipe s)" "pipe_spill p = pipe_spill (fl_pipe s)" "pipe_emission p = NoEmission"
    using emission_untouched [OF e] by (simp_all add: flow_of_def)
  show "pipe_undeclared (fl_pipe s) = 0 \<longrightarrow> pipe_undeclared p = 0"
    using emission_undeclared [OF assms(2)] assms(4) by auto
qed

lemma refill_ok_here:
  assumes "flow_ok holds es0 k es (flow_of off s)" "pipe_emission (fl_pipe s) = NoEmission"
    "refill_from_spill cfg (fl_pipe s) = (r, p)"
  obtains n where "r = Inr ()" "pipe_steps cfg ops (flow_of off s) (flow_of off (s\<lparr>fl_pipe := p\<rparr>))"
    "spill_backlog (fl_pipe s) = spill_backlog p + n" "length (pipe_queue p) = length (pipe_queue (fl_pipe s)) + n"
    "pipe_queue p = [] \<longrightarrow> spill_backlog p = 0" "pipe_spill p = None \<longleftrightarrow> pipe_spill (fl_pipe s) = None"
    "pipe_emission p = NoEmission" "pipe_undeclared p = pipe_undeclared (fl_pipe s)"
proof -
  have r: "refill_from_spill cfg (flow_pipe (flow_of off s)) = (r, p)" using assms(3) by (simp add: flow_of_def)
  obtain n where n: "r = Inr ()" "spill_backlog (flow_pipe (flow_of off s)) = spill_backlog p + n"
    "length (pipe_queue p) = length (pipe_queue (flow_pipe (flow_of off s))) + n"
    "pipe_queue p = [] \<longrightarrow> spill_backlog p = 0"
    "pipe_spill p = None \<longleftrightarrow> pipe_spill (flow_pipe (flow_of off s)) = None"
    "pipe_undeclared p = pipe_undeclared (flow_pipe (flow_of off s))"
    "pipe_emission p = pipe_emission (flow_pipe (flow_of off s))"
    by (rule refill_numbers [OF assms(1) r])
  with refill_step_ok [OF assms(1) r] assms(2) show ?thesis
    by (intro that [of n]) (simp_all add: flow_of_def)
qed

lemma flushing_step:
  assumes "flushing_ok holds cfg ops start es0 k off attests s" "pipe_steps cfg ops (flow_of off s) (flow_of off s')"
    "pipe_emission (fl_pipe s') = NoEmission" "at_work (fl_worker s')" "flush_ok s'"
    "attests \<longrightarrow> fl_flush s' = F_Returned \<longrightarrow> pipe_undeclared (fl_pipe s') = 0"
  shows "flushing_ok holds cfg ops start es0 k off attests s'"
  using assms pipe_steps_ok [OF assms(2)] steps_keep_retention [OF assms(2)]
    steps_trans [where s = start, OF _ assms(2)]
  by (auto simp: flushing_ok_def flow_of_def)

end

context ledger_backend
begin

text \<open>A move of the worker is a step of the flow, keeps the invariant and costs work, or is an idle turn.\<close>

lemma worker_refills:
  assumes ok: "flushing_ok holds cfg ops start es0 k off attests s" and r: "refill_from_spill cfg (fl_pipe s) = (r, p)"
    and st: "hand_of st = hand_of (fl_worker s)" "at_work st" "task_held st = task_held (fl_worker s)"
      "stage_work st + b \<le> stage_work (fl_worker s)"
  shows "r = Inr () \<and> flushing_ok holds cfg ops start es0 k off attests (s\<lparr>fl_pipe := p, fl_worker := st\<rparr>)
    \<and> flush_work (s\<lparr>fl_pipe := p, fl_worker := st\<rparr>) + b \<le> flush_work s"
proof -
  obtain es where flow: "flow_ok holds es0 k es (flow_of off s)" "pipe_emission (fl_pipe s) = NoEmission" "flush_ok s"
    using ok by (auto simp: flushing_ok_def)
  obtain n where n: "r = Inr ()" "pipe_steps cfg ops (flow_of off s) (flow_of off (s\<lparr>fl_pipe := p\<rparr>))"
    "spill_backlog (fl_pipe s) = spill_backlog p + n" "length (pipe_queue p) = length (pipe_queue (fl_pipe s)) + n"
    "pipe_queue p = [] \<longrightarrow> spill_backlog p = 0" "pipe_spill p = None \<longleftrightarrow> pipe_spill (fl_pipe s) = None"
    "pipe_emission p = NoEmission" "pipe_undeclared p = pipe_undeclared (fl_pipe s)"
    by (rule refill_ok_here [OF flow(1,2) r])
  note after = after_refill [OF flow(3) n(3-6) st(3,4)]
  have "pipe_steps cfg ops (flow_of off s) (flow_of off (s\<lparr>fl_pipe := p, fl_worker := st\<rparr>))"
    using n(2) st(1) by (simp add: flow_of_def)
  from flushing_step [OF ok this] n(1,7,8) st(2) after ok show ?thesis by (simp add: flushing_ok_def)
qed

lemma worker_attests:
  assumes ok: "flushing_ok holds cfg ops start es0 k off attests s" "ps_writable ps" and e: "emit_in_pass cfg ops ps (fl_pipe s) = (r, p)"
    and st: "hand_of st = hand_of (fl_worker s)" "at_work st" "task_held st = task_held (fl_worker s)"
      "stage_work st + b \<le> stage_work (fl_worker s)"
  shows "r = Inr () \<and> flushing_ok holds cfg ops start es0 k off attests (s\<lparr>fl_pipe := p, fl_worker := st\<rparr>)
    \<and> flush_work (s\<lparr>fl_pipe := p, fl_worker := st\<rparr>) + b \<le> flush_work s"
proof -
  obtain es where flow: "flow_ok holds es0 k es (flow_of off s)" "pipe_emission (fl_pipe s) = NoEmission" "flush_ok s"
    using ok(1) by (auto simp: flushing_ok_def)
  note em = emission_ok_here [OF flow(1,2) ok(2) e]
  have "unfinished st p = unfinished (fl_worker s) (fl_pipe s)" using em(3) st(3) by (simp add: unfinished_def)
  note after = after_same [OF flow(3) em(4) this, where b = b]
  have "pipe_steps cfg ops (flow_of off s) (flow_of off (s\<lparr>fl_pipe := p, fl_worker := st\<rparr>))"
    using em(2) st(1) by (simp add: flow_of_def)
  from flushing_step [OF ok(1) this] em st(2,4) after ok(1) show ?thesis by (simp add: flushing_ok_def)
qed

lemma worker_handles:
  assumes ok: "flushing_ok holds cfg ops start es0 k off attests s"
    and step: "pipe_step cfg ops (flow_of off s) (flow_of off (s\<lparr>fl_pipe := p, fl_worker := st\<rparr>))"
    and st: "at_work st" "unfinished st p = unfinished (fl_worker s) (fl_pipe s)" "pipe_spill p = pipe_spill (fl_pipe s)"
      "pipe_emission p = pipe_emission (fl_pipe s)" "pipe_undeclared p = pipe_undeclared (fl_pipe s)"
      "20 * length (pipe_queue p) + stage_work st + b \<le> 20 * length (pipe_queue (fl_pipe s)) + stage_work (fl_worker s)"
  shows "flushing_ok holds cfg ops start es0 k off attests (s\<lparr>fl_pipe := p, fl_worker := st\<rparr>)
    \<and> flush_work (s\<lparr>fl_pipe := p, fl_worker := st\<rparr>) + b \<le> flush_work s"
proof -
  have "flush_ok s" using ok by (simp add: flushing_ok_def)
  note after = after_same [OF this st(3,2,6)]
  from flushing_step [OF ok flow_step [OF flow_refl step]] st after ok show ?thesis by (simp add: flushing_ok_def)
qed

lemma worker_ok:
  assumes ok: "flushing_ok holds cfg ops start es0 k off attests s" "ps_writable ps"
    and mv: "worker_move cfg ops ps (fl_worker s) (fl_pipe s) = (st, p)"
  shows "flushing_ok holds cfg ops start es0 k off attests (s\<lparr>fl_pipe := p, fl_worker := st\<rparr>)
    \<and> flush_work (s\<lparr>fl_pipe := p, fl_worker := st\<rparr>) + (if idling (fl_worker s) (fl_pipe s) then 0 else 1) \<le> flush_work s"
proof (cases "fl_worker s")
  case Getting
  show ?thesis
  proof (cases "pipe_queue (fl_pipe s)")
    case Nil
    with mv Getting have st: "st = Idle_Refill" "p = fl_pipe s" by (simp_all add: worker_move_def)
    have fl: "flush_ok s" using ok(1) by (simp add: flushing_ok_def)
    have "unfinished st p = unfinished (fl_worker s) (fl_pipe s)" by (simp add: st Getting unfinished_def task_held_def)
    note after = after_same [OF fl _ this, where b = 0]
    have "flow_of off (s\<lparr>fl_pipe := p, fl_worker := st\<rparr>) = flow_of off s"
      by (simp add: flow_of_def st Getting hand_of_def)
    from flushing_step [OF ok(1), of "s\<lparr>fl_pipe := p, fl_worker := st\<rparr>"] this after ok(1) Nil
    show ?thesis by (simp add: st Getting stage_defs flushing_ok_def flow_refl)
  next
    case (Cons x q)
    obtain es where "flow_ok holds es0 k es (flow_of off s)" using ok(1) by (auto simp: flushing_ok_def)
    from queue_head [OF this] Cons obtain sp where x: "x = Item sp" by (auto simp: flow_of_def)
    with mv Getting Cons have st: "st = Holding (Item sp)" "p = (fl_pipe s)\<lparr>pipe_queue := q\<rparr>"
      by (simp_all add: worker_move_def)
    have "pipe_step cfg ops (flow_of off s) (flow_of off (s\<lparr>fl_pipe := p, fl_worker := st\<rparr>))"
      using step_take [where s = "flow_of off s" and sp = sp and q = q] Cons x
      by (simp add: flow_of_def st Getting hand_of_def)
    from worker_handles [OF ok(1) this, where b = 1] Cons show ?thesis by (simp add: st Getting stage_defs)
  qed
next
  case (Holding x)
  then obtain sp where x: "x = Item sp" using ok(1) by (cases x) (simp_all add: flushing_ok_def at_work_def)
  obtain r p' where e: "emit_in_pass cfg ops ps (fl_pipe s) = (r, p')" by fastforce
  from worker_attests [OF ok e, where st = "Attested (Item sp)" and b = 1] e mv show ?thesis
    by (auto simp: worker_move_def Holding x stage_defs)
next
  case (Attested x)
  then obtain sp where x: "x = Item sp" using ok(1) by (cases x) (simp_all add: flushing_ok_def at_work_def)
  with mv Attested have st: "st = Finishing True" "p = process_span cfg ops ps sp (fl_pipe s)"
    by (simp_all add: worker_move_def)
  have "pipe_step cfg ops (flow_of off s) (flow_of off (s\<lparr>fl_pipe := p, fl_worker := st\<rparr>))"
    using step_process [where s = "flow_of off s" and sp = sp and ps = ps]
    by (simp add: flow_of_def st Attested x hand_of_def)
  from worker_handles [OF ok(1) this, where b = 1] show ?thesis
    using process_untouched [of cfg ops ps sp "fl_pipe s"] process_keeps [of cfg ops ps sp "fl_pipe s"]
    by (simp add: st Attested x stage_defs)
next
  case (Finishing g)
  with mv have st: "st = Refilling g" "p = fl_pipe s" by (simp_all add: worker_move_def)
  have fl: "flush_ok s" using ok(1) by (simp add: flushing_ok_def)
  note after = after_done [OF fl Finishing]
  have "flow_of off (s\<lparr>fl_worker := Refilling g\<rparr>) = flow_of off s" by (simp add: flow_of_def Finishing hand_of_def)
  from flushing_step [OF ok(1), of "s\<lparr>fl_worker := Refilling g\<rparr>"] this after ok(1)
  show ?thesis by (simp add: st Finishing idling_def at_work_def flushing_ok_def flow_refl)
next
  case (Refilling g)
  then have g: "g = True" using ok(1) by (simp add: flushing_ok_def at_work_def)
  obtain r p' where e: "refill_from_spill cfg (fl_pipe s) = (r, p')" by fastforce
  from worker_refills [OF ok(1) e, where st = Getting and b = 1] e mv show ?thesis
    by (auto simp: worker_move_def Refilling g stage_defs)
next
  case Idle_Refill
  obtain r p' where e: "refill_from_spill cfg (fl_pipe s) = (r, p')" by fastforce
  from worker_refills [OF ok(1) e, where st = Idle_Attest and b = 0] e mv show ?thesis
    by (auto simp: worker_move_def Idle_Refill stage_defs)
next
  case Idle_Attest
  obtain r p' where e: "emit_in_pass cfg ops ps (fl_pipe s) = (r, p')" by fastforce
  from worker_attests [OF ok e, where st = Getting and b = 0] e mv show ?thesis
    by (auto simp: worker_move_def Idle_Attest stage_defs)
next
  case Stopped
  with ok(1) show ?thesis by (simp add: flushing_ok_def at_work_def)
qed

end

section \<open>The moves of flush\<close>

definition fair_weather :: "bool \<Rightarrow> (pass \<Rightarrow> bool) \<Rightarrow> bool" where
  "fair_weather attests allowed \<longleftrightarrow> (\<forall>ps. allowed ps \<longrightarrow> ps_writable ps \<and> (attests \<longrightarrow> ps_marker_available ps))"

context ledger_backend
begin

text \<open>Moves that leave the pipeline alone.\<close>

lemma caller_looks:
  assumes "flushing_ok holds cfg ops start es0 k off attests s" "flush_ok (s\<lparr>fl_flush := st\<rparr>)" "st \<noteq> F_Returned"
    "caller_work st (unfinished (fl_worker s) (fl_pipe s)) (spill_backlog (fl_pipe s))
      < caller_work (fl_flush s) (unfinished (fl_worker s) (fl_pipe s)) (spill_backlog (fl_pipe s))"
  shows "flushing_ok holds cfg ops start es0 k off attests (s\<lparr>fl_flush := st\<rparr>) \<and> Suc (flush_work (s\<lparr>fl_flush := st\<rparr>)) \<le> flush_work s"
  using assms by (auto simp: flushing_ok_def flow_of_def flush_work_def)

lemma caller_refills:
  assumes ok: "flushing_ok holds cfg ops start es0 k off attests s" "fl_flush s = F_Refill"
    and r: "refill_from_spill cfg (fl_pipe s) = (r, p)" and st: "st = F_Join \<or> st = F_Refill \<and> length (pipe_queue (fl_pipe s)) < length (pipe_queue p)"
  shows "r = Inr () \<and> flushing_ok holds cfg ops start es0 k off attests (s\<lparr>fl_pipe := p, fl_flush := st\<rparr>)
    \<and> Suc (flush_work (s\<lparr>fl_pipe := p, fl_flush := st\<rparr>)) \<le> flush_work s"
proof -
  obtain es where flow: "flow_ok holds es0 k es (flow_of off s)" "pipe_emission (fl_pipe s) = NoEmission" "flush_ok s"
    "at_work (fl_worker s)"
    using ok by (auto simp: flushing_ok_def)
  obtain n where n: "r = Inr ()" "pipe_steps cfg ops (flow_of off s) (flow_of off (s\<lparr>fl_pipe := p\<rparr>))"
    "spill_backlog (fl_pipe s) = spill_backlog p + n" "length (pipe_queue p) = length (pipe_queue (fl_pipe s)) + n"
    "pipe_queue p = [] \<longrightarrow> spill_backlog p = 0" "pipe_spill p = None \<longleftrightarrow> pipe_spill (fl_pipe s) = None"
    "pipe_emission p = NoEmission" "pipe_undeclared p = pipe_undeclared (fl_pipe s)"
    by (rule refill_ok_here [OF flow(1,2) r])
  have moved: "n \<noteq> 0" if "st = F_Refill" using st that n(4) by auto
  have "flush_ok (s\<lparr>fl_pipe := p, fl_flush := st\<rparr>)" using st by (auto simp: flush_ok_def)
  moreover have "pipe_steps cfg ops (flow_of off s) (flow_of off (s\<lparr>fl_pipe := p, fl_flush := st\<rparr>))"
    using n(2) by (simp add: flow_of_def)
  moreover have "Suc (flush_work (s\<lparr>fl_pipe := p, fl_flush := st\<rparr>)) \<le> flush_work s"
    using st moved n(3-5) ok(2) by (auto simp: flush_work_def caller_work_def unfinished_def)
  ultimately show ?thesis
    using flushing_step [OF ok(1), of "s\<lparr>fl_pipe := p, fl_flush := st\<rparr>"] n(1,7) flow(4) st by auto
qed

lemma caller_attests:
  assumes ok: "flushing_ok holds cfg ops start es0 k off attests s" "fl_flush s = F_Attest" "ps_writable ps"
    "attests \<longrightarrow> ps_marker_available ps" and e: "emit_in_pass cfg ops ps (fl_pipe s) = (r, p)"
  shows "r = Inr () \<and> flushing_ok holds cfg ops start es0 k off attests (s\<lparr>fl_pipe := p, fl_flush := F_Returned\<rparr>)
    \<and> Suc (flush_work (s\<lparr>fl_pipe := p, fl_flush := F_Returned\<rparr>)) \<le> flush_work s"
proof -
  obtain es where flow: "flow_ok holds es0 k es (flow_of off s)" "pipe_emission (fl_pipe s) = NoEmission" "flush_ok s"
    "at_work (fl_worker s)"
    using ok(1) by (auto simp: flushing_ok_def)
  note em = emission_ok_here [OF flow(1,2) ok(3) e]
  have "pipe_undeclared p = 0" if attests
    using emission_clears [OF flow(1)] that ok flow(2) e
    by (auto simp: flushing_ok_def flow_of_def emit_in_pass_def)
  moreover have "flush_ok (s\<lparr>fl_pipe := p, fl_flush := F_Returned\<rparr>)"
    using flow(3) ok(2) em(3,4) by (simp add: flush_ok_def unfinished_def spill_backlog_def)
  moreover have "pipe_steps cfg ops (flow_of off s) (flow_of off (s\<lparr>fl_pipe := p, fl_flush := F_Returned\<rparr>))"
    using em(2) by (simp add: flow_of_def)
  moreover have "Suc (flush_work (s\<lparr>fl_pipe := p, fl_flush := F_Returned\<rparr>)) \<le> flush_work s"
    using em(3,4) ok(2) by (simp add: flush_work_def caller_work_def unfinished_def spill_backlog_def)
  ultimately show ?thesis
    using flushing_step [OF ok(1), of "s\<lparr>fl_pipe := p, fl_flush := F_Returned\<rparr>"] em(1,5) flow(4) by auto
qed

lemma caller_ok:
  assumes ok: "flushing_ok holds cfg ops start es0 k off attests s" "ps_writable ps" "attests \<longrightarrow> ps_marker_available ps"
    and mv: "flush_move cfg ops ps (unfinished (fl_worker s) (fl_pipe s)) (fl_flush s) (fl_pipe s) = Some (st, p)"
  shows "flushing_ok holds cfg ops start es0 k off attests (s\<lparr>fl_pipe := p, fl_flush := st\<rparr>)
    \<and> Suc (flush_work (s\<lparr>fl_pipe := p, fl_flush := st\<rparr>)) \<le> flush_work s"
proof -
  obtain es where flow: "flow_ok holds es0 k es (flow_of off s)" and fl: "flush_ok s"
    using ok(1) by (auto simp: flushing_ok_def)
  have pending: "spill_pending b = Inr (int (spill_backlog (fl_pipe s)))" if "pipe_spill (fl_pipe s) = Some b" for b
    using backlog_pending [OF flow] that by (simp add: flow_of_def)
  have none: "spill_backlog (fl_pipe s) = 0" if "pipe_spill (fl_pipe s) = None"
    using that by (simp add: spill_backlog_def)
  show ?thesis
  proof (cases "fl_flush s")
    case F_Refill
    obtain r p' where e: "refill_from_spill cfg (fl_pipe s) = (r, p')" by fastforce
    from caller_refills [OF ok(1) F_Refill e, of F_Join] e mv show ?thesis by (auto simp: flush_move_def F_Refill)
  next
    case F_Join
    with mv have "st = F_Pending" "p = fl_pipe s" "unfinished (fl_worker s) (fl_pipe s) = 0"
      by (simp_all add: flush_move_def split: if_splits)
    with caller_looks [OF ok(1), of F_Pending] show ?thesis by (auto simp: flush_ok_def caller_work_def F_Join)
  next
    case F_Pending
    show ?thesis
    proof (cases "pipe_spill (fl_pipe s)")
      case None
      with mv F_Pending have "p = fl_pipe s" "st = F_Attest" by (simp_all add: flush_move_def)
      moreover have "unfinished (fl_worker s) (fl_pipe s) = 0" using fl F_Pending None by (simp add: flush_ok_def)
      ultimately show ?thesis
        using caller_looks [OF ok(1), of F_Attest] none [OF None] by (simp add: flush_ok_def caller_work_def F_Pending)
    next
      case (Some b)
      have to: "flush_move cfg ops ps (unfinished (fl_worker s) (fl_pipe s)) (fl_flush s) (fl_pipe s)
          = Some (if spill_backlog (fl_pipe s) = 0 then F_Join_Again else F_Refill, fl_pipe s)"
        using pending [OF Some] by (simp add: flush_move_def F_Pending Some)
      from mv have st: "p = fl_pipe s" "st = (if spill_backlog (fl_pipe s) = 0 then F_Join_Again else F_Refill)"
        unfolding to option.inject prod.inject by blast+
      have "s\<lparr>fl_pipe := p, fl_flush := st\<rparr> = s\<lparr>fl_flush := st\<rparr>" using st(1) by (cases s) simp
      then show ?thesis
        using caller_looks [OF ok(1), of F_Join_Again] caller_looks [OF ok(1), of F_Refill] st(2) Some
        by (cases "spill_backlog (fl_pipe s) = 0") (simp_all add: flush_ok_def caller_work_def F_Pending)
    qed
  next
    case F_Join_Again
    with mv have "st = F_Pending_Again" "p = fl_pipe s" "unfinished (fl_worker s) (fl_pipe s) = 0"
      by (simp_all add: flush_move_def split: if_splits)
    with caller_looks [OF ok(1), of F_Pending_Again] fl show ?thesis by (auto simp: flush_ok_def caller_work_def F_Join_Again)
  next
    case F_Pending_Again
    then obtain b where b: "pipe_spill (fl_pipe s) = Some b" "spill_backlog (fl_pipe s) = 0"
      "unfinished (fl_worker s) (fl_pipe s) = 0"
      using fl by (auto simp: flush_ok_def)
    with mv pending [OF b(1)] F_Pending_Again have "p = fl_pipe s" "st = F_Attest" by (simp_all add: flush_move_def)
    with caller_looks [OF ok(1), of F_Attest] b show ?thesis by (auto simp: flush_ok_def caller_work_def F_Pending_Again)
  next
    case F_Attest
    obtain r p' where e: "emit_in_pass cfg ops ps (fl_pipe s) = (r, p')" by fastforce
    from caller_attests [OF ok(1) F_Attest ok(2,3) e] e mv show ?thesis by (auto simp: flush_move_def F_Attest)
  qed (use mv in \<open>simp_all add: flush_move_def\<close>)
qed

text \<open>Every step of either thread.\<close>

lemma flush_step_ok:
  assumes "flush_step cfg ops allowed s m s'" "fair_weather attests allowed" "flushing_ok holds cfg ops start es0 k off attests s"
  shows "flushing_ok holds cfg ops start es0 k off attests s' \<and> flush_work s' + m \<le> flush_work s"
  using assms(1)
proof cases
  case (flush_worker ps st p)
  then have "ps_writable ps" using assms(2) by (simp add: fair_weather_def)
  with worker_ok [OF assms(3) _ flush_worker(4)] flush_worker(1,2) show ?thesis by simp
next
  case (flush_caller ps st p)
  then have "ps_writable ps" "attests \<longrightarrow> ps_marker_available ps" using assms(2) by (simp_all add: fair_weather_def)
  with caller_ok [OF assms(3) _ _ flush_caller(4)] flush_caller(1,2) show ?thesis by simp
next
  case (flush_drains p)
  have "s\<lparr>fl_pipe := p, fl_flush := F_Refill\<rparr> = s\<lparr>fl_pipe := p\<rparr>" using flush_drains(3) by (cases s) simp
  with flush_drains caller_refills [OF assms(3) flush_drains(3,4), of F_Refill] show ?thesis by simp
qed

lemma flush_run_ok:
  assumes "flush_run cfg ops allowed s n s'" "fair_weather attests allowed" "flushing_ok holds cfg ops start es0 k off attests s"
  shows "flushing_ok holds cfg ops start es0 k off attests s' \<and> flush_work s' + n \<le> flush_work s"
  using assms(1)
proof (induction rule: flush_run.induct)
  case (flush_next n s1 m s2)
  with flush_step_ok [OF flush_next.hyps(2) assms(2)] show ?case by force
qed (use assms(3) in simp)

text \<open>The worker can always get to work on a queue that is not empty.\<close>

lemma worker_turns:
  assumes "flushing_ok holds cfg ops start es0 k off attests s" "fair_weather attests allowed" "allowed ps"
    "0 < unfinished (fl_worker s) (fl_pipe s)"
  shows "\<exists>n s'. 0 < n \<and> flush_run cfg ops allowed s n s'"
proof -
  have turn: "\<exists>s'. flush_step cfg ops allowed s (if idling (fl_worker s) (fl_pipe s) then 0 else 1) s'
      \<and> (\<exists>p. worker_move cfg ops ps (fl_worker s) (fl_pipe s) = (fl_worker s', p) \<and> fl_pipe s' = p)" for s :: "'b flushing"
    using flush_step.flush_worker [where s = s and allowed = allowed, OF assms(3)]
    by (cases "worker_move cfg ops ps (fl_worker s) (fl_pipe s)") fastforce
  have busy: "\<exists>n s'. 0 < n \<and> flush_run cfg ops allowed s n s'" if "\<not> idling (fl_worker s) (fl_pipe s)" for s :: "'b flushing"
    using turn [of s] that flush_next [OF flush_start] by fastforce
  have attest: "\<exists>n s'. 0 < n \<and> flush_run cfg ops allowed s n s'"
    if here: "flushing_ok holds cfg ops start es0 k off attests s" "fl_worker s = Idle_Attest" "pipe_queue (fl_pipe s) \<noteq> []" for s
  proof -
    obtain es where flow: "flow_ok holds es0 k es (flow_of off s)" "pipe_emission (fl_pipe s) = NoEmission"
      using here(1) by (auto simp: flushing_ok_def)
    obtain s1 where s1: "flush_step cfg ops allowed s 0 s1"
      "worker_move cfg ops ps Idle_Attest (fl_pipe s) = (fl_worker s1, fl_pipe s1)"
      using turn [of s] here(2) by (auto simp: idling_def)
    obtain r p where e: "emit_in_pass cfg ops ps (fl_pipe s) = (r, p)" by fastforce
    have "ps_writable ps" using assms(2,3) by (simp add: fair_weather_def)
    from emission_ok_here [OF flow this e] s1(2) e
    have "fl_worker s1 = Getting" "pipe_queue (fl_pipe s1) = pipe_queue (fl_pipe s)" by (simp_all add: worker_move_def)
    with busy [of s1] here(3) obtain n s' where "0 < n" "flush_run cfg ops allowed s1 n s'" by (auto simp: idling_def)
    with flush_run_append [OF flush_next [OF flush_start s1(1)]] show ?thesis by fastforce
  qed
  show ?thesis
  proof (cases "fl_worker s = Idle_Refill")
    case True
    obtain es where flow: "flow_ok holds es0 k es (flow_of off s)" "pipe_emission (fl_pipe s) = NoEmission"
      using assms(1) by (auto simp: flushing_ok_def)
    obtain s1 where s1: "flush_step cfg ops allowed s 0 s1"
      "worker_move cfg ops ps Idle_Refill (fl_pipe s) = (fl_worker s1, fl_pipe s1)"
      using turn [of s] True by (auto simp: idling_def)
    obtain r p where e: "refill_from_spill cfg (fl_pipe s) = (r, p)" by fastforce
    obtain n where "r = Inr ()" "length (pipe_queue p) = length (pipe_queue (fl_pipe s)) + n"
      by (rule refill_ok_here [OF flow e])
    then have "fl_worker s1 = Idle_Attest" "pipe_queue (fl_pipe s1) \<noteq> []"
      using s1(2) e assms(4) True by (auto simp: worker_move_def unfinished_def task_held_def)
    moreover have "flushing_ok holds cfg ops start es0 k off attests s1" using flush_step_ok [OF s1(1) assms(2,1)] by simp
    ultimately obtain n' s' where "0 < n'" "flush_run cfg ops allowed s1 n' s'" using attest by blast
    with flush_run_append [OF flush_next [OF flush_start s1(1)]] show ?thesis by fastforce
  next
    case False
    then show ?thesis
      using attest [OF assms(1)] busy [of s] assms(1,4)
      by (cases "fl_worker s") (auto simp: idling_def flushing_ok_def at_work_def unfinished_def task_held_def)
  qed
qed

lemma flush_goes_on:
  assumes "flushing_ok holds cfg ops start es0 k off attests s" "fair_weather attests allowed" "allowed ps" "fl_flush s \<noteq> F_Returned"
  shows "\<exists>n s'. 0 < n \<and> flush_run cfg ops allowed s n s'"
proof (cases "flush_move cfg ops ps (unfinished (fl_worker s) (fl_pipe s)) (fl_flush s) (fl_pipe s)")
  case (Some x)
  obtain st p where "x = (st, p)" by fastforce
  with flush_next [OF flush_start flush_caller [where ps = ps and allowed = allowed and cfg = cfg and ops = ops
      and s = s and st = st and p = p, OF assms(3)]] Some show ?thesis by fastforce
next
  case None
  have "flush_ok s" using assms(1) by (simp add: flushing_ok_def)
  with None assms(4) have "0 < unfinished (fl_worker s) (fl_pipe s)"
    by (cases "fl_flush s") (auto simp: flush_move_def flush_ok_def split: prod.splits sum.splits option.splits if_splits)
  from worker_turns [OF assms(1-3) this] show ?thesis .
qed

lemma flush_comes_back:
  assumes "flushing_ok holds cfg ops start es0 k off attests s" "fair_weather attests allowed" "allowed ps"
  shows "\<exists>n s'. flush_run cfg ops allowed s n s' \<and> fl_flush s' = F_Returned"
  using assms(1)
proof (induction "flush_work s" arbitrary: s rule: less_induct)
  case less
  show ?case
  proof (cases "fl_flush s = F_Returned")
    case False
    obtain n s1 where s1: "0 < n" "flush_run cfg ops allowed s n s1"
      using flush_goes_on [OF less.prems assms(2,3) False] by blast
    with flush_run_ok [OF s1(2) assms(2) less.prems] less.hyps [of s1]
    obtain m s' where "flush_run cfg ops allowed s1 m s'" "fl_flush s' = F_Returned" by auto
    with flush_run_append [OF s1(2)] show ?thesis by blast
  qed (use flush_start in blast)
qed

end

context ledger_backend
begin

text \<open>\<open>flush\<close> may be called wherever the worker is.\<close>

lemma flush_begins:
  assumes "flow_ok holds es0 k es s" "pipe_steps cfg ops start s" "pipe_emission (flow_pipe s) = NoEmission"
    "at_work st" "flow_hand s = hand_of st" "attests \<longrightarrow> led_retention (pipe_ledger (flow_pipe s)) = None"
  shows "flushing_ok holds cfg ops start es0 k (flow_offered s) attests
      \<lparr>fl_pipe = flow_pipe s, fl_worker = st, fl_flush = F_Refill\<rparr>"
    "flush_work \<lparr>fl_pipe = flow_pipe s, fl_worker = st, fl_flush = F_Refill\<rparr>
      \<le> 21 * spill_backlog (flow_pipe s) + 20 * length (pipe_queue (flow_pipe s)) + 25"
proof -
  have "flow_of (flow_offered s) \<lparr>fl_pipe = flow_pipe s, fl_worker = st, fl_flush = F_Refill\<rparr> = s"
    using assms(5) by (cases s) (simp add: flow_of_def)
  with assms show "flushing_ok holds cfg ops start es0 k (flow_offered s) attests
      \<lparr>fl_pipe = flow_pipe s, fl_worker = st, fl_flush = F_Refill\<rparr>"
    by (auto simp: flushing_ok_def flush_ok_def)
  show "flush_work \<lparr>fl_pipe = flow_pipe s, fl_worker = st, fl_flush = F_Refill\<rparr>
      \<le> 21 * spill_backlog (flow_pipe s) + 20 * length (pipe_queue (flow_pipe s)) + 25"
    by (cases st) (simp_all add: flush_work_def caller_work_def stage_work_def)
qed

end

section \<open>Starting over the files of a dead process\<close>

lemma new_pipeline_ok:
  assumes "ledger_ok holds led es" "window_mark a" "window_mark b" "0 \<le> n"
    "journal = None \<or> (\<exists>f. journal = Some f \<and>
      journal_load f = Inr (if n = 0 then None else Some [(''count'', JInt n), (''window_start'', a), (''window_end'', b)]))"
    "journal = None \<longrightarrow> n = 0"
    "spill_part (map_option (\<lambda>(file, cursor). open_spill file cursor) spill_files) xs" "list_all wf_span xs"
  obtains p where "new_pipeline led spill_files journal = Inr p"
    "flow_ok holds es (int (length xs)) es \<lparr>flow_pipe = p, flow_hand = None, flow_offered = 0\<rparr>"
    "at_rest \<lparr>flow_pipe = p, flow_hand = None, flow_offered = 0\<rparr>"
    "pipe_undeclared p = n" "pipe_recovered_drops p = n" "pipe_dropped p = 0" "pipe_ledger p = led"
    "pipe_spill p = map_option (\<lambda>(file, cursor). open_spill file cursor) spill_files" "pipe_queue p = []"
proof -
  have marks: "window_mark JNull" by (simp add: window_mark_def)
  have load: "sbind (case journal of None \<Rightarrow> Inr None | Some file \<Rightarrow> journal_load file) (\<lambda>pending.
     case pending of
              None \<Rightarrow> Inr (0, (JNull, JNull))
            | Some d \<Rightarrow> sbind (py_int (attr d ''count'')) (\<lambda>n.
                Inr (n, (attr d ''window_start'', attr d ''window_end'')))) = Inr (n, if n = 0 then (JNull, JNull) else (a, b))"
    using assms(5,6) by (auto simp: dget_or_def py_int_def)
  let ?w = "if n = 0 then (JNull, JNull) else (a, b)"
  let ?p = "\<lparr>pipe_ledger = led, pipe_queue = [], pipe_known = [], pipe_processed = 0, pipe_dropped = 0,
         pipe_errors = 0, pipe_retries = 0, pipe_drop_markers = 0, pipe_spilled = 0,
         pipe_spill_recovered = 0, pipe_recovered_drops = n,
         pipe_spill = map_option (\<lambda>(file, cursor). open_spill file cursor) spill_files,
         pipe_journal = journal, pipe_undeclared = n, pipe_window = ?w,
         pipe_emission = NoEmission\<rparr>"
  have run: "new_pipeline led spill_files journal = Inr ?p"
    using load by (simp add: new_pipeline_def sbind_assoc [symmetric] del: sbind.simps)
      (simp add: load)
  have "journal_ok ?p" using assms(2-5) marks by (auto simp: journal_ok_def)
  moreover have "spans_ok (int (length xs)) \<lparr>flow_pipe = ?p, flow_hand = None, flow_offered = 0\<rparr>"
    unfolding spans_ok_def using assms(7,8) by (intro exI [of _ xs]) simp
  moreover have "drops_ok holds es es ?p" using assms(1) by (simp add: drops_ok_def unsettled_def)
  ultimately show ?thesis
    using that [OF run] by (simp add: flow_ok_def emission_ok_def at_rest_def)
qed

end
