(* ===== verification/Ingest_Properties.thy ===== *)
theory Ingest_Properties imports Pipeline_Run Ledger_Properties begin

text \<open>
  The properties of ingestion on a file ledger: what normalization reveals of raw content, what
  the two generations of attribute names give, task lineage, and the accounting of spans and
  drops by the pipeline, through crashes and through \<open>flush\<close>.
\<close>

section \<open>Normalization\<close>

definition sample_span :: "dict \<Rightarrow> span_data" where
  "sample_span attrs = \<lparr>span_name = ''chat'', span_attributes = attrs, span_resource = [],
     span_trace_id = None, span_span_id = None, span_parent_span_id = None,
     span_start_time_unix_nano = None, span_status = None\<rparr>"

definition sample_normalizer :: normalizer where
  "sample_normalizer = \<lparr>nz_printable = (\<lambda>n. True), nz_agent_id = Some ''agent'', nz_pricing = None\<rparr>"

text \<open> C26. Raw content never enters an event: two spans whose attributes differ only in the prompt,
  completion, input or output texts, with the same hash reference for each, normalize to the
  same event, the same error and the same task memory.\<close>

theorem content_hidden:
  assumes "same_refs A B"
  shows "normalize nz now known (sp\<lparr>span_attributes := A\<rparr>) = normalize nz now known (sp\<lparr>span_attributes := B\<rparr>)"
  by (rule same_normalize [OF assms])

theorem content_hidden_witness:
  "normalize sample_normalizer ''t'' [] ((sample_span [])\<lparr>span_attributes :=
       [(''a2a.task.id'', JStr ''t1''), (''gen_ai.prompt'', JDict [(''a'', JInt 1), (''b'', JInt 2)])]\<rparr>)
   = normalize sample_normalizer ''t'' [] ((sample_span [])\<lparr>span_attributes :=
       [(''gen_ai.prompt'', JDict [(''b'', JInt 2), (''a'', JInt 1)]), (''a2a.task.id'', JStr ''t1'')]\<rparr>)"
proof (rule content_hidden)
  let ?A = "[(''a2a.task.id'', JStr ''t1''), (''gen_ai.prompt'', JDict [(''a'', JInt 1), (''b'', JInt 2)])] :: dict"
  let ?B = "[(''gen_ai.prompt'', JDict [(''b'', JInt 2), (''a'', JInt 1)]), (''a2a.task.id'', JStr ''t1'')] :: dict"
  have "(attr ?A k = JNull) = (attr ?B k = JNull) \<and> hash_payload (payload_of (attr ?A k)) = hash_payload (payload_of (attr ?B k))"
    if "k \<in> content_keys" for k
  proof -
    have "hash_payload (payload_of (JDict [(''a'', JInt 1), (''b'', JInt 2)]))
        = hash_payload (payload_of (JDict [(''b'', JInt 2), (''a'', JInt 1)]))"
      by (simp add: hash_payload_def payload_of_def content_hash_def canonical_bytes_of_def
          canonical_text_def)
    with that show ?thesis
      by (auto simp: content_keys_def attribute_names langfuse_names dget_or_def)
  qed
  then show "same_refs ?A ?B"
    by (auto simp: same_refs_def content_keys_def attribute_names langfuse_names)
qed

text \<open> Both generations of the attribute names mean the same: a span that uses only the legacy
  names normalizes to the event of the span with the current names, up to the tag that records
  which generation it was; and a legacy attribute beside a current one changes nothing but
  that tag.\<close>

theorem legacy_names_equivalent:
  assumes "only_legacy d" "same_reading A B"
  shows "sbind (span_to_event up ts agent_id pricing (sp\<lparr>span_attributes := d\<rparr>)) (\<lambda>e. Inr (without_semconv e))
    = sbind (span_to_event up ts agent_id pricing (sp\<lparr>span_attributes := modernize d\<rparr>)) (\<lambda>e. Inr (without_semconv e))
    \<and> sbind (span_to_event up ts agent_id pricing (sp\<lparr>span_attributes := A\<rparr>)) (\<lambda>e. Inr (without_semconv e))
    = sbind (span_to_event up ts agent_id pricing (sp\<lparr>span_attributes := B\<rparr>)) (\<lambda>e. Inr (without_semconv e))"
  using same_reading_event [OF same_reading_modernize [OF assms(1)]] same_reading_event [OF assms(2)] by blast

theorem legacy_names_equivalent_witness:
  "sbind (span_to_event (\<lambda>n. True) ''t'' None None ((sample_span [])\<lparr>span_attributes := [(''gen_ai.system'', JStr ''p'')]\<rparr>))
      (\<lambda>e. Inr (without_semconv e))
    = sbind (span_to_event (\<lambda>n. True) ''t'' None None
        ((sample_span [])\<lparr>span_attributes := modernize [(''gen_ai.system'', JStr ''p'')]\<rparr>)) (\<lambda>e. Inr (without_semconv e))
   \<and> sbind (span_to_event (\<lambda>n. True) ''t'' None None ((sample_span [])\<lparr>span_attributes :=
        [(''gen_ai.provider.name'', JStr ''p''), (''gen_ai.system'', JStr ''old'')]\<rparr>)) (\<lambda>e. Inr (without_semconv e))
    = sbind (span_to_event (\<lambda>n. True) ''t'' None None ((sample_span [])\<lparr>span_attributes :=
        [(''gen_ai.provider.name'', JStr ''p'')]\<rparr>)) (\<lambda>e. Inr (without_semconv e))"
  by (rule legacy_names_equivalent)
    (auto simp: only_legacy_def has_key_def same_reading_def legacy_names_def attribute_names dget_or_def)

text \<open>Spans arriving one after the other, each new, each referring to a task already seen.\<close>

fun arrive :: "(nat \<Rightarrow> bool) \<Rightarrow> dict list \<Rightarrow> known_tasks \<Rightarrow> known_tasks" where
  "arrive up [] known = known"
| "arrive up (d # ds) known =
     arrive up ds (remember (provenance_from_attributes up d known) known)"

fun arrive_in_order :: "(nat \<Rightarrow> bool) \<Rightarrow> dict list \<Rightarrow> known_tasks \<Rightarrow> bool" where
  "arrive_in_order up [] known \<longleftrightarrow> True"
| "arrive_in_order up (d # ds) known \<longleftrightarrow> in_order up d known \<and>
     arrive_in_order up ds (remember (provenance_from_attributes up d known) known)"

text \<open> Task lineage: when spans arrive in order, every remembered task has as its root exactly
  the task its chain of parents starts from.\<close>

theorem task_roots:
  assumes "arrive_in_order up ds []" "map_of (arrive up ds []) t = Some p"
  shows "prov_root_task_id p \<noteq> None
    \<and> (prov_root_task_id p = Some r \<longleftrightarrow> leads_to (arrive up ds []) t r)"
proof -
  have keep: "rooted known \<Longrightarrow> arrive_in_order up ds known \<Longrightarrow> rooted (arrive up ds known)" for known
    by (induction ds arbitrary: known) (simp_all add: rooted_remember)
  have "rooted (arrive up ds [])" by (rule keep) (use assms(1) in \<open>simp_all add: rooted_def\<close>)
  with assms(2) obtain r' where "prov_root_task_id p = Some r'" "leads_to (arrive up ds []) t r'"
    unfolding rooted_def by blast
  then show ?thesis using leads_to_unique by auto
qed

theorem task_roots_witness:
  "\<exists>p. map_of (arrive (\<lambda>n. True) [[(''a2a.task.id'', JStr ''a'')],
       [(''a2a.task.id'', JStr ''b''), (''a2a.reference_task_ids'', JList [JStr ''a''])],
       [(''a2a.task.id'', JStr ''c''), (''a2a.reference_task_ids'', JStr ''b'')]] []) ''c'' = Some p
    \<and> prov_root_task_id p = Some ''a'' \<and> leads_to (arrive (\<lambda>n. True) [[(''a2a.task.id'', JStr ''a'')],
       [(''a2a.task.id'', JStr ''b''), (''a2a.reference_task_ids'', JList [JStr ''a''])],
       [(''a2a.task.id'', JStr ''c''), (''a2a.reference_task_ids'', JStr ''b'')]] []) ''c'' ''a''"
proof -
  let ?ds = "[[(''a2a.task.id'', JStr ''a'')],
       [(''a2a.task.id'', JStr ''b''), (''a2a.reference_task_ids'', JList [JStr ''a''])],
       [(''a2a.task.id'', JStr ''c''), (''a2a.reference_task_ids'', JStr ''b'')]] :: dict list"
  have "arrive_in_order (\<lambda>n. True) ?ds []" by code_simp
  moreover have "(case map_of (arrive (\<lambda>n. True) ?ds []) ''c'' of Some p \<Rightarrow> prov_root_task_id p = Some ''a'' | None \<Rightarrow> False)"
    by code_simp
  then obtain p where p: "map_of (arrive (\<lambda>n. True) ?ds []) ''c'' = Some p" "prov_root_task_id p = Some ''a''"
    by (cases "map_of (arrive (\<lambda>n. True) ?ds []) ''c''") (simp_all del: arrive.simps)
  ultimately show ?thesis using task_roots [of "\<lambda>n. True" ?ds "''c''" p "''a''"] by blast
qed

section \<open>Accounting\<close>

text \<open>A pipeline as it starts, before any span is offered.\<close>

definition flow_start :: "'b pipe \<Rightarrow> 'b flow" where
  "flow_start p = \<lparr>flow_pipe = p, flow_hand = None, flow_offered = 0\<rparr>"

text \<open>A journal file with \<open>n\<close> drops pending.\<close>

definition pending_journal :: "string option \<Rightarrow> int \<Rightarrow> bool" where
  "pending_journal f n \<longleftrightarrow> 0 \<le> n \<and> (\<exists>a b. window_mark a \<and> window_mark b \<and> journal_load f
     = Inr (if n = 0 then None else Some [(''count'', JInt n), (''window_start'', a), (''window_end'', b)]))"

definition hand_count :: "'b flow \<Rightarrow> int" where
  "hand_count s = (if flow_hand s = None then 0 else 1)"

lemma file_ops_eq: "file_ops = jsonl.ops"
  by (simp add: file_ops_def)

lemma start_flow:
  assumes "ledger_ok file_holds led old" "pending_journal journal n"
    "spill_holds (open_spill file cursor) xs" "list_all wf_span xs"
    "new_pipeline led (Some (file, cursor)) (Some journal) = Inr p"
  shows "flow_ok file_holds old (int (length xs)) old (flow_start p)" "at_rest (flow_start p)"
    "pipe_recovered_drops p = n" "pipe_undeclared p = n" "pipe_dropped p = 0" "pipe_ledger p = led"
    "pipe_spill p = Some (open_spill file cursor)" "pipe_queue p = []"
proof -
  obtain a b where j: "window_mark a" "window_mark b" "0 \<le> n" "journal_load journal
      = Inr (if n = 0 then None else Some [(''count'', JInt n), (''window_start'', a), (''window_end'', b)])"
    using assms(2) unfolding pending_journal_def by blast
  have journal: "Some journal = None \<or> (\<exists>f. Some journal = Some f \<and> journal_load f
      = Inr (if n = 0 then None else Some [(''count'', JInt n), (''window_start'', a), (''window_end'', b)]))"
    using j(4) by blast
  have none: "Some journal = None \<longrightarrow> n = 0" by simp
  have spill: "spill_part (map_option (\<lambda>(file, cursor). open_spill file cursor) (Some (file, cursor))) xs"
    using assms(3) by (simp add: spill_part_def)
  obtain p' where "new_pipeline led (Some (file, cursor)) (Some journal) = Inr p'"
    "flow_ok file_holds old (int (length xs)) old (flow_start p')" "at_rest (flow_start p')"
    "pipe_recovered_drops p' = n" "pipe_undeclared p' = n" "pipe_dropped p' = 0" "pipe_ledger p' = led"
    "pipe_spill p' = Some (open_spill file cursor)" "pipe_queue p' = []"
    using new_pipeline_ok [OF assms(1) j(1-3) journal none spill assms(4)] unfolding flow_start_def by auto
  with assms(5) show "flow_ok file_holds old (int (length xs)) old (flow_start p)" "at_rest (flow_start p)"
    "pipe_recovered_drops p = n" "pipe_undeclared p = n" "pipe_dropped p = 0" "pipe_ledger p = led"
    "pipe_spill p = Some (open_spill file cursor)" "pipe_queue p = []" by simp_all
qed

lemma step_keeps_recovered:
  assumes "pipe_step cfg ops s s'"
  shows "pipe_recovered_drops (flow_pipe s') = pipe_recovered_drops (flow_pipe s)
    \<and> (pipe_spill (flow_pipe s') = None \<longleftrightarrow> pipe_spill (flow_pipe s) = None)
    \<and> (pipe_journal (flow_pipe s') = None \<longleftrightarrow> pipe_journal (flow_pipe s) = None)"
  using assms
proof cases
  case (step_submit sp now short)
  have "pipe_recovered_drops (record_drop True now p) = pipe_recovered_drops p
    \<and> pipe_spill (record_drop True now p) = pipe_spill p
    \<and> (pipe_journal (record_drop True now p) = None \<longleftrightarrow> pipe_journal p = None)" for p :: "'a pipe"
    by (cases "pipe_journal p") (simp_all add: record_drop_def persist_drop_intent_def)
  with step_submit show ?thesis
    by (simp add: submit_span_def split: option.split prod.split sum.split)
next
  case (step_commit available now clock r p)
  have j: "pipe_journal p = pipe_journal (flow_pipe s)"
    using step_commit(2) by (auto simp: commit_marker_def split: emission.splits sum.splits prod.splits)
  from commit_untouched [OF step_commit(2)] j step_commit(1) show ?thesis by simp
next
  case step_settle
  then show ?thesis
    by (cases "pipe_emission (flow_pipe s)"; cases "pipe_journal (flow_pipe s)")
      (simp_all add: settle_def persist_drop_intent_def Let_def)
next
  case (step_process sp ps)
  then show ?thesis
    by (simp add: process_span_def Let_def split: sum.split prod.split if_split del: try_commit.simps)
next
  case (step_refill r p)
  then show ?thesis by (auto simp: refill_from_spill_def split: option.splits prod.splits sum.splits)
qed (simp_all add: begin_emit_def)

lemma steps_keep_recovered:
  "pipe_steps cfg ops s s' \<Longrightarrow> pipe_recovered_drops (flow_pipe s') = pipe_recovered_drops (flow_pipe s)
    \<and> (pipe_spill (flow_pipe s') = None \<longleftrightarrow> pipe_spill (flow_pipe s) = None)
    \<and> (pipe_journal (flow_pipe s') = None \<longleftrightarrow> pipe_journal (flow_pipe s) = None)"
  by (induction rule: pipe_steps.induct) (simp_all add: step_keeps_recovered)

lemma gap_total_append [simp]: "gap_total (es @ fs) = gap_total es + gap_total fs"
  by (simp add: gap_total_def)

text \<open>What the invariant says in terms of what can be observed.\<close>

lemma reached:
  assumes "ledger_ok file_holds led old" "pending_journal journal n"
    "spill_holds (open_spill file cursor) xs" "list_all wf_span xs"
    "new_pipeline led (Some (file, cursor)) (Some journal) = Inr p"
    "pipe_steps cfg file_ops (flow_start p) s"
  obtains new b ys f where "flow_ok file_holds old (int (length xs)) (old @ new) s"
    "ledger_ok file_holds (pipe_ledger (flow_pipe s)) (old @ new)"
    "pipe_spill (flow_pipe s) = Some b" "spill_holds b ys" "list_all wf_span ys"
    "pipe_journal (flow_pipe s) = Some f" "pipe_recovered_drops (flow_pipe s) = n"
    "flow_offered s + int (length xs) = pipe_processed (flow_pipe s) + pipe_errors (flow_pipe s)
       + int (length (pipe_queue (flow_pipe s))) + int (length ys) + hand_count s + pipe_dropped (flow_pipe s)"
    "int (length new) = pipe_processed (flow_pipe s) + pipe_drop_markers (flow_pipe s)
       + (if unsettled (pipe_emission (flow_pipe s)) = 0 then 0 else 1)"
    "pipe_dropped (flow_pipe s) + n = pipe_undeclared (flow_pipe s) + gap_total new
       - unsettled (pipe_emission (flow_pipe s))"
proof -
  note start = start_flow [OF assms(1-5)]
  have jn: "pipe_journal p = Some journal" using assms(5) by (auto simp: new_pipeline_def sbind_Inr_conv split: prod.splits)
  obtain es where ok: "flow_ok file_holds old (int (length xs)) es s"
    using jsonl.pipe_steps_ok [OF assms(6) [unfolded file_ops_eq] start(1)] by blast
  then have d: "drops_ok file_holds old es (flow_pipe s)" by (simp add: flow_ok_def)
  then have "take (length old) es = old" by (simp add: drops_ok_def)
  then obtain new where es: "es = old @ new" by (metis append_take_drop_id)
  have kept: "pipe_recovered_drops (flow_pipe s) = n" "pipe_spill (flow_pipe s) \<noteq> None" "pipe_journal (flow_pipe s) \<noteq> None"
    using steps_keep_recovered [OF assms(6)] start(3,7) jn by (simp_all add: flow_start_def)
  then obtain b f where b: "pipe_spill (flow_pipe s) = Some b" "pipe_journal (flow_pipe s) = Some f" by auto
  obtain ys where ys: "spill_holds b ys" "list_all wf_span ys"
    "flow_offered s + int (length xs) = pipe_processed (flow_pipe s) + pipe_errors (flow_pipe s)
       + int (length (pipe_queue (flow_pipe s))) + int (length ys) + hand_count s + pipe_dropped (flow_pipe s)"
    using ok b unfolding flow_ok_def spans_ok_def spill_part_def hand_count_def by auto
  show ?thesis
    using that [OF ok [unfolded es] _ b(1) ys(1,2) b(2) kept(1) ys(3)] d kept(1) unfolding es drops_ok_def by simp
qed

text \<open> C8. Nothing offered to the pipeline disappears silently: after any interleaving of submissions,
  worker and flush steps, every span ever offered (or found in the spill file) is processed, in
  error, queued, in the worker's hand, spilled or dropped; and every drop, this run's or one
  recovered from the journal, is either pending or counted by exactly one gap marker of the
  ledger, whose older history is unchanged.  The journal is writable and a spill write is whole or
  writes nothing.\<close>

theorem spans_accounted:
  assumes "ledger_ok file_holds led old" "pending_journal journal n"
    "spill_holds (open_spill file cursor) xs" "list_all wf_span xs"
    "new_pipeline led (Some (file, cursor)) (Some journal) = Inr p"
    "pipe_steps cfg file_ops (flow_start p) s"
  shows "\<exists>new b spilled. events file_ops (pipe_ledger (flow_pipe s)) = Inr (old @ new)
    \<and> pipe_spill (flow_pipe s) = Some b \<and> spill_pending b = Inr spilled
    \<and> flow_offered s + int (length xs) = pipe_processed (flow_pipe s) + pipe_errors (flow_pipe s)
        + int (length (pipe_queue (flow_pipe s))) + hand_count s + spilled + pipe_dropped (flow_pipe s)
    \<and> int (length new) = pipe_processed (flow_pipe s) + pipe_drop_markers (flow_pipe s)
        + (if unsettled (pipe_emission (flow_pipe s)) = 0 then 0 else 1)
    \<and> pipe_dropped (flow_pipe s) + n = pipe_undeclared (flow_pipe s) + gap_total new
        - unsettled (pipe_emission (flow_pipe s))"
proof -
  obtain new b ys f where r: "ledger_ok file_holds (pipe_ledger (flow_pipe s)) (old @ new)"
    "pipe_spill (flow_pipe s) = Some b" "spill_holds b ys"
    "flow_offered s + int (length xs) = pipe_processed (flow_pipe s) + pipe_errors (flow_pipe s)
       + int (length (pipe_queue (flow_pipe s))) + int (length ys) + hand_count s + pipe_dropped (flow_pipe s)"
    "int (length new) = pipe_processed (flow_pipe s) + pipe_drop_markers (flow_pipe s)
       + (if unsettled (pipe_emission (flow_pipe s)) = 0 then 0 else 1)"
    "pipe_dropped (flow_pipe s) + n = pipe_undeclared (flow_pipe s) + gap_total new
       - unsettled (pipe_emission (flow_pipe s))"
    using reached [OF assms] by metis
  have "events file_ops (pipe_ledger (flow_pipe s)) = Inr (old @ new)"
    using jsonl.events_ok [OF r(1)] by (simp add: file_ops_eq)
  with r spill_size [OF r(3)] show ?thesis by (intro exI [of _ new] exI [of _ b] exI [of _ "int (length ys)"]) simp
qed

text \<open>A small pipeline for the instances: room for one span, everything fresh.\<close>

definition sample_config :: pipe_config where
  "sample_config = \<lparr>pc_normalizer = sample_normalizer, pc_max_queue = 1, pc_commit_retries = 3\<rparr>"

definition sample_pass :: pass where
  "sample_pass = \<lparr>ps_marker_now = ''t'', ps_marker_clock = ''t'', ps_now = ''t'', ps_clock = ''t'',
     ps_marker_available = True, ps_available = (\<lambda>n. True), ps_writable = True\<rparr>"

abbreviation fresh_file_ledger :: "file_backend ledger_state" where
  "fresh_file_ledger \<equiv> fresh (open_file_backend [])"

lemma no_pending: "pending_journal None 0"
  by (auto simp: pending_journal_def journal_load_def window_mark_def)

lemma good_sample: "good_span (sample_span [])"
  by (simp add: good_span_def wf_span_def sample_span_def plain_line_safe)

lemma sample_start:
  obtains p where "new_pipeline fresh_file_ledger (Some (None, None)) (Some None) = Inr p"
    "pipe_queue p = []" "at_rest (flow_start p)" "pipe_spill p = Some (open_spill None None)"
    "pipe_emission p = NoEmission" "pipe_dropped p = 0" "pipe_undeclared p = 0"
proof -
  obtain p where p: "new_pipeline fresh_file_ledger (Some (None, None)) (Some None) = Inr p"
    by (simp add: new_pipeline_def journal_load_def)
  then have "pipe_queue p = []" "at_rest (flow_start p)" "pipe_spill p = Some (open_spill None None)"
    "pipe_emission p = NoEmission" "pipe_dropped p = 0" "pipe_undeclared p = 0"
    by (auto simp: new_pipeline_def journal_load_def at_rest_def flow_start_def)
  with that [OF p] show ?thesis by blast
qed

lemma sample_two:
  assumes "pipe_queue p = []"
  shows "pipe_steps sample_config file_ops (flow_start p)
    \<lparr>flow_pipe = submit_span sample_config None True ''t'' (sample_span [])
       (submit_span sample_config None True ''t'' (sample_span []) p), flow_hand = None, flow_offered = 2\<rparr>"
proof -
  have t: "utf8_text ''t''" by simp
  from flow_step [OF flow_step [OF flow_refl step_submit [OF good_sample t]] step_submit [OF good_sample t], of None None sample_config file_ops "flow_start p"]
  show ?thesis by (simp add: flow_start_def)
qed

theorem spans_accounted_witness:
  "\<exists>p s new b spilled. new_pipeline fresh_file_ledger (Some (None, None)) (Some None) = Inr p
    \<and> pipe_steps sample_config file_ops (flow_start p) s \<and> flow_offered s = 2
    \<and> events file_ops (pipe_ledger (flow_pipe s)) = Inr ([] @ new)
    \<and> pipe_spill (flow_pipe s) = Some b \<and> spill_pending b = Inr spilled
    \<and> 2 = pipe_processed (flow_pipe s) + pipe_errors (flow_pipe s)
        + int (length (pipe_queue (flow_pipe s))) + hand_count s + spilled + pipe_dropped (flow_pipe s)
    \<and> pipe_dropped (flow_pipe s) = pipe_undeclared (flow_pipe s) + gap_total new
        - unsettled (pipe_emission (flow_pipe s))"
proof -
  obtain p where p: "new_pipeline fresh_file_ledger (Some (None, None)) (Some None) = Inr p" "pipe_queue p = []"
    using sample_start .
  from spans_accounted [OF fresh_file no_pending open_spill_empty _ p(1) sample_two [OF p(2)]] p(1) sample_two [OF p(2)]
  show ?thesis by fastforce
qed

text \<open> C31. A crash loses no drop: from any reachable state, reopening the ledger file, the spill files and
  the journal gives a pipeline over the same history with the same spilled spans, and the drops
  it recovers together with those attested are exactly all drops, except that a marker committed
  but not yet subtracted when the process died is counted twice.\<close>

theorem crash_keeps_drops:
  assumes "ledger_ok file_holds led old" "pending_journal journal n"
    "spill_holds (open_spill file cursor) xs" "list_all wf_span xs"
    "new_pipeline led (Some (file, cursor)) (Some journal) = Inr p"
    "pipe_steps cfg file_ops (flow_start p) s"
  shows "\<exists>new b f led' p' b'. pipe_spill (flow_pipe s) = Some b \<and> pipe_journal (flow_pipe s) = Some f
    \<and> open_ledger file_ops (open_file_backend (file_bytes (led_backend (pipe_ledger (flow_pipe s)))))
        (led_origin (pipe_ledger (flow_pipe s))) (led_retention (pipe_ledger (flow_pipe s))) = Inr led'
    \<and> new_pipeline led' (Some (spill_file b, spill_cursor_file b)) (Some f) = Inr p'
    \<and> events file_ops led' = Inr (old @ new) \<and> events file_ops (pipe_ledger (flow_pipe s)) = Inr (old @ new)
    \<and> pipe_spill p' = Some b' \<and> spill_pending b' = spill_pending b
    \<and> pipe_recovered_drops p' = pipe_undeclared (flow_pipe s)
    \<and> gap_total new + pipe_recovered_drops p'
        = pipe_dropped (flow_pipe s) + n + unsettled (pipe_emission (flow_pipe s))"
proof -
  obtain new b ys f where r: "flow_ok file_holds old (int (length xs)) (old @ new) s"
    "ledger_ok file_holds (pipe_ledger (flow_pipe s)) (old @ new)"
    "pipe_spill (flow_pipe s) = Some b" "spill_holds b ys" "list_all wf_span ys" "pipe_journal (flow_pipe s) = Some f"
    "pipe_dropped (flow_pipe s) + n = pipe_undeclared (flow_pipe s) + gap_total new
       - unsettled (pipe_emission (flow_pipe s))"
    using reached [OF assms] by metis
  let ?led = "pipe_ledger (flow_pipe s)"
  have h: "file_holds (led_backend ?led) (map model_dump (old @ new))" and log: "log_of (old @ new) (led_leaves ?led)"
    using r(2) by (simp_all add: ledger_ok_def)
  then have bytes: "file_bytes (led_backend ?led) = file_text (map model_dump (old @ new))"
    "plain_records (map model_dump (old @ new))" by (simp_all add: file_holds_def)
  then have h': "file_holds (open_file_backend (file_bytes (led_backend ?led))) (map model_dump (old @ new))"
    using open_complete [OF bytes(2)] by (simp only: bytes(1))
  define led' where "led' = \<lparr>led_backend = open_file_backend (file_bytes (led_backend ?led)), led_origin = led_origin ?led,
    led_retention = led_retention ?led, led_leaves = led_leaves ?led, led_tree = from_leaves (led_leaves ?led)\<rparr>"
  have op: "open_ledger file_ops (open_file_backend (file_bytes (led_backend ?led))) (led_origin ?led) (led_retention ?led) = Inr led'"
    using jsonl.reopen_ok [OF h' log] by (simp add: file_ops_eq led'_def)
  have ok': "ledger_ok file_holds led' (old @ new)" using h' log by (simp add: ledger_ok_def led'_def)
  have j: "journal_ok (flow_pipe s)" using r(1) by (simp add: flow_ok_def)
  then have pend: "pending_journal f (pipe_undeclared (flow_pipe s))"
    using r(6) unfolding journal_ok_def pending_journal_def by blast
  have sp: "spill_holds (open_spill (spill_file b) (spill_cursor_file b)) ys"
    using spill_reopen [OF r(4)] by (simp add: reopen_spill_def)
  obtain a1 a2 where m: "window_mark a1" "window_mark a2" "0 \<le> pipe_undeclared (flow_pipe s)"
    "journal_load f = Inr (if pipe_undeclared (flow_pipe s) = 0 then None
      else Some [(''count'', JInt (pipe_undeclared (flow_pipe s))), (''window_start'', a1), (''window_end'', a2)])"
    using pend unfolding pending_journal_def by blast
  obtain p' where p': "new_pipeline led' (Some (spill_file b, spill_cursor_file b)) (Some f) = Inr p'"
    using m(4) by (cases "pipe_undeclared (flow_pipe s) = 0") (auto simp: new_pipeline_def dget_or_def py_int_def)
  from start_flow [OF ok' pend sp r(5) p'] r spill_size [OF sp] spill_size [OF r(4)]
    jsonl.events_ok [OF ok'] jsonl.events_ok [OF r(2)] op p'
  show ?thesis
    unfolding file_ops_eq
    by (intro exI [of _ new] exI [of _ b] exI [of _ f] exI [of _ led'] exI [of _ p']
        exI [of _ "open_spill (spill_file b) (spill_cursor_file b)"]) simp
qed

theorem crash_keeps_drops_witness:
  "\<exists>p s new b f led' p' b'. new_pipeline fresh_file_ledger (Some (None, None)) (Some None) = Inr p
    \<and> pipe_steps sample_config file_ops (flow_start p) s \<and> flow_offered s = 2
    \<and> pipe_spill (flow_pipe s) = Some b \<and> pipe_journal (flow_pipe s) = Some f
    \<and> new_pipeline led' (Some (spill_file b, spill_cursor_file b)) (Some f) = Inr p'
    \<and> events file_ops led' = Inr new
    \<and> pipe_spill p' = Some b' \<and> spill_pending b' = spill_pending b
    \<and> gap_total new + pipe_recovered_drops p'
        = pipe_dropped (flow_pipe s) + unsettled (pipe_emission (flow_pipe s))"
proof -
  obtain p where p: "new_pipeline fresh_file_ledger (Some (None, None)) (Some None) = Inr p" "pipe_queue p = []"
    using sample_start .
  from crash_keeps_drops [OF fresh_file no_pending open_spill_empty _ p(1) sample_two [OF p(2)]] p(1) sample_two [OF p(2)]
  show ?thesis by fastforce
qed

text \<open> C32. \<open>flush\<close> terminates, under every interleaving of its thread with the worker's, which may be anywhere
  in its loop when the call is made.  What the two threads can do is bounded: idle turns of the worker
  apart, at most 21 moves for each spilled span, 20 for each queued one and 25 more.  Neither thread
  fails, and from every state they reach the call can be brought to return; nothing it waits for in
  its two \<open>join\<close>s can stay away.  When it has returned, nothing is queued, in the worker's hand or
  spilled: every span offered is processed, in error or dropped, every drop is counted by a gap marker
  of the ledger or still pending, and none is pending if the ledger takes markers.\<close>

theorem flush_terminates:
  assumes "ledger_ok file_holds led old" "pending_journal journal n"
    "spill_holds (open_spill file cursor) xs" "list_all wf_span xs"
    "new_pipeline led (Some (file, cursor)) (Some journal) = Inr p"
    "pipe_steps cfg file_ops (flow_start p) s" "pipe_emission (flow_pipe s) = NoEmission"
    "at_work st" "flow_hand s = hand_of st"
    "fair_weather attests allowed" "allowed ps" "attests \<longrightarrow> led_retention led = None"
    "flush_run cfg file_ops allowed \<lparr>fl_pipe = flow_pipe s, fl_worker = st, fl_flush = F_Refill\<rparr> m now"
  shows "m \<le> 21 * spill_backlog (flow_pipe s) + 20 * length (pipe_queue (flow_pipe s)) + 25
    \<and> fl_worker now \<noteq> Stopped \<and> (\<forall>e. fl_flush now \<noteq> F_Raised e)
    \<and> (\<exists>j later. flush_run cfg file_ops allowed now j later \<and> fl_flush later = F_Returned)
    \<and> (fl_flush now = F_Returned \<longrightarrow>
        (\<exists>b new. unfinished (fl_worker now) (fl_pipe now) = 0
          \<and> pipe_spill (fl_pipe now) = Some b \<and> spill_pending b = Inr 0
          \<and> events file_ops (pipe_ledger (fl_pipe now)) = Inr (old @ new)
          \<and> flow_offered s + int (length xs)
              = pipe_processed (fl_pipe now) + pipe_errors (fl_pipe now) + pipe_dropped (fl_pipe now)
          \<and> pipe_dropped (fl_pipe now) + n = pipe_undeclared (fl_pipe now) + gap_total new
          \<and> (attests \<longrightarrow> pipe_undeclared (fl_pipe now) = 0)))"
proof -
  let ?k = "int (length xs)" and ?off = "flow_offered s"
  obtain es where flow: "flow_ok file_holds old ?k es s"
    using reached [OF assms(1-6)] by metis
  have "pipe_ledger (flow_pipe (flow_start p)) = led"
    using start_flow [OF assms(1-5)] by (simp add: flow_start_def)
  then have ret: "attests \<longrightarrow> led_retention (pipe_ledger (flow_pipe s)) = None"
    using jsonl.steps_keep_retention [OF assms(6) [unfolded file_ops_eq]] assms(12) by simp
  note begins = jsonl.flush_begins [OF flow assms(6) [unfolded file_ops_eq] assms(7-9) ret]
  note run = jsonl.flush_run_ok [OF assms(13) [unfolded file_ops_eq] assms(10) begins(1)]
  have ok: "flushing_ok file_holds cfg file_ops (flow_start p) old ?k ?off attests now" using run by (simp add: file_ops_eq)
  have returns: "\<exists>j later. flush_run cfg file_ops allowed now j later \<and> fl_flush later = F_Returned"
    using jsonl.flush_comes_back [of cfg "flow_start p" old ?k ?off attests now allowed ps] run assms(10,11)
    unfolding file_ops_eq by blast
  have "fl_worker now \<noteq> Stopped" "\<forall>e. fl_flush now \<noteq> F_Raised e"
    using ok by (auto simp: flushing_ok_def at_work_def flush_ok_def)
  moreover have "\<exists>b new. unfinished (fl_worker now) (fl_pipe now) = 0
          \<and> pipe_spill (fl_pipe now) = Some b \<and> spill_pending b = Inr 0
          \<and> events file_ops (pipe_ledger (fl_pipe now)) = Inr (old @ new)
          \<and> ?off + ?k = pipe_processed (fl_pipe now) + pipe_errors (fl_pipe now) + pipe_dropped (fl_pipe now)
          \<and> pipe_dropped (fl_pipe now) + n = pipe_undeclared (fl_pipe now) + gap_total new
          \<and> (attests \<longrightarrow> pipe_undeclared (fl_pipe now) = 0)" if out: "fl_flush now = F_Returned"
  proof -
    have over: "unfinished (fl_worker now) (fl_pipe now) = 0" "spill_backlog (fl_pipe now) = 0"
      "attests \<longrightarrow> pipe_undeclared (fl_pipe now) = 0" "pipe_emission (fl_pipe now) = NoEmission"
      "pipe_steps cfg file_ops (flow_start p) (flow_of ?off now)"
      using ok out by (auto simp: flushing_ok_def flush_ok_def)
    obtain new b ys where r: "ledger_ok file_holds (pipe_ledger (fl_pipe now)) (old @ new)"
      "pipe_spill (fl_pipe now) = Some b" "spill_holds b ys"
      "?off + ?k = pipe_processed (fl_pipe now) + pipe_errors (fl_pipe now) + int (length (pipe_queue (fl_pipe now)))
         + int (length ys) + hand_count (flow_of ?off now) + pipe_dropped (fl_pipe now)"
      "pipe_dropped (fl_pipe now) + n = pipe_undeclared (fl_pipe now) + gap_total new - unsettled (pipe_emission (fl_pipe now))"
      using reached [OF assms(1-5) over(5)] by (metis flow_of_def flow.select_convs(1,3))
    have "pipe_queue (fl_pipe now) = []" "hand_count (flow_of ?off now) = 0"
      using over(1) by (auto simp: unfinished_def task_held_def hand_count_def flow_of_def hand_of_def split: worker_stage.splits)
    moreover have "ys = []" using over(2) r(2,3) spill_size [OF r(3)] by (simp add: spill_backlog_def)
    ultimately show ?thesis
      using over r spill_size [OF r(3)] jsonl.events_ok [OF r(1)]
      by (intro exI [of _ b] exI [of _ new]) (simp add: file_ops_eq unsettled_def)
  qed
  ultimately show ?thesis using run begins(2) returns by simp
qed

text \<open>The race the second \<open>join\<close> is there for, on two spans with room for one: the worker has called \<open>task_done\<close>
  but has not refilled yet when the first \<open>join\<close> returns, and refills before \<open>pending\<close> is asked.  The
  spill file is then empty, but a task is unfinished.\<close>

lemma two_submitted:
  assumes "pipe_queue p = []" "pipe_spill p = Some (open_spill None None)" "pipe_emission p = NoEmission"
    "pipe_undeclared p = 0"
    and "q = submit_span sample_config None True ''t'' (sample_span [])
       (submit_span sample_config None True ''t'' (sample_span []) p)"
  obtains b where "pipe_queue q = [Item (sample_span [])]" "pipe_spill q = Some b" "spill_holds b [sample_span []]"
    "pipe_emission q = NoEmission" "pipe_undeclared q = 0" "pipe_ledger q = pipe_ledger p"
proof -
  let ?x = "sample_span []"
  have "line_safe ?x" using good_sample by (simp add: good_span_def)
  from spill_put [OF open_spill_empty this] have h: "spill_holds (snd (spill_append None ?x (open_spill None None))) [?x]" by simp
  have q: "q = (submit_span sample_config None True ''t'' ?x p)\<lparr>pipe_spill := Some (snd (spill_append None ?x (open_spill None None))),
      pipe_spilled := pipe_spilled p + 1\<rparr>"
    using assms by (simp add: submit_span_def put_nowait_def sample_config_def spill_append_def Let_def)
  have one: "submit_span sample_config None True ''t'' ?x p = p\<lparr>pipe_queue := [Item ?x]\<rparr>"
    using assms(1) by (simp add: submit_span_def put_nowait_def sample_config_def)
  show ?thesis
    by (rule that [OF _ _ h]) (simp_all add: q one assms)
qed

lemma refill_sample:
  assumes "pipe_spill p = Some b" "spill_holds b [sample_span []]" "refill_from_spill sample_config p = (r, q)"
  shows "pipe_queue p = [Item y] \<Longrightarrow> \<exists>b'. r = Inr () \<and> pipe_queue q = [Item y] \<and> pipe_spill q = Some b'
      \<and> spill_holds b' [sample_span []] \<and> pipe_undeclared q = pipe_undeclared p \<and> pipe_emission q = pipe_emission p"
    "pipe_queue p = [] \<Longrightarrow> \<exists>b'. r = Inr () \<and> pipe_queue q = [Item (sample_span [])] \<and> pipe_spill q = Some b'
      \<and> spill_holds b' []"
proof -
  note pull = spill_pull [OF assms(2), of "accept_span sample_config" "pipe_queue p"]
  show "\<exists>b'. r = Inr () \<and> pipe_queue q = [Item y] \<and> pipe_spill q = Some b'
      \<and> spill_holds b' [sample_span []] \<and> pipe_undeclared q = pipe_undeclared p \<and> pipe_emission q = pipe_emission p"
    if "pipe_queue p = [Item y]"
    using pull assms(1,3) that by (auto simp: refill_from_spill_def accept_span_def put_nowait_def sample_config_def)
  show "\<exists>b'. r = Inr () \<and> pipe_queue q = [Item (sample_span [])] \<and> pipe_spill q = Some b' \<and> spill_holds b' []"
    if "pipe_queue p = []"
    using pull assms(1,3) that by (auto simp: refill_from_spill_def accept_span_def put_nowait_def sample_config_def)
qed

abbreviation calm :: "pass \<Rightarrow> bool" where
  "calm ps \<equiv> ps = sample_pass"

lemma worker_turn:
  "worker_move cfg ops sample_pass (fl_worker s) (fl_pipe s) = (st, p) \<Longrightarrow> \<not> idling (fl_worker s) (fl_pipe s) \<Longrightarrow>
    flush_run cfg ops calm (s\<lparr>fl_pipe := p, fl_worker := st\<rparr>) n s' \<Longrightarrow> flush_run cfg ops calm s (Suc n) s'"
  using flush_run_append [OF flush_next [OF flush_start flush_worker [where allowed = calm and ps = sample_pass]]]
  by fastforce

lemma caller_turn:
  "flush_move cfg ops sample_pass (unfinished (fl_worker s) (fl_pipe s)) (fl_flush s) (fl_pipe s) = Some (st, p) \<Longrightarrow>
    flush_run cfg ops calm (s\<lparr>fl_pipe := p, fl_flush := st\<rparr>) n s' \<Longrightarrow> flush_run cfg ops calm s (Suc n) s'"
  using flush_run_append [OF flush_next [OF flush_start flush_caller [where allowed = calm and ps = sample_pass]]]
  by fastforce

lemma refill_race:
  assumes "pipe_queue p = [Item (sample_span [])]" "pipe_spill p = Some b" "spill_holds b [sample_span []]"
    "pipe_emission p = NoEmission" "pipe_undeclared p = 0"
  obtains s where "flush_run sample_config ops calm \<lparr>fl_pipe = p, fl_worker = Getting, fl_flush = F_Refill\<rparr> 7 s"
    "fl_flush s = F_Pending" "spill_backlog (fl_pipe s) = 0" "unfinished (fl_worker s) (fl_pipe s) = 1"
proof -
  let ?x = "sample_span []"
  obtain r p1 where r1: "refill_from_spill sample_config p = (r, p1)" by fastforce
  obtain b1 where p1: "r = Inr ()" "pipe_queue p1 = [Item ?x]" "pipe_spill p1 = Some b1" "spill_holds b1 [?x]"
    "pipe_undeclared p1 = 0" "pipe_emission p1 = NoEmission"
    using refill_sample(1) [OF assms(2,3) r1 assms(1)] assms(4,5) by auto
  let ?p2 = "p1\<lparr>pipe_queue := []\<rparr>" and ?p3 = "process_span sample_config ops sample_pass ?x (p1\<lparr>pipe_queue := []\<rparr>)"
  have em: "emit_in_pass sample_config ops sample_pass ?p2 = (Inr (), ?p2)"
    by (rule emission_undeclared) (simp_all add: p1)
  have p3: "pipe_queue ?p3 = []" "pipe_spill ?p3 = Some b1"
    using process_untouched [of sample_config ops sample_pass ?x ?p2] process_keeps [of sample_config ops sample_pass ?x ?p2] p1 by simp_all
  obtain r4 p4 where r4: "refill_from_spill sample_config ?p3 = (r4, p4)" by fastforce
  obtain b4 where p4: "r4 = Inr ()" "pipe_queue p4 = [Item ?x]" "pipe_spill p4 = Some b4" "spill_holds b4 []"
    using refill_sample(2) [OF p3(2) p1(4) r4 p3(1)] by blast
  let ?s = "\<lparr>fl_pipe = p4, fl_worker = Getting, fl_flush = F_Pending\<rparr>"
  have "flush_run sample_config ops calm \<lparr>fl_pipe = p, fl_worker = Getting, fl_flush = F_Refill\<rparr> (Suc (Suc (Suc (Suc (Suc (Suc (Suc 0))))))) ?s"
    apply (rule caller_turn)
     apply (simp add: flush_move_def r1 p1)
    apply (rule worker_turn)
      apply (simp add: worker_move_def p1)
     apply (simp add: idling_def p1)
    apply (rule worker_turn)
      apply (simp add: worker_move_def em)
     apply (simp add: idling_def)
    apply (rule worker_turn)
      apply (simp add: worker_move_def)
     apply (simp add: idling_def)
    apply (rule worker_turn)
      apply (simp add: worker_move_def)
     apply (simp add: idling_def)
    apply (rule caller_turn)
     apply (simp add: flush_move_def unfinished_def task_held_def p3)
    apply (rule worker_turn)
      apply (simp add: worker_move_def r4 p4)
     apply (simp add: idling_def)
    apply (simp add: flush_start)
    done
  moreover have "spill_backlog p4 = 0" using p4 spill_size [OF p4(4)] by (simp add: spill_backlog_def)
  ultimately show ?thesis
    using that [of ?s] p4(2) by (simp add: unfinished_def task_held_def eval_nat_numeral)
qed

theorem flush_terminates_witness:
  "\<exists>p s now j later b new. new_pipeline fresh_file_ledger (Some (None, None)) (Some None) = Inr p
    \<and> pipe_steps sample_config file_ops (flow_start p) s \<and> flow_offered s = 2
    \<and> flush_run sample_config file_ops calm \<lparr>fl_pipe = flow_pipe s, fl_worker = Getting, fl_flush = F_Refill\<rparr> 7 now
    \<and> fl_flush now = F_Pending \<and> spill_backlog (fl_pipe now) = 0 \<and> unfinished (fl_worker now) (fl_pipe now) = 1
    \<and> flush_run sample_config file_ops calm now j later \<and> fl_flush later = F_Returned
    \<and> unfinished (fl_worker later) (fl_pipe later) = 0
    \<and> pipe_spill (fl_pipe later) = Some b \<and> spill_pending b = Inr 0
    \<and> events file_ops (pipe_ledger (fl_pipe later)) = Inr new
    \<and> pipe_processed (fl_pipe later) + pipe_errors (fl_pipe later) + pipe_dropped (fl_pipe later) = 2
    \<and> pipe_dropped (fl_pipe later) = gap_total new"
proof -
  obtain p where p: "new_pipeline fresh_file_ledger (Some (None, None)) (Some None) = Inr p" "pipe_queue p = []"
    "pipe_spill p = Some (open_spill None None)" "pipe_emission p = NoEmission" "pipe_undeclared p = 0"
    using sample_start .
  define s where "s = \<lparr>flow_pipe = submit_span sample_config None True ''t'' (sample_span [])
       (submit_span sample_config None True ''t'' (sample_span []) p), flow_hand = None, flow_offered = 2\<rparr>"
  let ?start = "\<lparr>fl_pipe = flow_pipe s, fl_worker = Getting, fl_flush = F_Refill\<rparr>"
  have steps: "pipe_steps sample_config file_ops (flow_start p) s" unfolding s_def by (rule sample_two [OF p(2)])
  obtain b where b: "pipe_queue (flow_pipe s) = [Item (sample_span [])]" "pipe_spill (flow_pipe s) = Some b"
    "spill_holds b [sample_span []]" "pipe_emission (flow_pipe s) = NoEmission" "pipe_undeclared (flow_pipe s) = 0"
    using two_submitted [OF p(2-5) refl] by (metis flow.select_convs(1) s_def)
  obtain now where now: "flush_run sample_config file_ops calm ?start 7 now" "fl_flush now = F_Pending"
    "spill_backlog (fl_pipe now) = 0" "unfinished (fl_worker now) (fl_pipe now) = 1"
    by (rule refill_race [OF b])
  have fair: "fair_weather True calm" by (simp add: fair_weather_def sample_pass_def)
  have here: "at_work Getting" "flow_hand s = hand_of Getting" "True \<longrightarrow> led_retention fresh_file_ledger = None"
    by (simp_all add: at_work_def hand_of_def s_def fresh_def)
  note flush = flush_terminates [OF fresh_file no_pending open_spill_empty _ p(1) steps b(4) here(1,2) fair refl here(3)]
  obtain j later where later: "flush_run sample_config file_ops calm now j later" "fl_flush later = F_Returned"
    using flush [OF _ now(1)] by auto
  obtain c new where "unfinished (fl_worker later) (fl_pipe later) = 0" "pipe_spill (fl_pipe later) = Some c"
    "spill_pending c = Inr 0" "events file_ops (pipe_ledger (fl_pipe later)) = Inr ([] @ new)"
    "flow_offered s + int (length ([] :: span_data list))
      = pipe_processed (fl_pipe later) + pipe_errors (fl_pipe later) + pipe_dropped (fl_pipe later)"
    "pipe_dropped (fl_pipe later) + 0 = pipe_undeclared (fl_pipe later) + gap_total new" "pipe_undeclared (fl_pipe later) = 0"
    using flush [OF _ flush_run_append [OF now(1) later(1)]] later(2) by auto
  with p(1) steps now later show ?thesis
    by (intro exI [of _ p] exI [of _ s] exI [of _ now] exI [of _ j] exI [of _ later] exI [of _ c] exI [of _ new])
      (simp add: s_def)
qed

section \<open>Two ways to lose evidence\<close>

text \<open>After the cursor the file holds one line that is not JSON.\<close>

definition spill_stuck :: "py_exn \<Rightarrow> spill \<Rightarrow> bool" where
  "spill_stuck e b \<longleftrightarrow> (\<exists>pre l. spill_file b = Some (pre @ l) \<and> spill_consumed b = int (length pre)
     \<and> file_lines l = [l] \<and> \<not> blank l \<and> loads l = Inl e)"

lemma stuck_refill: "pipe_spill p = Some b \<Longrightarrow> spill_stuck e b \<Longrightarrow> refill_from_spill cfg p = (Inl e, p)"
  by (auto simp: spill_stuck_def refill_from_spill_def spill_drain_def)

text \<open>A worker by itself, for a list of its moves.\<close>

fun worker_moves :: "pipe_config \<Rightarrow> 'b backend_ops \<Rightarrow> pass list \<Rightarrow> worker_stage \<times> 'b pipe \<Rightarrow> worker_stage \<times> 'b pipe" where
  "worker_moves cfg ops [] s = s"
| "worker_moves cfg ops (ps # pss) s = worker_moves cfg ops pss (worker_move cfg ops ps (fst s) (snd s))"

lemma worker_stays_stopped [simp]: "worker_moves cfg ops pss (Stopped, p) = (Stopped, p)"
  by (induction pss) (simp_all add: worker_move_def)

lemma emission_keeps_spill: "emit_in_pass cfg ops ps p = (r, q) \<Longrightarrow> pipe_spill q = pipe_spill p"
  unfolding emit_in_pass_def using emission_untouched by blast

lemma stuck_worker:
  fixes p :: "'b pipe" and ops :: "'b backend_ops"
  assumes "spill_stuck e b" "pipe_spill p = Some b"
  shows "1 \<le> length pss \<Longrightarrow> fst (worker_moves cfg ops pss (Refilling g, p)) = Stopped"
    "2 \<le> length pss \<Longrightarrow> fst (worker_moves cfg ops pss (Finishing g, p)) = Stopped"
    "3 \<le> length pss \<Longrightarrow> fst (worker_moves cfg ops pss (Attested x, p)) = Stopped"
    "4 \<le> length pss \<Longrightarrow> fst (worker_moves cfg ops pss (Holding x, p)) = Stopped"
    "5 \<le> length pss \<Longrightarrow> pipe_queue p \<noteq> [] \<Longrightarrow> fst (worker_moves cfg ops pss (Getting, p)) = Stopped"
proof -
  have refill: "fst (worker_moves cfg ops pss (Refilling g, p)) = Stopped"
    if "1 \<le> length pss" "pipe_spill p = Some b" for pss g and p :: "'b pipe"
    using that stuck_refill [OF that(2) assms(1), of cfg] by (cases pss) (simp_all add: worker_move_def)
  have finish: "fst (worker_moves cfg ops pss (Finishing g, p)) = Stopped"
    if "2 \<le> length pss" "pipe_spill p = Some b" for pss g and p :: "'b pipe"
    using that refill by (cases pss) (simp_all add: worker_move_def)
  have attested: "fst (worker_moves cfg ops pss (Attested x, p)) = Stopped"
    if "3 \<le> length pss" "pipe_spill p = Some b" for pss x and p :: "'b pipe"
    using that finish process_keeps [of cfg ops]
    by (cases pss; cases x) (simp_all add: worker_move_def)
  have holding: "fst (worker_moves cfg ops pss (Holding x, p)) = Stopped"
    if "4 \<le> length pss" "pipe_spill p = Some b" for pss x and p :: "'b pipe"
  proof (cases pss)
    case (Cons ps pss')
    obtain r q where e: "emit_in_pass cfg ops ps p = (r, q)" by fastforce
    then have "pipe_spill q = Some b" using emission_keeps_spill that(2) by metis
    with e that(1) attested finish Cons show ?thesis by (cases r) (simp_all add: worker_move_def)
  qed (use that in simp)
  show "1 \<le> length pss \<Longrightarrow> fst (worker_moves cfg ops pss (Refilling g, p)) = Stopped"
    "2 \<le> length pss \<Longrightarrow> fst (worker_moves cfg ops pss (Finishing g, p)) = Stopped"
    "3 \<le> length pss \<Longrightarrow> fst (worker_moves cfg ops pss (Attested x, p)) = Stopped"
    "4 \<le> length pss \<Longrightarrow> fst (worker_moves cfg ops pss (Holding x, p)) = Stopped"
    using refill finish attested holding assms(2) by blast+
  show "fst (worker_moves cfg ops pss (Getting, p)) = Stopped" if here: "5 \<le> length pss" "pipe_queue p \<noteq> []"
  proof -
    obtain y q where "pipe_queue p = y # q" using here(2) by (cases "pipe_queue p") auto
    with here(1) holding [where p = "p\<lparr>pipe_queue := q\<rparr>"] assms(2) show ?thesis
      by (cases pss) (simp_all add: worker_move_def)
  qed
qed

lemma torn_stuck:
  assumes "spill_holds b []" "line_safe x" "line_safe y" "0 < k" "k < length (record_line (asdict x))"
    "loads (take k (record_line (asdict x)) @ record_line (asdict y)) = Inl e"
  shows "spill_stuck e (snd (spill_append None y (snd (spill_append (Some k) x b))))"
proof -
  let ?l = "take k (record_line (asdict x)) @ record_line (asdict y)"
  have nl: "newline \<notin> set (take k (record_line (asdict x)))"
    using assms(2,5) by (auto simp: line_safe_def record_line_def dest: in_set_takeD)
  have "newline \<notin> set (dumps (JDict (asdict y)))" using assms(3) by (simp add: line_safe_def)
  with nl have "first_line ?l = ?l"
    by (auto simp: first_line_def record_line_def takeWhile_append dropWhile_append)
  moreover have "?l \<noteq> []" by (simp add: record_line_def)
  ultimately have "file_lines ?l = [?l]" by (subst file_lines.simps) (simp add: file_lines.simps [of "[]"])
  moreover have "\<not> blank ?l" using record_line_not_blank [of "asdict y"] by (simp add: blank_def)
  moreover obtain pre where "spill_file b = Some pre" "spill_consumed b = int (length pre)"
    using assms(1) by (auto simp: spill_holds_def)
  ultimately show ?thesis
    using assms(6) unfolding spill_stuck_def
    by (intro exI [of _ pre] exI [of _ ?l]) (simp add: spill_append_def Let_def or_else_def)
qed

text \<open> A spill write that fails in the middle of a line blocks the pipeline: the next spilled span is
  glued to the torn one, and if the glued line is not JSON every \<open>flush\<close> raises, and the worker's
  thread ends with its next span.\<close>

theorem torn_spill_line_stops_worker:
  fixes p :: "'b pipe"
  assumes "spill_holds b []" "pipe_spill p = Some b" "line_safe x" "line_safe y" "pipe_queue p \<noteq> []"
    "put_nowait (pc_max_queue cfg) (Item x) (pipe_queue p) = None"
    "0 < k" "k < length (record_line (asdict x))"
    "loads (take k (record_line (asdict x)) @ record_line (asdict y)) = Inl e"
    "torn = submit_span cfg None w2 now2 y (submit_span cfg (Some k) w1 now1 x p)"
  shows "pipe_spilled torn = pipe_spilled p + 1 \<and> pipe_dropped torn = pipe_dropped p + 1
      \<and> flush_move cfg ops ps tasks F_Refill torn = Some (F_Raised e, torn)
      \<and> (5 \<le> length pss \<longrightarrow> fst (worker_moves cfg ops pss (Getting, torn)) = Stopped)"
proof -
  let ?b1 = "snd (spill_append (Some k) x b)" and ?b2 = "snd (spill_append None y (snd (spill_append (Some k) x b)))"
  let ?p1 = "submit_span cfg (Some k) w1 now1 x p"
  have full: "put_nowait (pc_max_queue cfg) (Item y) (pipe_queue p) = None"
    using assms(6) by (simp add: put_nowait_def split: if_splits)
  have p1: "?p1 = record_drop w1 now1 (p\<lparr>pipe_spill := Some ?b1\<rparr>)"
    using assms(2,6) by (simp add: submit_span_def spill_append_def Let_def)
  have keep: "pipe_spill (record_drop w now r) = pipe_spill r \<and> pipe_queue (record_drop w now r) = pipe_queue r
    \<and> pipe_spilled (record_drop w now r) = pipe_spilled r \<and> pipe_dropped (record_drop w now r) = pipe_dropped r + 1"
    for w now and r :: "'b pipe"
    by (cases "pipe_journal r") (simp_all add: record_drop_def persist_drop_intent_def)
  have torn: "pipe_spill torn = Some ?b2 \<and> pipe_queue torn = pipe_queue p
    \<and> pipe_spilled torn = pipe_spilled p + 1 \<and> pipe_dropped torn = pipe_dropped p + 1"
    unfolding assms(10) p1 using full by (simp add: submit_span_def keep spill_append_def Let_def)
  note stuck = torn_stuck [OF assms(1,3,4,7-9)]
  have "flush_move cfg ops ps tasks F_Refill torn = Some (F_Raised e, torn)"
    using stuck_refill [OF _ stuck, of torn cfg] torn by (simp add: flush_move_def)
  moreover have "5 \<le> length pss \<longrightarrow> fst (worker_moves cfg ops pss (Getting, torn)) = Stopped"
    using stuck_worker(5) [OF stuck, of torn] torn assms(5) by simp
  ultimately show ?thesis using torn by simp
qed

theorem torn_spill_line_stops_worker_witness:
  "\<exists>p torn. new_pipeline fresh_file_ledger (Some (None, None)) None = Inr p
    \<and> torn = submit_span sample_config None True ''t'' (sample_span [])
        (submit_span sample_config (Some 1) True ''t'' (sample_span [])
          (submit_span sample_config None True ''t'' (sample_span []) p))
    \<and> flush_move sample_config file_ops sample_pass 1 F_Refill torn = Some (F_Raised ValueError, torn)
    \<and> fst (worker_moves sample_config file_ops (replicate 5 sample_pass) (Getting, torn)) = Stopped"
proof -
  obtain p where p: "new_pipeline fresh_file_ledger (Some (None, None)) None = Inr p"
    "pipe_queue p = []" "pipe_spill p = Some (open_spill None None)"
    by (simp add: new_pipeline_def)
  let ?p = "submit_span sample_config None True ''t'' (sample_span []) p"
  have q: "pipe_queue ?p = [Item (sample_span [])]" "pipe_spill ?p = Some (open_spill None None)"
    using p(2,3) by (simp_all add: submit_span_def put_nowait_def sample_config_def)
  have safe: "line_safe (sample_span [])" by (simp add: sample_span_def plain_line_safe)
  have full: "put_nowait (pc_max_queue sample_config) (Item (sample_span [])) (pipe_queue ?p) = None"
    unfolding q(1) by (simp add: put_nowait_def sample_config_def)
  have len: "1 < length (record_line (asdict (sample_span [])))" by (simp add: record_line_def asdict_def)
  have bad: "loads (take 1 (record_line (asdict (sample_span []))) @ record_line (asdict (sample_span []))) = Inl ValueError"
    by code_simp
  have ne: "pipe_queue ?p \<noteq> []" by (simp add: q)
  note torn = torn_spill_line_stops_worker [where ?w1.0 = True and ?w2.0 = True and ?now1.0 = "''t''" and ?now2.0 = "''t''"
      and ops = file_ops and ps = sample_pass and pss = "replicate 5 sample_pass" and tasks = 1,
      OF open_spill_empty q(2) safe safe ne full _ len bad refl]
  show ?thesis using torn p(1) by simp
qed

lemma spill_drain_all:
  "list_all line_safe xs \<Longrightarrow> drain_lines (\<lambda>sp taken. (True, taken @ [sp])) (map (\<lambda>sp. record_line (asdict sp)) xs) n pos s
    = (Inr (n + int (length xs)), pos + int (length (spill_lines xs)), s @ xs)"
proof (induction xs arbitrary: n pos s)
  case (Cons x xs)
  have "sbind (loads (record_line (asdict x))) span_of_json = Inr x"
    using Cons.prems by (simp add: line_safe_def)
  with Cons show ?case by (simp add: record_line_not_blank split_beta Let_def)
qed simp

lemma spill_append_all:
  "spill_file b = Some pre \<Longrightarrow> foldl (\<lambda>b sp. snd (spill_append None sp b)) b ys = b\<lparr>spill_file := Some (pre @ spill_lines ys)\<rparr>"
  by (induction ys arbitrary: b pre) (simp_all add: spill_append_def Let_def or_else_def)

text \<open> C33. A crash between the truncation of a drained spill file and the write of its cursor loses what
  is spilled next: after the restart the stale cursor hides every later span that fits below it,
  \<open>pending\<close> says none is waiting, and the next drain deletes them.\<close>

theorem stale_cursor_loses_spans:
  assumes "spill_holds b xs" "spill_consumed b = int c" "spill_file b = Some data"
    "drain_lines (\<lambda>sp taken. (True, taken @ [sp])) (file_lines (drop c data)) 0 (int c) [] = (r, pos, taken)"
    "restarted = reopen_spill (compact (b\<lparr>spill_consumed := pos\<rparr>))"
    "list_all line_safe ys" "length (spill_lines ys) \<le> c"
    "later = foldl (\<lambda>b sp. snd (spill_append None sp b)) restarted ys"
  shows "taken = xs \<and> spill_file later = Some (spill_lines ys) \<and> spill_pending later = Inr 0
    \<and> (\<exists>b'. spill_drain accept later s = (Inr 0, b', s) \<and> spill_file b' = Some [])"
proof -
  obtain pre where pre: "data = pre @ spill_lines xs" "c = length pre" and safe: "list_all line_safe xs"
    and cursor: "load_cursor (spill_cursor_file b) = int c"
    using assms(1-3) by (auto simp: spill_holds_def)
  have run: "pos = int (length data)" "taken = xs"
    using assms(4) spill_drain_all [OF safe, of 0 "int c" "[]"] pre safe by (simp_all add: file_lines_safe)
  have re: "restarted = \<lparr>spill_file = Some [], spill_cursor_file = spill_cursor_file b, spill_consumed = int c\<rparr>"
    using assms(3) run(1) cursor by (simp add: assms(5) reopen_spill_def open_spill_def compact_def or_else_def)
  have later: "later = restarted\<lparr>spill_file := Some (spill_lines ys)\<rparr>"
    using spill_append_all [of restarted "[]" ys] re assms(8) by simp
  show ?thesis
    using assms(7) run(2) unfolding later re
    by (simp add: spill_pending_def spill_drain_def compact_def write_cursor_def or_else_def file_lines.simps [of "[]"])
qed

theorem stale_cursor_loses_spans_witness:
  "let b = snd (spill_append None (sample_span []) (open_spill (Some (spill_lines [sample_span []]))
             (Some (str_of_int (int (length (spill_lines [sample_span []])))))));
       restarted = reopen_spill (compact (b\<lparr>spill_consumed := int (length (spill_lines [sample_span [], sample_span []]))\<rparr>));
       later = snd (spill_append None (sample_span []) restarted)
   in spill_file later = Some (spill_lines [sample_span []]) \<and> spill_pending later = Inr 0"
proof -
  let ?sp = "sample_span []"
  let ?c = "length (spill_lines [?sp])"
  let ?b = "snd (spill_append None ?sp (open_spill (Some (spill_lines [?sp])) (Some (str_of_int (int ?c)))))"
  have safe: "line_safe ?sp" by (simp add: sample_span_def plain_line_safe)
  have b: "?b = \<lparr>spill_file = Some (spill_lines [?sp] @ spill_lines [?sp]),
      spill_cursor_file = Some (str_of_int (int ?c)), spill_consumed = int ?c\<rparr>"
    by (simp only: open_spill_def spill_append_def Let_def load_cursor_str) (simp add: or_else_def)
  have holds: "spill_holds ?b [?sp]"
    unfolding b spill_holds_def using safe load_cursor_str [of ?c] by (simp del: spill_lines_simps)
  have "spill_consumed ?b = int ?c" "spill_file ?b = Some (spill_lines [?sp] @ spill_lines [?sp])"
    unfolding b by (simp_all del: spill_lines_simps)
  moreover have "drain_lines (\<lambda>sp taken. (True, taken @ [sp])) (file_lines (drop ?c (spill_lines [?sp] @ spill_lines [?sp])))
      0 (int ?c) [] = (Inr 1, int (length (spill_lines [?sp, ?sp])), [?sp])"
    using safe spill_drain_all [of "[?sp]" 0 "int ?c" "[]"] file_lines_safe [of "[?sp]"] by simp
  moreover have "list_all line_safe [?sp]" using safe by simp
  ultimately show ?thesis
    using stale_cursor_loses_spans [OF holds _ _ _ refl, of ?c _ _ _ _ "[?sp]"] unfolding Let_def by fastforce
qed

end
