(* ===== verification/Vault.thy ===== *)
theory Vault imports Canonical begin

text \<open>
  \<open>src/src/openwright/vault.py\<close>: raw payloads stored outside the ledger under the hash the ledger
  holds.  The contract of \<open>PayloadVault\<close> is the locale \<open>payload_vault\<close>; \<open>FileVault\<close> is the
  contents of its directory, file by file.
\<close>

section \<open>The contract\<close>

definition to_bytes :: "payload \<Rightarrow> bytes result" where
  "to_bytes p = (case p of
     PBytes b \<Rightarrow> Inr b
   | PStr s \<Rightarrow> Inr (encode_utf8 s)
   | PValue v \<Rightarrow> canonical_bytes v)"

definition ref_of :: "bytes \<Rightarrow> string" where
  "ref_of data = ''sha256:'' @ sha256_hex data"

lemma hash_payload_bytes: "hash_payload p = sbind (to_bytes p) (\<lambda>b. Inr (ref_of b))"
  by (cases p) (simp_all add: hash_payload_def to_bytes_def ref_of_def content_hash_def)

text \<open>What is stored under a reference hashes to it.\<close>

locale payload_vault =
  fixes store :: "payload \<Rightarrow> 'v \<Rightarrow> (string \<times> 'v) result"
    and fetch :: "string \<Rightarrow> 'v \<Rightarrow> bytes option"
  assumes store_fails: "to_bytes p = Inl e \<Longrightarrow> store p v = Inl e"
    and store_ref: "to_bytes p = Inr b \<Longrightarrow> \<exists>v'. store p v = Inr (ref_of b, v')"
    and fetch_store: "store p v = Inr (r, v') \<Longrightarrow> to_bytes p = Inr b \<Longrightarrow> fetch r v' = Some b"
    and fetch_other: "store p v = Inr (r, v') \<Longrightarrow> r' \<noteq> r \<Longrightarrow> r' = ref_of c \<Longrightarrow> fetch r' v' = fetch r' v"
begin

definition genuine :: "'v \<Rightarrow> bool" where
  "genuine v \<longleftrightarrow> (\<forall>c b. fetch (ref_of c) v = Some b \<longrightarrow> ref_of b = ref_of c)"

lemma store_is_hash: "sbind (store p v) (\<lambda>(r, v'). Inr r) = hash_payload p"
proof (cases "to_bytes p")
  case (Inr b)
  with store_ref [OF Inr, of v] show ?thesis by (auto simp: hash_payload_bytes)
qed (simp add: hash_payload_bytes store_fails)

lemma store_bytes:
  assumes "store p v = Inr (r, v')"
  obtains b where "to_bytes p = Inr b" "r = ref_of b" "fetch r v' = Some b"
proof (cases "to_bytes p")
  case (Inr b)
  from that [OF Inr] store_ref [OF Inr, of v] fetch_store [OF assms Inr] assms show ?thesis by auto
qed (use assms store_fails in auto)

lemma store_genuine: "genuine v \<Longrightarrow> store p v = Inr (r, v') \<Longrightarrow> genuine v'"
  unfolding genuine_def by (metis fetch_other option.inject store_bytes)

text \<open>A reference once stored stays fetchable, whatever is stored later.\<close>

lemma store_keeps:
  assumes "store p v = Inr (r, v')" "fetch (ref_of c) v \<noteq> None"
  shows "fetch (ref_of c) v' \<noteq> None"
  using assms store_bytes [OF assms(1)] fetch_other [OF assms(1)] by (metis option.distinct(1))

fun store_all :: "payload list \<Rightarrow> 'v \<Rightarrow> (string list \<times> 'v) result" where
  "store_all [] v = Inr ([], v)"
| "store_all (p # ps) v =
     sbind (store p v) (\<lambda>(r, v'). sbind (store_all ps v') (\<lambda>(rs, v''). Inr (r # rs, v'')))"

lemma store_all_keeps:
  "store_all ps v = Inr (rs, v') \<Longrightarrow> fetch (ref_of c) v \<noteq> None \<Longrightarrow> fetch (ref_of c) v' \<noteq> None"
proof (induction ps arbitrary: v rs)
  case (Cons p ps)
  then obtain r v1 rs1 where s: "store p v = Inr (r, v1)" "store_all ps v1 = Inr (rs1, v')"
    by (auto simp: sbind_Inr_conv)
  from Cons.IH [OF s(2) store_keeps [OF s(1) Cons.prems(2)]] show ?case .
qed simp

lemma store_all_genuine: "store_all ps v = Inr (rs, v') \<Longrightarrow> genuine v \<Longrightarrow> genuine v'"
  by (induction ps arbitrary: v rs) (auto simp: sbind_Inr_conv dest: store_genuine)

lemma store_all_fetch:
  assumes "store_all ps v = Inr (rs, v')" "genuine v" "r \<in> set rs"
  shows "\<exists>b. fetch r v' = Some b \<and> r = ref_of b"
  using assms
proof (induction ps arbitrary: v rs)
  case (Cons p ps)
  then obtain r1 v1 rs1 where s: "store p v = Inr (r1, v1)" "store_all ps v1 = Inr (rs1, v')" "rs = r1 # rs1"
    by (auto simp: sbind_Inr_conv)
  note g = store_genuine [OF Cons.prems(2) s(1)]
  show ?case
  proof (cases "r \<in> set rs1")
    case True
    from Cons.IH [OF s(2) g True] show ?thesis .
  next
    case False
    then have r: "r = r1" using Cons.prems(3) s(3) by simp
    from store_bytes [OF s(1)] obtain b where b: "r1 = ref_of b" "fetch r1 v1 = Some b" by blast
    then have "fetch (ref_of b) v' \<noteq> None" using store_all_keeps [OF s(2), of b] by simp
    then obtain c where "fetch (ref_of b) v' = Some c" by auto
    with store_all_genuine [OF s(2) g] b(1) r show ?thesis unfolding genuine_def by auto
  qed
qed (simp)

end

section \<open>\<open>FileVault\<close>\<close>

type_synonym file_vault = "(string \<times> bytes) list"

definition vault_path :: "string \<Rightarrow> string" where
  "vault_path ref = last (split_at (CHR '':'') ref) @ ''.bin''"

definition vault_store :: "payload \<Rightarrow> file_vault \<Rightarrow> (string \<times> file_vault) result" where
  "vault_store p files =
     sbind (to_bytes p) (\<lambda>data.
     sbind (hash_payload (PBytes data)) (\<lambda>ref.
       Inr (ref, AList.update (vault_path ref) data files)))"

definition vault_fetch :: "string \<Rightarrow> file_vault \<Rightarrow> bytes option" where
  "vault_fetch ref files = map_of files (vault_path ref)"

lemma hash_bytes: "hash_payload (PBytes b) = Inr (ref_of b)"
  by (simp add: hash_payload_def ref_of_def)

lemma path_of_ref: "vault_path (ref_of b) = sha256_hex b @ ''.bin''"
proof -
  have "CHR '':'' \<notin> set (hex (sha256 b))" by (auto dest: set_hex simp: hex_digits_def)
  from split_at_snoc [OF this, of "''sha256''"] show ?thesis
    by (simp add: vault_path_def ref_of_def sha256_hex_def)
qed

lemma same_path: "vault_path (ref_of b) = vault_path (ref_of c) \<longleftrightarrow> ref_of b = ref_of c"
  by (simp add: path_of_ref) (simp add: ref_of_def)

lemma vault_store_eq:
  "vault_store p files = sbind (to_bytes p) (\<lambda>b. Inr (ref_of b, AList.update (vault_path (ref_of b)) b files))"
  by (cases "to_bytes p") (simp_all add: vault_store_def hash_bytes)

interpretation filed: payload_vault vault_store vault_fetch
  by unfold_locales
    (auto simp: vault_store_eq vault_fetch_def sbind_Inr_conv update_conv' same_path)

lemma empty_vault: "filed.genuine []"
  by (simp add: filed.genuine_def vault_fetch_def)

end
