(* ===== verification/Sdk.thy ===== *)
theory Sdk imports Vault Py_Values Ledger_Laws Authz begin

text \<open>
  \<open>EvidenceClient\<close> of \<open>src/src/openwright/sdk.py\<close>: task scopes, the recorders and the decorator.
  A recorder builds an event, on the way hashing payloads or storing them in the vault, and
  commits it.  Building is a computation on the contents of the vault, which keep what was
  stored when a later step raises.  \<open>build_event\<close> takes what the five recorders take.
\<close>

section \<open>Scopes\<close>

record task_args =
  ta_task_id :: string
  ta_context_id :: "string option"
  ta_parent_task_id :: "string option"
  ta_root_task_id :: "string option"

definition task_scope :: "task_args \<Rightarrow> dict" where
  "task_scope a =
     [(''task_id'', JStr (ta_task_id a)),
      (''context_id'', JStr (str_or (ta_context_id a) (ta_task_id a))),
      (''parent_task_id'', opt_str (ta_parent_task_id a)),
      (''root_task_id'', JStr (str_or (ta_root_task_id a) (ta_task_id a)))]"

text \<open>The context variable and the tokens of the open blocks, innermost first.  A block ends by
  \<open>reset\<close>, however it ends.\<close>

record scope_state =
  current_scope :: dict
  scope_tokens :: "dict list"

definition enter_task :: "task_args \<Rightarrow> scope_state \<Rightarrow> scope_state" where
  "enter_task a s = \<lparr>current_scope = task_scope a, scope_tokens = current_scope s # scope_tokens s\<rparr>"

definition exit_task :: "scope_state \<Rightarrow> scope_state" where
  "exit_task s = (case scope_tokens s of
     [] \<Rightarrow> s
   | old # rest \<Rightarrow> \<lparr>current_scope = old, scope_tokens = rest\<rparr>)"

text \<open>The identifiers a recorder takes itself.\<close>

record task_ids =
  ti_task_id :: "string option"
  ti_context_id :: "string option"
  ti_root_task_id :: "string option"

definition overrides :: "task_ids \<Rightarrow> (string \<times> string option) list" where
  "overrides ids = [(''task_id'', ti_task_id ids), (''context_id'', ti_context_id ids),
     (''root_task_id'', ti_root_task_id ids)]"

definition sdk_provenance :: "dict \<Rightarrow> task_ids \<Rightarrow> provenance result" where
  "sdk_provenance scope ids =
     (let merged = foldl (\<lambda>d (k, v). case v of None \<Rightarrow> d | Some s \<Rightarrow> dput k (JStr s) d) scope (overrides ids)
      in if merged \<noteq> [] then load_provenance merged else Inr empty_provenance)"

section \<open>Building an event\<close>

type_synonym 'a vaulted = "file_vault option \<Rightarrow> 'a result \<times> file_vault option"

definition vthen :: "'a vaulted \<Rightarrow> ('a \<Rightarrow> 'b vaulted) \<Rightarrow> 'b vaulted" where
  "vthen m f v = (case m v of (Inl e, v') \<Rightarrow> (Inl e, v') | (Inr a, v') \<Rightarrow> f a v')"

definition vlift :: "'a result \<Rightarrow> 'a vaulted" where
  "vlift r v = (r, v)"

record evidence_client =
  cl_agent_id :: string
  cl_agent_card_ref :: "string option"
  cl_identity_claim :: "identity_claim option"
  cl_principal :: "principal option"
  cl_has_authorizer :: bool

definition client_ref :: "payload \<Rightarrow> string vaulted" where
  "client_ref p v = (case v of
     Some files \<Rightarrow> (case vault_store p files of
       Inl e \<Rightarrow> (Inl e, v)
     | Inr (r, files') \<Rightarrow> (Inr r, Some files'))
   | None \<Rightarrow> (hash_payload p, None))"

definition opt_ref :: "payload option \<Rightarrow> string option vaulted" where
  "opt_ref p = (case p of
     None \<Rightarrow> vlift (Inr None)
   | Some q \<Rightarrow> vthen (client_ref q) (\<lambda>r. vlift (Inr (Some r))))"

definition client_actor :: "evidence_client \<Rightarrow> actor" where
  "client_actor cl = \<lparr>actor_agent_id = cl_agent_id cl, actor_agent_card_ref = cl_agent_card_ref cl,
     actor_identity_claim = cl_identity_claim cl, actor_extra = []\<rparr>"

definition sdk_event :: "evidence_client \<Rightarrow> string \<Rightarrow> event_kind \<Rightarrow> provenance \<Rightarrow> compliance_event" where
  "sdk_event cl now k p = (bare_event now k (client_actor cl) (bare_source ''sdk''))\<lparr>provenance := p\<rparr>"

record decision =
  dec_output :: "payload option"
  dec_input :: "payload option"
  dec_risk_classification :: "string option"
  dec_rationale :: "payload option"
  dec_approval_ref :: "string option"
  dec_model :: dict
  dec_control :: "string option"
  dec_attributes :: dict

definition given :: "string option \<Rightarrow> bool" where
  "given s \<longleftrightarrow> s \<noteq> None \<and> s \<noteq> Some []"

definition decision_attributes :: "decision \<Rightarrow> dict" where
  "decision_attributes d = (case dec_control d of
     Some c \<Rightarrow> if c = [] then dec_attributes d else dput ''control'' (JStr c) (dec_attributes d)
   | None \<Rightarrow> dec_attributes d)"

definition decision_model :: "decision \<Rightarrow> model_info option result" where
  "decision_model d =
     (if dec_model d = [] then Inr None else sbind (load_model_info (dec_model d)) (\<lambda>m. Inr (Some m)))"

definition decision_risk :: "decision \<Rightarrow> risk option vaulted" where
  "decision_risk d =
     (if given (dec_risk_classification d) \<or> dec_rationale d \<noteq> None
      then vthen (opt_ref (dec_rationale d)) (\<lambda>r. vlift (Inr (Some
        \<lparr>risk_classification = dec_risk_classification d, risk_rationale_ref = r,
         risk_framework = (if given (dec_risk_classification d) then Some ''eu-ai-act'' else None),
         risk_extra = []\<rparr>)))
      else vlift (Inr None))"

definition decision_event :: "evidence_client \<Rightarrow> string \<Rightarrow> dict \<Rightarrow> task_ids \<Rightarrow> decision \<Rightarrow> compliance_event vaulted" where
  "decision_event cl now scope ids d =
     vthen (vlift (sdk_provenance scope ids)) (\<lambda>p.
     vthen (opt_ref (dec_input d)) (\<lambda>i.
     vthen (opt_ref (dec_output d)) (\<lambda>out.
     vthen (vlift (decision_model d)) (\<lambda>m.
     vthen (decision_risk d) (\<lambda>rk.
     vthen (vlift (no_floats_in_attributes (decision_attributes d))) (\<lambda>ats.
       vlift (Inr ((sdk_event cl now AGENT_DECISION p)
         \<lparr>io := Some (empty_io_ref\<lparr>io_input_ref := i, io_output_ref := out\<rparr>), model := m, risk := rk,
          oversight := (if given (dec_approval_ref d)
            then Some \<lparr>oversight_status = APPROVED, oversight_approval_ref = dec_approval_ref d,
                   oversight_reviewer = None, oversight_extra = []\<rparr>
            else None),
          attributes := ats\<rparr>))))))))"

definition input_io :: "payload option \<Rightarrow> io_ref option vaulted" where
  "input_io p = (case p of
     None \<Rightarrow> vlift (Inr None)
   | Some q \<Rightarrow> vthen (client_ref q) (\<lambda>r. vlift (Inr (Some (empty_io_ref\<lparr>io_input_ref := Some r\<rparr>)))))"

definition approval_event ::
  "evidence_client \<Rightarrow> string \<Rightarrow> dict \<Rightarrow> task_ids \<Rightarrow> string \<Rightarrow> bool \<Rightarrow> payload option \<Rightarrow> compliance_event vaulted"
where
  "approval_event cl now scope ids reviewer approved rationale =
     vthen (vlift (sdk_provenance scope ids)) (\<lambda>p.
     vthen (input_io rationale) (\<lambda>i.
       vlift (Inr ((sdk_event cl now HUMAN_APPROVAL p)
         \<lparr>oversight := Some \<lparr>oversight_status = (if approved then APPROVED else REJECTED),
            oversight_approval_ref = None, oversight_reviewer = Some reviewer, oversight_extra = []\<rparr>,
          io := i\<rparr>))))"

definition risk_event ::
  "evidence_client \<Rightarrow> string \<Rightarrow> dict \<Rightarrow> task_ids \<Rightarrow> string \<Rightarrow> payload option \<Rightarrow> payload option \<Rightarrow> string \<Rightarrow>
    compliance_event vaulted"
where
  "risk_event cl now scope ids classification rationale fria framework =
     vthen (opt_ref fria) (\<lambda>f.
     vthen (vlift (sdk_provenance scope ids)) (\<lambda>p.
     vthen (opt_ref rationale) (\<lambda>r.
       vlift (Inr ((sdk_event cl now RISK_CLASSIFICATION p)
         \<lparr>risk := Some \<lparr>risk_classification = Some classification, risk_rationale_ref = r,
            risk_framework = Some framework, risk_extra = []\<rparr>,
          attributes := opt_field ''fria_ref'' (map_option JStr f)\<rparr>)))))"

definition policy_event ::
  "evidence_client \<Rightarrow> string \<Rightarrow> dict \<Rightarrow> task_ids \<Rightarrow> string \<Rightarrow> string \<Rightarrow> compliance_event vaulted"
where
  "policy_event cl now scope ids decided policy =
     vthen (vlift (sdk_provenance scope ids)) (\<lambda>p.
       vlift (Inr ((sdk_event cl now POLICY_DECISION p)
         \<lparr>attributes := [(''decision'', JStr decided), (''policy'', JStr policy)]\<rparr>)))"

definition incident_event ::
  "evidence_client \<Rightarrow> string \<Rightarrow> dict \<Rightarrow> task_ids \<Rightarrow> string \<Rightarrow> int \<Rightarrow> payload option \<Rightarrow> compliance_event vaulted"
where
  "incident_event cl now scope ids severity days description =
     vthen (vlift (sdk_provenance scope ids)) (\<lambda>p.
     vthen (input_io description) (\<lambda>i.
       vlift (Inr ((sdk_event cl now INCIDENT p)
         \<lparr>io := i,
          attributes := [(''severity'', JStr severity), (''report_deadline_days'', JInt days)]\<rparr>))))"

datatype recording =
    Decision decision
  | HumanApproval string bool "payload option"
  | RiskClassification string "payload option" "payload option" string
  | PolicyDecision string string
  | IncidentReport string int "payload option"

definition build_event ::
  "evidence_client \<Rightarrow> string \<Rightarrow> dict \<Rightarrow> task_ids \<Rightarrow> recording \<Rightarrow> compliance_event vaulted"
where
  "build_event cl now scope ids r = (case r of
     Decision d \<Rightarrow> decision_event cl now scope ids d
   | HumanApproval reviewer approved rationale \<Rightarrow> approval_event cl now scope ids reviewer approved rationale
   | RiskClassification c rationale fria framework \<Rightarrow> risk_event cl now scope ids c rationale fria framework
   | PolicyDecision decided policy \<Rightarrow> policy_event cl now scope ids decided policy
   | IncidentReport severity days description \<Rightarrow> incident_event cl now scope ids severity days description)"

section \<open>Recording\<close>

record 'b client_state =
  cs_ledger :: "'b ledger_state"
  cs_vault :: "file_vault option"

definition allowed :: "evidence_client \<Rightarrow> bool" where
  "allowed cl \<longleftrightarrow> (cl_has_authorizer cl \<longrightarrow> require_capability (cl_principal cl) WRITE_EVIDENCE = Inr ())"

definition record_event ::
  "'b backend_ops \<Rightarrow> evidence_client \<Rightarrow> string \<Rightarrow> compliance_event \<Rightarrow> 'b ledger_state \<Rightarrow>
    (compliance_event \<times> 'b ledger_state) result"
where
  "record_event ops cl clock e led =
     sbind (if cl_has_authorizer cl then require_capability (cl_principal cl) WRITE_EVIDENCE else Inr ())
       (\<lambda>_. commit ops clock e led)"

definition run_recorder ::
  "'b backend_ops \<Rightarrow> evidence_client \<Rightarrow> string \<Rightarrow> string \<Rightarrow> dict \<Rightarrow> task_ids \<Rightarrow> recording \<Rightarrow>
    'b client_state \<Rightarrow> compliance_event result \<times> 'b client_state"
where
  "run_recorder ops cl now clock scope ids r s =
     (case build_event cl now scope ids r (cs_vault s) of
        (Inl e, v) \<Rightarrow> (Inl e, s\<lparr>cs_vault := v\<rparr>)
      | (Inr e, v) \<Rightarrow>
          (case record_event ops cl clock e (cs_ledger s) of
             Inl x \<Rightarrow> (Inl x, s\<lparr>cs_vault := v\<rparr>)
           | Inr (e', led) \<Rightarrow> (Inr e', s\<lparr>cs_vault := v, cs_ledger := led\<rparr>)))"

text \<open>The decorator: the function's outcome, and \<open>repr\<close> of its arguments and of its result.\<close>

definition high_risk_decision ::
  "string \<Rightarrow> string \<Rightarrow> string option \<Rightarrow> bool \<Rightarrow> string \<Rightarrow> string \<Rightarrow> string \<Rightarrow> decision"
where
  "high_risk_decision control classification approval_ref capture_io fn_name repr_args repr_result =
     \<lparr>dec_output = (if capture_io then Some (PStr repr_result) else None),
      dec_input = (if capture_io then Some (PStr repr_args) else None),
      dec_risk_classification = Some classification,
      dec_rationale = Some (PStr (''decision produced by '' @ fn_name)),
      dec_approval_ref = approval_ref, dec_model = [], dec_control = Some control, dec_attributes = []\<rparr>"

definition decorated ::
  "'b backend_ops \<Rightarrow> evidence_client \<Rightarrow> string \<Rightarrow> string \<Rightarrow> dict \<Rightarrow> ('r \<Rightarrow> decision) \<Rightarrow> 'r result \<Rightarrow>
    'b client_state \<Rightarrow> 'r result \<times> 'b client_state"
where
  "decorated ops cl now clock scope to_record outcome s = (case outcome of
     Inl e \<Rightarrow> (Inl e, s)
   | Inr x \<Rightarrow>
       (case run_recorder ops cl now clock scope \<lparr>ti_task_id = None, ti_context_id = None, ti_root_task_id = None\<rparr>
               (Decision (to_record x)) s of
          (Inl e, s') \<Rightarrow> (Inl e, s')
        | (Inr _, s') \<Rightarrow> (Inr x, s')))"

end
