(* ===== verification/Sdk_Properties.thy ===== *)
theory Sdk_Properties imports Sdk Ledger_Properties begin

text \<open>
  What a recorder does to the ledger and to the vault, and the scope each event is recorded in.
\<close>

section \<open>Building, with and without a vault\<close>

text \<open>The outcome does not depend on the vault.\<close>

definition vault_blind :: "'a vaulted \<Rightarrow> bool" where
  "vault_blind m \<longleftrightarrow> (\<forall>v v'. fst (m v) = fst (m v'))"

text \<open>The vault only grows.\<close>

definition vault_grows :: "file_vault option \<Rightarrow> file_vault option \<Rightarrow> bool" where
  "vault_grows v v' \<longleftrightarrow> (case v of
     None \<Rightarrow> v' = None
   | Some files \<Rightarrow> \<exists>files'. v' = Some files' \<and> (filed.genuine files \<longrightarrow> filed.genuine files')
       \<and> (\<forall>c. vault_fetch (ref_of c) files \<noteq> None \<longrightarrow> vault_fetch (ref_of c) files' \<noteq> None))"

text \<open>A reference the vault backs, if there is one.\<close>

definition backed :: "string \<Rightarrow> file_vault option \<Rightarrow> bool" where
  "backed r v \<longleftrightarrow> (\<forall>files. v = Some files \<longrightarrow> (\<exists>b. vault_fetch r files = Some b \<and> ref_of b = r))"

definition vault_sound :: "file_vault option \<Rightarrow> bool" where
  "vault_sound v \<longleftrightarrow> (\<forall>files. v = Some files \<longrightarrow> filed.genuine files)"

lemma grows_refl: "vault_grows v v"
  by (simp add: vault_grows_def split: option.split)

lemma grows_trans: "vault_grows u v \<Longrightarrow> vault_grows v w \<Longrightarrow> vault_grows u w"
  by (cases u; cases v) (auto simp: vault_grows_def)

lemma grows_sound: "vault_grows v w \<Longrightarrow> vault_sound v \<Longrightarrow> vault_sound w"
  by (auto simp: vault_grows_def vault_sound_def split: option.splits)

lemma backed_grows:
  assumes "backed r v" "vault_sound v" "vault_grows v w"
  shows "backed r w"
proof (cases v)
  case (Some files)
  then obtain b where b: "vault_fetch r files = Some b" "r = ref_of b"
    using assms(1) by (auto simp: backed_def)
  obtain files' where w: "w = Some files'" "vault_fetch (ref_of b) files' \<noteq> None"
    using assms(3) Some b by (auto simp: vault_grows_def)
  have "filed.genuine files'" using grows_sound [OF assms(3,2)] w(1) by (simp add: vault_sound_def)
  with w b(2) show ?thesis by (auto simp: backed_def filed.genuine_def)
qed (use assms(3) in \<open>simp add: vault_grows_def backed_def\<close>)

definition well_vaulted :: "'a vaulted \<Rightarrow> bool" where
  "well_vaulted m \<longleftrightarrow> vault_blind m \<and> (\<forall>v. vault_grows v (snd (m v)))"

lemma well_vlift [simp]: "well_vaulted (vlift r)"
  by (simp add: well_vaulted_def vault_blind_def vlift_def grows_refl)

lemma well_vthen:
  assumes "well_vaulted m" "\<And>a. well_vaulted (f a)"
  shows "well_vaulted (vthen m f)"
proof -
  have blind: "fst (vthen m f v) = fst (vthen m f v')" for v v'
  proof -
    have "fst (m v) = fst (m v')" using assms(1) by (simp add: well_vaulted_def vault_blind_def)
    then show ?thesis
      using assms(2) by (cases "m v"; cases "m v'"; cases "fst (m v)") (auto simp: vthen_def well_vaulted_def vault_blind_def)
  qed
  have "vault_grows v (snd (vthen m f v))" for v
  proof (cases "m v")
    case (Pair r w)
    then have "vault_grows v w" using assms(1) by (auto simp: well_vaulted_def dest: spec [of _ v])
    then show ?thesis
      using Pair assms(2) grows_trans by (cases r) (auto simp: vthen_def well_vaulted_def)
  qed
  with blind show ?thesis by (simp add: well_vaulted_def vault_blind_def)
qed

lemma client_ref_hash: "fst (client_ref p v) = hash_payload p"
proof (cases v)
  case (Some files)
  show ?thesis
    using filed.store_is_hash [of p files] by (cases "vault_store p files") (auto simp: Some client_ref_def)
qed (simp add: client_ref_def)

lemma well_client_ref: "well_vaulted (client_ref p)"
proof -
  have "vault_grows v (snd (client_ref p v))" for v
  proof (cases v)
    case (Some files)
    show ?thesis
    proof (cases "vault_store p files")
      case (Inr rv)
      then obtain r files' where s: "vault_store p files = Inr (r, files')" by (cases rv) auto
      show ?thesis
        using filed.store_genuine [OF _ s] filed.store_keeps [OF s]
        by (auto simp: Some client_ref_def s vault_grows_def)
    qed (simp add: Some client_ref_def grows_refl)
  qed (simp add: client_ref_def vault_grows_def)
  then show ?thesis by (simp add: well_vaulted_def vault_blind_def client_ref_hash)
qed

lemma client_ref_backed: "client_ref p v = (Inr r, v') \<Longrightarrow> backed r v'"
  by (cases v) (auto simp: client_ref_def backed_def split: sum.splits elim: filed.store_bytes)

lemma well_opt_ref: "well_vaulted (opt_ref p)"
  by (cases p) (simp_all add: opt_ref_def well_vthen well_client_ref)

lemma well_input_io: "well_vaulted (input_io p)"
  by (cases p) (simp_all add: input_io_def well_vthen well_client_ref)

lemma well_decision_risk: "well_vaulted (decision_risk d)"
  by (simp add: decision_risk_def well_vthen well_opt_ref)

lemma well_build: "well_vaulted (build_event cl now scope ids r)"
  by (cases r)
    (auto simp: build_event_def decision_event_def approval_event_def risk_event_def policy_event_def
      incident_event_def intro!: well_vthen well_opt_ref well_input_io well_decision_risk)

text \<open> The vault is transparent to the evidence: a client with a vault and a client without one record
  the same event, or raise the same error, and leave the same ledger.\<close>

theorem vault_transparent:
  "fst (run_recorder ops cl now clock scope ids r (s\<lparr>cs_vault := v\<rparr>))
      = fst (run_recorder ops cl now clock scope ids r (s\<lparr>cs_vault := None\<rparr>))
   \<and> cs_ledger (snd (run_recorder ops cl now clock scope ids r (s\<lparr>cs_vault := v\<rparr>)))
      = cs_ledger (snd (run_recorder ops cl now clock scope ids r (s\<lparr>cs_vault := None\<rparr>)))"
proof -
  have "fst (build_event cl now scope ids r v) = fst (build_event cl now scope ids r None)"
    using well_build [of cl now scope ids r] by (simp add: well_vaulted_def vault_blind_def)
  then show ?thesis
    by (cases "build_event cl now scope ids r v"; cases "build_event cl now scope ids r None")
      (auto simp: run_recorder_def split: sum.split prod.split)
qed

section \<open>What an event refers to\<close>

definition refs_in :: "compliance_event \<Rightarrow> string set" where
  "refs_in e = {h. (\<exists>i. io e = Some i \<and> (io_input_ref i = Some h \<or> io_output_ref i = Some h))
     \<or> (\<exists>k. risk e = Some k \<and> risk_rationale_ref k = Some h)
     \<or> (kind e = RISK_CLASSIFICATION \<and> map_of (attributes e) ''fria_ref'' = Some (JStr h))}"

lemma vthen_Inr: "vthen m f v = (Inr b, v') \<longleftrightarrow> (\<exists>a w. m v = (Inr a, w) \<and> f a w = (Inr b, v'))"
  by (cases "m v"; cases "fst (m v)") (auto simp: vthen_def)

lemma vlift_eq: "vlift r v = (r', v') \<longleftrightarrow> r = r' \<and> v = v'"
  by (auto simp: vlift_def)

lemma well_grows: "well_vaulted m \<Longrightarrow> m v = (r, w) \<Longrightarrow> vault_grows v w"
  by (metis snd_conv well_vaulted_def)

lemma opt_ref_backed: "opt_ref p v = (Inr (Some h), v') \<Longrightarrow> backed h v'"
  by (cases p) (auto simp: opt_ref_def vthen_Inr vlift_eq intro: client_ref_backed)

lemma input_io_backed:
  "input_io p v = (Inr i, v') \<Longrightarrow> i = Some x \<Longrightarrow> io_output_ref x = None \<and> (\<exists>h. io_input_ref x = Some h \<and> backed h v')"
  by (cases p) (auto simp: input_io_def vthen_Inr vlift_eq empty_io_ref_def intro: client_ref_backed)

lemma decision_risk_backed:
  "decision_risk d v = (Inr k, v') \<Longrightarrow> k = Some x \<Longrightarrow> risk_rationale_ref x = Some h \<Longrightarrow> backed h v'"
  by (auto simp: decision_risk_def vthen_Inr vlift_eq intro: opt_ref_backed split: if_splits)

lemma build_backed:
  assumes "build_event cl now scope ids r v = (Inr e, v')" "vault_sound v" "h \<in> refs_in e"
  shows "backed h v'"
proof (cases r)
  case (Decision d)
  from assms(1) obtain p i w1 out w2 m k w3 ats where
    run: "opt_ref (dec_input d) v = (Inr i, w1)" "opt_ref (dec_output d) w1 = (Inr out, w2)"
      "decision_risk d w2 = (Inr k, v')"
    and e: "e = (sdk_event cl now AGENT_DECISION p)
         \<lparr>io := Some (empty_io_ref\<lparr>io_input_ref := i, io_output_ref := out\<rparr>), model := m, risk := k,
          oversight := (if given (dec_approval_ref d)
            then Some \<lparr>oversight_status = APPROVED, oversight_approval_ref = dec_approval_ref d,
                   oversight_reviewer = None, oversight_extra = []\<rparr>
            else None),
          attributes := ats\<rparr>"
    unfolding Decision build_event_def recording.case decision_event_def vthen_Inr vlift_eq by blast
  have g: "vault_grows v w1" "vault_grows w1 w2" "vault_grows w2 v'"
    using well_grows [OF well_opt_ref run(1)] well_grows [OF well_opt_ref run(2)]
      well_grows [OF well_decision_risk run(3)] by simp_all
  have s: "vault_sound w1" "vault_sound w2"
    using grows_sound [OF g(1) assms(2)] grows_sound [OF grows_trans [OF g(1,2)] assms(2)] by simp_all
  have "i = Some h \<or> out = Some h \<or> (\<exists>x. k = Some x \<and> risk_rationale_ref x = Some h)"
    using assms(3) by (auto simp: e refs_in_def sdk_event_def bare_event_def)
  then show ?thesis
    using backed_grows [OF opt_ref_backed s(1) grows_trans [OF g(2,3)], of "dec_input d" v h]
      backed_grows [OF opt_ref_backed s(2) g(3), of "dec_output d" w1 h] decision_risk_backed [OF run(3), of _ h] run
    by blast
next
  case (HumanApproval reviewer approved rationale)
  with assms(1,3) show ?thesis
    by (auto simp: build_event_def approval_event_def vthen_Inr vlift_eq refs_in_def sdk_event_def
        bare_event_def dest: input_io_backed)
next
  case (RiskClassification c rationale fria framework)
  from assms(1) obtain f w1 p k where
    run: "opt_ref fria v = (Inr f, w1)" "opt_ref rationale w1 = (Inr k, v')"
    and e: "e = (sdk_event cl now RISK_CLASSIFICATION p)
         \<lparr>risk := Some \<lparr>risk_classification = Some c, risk_rationale_ref = k,
            risk_framework = Some framework, risk_extra = []\<rparr>,
          attributes := opt_field ''fria_ref'' (map_option JStr f)\<rparr>"
    unfolding RiskClassification build_event_def recording.case risk_event_def vthen_Inr vlift_eq by blast
  have g: "vault_grows v w1" "vault_grows w1 v'"
    using well_grows [OF well_opt_ref run(1)] well_grows [OF well_opt_ref run(2)] by simp_all
  have "k = Some h \<or> f = Some h"
    using assms(3) by (cases f) (auto simp: e refs_in_def sdk_event_def bare_event_def opt_field_def)
  then show ?thesis
    using backed_grows [OF opt_ref_backed grows_sound [OF g(1) assms(2)] g(2), of fria v h]
      opt_ref_backed [of rationale w1 h v'] run by blast
next
  case (PolicyDecision decided policy)
  with assms(1,3) show ?thesis
    by (auto simp: build_event_def policy_event_def vthen_Inr vlift_eq refs_in_def sdk_event_def bare_event_def)
next
  case (IncidentReport severity days description)
  with assms(1,3) show ?thesis
    by (auto simp: build_event_def incident_event_def vthen_Inr vlift_eq refs_in_def sdk_event_def
        bare_event_def dest: input_io_backed)
qed


section \<open>Recording\<close>

definition recorded_kind :: "recording \<Rightarrow> event_kind" where
  "recorded_kind r = (case r of
     Decision d \<Rightarrow> AGENT_DECISION
   | HumanApproval _ _ _ \<Rightarrow> HUMAN_APPROVAL
   | RiskClassification _ _ _ _ \<Rightarrow> RISK_CLASSIFICATION
   | PolicyDecision _ _ \<Rightarrow> POLICY_DECISION
   | IncidentReport _ _ _ \<Rightarrow> INCIDENT)"

definition payloads :: "recording \<Rightarrow> payload option set" where
  "payloads r = (case r of
     Decision d \<Rightarrow> {dec_input d, dec_output d, dec_rationale d}
   | HumanApproval _ _ rationale \<Rightarrow> {rationale}
   | RiskClassification _ rationale fria _ \<Rightarrow> {rationale, fria}
   | PolicyDecision _ _ \<Rightarrow> {}
   | IncidentReport _ _ description \<Rightarrow> {description})"

text \<open>What the event can be built from: hashable payloads, a model of the right shape, attributes
  without floats.\<close>

definition hashable_payload :: "payload option \<Rightarrow> bool" where
  "hashable_payload p \<longleftrightarrow> (\<forall>q. p = Some q \<longrightarrow> (\<exists>h. hash_payload q = Inr h))"

definition recordable :: "recording \<Rightarrow> bool" where
  "recordable r \<longleftrightarrow> (\<forall>p \<in> payloads r. hashable_payload p) \<and> (\<forall>d. r = Decision d \<longrightarrow>
     (\<exists>m. decision_model d = Inr m) \<and> float_free (JDict (decision_attributes d)))"

text \<open>What Python guarantees of a recorder's arguments: dictionaries have distinct keys.\<close>

definition wf_recording :: "recording \<Rightarrow> bool" where
  "wf_recording r \<longleftrightarrow> (\<forall>d. r = Decision d \<longrightarrow> wf_dicts (JDict (dec_attributes d))
     \<and> good_value (JDict (dec_model d)) \<and> (\<forall>(k, v) \<in> set (dec_model d). v \<noteq> JNull))"

definition scope_ok :: "dict \<Rightarrow> bool" where
  "scope_ok scope \<longleftrightarrow> scope = [] \<or> (\<exists>a. scope = task_scope a)"

definition ambient :: "dict \<Rightarrow> string \<Rightarrow> string option" where
  "ambient scope k = (case map_of scope k of Some (JStr s) \<Rightarrow> Some s | _ \<Rightarrow> None)"

definition scoped_provenance :: "dict \<Rightarrow> task_ids \<Rightarrow> provenance" where
  "scoped_provenance scope ids =
     \<lparr>prov_task_id = (case ti_task_id ids of None \<Rightarrow> ambient scope ''task_id'' | i \<Rightarrow> i),
      prov_context_id = (case ti_context_id ids of None \<Rightarrow> ambient scope ''context_id'' | i \<Rightarrow> i),
      prov_parent_task_id = ambient scope ''parent_task_id'',
      prov_root_task_id = (case ti_root_task_id ids of None \<Rightarrow> ambient scope ''root_task_id'' | i \<Rightarrow> i),
      prov_extra = []\<rparr>"

lemmas provenance_reading = sdk_provenance_def overrides_def scoped_provenance_def ambient_def Let_def
  task_scope_def dput_def load_provenance_def get_opt_def as_string_def extras_of_def opt_str_def
  provenance_fields_def

lemma sdk_provenance_eq:
  assumes "scope_ok scope"
  shows "sdk_provenance scope ids = Inr (scoped_provenance scope ids)"
proof (cases "scope = []")
  case True
  show ?thesis
    unfolding True
    by (cases "ti_task_id ids"; cases "ti_context_id ids"; cases "ti_root_task_id ids")
      (simp_all add: provenance_reading empty_provenance_def)
next
  case False
  then obtain a where a: "scope = task_scope a" using assms by (auto simp: scope_ok_def)
  show ?thesis
    unfolding a
    by (cases "ti_task_id ids"; cases "ti_context_id ids"; cases "ti_root_task_id ids"; cases "ta_parent_task_id a")
      (simp_all add: provenance_reading)
qed

lemma wf_scoped: "wf_provenance (scoped_provenance scope ids)"
  by (simp add: scoped_provenance_def wf_provenance_def good_extras_def good_value_def)

text \<open>Without a vault, building is a pure computation.\<close>

definition opt_hash :: "payload option \<Rightarrow> string option result" where
  "opt_hash p = (case p of None \<Rightarrow> Inr None | Some q \<Rightarrow> sbind (hash_payload q) (\<lambda>h. Inr (Some h)))"

lemma opt_ref_None: "opt_ref p None = (opt_hash p, None)"
  by (cases p) (auto simp: opt_ref_def opt_hash_def client_ref_def vthen_def vlift_def split: sum.split)

lemma input_io_None: "input_io p None = (sbind (opt_hash p)
    (\<lambda>h. Inr (case h of None \<Rightarrow> None | Some _ \<Rightarrow> Some (empty_io_ref\<lparr>io_input_ref := h\<rparr>))), None)"
  by (cases p) (auto simp: input_io_def opt_hash_def client_ref_def vthen_def vlift_def split: sum.split)

lemma hashable_opt_hash: "hashable_payload p \<longleftrightarrow> (\<exists>h. opt_hash p = Inr h)"
  by (cases p) (auto simp: hashable_payload_def opt_hash_def sbind_Inr_conv)

lemma opt_hash_error: "opt_hash p = Inl e \<Longrightarrow> \<not> hashable_payload p"
  by (simp add: hashable_opt_hash)

lemma decision_risk_None:
  "decision_risk d None = (if given (dec_risk_classification d) \<or> dec_rationale d \<noteq> None
     then sbind (opt_hash (dec_rationale d)) (\<lambda>r. Inr (Some
        \<lparr>risk_classification = dec_risk_classification d, risk_rationale_ref = r,
         risk_framework = (if given (dec_risk_classification d) then Some ''eu-ai-act'' else None),
         risk_extra = []\<rparr>))
     else Inr None, None)"
  by (cases "opt_hash (dec_rationale d)")
    (simp_all add: decision_risk_def vthen_def opt_ref_None vlift_def)

lemma build_possible:
  assumes "scope_ok scope"
  shows "(\<exists>e. fst (build_event cl now scope ids r v) = Inr e) \<longleftrightarrow> recordable r"
proof -
  have "fst (build_event cl now scope ids r v) = fst (build_event cl now scope ids r None)"
    using well_build [of cl now scope ids r] by (simp add: well_vaulted_def vault_blind_def)
  moreover have "(\<exists>e. fst (build_event cl now scope ids r None) = Inr e) \<longleftrightarrow> recordable r"
  proof (cases r)
    case (Decision d)
    have "hashable_payload (dec_rationale d) \<longleftrightarrow> (\<exists>k. fst (decision_risk d None) = Inr k)"
      by (cases "dec_rationale d") (auto simp: decision_risk_None hashable_opt_hash opt_hash_def sbind_Inr_conv)
    moreover have "float_free (JDict (decision_attributes d)) \<longleftrightarrow> (\<exists>a. no_floats_in_attributes (decision_attributes d) = Inr a)"
      by (simp add: no_floats_in_attributes_def)
    moreover have "snd (decision_risk d None) = None" by (simp add: decision_risk_None)
    ultimately show ?thesis
      unfolding recordable_def Decision payloads_def build_event_def recording.case decision_event_def
        hashable_opt_hash sdk_provenance_eq [OF assms]
      by (cases "opt_hash (dec_input d)"; cases "opt_hash (dec_output d)"; cases "decision_model d";
          cases "decision_risk d None"; cases "fst (decision_risk d None)";
          cases "no_floats_in_attributes (decision_attributes d)")
        (auto simp: vthen_def vlift_def opt_ref_None)
  next
    case (HumanApproval reviewer approved rationale)
    then show ?thesis
      by (cases "opt_hash rationale") (simp_all add: recordable_def payloads_def build_event_def approval_event_def
          hashable_opt_hash sdk_provenance_eq [OF assms] vthen_def vlift_def input_io_None)
  next
    case (RiskClassification c rationale fria framework)
    then show ?thesis
      by (cases "opt_hash rationale"; cases "opt_hash fria")
        (simp_all add: recordable_def payloads_def build_event_def risk_event_def
          hashable_opt_hash sdk_provenance_eq [OF assms] vthen_def vlift_def opt_ref_None)
  next
    case (PolicyDecision decided policy)
    then show ?thesis
      by (simp add: recordable_def payloads_def build_event_def policy_event_def
          sdk_provenance_eq [OF assms] vthen_def vlift_def)
  next
    case (IncidentReport severity days description)
    then show ?thesis
      by (cases "opt_hash description") (simp_all add: recordable_def payloads_def build_event_def incident_event_def
          hashable_opt_hash sdk_provenance_eq [OF assms] vthen_def vlift_def input_io_None)
  qed
  ultimately show ?thesis by simp
qed

text \<open>What is built.\<close>

lemma empty_io_wf [simp]: "wf_io_ref (empty_io_ref\<lparr>io_input_ref := i, io_output_ref := out\<rparr>)"
  "wf_io_ref (empty_io_ref\<lparr>io_input_ref := i\<rparr>)"
  by (simp_all add: wf_io_ref_def empty_io_ref_def good_extras_def good_value_def)

lemma sdk_event_fields [simp]:
  "kind (sdk_event cl now k p) = k" "provenance (sdk_event cl now k p) = p"
  "actor (sdk_event cl now k p) = client_actor cl" "timestamp (sdk_event cl now k p) = now"
  by (simp_all add: sdk_event_def bare_event_def)

lemma wf_sdk_event:
  assumes "wf_opt wf_identity_claim (cl_identity_claim cl)" "wf_provenance p"
    "wf_opt wf_io_ref x1" "wf_opt wf_model_info x2" "wf_opt wf_oversight x3" "wf_opt wf_risk x4"
    "good_value (JDict ats)"
  shows "wf_event ((sdk_event cl now k p)\<lparr>io := x1, model := x2, risk := x4, oversight := x3, attributes := ats\<rparr>)"
  using assms by (simp add: wf_event_def sdk_event_def bare_event_def client_actor_def wf_actor_def
      bare_source_def wf_source_meta_def good_extras_def good_value_def wf_opt_def)

lemma decision_model_wf:
  assumes "decision_model d = Inr m" "wf_recording (Decision d)"
  shows "wf_opt wf_model_info m"
proof -
  have extra: "wf_model_info x" if "load_model_info (dec_model d) = Inr x" for x
  proof -
    have e: "model_extra x = extras_of model_info_fields (dec_model d)"
      using that by (auto simp: load_model_info_def sbind_Inr_conv)
    have "good_value (JDict (extras_of model_info_fields (dec_model d)))"
      using assms(2) by (auto simp: wf_recording_def good_value_def extras_of_def list_all_iff distinct_map_filter)
    moreover have "good_extras model_info_fields (extras_of model_info_fields (dec_model d))"
      using assms(2) by (fastforce simp: wf_recording_def good_extras_def extras_of_def)
    ultimately show ?thesis by (simp add: wf_model_info_def e)
  qed
  then show ?thesis using assms(1) by (auto simp: decision_model_def sbind_Inr_conv split: if_splits)
qed

lemma decision_risk_wf: "decision_risk d v = (Inr k, w) \<Longrightarrow> wf_opt wf_risk k"
  by (auto simp: decision_risk_def vthen_Inr vlift_eq wf_risk_def good_extras_def good_value_def split: if_splits)

lemma input_io_wf: "input_io p v = (Inr i, w) \<Longrightarrow> wf_opt wf_io_ref i"
  by (cases p) (auto simp: input_io_def vthen_Inr vlift_eq)

lemma wf_dput: "wf_dicts (JDict d) \<Longrightarrow> wf_dicts v \<Longrightarrow> wf_dicts (JDict (dput k v d))"
  unfolding dput_def by (induction d) (auto simp: update_keys)

lemma good_decision_attributes:
  assumes "no_floats_in_attributes (decision_attributes d) = Inr ats" "wf_recording (Decision d)"
  shows "good_value (JDict ats)"
proof -
  have s: "wf_dicts (JStr c)" for c by simp
  have "wf_dicts (JDict (decision_attributes d))"
    using assms(2) wf_dput [OF _ s] by (simp add: wf_recording_def decision_attributes_def del: wf_dicts.simps split: option.split)
  with assms(1) show ?thesis
    by (simp add: no_floats_in_attributes_def good_value_def del: wf_dicts.simps split: if_splits)
qed

lemma wf_oversight_plain: "wf_oversight \<lparr>oversight_status = s, oversight_approval_ref = a, oversight_reviewer = b, oversight_extra = []\<rparr>"
  by (simp add: wf_oversight_def good_extras_def good_value_def)

lemma build_fields:
  assumes "build_event cl now scope ids r v = (Inr e, v')" "scope_ok scope" "wf_recording r"
    "wf_opt wf_identity_claim (cl_identity_claim cl)"
  shows "wf_event e" "kind e = recorded_kind r" "provenance e = scoped_provenance scope ids"
    "actor e = client_actor cl" "timestamp e = now"
proof -
  note prov = sdk_provenance_eq [OF assms(2)]
  note wf = wf_sdk_event [OF assms(4) wf_scoped]
  have "wf_event e \<and> kind e = recorded_kind r \<and> provenance e = scoped_provenance scope ids
    \<and> actor e = client_actor cl \<and> timestamp e = now"
  proof (cases r)
    case (Decision d)
    from assms(1) obtain p i w1 out w2 w3 m k w4 ats where
      parts: "sdk_provenance scope ids = Inr p" "decision_model d = Inr m" "decision_risk d w3 = (Inr k, w4)"
        "no_floats_in_attributes (decision_attributes d) = Inr ats"
      and e: "e = (sdk_event cl now AGENT_DECISION p)
         \<lparr>io := Some (empty_io_ref\<lparr>io_input_ref := i, io_output_ref := out\<rparr>), model := m, risk := k,
          oversight := (if given (dec_approval_ref d)
            then Some \<lparr>oversight_status = APPROVED, oversight_approval_ref = dec_approval_ref d,
                   oversight_reviewer = None, oversight_extra = []\<rparr>
            else None),
          attributes := ats\<rparr>"
      unfolding Decision build_event_def recording.case decision_event_def vthen_Inr vlift_eq sum.inject by blast
    show ?thesis
      using parts(1) decision_model_wf [OF parts(2)] decision_risk_wf [OF parts(3)]
        good_decision_attributes [OF parts(4)] assms(3)
      unfolding e Decision prov by (auto simp: recorded_kind_def wf_oversight_plain intro!: wf)
  next
    case (HumanApproval reviewer approved rationale)
    from assms(1) obtain i w where i: "input_io rationale v = (Inr i, w)"
      and e: "e = (sdk_event cl now HUMAN_APPROVAL (scoped_provenance scope ids))
         \<lparr>oversight := Some \<lparr>oversight_status = (if approved then APPROVED else REJECTED),
            oversight_approval_ref = None, oversight_reviewer = Some reviewer, oversight_extra = []\<rparr>, io := i\<rparr>"
      unfolding HumanApproval build_event_def recording.case approval_event_def vthen_Inr vlift_eq sum.inject prov by blast
    have "wf_event ((sdk_event cl now HUMAN_APPROVAL (scoped_provenance scope ids))
      \<lparr>io := i, model := None, risk := None, oversight := Some \<lparr>oversight_status = (if approved then APPROVED else REJECTED),
            oversight_approval_ref = None, oversight_reviewer = Some reviewer, oversight_extra = []\<rparr>, attributes := []\<rparr>)"
      by (rule wf) (simp_all add: input_io_wf [OF i] wf_oversight_plain good_value_def)
    then show ?thesis by (simp add: e HumanApproval recorded_kind_def sdk_event_def bare_event_def)
  next
    case (RiskClassification c rationale fria framework)
    from assms(1) obtain f k
      where e: "e = (sdk_event cl now RISK_CLASSIFICATION (scoped_provenance scope ids))
         \<lparr>risk := Some \<lparr>risk_classification = Some c, risk_rationale_ref = k,
            risk_framework = Some framework, risk_extra = []\<rparr>,
          attributes := opt_field ''fria_ref'' (map_option JStr f)\<rparr>"
      unfolding RiskClassification build_event_def recording.case risk_event_def vthen_Inr vlift_eq sum.inject prov by blast
    have "wf_event ((sdk_event cl now RISK_CLASSIFICATION (scoped_provenance scope ids))
      \<lparr>io := None, model := None, risk := Some \<lparr>risk_classification = Some c, risk_rationale_ref = k,
            risk_framework = Some framework, risk_extra = []\<rparr>, oversight := None,
       attributes := opt_field ''fria_ref'' (map_option JStr f)\<rparr>)"
      by (rule wf) (cases f; simp add: wf_risk_def good_extras_def good_value_def opt_field_def)+
    then show ?thesis by (simp add: e RiskClassification recorded_kind_def sdk_event_def bare_event_def)
  next
    case (PolicyDecision decided policy)
    from assms(1) have e: "e = (sdk_event cl now POLICY_DECISION (scoped_provenance scope ids))
         \<lparr>attributes := [(''decision'', JStr decided), (''policy'', JStr policy)]\<rparr>"
      unfolding PolicyDecision build_event_def recording.case policy_event_def vthen_Inr vlift_eq sum.inject prov by blast
    have "wf_event ((sdk_event cl now POLICY_DECISION (scoped_provenance scope ids))
      \<lparr>io := None, model := None, risk := None, oversight := None,
       attributes := [(''decision'', JStr decided), (''policy'', JStr policy)]\<rparr>)"
      by (rule wf) (simp_all add: good_value_def)
    then show ?thesis by (simp add: e PolicyDecision recorded_kind_def sdk_event_def bare_event_def)
  next
    case (IncidentReport severity days description)
    from assms(1) obtain i w where i: "input_io description v = (Inr i, w)"
      and e: "e = (sdk_event cl now INCIDENT (scoped_provenance scope ids))
         \<lparr>io := i, attributes := [(''severity'', JStr severity), (''report_deadline_days'', JInt days)]\<rparr>"
      unfolding IncidentReport build_event_def recording.case incident_event_def vthen_Inr vlift_eq sum.inject prov by blast
    have "wf_event ((sdk_event cl now INCIDENT (scoped_provenance scope ids))
      \<lparr>io := i, model := None, risk := None, oversight := None,
       attributes := [(''severity'', JStr severity), (''report_deadline_days'', JInt days)]\<rparr>)"
      by (rule wf) (simp_all add: input_io_wf [OF i] good_value_def)
    then show ?thesis by (simp add: e IncidentReport recorded_kind_def sdk_event_def bare_event_def)
  qed
  then show "wf_event e" "kind e = recorded_kind r" "provenance e = scoped_provenance scope ids"
    "actor e = client_actor cl" "timestamp e = now" by simp_all
qed

lemma commit_fields:
  assumes "commit ops clk e led = Inr (e', led')"
  shows "e' = e\<lparr>event_id := event_id e', ledger := ledger e'\<rparr>"
  using assms by (auto simp: commit_def prepare_commit_def sbind_Inr_conv install_commit_def Let_def stamp_def
      finalize_id_def)

text \<open> C28. A recorder on a ledger without a retention period commits exactly one event or leaves the ledger
  as it was.  It succeeds if and only if
  the client may write, the payloads can be hashed, and the model and the attributes are
  valid; the event then has the recorder's kind, the client's identity and the task of the
  enclosing scope, and a vault, if there is one, holds under every reference of the event bytes
  that hash to it.\<close>

theorem recorder_outcome:
  assumes "ledger_ok file_holds (cs_ledger s) es" "led_retention (cs_ledger s) = None" "vault_sound (cs_vault s)"
    "scope_ok scope" "wf_recording r" "wf_opt wf_identity_claim (cl_identity_claim cl)"
    "run_recorder file_ops cl now clock scope ids r s = (outcome, s')"
  shows "((\<exists>e. outcome = Inr e) \<longleftrightarrow> recordable r \<and> allowed cl)
    \<and> (\<forall>x. outcome = Inl x \<longrightarrow> cs_ledger s' = cs_ledger s)
    \<and> (\<forall>e. outcome = Inr e \<longrightarrow> events file_ops (cs_ledger s') = Inr (es @ [e])
         \<and> kind e = recorded_kind r \<and> provenance e = scoped_provenance scope ids
         \<and> actor e = client_actor cl \<and> (\<forall>h \<in> refs_in e. backed h (cs_vault s')))"
proof (cases "build_event cl now scope ids r (cs_vault s)")
  case (Pair b v)
  show ?thesis
  proof (cases b)
    case (Inl x)
    then have "\<not> recordable r" using build_possible [OF assms(4), of cl now ids r "cs_vault s"] Pair by simp
    with assms(7) Pair Inl show ?thesis by (auto simp: run_recorder_def)
  next
    case (Inr e)
    then have built: "build_event cl now scope ids r (cs_vault s) = (Inr e, v)" using Pair by simp
    have rec: "recordable r" using build_possible [OF assms(4), of cl now ids r "cs_vault s"] built by simp
    note fields = build_fields [OF built assms(4-6)]
    show ?thesis
    proof (cases "allowed cl")
      case True
      obtain e' led' where c: "commit file_ops clock e (cs_ledger s) = Inr (e', led')"
        using jsonl.commit_total [OF fields(1), where led = "cs_ledger s" and clk = clock] assms(2) by (auto simp: file_ops_def)
      have ok: "ledger_ok file_holds led' (es @ [e'])"
        using jsonl.commit_ok [OF assms(1) fields(1)] c by (simp add: file_ops_def)
      have e': "e' = e\<lparr>event_id := event_id e', ledger := ledger e'\<rparr>" by (rule commit_fields [OF c])
      have "record_event file_ops cl clock e (cs_ledger s) = Inr (e', led')"
        using True c by (simp add: record_event_def allowed_def)
      then have run: "outcome = Inr e'" "s' = s\<lparr>cs_vault := v, cs_ledger := led'\<rparr>"
        using assms(7) built by (auto simp: run_recorder_def)
      have "kind e' = kind e \<and> provenance e' = provenance e \<and> actor e' = actor e \<and> refs_in e' = refs_in e"
        by (subst (1 2 3 4) e') (simp add: refs_in_def)
      then show ?thesis
        using run rec True fields(2-4) jsonl.events_ok [OF ok] build_backed [OF built assms(3)]
        by (simp add: file_ops_def)
    next
      case False
      then obtain x where "record_event file_ops cl clock e (cs_ledger s) = Inl x"
        by (cases "require_capability (cl_principal cl) WRITE_EVIDENCE") (auto simp: record_event_def allowed_def)
      with assms(7) built False show ?thesis by (auto simp: run_recorder_def)
    qed
  qed
qed

definition sample_client :: evidence_client where
  "sample_client = \<lparr>cl_agent_id = ''agent'', cl_agent_card_ref = None, cl_identity_claim = None,
     cl_principal = Some \<lparr>pr_id = ''w'', pr_capabilities = {WRITE_EVIDENCE}\<rparr>, cl_has_authorizer = True\<rparr>"

definition sample_task :: dict where
  "sample_task = task_scope \<lparr>ta_task_id = ''t1'', ta_context_id = None, ta_parent_task_id = None, ta_root_task_id = None\<rparr>"

definition no_ids :: task_ids where
  "no_ids = \<lparr>ti_task_id = None, ti_context_id = None, ti_root_task_id = None\<rparr>"

theorem recorder_outcome_witness:
  "\<exists>e s'. run_recorder file_ops sample_client ''t'' ''t'' sample_task no_ids
      (HumanApproval ''ann'' True (Some (PStr ''because'')))
      \<lparr>cs_ledger = fresh (open_file_backend []), cs_vault = Some []\<rparr> = (Inr e, s')
    \<and> events file_ops (cs_ledger s') = Inr [e] \<and> kind e = HUMAN_APPROVAL
    \<and> prov_root_task_id (provenance e) = Some ''t1'' \<and> (\<forall>h \<in> refs_in e. backed h (cs_vault s'))"
proof -
  let ?r = "HumanApproval ''ann'' True (Some (PStr ''because''))"
  let ?s = "\<lparr>cs_ledger = fresh (open_file_backend []), cs_vault = Some []\<rparr>"
  obtain outcome s' where run: "run_recorder file_ops sample_client ''t'' ''t'' sample_task no_ids ?r ?s = (outcome, s')"
    by fastforce
  have pre: "ledger_ok file_holds (cs_ledger ?s) []" "led_retention (cs_ledger ?s) = None" "vault_sound (cs_vault ?s)"
    "scope_ok sample_task" "wf_recording ?r" "wf_opt wf_identity_claim (cl_identity_claim sample_client)"
    using fresh_file empty_vault
    by (auto simp: fresh_def vault_sound_def scope_ok_def sample_task_def wf_recording_def sample_client_def)
  have "recordable ?r" "allowed sample_client"
    by (simp_all add: recordable_def payloads_def hashable_payload_def hash_payload_def allowed_def sample_client_def
        require_capability_def has_capability_def)
  with recorder_outcome [OF pre run] obtain e where "outcome = Inr e" by blast
  with recorder_outcome [OF pre run] run show ?thesis
    by (intro exI [of _ e] exI [of _ s'])
      (simp add: recorded_kind_def scoped_provenance_def no_ids_def ambient_def sample_task_def task_scope_def str_or_def)
qed

text \<open>The payload is stored before the authorizer is asked: a denied client leaves it in the vault.\<close>

lemma denied_payload_stored:
  assumes "\<not> allowed cl" "scope_ok scope"
    "run_recorder ops cl now clock scope ids (HumanApproval reviewer ok (Some (PStr secret))) (s\<lparr>cs_vault := Some files\<rparr>) = (outcome, s')"
  shows "outcome = Inl AuthorizationError \<and> cs_ledger s' = cs_ledger s
    \<and> (\<exists>files'. cs_vault s' = Some files' \<and> vault_fetch (ref_of (encode_utf8 secret)) files' = Some (encode_utf8 secret))"
proof -
  let ?b = "encode_utf8 secret"
  obtain files' where s: "vault_store (PStr secret) files = Inr (ref_of ?b, files')" "vault_fetch (ref_of ?b) files' = Some ?b"
    using filed.store_ref [of "PStr secret" ?b files] filed.fetch_store by (auto simp: to_bytes_def)
  have deny: "cl_has_authorizer cl" "require_capability (cl_principal cl) WRITE_EVIDENCE = Inl AuthorizationError"
    using assms(1) by (auto simp: allowed_def require_capability_def split: option.splits if_splits)
  show ?thesis
    using assms(3) s deny
    by (auto simp: run_recorder_def build_event_def approval_event_def sdk_provenance_eq [OF assms(2)] vthen_def
        vlift_def input_io_def client_ref_def record_event_def)
qed

section \<open>Scopes\<close>

text \<open>A program over the client: recordings, task blocks, and a statement that raises.\<close>

datatype client_stmt = RecordStmt task_ids recording | RaiseStmt | TaskStmt task_args "client_stmt list"

text \<open>What the interpreter does: the recordings made, each with the value of the context variable it
  saw; whether the block ended normally; the context variable and the tokens left.\<close>

fun run_stmt :: "client_stmt \<Rightarrow> scope_state \<Rightarrow> (dict \<times> task_ids \<times> recording) list \<times> bool \<times> scope_state"
  and run_stmts :: "client_stmt list \<Rightarrow> scope_state \<Rightarrow> (dict \<times> task_ids \<times> recording) list \<times> bool \<times> scope_state"
where
  "run_stmt (RecordStmt ids r) s = ([(current_scope s, ids, r)], True, s)"
| "run_stmt RaiseStmt s = ([], False, s)"
| "run_stmt (TaskStmt a body) s =
     (let (tr, ok, s') = run_stmts body (enter_task a s) in (tr, ok, exit_task s'))"
| "run_stmts [] s = ([], True, s)"
| "run_stmts (c # cs) s =
     (let (tr, ok, s') = run_stmt c s
      in if ok then (let (tr', ok', s'') = run_stmts cs s' in (tr @ tr', ok', s'')) else (tr, False, s'))"

text \<open>What is meant: the scope of a recording is that of the innermost block around it.\<close>

fun lexical :: "dict \<Rightarrow> client_stmt \<Rightarrow> (dict \<times> task_ids \<times> recording) list \<times> bool"
  and lexicals :: "dict \<Rightarrow> client_stmt list \<Rightarrow> (dict \<times> task_ids \<times> recording) list \<times> bool"
where
  "lexical scope (RecordStmt ids r) = ([(scope, ids, r)], True)"
| "lexical scope RaiseStmt = ([], False)"
| "lexical scope (TaskStmt a body) = lexicals (task_scope a) body"
| "lexicals scope [] = ([], True)"
| "lexicals scope (c # cs) =
     (let (tr, ok) = lexical scope c
      in if ok then (let (tr', ok') = lexicals scope cs in (tr @ tr', ok')) else (tr, False))"

lemma scopes_follow:
  "run_stmt c s = (fst (lexical (current_scope s) c), snd (lexical (current_scope s) c), s)"
  "run_stmts cs s = (fst (lexicals (current_scope s) cs), snd (lexicals (current_scope s) cs), s)"
  by (induction c s and cs s rule: run_stmt_run_stmts.induct)
    (auto simp: enter_task_def exit_task_def split_beta Let_def)

lemma lexical_ok:
  "scope_ok scope \<Longrightarrow> \<forall>(d, ids, r) \<in> set (fst (lexical scope c)). scope_ok d"
  "scope_ok scope \<Longrightarrow> \<forall>(d, ids, r) \<in> set (fst (lexicals scope cs)). scope_ok d"
proof (induction scope c and scope cs rule: lexical_lexicals.induct)
  case (3 scope a body)
  moreover have "scope_ok (task_scope a)" by (auto simp: scope_ok_def)
  ultimately show ?case by simp
next
  case (5 scope c cs)
  obtain tr ok where c: "lexical scope c = (tr, ok)" by fastforce
  with 5(1) [OF 5(3)] 5(2) [OF c [symmetric] refl _ 5(3)] show ?case
    by (cases "lexicals scope cs"; cases ok) auto
qed simp_all

text \<open> C39. Task blocks scope evidence as they are nested: however a program of blocks, recordings and raises
  runs, every event is recorded in the scope of its innermost enclosing block, with the
  identifiers of that block where the recorder gives none, and the context is as before when
  the program ends, by an exception or not.\<close>

theorem task_blocks_scope:
  assumes "scope_ok (current_scope s)" "run_stmts program s = (trace, ok, s')"
  shows "s' = s \<and> (trace, ok) = lexicals (current_scope s) program
    \<and> (\<forall>(scope, ids, r) \<in> set trace. sdk_provenance scope ids = Inr (scoped_provenance scope ids))"
proof -
  have "s' = s" "(trace, ok) = lexicals (current_scope s) program"
    using scopes_follow(2) [of program s] assms(2) by simp_all
  moreover have "\<forall>(d, ids, r) \<in> set trace. scope_ok d"
    using lexical_ok(2) [OF assms(1), of program] calculation(2) by (metis fst_conv)
  ultimately show ?thesis using sdk_provenance_eq by fastforce
qed

theorem task_blocks_scope_witness:
  "\<exists>s'. run_stmts [TaskStmt \<lparr>ta_task_id = ''a'', ta_context_id = None, ta_parent_task_id = None, ta_root_task_id = None\<rparr>
        [TaskStmt \<lparr>ta_task_id = ''b'', ta_context_id = None, ta_parent_task_id = Some ''a'', ta_root_task_id = Some ''a''\<rparr>
           [RecordStmt no_ids (PolicyDecision ''allow'' ''p'')],
         RecordStmt no_ids (PolicyDecision ''deny'' ''p''), RaiseStmt]]
      \<lparr>current_scope = [], scope_tokens = []\<rparr>
    = ([(task_scope \<lparr>ta_task_id = ''b'', ta_context_id = None, ta_parent_task_id = Some ''a'', ta_root_task_id = Some ''a''\<rparr>,
         no_ids, PolicyDecision ''allow'' ''p''),
        (task_scope \<lparr>ta_task_id = ''a'', ta_context_id = None, ta_parent_task_id = None, ta_root_task_id = None\<rparr>,
         no_ids, PolicyDecision ''deny'' ''p'')], False, s') \<and> s' = \<lparr>current_scope = [], scope_tokens = []\<rparr>"
proof -
  let ?s = "\<lparr>current_scope = [], scope_tokens = []\<rparr>"
  let ?p = "[TaskStmt \<lparr>ta_task_id = ''a'', ta_context_id = None, ta_parent_task_id = None, ta_root_task_id = None\<rparr>
        [TaskStmt \<lparr>ta_task_id = ''b'', ta_context_id = None, ta_parent_task_id = Some ''a'', ta_root_task_id = Some ''a''\<rparr>
           [RecordStmt no_ids (PolicyDecision ''allow'' ''p'')],
         RecordStmt no_ids (PolicyDecision ''deny'' ''p''), RaiseStmt]]"
  obtain trace ok s' where run: "run_stmts ?p ?s = (trace, ok, s')" by (metis prod_cases3)
  have "scope_ok (current_scope ?s)" by (simp add: scope_ok_def)
  from task_blocks_scope [OF this run] run show ?thesis by simp
qed

end
