(* ===== verification/Identity.thy ===== *)
theory Identity imports Signing begin

text \<open>
  \<open>src/src/openwright/identity.py\<close>: the claim that binds a public key to an agent card, made over
  the canonical bytes of the card without its \<open>signatures\<close>.
\<close>

definition card_signing_bytes :: "dict \<Rightarrow> bytes result" where
  "card_signing_bytes agent_card = canonical_bytes (JDict (dpop ''signatures'' agent_card))"

definition agent_card_hash :: "dict \<Rightarrow> string result" where
  "agent_card_hash agent_card =
     sbind (card_signing_bytes agent_card) (\<lambda>b. Inr (''sha256:'' @ sha256_hex b))"

definition make_identity_claim :: "dict \<Rightarrow> key_source \<Rightarrow> identity_claim result" where
  "make_identity_claim agent_card key =
     sbind (card_signing_bytes agent_card) (\<lambda>signed.
       Inr \<lparr>ic_claim_type = ''agentcard-binding'', ic_public_key_id = Some (ks_key_id key),
         ic_agent_card_hash = Some (''sha256:'' @ sha256_hex signed),
         ic_signature_b64 = Some (b64encode (ks_sign key signed)), ic_extra = []\<rparr>)"

text \<open>An optional text that is set and not empty.\<close>

definition set_text :: "string option \<Rightarrow> string option" where
  "set_text s = (case s of None \<Rightarrow> None | Some t \<Rightarrow> if t = [] then None else Some t)"

definition verify_identity_claim :: "ed_check \<Rightarrow> identity_claim \<Rightarrow> dict \<Rightarrow> bytes \<Rightarrow> bool result" where
  "verify_identity_claim ed claim agent_card public_key_raw =
     (if set_text (ic_public_key_id claim) \<notin> {None, Some (key_id_for public_key_raw)} then Inr False
      else sbind (card_signing_bytes agent_card) (\<lambda>signed.
        if set_text (ic_agent_card_hash claim) \<notin> {None, Some (''sha256:'' @ sha256_hex signed)} then Inr False
        else case set_text (ic_signature_b64 claim) of
          None \<Rightarrow> Inr False
        | Some s \<Rightarrow>
            (case b64decode s of
               Inl e \<Rightarrow> Inr False
             | Inr sig \<Rightarrow> Inr (verify_signature ed public_key_raw sig signed))))"

lemma verify_signature_iff: "verify_signature ed pub sig d \<longleftrightarrow> ed pub sig d = Valid"
  by (cases "ed pub sig d") (simp_all add: verify_signature_def)

lemma verify_claim_iff:
  "verify_identity_claim ed claim ac pub = Inr True \<longleftrightarrow>
     set_text (ic_public_key_id claim) \<in> {None, Some (key_id_for pub)}
     \<and> (\<exists>signed s sig. card_signing_bytes ac = Inr signed
          \<and> set_text (ic_agent_card_hash claim) \<in> {None, Some (''sha256:'' @ sha256_hex signed)}
          \<and> set_text (ic_signature_b64 claim) = Some s \<and> b64decode s = Inr sig \<and> ed pub sig signed = Valid)"
proof (cases "card_signing_bytes ac")
  case (Inr signed)
  show ?thesis
  proof (cases "set_text (ic_signature_b64 claim)")
    case (Some s)
    then show ?thesis
      using Inr by (cases "b64decode s") (simp_all add: verify_identity_claim_def verify_signature_iff)
  qed (simp add: verify_identity_claim_def Inr)
qed (simp add: verify_identity_claim_def)

text \<open>Two cards sign the same bytes exactly when they say the same, signatures aside.\<close>

lemma wf_dpop: "wf_dicts (JDict d) \<Longrightarrow> wf_dicts (JDict (dpop k d))"
  by (auto simp: dpop_def distinct_map_filter)

lemma card_bytes_eq:
  assumes "wf_dicts (JDict a)" "wf_dicts (JDict b)" "card_signing_bytes a = Inr x" "card_signing_bytes b = Inr y"
  shows "x = y \<longleftrightarrow> meaning (JDict (dpop ''signatures'' a)) = meaning (JDict (dpop ''signatures'' b))"
  using canonical_bytes_eq_iff [OF wf_dpop [OF assms(1)] wf_dpop [OF assms(2)]] assms(3,4)
  by (simp add: card_signing_bytes_def)

lemma sha256_hex_eq: "sha256_hex x = sha256_hex y \<longleftrightarrow> sha256 x = sha256 y"
  by (simp add: sha256_hex_def)

end
