(* ===== verification/Receipts.thy ===== *)
theory Receipts imports Identity Timestamps Py_Values Event_Laws begin

text \<open>
  \<open>src/src/openwright/adapters/receipt.py\<close>: signed action receipts, verified before they become
  events.  A receipt is an untrusted JSON value.
\<close>

definition receipt_signing_bytes :: "dict \<Rightarrow> bytes result" where
  "receipt_signing_bytes receipt = canonical_bytes (JDict (dpop ''sig'' receipt))"

text \<open>\<open>base64.b64decode\<close> of a JSON value and \<open>to_rfc3339\<close> of one.\<close>

definition b64decode_value :: "json \<Rightarrow> bytes result" where
  "b64decode_value v = (case v of JStr s \<Rightarrow> b64decode s | _ \<Rightarrow> Inl TypeError)"

definition stamp_of_json :: "json \<Rightarrow> stamp_value" where
  "stamp_of_json v = (case v of
     JInt n \<Rightarrow> TInt n
   | JBool b \<Rightarrow> TInt (if b then 1 else 0)
   | JStr s \<Rightarrow> TStr s
   | _ \<Rightarrow> TOther)"

section \<open>Verification\<close>

text \<open>The checks that come before ingestion: action, signer, signature and key as they are in the
  receipt, and the raw key.\<close>

record receipt_parts =
  rp_action :: dict
  rp_signer :: dict
  rp_sig_b64 :: json
  rp_pubkey_b64 :: json
  rp_pub_raw :: bytes

definition check_receipt :: "ed_check \<Rightarrow> dict \<Rightarrow> receipt_parts result" where
  "check_receipt ed receipt =
     (case (attr receipt ''action'', attr receipt ''signer'') of
        (JDict action, JDict signer) \<Rightarrow>
          (let sig_b64 = attr receipt ''sig''; pubkey_b64 = attr signer ''pubkey''
           in if \<not> truthy sig_b64 \<or> \<not> truthy pubkey_b64 then Inl ReceiptVerificationError
              else case (b64decode_value sig_b64, b64decode_value pubkey_b64) of
                (Inr sig, Inr pub_raw) \<Rightarrow>
                  sbind (receipt_signing_bytes receipt) (\<lambda>signed.
                    if \<not> verify_signature ed pub_raw sig signed then Inl ReceiptVerificationError
                    else Inr \<lparr>rp_action = action, rp_signer = signer, rp_sig_b64 = sig_b64,
                           rp_pubkey_b64 = pubkey_b64, rp_pub_raw = pub_raw\<rparr>)
              | _ \<Rightarrow> Inl ReceiptVerificationError)
      | _ \<Rightarrow> Inl ReceiptVerificationError)"

section \<open>Normalization\<close>

definition given_fields :: "(string \<times> json) list \<Rightarrow> dict" where
  "given_fields kvs = filter (\<lambda>(k, v). v \<noteq> JNull) kvs"

definition receipt_identity :: "receipt_parts \<Rightarrow> identity_claim result" where
  "receipt_identity p = load_identity_claim
     ([(''claim_type'', JStr ''receipt-signer''), (''public_key_id'', JStr (key_id_for (rp_pub_raw p))),
       (''signature_b64'', rp_sig_b64 p), (''public_key_b64'', rp_pubkey_b64 p)]
      @ given_fields [(''owner'', attr (rp_signer p) ''owner'')])"

definition receipt_attributes :: "dict \<Rightarrow> receipt_parts \<Rightarrow> dict" where
  "receipt_attributes receipt p =
     [(''receipt_verified'', JBool True)]
     @ given_fields [(''nonce'', attr receipt ''nonce''), (''target'', attr (rp_action p) ''target''),
         (''transport'', attr receipt ''transport'')]"

definition receipt_agent :: "string option \<Rightarrow> receipt_parts \<Rightarrow> json" where
  "receipt_agent agent_id_default p =
     py_or (attr (rp_signer p) ''name'') (py_or (opt_str agent_id_default) (JStr ''unknown-agent''))"

definition receipt_io :: "receipt_parts \<Rightarrow> io_ref option result" where
  "receipt_io p =
     (let params_hash = attr (rp_action p) ''params_hash''
      in if truthy params_hash
         then sbind (typed_text params_hash) (\<lambda>h. Inr (Some (empty_io_ref\<lparr>io_arguments_ref := Some h\<rparr>)))
         else Inr None)"

definition receipt_tool :: "receipt_parts \<Rightarrow> tool_info option result" where
  "receipt_tool p =
     (let t = attr (rp_action p) ''tool''
      in if truthy t
         then sbind (typed_text t) (\<lambda>nm. Inr (Some \<lparr>tool_name = Some nm, tool_call_id = None, tool_extra = []\<rparr>))
         else Inr None)"

definition verify_and_normalize :: "ed_check \<Rightarrow> json \<Rightarrow> string option \<Rightarrow> compliance_event result" where
  "verify_and_normalize ed receipt agent_id_default = (case receipt of
     JDict r \<Rightarrow>
       sbind (check_receipt ed r) (\<lambda>p.
       (let ts = attr r ''ts''
        in if ts = JNull then Inl ReceiptVerificationError
           else
             sbind (receipt_identity p) (\<lambda>claim.
             sbind (to_rfc3339 (stamp_of_json ts)) (\<lambda>stamp.
             sbind (typed_text (receipt_agent agent_id_default p)) (\<lambda>who.
             sbind (receipt_io p) (\<lambda>i.
             sbind (receipt_tool p) (\<lambda>t.
             sbind (no_floats_in_attributes (receipt_attributes r p)) (\<lambda>ats.
               Inr ((bare_event stamp TOOL_CALL ((bare_actor who)\<lparr>actor_identity_claim := Some claim\<rparr>)
                   (bare_source ''receipt/action-v1''))
                 \<lparr>io := i, tool := t, attributes := ats\<rparr>)))))))))
   | _ \<Rightarrow> Inl ReceiptVerificationError)"

definition receipt_to_event :: "ed_check \<Rightarrow> json \<Rightarrow> string option \<Rightarrow> compliance_event result" where
  "receipt_to_event = verify_and_normalize"

section \<open>Signing\<close>

record receipt_args =
  ra_tool :: string
  ra_params_hash :: string
  ra_signer_name :: string
  ra_ts :: string
  ra_nonce :: string
  ra_target :: "string option"
  ra_owner :: "string option"
  ra_transport :: "string option"

definition unsigned_receipt :: "key_source \<Rightarrow> receipt_args \<Rightarrow> dict" where
  "unsigned_receipt key a =
     [(''action'', JDict ([(''tool'', JStr (ra_tool a)), (''params_hash'', JStr (ra_params_hash a))]
         @ opt_field ''target'' (map_option JStr (ra_target a)))),
      (''signer'', JDict ([(''pubkey'', JStr (b64encode (ks_public_key_raw key))), (''name'', JStr (ra_signer_name a))]
         @ opt_field ''owner'' (map_option JStr (ra_owner a)))),
      (''ts'', JStr (ra_ts a)), (''nonce'', JStr (ra_nonce a))]
     @ opt_field ''transport'' (map_option JStr (ra_transport a))"

definition sign_receipt :: "key_source \<Rightarrow> receipt_args \<Rightarrow> dict result" where
  "sign_receipt key a =
     (let receipt = unsigned_receipt key a
      in sbind (receipt_signing_bytes receipt) (\<lambda>signed.
           Inr (dput ''sig'' (JStr (b64encode (ks_sign key signed))) receipt)))"

end
