(* ===== verification/Receipt_Properties.thy ===== *)
theory Receipt_Properties imports Receipts Record_Properties begin

text \<open>
  Signed input: what an accepted identity claim and an accepted receipt guarantee, and that honest
  ones are accepted.
\<close>

section \<open>Agent cards\<close>

lemma b64encode_empty: "b64encode bs = [] \<longleftrightarrow> bs = []"
  by (cases bs rule: b64encode.cases) simp_all

text \<open> A claim made over an agent card verifies for that card, and keeps verifying when the card is
  rewritten without changing what it says, its signatures aside; and a claim with a card hash
  accepted for two cards shows that they say the same, or a SHA-256 collision.\<close>

theorem identity_claim_binds:
  assumes "wf_dicts (JDict a)" "wf_dicts (JDict b)"
    "\<forall>d. ed (ks_public_key_raw key) (ks_sign key d) d = Valid" "ks_sign key d0 \<noteq> []"
    "card_signing_bytes a = Inr d0" "card_signing_bytes b = Inr d1"
  shows "\<exists>claim. make_identity_claim a key = Inr claim
    \<and> verify_identity_claim ed claim a (ks_public_key_raw key) = Inr True
    \<and> (meaning (JDict (dpop ''signatures'' a)) = meaning (JDict (dpop ''signatures'' b))
        \<longrightarrow> verify_identity_claim ed claim b (ks_public_key_raw key) = Inr True)
    \<and> (verify_identity_claim ed claim b pub = Inr True
        \<longrightarrow> key_id_for pub = ks_key_id key
            \<and> (meaning (JDict (dpop ''signatures'' a)) = meaning (JDict (dpop ''signatures'' b))
               \<or> d0 \<noteq> d1 \<and> sha256 d0 = sha256 d1))"
proof -
  let ?c = "\<lparr>ic_claim_type = ''agentcard-binding'', ic_public_key_id = Some (ks_key_id key),
         ic_agent_card_hash = Some (''sha256:'' @ sha256_hex d0),
         ic_signature_b64 = Some (b64encode (ks_sign key d0)), ic_extra = []\<rparr>"
  have id: "set_text (ic_public_key_id ?c) = Some (ks_key_id key)"
    "set_text (ic_agent_card_hash ?c) = Some (''sha256:'' @ sha256_hex d0)"
    "set_text (ic_signature_b64 ?c) = Some (b64encode (ks_sign key d0))"
    using assms(4) by (simp_all add: b64encode_empty set_text_def ks_key_id_def key_id_for_def)
  have made: "make_identity_claim a key = Inr ?c" using assms(5) by (simp add: make_identity_claim_def)
  have same: "d0 = d1 \<longleftrightarrow> meaning (JDict (dpop ''signatures'' a)) = meaning (JDict (dpop ''signatures'' b))"
    by (rule card_bytes_eq [OF assms(1,2,5,6)])
  have "verify_identity_claim ed ?c a (ks_public_key_raw key) = Inr True"
    unfolding verify_claim_iff id using assms(3,5) by (simp add: ks_key_id_def)
  moreover have "verify_identity_claim ed ?c b (ks_public_key_raw key) = Inr True" if "d0 = d1"
    unfolding verify_claim_iff id using assms(3,6) that by (simp add: ks_key_id_def)
  moreover have "key_id_for pub = ks_key_id key \<and> (d0 = d1 \<or> d0 \<noteq> d1 \<and> sha256 d0 = sha256 d1)"
    if "verify_identity_claim ed ?c b pub = Inr True"
    using that assms(6) unfolding verify_claim_iff id by (auto simp: sha256_hex_eq)
  ultimately show ?thesis using made same by blast
qed

theorem identity_claim_binds_witness:
  "\<exists>claim. make_identity_claim [(''name'', JStr ''x''), (''signatures'', JList [])] echo_key = Inr claim
    \<and> verify_identity_claim echo_check claim [(''name'', JStr ''x''), (''signatures'', JList [])] [1, 2, 3] = Inr True
    \<and> verify_identity_claim echo_check claim [(''name'', JStr ''x'')] [1, 2, 3] = Inr True"
proof -
  let ?a = "[(''name'', JStr ''x''), (''signatures'', JList [])] :: dict"
  let ?b = "[(''name'', JStr ''x'')] :: dict"
  have wf: "wf_dicts (JDict ?a)" "wf_dicts (JDict ?b)" by simp_all
  have scheme: "\<forall>d. echo_check (ks_public_key_raw echo_key) (ks_sign echo_key d) d = Valid"
    by (simp add: echo_check_def echo_key_def)
  obtain d where d: "card_signing_bytes ?b = Inr d"
    using canonical_good [of "JDict ?b"] by (auto simp: card_signing_bytes_def dpop_def good_value_def)
  have a: "card_signing_bytes ?a = Inr d" using d by (simp add: card_signing_bytes_def dpop_def)
  have "ks_sign echo_key d \<noteq> []" using d by (auto simp: card_signing_bytes_def dpop_def canonical_bytes_of_def canonical_text_def
        sbind_Inr_conv encode_utf8_def echo_key_def)
  from identity_claim_binds [where ed = echo_check and key = echo_key and pub = "[1, 2, 3]", OF wf scheme this a d]
  show ?thesis
    by (auto simp: echo_key_def dpop_def)
qed

section \<open>Receipts\<close>

lemma canonicalizable_float_free: "canonicalizable Some v \<Longrightarrow> float_free v"
proof (induction v rule: float_free.induct)
  case (2 kvs)
  have "float_free (snd kv)" if "kv \<in> set kvs" for kv
    using 2 that by (cases "snd kv = JNull") auto
  then show ?case by (simp add: list_all_iff)
qed (auto simp: list_all_iff)

lemma check_receipt_ok:
  assumes "check_receipt ed r = Inr p"
  obtains sig sb where "attr r ''action'' = JDict (rp_action p)" "attr r ''signer'' = JDict (rp_signer p)"
    "rp_sig_b64 p = attr r ''sig''" "rp_pubkey_b64 p = attr (rp_signer p) ''pubkey''"
    "b64decode_value (rp_sig_b64 p) = Inr sig" "b64decode_value (rp_pubkey_b64 p) = Inr (rp_pub_raw p)"
    "receipt_signing_bytes r = Inr sb" "ed (rp_pub_raw p) sig sb = Valid"
  using assms unfolding check_receipt_def Let_def
  by (auto simp: sbind_Inr_conv verify_signature_iff split: pyv.splits sum.splits if_splits)

lemma signed_receipt_good:
  assumes "receipt_signing_bytes r = Inr sb" "wf_dicts (JDict r)" "k \<noteq> ''sig''"
  shows "good_value (attr r k)"
proof (cases "map_of r k")
  case (Some v)
  then have kv: "(k, v) \<in> set r" by (rule map_of_SomeD)
  have "canonicalizable Some (JDict (dpop ''sig'' r))"
    using assms(1) canonical_bytes_outcome [of Some "JDict (dpop ''sig'' r)"] by (auto simp: receipt_signing_bytes_def split: if_splits)
  then have "float_free v"
    using canonicalizable_float_free [of "JDict (dpop ''sig'' r)"] kv assms(3) by (auto simp: dpop_def list_all_iff)
  moreover have "wf_dicts v" using assms(2) kv by auto
  ultimately show ?thesis using Some by (simp add: dget_or_def good_value_def)
qed (simp add: dget_or_def)

lemma good_attr: "good_value (JDict d) \<Longrightarrow> good_value (attr d k)"
  by (cases "map_of d k") (auto simp: dget_or_def good_value_def list_all_iff dest!: map_of_SomeD)

lemma load_claim_parts:
  assumes "load_identity_claim d = Inr claim"
  shows "ic_extra claim = extras_of identity_claim_fields d" "get_opt_str ''public_key_id'' d = Inr (ic_public_key_id claim)"
  using assms by (auto simp: load_identity_claim_def sbind_Inr_conv)

lemma receipt_identity_ok:
  assumes "receipt_identity p = Inr claim" "good_value (attr (rp_signer p) ''owner'')" "good_value (rp_pubkey_b64 p)"
    "rp_pubkey_b64 p \<noteq> JNull"
  shows "wf_identity_claim claim" "ic_public_key_id claim = Some (key_id_for (rp_pub_raw p))"
proof -
  note parts = load_claim_parts [OF assms(1) [unfolded receipt_identity_def]]
  show "ic_public_key_id claim = Some (key_id_for (rp_pub_raw p))"
    using parts(2) by (simp add: get_opt_def as_string_def)
  have "ic_extra claim = (''public_key_b64'', rp_pubkey_b64 p) # given_fields [(''owner'', attr (rp_signer p) ''owner'')]"
    unfolding parts(1) by (simp add: extras_of_def identity_claim_fields_def given_fields_def)
  then show "wf_identity_claim claim"
    using assms(2-4) by (simp add: wf_identity_claim_def identity_claim_fields_def good_extras_def given_fields_def good_value_def)
qed

text \<open> C27. Verification precedes ingestion: an event is made of a receipt only if the signature in it
  verifies, under the key in it, over the canonical bytes of the rest; the event is a tool call
  that carries that key's id and the receipt's tool and parameter hash, and it is fit to be
  committed.  Those bytes determine what the receipt says.\<close>

theorem receipt_verified_first:
  assumes "wf_dicts receipt" "receipt_to_event ed receipt agent_default = Inr e"
  shows "\<exists>r act signer sig pub sb. receipt = JDict r
    \<and> attr r ''action'' = JDict act \<and> attr r ''signer'' = JDict signer
    \<and> b64decode_value (attr r ''sig'') = Inr sig \<and> b64decode_value (attr signer ''pubkey'') = Inr pub
    \<and> receipt_signing_bytes r = Inr sb \<and> ed pub sig sb = Valid
    \<and> wf_event e \<and> kind e = TOOL_CALL
    \<and> (\<exists>claim. actor_identity_claim (actor e) = Some claim \<and> ic_public_key_id claim = Some (key_id_for pub))
    \<and> (\<forall>h. attr act ''params_hash'' = JStr h \<and> h \<noteq> [] \<longrightarrow> (\<exists>i. io e = Some i \<and> io_arguments_ref i = Some h))
    \<and> (\<forall>t. attr act ''tool'' = JStr t \<and> t \<noteq> [] \<longrightarrow> (\<exists>u. tool e = Some u \<and> tool_name u = Some t))
    \<and> (\<forall>r'. wf_dicts (JDict r') \<and> receipt_signing_bytes r' = Inr sb
         \<longrightarrow> meaning (JDict (dpop ''sig'' r')) = meaning (JDict (dpop ''sig'' r)))"
proof -
  obtain r where r: "receipt = JDict r"
    using assms(2) by (cases receipt) (simp_all add: receipt_to_event_def verify_and_normalize_def)
  from assms(2) obtain p claim stamp who i t ats where
    p: "check_receipt ed r = Inr p" and claim: "receipt_identity p = Inr claim"
    and io: "receipt_io p = Inr i" and tool: "receipt_tool p = Inr t"
    and ats: "no_floats_in_attributes (receipt_attributes r p) = Inr ats"
    and e: "e = (bare_event stamp TOOL_CALL ((bare_actor who)\<lparr>actor_identity_claim := Some claim\<rparr>)
                   (bare_source ''receipt/action-v1''))\<lparr>io := i, tool := t, attributes := ats\<rparr>"
    unfolding r receipt_to_event_def verify_and_normalize_def pyv.case Let_def sbind_Inr_conv
    by (auto split: if_splits simp: sbind_Inr_conv)
  obtain sig sb where c: "attr r ''action'' = JDict (rp_action p)" "attr r ''signer'' = JDict (rp_signer p)"
    "rp_sig_b64 p = attr r ''sig''" "rp_pubkey_b64 p = attr (rp_signer p) ''pubkey''"
    "b64decode_value (rp_sig_b64 p) = Inr sig" "b64decode_value (rp_pubkey_b64 p) = Inr (rp_pub_raw p)"
    "receipt_signing_bytes r = Inr sb" "ed (rp_pub_raw p) sig sb = Valid"
    using check_receipt_ok [OF p] by metis
  note good = signed_receipt_good [OF c(7) assms(1) [unfolded r]]
  have parts: "good_value (JDict (rp_action p))" "good_value (JDict (rp_signer p))"
    using good [of "''action''"] good [of "''signer''"] c(1,2) by simp_all
  have pub: "good_value (rp_pubkey_b64 p)" "rp_pubkey_b64 p \<noteq> JNull"
    using c(4,6) good_attr [OF parts(2)] by (auto simp: b64decode_value_def)
  note id = receipt_identity_ok [OF claim good_attr [OF parts(2)] pub]
  have "wf_dicts (JDict (receipt_attributes r p))"
    using good [of "''nonce''"] good [of "''transport''"] good_attr [OF parts(1), of "''target''"]
    by (auto simp: receipt_attributes_def given_fields_def good_value_def)
  with ats have "good_value (JDict ats)"
    by (simp add: no_floats_in_attributes_def good_value_def del: wf_dicts.simps split: if_splits)
  moreover have "wf_opt wf_io_ref i" "wf_opt wf_tool_info t"
    using io tool by (auto simp: receipt_io_def receipt_tool_def Let_def sbind_Inr_conv wf_io_ref_def empty_io_ref_def
        wf_tool_info_def good_extras_def good_value_def split: if_splits)
  ultimately have wf: "wf_event e"
    using id(1) by (simp add: e wf_event_def bare_event_def bare_actor_def wf_actor_def bare_source_def
        wf_source_meta_def good_extras_def good_value_def empty_provenance_def wf_provenance_def wf_opt_def)
  have io': "\<forall>h. attr (rp_action p) ''params_hash'' = JStr h \<and> h \<noteq> [] \<longrightarrow> (\<exists>i. io e = Some i \<and> io_arguments_ref i = Some h)"
    using io by (auto simp: e receipt_io_def truthy_def typed_text_def)
  have tool': "\<forall>n. attr (rp_action p) ''tool'' = JStr n \<and> n \<noteq> [] \<longrightarrow> (\<exists>u. tool e = Some u \<and> tool_name u = Some n)"
    using tool by (auto simp: e receipt_tool_def truthy_def typed_text_def)
  have says: "\<forall>r'. wf_dicts (JDict r') \<and> receipt_signing_bytes r' = Inr sb
      \<longrightarrow> meaning (JDict (dpop ''sig'' r')) = meaning (JDict (dpop ''sig'' r))"
    using canonical_bytes_eq_iff [OF wf_dpop [where k = "''sig''"] wf_dpop [where k = "''sig''", OF assms(1) [unfolded r]]] c(7)
    unfolding receipt_signing_bytes_def by blast
  have "kind e = TOOL_CALL" and who: "\<exists>claim. actor_identity_claim (actor e) = Some claim \<and> ic_public_key_id claim = Some (key_id_for (rp_pub_raw p))"
    using id(2) by (simp_all add: e bare_event_def)
  from this(1) show ?thesis
    by (intro exI [of _ r] exI [of _ "rp_action p"] exI [of _ "rp_signer p"] exI [of _ sig]
        exI [of _ "rp_pub_raw p"] exI [of _ sb] conjI)
      (rule r c(1,2,7,8) c(5) [unfolded c(3)] c(6) [unfolded c(4)] wf io' tool' says who | assumption)+
qed

definition sample_receipt :: receipt_args where
  "sample_receipt = \<lparr>ra_tool = ''pay'', ra_params_hash = ''sha256:00'', ra_signer_name = ''bot'',
     ra_ts = ''2026-01-01T00:00:00Z'', ra_nonce = ''n'', ra_target = Some ''acct'', ra_owner = None, ra_transport = None\<rparr>"

lemma wf_unsigned: "wf_dicts (JDict (unsigned_receipt key a))" "good_value (JDict (unsigned_receipt key a))"
  by (cases "ra_target a"; cases "ra_owner a"; cases "ra_transport a";
      simp add: unsigned_receipt_def opt_field_def good_value_def)+

lemma sign_receipt_total:
  obtains sb where "receipt_signing_bytes (unsigned_receipt key a) = Inr sb"
    "sign_receipt key a = Inr (unsigned_receipt key a @ [(''sig'', JStr (b64encode (ks_sign key sb)))])"
proof -
  have none: "dpop ''sig'' (unsigned_receipt key a) = unsigned_receipt key a" "''sig'' \<notin> fst ` set (unsigned_receipt key a)"
    by (cases "ra_transport a"; simp add: unsigned_receipt_def opt_field_def dpop_def)+
  obtain sb where "receipt_signing_bytes (unsigned_receipt key a) = Inr sb"
    using canonical_good [OF wf_unsigned(2)] by (auto simp: receipt_signing_bytes_def none(1))
  then show ?thesis
    using that by (simp add: sign_receipt_def dput_fresh [OF none(2)])
qed

definition receipt_extras :: "receipt_args \<Rightarrow> dict" where
  "receipt_extras a = [(''receipt_verified'', JBool True), (''nonce'', JStr (ra_nonce a))]
     @ opt_field ''target'' (map_option JStr (ra_target a)) @ opt_field ''transport'' (map_option JStr (ra_transport a))"

definition receipt_event :: "receipt_args \<Rightarrow> identity_claim \<Rightarrow> compliance_event" where
  "receipt_event a c = (bare_event (ra_ts a) TOOL_CALL ((bare_actor (ra_signer_name a))\<lparr>actor_identity_claim := Some c\<rparr>)
        (bare_source ''receipt/action-v1''))
      \<lparr>io := Some (empty_io_ref\<lparr>io_arguments_ref := Some (ra_params_hash a)\<rparr>),
       tool := Some \<lparr>tool_name = Some (ra_tool a), tool_call_id = None, tool_extra = []\<rparr>,
       attributes := receipt_extras a\<rparr>"

lemma signed_receipt_event:
  assumes "\<forall>d. ed (ks_public_key_raw key) (ks_sign key d) d = Valid" "\<forall>d. ks_sign key d \<noteq> []"
    "ks_public_key_raw key \<noteq> []" "ra_tool a \<noteq> []" "ra_params_hash a \<noteq> []" "ra_signer_name a \<noteq> []"
  obtains r c where "sign_receipt key a = Inr r" "wf_dicts (JDict r)" "ic_public_key_id c = Some (ks_key_id key)"
    "receipt_to_event ed (JDict r) agent_default = Inr (receipt_event a c)"
proof -
  obtain sb where sb: "receipt_signing_bytes (unsigned_receipt key a) = Inr sb"
    "sign_receipt key a = Inr (unsigned_receipt key a @ [(''sig'', JStr (b64encode (ks_sign key sb)))])"
    by (rule sign_receipt_total)
  let ?r = "unsigned_receipt key a @ [(''sig'', JStr (b64encode (ks_sign key sb)))]"
  let ?act = "[(''tool'', JStr (ra_tool a)), (''params_hash'', JStr (ra_params_hash a))] @ opt_field ''target'' (map_option JStr (ra_target a))"
  let ?signer = "[(''pubkey'', JStr (b64encode (ks_public_key_raw key))), (''name'', JStr (ra_signer_name a))] @ opt_field ''owner'' (map_option JStr (ra_owner a))"
  let ?p = "\<lparr>rp_action = ?act, rp_signer = ?signer, rp_sig_b64 = JStr (b64encode (ks_sign key sb)),
    rp_pubkey_b64 = JStr (b64encode (ks_public_key_raw key)), rp_pub_raw = ks_public_key_raw key\<rparr>"
  have "dpop ''sig'' ?r = dpop ''sig'' (unsigned_receipt key a)" by (simp add: dpop_def)
  then have bytes: "receipt_signing_bytes ?r = Inr sb" using sb(1) by (simp add: receipt_signing_bytes_def)
  have reads: "attr ?r ''action'' = JDict ?act" "attr ?r ''signer'' = JDict ?signer"
    "attr ?r ''sig'' = JStr (b64encode (ks_sign key sb))" "attr ?r ''ts'' = JStr (ra_ts a)"
    "attr ?r ''nonce'' = JStr (ra_nonce a)" "attr ?r ''transport'' = opt_str (ra_transport a)"
    "attr ?act ''target'' = opt_str (ra_target a)" "attr ?signer ''owner'' = opt_str (ra_owner a)"
    by (cases "ra_transport a"; cases "ra_target a"; cases "ra_owner a";
        simp add: unsigned_receipt_def dget_or_def opt_field_def opt_str_def)+
  have pub: "attr ?signer ''pubkey'' = JStr (b64encode (ks_public_key_raw key))" by (simp add: dget_or_def)
  have check: "check_receipt ed ?r = Inr ?p"
    unfolding check_receipt_def reads prod.case pyv.case Let_def pub bytes sbind.simps
    using assms(1-3) by (simp add: truthy_def b64encode_empty b64decode_value_def verify_signature_iff)
  have claim: "\<exists>c. receipt_identity ?p = Inr c \<and> ic_public_key_id c = Some (ks_key_id key)"
    by (cases "ra_owner a")
      (simp_all add: receipt_identity_def given_fields_def dget_or_def opt_field_def load_identity_claim_def
        get_str_default_def get_opt_def as_string_def ks_key_id_def)
  have agent: "receipt_agent agent_default ?p = JStr (ra_signer_name a)"
    using assms(6) by (simp add: receipt_agent_def dget_or_def py_or_def truthy_def)
  have io: "receipt_io ?p = Inr (Some (empty_io_ref\<lparr>io_arguments_ref := Some (ra_params_hash a)\<rparr>))"
    "receipt_tool ?p = Inr (Some \<lparr>tool_name = Some (ra_tool a), tool_call_id = None, tool_extra = []\<rparr>)"
    using assms(4,5) by (simp_all add: receipt_io_def receipt_tool_def dget_or_def truthy_def typed_text_def)
  have ats: "receipt_attributes ?r ?p = receipt_extras a"
    unfolding receipt_attributes_def receipt_parts.select_convs reads receipt_extras_def
    by (cases "ra_transport a"; cases "ra_target a") (simp_all add: given_fields_def opt_str_def opt_field_def)
  have free: "no_floats_in_attributes (receipt_extras a) = Inr (receipt_extras a)"
    unfolding receipt_extras_def
    by (cases "ra_transport a"; cases "ra_target a") (simp_all add: no_floats_in_attributes_def opt_field_def)
  obtain c where c: "receipt_identity ?p = Inr c" "ic_public_key_id c = Some (ks_key_id key)" using claim by blast
  have "receipt_to_event ed (JDict ?r) agent_default = Inr (receipt_event a c)"
    unfolding receipt_to_event_def verify_and_normalize_def pyv.case check sbind.simps reads Let_def c(1) agent io ats free
    by (simp add: stamp_of_json_def to_rfc3339_def typed_text_def receipt_event_def)
  moreover have "wf_dicts (JDict ?r)"
    using wf_unsigned(1) [of key a] by (cases "ra_transport a") (auto simp: unsigned_receipt_def opt_field_def)
  ultimately show ?thesis using that sb(2) c(2) by blast
qed

text \<open> A receipt that \<open>sign_receipt\<close> makes is accepted, and the event says what was signed: the tool,
  the parameter hash, the signer's name and key, the time, and in the attributes the nonce and,
  when they are given, the target and the transport.\<close>

theorem signed_receipt_accepted:
  assumes "\<forall>d. ed (ks_public_key_raw key) (ks_sign key d) d = Valid" "\<forall>d. ks_sign key d \<noteq> []"
    "ks_public_key_raw key \<noteq> []" "ra_tool a \<noteq> []" "ra_params_hash a \<noteq> []" "ra_signer_name a \<noteq> []"
  shows "\<exists>r e. sign_receipt key a = Inr r \<and> receipt_to_event ed (JDict r) agent_default = Inr e
    \<and> timestamp e = ra_ts a \<and> actor_agent_id (actor e) = ra_signer_name a
    \<and> (\<exists>u. tool e = Some u \<and> tool_name u = Some (ra_tool a))
    \<and> (\<exists>i. io e = Some i \<and> io_arguments_ref i = Some (ra_params_hash a))
    \<and> map_option ic_public_key_id (actor_identity_claim (actor e)) = Some (Some (ks_key_id key))
    \<and> attributes e = [(''receipt_verified'', JBool True), (''nonce'', JStr (ra_nonce a))]
         @ opt_field ''target'' (map_option JStr (ra_target a)) @ opt_field ''transport'' (map_option JStr (ra_transport a))"
proof -
  obtain r c where "sign_receipt key a = Inr r" "ic_public_key_id c = Some (ks_key_id key)"
    "receipt_to_event ed (JDict r) agent_default = Inr (receipt_event a c)"
    by (rule signed_receipt_event [where ed = ed and key = key, OF assms])
  then show ?thesis
    by (intro exI [of _ r] exI [of _ "receipt_event a c"])
      (simp add: receipt_event_def bare_event_def bare_actor_def empty_io_ref_def receipt_extras_def)
qed

theorem signed_receipt_accepted_witness:
  "\<exists>r e. sign_receipt (echo_key\<lparr>ks_sign := \<lambda>d. 0 # d\<rparr>) sample_receipt = Inr r
    \<and> receipt_to_event (\<lambda>pub sig d. if sig = 0 # d then Valid else InvalidSignature) (JDict r) None = Inr e
    \<and> actor_agent_id (actor e) = ''bot'' \<and> timestamp e = ''2026-01-01T00:00:00Z''"
  using signed_receipt_accepted [of "\<lambda>pub sig d. if sig = 0 # d then Valid else InvalidSignature"
      "echo_key\<lparr>ks_sign := \<lambda>d. 0 # d\<rparr>" sample_receipt None]
  by (auto simp: sample_receipt_def echo_key_def)

theorem receipt_verified_first_witness:
  "\<exists>r e act sig pub sb. receipt_to_event (\<lambda>pub sig d. if sig = 0 # d then Valid else InvalidSignature) (JDict r) None = Inr e
    \<and> sign_receipt (echo_key\<lparr>ks_sign := \<lambda>d. 0 # d\<rparr>) sample_receipt = Inr r
    \<and> attr r ''action'' = JDict act \<and> receipt_signing_bytes r = Inr sb
    \<and> b64decode_value (attr r ''sig'') = Inr sig \<and> sig = 0 # sb \<and> wf_event e \<and> kind e = TOOL_CALL"
proof -
  let ?ed = "\<lambda>pub sig d. if sig = 0 # d then Valid else InvalidSignature"
  have key: "\<forall>d. ?ed (ks_public_key_raw (echo_key\<lparr>ks_sign := \<lambda>d. 0 # d\<rparr>)) (ks_sign (echo_key\<lparr>ks_sign := \<lambda>d. 0 # d\<rparr>) d) d = Valid"
    "\<forall>d. ks_sign (echo_key\<lparr>ks_sign := \<lambda>d. 0 # d\<rparr>) d \<noteq> []" "ks_public_key_raw (echo_key\<lparr>ks_sign := \<lambda>d. 0 # d\<rparr>) \<noteq> []"
    "ra_tool sample_receipt \<noteq> []" "ra_params_hash sample_receipt \<noteq> []" "ra_signer_name sample_receipt \<noteq> []"
    by (simp_all add: echo_key_def sample_receipt_def)
  obtain r c where r: "sign_receipt (echo_key\<lparr>ks_sign := \<lambda>d. 0 # d\<rparr>) sample_receipt = Inr r" "wf_dicts (JDict r)"
    "receipt_to_event ?ed (JDict r) None = Inr (receipt_event sample_receipt c)"
    by (rule signed_receipt_event [where ed = ?ed and key = "echo_key\<lparr>ks_sign := \<lambda>d. 0 # d\<rparr>", OF key])
  obtain act sig pub sb where a: "attr r ''action'' = JDict act" "b64decode_value (attr r ''sig'') = Inr sig"
    "receipt_signing_bytes r = Inr sb" "?ed pub sig sb = Valid"
    "wf_event (receipt_event sample_receipt c)" "kind (receipt_event sample_receipt c) = TOOL_CALL"
    using receipt_verified_first [OF r(2,3)] by auto
  then have "sig = 0 # sb" by (simp split: if_splits)
  with r a show ?thesis by blast
qed

end
