(* ===== verification/Collector.thy ===== *)
theory Collector imports Pipeline Authz begin

text \<open>
  The collector: \<open>ingest/otlp_common.py\<close>, \<open>ingest/fanout.py\<close>, \<open>ingest/http_server.py\<close> and
  \<open>ingest/grpc_server.py\<close> of \<open>src/src/openwright\<close>.  The OTLP messages are datatypes with the
  fields of the protobuf definitions; the decoding of their bytes is the library's and is the
  argument \<open>decode\<close>.  The downstream backend is an argument, a state and its answer to a POST; the
  mock backend is one.  So is the pipeline, a state and its \<open>submit\<close>, which may raise; the collector of the
  commands has \<open>pipeline_submit\<close>.
\<close>

section \<open>OTLP to spans\<close>

datatype any_value =
    Unset
  | StringValue string
  | BoolValue bool
  | IntValue int
  | DoubleValue string
  | BytesValue bytes
  | ArrayValue "any_value list"
  | KvlistValue "(string \<times> any_value) list"

text \<open>A dictionary display: a later value of a key replaces an earlier one.\<close>

definition dict_of :: "(string \<times> json) list \<Rightarrow> dict" where
  "dict_of kvs = foldl (\<lambda>d (k, v). dput k v d) [] kvs"

fun anyvalue_to_py :: "any_value \<Rightarrow> json" where
  "anyvalue_to_py Unset = JNull"
| "anyvalue_to_py (StringValue s) = JStr s"
| "anyvalue_to_py (BoolValue b) = JBool b"
| "anyvalue_to_py (IntValue i) = JInt i"
| "anyvalue_to_py (DoubleValue r) = JFloat r"
| "anyvalue_to_py (BytesValue b) = JStr (hex b)"
| "anyvalue_to_py (ArrayValue vs) = JList (map anyvalue_to_py vs)"
| "anyvalue_to_py (KvlistValue kvs) = JDict (dict_of (map (\<lambda>kv. (fst kv, anyvalue_to_py (snd kv))) kvs))"

definition attributes_to_dict :: "(string \<times> any_value) list \<Rightarrow> dict" where
  "attributes_to_dict kv_list = dict_of (map (\<lambda>kv. (fst kv, anyvalue_to_py (snd kv))) kv_list)"

record otlp_span =
  os_name :: string
  os_attributes :: "(string \<times> any_value) list"
  os_trace_id :: bytes
  os_span_id :: bytes
  os_parent_span_id :: bytes
  os_start_time_unix_nano :: nat
  os_status_code :: "int option"

record resource_spans =
  rs_resource :: "(string \<times> any_value) list option"
  rs_scope_spans :: "otlp_span list list"

type_synonym otlp_request = "resource_spans list"

definition hex_or_none :: "bytes \<Rightarrow> string option" where
  "hex_or_none b = (if hex b = [] then None else Some (hex b))"

definition otlp_to_span :: "dict \<Rightarrow> otlp_span \<Rightarrow> span_data" where
  "otlp_to_span resource sp =
     \<lparr>span_name = os_name sp, span_attributes = attributes_to_dict (os_attributes sp),
      span_resource = resource, span_trace_id = hex_or_none (os_trace_id sp),
      span_span_id = hex_or_none (os_span_id sp), span_parent_span_id = hex_or_none (os_parent_span_id sp),
      span_start_time_unix_nano =
        (if os_start_time_unix_nano sp = 0 then None else Some (int (os_start_time_unix_nano sp))),
      span_status = map_option str_of_int (os_status_code sp)\<rparr>"

definition request_to_spans :: "otlp_request \<Rightarrow> span_data list" where
  "request_to_spans req =
     concat (map (\<lambda>rs.
       let resource = (case rs_resource rs of None \<Rightarrow> [] | Some kvs \<Rightarrow> attributes_to_dict kvs)
       in map (otlp_to_span resource) (concat (rs_scope_spans rs))) req)"

section \<open>Fan-out\<close>

text \<open>What a POST to the downstream backend comes to, redirects followed.\<close>

datatype downstream_outcome = Answer int bytes | Unreachable

type_synonym 'd downstream = "bytes \<Rightarrow> string \<Rightarrow> 'd \<Rightarrow> downstream_outcome \<times> 'd"

text \<open>\<open>urlopen\<close> raises \<open>HTTPError\<close>, an \<open>OSError\<close>, for a status that is not 2xx.\<close>

definition forward :: "'d downstream \<Rightarrow> bytes \<Rightarrow> string \<Rightarrow> 'd \<Rightarrow> (int \<times> bytes) result \<times> 'd" where
  "forward down body content_type d = (case down body content_type d of
     (Answer status resp, d') \<Rightarrow> (if 200 \<le> status \<and> status < 300 then Inr (status, resp) else Inl OSError, d')
   | (Unreachable, d') \<Rightarrow> (Inl OSError, d'))"

definition maybe_forward :: "'d downstream option \<Rightarrow> bytes \<Rightarrow> string \<Rightarrow> 'd \<Rightarrow> (int \<times> bytes) \<times> 'd" where
  "maybe_forward forwarder body content_type d = (case forwarder of
     None \<Rightarrow> ((200, []), d)
   | Some down \<Rightarrow> (case forward down body content_type d of
       (Inr answer, d') \<Rightarrow> (answer, d')
     | (Inl e, d') \<Rightarrow> ((502, []), d')))"

section \<open>The receivers\<close>

text \<open>The readings of the outside each submitted span meets.\<close>

type_synonym submit_env = "nat \<Rightarrow> nat option \<times> bool \<times> string"

definition pipeline_submit :: "pipe_config \<Rightarrow> submit_env \<Rightarrow> span_data list \<Rightarrow> 'b pipe \<Rightarrow> unit result \<times> 'b pipe" where
  "pipeline_submit cfg env spans p = (Inr (),
     submit cfg (map (\<lambda>(i, sp). (sp, fst (env i), fst (snd (env i)), snd (snd (env i)))) (enumerate 0 spans)) p)"

text \<open>The \<open>try\<close> block: the bytes are parsed and the spans submitted.  Both may raise, the submission
  after it changed the pipeline.\<close>

definition fork_evidence ::
  "(bytes \<Rightarrow> otlp_request result) \<Rightarrow> (span_data list \<Rightarrow> 'p \<Rightarrow> unit result \<times> 'p) \<Rightarrow> bytes \<Rightarrow> 'p \<Rightarrow> unit result \<times> 'p"
where
  "fork_evidence decode offer body p = (case decode body of
     Inl e \<Rightarrow> (Inl e, p)
   | Inr req \<Rightarrow> offer (request_to_spans req) p)"

record http_request =
  rq_path :: string
  rq_authorization :: "string option"
  rq_content_type :: "string option"
  rq_body :: bytes

text \<open>The server's attributes; \<open>co_submit\<close> is the \<open>submit\<close> of its pipeline.\<close>

record ('p, 'd) collector =
  co_submit :: "submit_env \<Rightarrow> span_data list \<Rightarrow> 'p \<Rightarrow> unit result \<times> 'p"
  co_forwarder :: "'d downstream option"
  co_authority :: "token_authority option"
  co_decode :: "bytes \<Rightarrow> otlp_request result"

text \<open>The reply: status and body.  An exception of the evidence fork is logged and goes no further.
  The empty response message is serialised to no bytes.\<close>

definition do_POST ::
  "('p, 'd) collector \<Rightarrow> submit_env \<Rightarrow> http_request \<Rightarrow> 'p \<times> 'd \<Rightarrow> (int \<times> bytes option) \<times> 'p \<times> 'd"
where
  "do_POST co env rq s =
     (if strip_slashes (rq_path rq) \<noteq> ''/v1/traces'' then ((404, None), s)
      else if (case co_authority co of
             None \<Rightarrow> False
           | Some auth \<Rightarrow> \<not> authorize_bearer auth (rq_authorization rq) WRITE_EVIDENCE)
      then ((401, None), s)
      else
        let body = rq_body rq;
            p = (case fork_evidence (co_decode co) (co_submit co env) body (fst s) of
                   (Inr _, p) \<Rightarrow> p
                 | (Inl e, p) \<Rightarrow> p);
            ((status, resp), d) = maybe_forward (co_forwarder co) body
              (or_else (rq_content_type rq) ''application/x-protobuf'') (snd s)
        in ((status, Some (if co_forwarder co = None then [] else resp)), p, d))"

text \<open>The gRPC method: the request comes decoded, the answer is always the empty response.\<close>

definition grpc_export ::
  "(span_data list \<Rightarrow> 'p \<Rightarrow> unit result \<times> 'p) \<Rightarrow> otlp_request \<Rightarrow> 'p \<Rightarrow> 'p"
where
  "grpc_export offer req p = (case offer (request_to_spans req) p of
     (Inr _, p') \<Rightarrow> p'
   | (Inl e, p') \<Rightarrow> p')"

section \<open>The mock backend\<close>

record mock_backend =
  mb_request_count :: nat
  mb_span_count :: nat
  mb_received_bodies :: "bytes list"

definition mock_post :: "(bytes \<Rightarrow> otlp_request result) \<Rightarrow> mock_backend downstream" where
  "mock_post decode body content_type mb =
     (Answer 200 [],
      mb\<lparr>mb_request_count := mb_request_count mb + 1,
         mb_received_bodies := mb_received_bodies mb @ [body],
         mb_span_count := mb_span_count mb + (case decode body of
           Inl e \<Rightarrow> 0
         | Inr req \<Rightarrow> sum_list (map (\<lambda>rs. sum_list (map length (rs_scope_spans rs))) req))\<rparr>)"

end
