(* ===== verification/Collector_Properties.thy ===== *)
theory Collector_Properties imports Collector Sdk_Properties begin

text \<open>
  What the collector replies and forwards does not depend on its evidence part, which may be any
  and may raise; and the evidence is every span of every accepted request.
\<close>

section \<open>The telemetry path\<close>

definition admitted :: "('p, 'd) collector \<Rightarrow> http_request \<Rightarrow> bool" where
  "admitted co rq \<longleftrightarrow> strip_slashes (rq_path rq) = ''/v1/traces''
     \<and> (\<forall>auth. co_authority co = Some auth \<longrightarrow> authorize_bearer auth (rq_authorization rq) WRITE_EVIDENCE)"

text \<open>The telemetry half of \<open>do_POST\<close>, of which the submission is no argument.\<close>

definition refusal :: "http_request \<Rightarrow> int" where
  "refusal rq = (if strip_slashes (rq_path rq) \<noteq> ''/v1/traces'' then 404 else 401)"

definition content_type :: "http_request \<Rightarrow> string" where
  "content_type rq = or_else (rq_content_type rq) ''application/x-protobuf''"

fun reply_for :: "downstream_outcome \<Rightarrow> int \<times> bytes option" where
  "reply_for (Answer status resp) = (if 200 \<le> status \<and> status < 300 then (status, Some resp) else (502, Some []))"
| "reply_for Unreachable = (502, Some [])"

definition proxy :: "('p, 'd) collector \<Rightarrow> http_request \<Rightarrow> 'd \<Rightarrow> (int \<times> bytes option) \<times> 'd" where
  "proxy co rq d =
     (if \<not> admitted co rq then ((refusal rq, None), d)
      else case co_forwarder co of
        None \<Rightarrow> ((200, Some []), d)
      | Some down \<Rightarrow> (case down (rq_body rq) (content_type rq) d of (r, d') \<Rightarrow> (reply_for r, d')))"

lemma do_POST_parts:
  "fst (do_POST co env rq (p, d)) = fst (proxy co rq d)"
  "snd (snd (do_POST co env rq (p, d))) = snd (proxy co rq d)"
  "fst (snd (do_POST co env rq (p, d))) =
     (if admitted co rq then snd (fork_evidence (co_decode co) (co_submit co env) (rq_body rq) p) else p)"
proof -
  obtain x p' where f: "fork_evidence (co_decode co) (co_submit co env) (rq_body rq) p = (x, p')" by fastforce
  then have q: "(case fork_evidence (co_decode co) (co_submit co env) (rq_body rq) p of
      (Inr _, p) \<Rightarrow> p | (Inl e, p) \<Rightarrow> p) = p'" by (cases x) simp_all
  have "fst (do_POST co env rq (p, d)) = fst (proxy co rq d) \<and> snd (snd (do_POST co env rq (p, d))) = snd (proxy co rq d)
    \<and> fst (snd (do_POST co env rq (p, d))) = (if admitted co rq then p' else p)"
  proof (cases "co_forwarder co")
    case None
    with q show ?thesis
      by (cases "co_authority co")
        (simp_all add: do_POST_def proxy_def admitted_def refusal_def maybe_forward_def Let_def)
  next
    case (Some down)
    obtain r d' where r: "down (rq_body rq) (or_else (rq_content_type rq) ''application/x-protobuf'') d = (r, d')"
      by fastforce
    with q show ?thesis
      by (cases r; cases "co_authority co")
        (simp_all add: do_POST_def proxy_def admitted_def refusal_def content_type_def maybe_forward_def
          forward_def Let_def Some)
  qed
  with f show "fst (do_POST co env rq (p, d)) = fst (proxy co rq d)"
    "snd (snd (do_POST co env rq (p, d))) = snd (proxy co rq d)"
    "fst (snd (do_POST co env rq (p, d))) =
     (if admitted co rq then snd (fork_evidence (co_decode co) (co_submit co env) (rq_body rq) p) else p)" by simp_all
qed

text \<open>A session: requests one after the other.\<close>

fun serve :: "('p, 'd) collector \<Rightarrow> (submit_env \<times> http_request) list \<Rightarrow> 'p \<times> 'd \<Rightarrow> (int \<times> bytes option) list \<times> 'p \<times> 'd" where
  "serve co [] s = ([], s)"
| "serve co ((env, rq) # rqs) s =
     (let (reply, s') = do_POST co env rq s; (replies, s'') = serve co rqs s' in (reply # replies, s''))"

fun relay :: "('p, 'd) collector \<Rightarrow> http_request list \<Rightarrow> 'd \<Rightarrow> (int \<times> bytes option) list \<times> 'd" where
  "relay co [] d = ([], d)"
| "relay co (rq # rqs) d =
     (let (reply, d') = proxy co rq d; (replies, d'') = relay co rqs d' in (reply # replies, d''))"

fun gathered :: "('p, 'd) collector \<Rightarrow> (submit_env \<times> http_request) list \<Rightarrow> 'p \<Rightarrow> 'p" where
  "gathered co [] p = p"
| "gathered co ((env, rq) # rqs) p = gathered co rqs
     (if admitted co rq then snd (fork_evidence (co_decode co) (co_submit co env) (rq_body rq) p) else p)"

lemma serve_splits:
  "serve co rqs (p, d) = (fst (relay co (map snd rqs) d), gathered co rqs p, snd (relay co (map snd rqs) d))"
proof (induction rqs arbitrary: p d)
  case (Cons x rqs)
  obtain env rq where x: "x = (env, rq)" by fastforce
  obtain reply p' d' where r: "do_POST co env rq (p, d) = (reply, p', d')" by (metis prod_cases3)
  with do_POST_parts [of co env rq p d] Cons.IH [of p' d'] show ?case
    by (simp add: x split_beta Let_def)
qed simp

lemma relay_same:
  assumes "co_forwarder co' = co_forwarder co" "co_authority co' = co_authority co"
  shows "relay co' rqs d = relay co rqs d"
proof (induction rqs arbitrary: d)
  case (Cons rq rqs)
  have "admitted co' rq = admitted co rq" using assms by (simp add: admitted_def)
  then have "proxy co' rq d = proxy co rq d" using assms by (simp add: proxy_def)
  with Cons.IH show ?case by simp
qed simp

text \<open>What the backend is sent for a list of requests, and what it answers.\<close>

fun posted :: "'d downstream \<Rightarrow> http_request list \<Rightarrow> 'd \<Rightarrow> downstream_outcome list \<times> 'd" where
  "posted down [] d = ([], d)"
| "posted down (rq # rqs) d =
     (let (r, d') = down (rq_body rq) (content_type rq) d; (rs, d'') = posted down rqs d' in (r # rs, d''))"

lemma relay_posted:
  assumes "co_forwarder co = Some down"
  shows "snd (relay co rqs d) = snd (posted down (filter (admitted co) rqs) d)
    \<and> map snd (filter (\<lambda>(rq, _). admitted co rq) (zip rqs (fst (relay co rqs d))))
        = map reply_for (fst (posted down (filter (admitted co) rqs) d))"
  by (induction rqs arbitrary: d) (auto simp: proxy_def assms split_beta Let_def)

lemma relay_refused: "list_all (\<lambda>(rq, reply). admitted co rq \<or> reply = (refusal rq, None)) (zip rqs (fst (relay co rqs d)))"
  by (induction rqs arbitrary: d) (auto simp: proxy_def split_beta Let_def)

lemma relay_length [simp]: "length (fst (relay co rqs d)) = length rqs"
  by (induction rqs arbitrary: d) (auto simp: split_beta Let_def)

text \<open> C25. Telemetry is unaffected by evidence.  Take two collectors with the same forwarder and token
  authority, and otherwise any decoder, any pipeline of any type and any \<open>submit\<close> of it, which may
  raise on every call: given the same requests they send the same replies and leave the backend
  in the same state, even when each decoding and each submission raises in one of them.  The backend
  is sent the body and the content type of every admitted request, once and in order; what the
  client of an admitted request gets is what the backend answered where that is 2xx, and 502
  otherwise; every other request is answered 404 or 401.  Requests are served one after the other, and
  a \<open>submit\<close> returns or raises: one that never comes back is not modelled (the pipeline's only
  puts into its queue without waiting, or appends to the spill file).\<close>

theorem telemetry_unaffected:
  assumes "co_forwarder co = Some down" "co_forwarder co' = Some down" "co_authority co' = co_authority co"
    and "map snd rqs' = map snd rqs"
  shows "fst (serve co' rqs' (p', d)) = fst (serve co rqs (p, d))
    \<and> snd (snd (serve co' rqs' (p', d))) = snd (snd (serve co rqs (p, d)))
    \<and> snd (snd (serve co rqs (p, d))) = snd (posted down (filter (admitted co) (map snd rqs)) d)
    \<and> length (fst (serve co rqs (p, d))) = length rqs
    \<and> map snd (filter (\<lambda>(rq, _). admitted co rq) (zip (map snd rqs) (fst (serve co rqs (p, d)))))
        = map reply_for (fst (posted down (filter (admitted co) (map snd rqs)) d))
    \<and> list_all (\<lambda>(rq, reply). admitted co rq \<or> reply = (refusal rq, None))
        (zip (map snd rqs) (fst (serve co rqs (p, d))))"
  using relay_same [of co' co "map snd rqs" d] relay_posted [OF assms(1), of "map snd rqs" d]
    relay_refused [of co "map snd rqs" d] assms
  by (simp add: serve_splits)

text \<open>A collector whose evidence always fails, beside one that has a pipeline.\<close>

definition broken_collector :: "(nat, mock_backend) collector" where
  "broken_collector = \<lparr>co_submit = (\<lambda>_ _ n. (Inl RuntimeError, Suc n)), co_forwarder = Some (mock_post (\<lambda>_. Inl ValueError)),
     co_authority = None, co_decode = (\<lambda>_. Inr [])\<rparr>"

definition sound_collector :: "pipe_config \<Rightarrow> (string pipe, mock_backend) collector" where
  "sound_collector cfg = \<lparr>co_submit = pipeline_submit cfg, co_forwarder = Some (mock_post (\<lambda>_. Inl ValueError)),
     co_authority = None, co_decode = (\<lambda>_. Inr [])\<rparr>"

definition request_to :: "string \<Rightarrow> bytes \<Rightarrow> http_request" where
  "request_to path body = \<lparr>rq_path = path, rq_authorization = None, rq_content_type = None, rq_body = body\<rparr>"

definition sample_session :: "submit_env \<Rightarrow> (submit_env \<times> http_request) list" where
  "sample_session env = [(env, request_to ''/v1/traces/'' [1, 2]), (env, request_to ''/health'' []),
     (env, request_to ''/v1/traces'' [3])]"

definition empty_backend :: mock_backend where
  "empty_backend = \<lparr>mb_request_count = 0, mb_span_count = 0, mb_received_bodies = []\<rparr>"

lemma sample_admitted:
  "filter (admitted broken_collector) (map snd (sample_session env))
    = [request_to ''/v1/traces/'' [1, 2], request_to ''/v1/traces'' [3]]"
proof -
  have "strip_slashes ''/v1/traces/'' = ''/v1/traces''" "strip_slashes ''/v1/traces'' = ''/v1/traces''"
    "strip_slashes ''/health'' \<noteq> ''/v1/traces''" by code_simp+
  then show ?thesis by (simp add: sample_session_def request_to_def admitted_def broken_collector_def)
qed

theorem telemetry_unaffected_witness:
  "\<forall>env cfg (p :: string pipe).
    fst (serve (sound_collector cfg) (sample_session env) (p, empty_backend))
      = fst (serve broken_collector (sample_session env) (0, empty_backend))
    \<and> mb_received_bodies (snd (snd (serve (sound_collector cfg) (sample_session env) (p, empty_backend)))) = [[1, 2], [3]]
    \<and> mb_received_bodies (snd (snd (serve broken_collector (sample_session env) (0, empty_backend)))) = [[1, 2], [3]]"
proof (intro allI)
  fix env and cfg and p :: "string pipe"
  let ?down = "mock_post (\<lambda>_. Inl ValueError)"
  have "co_forwarder broken_collector = Some ?down" "co_forwarder (sound_collector cfg) = Some ?down"
    "co_authority (sound_collector cfg) = co_authority broken_collector"
    by (simp_all add: broken_collector_def sound_collector_def)
  from telemetry_unaffected [OF this, where rqs = "sample_session env" and rqs' = "sample_session env" and p' = p and p = 0
      and d = empty_backend]
  show "fst (serve (sound_collector cfg) (sample_session env) (p, empty_backend))
      = fst (serve broken_collector (sample_session env) (0, empty_backend))
    \<and> mb_received_bodies (snd (snd (serve (sound_collector cfg) (sample_session env) (p, empty_backend)))) = [[1, 2], [3]]
    \<and> mb_received_bodies (snd (snd (serve broken_collector (sample_session env) (0, empty_backend)))) = [[1, 2], [3]]"
    unfolding sample_admitted by (simp add: mock_post_def empty_backend_def request_to_def)
qed

text \<open>The mock backend receives the bodies of the admitted requests, unchanged and in order.\<close>

lemma mock_session:
  assumes "co_forwarder co = Some (mock_post decode)"
  shows "mb_received_bodies (snd (relay co rqs mb)) = mb_received_bodies mb @ map rq_body (filter (admitted co) rqs)
    \<and> mb_request_count (snd (relay co rqs mb)) = mb_request_count mb + length (filter (admitted co) rqs)
    \<and> filter (\<lambda>r. fst r = 200) (fst (relay co rqs mb)) = replicate (length (filter (admitted co) rqs)) (200, Some [])"
proof (induction rqs arbitrary: mb)
  case (Cons rq rqs)
  show ?case
  proof (cases "admitted co rq")
    case True
    then have "proxy co rq mb = ((200, Some []), snd (mock_post decode (rq_body rq) ''x'' mb))"
      using assms by (simp add: proxy_def mock_post_def)
    with Cons.IH [of "snd (mock_post decode (rq_body rq) ''x'' mb)"] True show ?thesis
      by (simp add: split_beta Let_def) (simp add: mock_post_def)
  next
    case False
    then have "proxy co rq mb = ((refusal rq, None), mb)" "refusal rq \<noteq> 200"
      by (simp_all add: proxy_def refusal_def)
    with Cons.IH [of mb] False show ?thesis by (simp add: split_beta Let_def)
  qed
qed simp

section \<open>The evidence\<close>

definition spans_in :: "('p, 'd) collector \<Rightarrow> http_request \<Rightarrow> span_data list" where
  "spans_in co rq = (if admitted co rq then
     (case co_decode co (rq_body rq) of Inl e \<Rightarrow> [] | Inr req \<Rightarrow> request_to_spans req) else [])"

lemma fork_is_submit:
  "\<exists>xs. snd (fork_evidence decode (pipeline_submit cfg env) body p) = submit cfg xs p
    \<and> map fst xs = (case decode body of Inl e \<Rightarrow> [] | Inr req \<Rightarrow> request_to_spans req)"
proof (cases "decode body")
  case (Inl e)
  then show ?thesis by (intro exI [of _ "[]"]) (simp add: fork_evidence_def submit_def)
next
  case (Inr req)
  have "map fst (map (\<lambda>(i, sp). (sp, f i)) (enumerate n ys)) = ys" for f :: "nat \<Rightarrow> 'x" and n and ys :: "'y list"
    by (induction ys arbitrary: n) simp_all
  from this [of env 0 "request_to_spans req"] show ?thesis
    using Inr
    by (intro exI [of _ "map (\<lambda>(i, sp). (sp, env i)) (enumerate 0 (request_to_spans req))"]) (simp add: fork_evidence_def pipeline_submit_def)
qed

lemma dict_of_lookup:
  "map_of (dict_of kvs) k = map_of (rev kvs) k" "distinct (map fst (dict_of kvs))"
  by (induction kvs rule: rev_induct) (auto simp: dict_of_def dput_def update_conv' distinct_update)

text \<open> The evidence of a session is exactly the spans of its admitted, decodable requests: each is
  offered to the pipeline once and in order, and carries for every attribute key the last value
  the message gives it.\<close>

theorem session_evidence:
  assumes "co_submit co = pipeline_submit cfg"
  shows "(\<exists>xs. fst (snd (serve co rqs (p, d))) = submit cfg xs p
     \<and> map fst xs = concat (map (spans_in co) (map snd rqs)))
   \<and> map_of (attributes_to_dict kvs) k = map_option anyvalue_to_py (map_of (rev kvs) k)
   \<and> distinct (map fst (attributes_to_dict kvs))"
proof -
  have "\<exists>xs. gathered co rqs p = submit cfg xs p \<and> map fst xs = concat (map (spans_in co) (map snd rqs))"
  proof (induction rqs arbitrary: p)
    case Nil
    show ?case by (intro exI [of _ "[]"]) (simp add: submit_def)
  next
    case (Cons x rqs)
    obtain env rq where x: "x = (env, rq)" by fastforce
    obtain xs where xs: "(if admitted co rq then snd (fork_evidence (co_decode co) (co_submit co env) (rq_body rq) p) else p)
        = submit cfg xs p" "map fst xs = spans_in co rq"
    proof (cases "admitted co rq")
      case True
      then show ?thesis using that fork_is_submit [of "co_decode co" cfg env "rq_body rq" p]
        by (auto simp: spans_in_def assms)
    next
      case False
      then show ?thesis using that [of "[]"] by (simp add: submit_def spans_in_def)
    qed
    obtain ys where ys: "gathered co rqs (submit cfg xs p) = submit cfg ys (submit cfg xs p)"
      "map fst ys = concat (map (spans_in co) (map snd rqs))"
      using Cons.IH by blast
    show ?case
      using xs ys by (intro exI [of _ "xs @ ys"]) (simp add: x submit_def)
  qed
  moreover have "map_of (rev (map (\<lambda>kv. (fst kv, anyvalue_to_py (snd kv))) kvs)) k = map_option anyvalue_to_py (map_of (rev kvs) k)"
    by (induction kvs rule: rev_induct) (auto simp: map_add_def split: option.split)
  ultimately show ?thesis
    unfolding serve_splits attributes_to_dict_def using dict_of_lookup by simp
qed

text \<open>An answer of the backend that is not 2xx does not reach the client: it becomes 502.\<close>

lemma downstream_error_masked:
  assumes "admitted co rq" "co_forwarder co = Some down"
    "down (rq_body rq) (content_type rq) d = (Answer status resp, d')" "status < 200 \<or> 300 \<le> status"
  shows "fst (do_POST co env rq (p, d)) = (502, Some [])"
  using assms by (auto simp: do_POST_parts proxy_def)

end
