(* ===== verification/Report_Export.thy ===== *)
theory Report_Export imports Verify Py_Repr begin

text \<open>
  The OSCAL and SARIF exports of \<open>src/src/openwright/report.py\<close>, on the JSON report.  Fresh
  identifiers are an argument, the \<open>n\<close>-th call of \<open>uuid4\<close> being \<open>fresh n\<close>; \<open>up\<close> is the
  printability of code points that \<open>str\<close> of a value depends on.
\<close>

section \<open>OSCAL\<close>

definition OSCAL_STATE :: "string \<Rightarrow> (string \<times> string) option" where
  "OSCAL_STATE status =
     (if status = ''satisfied'' then Some (''satisfied'', ''pass'')
      else if status = ''not_satisfied'' then Some (''not-satisfied'', ''fail'')
      else if status = ''insufficient_evidence'' then Some (''not-satisfied'', ''other'')
      else None)"

definition oscal_state :: "json \<Rightarrow> (string \<times> string) result" where
  "oscal_state status =
     (if \<not> hashable status then Inl TypeError
      else case status of
        JStr s \<Rightarrow> (case OSCAL_STATE s of Some p \<Rightarrow> Inr p | None \<Rightarrow> Inl KeyError)
      | _ \<Rightarrow> Inl KeyError)"

definition OSCAL_NS :: string where
  "OSCAL_NS = ''https://github.com/allthingsN/openwright/ns''"

definition joined :: "(nat \<Rightarrow> bool) \<Rightarrow> json \<Rightarrow> json \<Rightarrow> json" where
  "joined up a b = JStr (py_str up a @ '': '' @ py_str up b)"

text \<open>The observation and the finding of one control.\<close>

definition oscal_control ::
  "(nat \<Rightarrow> bool) \<Rightarrow> (nat \<Rightarrow> string) \<Rightarrow> json \<Rightarrow> nat \<Rightarrow> json \<Rightarrow> (json \<times> json) result"
where
  "oscal_control up fresh now i c =
     sbind (item_at c ''title'') (\<lambda>title.
     sbind (item_at c ''reason'') (\<lambda>why.
     sbind (item_at c ''status'') (\<lambda>status.
     sbind (oscal_state status) (\<lambda>(state, reason).
     sbind (item_at c ''requirement'') (\<lambda>requirement.
     sbind (item_at c ''control_id'') (\<lambda>cid.
       Inr
        (JDict [(''uuid'', JStr (fresh (2 * i))), (''description'', joined up title why),
           (''methods'', JList [JStr ''TEST'']), (''collected'', now)],
         JDict [(''uuid'', JStr (fresh (2 * i + 1))), (''title'', title), (''description'', requirement),
           (''props'', JList [JDict [(''name'', JStr ''openwright-status''), (''value'', status),
              (''ns'', JStr OSCAL_NS)]]),
           (''target'', JDict [(''type'', JStr ''objective-id''), (''target-id'', cid),
              (''status'', JDict [(''state'', JStr state), (''reason'', JStr reason)])]),
           (''related-observations'', JList [JDict [(''observation-uuid'', JStr (fresh (2 * i)))]])])))))))"

definition oscal_document ::
  "(nat \<Rightarrow> string) \<Rightarrow> json \<Rightarrow> string \<Rightarrow> json \<Rightarrow> json \<Rightarrow> json \<Rightarrow> (json \<times> json) list \<Rightarrow> json"
where
  "oscal_document fresh now title report_id description start pairs =
     (let n = 2 * length pairs in
      JDict [(''assessment-results'', JDict
        [(''uuid'', JStr (fresh n)),
         (''metadata'', JDict
            [(''title'', JStr (''OpenWright evidence '' @ [CHR 0xE2, CHR 0x80, CHR 0x94] @ '' '' @ title)),
             (''last-modified'', now), (''version'', report_id), (''oscal-version'', JStr ''1.1.3''),
             (''remarks'', JStr BOUNDARY_STATEMENT)]),
         (''import-ap'', JDict [(''href'', JStr ''#openwright-evidence'')]),
         (''results'', JList [JDict
            [(''uuid'', JStr (fresh (n + 1))), (''title'', JStr ''Runtime control evidence''),
             (''description'', description), (''start'', start),
             (''reviewed-controls'', JDict [(''control-selections'', JList [JDict [(''include-all'', JDict [])]])]),
             (''observations'', JList (map fst pairs)),
             (''risks'', JList [JDict
                [(''uuid'', JStr (fresh (n + 2))), (''title'', JStr ''Control gaps''),
                 (''description'', JStr ''Controls not satisfied or with insufficient evidence.''),
                 (''statement'', JStr BOUNDARY_STATEMENT), (''status'', JStr ''open'')]]),
             (''findings'', JList (map snd pairs))]])])])"

definition to_oscal :: "(nat \<Rightarrow> bool) \<Rightarrow> (nat \<Rightarrow> string) \<Rightarrow> json \<Rightarrow> json result" where
  "to_oscal up fresh report =
     sbind (item_at report ''generated_at'') (\<lambda>now.
     sbind (item_at report ''controls'') (\<lambda>v.
     sbind (iterate v) (\<lambda>cs.
     sbind (map_result (\<lambda>(i, c). oscal_control up fresh now i c) (enumerate 0 cs)) (\<lambda>pairs.
     sbind (item_at report ''crosswalk'') (\<lambda>cw.
     sbind (item_at cw ''title'') (\<lambda>title.
     sbind (item_at report ''report_id'') (\<lambda>report_id.
     sbind (item_at report ''scope'') (\<lambda>sc.
     sbind (item_at sc ''description'') (\<lambda>description.
     sbind (call_get report ''period'' (JDict [])) (\<lambda>period.
     sbind (call_get period ''start'' now) (\<lambda>start.
       Inr (oscal_document fresh now (py_str up title) report_id description start pairs))))))))))))"

section \<open>SARIF\<close>

definition SARIF_SCHEMA :: string where
  "SARIF_SCHEMA = ''https://docs.oasis-open.org/sarif/sarif/v2.1.0/errata01/os/schemas/sarif-schema-2.1.0.json''"

definition sarif_level :: "json \<Rightarrow> string result" where
  "sarif_level status =
     (if \<not> hashable status then Inl TypeError
      else Inr (if status = JStr ''not_satisfied'' then ''error'' else ''warning''))"

text \<open>The first code points of a text.\<close>

fun take_points :: "nat \<Rightarrow> string \<Rightarrow> string" where
  "take_points n [] = []"
| "take_points n (c # s) =
     (if (0x80 :: nat) \<le> of_char c \<and> of_char c < (0xC0 :: nat) then c # take_points n s
      else case n of 0 \<Rightarrow> [] | Suc m \<Rightarrow> c # take_points m s)"

definition first_items :: "nat \<Rightarrow> json \<Rightarrow> json result" where
  "first_items n v = (case v of
     JStr s \<Rightarrow> Inr (JStr (take_points n s))
   | JList vs \<Rightarrow> Inr (JList (take n vs))
   | _ \<Rightarrow> Inl TypeError)"

text \<open>The rule and the result of one control, none when it is satisfied.\<close>

definition sarif_control :: "(nat \<Rightarrow> bool) \<Rightarrow> json \<Rightarrow> (json \<times> json) list result" where
  "sarif_control up c =
     sbind (item_at c ''status'') (\<lambda>status.
     if status = JStr ''satisfied'' then Inr []
     else
       sbind (item_at c ''control_id'') (\<lambda>cid.
       sbind (item_at c ''title'') (\<lambda>title.
       sbind (item_at c ''requirement'') (\<lambda>requirement.
       sbind (first_items 300 requirement) (\<lambda>short.
       sbind (call_get c ''citation'' JNull) (\<lambda>citation.
       sbind (call_get (or_empty citation) ''url'' JNull) (\<lambda>url.
       sbind (sarif_level status) (\<lambda>level.
       sbind (item_at c ''reason'') (\<lambda>why.
         Inr
          [(JDict [(''id'', cid), (''name'', title), (''shortDescription'', JDict [(''text'', short)]),
              (''helpUri'', url)],
            JDict [(''ruleId'', cid), (''level'', JStr level),
              (''message'', JDict [(''text'', joined up status why)]),
              (''locations'', JList [JDict [(''logicalLocations'',
                 JList [JDict [(''name'', cid), (''kind'', JStr ''control'')]])]])])]))))))))) "

definition sarif_document :: "(json \<times> json) list \<Rightarrow> json" where
  "sarif_document pairs =
     JDict [(''$schema'', JStr SARIF_SCHEMA), (''version'', JStr ''2.1.0''),
       (''runs'', JList [JDict
          [(''tool'', JDict [(''driver'', JDict
             [(''name'', JStr ''openwright''), (''version'', JStr OPENWRIGHT_VERSION),
              (''informationUri'', JStr ''https://github.com/allthingsN/openwright''),
              (''fullDescription'', JDict [(''text'', JStr BOUNDARY_STATEMENT)]),
              (''rules'', JList (map fst pairs))])]),
           (''results'', JList (map snd pairs)),
           (''properties'', JDict [(''openwright_boundary_statement'', JStr BOUNDARY_STATEMENT)])]])]"

definition to_sarif :: "(nat \<Rightarrow> bool) \<Rightarrow> json \<Rightarrow> json result" where
  "to_sarif up report =
     sbind (item_at report ''controls'') (\<lambda>v.
     sbind (iterate v) (\<lambda>cs.
     sbind (map_result (sarif_control up) cs) (\<lambda>pairs.
       Inr (sarif_document (concat pairs)))))"

section \<open>The exports of a built report\<close>

lemma built_report:
  assumes "build_report ops pem key cr a led = (Inr report, led')"
  obtains cp es items where "sign_report key (report_body pem key cr a cp es items) = Inr report"
  using assms by (auto simp: build_report_def Let_def sbind_Inr_conv split: sum.splits prod.splits)

lemma built_items:
  assumes "sign_report key body = Inr report" "dget body k = Some v"
  shows "item_at (JDict report) k = Inr v"
  using assms by (auto simp: sign_report_def sbind_Inr_conv item_at_def dget_def map_of_append map_add_def)

definition control_observation :: "(nat \<Rightarrow> string) \<Rightarrow> json \<Rightarrow> nat \<Rightarrow> control_result \<Rightarrow> json" where
  "control_observation fresh now i c = JDict [(''uuid'', JStr (fresh (2 * i))),
     (''description'', JStr (cr_title c @ '': '' @ cr_reason c)), (''methods'', JList [JStr ''TEST'']),
     (''collected'', now)]"

definition control_finding :: "(nat \<Rightarrow> string) \<Rightarrow> nat \<Rightarrow> control_result \<Rightarrow> json" where
  "control_finding fresh i c = JDict
     [(''uuid'', JStr (fresh (2 * i + 1))), (''title'', JStr (cr_title c)),
      (''description'', JStr (cr_requirement c)),
      (''props'', JList [JDict [(''name'', JStr ''openwright-status''),
         (''value'', JStr (control_status_value (cr_status c))), (''ns'', JStr OSCAL_NS)]]),
      (''target'', JDict [(''type'', JStr ''objective-id''), (''target-id'', JStr (cr_control_id c)),
         (''status'', JDict
            [(''state'', JStr (if cr_status c = SATISFIED then ''satisfied'' else ''not-satisfied'')),
             (''reason'', JStr (case cr_status c of SATISFIED \<Rightarrow> ''pass'' | NOT_SATISFIED \<Rightarrow> ''fail''
                | INSUFFICIENT_EVIDENCE \<Rightarrow> ''other''))])]),
      (''related-observations'', JList [JDict [(''observation-uuid'', JStr (fresh (2 * i)))]])]"

lemma item_dump [simp]:
  "item_at (dump_control_result c) ''title'' = Inr (JStr (cr_title c))"
  "item_at (dump_control_result c) ''reason'' = Inr (JStr (cr_reason c))"
  "item_at (dump_control_result c) ''status'' = Inr (JStr (control_status_value (cr_status c)))"
  "item_at (dump_control_result c) ''requirement'' = Inr (JStr (cr_requirement c))"
  "item_at (dump_control_result c) ''control_id'' = Inr (JStr (cr_control_id c))"
  "call_get (dump_control_result c) ''citation'' JNull = Inr (JDict (dump_citation (cr_citation c)))"
  by (simp_all add: item_at_def dump_control_result_def call_get_def dget_or_def)

lemma oscal_control_dump:
  "oscal_control up fresh now i (dump_control_result c)
     = Inr (control_observation fresh now i c, control_finding fresh i c)"
  by (cases "cr_status c")
    (simp_all add: oscal_control_def oscal_state_def OSCAL_STATE_def hashable_def joined_def
      control_observation_def control_finding_def)

lemma oscal_controls_dump:
  "map_result (\<lambda>(i, c). oscal_control up fresh now i c) (enumerate n (map dump_control_result cs))
     = Inr (map (\<lambda>(i, c). (control_observation fresh now i c, control_finding fresh i c)) (enumerate n cs))"
  by (induction cs arbitrary: n) (simp_all add: oscal_control_dump)

definition control_rule :: "control_result \<Rightarrow> json" where
  "control_rule c = JDict [(''id'', JStr (cr_control_id c)), (''name'', JStr (cr_title c)),
     (''shortDescription'', JDict [(''text'', JStr (take_points 300 (cr_requirement c)))]),
     (''helpUri'', attr (dump_citation (cr_citation c)) ''url'')]"

definition control_gap :: "control_result \<Rightarrow> json" where
  "control_gap c = JDict [(''ruleId'', JStr (cr_control_id c)),
     (''level'', JStr (if cr_status c = NOT_SATISFIED then ''error'' else ''warning'')),
     (''message'', JDict [(''text'', JStr (control_status_value (cr_status c) @ '': '' @ cr_reason c))]),
     (''locations'', JList [JDict [(''logicalLocations'',
        JList [JDict [(''name'', JStr (cr_control_id c)), (''kind'', JStr ''control'')]])]])]"

lemma dump_citation_truthy: "or_empty (JDict (dump_citation c)) = JDict (dump_citation c)"
  by (simp add: or_empty_def truthy_def dump_citation_def)

lemma citation_url:
  "call_get (or_empty (JDict (dump_citation c))) ''url'' JNull = Inr (attr (dump_citation c) ''url'')"
  by (simp add: dump_citation_truthy call_get_def)

lemma sarif_control_dump:
  "sarif_control up (dump_control_result c)
     = Inr (if cr_status c = SATISFIED then [] else [(control_rule c, control_gap c)])"
  by (cases "cr_status c")
    (simp_all add: sarif_control_def first_items_def citation_url sarif_level_def
      hashable_def control_rule_def control_gap_def joined_def)

lemma sarif_controls_dump:
  "\<exists>pairs. map_result (sarif_control up) (map dump_control_result cs) = Inr pairs
     \<and> concat pairs = map (\<lambda>c. (control_rule c, control_gap c)) (filter (\<lambda>c. cr_status c \<noteq> SATISFIED) cs)"
  by (induction cs) (auto simp: sarif_control_dump)

end
