(* ===== verification/Cli.thy ===== *)
theory Cli imports Report_Export Ledger_Properties begin

text \<open>
  The commands \<open>verify\<close>, \<open>gate\<close> and \<open>report\<close> of \<open>src/src/openwright/cli.py\<close> and
  \<open>verify_report_file\<close>: functions from the texts of the files they read to an exit code and the
  texts they write.  An exception that leaves a command is the left value (the process then exits
  with code 1); what is printed to the console is not modelled.
\<close>

section \<open>Verification of a file\<close>

definition verify_report_file ::
  "ed_check \<Rightarrow> (string \<Rightarrow> bytes result) \<Rightarrow> (string \<Rightarrow> crosswalk result option) \<Rightarrow> string \<Rightarrow>
    string option \<Rightarrow> bool \<Rightarrow> crosswalk option \<Rightarrow> verification result"
where
  "verify_report_file ed unpem builtins text pem_text deep cw =
     sbind (loads text) (\<lambda>report.
     sbind (case pem_text of None \<Rightarrow> Inr None | Some t \<Rightarrow> sbind (unpem t) (\<lambda>k. Inr (Some k))) (\<lambda>trusted.
       case report of
         JDict d \<Rightarrow> verify_report ed unpem builtins d trusted deep cw
       | _ \<Rightarrow> Inl AttributeError))"

definition verify_command ::
  "ed_check \<Rightarrow> (string \<Rightarrow> bytes result) \<Rightarrow> (string \<Rightarrow> crosswalk result option) \<Rightarrow> string \<Rightarrow>
    string option \<Rightarrow> bool \<Rightarrow> int result"
where
  "verify_command ed unpem builtins text pubkey deep =
     sbind (verify_report_file ed unpem builtins text pubkey deep None) (\<lambda>res.
       Inr (if vr_valid res then 0 else 1))"

section \<open>The gate\<close>

text \<open>A dictionary whose keys are values read from JSON: equal keys share an entry, which keeps the
  key that came first.\<close>

definition value_put :: "json \<Rightarrow> json \<Rightarrow> (json \<times> json) list \<Rightarrow> (json \<times> json) list" where
  "value_put k v d =
     (if list_ex (\<lambda>kv. py_eq (fst kv) k) d
      then map (\<lambda>kv. if py_eq (fst kv) k then (fst kv, v) else kv) d
      else d @ [(k, v)])"

definition value_get :: "(json \<times> json) list \<Rightarrow> json \<Rightarrow> json" where
  "value_get d k = (case find (\<lambda>kv. py_eq (fst kv) k) d of Some kv \<Rightarrow> snd kv | None \<Rightarrow> JNull)"

fun control_statuses :: "json list \<Rightarrow> (json \<times> json) list \<Rightarrow> (json \<times> json) list result" where
  "control_statuses [] d = Inr d"
| "control_statuses (c # cs) d =
     sbind (item_at c ''control_id'') (\<lambda>cid.
     sbind (item_at c ''status'') (\<lambda>status.
     if \<not> hashable cid then Inl TypeError else control_statuses cs (value_put cid status d)))"

text \<open>The required controls that are not satisfied; all reported controls when none are named.\<close>

definition gate_failures :: "string list \<Rightarrow> (json \<times> json) list \<Rightarrow> json list" where
  "gate_failures require statuses =
     (if require \<noteq> []
      then filter (\<lambda>cid. value_get statuses cid \<noteq> JStr ''satisfied'') (map JStr require)
      else map fst (filter (\<lambda>kv. snd kv \<noteq> JStr ''satisfied'') statuses))"

record gate_outcome =
  go_code :: int
  go_sarif :: "string option"

text \<open>The file is read twice: once for the statuses, once by the verifier.\<close>

definition gate ::
  "(nat \<Rightarrow> bool) \<Rightarrow> ed_check \<Rightarrow> (string \<Rightarrow> bytes result) \<Rightarrow> (string \<Rightarrow> crosswalk result option) \<Rightarrow>
    string \<Rightarrow> string \<Rightarrow> string list \<Rightarrow> string option \<Rightarrow> bool \<Rightarrow> bool \<Rightarrow> gate_outcome result"
where
  "gate up ed unpem builtins text text_again require pubkey sarif_out deep =
     sbind (loads text) (\<lambda>data.
     sbind (verify_report_file ed unpem builtins text_again pubkey deep None) (\<lambda>res.
     if \<not> vr_valid res then Inr \<lparr>go_code = 2, go_sarif = None\<rparr>
     else
       sbind (item_at data ''controls'') (\<lambda>v.
       sbind (iterate v) (\<lambda>cs.
       sbind (control_statuses cs []) (\<lambda>statuses.
       sbind (if sarif_out then sbind (to_sarif up data) (\<lambda>doc. Inr (Some (dumps_in (indented 2) 0 doc)))
              else Inr None) (\<lambda>sarif.
         Inr \<lparr>go_code = (if gate_failures require statuses \<noteq> [] then 1 else 0), go_sarif = sarif\<rparr>))))))"

section \<open>The report command\<close>

record report_files =
  rf_report :: string
  rf_oscal :: string
  rf_sarif :: string

definition find_crosswalk ::
  "(string \<Rightarrow> crosswalk result option) \<Rightarrow> (string \<Rightarrow> crosswalk result) \<Rightarrow> string \<Rightarrow> crosswalk result"
where
  "find_crosswalk builtins from_file name = (case builtins name of Some r \<Rightarrow> r | None \<Rightarrow> from_file name)"

definition report_command ::
  "(nat \<Rightarrow> bool) \<Rightarrow> (nat \<Rightarrow> string) \<Rightarrow> (bytes \<Rightarrow> string) \<Rightarrow> (string \<Rightarrow> crosswalk result option) \<Rightarrow>
    (string \<Rightarrow> crosswalk result) \<Rightarrow> string \<Rightarrow> key_source result \<Rightarrow> string \<Rightarrow> string \<Rightarrow> string \<Rightarrow> string \<Rightarrow> string \<Rightarrow>
    report_files result"
where
  "report_command up fresh_id pem builtins from_file ledger_data key crosswalk scope uuid clock now =
     sbind (find_crosswalk builtins from_file crosswalk) (\<lambda>cw.
     sbind (open_ledger file_ops (open_file_backend ledger_data) ''openwright/ledger'' None) (\<lambda>led.
     sbind key (\<lambda>key.
     sbind (events file_ops led) (\<lambda>es.
     sbind (evaluate cw es) (\<lambda>result.
     sbind (fst (build_report file_ops pem key result
       \<lparr>ra_scope_description = scope, ra_agent_ids = None, ra_period = None, ra_checkpoint = None,
        ra_report_id = None, ra_generated_at = None, ra_authorize = None, ra_uuid = uuid,
        ra_clock = clock, ra_now = now\<rparr>
       led)) (\<lambda>rep.
     sbind (to_oscal up fresh_id (JDict rep)) (\<lambda>oscal.
     sbind (to_sarif up (JDict rep)) (\<lambda>sarif.
       Inr \<lparr>rf_report = dumps_in (indented 2) 0 (JDict rep), rf_oscal = dumps_in (indented 2) 0 oscal,
            rf_sarif = dumps_in (indented 2) 0 sarif\<rparr>))))))))"

end
