(* ===== verification/Cli_Properties.thy ===== *)
theory Cli_Properties imports Cli Verify_Properties Scheduler begin

text \<open>
  The exports say what the report says, the gate passes only on verified evidence, and the commands
  fit together: what \<open>report\<close> writes, \<open>gate\<close> accepts and judges as the ledger says.
\<close>

section \<open>Exports\<close>

lemma built_exports:
  assumes "build_report ops pem key cr a led = (Inr report, led')"
  shows "\<exists>now title report_id description start. to_oscal up fresh_id (JDict report)
      = Inr (oscal_document fresh_id now title report_id description start
          (map (\<lambda>(i, c). (control_observation fresh_id now i c, control_finding fresh_id i c))
            (enumerate 0 (res_controls cr))))
    \<and> to_sarif up (JDict report)
      = Inr (sarif_document (map (\<lambda>c. (control_rule c, control_gap c))
          (filter (\<lambda>c. cr_status c \<noteq> SATISFIED) (res_controls cr))))"
proof -
  obtain cp es items where r: "sign_report key (report_body pem key cr a cp es items) = Inr report"
    by (rule built_report [OF assms])
  note at = built_items [OF r]
  have parts: "\<exists>now. item_at (JDict report) ''generated_at'' = Inr now"
    "item_at (JDict report) ''controls'' = Inr (JList (map dump_control_result (res_controls cr)))"
    "item_at (JDict report) ''crosswalk'' = Inr (JDict
         [(''id'', JStr (res_crosswalk_id cr)), (''title'', JStr (res_crosswalk_title cr)),
          (''version'', JStr (res_crosswalk_version cr)),
          (''content_hash'', json_opt (res_crosswalk_content_hash cr)),
          (''source'', JStr (res_source cr)), (''reviewed_as_of'', JStr (res_reviewed_as_of cr)),
          (''disclaimer'', json_opt (res_disclaimer cr))])"
    "\<exists>v. item_at (JDict report) ''report_id'' = Inr v"
    "\<exists>s ids. item_at (JDict report) ''scope'' = Inr (JDict [(''description'', JStr s), (''agent_ids'', ids)])"
    "item_at (JDict report) ''period'' = Inr (JDict (report_period (ra_period a) es))"
    by (auto intro!: at exI simp: report_body_def dget_def)
  obtain pairs where sarif: "map_result (sarif_control up) (map dump_control_result (res_controls cr)) = Inr pairs"
    "concat pairs = map (\<lambda>c. (control_rule c, control_gap c)) (filter (\<lambda>c. cr_status c \<noteq> SATISFIED) (res_controls cr))"
    using sarif_controls_dump by blast
  have period: "call_get (JDict report) ''period'' (JDict []) = Inr (JDict (report_period (ra_period a) es))"
    using parts(6) by (auto simp: call_get_def item_at_def dget_or_def split: option.splits)
  have start: "\<exists>s. call_get (JDict (report_period (ra_period a) es)) ''start'' now = Inr s" for now
    by (simp add: call_get_def)
  from parts(1,4,5) start obtain now rid s ids st where
    "item_at (JDict report) ''generated_at'' = Inr now" "item_at (JDict report) ''report_id'' = Inr rid"
    "item_at (JDict report) ''scope'' = Inr (JDict [(''description'', JStr s), (''agent_ids'', ids)])"
    "call_get (JDict (report_period (ra_period a) es)) ''start'' now = Inr st" by metis
  note facts = this parts(2,3) period
  have oscal: "to_oscal up fresh_id (JDict report) = Inr (oscal_document fresh_id now (res_crosswalk_title cr) rid (JStr s) st
      (map (\<lambda>(i, c). (control_observation fresh_id now i c, control_finding fresh_id i c))
            (enumerate 0 (res_controls cr))))"
    unfolding to_oscal_def facts sbind.simps iterate_def pyv.case oscal_controls_dump
    by (simp add: item_at_def)
  have "to_sarif up (JDict report) = Inr (sarif_document (map (\<lambda>c. (control_rule c, control_gap c))
          (filter (\<lambda>c. cr_status c \<noteq> SATISFIED) (res_controls cr))))"
    unfolding to_sarif_def facts sbind.simps iterate_def pyv.case sarif by simp
  with oscal show ?thesis by blast
qed

text \<open>How a consumer reaches into a document: by member name and position.\<close>

datatype json_step = Member string | Element nat

fun look :: "json_step list \<Rightarrow> json \<Rightarrow> json option" where
  "look [] v = Some v"
| "look (Member k # steps) (JDict d) = Option.bind (map_of d k) (look steps)"
| "look (Element i # steps) (JList vs) = (if i < length vs then look steps (vs ! i) else None)"
| "look (x # steps) v = None"

definition items_under :: "json_step list \<Rightarrow> json \<Rightarrow> json list" where
  "items_under steps v = (case look steps v of Some (JList vs) \<Rightarrow> vs | _ \<Rightarrow> [])"

definition oscal_part :: "string \<Rightarrow> json \<Rightarrow> json list" where
  "oscal_part k = items_under [Member ''assessment-results'', Member ''results'', Element 0, Member k]"

lemma map_enumerated:
  "map (\<lambda>x. f (snd x)) (enumerate n cs) = map f cs"
  "map (\<lambda>x. g (fst x)) (enumerate n cs) = map g [n..<n + length cs]"
  using map_map [of f snd "enumerate n cs"] map_map [of g fst "enumerate n cs"] by (simp_all add: comp_def)

lemma distinct_uuids:
  assumes "inj fresh_id"
  shows "distinct (map (\<lambda>i. fresh_id (2 * i)) ns @ map (\<lambda>i. fresh_id (Suc (2 * i))) ns) \<longleftrightarrow> distinct ns"
proof -
  have odd: "2 * i \<noteq> Suc (2 * j)" for i j :: nat by presburger
  have "inj_on (\<lambda>i. fresh_id (2 * i)) A" "inj_on (\<lambda>i. fresh_id (Suc (2 * i))) A" for A
    by (auto intro!: inj_onI dest: injD [OF assms])
  then show ?thesis using odd by (auto simp: distinct_map dest: injD [OF assms])
qed

lemma oscal_reads:
  fixes fresh_id now title report_id description start and cs :: "control_result list"
  defines "oscal \<equiv> oscal_document fresh_id now title report_id description start
        (map (\<lambda>(i, c). (control_observation fresh_id now i c, control_finding fresh_id i c)) (enumerate 0 cs))"
  shows "oscal_part ''findings'' oscal = map (\<lambda>x. control_finding fresh_id (fst x) (snd x)) (enumerate 0 cs)"
    "oscal_part ''observations'' oscal = map (\<lambda>x. control_observation fresh_id now (fst x) (snd x)) (enumerate 0 cs)"
    "map (look [Member ''statement'']) (oscal_part ''risks'' oscal) = [Some (JStr BOUNDARY_STATEMENT)]"
    "look [Member ''assessment-results'', Member ''metadata'', Member ''remarks''] oscal = Some (JStr BOUNDARY_STATEMENT)"
  by (simp_all add: oscal_part_def items_under_def oscal_def oscal_document_def Let_def comp_def split_beta)

lemma sarif_reads:
  fixes cs :: "control_result list"
  defines "sarif \<equiv> sarif_document (map (\<lambda>c. (control_rule c, control_gap c)) cs)"
  shows "items_under [Member ''runs'', Element 0, Member ''results''] sarif = map control_gap cs"
    "items_under [Member ''runs'', Element 0, Member ''tool'', Member ''driver'', Member ''rules''] sarif = map control_rule cs"
    "look [Member ''runs'', Element 0, Member ''tool'', Member ''driver'', Member ''fullDescription'', Member ''text''] sarif
        = Some (JStr BOUNDARY_STATEMENT)"
    "look [Member ''runs'', Element 0, Member ''properties'', Member ''openwright_boundary_statement''] sarif
        = Some (JStr BOUNDARY_STATEMENT)"
  by (simp_all add: items_under_def sarif_def sarif_document_def comp_def)

lemma finding_reads:
  "look [Member ''target'', Member ''target-id''] (control_finding fresh_id i c) = Some (JStr (cr_control_id c))"
  "look [Member ''props'', Element 0, Member ''name''] (control_finding fresh_id i c) = Some (JStr ''openwright-status'')"
  "look [Member ''props'', Element 0, Member ''value''] (control_finding fresh_id i c)
     = Some (JStr (control_status_value (cr_status c)))"
  "(look [Member ''target'', Member ''status'', Member ''state''] (control_finding fresh_id i c),
     look [Member ''target'', Member ''status'', Member ''reason''] (control_finding fresh_id i c))
     = (case cr_status c of
            SATISFIED \<Rightarrow> (Some (JStr ''satisfied''), Some (JStr ''pass''))
          | NOT_SATISFIED \<Rightarrow> (Some (JStr ''not-satisfied''), Some (JStr ''fail''))
          | INSUFFICIENT_EVIDENCE \<Rightarrow> (Some (JStr ''not-satisfied''), Some (JStr ''other'')))"
  "look [Member ''uuid''] (control_finding fresh_id i c) = Some (JStr (fresh_id (Suc (2 * i))))"
  "look [Member ''related-observations'', Element 0, Member ''observation-uuid''] (control_finding fresh_id i c)
     = Some (JStr (fresh_id (2 * i)))"
  "look [Member ''uuid''] (control_observation fresh_id now i c) = Some (JStr (fresh_id (2 * i)))"
  "look [Member ''description''] (control_observation fresh_id now i c) = Some (JStr (cr_title c @ '': '' @ cr_reason c))"
  by (cases "cr_status c"; simp add: control_finding_def control_observation_def)+

lemma gap_reads:
  "look [Member ''ruleId''] (control_gap c) = Some (JStr (cr_control_id c))"
  "look [Member ''level''] (control_gap c) = Some (JStr (if cr_status c = NOT_SATISFIED then ''error'' else ''warning''))"
  "look [Member ''message'', Member ''text''] (control_gap c)
     = Some (JStr (control_status_value (cr_status c) @ '': '' @ cr_reason c))"
  "look [Member ''id''] (control_rule c) = Some (JStr (cr_control_id c))"
  by (simp_all add: control_gap_def control_rule_def)

text \<open> C36. The exports keep the verdicts, as a consumer of the two formats reads them.  The findings of
  the OSCAL document of a built report are the controls of the report, in order: the id, the exact
  three-valued status in the \<open>openwright-status\<close> property, and the two-valued state of the standard with
  the reason that tells the two kinds of not satisfied apart; each refers to the observation at its
  position, whose text is the title and the reason, and no two share an identifier.  The results of
  the SARIF document are the controls that are not satisfied, in order, an error exactly for those
  with counter-evidence, each with a rule; satisfied controls are left out.  The metadata and the risk
  of the one, the driver and the run of the other carry the boundary statement of the report.\<close>

theorem exports_keep_verdicts:
  assumes "build_report ops pem key cr a led = (Inr report, led')"
  shows "\<exists>oscal sarif. to_oscal up fresh_id (JDict report) = Inr oscal \<and> to_sarif up (JDict report) = Inr sarif
    \<and> map (\<lambda>f. (look [Member ''target'', Member ''target-id''] f, look [Member ''props'', Element 0, Member ''name''] f,
          look [Member ''props'', Element 0, Member ''value''] f)) (oscal_part ''findings'' oscal)
        = map (\<lambda>c. (Some (JStr (cr_control_id c)), Some (JStr ''openwright-status''),
          Some (JStr (control_status_value (cr_status c))))) (res_controls cr)
    \<and> map (\<lambda>f. (look [Member ''target'', Member ''status'', Member ''state''] f,
          look [Member ''target'', Member ''status'', Member ''reason''] f)) (oscal_part ''findings'' oscal)
        = map (\<lambda>c. case cr_status c of
            SATISFIED \<Rightarrow> (Some (JStr ''satisfied''), Some (JStr ''pass''))
          | NOT_SATISFIED \<Rightarrow> (Some (JStr ''not-satisfied''), Some (JStr ''fail''))
          | INSUFFICIENT_EVIDENCE \<Rightarrow> (Some (JStr ''not-satisfied''), Some (JStr ''other''))) (res_controls cr)
    \<and> map (look [Member ''description'']) (oscal_part ''observations'' oscal)
        = map (\<lambda>c. Some (JStr (cr_title c @ '': '' @ cr_reason c))) (res_controls cr)
    \<and> map (look [Member ''related-observations'', Element 0, Member ''observation-uuid'']) (oscal_part ''findings'' oscal)
        = map (look [Member ''uuid'']) (oscal_part ''observations'' oscal)
    \<and> (inj fresh_id \<longrightarrow>
        distinct (map (look [Member ''uuid'']) (oscal_part ''observations'' oscal @ oscal_part ''findings'' oscal)))
    \<and> map (\<lambda>r. (look [Member ''ruleId''] r, look [Member ''level''] r, look [Member ''message'', Member ''text''] r))
          (items_under [Member ''runs'', Element 0, Member ''results''] sarif)
        = map (\<lambda>c. (Some (JStr (cr_control_id c)), Some (JStr (if cr_status c = NOT_SATISFIED then ''error'' else ''warning'')),
            Some (JStr (control_status_value (cr_status c) @ '': '' @ cr_reason c))))
          (filter (\<lambda>c. cr_status c \<noteq> SATISFIED) (res_controls cr))
    \<and> map (look [Member ''id'']) (items_under [Member ''runs'', Element 0, Member ''tool'', Member ''driver'', Member ''rules''] sarif)
        = map (look [Member ''ruleId'']) (items_under [Member ''runs'', Element 0, Member ''results''] sarif)
    \<and> look [Member ''boundary_statement''] (JDict report) = Some (JStr BOUNDARY_STATEMENT)
    \<and> look [Member ''assessment-results'', Member ''metadata'', Member ''remarks''] oscal = Some (JStr BOUNDARY_STATEMENT)
    \<and> map (look [Member ''statement'']) (oscal_part ''risks'' oscal) = [Some (JStr BOUNDARY_STATEMENT)]
    \<and> look [Member ''runs'', Element 0, Member ''tool'', Member ''driver'', Member ''fullDescription'', Member ''text''] sarif
        = Some (JStr BOUNDARY_STATEMENT)
    \<and> look [Member ''runs'', Element 0, Member ''properties'', Member ''openwright_boundary_statement''] sarif
        = Some (JStr BOUNDARY_STATEMENT)"
proof -
  let ?cs = "res_controls cr"
  obtain now title report_id description start where docs:
    "to_oscal up fresh_id (JDict report) = Inr (oscal_document fresh_id now title report_id description start
        (map (\<lambda>(i, c). (control_observation fresh_id now i c, control_finding fresh_id i c)) (enumerate 0 ?cs)))"
    "to_sarif up (JDict report) = Inr (sarif_document (map (\<lambda>c. (control_rule c, control_gap c))
        (filter (\<lambda>c. cr_status c \<noteq> SATISFIED) ?cs)))"
    using built_exports [OF assms, of up fresh_id] by blast
  obtain cp es items where r: "sign_report key (report_body pem key cr a cp es items) = Inr report"
    by (rule built_report [OF assms])
  have boundary: "look [Member ''boundary_statement''] (JDict report) = Some (JStr BOUNDARY_STATEMENT)"
    using built_items [OF r, of "''boundary_statement''"]
    by (auto simp: report_body_def dget_def item_at_def split: option.splits)
  note reads = oscal_reads [of fresh_id now title report_id description start ?cs] finding_reads
    sarif_reads [of "filter (\<lambda>c. cr_status c \<noteq> SATISFIED) ?cs"] gap_reads
  let ?oscal = "oscal_document fresh_id now title report_id description start
        (map (\<lambda>(i, c). (control_observation fresh_id now i c, control_finding fresh_id i c)) (enumerate 0 ?cs))"
  let ?ids = "map (\<lambda>i. fresh_id (2 * i)) [0..<length ?cs] @ map (\<lambda>i. fresh_id (Suc (2 * i))) [0..<length ?cs]"
  have ids: "map (look [Member ''uuid'']) (oscal_part ''observations'' ?oscal @ oscal_part ''findings'' ?oscal)
      = map (\<lambda>s. Some (JStr s)) ?ids"
    using map_enumerated(2) [of "\<lambda>i. Some (JStr (fresh_id (2 * i)))" 0 ?cs]
      map_enumerated(2) [of "\<lambda>i. Some (JStr (fresh_id (Suc (2 * i))))" 0 ?cs]
    by (simp add: reads comp_def del: look.simps)
  have "distinct ?ids" if "inj fresh_id" unfolding distinct_uuids [OF that] by simp
  then have ids_distinct: "inj fresh_id \<longrightarrow> distinct (map (look [Member ''uuid'']) (oscal_part ''observations'' ?oscal @ oscal_part ''findings'' ?oscal))"
    unfolding ids by (simp only: distinct_map) (simp add: inj_on_def)
  have over: "map f ?cs = map (\<lambda>x. f (snd x)) (enumerate 0 ?cs)" for f :: "control_result \<Rightarrow> 'z"
    by (rule map_enumerated(1) [symmetric])
  show ?thesis
    unfolding docs
    by (rule exI [where x = ?oscal], rule exI [where x = "sarif_document (map (\<lambda>c. (control_rule c, control_gap c))
        (filter (\<lambda>c. cr_status c \<noteq> SATISFIED) ?cs))"], intro conjI)
      (rule ids_distinct | simp only: reads map_map comp_def over boundary)+
qed

section \<open>The gate\<close>

text \<open>What the statuses say when every control carries the status \<open>f\<close> has for it.\<close>

definition agrees :: "(string \<Rightarrow> control_status option) \<Rightarrow> json \<Rightarrow> json \<Rightarrow> bool" where
  "agrees f cid status \<longleftrightarrow>
     (\<exists>i st. cid = JStr i \<and> f i = Some st \<and> status = JStr (control_status_value st))"

lemma satisfied_value [simp]: "control_status_value st = ''satisfied'' \<longleftrightarrow> st = SATISFIED"
  by (cases st) simp_all

lemma agrees_satisfied: "agrees f cid (JStr ''satisfied'') \<Longrightarrow> \<exists>i. cid = JStr i \<and> f i = Some SATISFIED"
  unfolding agrees_def using satisfied_value by (metis pyv.inject(4))

lemma value_put_agrees:
  assumes "\<forall>kv \<in> set d. agrees f (fst kv) (snd kv)" "agrees f cid status"
  shows "\<forall>kv \<in> set (value_put cid status d). agrees f (fst kv) (snd kv)"
proof
  obtain i st where c: "cid = JStr i" "f i = Some st" "status = JStr (control_status_value st)"
    using assms(2) by (auto simp: agrees_def)
  have "fst kv = JStr i" if "kv \<in> set d" "py_eq (fst kv) cid" for kv
    using assms(1) that c(1) by (auto simp: agrees_def)
  then show "kv \<in> set (value_put cid status d) \<Longrightarrow> agrees f (fst kv) (snd kv)" for kv
    using assms c by (auto simp: value_put_def agrees_def split: if_splits)
qed

lemma value_put_keys:
  assumes "\<forall>kv \<in> set d. \<exists>j. fst kv = JStr j"
  shows "fst ` set (value_put (JStr i) status d) = fst ` set d \<union> {JStr i}"
proof -
  have "map fst (map (\<lambda>kv. if py_eq (fst kv) (JStr i) then (fst kv, status) else kv) d) = map fst d"
    by simp
  then have keep: "fst ` set (map (\<lambda>kv. if py_eq (fst kv) (JStr i) then (fst kv, status) else kv) d) = fst ` set d"
    by (metis list.set_map)
  have "py_eq (fst kv) (JStr i) \<longleftrightarrow> fst kv = JStr i" if "kv \<in> set d" for kv
    using assms that by fastforce
  then have "list_ex (\<lambda>kv. py_eq (fst kv) (JStr i)) d \<longleftrightarrow> JStr i \<in> fst ` set d"
    by (force simp: list_ex_iff)
  with keep show ?thesis unfolding value_put_def
    by (cases "list_ex (\<lambda>kv. py_eq (fst kv) (JStr i)) d") (simp_all only: if_True if_False, auto)
qed

definition reports_status :: "(string \<Rightarrow> control_status option) \<Rightarrow> json \<Rightarrow> bool" where
  "reports_status f c \<longleftrightarrow> (\<exists>cid status. call_get c ''control_id'' JNull = Inr cid
     \<and> call_get c ''status'' JNull = Inr status \<and> agrees f cid status)"

lemma item_call: "item_at c k = Inr v \<Longrightarrow> call_get c k dflt = Inr v"
  by (auto simp: item_at_def call_get_def dget_or_def split: pyv.splits option.splits)

lemma control_statuses_agree:
  assumes "control_statuses cs d = Inr d'" "\<forall>kv \<in> set d. agrees f (fst kv) (snd kv)"
    and "\<forall>c \<in> set cs. reports_status f c"
  shows "(\<forall>kv \<in> set d'. agrees f (fst kv) (snd kv))
    \<and> fst ` set d' = fst ` set d \<union> {cid. \<exists>c \<in> set cs. call_get c ''control_id'' JNull = Inr cid}"
  using assms
proof (induction cs arbitrary: d)
  case (Cons c cs)
  then obtain cid status where at: "item_at c ''control_id'' = Inr cid" "item_at c ''status'' = Inr status"
    "control_statuses cs (value_put cid status d) = Inr d'"
    by (auto simp: sbind_Inr_conv split: if_splits)
  from Cons.prems(3) item_call [OF at(1)] item_call [OF at(2)] have c: "agrees f cid status"
    by (auto simp: reports_status_def)
  obtain i where i: "cid = JStr i" using c by (auto simp: agrees_def)
  have "\<forall>kv \<in> set d. \<exists>j. fst kv = JStr j" using Cons.prems(2) by (auto simp: agrees_def)
  then have "fst ` set (value_put cid status d) = fst ` set d \<union> {cid}"
    using value_put_keys i by blast
  with Cons.IH [OF at(3) value_put_agrees [OF Cons.prems(2) c]] Cons.prems(3) item_call [OF at(1)] show ?case
    by auto
qed simp

lemma no_failures:
  assumes "gate_failures require d = []" "\<forall>kv \<in> set d. agrees f (fst kv) (snd kv)"
  shows "\<forall>cid \<in> set require. f cid = Some SATISFIED"
    "require = [] \<Longrightarrow> JStr i \<in> fst ` set d \<Longrightarrow> f i = Some SATISFIED"
proof -
  show "\<forall>cid \<in> set require. f cid = Some SATISFIED"
  proof
    fix cid assume cid: "cid \<in> set require"
    then have "value_get d (JStr cid) = JStr ''satisfied''"
      using assms(1) by (auto simp: gate_failures_def filter_empty_conv split: if_splits)
    then obtain kv where kv: "find (\<lambda>kv. py_eq (fst kv) (JStr cid)) d = Some kv" "snd kv = JStr ''satisfied''"
      by (auto simp: value_get_def split: option.splits)
    then have "kv \<in> set d" "py_eq (fst kv) (JStr cid)" by (auto simp: find_Some_iff)
    with assms(2) kv(2) agrees_satisfied [of f "fst kv"] show "f cid = Some SATISFIED" by fastforce
  qed
  show "f i = Some SATISFIED" if "require = []" "JStr i \<in> fst ` set d"
    using assms that agrees_satisfied [of f "JStr i"] by (fastforce simp: gate_failures_def filter_empty_conv)
qed

lemma mismatches_report:
  "verdict_mismatches sts cs = Inr [] \<Longrightarrow> \<forall>c \<in> set cs. reports_status (map_of (rev sts)) c"
  by (induction cs)
    (auto simp: sbind_Inr_conv reports_status_def agrees_def split: if_splits option.splits pyv.splits)

text \<open>A deep verification that passes, with the crosswalk found by the verifier itself.\<close>

lemma deep_verified:
  assumes "verify_report ed unpem builtins report (Some pub) True None = Inr res" "vr_valid res"
  shows "signed_report ed pub report \<and> (\<exists>name cw h es cr cs. builtins name = Some (Inr cw)
    \<and> crosswalk_content_hash cw = Inr h
    \<and> call_get (or_empty (dget_or report ''crosswalk'' JNull)) ''content_hash'' JNull = Inr (JStr h)
    \<and> sbind (iterate (dget_or report ''events'' (JList []))) load_events = Inr es
    \<and> evaluate cw es = Inr cr \<and> iterate (dget_or report ''controls'' (JList [])) = Inr cs
    \<and> (\<forall>c \<in> set cs. reports_status (map_of (rev (map (\<lambda>r. (cr_control_id r, cr_status r)) (res_controls cr)))) c))"
proof -
  obtain res0 res1 where body: "verify_body ed report pub res0 = Inr (True, res1)"
    "deep_verify builtins report None res1 = Inr res"
    using assms verify_body_valid
    by (fastforce simp: verify_report_def establish_key_def Let_def sbind_Inr_conv split: if_splits)
  from deep_verify_valid [OF body(2) assms(2)] obtain ident c h items es cr cs where d: "vr_valid res1"
    "deep_crosswalk builtins None ident = Inr c" "crosswalk_content_hash c = Inr h"
    "call_get (or_empty (dget_or report ''crosswalk'' JNull)) ''content_hash'' JNull = Inr (JStr h)"
    "iterate (dget_or report ''events'' (JList [])) = Inr items" "load_events items = Inr es"
    "evaluate c es = Inr cr" "iterate (dget_or report ''controls'' (JList [])) = Inr cs"
    "verdict_mismatches (map (\<lambda>r. (cr_control_id r, cr_status r)) (res_controls cr)) cs = Inr []"
    by blast
  obtain name where "builtins name = Some (Inr c)"
    using d(2) by (auto simp: deep_crosswalk_def split: pyv.splits option.splits)
  moreover have "signed_report ed pub report" using verify_body_valid [OF body(1) d(1)] by blast
  ultimately show ?thesis using d(3-8) mismatches_report [OF d(9)] by auto
qed

lemma verified_file:
  assumes "verify_report_file ed unpem builtins text (Some pem_text) deep cw = Inr res"
  obtains pub report where "unpem pem_text = Inr pub" "loads text = Inr (JDict report)"
    "verify_report ed unpem builtins report (Some pub) deep cw = Inr res"
  using assms unfolding verify_report_file_def sbind_Inr_conv option.case
  by (elim exE conjE) (auto simp: sbind_Inr_conv split: pyv.splits)

text \<open> C10. The gate is sound: when it passes in deep mode under a trusted key, that key signed the
  report, the report pins the content of a crosswalk the verifier has, and evaluating that crosswalk
  on the events of the report finds every required control satisfied, or, when none is named, every
  control of the report.\<close>

theorem gate_sound:
  assumes "gate up ed unpem builtins text text require (Some pem_text) sarif_out True = Inr out" "go_code out = 0"
  shows "\<exists>pub report name cw h es cr sts. unpem pem_text = Inr pub \<and> loads text = Inr (JDict report)
    \<and> signed_report ed pub report \<and> builtins name = Some (Inr cw) \<and> crosswalk_content_hash cw = Inr h
    \<and> call_get (or_empty (dget_or report ''crosswalk'' JNull)) ''content_hash'' JNull = Inr (JStr h)
    \<and> sbind (iterate (dget_or report ''events'' (JList []))) load_events = Inr es
    \<and> evaluate cw es = Inr cr
    \<and> sts = map_of (rev (map (\<lambda>r. (cr_control_id r, cr_status r)) (res_controls cr)))
    \<and> (\<forall>cid \<in> set require. sts cid = Some SATISFIED)
    \<and> (require = [] \<longrightarrow> (\<exists>cs. iterate (dget_or report ''controls'' JNull) = Inr cs
        \<and> (\<forall>c \<in> set cs. \<exists>i. call_get c ''control_id'' JNull = Inr (JStr i) \<and> sts i = Some SATISFIED)))"
proof -
  obtain res where vf: "verify_report_file ed unpem builtins text (Some pem_text) True None = Inr res" "vr_valid res"
    using assms by (auto simp: gate_def sbind_Inr_conv split: if_splits)
  obtain pub report where g1: "unpem pem_text = Inr pub" "loads text = Inr (JDict report)"
    "verify_report ed unpem builtins report (Some pub) True None = Inr res"
    by (rule verified_file [OF vf(1)])
  obtain v cs d where g2: "item_at (JDict report) ''controls'' = Inr v" "iterate v = Inr cs" "control_statuses cs [] = Inr d"
    "gate_failures require d = []"
    using assms vf g1(2) by (auto simp: gate_def sbind_Inr_conv split: if_splits)
  note g = g1 vf(2) g2
  have v: "dget_or report ''controls'' k = v" for k using item_call [OF g(5)] by (simp add: call_get_def)
  from deep_verified [OF g(3,4)] obtain name cw h es cr where dv: "signed_report ed pub report"
    "builtins name = Some (Inr cw)" "crosswalk_content_hash cw = Inr h"
    "call_get (or_empty (dget_or report ''crosswalk'' JNull)) ''content_hash'' JNull = Inr (JStr h)"
    "sbind (iterate (dget_or report ''events'' (JList []))) load_events = Inr es" "evaluate cw es = Inr cr"
    and st: "\<forall>c \<in> set cs. reports_status (map_of (rev (map (\<lambda>r. (cr_control_id r, cr_status r)) (res_controls cr)))) c"
    using g(6) v by auto
  define sts where "sts = map_of (rev (map (\<lambda>r. (cr_control_id r, cr_status r)) (res_controls cr)))"
  have ag: "\<forall>kv \<in> set d. agrees sts (fst kv) (snd kv)"
    and keys: "fst ` set d = {cid. \<exists>c \<in> set cs. call_get c ''control_id'' JNull = Inr cid}"
    using control_statuses_agree [OF g(7), of sts] st by (simp_all add: sts_def)
  have all: "\<exists>i. call_get c ''control_id'' JNull = Inr (JStr i) \<and> sts i = Some SATISFIED"
    if none: "require = []" and c: "c \<in> set cs" for c
  proof -
    obtain i where "call_get c ''control_id'' JNull = Inr (JStr i)"
      using st c by (auto simp: reports_status_def agrees_def)
    moreover from this have "JStr i \<in> fst ` set d" using keys c by blast
    ultimately show ?thesis using no_failures(2) [OF g(8) ag none] by blast
  qed
  have "\<forall>cid \<in> set require. sts cid = Some SATISFIED" by (rule no_failures(1) [OF g(8) ag])
  moreover have "require = [] \<longrightarrow> (\<exists>cs. iterate (dget_or report ''controls'' JNull) = Inr cs
        \<and> (\<forall>c \<in> set cs. \<exists>i. call_get c ''control_id'' JNull = Inr (JStr i) \<and> sts i = Some SATISFIED))"
    using all g(6) v by auto
  ultimately show ?thesis
    by (intro exI [of _ pub] exI [of _ report] exI [of _ name] exI [of _ cw] exI [of _ h] exI [of _ es]
        exI [of _ cr] exI [of _ sts] conjI) (rule g(1,2) dv sts_def | assumption)+
qed

section \<open>From the ledger to the gate\<close>

lemma none_is_builtin:
  assumes "call_get (or_empty (dget_or report ''crosswalk'' JNull)) ''id'' JNull = Inr (JStr s)"
    and "builtins s = Some (Inr cw)"
  shows "verify_report ed unpem builtins report trusted deep None
    = verify_report ed unpem builtins report trusted deep (Some cw)"
proof -
  have "deep_verify builtins report None res = deep_verify builtins report (Some cw) res" for res
  proof -
    have found: "deep_crosswalk builtins None (JStr s) = Inr cw" "deep_crosswalk builtins (Some cw) (JStr s) = Inr cw"
      using assms(2) by (simp_all add: deep_crosswalk_def)
    show ?thesis unfolding deep_verify_def Let_def assms(1) sbind.simps found ..
  qed
  then have same: "deep_verify builtins report None = deep_verify builtins report (Some cw)" by blast
  show ?thesis unfolding verify_report_def same ..
qed

lemma build_default_checkpoint:
  assumes "ra_checkpoint a = None" "ledger_checkpoint key (ra_clock a) None led = Inr cp"
  shows "build_report ops pem key cr a led = build_report ops pem key cr (a\<lparr>ra_checkpoint := Some cp\<rparr>) led"
  using assms by (simp add: build_report_def report_body_def split: sum.split)

definition status_entry :: "control_result \<Rightarrow> json \<times> json" where
  "status_entry r = (JStr (cr_control_id r), JStr (control_status_value (cr_status r)))"

lemma statuses_of_dump:
  "distinct (map cr_control_id rs) \<Longrightarrow> (\<And>r kv. r \<in> set rs \<Longrightarrow> kv \<in> set d \<Longrightarrow> fst kv \<noteq> JStr (cr_control_id r)) \<Longrightarrow>
    control_statuses (map dump_control_result rs) d = Inr (d @ map status_entry rs)"
proof (induction rs arbitrary: d)
  case (Cons r rs)
  have fresh: "\<not> list_ex (\<lambda>kv. py_eq (fst kv) (JStr (cr_control_id r))) d"
    using Cons.prems(2) by (auto simp: list_ex_iff)
  have "control_statuses (map dump_control_result rs) (d @ [status_entry r])
      = Inr ((d @ [status_entry r]) @ map status_entry rs)"
    using Cons.prems by (intro Cons.IH) (auto simp: status_entry_def image_iff)
  with fresh show ?case by (simp add: hashable_def value_put_def status_entry_def)
qed simp

definition satisfied_in :: "control_result list \<Rightarrow> string \<Rightarrow> bool" where
  "satisfied_in rs cid \<longleftrightarrow> (\<exists>r \<in> set rs. cr_control_id r = cid \<and> cr_status r = SATISFIED)"

lemma value_get_statuses:
  assumes "distinct (map cr_control_id rs)"
  shows "value_get (map status_entry rs) (JStr cid) = JStr ''satisfied'' \<longleftrightarrow> satisfied_in rs cid"
  using assms
proof (induction rs)
  case (Cons r rs)
  have "satisfied_in (r # rs) cid \<longleftrightarrow> (if cr_control_id r = cid then cr_status r = SATISFIED else satisfied_in rs cid)"
    using Cons.prems by (force simp: satisfied_in_def image_iff)
  with Cons show ?case by (auto simp: value_get_def status_entry_def)
qed (simp add: value_get_def satisfied_in_def)

lemma failures_of_dump:
  assumes "distinct (map cr_control_id rs)"
  shows "gate_failures require (map status_entry rs) = []
    \<longleftrightarrow> (\<forall>cid \<in> set (if require = [] then map cr_control_id rs else require). satisfied_in rs cid)"
proof (cases "require = []")
  case True
  have "satisfied_in rs (cr_control_id r) \<longleftrightarrow> cr_status r = SATISFIED" if "r \<in> set rs" for r
    using assms that by (auto simp: satisfied_in_def distinct_map inj_on_def)
  with True show ?thesis by (auto simp: gate_failures_def filter_empty_conv status_entry_def)
qed (use assms in \<open>simp add: gate_failures_def filter_empty_conv value_get_statuses\<close>)

lemma judged_as_reported:
  assumes "verify_report ed unpem builtins report (Some pub) deep (Some cw) = Inr res" "vr_valid res"
    and "unpem pem_text = Inr pub" "fits (indented 2) (JDict report)"
    and "call_get (or_empty (dget_or report ''crosswalk'' JNull)) ''id'' JNull = Inr (JStr s)"
      "builtins s = Some (Inr cw)"
    and "item_at (JDict report) ''controls'' = Inr (JList (map dump_control_result rs))"
      "distinct (map cr_control_id rs)" "to_sarif up (JDict report) = Inr doc"
  shows "gate up ed unpem builtins (dumps_in (indented 2) 0 (JDict report)) (dumps_in (indented 2) 0 (JDict report))
      require (Some pem_text) True deep
    = Inr \<lparr>go_code = (if \<forall>cid \<in> set (if require = [] then map cr_control_id rs else require). satisfied_in rs cid
          then 0 else 1), go_sarif = Some (dumps_in (indented 2) 0 doc)\<rparr>"
proof -
  let ?text = "dumps_in (indented 2) 0 (JDict report)"
  have read: "loads ?text = Inr (JDict report)" by (rule loads_dumps_in [OF _ assms(4)]) simp
  then have "verify_report_file ed unpem builtins ?text (Some pem_text) deep None = Inr res"
    using assms(1,3) none_is_builtin [where builtins = builtins, OF assms(5,6)] by (simp add: verify_report_file_def)
  moreover have "control_statuses (map dump_control_result rs) [] = Inr (map status_entry rs)"
    using statuses_of_dump [OF assms(8), of "[]"] by simp
  ultimately show ?thesis
    using read assms(2,7,9) failures_of_dump [OF assms(8), of require]
    unfolding gate_def iterate_def by (simp del: dumps_in.simps)
qed

lemma evaluated_ids:
  assumes "log_of es hs" "evaluate cw es = Inr cr"
  shows "map cr_control_id (res_controls cr) = map ctl_id (cw_controls cw)" "res_crosswalk_id cr = cw_id cw"
proof -
  from evaluate_verdicts [OF assms] have "map fst (map (\<lambda>r. (cr_control_id r, cr_status r)) (res_controls cr))
      = map fst (map (\<lambda>c. (ctl_id c, verdict cw es c)) (cw_controls cw))" by simp
  then show "map cr_control_id (res_controls cr) = map ctl_id (cw_controls cw)" by (simp add: comp_def)
  show "res_crosswalk_id cr = cw_id cw" using assms(2) by (auto simp: evaluate_def Let_def sbind_Inr_conv)
qed

text \<open>Texts that can be written and read back: UTF-8 encodings of sequences of code points.\<close>

definition text_event :: "compliance_event \<Rightarrow> bool" where
  "text_event e \<longleftrightarrow> utf8_text (event_id e) \<and> utf8_text (timestamp e) \<and> utf8_text (actor_agent_id (actor e))
     \<and> text_json (JDict (attributes e)) \<and> text_json (JDict (model_dump e))"

definition text_result :: "crosswalk_result \<Rightarrow> bool" where
  "text_result cr \<longleftrightarrow> utf8_text (res_crosswalk_id cr) \<and> utf8_text (res_crosswalk_title cr)
     \<and> utf8_text (res_crosswalk_version cr) \<and> text_json (json_opt (res_crosswalk_content_hash cr))
     \<and> utf8_text (res_source cr) \<and> utf8_text (res_reviewed_as_of cr) \<and> text_json (json_opt (res_disclaimer cr))
     \<and> (\<forall>c \<in> set (res_controls cr). fits (indented 2) (dump_control_result c))"

lemma fits_simps:
  "fits L JNull" "fits L (JBool b)" "fits L (JInt i)" "fits L (JFloat r) \<longleftrightarrow> False"
  "utf8_text s \<Longrightarrow> fits L (JStr s)" "fits L (JList vs) \<longleftrightarrow> (\<forall>v \<in> set vs. fits L v)"
  "distinct (map fst d) \<Longrightarrow> (\<forall>kv \<in> set d. utf8_text (fst kv) \<and> fits L (snd kv)) \<Longrightarrow> fits L (JDict d)"
  by (auto simp: fits_def)

lemma fits_opt: "text_json (json_opt s) \<Longrightarrow> fits L (json_opt s)"
  by (auto simp: fits_def json_opt_def split: option.splits)

lemma fits_strs: "(\<forall>x \<in> set xs. utf8_text x) \<Longrightarrow> fits L (strs xs)"
  by (auto simp: fits_def strs_def)

lemma fits_event: "wf_event e \<Longrightarrow> text_event e \<Longrightarrow> fits L (JDict (model_dump e))"
  using event_plain [of e] by (simp only: fits_def text_event_def simp_thms)

lemma fits_attr:
  assumes "wf_event e" "text_event e"
  shows "fits L (attr (attributes e) k)"
proof -
  have "plain (JDict (attributes e))" by (rule good_plain) (use assms(1) in \<open>simp only: wf_event_def\<close>)
  then show ?thesis using assms(2)
    by (force simp: dget_or_def text_event_def fits_def split: option.split dest: map_of_SomeD)
qed

lemma sign_fits:
  assumes "sign_report key body = Inr report" "fits L (JDict body)" "''signature'' \<notin> fst ` set body"
  shows "fits L (JDict report)"
proof -
  obtain p where r: "report = body @ [(''signature'', JDict [(''algorithm'', JStr ''ed25519''),
      (''public_key_id'', JStr (ks_key_id key)), (''signature'', JStr (b64encode (ks_sign key p)))])]"
    using assms(1) by (auto simp: sign_report_def sbind_Inr_conv)
  obtain cp where "sign_checkpoint key [] 0 [] [] = Inr cp" using sign_checkpoint_total by blast
  from signed_text(1) [OF this] sign_checkpoint_fields(5) [OF this] have "utf8_text (ks_key_id key)" by simp
  moreover have "utf8_text (b64encode (ks_sign key p))" by (rule ascii_text) (simp add: ascii_def b64encode_ascii)
  ultimately show ?thesis using assms(2,3) unfolding r by (auto simp: fits_def)
qed

lemma fits_gaps:
  assumes "\<forall>e \<in> set es. wf_event e \<and> text_event e"
  shows "fits L (JList (evidence_gaps es))"
proof -
  have "fits L (gap_entry i e)" if "e \<in> set es" for i e
    unfolding gap_entry_def
    by (rule fits_simps(7)) (use assms that in \<open>simp_all add: fits_attr fits_simps text_event_def\<close>)
  then show ?thesis by (auto simp: evidence_gaps_def fits_simps set_zip)
qed

lemma fits_period:
  assumes "\<forall>e \<in> set es. text_event e"
  shows "fits L (JDict (report_period None es))"
proof (cases "es = []")
  case False
  then have "Min (timestamp ` set es) \<in> timestamp ` set es" "Max (timestamp ` set es) \<in> timestamp ` set es"
    by simp_all
  then have "utf8_text (Min (timestamp ` set es))" "utf8_text (Max (timestamp ` set es))"
    using assms by (auto simp: text_event_def)
  with False show ?thesis by (simp add: report_period_def fits_def)
qed (simp add: report_period_def fits_def)

lemma fits_agents: "\<forall>e \<in> set es. text_event e \<Longrightarrow> fits L (strs (report_agents None es))"
  by (rule fits_strs) (auto simp: report_agents_def text_event_def)

lemma fits_items:
  assumes "\<forall>i < n. wf_event (es ! i) \<and> text_event (es ! i) \<and> (\<exists>h. committed (es ! i) i h)"
  shows "fits L (JList (map (\<lambda>i. report_item (es ! i) i (map hex (ps i))) [0..<n]))"
proof -
  have "fits L (report_item (es ! i) i (map hex (ps i)))" if i: "i < n" for i
  proof -
    obtain h where "committed (es ! i) i h" using assms i by blast
    then have "json_opt (Option.bind (ledger (es ! i)) ledger_leaf_hash) = JStr (''sha256:'' @ hex h)"
      by (rule committed_leaf)
    moreover have "fits L (strs (map hex (ps i)))" by (rule fits_strs) (auto simp: hex_text)
    ultimately show ?thesis unfolding report_item_def using assms i
      by (intro fits_simps(7)) (auto simp: fits_event fits_simps hex_text)
  qed
  then show ?thesis by (simp add: fits_simps)
qed

lemma body_fits:
  assumes "\<forall>i < length es. wf_event (es ! i) \<and> text_event (es ! i) \<and> (\<exists>h. committed (es ! i) i h)"
    and "text_result cr" "storable cp" "utf8_text (pem (ks_public_key_raw key))"
    and "ra_agent_ids a = None" "ra_period a = None" "ra_report_id a = None" "ra_generated_at a = None"
    and "utf8_text (ra_scope_description a)" "utf8_text (ra_uuid a)" "utf8_text (ra_now a)"
  shows "fits (indented 2) (JDict (report_body pem key cr a cp es
    (map (\<lambda>i. report_item (es ! i) i (map hex (ps i))) [0..<length es])))"
proof -
  have es: "\<forall>e \<in> set es. wf_event e \<and> text_event e" using assms(1) by (auto simp: in_set_conv_nth)
  have parts: "fits L (JDict (dump_checkpoint cp))" for L using assms(3) by (simp only: storable_def fits_def simp_thms)
  have controls: "fits (indented 2) (JList (map dump_control_result (res_controls cr)))"
    using assms(2) by (simp add: text_result_def fits_simps)
  note fit = parts controls fits_gaps [OF es] fits_period fits_agents fits_items [OF assms(1)]
  have head: "fits L (json_opt (res_crosswalk_content_hash cr))" "fits L (json_opt (res_disclaimer cr))" for L
    using assms(2) by (simp_all add: text_result_def fits_opt)
  have "utf8_text (str_or None s) \<longleftrightarrow> utf8_text s" for s by (simp add: str_or_def)
  then show ?thesis
    unfolding report_body_def assms(5-8)
    by (rule_tac fits_simps(7))
      (use assms(2,4,9-11) es fit head in \<open>simp_all add: fits_simps text_result_def REPORT_VERSION_def
        OPENWRIGHT_VERSION_def BOUNDARY_STATEMENT_def str_or_def fit\<close>)
qed

lemma reported_and_gated:
  assumes "\<forall>d. ed (ks_public_key_raw key) (ks_sign key d) d = Valid"
    and "unpem (pem (ks_public_key_raw key)) = Inr (ks_public_key_raw key)"
      "pem (ks_public_key_raw key) \<noteq> []" "unpem pem_text = Inr (ks_public_key_raw key)"
    and "file_holds (open_file_backend data) (map model_dump es)" "log_of es hs"
    and "find_crosswalk builtins from_file name = Inr cw" "builtins (cw_id cw) = Some (Inr cw)"
      "distinct (map ctl_id (cw_controls cw))" "evaluate cw es = Inr cr"
      "list_all (\<lambda>c. float_free (JDict (cit_extra (cr_citation c)))) (res_controls cr)"
    and "length hs < 10 ^ 12" "list_all text_event es" "text_result cr" "utf8_text (pem (ks_public_key_raw key))"
      "list_all utf8_text [scope, uuid, clock, now]"
  shows "\<exists>files. report_command up fresh_id pem builtins from_file data (Inr key) name scope uuid clock now
      = Inr files
    \<and> gate up ed unpem builtins (rf_report files) (rf_report files) require (Some pem_text) True True
          = Inr \<lparr>go_code = (if \<forall>cid \<in> set (if require = [] then map ctl_id (cw_controls cw) else require).
                satisfied_in (res_controls cr) cid then 0 else 1), go_sarif = Some (rf_sarif files)\<rparr>"
proof -
  let ?pub = "ks_public_key_raw key"
  define led where "led = \<lparr>led_backend = open_file_backend data, led_origin = ''openwright/ledger'',
    led_retention = None, led_leaves = hs, led_tree = from_leaves hs\<rparr>"
  have opened: "open_ledger file_ops (open_file_backend data) ''openwright/ledger'' None = Inr led"
    using jsonl.reopen_ok [OF assms(5,6), of "''openwright/ledger''" None] by (simp add: file_ops_def led_def)
  have ok: "ledger_ok file_holds led es" using assms(5,6) by (simp add: ledger_ok_def led_def)
  have evs: "events file_ops led = Inr es" using jsonl.events_ok [OF ok] by (simp add: file_ops_def)
  obtain cp where cp: "ledger_checkpoint key clock None led = Inr cp" "storable cp"
    using new_head [where ed = ed and key = key and clk = clock, OF assms(1) ok] assms(12,16)
    by (auto simp: led_def)
  define a where "a = \<lparr>ra_scope_description = scope, ra_agent_ids = None, ra_period = None, ra_checkpoint = None,
        ra_report_id = None, ra_generated_at = None, ra_authorize = None, ra_uuid = uuid, ra_clock = clock, ra_now = now\<rparr>"
  have args: "args_float_free (a\<lparr>ra_checkpoint := Some cp\<rparr>) cr" "ra_checkpoint (a\<lparr>ra_checkpoint := Some cp\<rparr>) = Some cp"
    "ra_authorize (a\<lparr>ra_checkpoint := Some cp\<rparr>) = None"
    using assms(11) by (simp_all add: args_float_free_def a_def)
  obtain report led' res where built: "build_report file_ops pem key cr (a\<lparr>ra_checkpoint := Some cp\<rparr>) led = (Inr report, led')"
    and ver: "verify_report ed unpem builtins report (Some ?pub) True (Some cw) = Inr res" "vr_valid res"
    using honest_report_passes [where ed = ed and key = key and trusted = "Some ?pub" and deep = True and
        builtins = builtins and unpem = unpem and pem = pem and cw = cw and old = es and cr = cr and
        a = "a\<lparr>ra_checkpoint := Some cp\<rparr>" and cp = cp and led = led, OF assms(1-3) ok cp(1) run_start assms(10,9) args] by blast
  note ids = evaluated_ids [OF assms(6,10)]
  obtain led2 ps report2 where r2: "build_report file_ops pem key cr (a\<lparr>ra_checkpoint := Some cp\<rparr>) led = (Inr report2, led2)"
    "sign_report key (report_body pem key cr (a\<lparr>ra_checkpoint := Some cp\<rparr>) cp es
      (map (\<lambda>i. report_item (es ! i) i (map hex (ps i))) [0..<length es])) = Inr report2"
    by (rule honest_report [where ed = ed and key = key and pem = pem and old = es and cr = cr and
        a = "a\<lparr>ra_checkpoint := Some cp\<rparr>" and cp = cp and led = led, OF assms(1) ok cp(1) run_start args])
  have signed: "sign_report key (report_body pem key cr (a\<lparr>ra_checkpoint := Some cp\<rparr>) cp es
      (map (\<lambda>i. report_item (es ! i) i (map hex (ps i))) [0..<length es])) = Inr report"
    using r2 built by simp
  have "\<forall>i < length es. wf_event (es ! i) \<and> text_event (es ! i) \<and> (\<exists>h. committed (es ! i) i h)"
    using assms(6,13) by (auto simp: log_of_def committed_def list_all_length)
  from body_fits [where pem = pem and key = key and es = es, OF this assms(14) cp(2) assms(15)] assms(16)
  have fits: "fits (indented 2) (JDict report)"
    by (intro sign_fits [OF signed _ body_keys(1)]) (simp add: a_def)
  have crosswalk: "call_get (or_empty (dget_or report ''crosswalk'' JNull)) ''id'' JNull = Inr (JStr (cw_id cw))"
    using item_call [OF built_items [OF signed, of "''crosswalk''"], of _ JNull] ids(2)
    by (simp add: report_body_def dget_def call_get_def or_empty_def truthy_def dget_or_def)
  have controls: "item_at (JDict report) ''controls'' = Inr (JList (map dump_control_result (res_controls cr)))"
    by (rule built_items [OF signed]) (simp add: report_body_def dget_def)
  obtain oscal doc where docs: "to_oscal up fresh_id (JDict report) = Inr oscal" "to_sarif up (JDict report) = Inr doc"
    using built_exports [OF built, of up fresh_id] by (elim exE conjE) (rule that)
  define files where "files = \<lparr>rf_report = dumps_in (indented 2) 0 (JDict report),
    rf_oscal = dumps_in (indented 2) 0 oscal, rf_sarif = dumps_in (indented 2) 0 doc\<rparr>"
  have "report_command up fresh_id pem builtins from_file data (Inr key) name scope uuid clock now = Inr files"
    using build_default_checkpoint [of a key led cp file_ops pem cr] cp(1) built
    unfolding report_command_def assms(7) sbind.simps opened evs assms(10) a_def [symmetric]
    by (simp add: docs a_def files_def del: dumps_in.simps)
  moreover have "gate up ed unpem builtins (rf_report files) (rf_report files) require (Some pem_text) True True
      = Inr \<lparr>go_code = (if \<forall>cid \<in> set (if require = [] then map ctl_id (cw_controls cw) else require).
            satisfied_in (res_controls cr) cid then 0 else 1), go_sarif = Some (rf_sarif files)\<rparr>"
    unfolding files_def report_files.simps ids(1) [symmetric]
    by (rule judged_as_reported [where cw = cw and builtins = builtins, OF ver assms(4) fits crosswalk assms(8) controls _ docs(2)])
      (simp add: ids(1) assms(9))
  ultimately show ?thesis by blast
qed

text \<open> C11. The commands fit together: on the file of any ledger, \<open>report\<close> succeeds, and \<open>gate\<close> on
  what it wrote, deep and under the signer's key, verifies it and passes exactly when every required
  control (or, when none is named, every control) is satisfied by the evaluation of the crosswalk on
  the ledger's events; the SARIF it writes is the one \<open>report\<close> wrote.  The texts in the report are
  assumed to be the UTF-8 encodings of sequences of code points.\<close>

theorem report_then_gate:
  assumes "\<forall>d. ed (ks_public_key_raw key) (ks_sign key d) d = Valid"
    and "unpem (pem (ks_public_key_raw key)) = Inr (ks_public_key_raw key)"
      "pem (ks_public_key_raw key) \<noteq> []" "unpem pem_text = Inr (ks_public_key_raw key)"
    and "file_holds (open_file_backend data) (map model_dump es)" "log_of es hs"
    and "find_crosswalk builtins from_file name = Inr cw" "builtins (cw_id cw) = Some (Inr cw)"
      "distinct (map ctl_id (cw_controls cw))" "evaluate cw es = Inr cr"
      "list_all (\<lambda>c. float_free (JDict (cit_extra (cr_citation c)))) (res_controls cr)"
    and "length hs < 10 ^ 12" "list_all text_event es" "text_result cr" "utf8_text (pem (ks_public_key_raw key))"
      "list_all utf8_text [scope, uuid, clock, now]"
  shows "\<exists>files. report_command up fresh_id pem builtins from_file data (Inr key) name scope uuid clock now
      = Inr files
    \<and> gate up ed unpem builtins (rf_report files) (rf_report files) require (Some pem_text) True True
          = Inr \<lparr>go_code = (if \<forall>cid \<in> set (if require = [] then map ctl_id (cw_controls cw) else require).
                satisfied_in (res_controls cr) cid then 0 else 1), go_sarif = Some (rf_sarif files)\<rparr>"
  using assms by (rule reported_and_gated)

section \<open>An instance\<close>

text \<open>A crosswalk of one control that an empty scope satisfies.\<close>

definition clean_crosswalk :: crosswalk where
  "clean_crosswalk = sample_crosswalk\<lparr>cw_controls := [sample_control\<lparr>ctl_empty_scope := Empty_Satisfied\<rparr>]\<rparr>"

lemma clean_result:
  obtains cr h where "evaluate clean_crosswalk [] = Inr cr" "res_crosswalk_content_hash cr = Some (''sha256:'' @ h)" "utf8_text h"
    "res_crosswalk_id cr = ''x''" "res_crosswalk_title cr = ''t''" "res_crosswalk_version cr = ''1''" "res_source cr = ''s''"
    "res_reviewed_as_of cr = ''d''" "res_disclaimer cr = None"
    "\<exists>why. utf8_text why \<and> res_controls cr = [\<lparr>cr_control_id = ''c'', cr_title = ''t'', cr_status = SATISFIED, cr_requirement = ''r'',
       cr_citation = ctl_citation sample_control, cr_reason = why, cr_evaluated_count = 0, cr_satisfied_count = 0,
       cr_evidence_event_ids = [], cr_gap_event_ids = []\<rparr>]"
proof -
  have "canonicalizable Some (JDict (dump_crosswalk clean_crosswalk))"
    by (simp add: dump_crosswalk_def clean_crosswalk_def sample_crosswalk_def sample_control_def dump_control_def
        dump_citation_def dump_event_filter_def any_event_def set_extras_def strs_def opt_field_def)
  then obtain b where "canonical_bytes (JDict (dump_crosswalk clean_crosswalk)) = Inr b"
    using canonical_bytes_outcome [of Some "JDict (dump_crosswalk clean_crosswalk)"] by (auto simp only: if_True)
  then have h: "crosswalk_content_hash clean_crosswalk = Inr (''sha256:'' @ sha256_hex b)"
    by (simp add: crosswalk_content_hash_def content_hash_def)
  define cr where "cr = projr (evaluate clean_crosswalk [])"
  have cr: "evaluate clean_crosswalk [] = Inr cr" "res_crosswalk_content_hash cr = Some (''sha256:'' @ sha256_hex b)"
    using h by (simp_all add: cr_def evaluate_def clean_crosswalk_def sample_crosswalk_def sample_control_def
        evaluate_control_def Let_def)
  show ?thesis
    by (rule that [OF cr]; insert cr(1))
      (simp_all add: sha256_hex_def hex_text evaluate_def clean_crosswalk_def sample_crosswalk_def sample_control_def
        evaluate_control_def empty_scope_reason_def Let_def sbind_Inr_conv, auto)
qed

lemma clean_facts:
  obtains cr where "evaluate clean_crosswalk [] = Inr cr" "satisfied_in (res_controls cr) ''c''" "text_result cr"
    "list_all (\<lambda>c. float_free (JDict (cit_extra (cr_citation c)))) (res_controls cr)"
proof -
  obtain cr h where cr: "evaluate clean_crosswalk [] = Inr cr" "res_crosswalk_content_hash cr = Some (''sha256:'' @ h)" "utf8_text h"
    "res_crosswalk_id cr = ''x''" "res_crosswalk_title cr = ''t''" "res_crosswalk_version cr = ''1''" "res_source cr = ''s''"
    "res_reviewed_as_of cr = ''d''" "res_disclaimer cr = None"
    "\<exists>why. utf8_text why \<and> res_controls cr = [\<lparr>cr_control_id = ''c'', cr_title = ''t'', cr_status = SATISFIED, cr_requirement = ''r'',
       cr_citation = ctl_citation sample_control, cr_reason = why, cr_evaluated_count = 0, cr_satisfied_count = 0,
       cr_evidence_event_ids = [], cr_gap_event_ids = []\<rparr>]"
    by (rule clean_result)
  then have "satisfied_in (res_controls cr) ''c''" "text_result cr"
    "list_all (\<lambda>c. float_free (JDict (cit_extra (cr_citation c)))) (res_controls cr)"
    by (auto simp: satisfied_in_def text_result_def json_opt_def fits_def dump_control_result_def strs_def
        dump_citation_def sample_control_def opt_field_def set_extras_def)
  with cr(1) that show ?thesis by blast
qed

lemma empty_file: "file_holds (open_file_backend []) (map model_dump [])" "log_of [] []"
  using fresh_file by (simp_all add: ledger_ok_def fresh_def)

lemma clean_inputs:
  "\<forall>d. echo_check (ks_public_key_raw echo_key) (ks_sign echo_key d) d = Valid"
  "(\<lambda>s. Inr [1, 2, 3]) ((\<lambda>k. ''P'') (ks_public_key_raw echo_key)) = (Inr (ks_public_key_raw echo_key) :: bytes result)"
  "(\<lambda>k. ''P'') (ks_public_key_raw echo_key) \<noteq> []"
  "(\<lambda>s. Inr [1, 2, 3]) ''P'' = (Inr (ks_public_key_raw echo_key) :: bytes result)"
  "file_holds (open_file_backend []) (map model_dump [])" "log_of [] []"
  "find_crosswalk (\<lambda>s. Some (Inr clean_crosswalk)) (\<lambda>s. Inl KeyError) ''x'' = Inr clean_crosswalk"
  "(\<lambda>s. Some (Inr clean_crosswalk)) (cw_id clean_crosswalk) = Some (Inr clean_crosswalk)"
  "distinct (map ctl_id (cw_controls clean_crosswalk))"
  and clean_texts: "length [] < 10 ^ 12" "list_all text_event []"
  "utf8_text ((\<lambda>k. ''P'') (ks_public_key_raw echo_key))" "list_all utf8_text [''s'', ''u'', ''t'', ''t'']"
  by (simp_all add: echo_check_def echo_key_def find_crosswalk_def clean_crosswalk_def empty_file [simplified])

lemma clean_code:
  "satisfied_in rs ''c'' \<Longrightarrow>
    (if \<forall>cid \<in> set (if [''c''] = [] then ids else [''c'']). satisfied_in rs cid then 0 else 1) = (0 :: int)"
  by simp

lemma clean_gate:
  obtains files :: report_files where
    "gate (\<lambda>n. False) echo_check (\<lambda>s. Inr [1, 2, 3]) (\<lambda>s. Some (Inr clean_crosswalk)) (rf_report files)
      (rf_report files) [''c''] (Some ''P'') True True = Inr \<lparr>go_code = 0, go_sarif = Some (rf_sarif files)\<rparr>"
proof -
  obtain cr where cr: "evaluate clean_crosswalk [] = Inr cr" "satisfied_in (res_controls cr) ''c''" "text_result cr"
    "list_all (\<lambda>c. float_free (JDict (cit_extra (cr_citation c)))) (res_controls cr)" by (rule clean_facts)
  from reported_and_gated [where ed = echo_check and key = echo_key and pem = "\<lambda>k. ''P''" and unpem = "\<lambda>s. Inr [1, 2, 3]"
      and builtins = "\<lambda>s. Some (Inr clean_crosswalk)" and from_file = "\<lambda>s. Inl KeyError" and require = "[''c'']"
      and up = "\<lambda>n. False" and fresh_id = "\<lambda>n. ''u''" and cw = clean_crosswalk and pem_text = "''P''" and name = "''x''", OF clean_inputs cr(1,4) clean_texts(1,2) cr(3) clean_texts(3,4)]
  show ?thesis unfolding clean_code [OF cr(2)] by (elim exE conjE) (rule that)
qed

theorem report_then_gate_witness:
  "\<exists>files. report_command (\<lambda>n. False) (\<lambda>n. ''u'') (\<lambda>k. ''P'') (\<lambda>s. Some (Inr clean_crosswalk)) (\<lambda>s. Inl KeyError) []
      (Inr echo_key) ''x'' ''s'' ''u'' ''t'' ''t'' = Inr files
    \<and> gate (\<lambda>n. False) echo_check (\<lambda>s. Inr [1, 2, 3]) (\<lambda>s. Some (Inr clean_crosswalk)) (rf_report files)
      (rf_report files) [''c''] (Some ''P'') True True = Inr \<lparr>go_code = 0, go_sarif = Some (rf_sarif files)\<rparr>"
proof -
  obtain cr where cr: "evaluate clean_crosswalk [] = Inr cr" "satisfied_in (res_controls cr) ''c''" "text_result cr"
    "list_all (\<lambda>c. float_free (JDict (cit_extra (cr_citation c)))) (res_controls cr)" by (rule clean_facts)
  from report_then_gate [where ed = echo_check and key = echo_key and pem = "\<lambda>k. ''P''" and unpem = "\<lambda>s. Inr [1, 2, 3]"
      and builtins = "\<lambda>s. Some (Inr clean_crosswalk)" and from_file = "\<lambda>s. Inl KeyError" and require = "[''c'']"
      and up = "\<lambda>n. False" and fresh_id = "\<lambda>n. ''u''" and cw = clean_crosswalk and pem_text = "''P''" and name = "''x''", OF clean_inputs cr(1,4) clean_texts(1,2) cr(3) clean_texts(3,4)]
  show ?thesis unfolding clean_code [OF cr(2)] by blast
qed

theorem gate_sound_witness:
  "\<exists>report h es cr. signed_report echo_check [1, 2, 3] report
    \<and> crosswalk_content_hash clean_crosswalk = Inr h \<and> evaluate clean_crosswalk es = Inr cr
    \<and> map_of (rev (map (\<lambda>r. (cr_control_id r, cr_status r)) (res_controls cr))) ''c'' = Some SATISFIED"
proof -
  obtain files :: report_files where run: "gate (\<lambda>n. False) echo_check (\<lambda>s. Inr [1, 2, 3]) (\<lambda>s. Some (Inr clean_crosswalk)) (rf_report files)
      (rf_report files) [''c''] (Some ''P'') True True = Inr \<lparr>go_code = 0, go_sarif = Some (rf_sarif files)\<rparr>"
    by (rule clean_gate)
  from gate_sound [OF run] show ?thesis by auto
qed

lemma clean_built:
  assumes "list_all (\<lambda>c. float_free (JDict (cit_extra (cr_citation c)))) (res_controls cr)"
  obtains cp report led' where
    "build_report file_ops (\<lambda>k. ''P'') echo_key cr (plain_args cp) (fresh (open_file_backend [])) = (Inr report, led')"
proof -
  obtain cp where cp: "ledger_checkpoint echo_key ''t'' None (fresh (open_file_backend [])) = Inr cp"
    using sign_checkpoint_total unfolding ledger_checkpoint_def by blast
  have a: "args_float_free (plain_args cp) cr" "ra_checkpoint (plain_args cp) = Some cp" "ra_authorize (plain_args cp) = None"
    using assms by (simp_all add: args_float_free_def plain_args_def)
  obtain led' ps report where
    "build_report file_ops (\<lambda>k. ''P'') echo_key cr (plain_args cp) (fresh (open_file_backend [])) = (Inr report, led')"
    by (rule honest_report [where ed = echo_check and key = echo_key and pem = "\<lambda>k. ''P''",
          OF clean_inputs(1) fresh_file cp run_start a])
  with that show ?thesis by blast
qed

text \<open>One control of each status.\<close>

definition sample_verdict :: "string \<Rightarrow> control_status \<Rightarrow> control_result" where
  "sample_verdict cid status = \<lparr>cr_control_id = cid, cr_title = ''T'', cr_status = status, cr_requirement = ''R'',
     cr_citation = \<lparr>cit_instrument = ''I'', cit_article = None, cit_clause = None, cit_paragraphs = [], cit_url = None,
       cit_quote = None, cit_effective_date = None, cit_notes = None, cit_extra = []\<rparr>,
     cr_reason = ''why'', cr_evaluated_count = 0, cr_satisfied_count = 0, cr_evidence_event_ids = [],
     cr_gap_event_ids = []\<rparr>"

definition sample_verdicts :: crosswalk_result where
  "sample_verdicts = \<lparr>res_crosswalk_id = ''cw'', res_crosswalk_title = ''Oversight'', res_crosswalk_version = ''1'',
     res_crosswalk_content_hash = None, res_source = ''text'', res_reviewed_as_of = ''2025-01-01'', res_disclaimer = None,
     res_controls = [sample_verdict ''a'' SATISFIED, sample_verdict ''b'' NOT_SATISFIED,
       sample_verdict ''c'' INSUFFICIENT_EVIDENCE]\<rparr>"

theorem exports_keep_verdicts_witness:
  "\<exists>report oscal sarif. to_oscal (\<lambda>n. False) (\<lambda>n. replicate n CHR ''u'') (JDict report) = Inr oscal
    \<and> to_sarif (\<lambda>n. False) (JDict report) = Inr sarif
    \<and> map (look [Member ''target'', Member ''target-id'']) (oscal_part ''findings'' oscal)
        = [Some (JStr ''a''), Some (JStr ''b''), Some (JStr ''c'')]
    \<and> map (look [Member ''props'', Element 0, Member ''value'']) (oscal_part ''findings'' oscal)
        = [Some (JStr ''satisfied''), Some (JStr ''not_satisfied''), Some (JStr ''insufficient_evidence'')]
    \<and> distinct (map (look [Member ''uuid'']) (oscal_part ''observations'' oscal @ oscal_part ''findings'' oscal))
    \<and> map (look [Member ''level'']) (items_under [Member ''runs'', Element 0, Member ''results''] sarif)
        = [Some (JStr ''error''), Some (JStr ''warning'')]"
proof -
  obtain cp report led' where b: "build_report file_ops (\<lambda>k. ''P'') echo_key sample_verdicts (plain_args cp)
      (fresh (open_file_backend [])) = (Inr report, led')"
    by (rule clean_built [of sample_verdicts]) (simp_all add: sample_verdicts_def sample_verdict_def)
  have tuples: "map f xs = map fst ys \<and> map g xs = map fst (map snd ys) \<and> map h xs = map snd (map snd ys)"
    if "map (\<lambda>x. (f x, g x, h x)) xs = ys" for f g h xs ys using that by auto
  have inj: "inj (\<lambda>n. replicate n CHR ''u'')" by (rule injI) (metis length_replicate)
  from exports_keep_verdicts [OF b, of "\<lambda>n. False" "\<lambda>n. replicate n CHR ''u''"] show ?thesis
  proof (elim exE conjE, goal_cases)
    case (1 oscal sarif)
    from 1(1,2) tuples [OF 1(3)] 1(7) inj tuples [OF 1(8)] show ?case
      by (intro exI [of _ report] exI [of _ oscal] exI [of _ sarif]) (simp add: sample_verdicts_def sample_verdict_def)
  qed
qed

text \<open>The gate reads the file twice.  If it changes in between, the statuses judged are not those of
  the verified report: a report with no controls passes the default requirement beside any verified one.\<close>

lemma gate_reads_twice:
  assumes "verify_report_file ed unpem builtins text_again pubkey deep None = Inr res" "vr_valid res"
  shows "gate up ed unpem builtins (dumps (JDict [(''controls'', JList [])])) text_again [] pubkey False deep
    = Inr \<lparr>go_code = 0, go_sarif = None\<rparr>"
proof -
  have "loads (dumps (JDict [(''controls'', JList [])])) = Inr (JDict [(''controls'', JList [])])"
    by (rule loads_dumps) simp
  with assms show ?thesis
    unfolding gate_def by (simp add: item_at_def iterate_def gate_failures_def del: dumps.simps)
qed

end
