(* ===== verification/Runtime.thy ===== *)
theory Runtime imports Cli Checkpoint_Store begin

text \<open>
  \<open>src/src/openwright/runtime.py\<close>: resolution of the backends from the environment, the process-wide
  runtime, its reports and the loop that persists them.  Other threads may commit between the
  evaluation and the building of a report: what they do to the ledger is the argument \<open>others\<close>.
  Commits while \<open>build_report\<close> itself runs are not modelled; it reads the log up to the checkpoint it
  signed first, so \<open>Verify_Properties\<close> covers what is committed after that.  The
  ledger of the runtime is given with the operations \<open>ops\<close> of its backend; S3 and the disk are the
  texts written, place by place.
\<close>

section \<open>Resolution\<close>

type_synonym environment = "string \<Rightarrow> string option"

definition non_empty :: "string option \<Rightarrow> string option" where
  "non_empty s = (if s = Some [] then None else s)"

text \<open>\<open>s.split(pat, 1)[-1]\<close>: what follows the first occurrence, if there is one.\<close>

fun after_first :: "string \<Rightarrow> string \<Rightarrow> string option" where
  "after_first pat s =
     (if take (length pat) s = pat then Some (drop (length pat) s)
      else case s of [] \<Rightarrow> None | c # cs \<Rightarrow> after_first pat cs)"

definition starts :: "string \<Rightarrow> string \<Rightarrow> bool" where
  "starts pat s \<longleftrightarrow> take (length pat) s = pat"

definition file_path :: "string \<Rightarrow> string" where
  "file_path uri = (case after_first ''file://'' uri of Some p \<Rightarrow> p | None \<Rightarrow> drop 5 uri)"

datatype backend_choice = File_At string | Connector_For string

definition resolve_ledger_backend :: "environment \<Rightarrow> string option \<Rightarrow> backend_choice" where
  "resolve_ledger_backend env uri = (case non_empty uri of
     Some u \<Rightarrow>
       (if starts ''file:'' u
        then File_At (str_or (Some (file_path u)) (str_or (env ''OPENWRIGHT_LEDGER_DIR'') ''./openwright-ledger''))
        else Connector_For u)
   | None \<Rightarrow> File_At (str_or (env ''OPENWRIGHT_LEDGER_DIR'') ''./openwright-ledger''))"

definition resolve_store :: "string option \<Rightarrow> backend_choice option" where
  "resolve_store uri = (case non_empty uri of
     None \<Rightarrow> None
   | Some u \<Rightarrow> Some
       (if starts ''file:'' u then File_At (str_or (Some (file_path u)) ''./openwright-checkpoints'')
        else Connector_For u))"

text \<open>The key, and whether a new one is generated at the path.\<close>

datatype key_choice = Env_Key string | Key_File string bool

definition resolve_key :: "environment \<Rightarrow> (string \<Rightarrow> bool) \<Rightarrow> key_choice" where
  "resolve_key env exists_at = (case non_empty (env ''OPENWRIGHT_SIGNING_KEY'') of
     Some _ \<Rightarrow> Env_Key ''OPENWRIGHT_SIGNING_KEY''
   | None \<Rightarrow>
       (let path = or_else (env ''OPENWRIGHT_SIGNING_KEY_FILE'') ''./openwright-signing_key.pem''
        in Key_File path (\<not> exists_at path)))"

section \<open>The runtime\<close>

record 's runtime =
  rt_agent_id :: string
  rt_origin :: string
  rt_retention :: int
  rt_backend :: backend_choice
  rt_store_choice :: "backend_choice option"
  rt_key_choice :: key_choice
  rt_store :: "'s option"

definition runtime_init ::
  "environment \<Rightarrow> (string \<Rightarrow> bool) \<Rightarrow> string option \<Rightarrow> string option \<Rightarrow> int \<Rightarrow> (backend_choice \<Rightarrow> 's) \<Rightarrow> 's runtime"
where
  "runtime_init env exists_at agent_id origin retention_days open_store =
     (let store = resolve_store (env ''OPENWRIGHT_CHECKPOINT_STORE'') in
      \<lparr>rt_agent_id = str_or agent_id (or_else (env ''OPENWRIGHT_AGENT_ID'') ''agent''),
       rt_origin = str_or origin (or_else (env ''OPENWRIGHT_ORIGIN'') ''openwright/agent''),
       rt_retention = retention_days * 86400000000,
       rt_backend = resolve_ledger_backend env (env ''OPENWRIGHT_LEDGER''),
       rt_store_choice = store, rt_key_choice = resolve_key env exists_at,
       rt_store = map_option open_store store\<rparr>)"

definition runtime_checkpoint ::
  "(checkpoint \<Rightarrow> 's \<Rightarrow> 's) \<Rightarrow> key_source \<Rightarrow> string \<Rightarrow> 'b ledger_state \<Rightarrow> 's option \<Rightarrow>
    checkpoint result \<times> 's option"
where
  "runtime_checkpoint put key clock led store =
     (case ledger_checkpoint key clock None led of
        Inl e \<Rightarrow> (Inl e, store)
      | Inr cp \<Rightarrow> (Inr cp, map_option (put cp) store))"

section \<open>Reports\<close>

definition find_builtin :: "(string \<Rightarrow> crosswalk result option) \<Rightarrow> string \<Rightarrow> crosswalk result" where
  "find_builtin builtins name = (case builtins name of Some r \<Rightarrow> r | None \<Rightarrow> Inl KeyError)"

definition runtime_evaluate ::
  "'b backend_ops \<Rightarrow> (string \<Rightarrow> crosswalk result option) \<Rightarrow> string \<Rightarrow> 'b ledger_state \<Rightarrow> crosswalk_result result"
where
  "runtime_evaluate ops builtins crosswalk led =
     sbind (find_builtin builtins crosswalk) (\<lambda>cw.
     sbind (events ops led) (\<lambda>es. evaluate cw es))"

definition runtime_args :: "string \<Rightarrow> string \<Rightarrow> string \<Rightarrow> string \<Rightarrow> report_args" where
  "runtime_args scope uuid clock now = \<lparr>ra_scope_description = scope, ra_agent_ids = None, ra_period = None,
     ra_checkpoint = None, ra_report_id = None, ra_generated_at = None, ra_authorize = None, ra_uuid = uuid,
     ra_clock = clock, ra_now = now\<rparr>"

definition runtime_report ::
  "'b backend_ops \<Rightarrow> (bytes \<Rightarrow> string) \<Rightarrow> (string \<Rightarrow> crosswalk result option) \<Rightarrow> key_source \<Rightarrow> string \<Rightarrow>
    report_args \<Rightarrow> ('b ledger_state \<Rightarrow> 'b ledger_state) \<Rightarrow> 'b ledger_state \<Rightarrow> dict result \<times> 'b ledger_state"
where
  "runtime_report ops pem builtins key crosswalk a others led =
     (let result = runtime_evaluate ops builtins crosswalk led; led = others led
      in case result of
           Inl e \<Rightarrow> (Inl e, led)
         | Inr cr \<Rightarrow> build_report ops pem key cr a led)"

text \<open>Where a report pair is written: an object of a bucket, or a file of a directory.\<close>

datatype place = Bucket_Object string string | Disk_File string string

definition report_place :: "string \<Rightarrow> string \<Rightarrow> place" where
  "report_place out_dir name =
     (if starts ''s3://'' out_dir
      then
        let rest = drop 5 out_dir; bucket = takeWhile (\<lambda>c. c \<noteq> CHR ''/'') rest;
            prefix = strip_slashes (drop (length bucket + 1) rest)
        in Bucket_Object bucket (if prefix \<noteq> [] then prefix @ ''/'' @ name else name)
      else Disk_File (if starts ''file://'' out_dir then drop 7 out_dir else out_dir) name)"

definition write_report_pair ::
  "string \<Rightarrow> string \<Rightarrow> string \<Rightarrow> string \<Rightarrow> (place \<times> string) list \<Rightarrow> (place \<times> string) list"
where
  "write_report_pair out_dir name report_text pubkey_pem written =
     AList.update (report_place out_dir ''public_key.pem'') pubkey_pem
       (AList.update (report_place out_dir name) report_text written)"

definition report_name :: "int \<Rightarrow> string" where
  "report_name n = ''report-'' @ fmt012 n @ ''.json''"

text \<open>The size is read before the report is built.\<close>

definition persist_report ::
  "'b backend_ops \<Rightarrow> (bytes \<Rightarrow> string) \<Rightarrow> (string \<Rightarrow> crosswalk result option) \<Rightarrow> key_source \<Rightarrow> string \<Rightarrow>
    report_args \<Rightarrow> ('b ledger_state \<Rightarrow> 'b ledger_state) \<Rightarrow> string \<Rightarrow>
    'b ledger_state \<times> (place \<times> string) list \<Rightarrow> string result \<times> 'b ledger_state \<times> (place \<times> string) list"
where
  "persist_report ops pem builtins key crosswalk a others out_dir s =
     (let (led, written) = s; name = report_name (size_op ops (led_backend led));
          (r, led') = runtime_report ops pem builtins key crosswalk a others led
      in case r of
           Inl e \<Rightarrow> (Inl e, led', written)
         | Inr rep \<Rightarrow>
             (Inr (strip_slashes out_dir @ ''/'' @ name), led',
              write_report_pair out_dir name (dumps_in (indented 2) 0 (JDict rep)) (pem (ks_public_key_raw key)) written))"

section \<open>The report loop\<close>

text \<open>One beat: the outcome of reading the size, which may raise, and that of persisting.\<close>

datatype beat = Loop_Ends | Nothing_To_Report | Report_Persisted | Failure_Logged

definition report_beat :: "int result \<Rightarrow> string result \<Rightarrow> beat" where
  "report_beat sz persisted = (case sz of
     Inl _ \<Rightarrow> Loop_Ends
   | Inr n \<Rightarrow>
       (if n = 0 then Nothing_To_Report
        else case persisted of Inl _ \<Rightarrow> Failure_Logged | Inr _ \<Rightarrow> Report_Persisted))"

section \<open>The process-wide runtime\<close>

record ('o, 'r) process =
  pr_runtime :: "'r option"
  pr_config :: 'o

definition configure :: "'o \<Rightarrow> ('o, 'r) process \<Rightarrow> ('o, 'r) process" where
  "configure opts p = p\<lparr>pr_config := opts\<rparr>"

definition get_runtime :: "('o \<Rightarrow> 'r result) \<Rightarrow> ('o, 'r) process \<Rightarrow> 'r result \<times> ('o, 'r) process" where
  "get_runtime build p = (case pr_runtime p of
     Some r \<Rightarrow> (Inr r, p)
   | None \<Rightarrow> (case build (pr_config p) of
       Inl e \<Rightarrow> (Inl e, p)
     | Inr r \<Rightarrow> (Inr r, p\<lparr>pr_runtime := Some r\<rparr>)))"

definition reset_runtime :: "('o, 'r) process \<Rightarrow> ('o, 'r) process" where
  "reset_runtime p = p\<lparr>pr_runtime := None\<rparr>"

end
