(* ===== verification/Runtime_Properties.thy ===== *)
theory Runtime_Properties imports Runtime Cli_Properties begin

text \<open>
  The runtime's reports under concurrent commits, the report loop, and the process-wide runtime.
\<close>

section \<open>Verdicts and checkpoint from different moments\<close>

lemma mismatches_dump:
  assumes "set (map cr_control_id rs) \<subseteq> fst ` set sts" "distinct (map fst sts)"
  shows "\<exists>bad. verdict_mismatches sts (map dump_control_result rs) = Inr bad
    \<and> (bad = [] \<longleftrightarrow> (\<forall>r \<in> set rs. (cr_control_id r, cr_status r) \<in> set sts))"
  using assms(1)
proof (induction rs)
  case (Cons r rs)
  obtain bad where bad: "verdict_mismatches sts (map dump_control_result rs) = Inr bad"
    "bad = [] \<longleftrightarrow> (\<forall>r \<in> set rs. (cr_control_id r, cr_status r) \<in> set sts)"
    using Cons by auto
  obtain st where st: "(cr_control_id r, st) \<in> set sts" using Cons.prems by auto
  have rev: "distinct (map fst (rev sts))" using assms(2) by (simp add: rev_map [symmetric])
  then have look: "map_of (rev sts) (cr_control_id r) = Some st" using st by (intro map_of_is_SomeI) simp_all
  have "(cr_control_id r, cr_status r) \<in> set sts \<longleftrightarrow> cr_status r = st"
    using look rev st by (metis map_of_is_SomeI option.inject set_rev)
  moreover have "control_status_value a = control_status_value b \<longleftrightarrow> a = b" for a b
    by (cases a; cases b) simp_all
  moreover have "verdict_mismatches sts (dump_control_result r # map dump_control_result rs)
      = Inr ((if control_status_value st \<noteq> control_status_value (cr_status r)
         then [Verdict_Differs (JStr (cr_control_id r)) (JStr (control_status_value (cr_status r))) (control_status_value st)]
         else []) @ bad)"
    using look bad(1) by (simp add: dump_control_result_def [of r] call_get_def dget_or_def hashable_def)
  ultimately show ?case using bad(2) by auto
qed simp

lemma same_pairs:
  assumes "map cr_control_id rs = map cr_control_id rs'" "distinct (map cr_control_id rs)"
  shows "(\<forall>r \<in> set rs. (cr_control_id r, cr_status r) \<in> set (map (\<lambda>r. (cr_control_id r, cr_status r)) rs'))
    \<longleftrightarrow> map cr_status rs = map cr_status rs'"
proof -
  have len: "length rs = length rs'" using assms(1) by (metis length_map)
  have ids: "cr_control_id (rs ! i) = cr_control_id (rs' ! i)" if "i < length rs" for i
    using assms(1) that len by (metis nth_map)
  have uniq: "i = j" if "i < length rs" "j < length rs" "cr_control_id (rs ! i) = cr_control_id (rs' ! j)" for i j
    using assms(2) that ids by (metis distinct_conv_nth length_map nth_map)
  show ?thesis
  proof
    assume sub: "\<forall>r \<in> set rs. (cr_control_id r, cr_status r) \<in> set (map (\<lambda>r. (cr_control_id r, cr_status r)) rs')"
    have "cr_status (rs ! i) = cr_status (rs' ! i)" if i: "i < length rs" for i
    proof -
      have "(cr_control_id (rs ! i), cr_status (rs ! i)) \<in> set (map (\<lambda>r. (cr_control_id r, cr_status r)) rs')"
        using sub i by simp
      then obtain j where "j < length rs'" "cr_control_id (rs ! i) = cr_control_id (rs' ! j)"
        "cr_status (rs ! i) = cr_status (rs' ! j)"
        by (auto simp: in_set_conv_nth)
      with uniq [OF i] len show ?thesis by simp
    qed
    with len show "map cr_status rs = map cr_status rs'" by (simp add: list_eq_iff_nth_eq)
  next
    assume "map cr_status rs = map cr_status rs'"
    then have "map (\<lambda>r. (cr_control_id r, cr_status r)) rs = map (\<lambda>r. (cr_control_id r, cr_status r)) rs'"
      using assms(1) len by (simp add: list_eq_iff_nth_eq)
    then show "\<forall>r \<in> set rs. (cr_control_id r, cr_status r) \<in> set (map (\<lambda>r. (cr_control_id r, cr_status r)) rs')"
      by (metis (mono_tags, lifting) image_eqI list.set_map)
  qed
qed

text \<open> C24. A report taken while other threads commit: the runtime evaluates the events of one moment and
  signs the checkpoint of a later one.  The report always passes the shallow verification; it passes
  the deep one exactly when the events committed in between change no verdict.\<close>

theorem report_of_two_moments:
  assumes "\<forall>d. ed (ks_public_key_raw key) (ks_sign key d) d = Valid"
    and "unpem (pem (ks_public_key_raw key)) = Inr (ks_public_key_raw key)" "pem (ks_public_key_raw key) \<noteq> []"
    and "ledger_ok file_holds led es" "ledger_run file_ops led new (others led)"
    and "builtins name = Some (Inr cw)" "distinct (map ctl_id (cw_controls cw))"
      "evaluate cw es = Inr cr" "evaluate cw (es @ new) = Inr cr_now"
      "list_all (\<lambda>c. float_free (JDict (cit_extra (cr_citation c)))) (res_controls cr)"
  shows "\<exists>report led' shallow deep.
    runtime_report file_ops pem builtins key name (runtime_args scope uuid clock now) others led = (Inr report, led')
    \<and> verify_report ed unpem builtins report (Some (ks_public_key_raw key)) False (Some cw) = Inr shallow \<and> vr_valid shallow
    \<and> verify_report ed unpem builtins report (Some (ks_public_key_raw key)) True (Some cw) = Inr deep
    \<and> (vr_valid deep \<longleftrightarrow> map cr_status (res_controls cr) = map cr_status (res_controls cr_now))"
proof -
  let ?pub = "ks_public_key_raw key" and ?es = "es @ new" and ?led = "others led"
  have ok: "ledger_ok file_holds ?led ?es" using jsonl.run_ok [OF assms(5) [unfolded file_ops_def] assms(4)] by simp
  have evs: "events file_ops led = Inr es" using jsonl.events_ok [OF assms(4)] by (simp add: file_ops_def)
  have log: "log_of es (led_leaves led)" "log_of ?es (led_leaves ?led)" using assms(4) ok by (simp_all add: ledger_ok_def)
  obtain cp where cp: "ledger_checkpoint key clock None ?led = Inr cp"
    unfolding ledger_checkpoint_def option.case using sign_checkpoint_total by blast
  define a where "a = runtime_args scope uuid clock now"
  have args: "args_float_free (a\<lparr>ra_checkpoint := Some cp\<rparr>) cr" "ra_checkpoint (a\<lparr>ra_checkpoint := Some cp\<rparr>) = Some cp"
    "ra_authorize (a\<lparr>ra_checkpoint := Some cp\<rparr>) = None"
    using assms(10) by (simp_all add: args_float_free_def a_def runtime_args_def)
  obtain led' ps report where built: "build_report file_ops pem key cr (a\<lparr>ra_checkpoint := Some cp\<rparr>) ?led = (Inr report, led')"
    and signed: "sign_report key (report_body pem key cr (a\<lparr>ra_checkpoint := Some cp\<rparr>) cp ?es
      (map (\<lambda>i. report_item (?es ! i) i (map hex (ps i))) [0..<length ?es])) = Inr report"
    and good: "\<forall>i < length ?es. good_item (?es ! i) i (led_leaves ?led ! i) (ps i) (int (length ?es)) (tree_hash (led_leaves ?led))"
    by (rule honest_report [where ed = ed and key = key and pem = pem and old = ?es and cr = cr and
        a = "a\<lparr>ra_checkpoint := Some cp\<rparr>" and cp = cp and led = ?led, OF assms(1) ok cp run_start args])
  have run: "runtime_report file_ops pem builtins key name (runtime_args scope uuid clock now) others led = (Inr report, led')"
    using build_default_checkpoint [of a key ?led cp file_ops pem cr] cp built
    by (simp add: runtime_report_def runtime_evaluate_def find_builtin_def assms(6,8) evs a_def runtime_args_def)
  have "dget_or report ''public_key_pem'' JNull = JStr (pem ?pub)"
    using honest_signature(3) [where ed = ed and key = key, OF assms(1) signed body_keys(1)] by (simp add: body_keys)
  then obtain res0 where res0: "establish_key unpem report (Some ?pub) = Inr (?pub, res0)" "vr_valid res0"
    using assms(2,3) by (auto simp: establish_key_def Let_def pem_key_def truthy_def start_verification_def)
  have "\<forall>r \<in> set (res_controls cr). set (cr_evidence_event_ids r) \<subseteq> event_id ` set ?es"
    using evidence_in_log [OF log(1) assms(8)] by auto
  from honest_body [where ed = ed and key = key, OF assms(1) cp ok good this signed, of res0] obtain res1 where
    body: "verify_body ed report ?pub res0 = Inr (True, res1)" "vr_valid res1"
    using res0(2) by blast
  obtain h where h: "crosswalk_content_hash cw = Inr h" "res_crosswalk_content_hash cr = Some h"
    using evaluate_parts [OF assms(8)] by blast
  have ids: "map cr_control_id (res_controls cr) = map cr_control_id (res_controls cr_now)"
    "distinct (map cr_control_id (res_controls cr_now))"
    using evaluated_ids(1) [OF log(1) assms(8)] evaluated_ids(1) [OF log(2) assms(9)] assms(7) by simp_all
  let ?sts = "map (\<lambda>r. (cr_control_id r, cr_status r)) (res_controls cr_now)"
  have fsts: "map fst ?sts = map cr_control_id (res_controls cr_now)" by (simp add: comp_def)
  have keys: "set (map cr_control_id (res_controls cr)) \<subseteq> fst ` set ?sts" "distinct (map fst ?sts)"
    unfolding set_map [symmetric] fsts using ids by simp_all
  obtain bad where bad: "verdict_mismatches ?sts (map dump_control_result (res_controls cr)) = Inr bad"
    "bad = [] \<longleftrightarrow> (\<forall>r \<in> set (res_controls cr). (cr_control_id r, cr_status r) \<in> set ?sts)"
    using mismatches_dump [OF keys] by blast
  from deep_outcome [where ed = ed and key = key, OF assms(1) cp ok assms(9) h signed bad(1), of builtins res1]
  obtain deep where deep: "deep_verify builtins report (Some cw) res1 = Inr deep" "vr_valid deep \<longleftrightarrow> bad = []"
    using body(2) by blast
  have "vr_valid deep \<longleftrightarrow> map cr_status (res_controls cr) = map cr_status (res_controls cr_now)"
    using deep(2) bad(2) same_pairs [OF ids(1)] ids by simp
  moreover have "verify_report ed unpem builtins report (Some ?pub) False (Some cw) = Inr res1"
    "verify_report ed unpem builtins report (Some ?pub) True (Some cw) = Inr deep"
    using deep(1) by (simp_all add: verify_report_def res0(1) body(1))
  ultimately show ?thesis using run body(2) by blast
qed

text \<open>The instance: a report of an empty ledger while another thread commits the first event.\<close>

lemma sample_commit_evaluated:
  assumes "commit file_ops clk (sample_event ''a'') (fresh (open_file_backend [])) = Inr (e, led)"
  obtains res where "evaluate sample_crosswalk [e] = Inr res" "map cr_status (res_controls res) \<noteq> [INSUFFICIENT_EVIDENCE]"
proof -
  obtain p n where p: "prepare_commit None clk (sample_event ''a'') = Inr p" "e = stamp p n"
    using assms by (auto simp: commit_def install_commit_def fresh_def sbind_Inr_conv Let_def split: prod.splits)
  have "\<exists>x. prep_event p = (sample_event ''a'')\<lparr>event_id := x\<rparr>"
    using p(1) by (auto simp: prepare_commit_def sbind_Inr_conv finalize_id_def)
  then have gap: "\<not> is_gap_marker e" by (auto simp: p(2) stamp_def sample_event_def is_gap_marker_def dget_or_def)
  have scope: "matches (model_dump e) (ctl_scope sample_control)"
    by (simp add: matches_def one_of_def sample_control_def any_event_def)
  obtain b where "cond_holds [model_dump e] 0 (ctl_condition sample_control) = Inr b"
    by (simp add: sample_control_def)
  then obtain r where r: "evaluate_control [e] sample_control = Inr r" "cr_status r \<noteq> INSUFFICIENT_EVIDENCE"
    using scope by (simp add: evaluate_control_def Let_def listed_def)
  obtain h where h: "crosswalk_content_hash sample_crosswalk = Inr h" using sample_hash by blast
  obtain res where "evaluate sample_crosswalk [e] = Inr res" "res_controls res = [r]"
    using h r(1) gap by (auto simp: evaluate_def Let_def sample_crosswalk_def)
  with r(2) that show ?thesis by simp
qed

theorem report_of_two_moments_witness:
  "\<exists>report led led' shallow deep.
    runtime_report file_ops (\<lambda>k. ''P'') (\<lambda>n. Some (Inr sample_crosswalk)) echo_key ''x''
      (runtime_args ''s'' ''u'' ''t'' ''t'') (\<lambda>l. led) (fresh (open_file_backend [])) = (Inr report, led')
    \<and> verify_report echo_check (\<lambda>s. Inr [1, 2, 3]) (\<lambda>n. Some (Inr sample_crosswalk)) report (Some [1, 2, 3]) False
        (Some sample_crosswalk) = Inr shallow \<and> vr_valid shallow
    \<and> verify_report echo_check (\<lambda>s. Inr [1, 2, 3]) (\<lambda>n. Some (Inr sample_crosswalk)) report (Some [1, 2, 3]) True
        (Some sample_crosswalk) = Inr deep \<and> \<not> vr_valid deep"
proof -
  let ?led0 = "fresh (open_file_backend [])"
  obtain e led where c: "commit file_ops ''2026-01-01T00:00:00.000000000Z'' (sample_event ''a'') ?led0 = Inr (e, led)"
    using fresh_commit [OF wf_sample_event, where ops = file_ops] by blast
  have run: "ledger_run file_ops ?led0 [e] led" using run_commit [OF run_start wf_sample_event c] by simp
  obtain now where now: "evaluate sample_crosswalk [e] = Inr now" "map cr_status (res_controls now) \<noteq> [INSUFFICIENT_EVIDENCE]"
    by (rule sample_commit_evaluated [OF c])
  obtain cr where cr: "evaluate sample_crosswalk [] = Inr cr" "map cr_status (res_controls cr) = [INSUFFICIENT_EVIDENCE]"
    "list_all (\<lambda>c. float_free (JDict (cit_extra (cr_citation c)))) (res_controls cr)"
    using sample_hash by (auto simp: evaluate_def sample_crosswalk_def evaluate_control_def Let_def sample_control_def)
  have "\<exists>report led' shallow deep.
    runtime_report file_ops (\<lambda>k. ''P'') (\<lambda>n. Some (Inr sample_crosswalk)) echo_key ''x''
      (runtime_args ''s'' ''u'' ''t'' ''t'') (\<lambda>l. led) ?led0 = (Inr report, led')
    \<and> verify_report echo_check (\<lambda>s. Inr [1, 2, 3]) (\<lambda>n. Some (Inr sample_crosswalk)) report (Some (ks_public_key_raw echo_key)) False
        (Some sample_crosswalk) = Inr shallow \<and> vr_valid shallow
    \<and> verify_report echo_check (\<lambda>s. Inr [1, 2, 3]) (\<lambda>n. Some (Inr sample_crosswalk)) report (Some (ks_public_key_raw echo_key)) True
        (Some sample_crosswalk) = Inr deep
    \<and> (vr_valid deep \<longleftrightarrow> map cr_status (res_controls cr) = map cr_status (res_controls now))"
    by (rule report_of_two_moments [where es = "[]" and new = "[e]"])
      (use run now cr fresh_file in \<open>simp_all add: echo_check_def echo_key_def sample_crosswalk_def\<close>)
  with now(2) cr(2) show ?thesis by (auto simp: echo_key_def)
qed

section \<open>The report loop and the process-wide runtime\<close>

text \<open>The loop survives a failing report, not a failing read of the size.\<close>

lemma loop_survives_reports: "report_beat (Inr n) persisted \<noteq> Loop_Ends"
  by (simp add: report_beat_def split: sum.splits)

lemma loop_ends_on_size: "report_beat (Inl e) persisted = Loop_Ends"
  by (simp add: report_beat_def)

text \<open>The process has one runtime: once built it is returned until it is dropped, whatever is configured.\<close>

lemma runtime_singleton:
  assumes "get_runtime build p = (Inr r, p')"
  shows "get_runtime build' (configure opts p') = (Inr r, configure opts p')"
  using assms by (auto simp: get_runtime_def configure_def split: option.splits sum.splits)

lemma runtime_rebuilt:
  "fst (get_runtime build (reset_runtime (configure opts p))) = build opts"
  by (simp add: get_runtime_def configure_def reset_runtime_def split: sum.splits)

end
