(* ===== verification/Sha512.thy ===== *)
theory Sha512 imports Sha256 begin

text \<open>
  SHA-512 as \<open>hashlib.sha512\<close> computes it (FIPS 180-4): the structure of SHA-256 on 64-bit words,
  80 rounds and blocks of 128 bytes.  Only the pure Ed25519 check uses it.
\<close>

unbundle bit_operations_syntax

type_synonym u64 = "64 word"

definition rotr64 :: "nat \<Rightarrow> u64 \<Rightarrow> u64" where
  "rotr64 n x = drop_bit n x OR push_bit (64 - n) x"

definition sha512_K :: "u64 list" where
  "sha512_K =
    [4794697086780616226, 8158064640168781261, 13096744586834688815, 16840607885511220156,
     4131703408338449720, 6480981068601479193, 10538285296894168987, 12329834152419229976,
     15566598209576043074, 1334009975649890238, 2608012711638119052, 6128411473006802146,
     8268148722764581231, 9286055187155687089, 11230858885718282805, 13951009754708518548,
     16472876342353939154, 17275323862435702243, 1135362057144423861, 2597628984639134821,
     3308224258029322869, 5365058923640841347, 6679025012923562964, 8573033837759648693,
     10970295158949994411, 12119686244451234320, 12683024718118986047, 13788192230050041572,
     14330467153632333762, 15395433587784984357, 489312712824947311, 1452737877330783856,
     2861767655752347644, 3322285676063803686, 5560940570517711597, 5996557281743188959,
     7280758554555802590, 8532644243296465576, 9350256976987008742, 10552545826968843579,
     11727347734174303076, 12113106623233404929, 14000437183269869457, 14369950271660146224,
     15101387698204529176, 15463397548674623760, 17586052441742319658, 1182934255886127544,
     1847814050463011016, 2177327727835720531, 2830643537854262169, 3796741975233480872,
     4115178125766777443, 5681478168544905931, 6601373596472566643, 7507060721942968483,
     8399075790359081724, 8693463985226723168, 9568029438360202098, 10144078919501101548,
     10430055236837252648, 11840083180663258601, 13761210420658862357, 14299343276471374635,
     14566680578165727644, 15097957966210449927, 16922976911328602910, 17689382322260857208,
     500013540394364858, 748580250866718886, 1242879168328830382, 1977374033974150939,
     2944078676154940804, 3659926193048069267, 4368137639120453308, 4836135668995329356,
     5532061633213252278, 6448918945643986474, 6902733635092675308, 7801388544844847127]"

definition sha512_H0 :: "u64 list" where
  "sha512_H0 =
    [7640891576956012808, 13503953896175478587, 4354685564936845355, 11912009170470909681,
     5840696475078001361, 11170449401992604703, 2270897969802886507, 6620516959819538809]"

fun words64_of_bytes :: "nat \<Rightarrow> bytes \<Rightarrow> u64 list" where
  "words64_of_bytes 0 bs = []"
| "words64_of_bytes (Suc n) bs =
     foldl (\<lambda>w b. push_bit 8 w OR ucast b) 0 (take 8 bs) # words64_of_bytes n (drop 8 bs)"

definition sha512_pad :: "bytes \<Rightarrow> bytes" where
  "sha512_pad m = m @ 0x80 # replicate ((239 - length m mod 128) mod 128) 0
     @ be64 (of_nat (length m * 8 div 2 ^ 64)) @ be64 (of_nat (length m) * 8)"

fun sha512_extend :: "nat \<Rightarrow> u64 list \<Rightarrow> u64 list" where
  "sha512_extend 0 ws = ws"
| "sha512_extend (Suc n) ws =
     (let w15 = ws ! 14; w2 = ws ! 1;
          s0 = rotr64 1 w15 XOR rotr64 8 w15 XOR drop_bit 7 w15;
          s1 = rotr64 19 w2 XOR rotr64 61 w2 XOR drop_bit 6 w2
      in sha512_extend n ((ws ! 15 + s0 + ws ! 6 + s1) # ws))"

definition sha512_round :: "u64 list \<Rightarrow> u64 \<times> u64 \<Rightarrow> u64 list" where
  "sha512_round st kw = (case st of
     [a, b, c, d, e, f, g, h] \<Rightarrow>
       (let S1 = rotr64 14 e XOR rotr64 18 e XOR rotr64 41 e;
            ch = (e AND f) XOR (NOT e AND g);
            t1 = h + S1 + ch + fst kw + snd kw;
            S0 = rotr64 28 a XOR rotr64 34 a XOR rotr64 39 a;
            maj = (a AND b) XOR (a AND c) XOR (b AND c)
        in [t1 + S0 + maj, a, b, c, d + t1, e, f, g])
   | _ \<Rightarrow> st)"

definition sha512_block :: "u64 list \<Rightarrow> bytes \<Rightarrow> u64 list" where
  "sha512_block hs blk =
     (let ws = rev (sha512_extend 64 (rev (words64_of_bytes 16 blk)))
      in map2 (+) hs (foldl sha512_round hs (zip sha512_K ws)))"

fun sha512_blocks :: "nat \<Rightarrow> u64 list \<Rightarrow> bytes \<Rightarrow> u64 list" where
  "sha512_blocks 0 hs m = hs"
| "sha512_blocks (Suc n) hs m = sha512_blocks n (sha512_block hs (take 128 m)) (drop 128 m)"

definition sha512 :: "bytes \<Rightarrow> bytes" where
  "sha512 m = (let p = sha512_pad m in concat (map be64 (sha512_blocks (length p div 128) sha512_H0 p)))"

end
