(* ===== verification/Ed25519_Pure.thy ===== *)
theory Ed25519_Pure imports Signing Sha512 "HOL-Library.Power_By_Squaring" begin

text \<open>
  \<open>src/src/openwright/_ed25519_pure.py\<close>: the Ed25519 check in pure Python that the verifier falls
  back to without the package \<open>cryptography\<close>.  Points are pairs of integers, not reduced by the
  decoder; \<open>pow(x, e, m)\<close> is \<open>pow_mod\<close>.
\<close>

unbundle bit_operations_syntax

section \<open>Arithmetic\<close>

definition pow_mod :: "int \<Rightarrow> nat \<Rightarrow> int \<Rightarrow> int" where
  "pow_mod x e m = efficient_funpow (\<lambda>a b. a * b mod m) (1 mod m) x e"

definition ed_p :: int where
  "ed_p = 2 ^ 255 - 19"

definition ed_l :: int where
  "ed_l = 2 ^ 252 + 27742317777372353535851937790883648493"

definition ed_inv :: "int \<Rightarrow> int" where
  "ed_inv x = pow_mod x (nat (ed_p - 2)) ed_p"

definition ed_d :: int where
  "ed_d = (- 121665 * ed_inv 121666) mod ed_p"

definition ed_i :: int where
  "ed_i = pow_mod 2 (nat ((ed_p - 1) div 4)) ed_p"

definition xrecover :: "int \<Rightarrow> int" where
  "xrecover y =
     (let xx = (y * y - 1) * ed_inv (ed_d * y * y + 1);
          x = pow_mod xx (nat ((ed_p + 3) div 8)) ed_p;
          x = (if (x * x - xx) mod ed_p \<noteq> 0 then (x * ed_i) mod ed_p else x)
      in if x mod 2 \<noteq> 0 then ed_p - x else x)"

type_synonym point = "int \<times> int"

definition base_point :: point where
  "base_point = (let by = (4 * ed_inv 5) mod ed_p in (xrecover by mod ed_p, by))"

definition edwards_add :: "point \<Rightarrow> point \<Rightarrow> point" where
  "edwards_add p1 p2 =
     (let (x1, y1) = p1; (x2, y2) = p2;
          denom = ed_inv (1 + ed_d * x1 * x2 * y1 * y2);
          x3 = (x1 * y2 + x2 * y1) * denom mod ed_p;
          denom2 = ed_inv (1 - ed_d * x1 * x2 * y1 * y2);
          y3 = (y1 * y2 + x1 * x2) * denom2 mod ed_p
      in (x3, y3))"

function scalarmult_loop :: "point \<Rightarrow> point \<Rightarrow> int \<Rightarrow> point" where
  "scalarmult_loop result addend e =
     (if e > 0
      then scalarmult_loop (if e AND 1 \<noteq> 0 then edwards_add result addend else result)
             (edwards_add addend addend) (drop_bit 1 e)
      else result)"
  by pat_completeness auto
termination
  by (relation "measure (\<lambda>(result, addend, e). nat e)") (auto simp: drop_bit_eq_div)

definition scalarmult :: "point \<Rightarrow> int \<Rightarrow> point" where
  "scalarmult pt e = scalarmult_loop (0, 1) pt e"

definition is_on_curve :: "point \<Rightarrow> bool" where
  "is_on_curve pt \<longleftrightarrow> (let (x, y) = pt in (- x * x + y * y - 1 - ed_d * x * x * y * y) mod ed_p = 0)"

section \<open>Decoding and verification\<close>

text \<open>\<open>int.from_bytes(s, "little")\<close>.\<close>

fun from_little :: "bytes \<Rightarrow> int" where
  "from_little [] = 0"
| "from_little (b # bs) = uint b + 256 * from_little bs"

definition decodepoint :: "bytes \<Rightarrow> point result" where
  "decodepoint s =
     (let val = from_little s;
          y = val AND (push_bit 255 1 - 1);
          x = xrecover y;
          x = (if x AND 1 \<noteq> drop_bit 255 val AND 1 then ed_p - x else x)
      in if \<not> is_on_curve (x, y) then Inl ValueError else Inr (x, y))"

definition pure_verify :: "bytes \<Rightarrow> bytes \<Rightarrow> bytes \<Rightarrow> bool" where
  "pure_verify public_key signature message =
     (if length signature \<noteq> 64 \<or> length public_key \<noteq> 32 then False
      else case decodepoint (take 32 signature) of
        Inl _ \<Rightarrow> False
      | Inr r_point \<Rightarrow> (case decodepoint public_key of
          Inl _ \<Rightarrow> False
        | Inr a_point \<Rightarrow>
            (let s = from_little (drop 32 signature) in
             if s \<ge> ed_l then False
             else
               let h = from_little (sha512 (take 32 signature @ public_key @ message)) mod ed_l;
                   sb = scalarmult base_point s;
                   ha = scalarmult a_point h
               in sb = edwards_add r_point ha)))"

text \<open>The fallback as the verifier's Ed25519 check.\<close>

definition pure_check :: ed_check where
  "pure_check public_key signature message =
     (if pure_verify public_key signature message then Valid else InvalidSignature)"

declare scalarmult_loop.simps [simp del]

lemma verify_pure_check [simp]: "verify_signature pure_check pub sig data \<longleftrightarrow> pure_verify pub sig data"
  by (simp add: verify_signature_def pure_check_def)

end
