(* ===== verification/Browser_Verifier.thy ===== *)
theory Browser_Verifier imports Verify Ed25519_Pure begin

text \<open>
  \<open>src/src/openwright/browser_verifier.py\<close>: the verifier in one file without dependencies, which
  repeats canonicalisation, Merkle verification and the Ed25519 check.  The names of its functions
  carry the prefix \<open>bv\<close>.  The dictionary \<open>leaves\<close> is keyed by whatever number the report gives as index.
\<close>

unbundle bit_operations_syntax

section \<open>Canonical JSON\<close>

fun bv_clean :: "json \<Rightarrow> json result"
  and bv_clean_items :: "json list \<Rightarrow> json list result"
  and bv_clean_members :: "dict \<Rightarrow> dict result"
where
  "bv_clean (JDict kvs) = sbind (bv_clean_members kvs) (\<lambda>out. Inr (JDict out))"
| "bv_clean (JList xs) = sbind (bv_clean_items xs) (\<lambda>out. Inr (JList out))"
| "bv_clean (JFloat r) = Inl ValueError"
| "bv_clean v = Inr v"
| "bv_clean_items [] = Inr []"
| "bv_clean_items (x # xs) = sbind (bv_clean x) (\<lambda>x'. sbind (bv_clean_items xs) (\<lambda>xs'. Inr (x' # xs')))"
| "bv_clean_members [] = Inr []"
| "bv_clean_members ((k, v) # kvs) =
     (if v \<noteq> JNull
      then sbind (bv_clean v) (\<lambda>v'. sbind (bv_clean_members kvs) (\<lambda>out. Inr ((k, v') # out)))
      else bv_clean_members kvs)"

definition bv_canonical_bytes :: "json \<Rightarrow> bytes result" where
  "bv_canonical_bytes obj = sbind (bv_clean obj) (\<lambda>c. Inr (encode_utf8 (dumps (sort_keys c))))"

section \<open>Merkle verification\<close>

definition bv_leaf_hash :: "bytes \<Rightarrow> bytes" where
  "bv_leaf_hash data = sha256 ([0x00] @ data)"

definition bv_node_hash :: "bytes \<Rightarrow> bytes \<Rightarrow> bytes" where
  "bv_node_hash l r = sha256 ([0x01] @ l @ r)"

definition bv_largest_pow2_lt :: "nat \<Rightarrow> nat" where
  "bv_largest_pow2_lt n = while (\<lambda>k. k * 2 < n) (\<lambda>k. k * 2) 1"

lemma bv_largest [simp]: "bv_largest_pow2_lt = largest_pow2_lt"
  by (simp add: fun_eq_iff bv_largest_pow2_lt_def largest_pow2_lt_def)

function bv_tree_hash :: "bytes list \<Rightarrow> bytes" where
  "bv_tree_hash leaves =
     (let n = length leaves in
      if n = 0 then sha256 []
      else if n = 1 then leaves ! 0
      else let k = bv_largest_pow2_lt n
           in bv_node_hash (bv_tree_hash (take k leaves)) (bv_tree_hash (drop k leaves)))"
  by pat_completeness auto
termination
  by (relation "measure length") (auto simp: halves_shorter)

definition bv_align :: "int \<times> int \<Rightarrow> int \<times> int" where
  "bv_align = while (\<lambda>(fn, sn). fn AND 1 = 0 \<and> fn \<noteq> 0) (\<lambda>(fn, sn). (drop_bit 1 fn, drop_bit 1 sn))"

fun bv_inclusion_loop :: "int \<Rightarrow> int \<Rightarrow> bytes \<Rightarrow> bytes list \<Rightarrow> (int \<times> bytes) option" where
  "bv_inclusion_loop fn sn r [] = Some (sn, r)"
| "bv_inclusion_loop fn sn r (p # ps) =
     (if sn = 0 then None
      else if fn AND 1 = 1 \<or> fn = sn
      then let (fn', sn') = (if fn AND 1 = 0 then bv_align (fn, sn) else (fn, sn))
           in bv_inclusion_loop (drop_bit 1 fn') (drop_bit 1 sn') (bv_node_hash p r) ps
      else bv_inclusion_loop (drop_bit 1 fn) (drop_bit 1 sn) (bv_node_hash r p) ps)"

definition bv_verify_inclusion :: "int \<Rightarrow> int \<Rightarrow> bytes \<Rightarrow> bytes list \<Rightarrow> bytes \<Rightarrow> bool" where
  "bv_verify_inclusion leaf_index n leaf proof rt =
     (if leaf_index \<ge> n \<or> leaf_index < 0 then False
      else case bv_inclusion_loop leaf_index (n - 1) leaf proof of
             None \<Rightarrow> False
           | Some (sn, r) \<Rightarrow> sn = 0 \<and> r = rt)"

text \<open>On an index of any type: the comparisons come first, then the bit operations.\<close>

definition bv_verify_inclusion_value :: "json \<Rightarrow> int \<Rightarrow> bytes \<Rightarrow> bytes list \<Rightarrow> bytes \<Rightarrow> bool result" where
  "bv_verify_inclusion_value idx n leaf proof rt = (case idx of
     JInt i \<Rightarrow> Inr (bv_verify_inclusion i n leaf proof rt)
   | JBool b \<Rightarrow> Inr (bv_verify_inclusion (if b then 1 else 0) n leaf proof rt)
   | JFloat r \<Rightarrow>
       (let v = float_value r in
        if num_le (Finite (of_int n)) v \<or> (num_le v (Finite 0) \<and> \<not> num_eq v (Finite 0)) then Inr False
        else if proof = [] then Inr (n - 1 = 0 \<and> leaf = rt)
        else if n - 1 = 0 then Inr False else Inl TypeError)
   | _ \<Rightarrow> Inl TypeError)"

section \<open>Ed25519\<close>

definition bv_p :: int where "bv_p = 2 ^ 255 - 19"

definition bv_lo :: int where "bv_lo = 2 ^ 252 + 27742317777372353535851937790883648493"

definition bv_inv :: "int \<Rightarrow> int" where
  "bv_inv x = pow_mod x (nat (bv_p - 2)) bv_p"

definition bv_d :: int where "bv_d = (- 121665 * bv_inv 121666) mod bv_p"

definition bv_ii :: int where "bv_ii = pow_mod 2 (nat ((bv_p - 1) div 4)) bv_p"

definition bv_xrecover :: "int \<Rightarrow> int" where
  "bv_xrecover y =
     (let xx = (y * y - 1) * bv_inv (bv_d * y * y + 1);
          x = pow_mod xx (nat ((bv_p + 3) div 8)) bv_p;
          x = (if (x * x - xx) mod bv_p \<noteq> 0 then (x * bv_ii) mod bv_p else x)
      in if x mod 2 \<noteq> 0 then bv_p - x else x)"

definition bv_by :: int where "bv_by = (4 * bv_inv 5) mod bv_p"

definition bv_b :: point where "bv_b = (bv_xrecover bv_by mod bv_p, bv_by)"

definition bv_add :: "point \<Rightarrow> point \<Rightarrow> point" where
  "bv_add p1 p2 =
     (let (x1, y1) = p1; (x2, y2) = p2;
          x3 = (x1 * y2 + x2 * y1) * bv_inv (1 + bv_d * x1 * x2 * y1 * y2) mod bv_p;
          y3 = (y1 * y2 + x1 * x2) * bv_inv (1 - bv_d * x1 * x2 * y1 * y2) mod bv_p
      in (x3, y3))"

function bv_mul_loop :: "point \<Rightarrow> point \<Rightarrow> int \<Rightarrow> point" where
  "bv_mul_loop result addend e =
     (if e > 0
      then bv_mul_loop (if e AND 1 \<noteq> 0 then bv_add result addend else result)
             (bv_add addend addend) (drop_bit 1 e)
      else result)"
  by pat_completeness auto
termination
  by (relation "measure (\<lambda>(result, addend, e). nat e)") (auto simp: drop_bit_eq_div)

definition bv_mul :: "point \<Rightarrow> int \<Rightarrow> point" where
  "bv_mul pt e = bv_mul_loop (0, 1) pt e"

definition bv_on_curve :: "point \<Rightarrow> bool" where
  "bv_on_curve pt \<longleftrightarrow> (let (x, y) = pt in (- x * x + y * y - 1 - bv_d * x * x * y * y) mod bv_p = 0)"

definition bv_decodepoint :: "bytes \<Rightarrow> point result" where
  "bv_decodepoint s =
     (let val = from_little s;
          y = val AND (push_bit 255 1 - 1);
          x = bv_xrecover y;
          x = (if x AND 1 \<noteq> drop_bit 255 val AND 1 then bv_p - x else x)
      in if \<not> bv_on_curve (x, y) then Inl ValueError else Inr (x, y))"

definition bv_ed25519_verify :: "bytes \<Rightarrow> bytes \<Rightarrow> bytes \<Rightarrow> bool" where
  "bv_ed25519_verify public_key signature message =
     (if length signature \<noteq> 64 \<or> length public_key \<noteq> 32 then False
      else case bv_decodepoint (take 32 signature) of
        Inl _ \<Rightarrow> False
      | Inr r \<Rightarrow> (case bv_decodepoint public_key of
          Inl _ \<Rightarrow> False
        | Inr a \<Rightarrow>
            (let s = from_little (drop 32 signature) in
             if s \<ge> bv_lo then False
             else
               let h = from_little (sha512 (take 32 signature @ public_key @ message)) mod bv_lo
               in bv_mul bv_b s = bv_add r (bv_mul a h))))"

text \<open>
  \<open>str.splitlines\<close> on UTF-8 text: a line ends at \<open>\n\<close>, \<open>\r\n\<close>, \<open>\r\<close>, \<open>\v\<close>, \<open>\f\<close>, at the separators 28 to 30, at
  U+0085, U+2028 or U+2029.
\<close>

fun line_end :: "string \<Rightarrow> nat" where
  "line_end s =
     (let c = map of_char s :: nat list in
      if take 2 c = [13, 10] \<or> take 2 c = [194, 133] then 2
      else if take 1 c \<in> {[10], [11], [12], [13], [28], [29], [30]} then 1
      else if take 3 c = [226, 128, 168] \<or> take 3 c = [226, 128, 169] then 3 else 0)"

function splitlines_from :: "string \<Rightarrow> string \<Rightarrow> string list" where
  "splitlines_from line [] = (if line = [] then [] else [line])"
| "splitlines_from line (c # cs) =
     (if line_end (c # cs) = 0 then splitlines_from (line @ [c]) cs
      else line # splitlines_from [] (drop (line_end (c # cs)) (c # cs)))"
  by pat_completeness auto
termination
  by (relation "measure (\<lambda>(line, s). length s)") (auto simp del: line_end.simps)

definition pem_body :: "string \<Rightarrow> string" where
  "pem_body pem = concat (filter (\<lambda>line. \<not> is_substring ''-----'' line) (splitlines_from [] pem))"

text \<open>\<open>der[-32:]\<close>.\<close>

definition last_32 :: "bytes \<Rightarrow> bytes" where
  "last_32 der = drop (length der - 32) der"

definition bv_pubkey_raw_from_pem :: "string \<Rightarrow> bytes result" where
  "bv_pubkey_raw_from_pem pem = sbind (b64decode (pem_body pem)) (\<lambda>der. Inr (last_32 der))"

text \<open>The verifier's own fallback, without the package \<open>cryptography\<close>.\<close>

definition pem_fallback :: "string \<Rightarrow> bytes result" where
  "pem_fallback pem =
     sbind (b64decode (pem_body pem)) (\<lambda>der. if length der < 32 then Inl ValueError else Inr (last_32 der))"

section \<open>Report verification\<close>

definition bv_key_id :: "bytes \<Rightarrow> string" where
  "bv_key_id pub = ''ed25519:'' @ take 32 (hex (sha256 pub))"

record bv_scan =
  bs_leaf_ok :: bool
  bs_incl_ok :: bool
  bs_present :: "json list"
  bs_leaves :: "(json \<times> bytes) list"

definition bv_leaf_of :: "json \<Rightarrow> bytes result" where
  "bv_leaf_of v = (case v of
     JDict d \<Rightarrow> sbind (bv_canonical_bytes (JDict (without ''ledger'' d))) (\<lambda>b. Inr (bv_leaf_hash b))
   | _ \<Rightarrow> Inl AttributeError)"

definition bv_scan_event :: "int \<Rightarrow> bytes \<Rightarrow> json \<Rightarrow> bv_scan \<Rightarrow> bv_scan result" where
  "bv_scan_event n rt item sc =
     sbind (call_get item ''event'' (JDict [])) (\<lambda>ev.
     sbind (call_get item ''leaf_index'' JNull) (\<lambda>idx.
     sbind (call_get ev ''event_id'' JNull) (\<lambda>eid.
     if \<not> hashable eid then Inl TypeError else
     sbind (bv_leaf_of ev) (\<lambda>recomputed.
     sbind (call_get item ''leaf_hash'' (JStr [])) (\<lambda>stored.
     sbind (stored_leaf stored) (\<lambda>stored_bytes.
     sbind (call_get item ''inclusion_proof'' (JList [])) (\<lambda>pf.
     sbind (iterate pf) (\<lambda>hs.
     sbind (map_result fromhex_value hs) (\<lambda>proof.
     sbind (bv_verify_inclusion_value idx n recomputed proof rt) (\<lambda>incl.
       Inr \<lparr>bs_leaf_ok = (bs_leaf_ok sc \<and> recomputed = stored_bytes),
            bs_incl_ok = (bs_incl_ok sc \<and> incl),
            bs_present = bs_present sc @ [eid],
            bs_leaves = (idx, recomputed) # filter (\<lambda>x. \<not> py_eq (fst x) idx) (bs_leaves sc)\<rparr>))))))))))"

fun bv_scan_events :: "int \<Rightarrow> bytes \<Rightarrow> json list \<Rightarrow> bv_scan \<Rightarrow> bv_scan result" where
  "bv_scan_events n rt [] sc = Inr sc"
| "bv_scan_events n rt (v # vs) sc = sbind (bv_scan_event n rt v sc) (bv_scan_events n rt vs)"

definition bv_scan_start :: bv_scan where
  "bv_scan_start = \<lparr>bs_leaf_ok = True, bs_incl_ok = True, bs_present = [], bs_leaves = []\<rparr>"

definition bv_leaf_at :: "(json \<times> bytes) list \<Rightarrow> nat \<Rightarrow> bytes option" where
  "bv_leaf_at leaves i = map_option snd (find (\<lambda>x. py_eq (fst x) (JInt (int i))) leaves)"

definition bv_full_tree :: "int \<Rightarrow> bytes \<Rightarrow> (json \<times> bytes) list \<Rightarrow> (string \<times> bool) list" where
  "bv_full_tree n rt leaves =
     (if int (length leaves) = n \<and> list_all (\<lambda>i. bv_leaf_at leaves i \<noteq> None) [0..<nat n]
      then [(''full_tree_root'', bv_tree_hash (map (\<lambda>i. the (bv_leaf_at leaves i)) [0..<nat n]) = rt)]
      else [])"

text \<open>\<open>all(...)\<close> stops at the first cited event that is not there.\<close>

fun bv_ids_present :: "json list \<Rightarrow> json list \<Rightarrow> bool result" where
  "bv_ids_present present [] = Inr True"
| "bv_ids_present present (e # es) =
     (if \<not> hashable e then Inl TypeError
      else if list_ex (\<lambda>p. py_eq p e) present then bv_ids_present present es else Inr False)"

fun bv_evidence_ok :: "json list \<Rightarrow> json list \<Rightarrow> bool result" where
  "bv_evidence_ok present [] = Inr True"
| "bv_evidence_ok present (c # cs) =
     sbind (call_get c ''evidence_event_ids'' (JList [])) (\<lambda>v.
     sbind (iterate v) (\<lambda>ids.
     sbind (bv_ids_present present ids) (\<lambda>ok. if ok then bv_evidence_ok present cs else Inr False)))"

text \<open>The two signature checks.\<close>

definition bv_report_signature :: "dict \<Rightarrow> bytes \<Rightarrow> bool result" where
  "bv_report_signature report pub =
     sbind (call_get (dget_or report ''signature'' (JDict [])) ''signature'' (JStr [])) (\<lambda>s.
     sbind (b64decode_value s) (\<lambda>sig.
     sbind (bv_canonical_bytes (JDict (without ''signature'' report))) (\<lambda>data.
       Inr (bv_ed25519_verify pub sig data))))"

definition bv_checkpoint_bytes :: "dict \<Rightarrow> bytes result" where
  "bv_checkpoint_bytes cp = bv_canonical_bytes (JDict [(''origin'', attr cp ''origin''),
     (''root_hash'', attr cp ''root_hash''), (''timestamp'', attr cp ''timestamp''), (''tree_size'', attr cp ''tree_size'')])"

definition bv_checkpoint_signature :: "dict \<Rightarrow> bytes \<Rightarrow> bool result" where
  "bv_checkpoint_signature cp pub =
     sbind (bv_checkpoint_bytes cp) (\<lambda>data.
     sbind (b64decode_value (dget_or cp ''signature'' (JStr []))) (\<lambda>sig.
       Inr (bv_ed25519_verify pub sig data \<and> attr cp ''public_key_id'' = JStr (bv_key_id pub))))"

definition bv_verify_report :: "dict \<Rightarrow> bytes \<Rightarrow> (bool \<times> (string \<times> bool) list) result" where
  "bv_verify_report report pub =
     sbind (bv_report_signature report pub) (\<lambda>sig_ok.
     case dget_or report ''checkpoint'' (JDict []) of
       JDict cp \<Rightarrow>
         sbind (bv_checkpoint_signature cp pub) (\<lambda>cp_ok.
         sbind (item_at (JDict cp) ''root_hash'') (\<lambda>r. sbind (fromhex_value r) (\<lambda>rt.
         sbind (item_at (JDict cp) ''tree_size'') (\<lambda>v. sbind (py_int v) (\<lambda>n.
         sbind (iterate (dget_or report ''events'' (JList []))) (\<lambda>items.
         sbind (bv_scan_events n rt items bv_scan_start) (\<lambda>sc.
         sbind (iterate (dget_or report ''controls'' (JList []))) (\<lambda>cs.
         sbind (bv_evidence_ok (bs_present sc) cs) (\<lambda>ev_ok.
           let checks = [(''report_signature'', sig_ok), (''checkpoint_signature'', cp_ok),
                 (''event_leaf_hashes'', bs_leaf_ok sc), (''inclusion_proofs'', bs_incl_ok sc)]
                 @ bv_full_tree n rt (bs_leaves sc) @ [(''evidence_events_present'', ev_ok)]
           in Inr (list_all snd checks, checks))))))))))
     | _ \<Rightarrow> Inl AttributeError)"

section \<open>The command line\<close>

text \<open>Exit code and the lines printed; \<open>read_file\<close> gives the text of a file.\<close>

definition bv_line :: "string \<times> bool \<Rightarrow> string" where
  "bv_line check = ''  ['' @ (if snd check then ''OK'' else ''FAIL'') @ ''] '' @ fst check"

definition bv_main :: "(string \<Rightarrow> string result) \<Rightarrow> string list \<Rightarrow> (int \<times> string list) result" where
  "bv_main read_file argv =
     (case argv of
        [prog, report_path, key_path] \<Rightarrow>
          sbind (sbind (read_file report_path) loads) (\<lambda>report.
          sbind (sbind (read_file key_path) bv_pubkey_raw_from_pem) (\<lambda>pub.
          case report of
            JDict d \<Rightarrow>
              sbind (bv_verify_report d pub) (\<lambda>(valid, checks).
                Inr (if valid then 0 else 1,
                     (''VALID: '' @ (if valid then ''True'' else ''False'')) # map bv_line checks))
          | _ \<Rightarrow> Inl AttributeError))
      | _ \<Rightarrow> Inr (2, [''usage: python openwright_verifier.py report.json public_key.pem'']))"

declare bv_tree_hash.simps [simp del] bv_mul_loop.simps [simp del] line_end.simps [simp del]

end
