(* ===== verification/Ed25519_Properties.thy ===== *)
theory Ed25519_Properties imports Ed25519_Pure begin

text \<open>
  What the pure Ed25519 check accepts: the bounds it enforces on keys and signatures, and the
  encodings of the identity point, which RFC 8032 wants rejected when they are not canonical.
\<close>

lemma pow_mod_eq: "pow_mod x e m = x ^ e mod m"
proof -
  have "((\<lambda>b. x * b mod m) ^^ e) (1 mod m) = x ^ e mod m"
    by (induction e) (simp_all add: mod_mult_right_eq)
  moreover have "efficient_funpow (\<lambda>a b. a * b mod m) (1 mod m) x e = ((\<lambda>b. x * b mod m) ^^ e) (1 mod m)"
    by (rule efficient_funpow_correct)
      (simp add: mod_mult_right_eq mod_mult_left_eq mult.assoc mult.left_commute)
  ultimately show ?thesis by (simp add: pow_mod_def)
qed

lemma ed_p_pos: "2 < ed_p" "0 < ed_p" "ed_p \<noteq> 0"
  by (simp_all add: ed_p_def)

lemma ed_p_odd: "odd ed_p"
  by (simp add: ed_p_def)

lemma ed_inv_cong: "x mod ed_p = y mod ed_p \<Longrightarrow> ed_inv x = ed_inv y"
  unfolding ed_inv_def pow_mod_eq by (metis power_mod)

lemma ed_inv_one: "x mod ed_p = 1 \<Longrightarrow> ed_inv x = 1"
  using ed_inv_cong [of x 1] ed_p_pos by (simp add: ed_inv_def pow_mod_eq)

section \<open>Sums are reduced\<close>

definition reduced :: "point \<Rightarrow> bool" where
  "reduced pt \<longleftrightarrow> 0 \<le> fst pt \<and> fst pt < ed_p \<and> 0 \<le> snd pt \<and> snd pt < ed_p"

lemma edwards_add_reduced: "reduced (edwards_add p q)"
  using ed_p_pos by (simp add: reduced_def edwards_add_def Let_def split: prod.splits)

lemma scalarmult_loop_reduced: "reduced r \<Longrightarrow> reduced (scalarmult_loop r a e)"
proof (induction r a e rule: scalarmult_loop.induct)
  case (1 r a e)
  then show ?case
    by (subst scalarmult_loop.simps) (simp add: edwards_add_reduced)
qed

lemma scalarmult_reduced: "reduced (scalarmult pt e)"
  unfolding scalarmult_def by (rule scalarmult_loop_reduced) (use ed_p_pos in \<open>simp add: reduced_def\<close>)

section \<open>The identity point\<close>

text \<open>Adding a point congruent to \<open>(0, 1)\<close> reduces the other.\<close>

definition neutral :: "point \<Rightarrow> bool" where
  "neutral pt \<longleftrightarrow> fst pt mod ed_p = 0 \<and> snd pt mod ed_p = 1"

lemma neutral_add:
  assumes "neutral p" "neutral q"
  shows "edwards_add p q = (0, 1)"
proof -
  obtain x1 y1 x2 y2 where pq: "p = (x1, y1)" "q = (x2, y2)" by force
  have x: "x1 mod ed_p = 0" "x2 mod ed_p = 0" and y: "y1 mod ed_p = 1" "y2 mod ed_p = 1"
    using assms by (simp_all add: neutral_def pq)
  obtain a b where ab: "x1 = ed_p * a" "x2 = ed_p * b" using x by (auto elim!: dvdE simp: mod_eq_0_iff_dvd)
  have zero: "(ed_d * x1 * x2 * y1 * y2) mod ed_p = 0" by (simp add: ab)
  have one: "1 mod ed_p = 1" using ed_p_pos by simp
  have "(1 + ed_d * x1 * x2 * y1 * y2) mod ed_p = 1" "(1 - ed_d * x1 * x2 * y1 * y2) mod ed_p = 1"
    using zero one by (metis add.right_neutral mod_add_right_eq, metis diff_zero mod_diff_right_eq)
  then have inv: "ed_inv (1 + ed_d * x1 * x2 * y1 * y2) = 1" "ed_inv (1 - ed_d * x1 * x2 * y1 * y2) = 1"
    by (simp_all add: ed_inv_one)
  have "(x1 * y2 + x2 * y1) mod ed_p = 0" by (simp add: ab distrib_left [symmetric] mult.assoc)
  moreover have "(y1 * y2 + x1 * x2) mod ed_p = 1"
    using y one by (simp add: ab mult.assoc) (metis mod_mult_eq mult_1)
  ultimately show ?thesis by (simp add: edwards_add_def pq inv)
qed

lemma neutral_loop:
  assumes "neutral a"
  shows "neutral r \<Longrightarrow> neutral (scalarmult_loop r a e)"
  using assms
proof (induction r a e rule: scalarmult_loop.induct)
  case (1 r a e)
  have "neutral (0, 1)" using ed_p_pos by (simp add: neutral_def)
  then show ?case using 1 by (subst scalarmult_loop.simps) (simp add: neutral_add)
qed

lemma neutral_scalarmult: "neutral a \<Longrightarrow> neutral (scalarmult a e)"
  unfolding scalarmult_def by (rule neutral_loop) (use ed_p_pos in \<open>simp_all add: neutral_def\<close>)

lemma scalarmult_zero: "scalarmult pt 0 = (0, 1)"
  by (simp add: scalarmult_def scalarmult_loop.simps)

section \<open>Encodings of the identity\<close>

text \<open>The identity point \<open>(0, 1)\<close>: its encoding, and three that RFC 8032 does not decode, with the sign
  of a zero \<open>x\<close> set, or with \<open>y = p + 1\<close>.\<close>

definition identity_encodings :: "bytes list" where
  "identity_encodings =
     [[1] @ replicate 31 0, [1] @ replicate 30 0 @ [0x80],
      [0xEE] @ replicate 30 0xFF @ [0x7F], [0xEE] @ replicate 31 0xFF]"

lemma xrecover_one:
  assumes "y mod ed_p = 1"
  shows "xrecover y = 0"
proof -
  have "(y * y - 1) mod ed_p = 0"
    using assms ed_p_pos by (metis cancel_comm_monoid_add_class.diff_cancel mod_0 mod_diff_left_eq mod_mult_eq mult_1)
  then obtain k where k: "y * y - 1 = ed_p * k" by (auto elim!: dvdE simp: mod_eq_0_iff_dvd)
  have "0 < nat ((ed_p + 3) div 8)" by (simp add: ed_p_def)
  then have "(ed_p * c) ^ nat ((ed_p + 3) div 8) mod ed_p = 0" for c by (simp add: power_mult_distrib mod_eq_0_iff_dvd dvd_power)
  then show ?thesis by (simp add: xrecover_def k pow_mod_eq Let_def mult.assoc)
qed

lemma on_curve_neutral:
  assumes "neutral (x, y)"
  shows "is_on_curve (x, y)"
proof -
  obtain a b where ab: "x = ed_p * a" "y = 1 + ed_p * b"
    using assms by (auto simp: neutral_def mod_eq_0_iff_dvd elim!: dvdE) (metis add.commute mult_div_mod_eq)
  have "- x * x + y * y - 1 - ed_d * x * x * y * y
      = ed_p * (- a * x + 2 * b + ed_p * b * b - ed_d * a * x * y * y)"
    by (simp add: ab algebra_simps)
  then show ?thesis by (simp add: is_on_curve_def)
qed

lemma decode_neutral:
  assumes "from_little s AND (push_bit 255 1 - 1) = y" "y mod ed_p = 1"
  shows "\<exists>pt. decodepoint s = Inr pt \<and> neutral pt"
proof -
  let ?x = "if (0 :: int) AND 1 \<noteq> drop_bit 255 (from_little s) AND 1 then ed_p - 0 else 0"
  have "neutral (?x, y)" using assms(2) by (simp add: neutral_def)
  moreover have "decodepoint s = (if \<not> is_on_curve (?x, y) then Inl ValueError else Inr (?x, y))"
    unfolding decodepoint_def Let_def assms(1) xrecover_one [OF assms(2)] ..
  ultimately show ?thesis using on_curve_neutral by simp
qed

lemma from_little_append: "from_little (xs @ ys) = from_little xs + 256 ^ length xs * from_little ys"
  by (induction xs) (simp_all add: algebra_simps)

lemma from_little_zeros [simp]: "from_little (replicate n 0) = 0"
  by (induction n) simp_all

lemma from_little_ones: "from_little (replicate n 0xFF) = 256 ^ n - 1"
  by (induction n) simp_all

lemma identity_decoded:
  assumes "k \<in> set identity_encodings"
  shows "length k = 32 \<and> (\<exists>pt. decodepoint k = Inr pt \<and> neutral pt)"
proof -
  have one: "(1 :: int) mod ed_p = 1" "(ed_p + 1) mod ed_p = 1" by (simp_all add: ed_p_def)
  have mask: "v AND (push_bit 255 1 - 1) = v mod 2 ^ 255" for v :: int
    unfolding take_bit_eq_mod [symmetric] take_bit_eq_mask mask_eq_exp_minus_1 push_bit_eq_mult mult_1 ..
  from assms consider "k = [1] @ replicate 31 0" | "k = [1] @ replicate 30 0 @ [0x80]"
    | "k = [0xEE] @ replicate 30 0xFF @ [0x7F]" | "k = [0xEE] @ replicate 31 0xFF"
    unfolding identity_encodings_def list.set by blast
  then have "length k = 32 \<and> (from_little k mod 2 ^ 255 = 1 \<or> from_little k mod 2 ^ 255 = ed_p + 1)"
    by cases (simp_all add: from_little_append from_little_ones ed_p_def)
  then show ?thesis using decode_neutral [of k, unfolded mask] one by metis
qed

lemma identity_verifies:
  assumes "k \<in> set identity_encodings" "r \<in> set identity_encodings"
  shows "pure_verify k (r @ replicate 32 0) message"
proof -
  obtain a b where ab: "decodepoint k = Inr a" "neutral a" "decodepoint r = Inr b" "neutral b"
    "length k = 32" "length r = 32" using assms identity_decoded by metis
  then show ?thesis
    by (simp add: pure_verify_def Let_def scalarmult_zero neutral_add neutral_scalarmult) (simp add: ed_l_def)
qed

section \<open>Bounds\<close>

lemma from_little_nonneg: "0 \<le> from_little xs"
  by (induction xs) simp_all

lemma last_byte_bound:
  assumes "length xs = 31"
  shows "from_little (xs @ [b]) < ed_l \<Longrightarrow> uint b \<le> 16"
proof -
  assume less: "from_little (xs @ [b]) < ed_l"
  have "2 ^ 248 * uint b \<le> from_little (xs @ [b])"
    using from_little_nonneg [of xs] by (simp add: from_little_append assms)
  with less have "2 ^ 248 * uint b < 2 ^ 248 * (17 :: int)" by (simp add: ed_l_def)
  then show ?thesis by simp
qed

lemma from_little_inject:
  "length xs = length ys \<Longrightarrow> from_little xs = from_little ys \<Longrightarrow> xs = ys"
proof (induction xs ys rule: list_induct2)
  case (Cons x xs y ys)
  have "uint b < 256" for b :: "8 word" using uint_lt2p [of b] by simp
  then have "uint b mod 256 = uint b" for b :: "8 word" by (simp add: mod_pos_pos_trivial)
  then have "(uint b + 256 * v) mod 256 = uint b" for b :: "8 word" and v by simp
  then have "uint x = uint y" using Cons.prems by (metis from_little.simps(2))
  then have "x = y" by (rule word_uint_eq_iff [THEN iffD2])
  with Cons show ?case by simp
qed simp

text \<open> C35. Signatures are not malleable in their scalar: of two accepted signatures with the same point whose
  scalars differ by a multiple of the group order, whatever keys and messages they are accepted for, the
  bytes are the same; an accepted signature has 64 bytes, a scalar below the group order and so a last byte
  of at most 16.\<close>

theorem signature_not_malleable:
  assumes "pure_verify pub sig msg" "pure_verify pub' sig' msg'" "take 32 sig' = take 32 sig"
    and "(from_little (drop 32 sig') - from_little (drop 32 sig)) mod ed_l = 0"
  shows "sig' = sig \<and> length sig = 64 \<and> from_little (drop 32 sig) < ed_l \<and> uint (sig ! 63) \<le> 16"
proof -
  have len: "length sig = 64" "length sig' = 64"
    and less: "from_little (drop 32 sig) < ed_l" "from_little (drop 32 sig') < ed_l"
    using assms(1,2) by (auto simp: pure_verify_def Let_def split: if_splits sum.splits)
  have "from_little (drop 32 sig') mod ed_l = from_little (drop 32 sig) mod ed_l"
    using assms(4) by (simp add: mod_eq_dvd_iff mod_eq_0_iff_dvd)
  then have "from_little (drop 32 sig') = from_little (drop 32 sig)"
    using less from_little_nonneg by (simp add: mod_pos_pos_trivial)
  then have "drop 32 sig' = drop 32 sig" using len by (intro from_little_inject) simp_all
  then have same: "sig' = sig" using assms(3) by (metis append_take_drop_id)
  have "drop 32 sig = take 31 (drop 32 sig) @ [sig ! 63]"
    using len take_Suc_conv_app_nth [of 31 "drop 32 sig"] by simp
  with less(1) len have "uint (sig ! 63) \<le> 16" using last_byte_bound [of "take 31 (drop 32 sig)" "sig ! 63"] by simp
  with same len less show ?thesis by simp
qed

definition identity_signature :: bytes where
  "identity_signature = ([1] @ replicate 31 0) @ replicate 32 0"

lemma identity_signature: "pure_verify ([1] @ replicate 31 0) identity_signature msg"
  unfolding identity_signature_def by (rule identity_verifies) (simp_all add: identity_encodings_def)

theorem signature_not_malleable_witness:
  "length identity_signature = 64 \<and> uint (identity_signature ! 63) \<le> 16"
  using signature_not_malleable [OF identity_signature [of "[]"] identity_signature [of "[]"]] by simp

text \<open> A public key that encodes the identity point accepts one signature for every message, in each of
  its four encodings, three of which RFC 8032 does not decode.\<close>

theorem identity_keys_accept_all:
  "list_all (\<lambda>k. list_all (\<lambda>r. pure_verify k (r @ replicate 32 0) message) identity_encodings) identity_encodings"
  by (simp add: list_all_iff identity_verifies)

end
