(* ===== verification/Browser_Properties.thy ===== *)
theory Browser_Properties imports Browser_Verifier Ed25519_Properties Verify_Properties begin

text \<open>
  The browser verifier against the verifier: the copies compute the same functions, a report that the
  one answers for is accepted by both or by neither up to a few named checks, and reports built from a
  ledger are accepted.
\<close>

section \<open>The copied functions\<close>

lemma bv_clean_eq:
  "bv_clean j = (case clean Some j of Inl _ \<Rightarrow> Inl ValueError | Inr c \<Rightarrow> Inr c)"
  "bv_clean_items xs = (case clean_items Some xs of Inl _ \<Rightarrow> Inl ValueError | Inr c \<Rightarrow> Inr c)"
  "bv_clean_members kvs = (case clean_members Some kvs of Inl _ \<Rightarrow> Inl ValueError | Inr c \<Rightarrow> Inr c)"
  by (induction j and xs and kvs rule: bv_clean_bv_clean_items_bv_clean_members.induct)
    (simp_all split: sum.splits)

lemma bv_canonical_bytes_eq:
  "bv_canonical_bytes j = (case canonical_bytes j of Inl _ \<Rightarrow> Inl ValueError | Inr b \<Rightarrow> Inr b)"
  by (simp add: bv_canonical_bytes_def bv_clean_eq canonical_bytes_of_def canonical_text_def split: sum.splits)

lemma bv_canonical_bytes_iff [simp]: "bv_canonical_bytes j = Inr b \<longleftrightarrow> canonical_bytes j = Inr b"
  by (simp add: bv_canonical_bytes_eq split: sum.splits)

lemma bv_hashes [simp]: "bv_leaf_hash = leaf_hash" "bv_node_hash = node_hash" "bv_key_id = key_id_for"
  by (simp_all add: fun_eq_iff bv_leaf_hash_def leaf_hash_def leaf_prefix_def bv_node_hash_def node_hash_def
      node_prefix_def bv_key_id_def key_id_for_def sha256_hex_def)

lemma bv_tree_hash_eq [simp]: "bv_tree_hash leaves = tree_hash leaves"
proof (induction leaves rule: bv_tree_hash.induct)
  case (1 leaves)
  then show ?case
    by (subst bv_tree_hash.simps, subst tree_hash.simps) (simp add: Let_def empty_root_def)
qed

lemma bv_align_eq [simp]: "bv_align = align"
  by (simp add: bv_align_def align_def)

lemma bv_inclusion_loop_eq [simp]: "bv_inclusion_loop fn sn r ps = inclusion_loop fn sn r ps"
  by (induction fn sn r ps rule: inclusion_loop.induct) (simp_all split: prod.splits)

lemma bv_verify_inclusion_eq [simp]: "bv_verify_inclusion = verify_inclusion"
  by (simp add: fun_eq_iff bv_verify_inclusion_def verify_inclusion_def)

lemma bv_verify_inclusion_value_eq [simp]: "bv_verify_inclusion_value = verify_inclusion_value"
  by (intro ext) (simp only: bv_verify_inclusion_value_def verify_inclusion_value_def bv_verify_inclusion_eq)

lemma bv_constants [simp]: "bv_p = ed_p" "bv_lo = ed_l" "bv_inv = ed_inv" "bv_d = ed_d" "bv_ii = ed_i"
  "bv_xrecover = xrecover" "bv_b = base_point" "bv_add = edwards_add" "bv_on_curve = is_on_curve"
  "bv_decodepoint = decodepoint"
proof -
  show a [simp]: "bv_p = ed_p" "bv_lo = ed_l" by (simp_all add: bv_p_def ed_p_def bv_lo_def ed_l_def)
  show b [simp]: "bv_inv = ed_inv" by (simp add: fun_eq_iff bv_inv_def ed_inv_def)
  show c [simp]: "bv_d = ed_d" "bv_ii = ed_i" by (simp_all add: bv_d_def ed_d_def bv_ii_def ed_i_def)
  show d [simp]: "bv_xrecover = xrecover" by (intro ext) (simp only: bv_xrecover_def xrecover_def a b c)
  show "bv_b = base_point" by (simp add: bv_b_def bv_by_def base_point_def Let_def)
  show "bv_add = edwards_add" by (intro ext) (simp only: bv_add_def edwards_add_def Let_def a b c)
  show e [simp]: "bv_on_curve = is_on_curve" by (intro ext) (simp only: bv_on_curve_def is_on_curve_def a b c)
  show "bv_decodepoint = decodepoint" by (intro ext) (simp only: bv_decodepoint_def decodepoint_def a d e)
qed

lemma bv_mul_loop_eq: "bv_mul_loop r a e = scalarmult_loop r a e"
proof (induction r a e rule: scalarmult_loop.induct)
  case (1 r a e)
  show ?case
  proof (cases "e > 0")
    case True
    with 1 show ?thesis by (subst bv_mul_loop.simps, subst scalarmult_loop.simps) (simp only: if_True bv_constants)
  qed (simp add: bv_mul_loop.simps scalarmult_loop.simps)
qed

lemma bv_ed25519_eq: "bv_ed25519_verify = pure_verify"
  unfolding fun_eq_iff bv_ed25519_verify_def pure_verify_def Let_def bv_constants bv_mul_def scalarmult_def bv_mul_loop_eq
  by blast

section \<open>The scan of the events\<close>

text \<open>What a step of the scan reads of an item: leaf and inclusion outcome, id, index and leaf.\<close>

definition observed :: "json result \<Rightarrow> int \<Rightarrow> bytes \<Rightarrow> json \<Rightarrow> (bool \<times> bool \<times> json \<times> json \<times> bytes) result" where
  "observed ev n rt item =
     sbind ev (\<lambda>ev.
     sbind (call_get item ''leaf_index'' JNull) (\<lambda>idx.
     sbind (call_get ev ''event_id'' JNull) (\<lambda>eid.
     if \<not> hashable eid then Inl TypeError else
     sbind (leaf_from_event ev) (\<lambda>recomputed.
     sbind (call_get item ''leaf_hash'' (JStr [])) (\<lambda>stored.
     sbind (stored_leaf stored) (\<lambda>stored_bytes.
     sbind (call_get item ''inclusion_proof'' (JList [])) (\<lambda>pf.
     sbind (iterate pf) (\<lambda>hs.
     sbind (map_result fromhex_value hs) (\<lambda>proof.
     sbind (verify_inclusion_value idx n recomputed proof rt) (\<lambda>incl.
       Inr (recomputed = stored_bytes, incl, eid, idx, recomputed)))))))))))"

fun noted :: "bool \<times> bool \<times> json \<times> json \<times> bytes \<Rightarrow> event_scan \<Rightarrow> event_scan" where
  "noted (leaf, incl, eid, idx, h) sc = \<lparr>sc_leaf_ok = (sc_leaf_ok sc \<and> leaf), sc_incl_ok = (sc_incl_ok sc \<and> incl),
     sc_present = sc_present sc @ [eid], sc_leaves = (case int_index idx of
       Some i \<Rightarrow> (i, h) # filter (\<lambda>x. fst x \<noteq> i) (sc_leaves sc) | None \<Rightarrow> sc_leaves sc)\<rparr>"

fun bv_noted :: "bool \<times> bool \<times> json \<times> json \<times> bytes \<Rightarrow> bv_scan \<Rightarrow> bv_scan" where
  "bv_noted (leaf, incl, eid, idx, h) sc = \<lparr>bs_leaf_ok = (bs_leaf_ok sc \<and> leaf), bs_incl_ok = (bs_incl_ok sc \<and> incl),
     bs_present = bs_present sc @ [eid],
     bs_leaves = (idx, h) # filter (\<lambda>x. \<not> py_eq (fst x) idx) (bs_leaves sc)\<rparr>"

lemma scan_event_observed:
  "scan_event n rt item sc = Inr sc' \<longleftrightarrow> (\<exists>ev x. call_get item ''event'' JNull = Inr ev
     \<and> observed (Inr (or_empty ev)) n rt item = Inr x \<and> sc' = noted x sc)"
  by (simp add: scan_event_def observed_def sbind_Inr_conv Let_def ex_simps [symmetric] cong: conj_cong del: ex_simps)
    (auto simp: sbind_Inr_conv split: if_splits)

lemma bv_leaf_of_iff: "bv_leaf_of ev = Inr h \<longleftrightarrow> leaf_from_event ev = Inr h"
  by (cases ev) (simp_all add: bv_leaf_of_def leaf_from_event_def sbind_Inr_conv)

lemma bv_scan_event_observed:
  "bv_scan_event n rt item sc = Inr sc' \<longleftrightarrow> (\<exists>ev x. call_get item ''event'' (JDict []) = Inr ev
     \<and> observed (Inr ev) n rt item = Inr x \<and> sc' = bv_noted x sc)"
  by (simp add: bv_scan_event_def observed_def sbind_Inr_conv bv_leaf_of_iff ex_simps [symmetric] cong: conj_cong del: ex_simps)
    (auto simp: sbind_Inr_conv split: if_splits)

text \<open>The two scans of a list of items observe the same, when the events are there.\<close>

fun observed_all :: "int \<Rightarrow> bytes \<Rightarrow> (json \<times> json) list \<Rightarrow> (bool \<times> bool \<times> json \<times> json \<times> bytes) list result" where
  "observed_all n rt [] = Inr []"
| "observed_all n rt ((ev, item) # rest) =
     sbind (observed (Inr ev) n rt item) (\<lambda>x. sbind (observed_all n rt rest) (\<lambda>xs. Inr (x # xs)))"

lemma scans_observed:
  "scan_events n rt items sc = Inr sc' \<longleftrightarrow> (\<exists>evs xs. map_result (\<lambda>item. call_get item ''event'' JNull) items = Inr evs
     \<and> observed_all n rt (zip (map or_empty evs) items) = Inr xs \<and> sc' = fold noted xs sc)"
proof (induction items arbitrary: sc)
  case (Cons item items)
  show ?case
    by (simp add: sbind_Inr_conv scan_event_observed Cons ex_simps [symmetric] cong: conj_cong del: ex_simps)
      (auto simp: sbind_Inr_conv)
qed auto

lemma bv_scans_observed:
  "bv_scan_events n rt items sc = Inr sc' \<longleftrightarrow> (\<exists>evs xs. map_result (\<lambda>item. call_get item ''event'' (JDict [])) items = Inr evs
     \<and> observed_all n rt (zip evs items) = Inr xs \<and> sc' = fold bv_noted xs sc)"
proof (induction items arbitrary: sc)
  case (Cons item items)
  show ?case
    by (simp add: sbind_Inr_conv bv_scan_event_observed Cons ex_simps [symmetric] cong: conj_cong del: ex_simps)
      (auto simp: sbind_Inr_conv)
qed auto

lemma observed_all_each:
  "observed_all n rt its = Inr xs \<Longrightarrow> x \<in> set xs \<Longrightarrow> \<exists>ev item. observed (Inr ev) n rt item = Inr x"
proof (induction n rt its arbitrary: xs rule: observed_all.induct)
  case (2 n rt ev item rest)
  then obtain y ys where "observed (Inr ev) n rt item = Inr y" "observed_all n rt rest = Inr ys" "xs = y # ys"
    by (auto simp: sbind_Inr_conv)
  with 2 show ?case by (metis set_ConsD)
qed simp

lemma inclusion_in_single: "verify_inclusion i 1 leaf pth rt \<Longrightarrow> leaf = rt"
  by (cases pth) (auto simp: verify_inclusion_def split: if_splits)

lemma observed_included:
  assumes "observed (Inr ev) n rt item = Inr (leaf, True, eid, idx, h)"
  shows "(n = 1 \<longrightarrow> h = rt) \<and> (n \<noteq> 1 \<longrightarrow> int_index idx \<noteq> None)"
proof -
  obtain pth where "verify_inclusion_value idx n h pth rt = Inr True"
    using assms by (auto simp: observed_def sbind_Inr_conv split: if_splits)
  then show ?thesis
    by (cases idx) (auto simp: verify_inclusion_value_def int_index_def Let_def dest: inclusion_in_single split: if_splits)
qed

lemma scan_flags:
  "sc_leaf_ok (fold noted xs s) \<longleftrightarrow> sc_leaf_ok s \<and> list_all fst xs"
  "sc_incl_ok (fold noted xs s) \<longleftrightarrow> sc_incl_ok s \<and> list_all (\<lambda>x. fst (snd x)) xs"
  "sc_present (fold noted xs s) = sc_present s @ map (\<lambda>x. fst (snd (snd x))) xs"
  "bs_leaf_ok (fold bv_noted xs b) \<longleftrightarrow> bs_leaf_ok b \<and> list_all fst xs"
  "bs_incl_ok (fold bv_noted xs b) \<longleftrightarrow> bs_incl_ok b \<and> list_all (\<lambda>x. fst (snd x)) xs"
  "bs_present (fold bv_noted xs b) = bs_present b @ map (\<lambda>x. fst (snd (snd x))) xs"
  by (induction xs arbitrary: s b) auto

text \<open>The leaves kept by index, when every index is an integer, and when every leaf is the root.\<close>

lemma int_index_eq: "int_index a = Some i \<Longrightarrow> int_index b = Some j \<Longrightarrow> py_eq a b \<longleftrightarrow> i = j"
  by (cases a; cases b) (auto simp: int_index_def num_value_of_def split: if_splits)

lemma leaves_by_int:
  assumes "\<forall>x \<in> set xs. int_index (fst (snd (snd (snd x)))) \<noteq> None" "\<forall>x \<in> set (bs_leaves b). int_index (fst x) \<noteq> None"
    and "sc_leaves s = map (\<lambda>x. (the (int_index (fst x)), snd x)) (bs_leaves b)"
  shows "(\<forall>x \<in> set (bs_leaves (fold bv_noted xs b)). int_index (fst x) \<noteq> None)
    \<and> sc_leaves (fold noted xs s) = map (\<lambda>x. (the (int_index (fst x)), snd x)) (bs_leaves (fold bv_noted xs b))"
  using assms
proof (induction xs arbitrary: s b)
  case (Cons x xs)
  obtain leaf incl eid idx h where x: "x = (leaf, incl, eid, idx, h)" by (metis surj_pair)
  obtain i where i: "int_index idx = Some i" using Cons.prems(1) by (auto simp: x)
  have "filter (\<lambda>y. fst y \<noteq> i) (map (\<lambda>x. (the (int_index (fst x)), snd x)) L)
      = map (\<lambda>x. (the (int_index (fst x)), snd x)) (filter (\<lambda>y. \<not> py_eq (fst y) idx) L)"
    if "\<forall>x \<in> set L. int_index (fst x) \<noteq> None" for L :: "(json \<times> bytes) list"
    using that by (induction L) (auto simp: int_index_eq [OF _ i])
  then have kept: "sc_leaves (noted x s) = map (\<lambda>x. (the (int_index (fst x)), snd x)) (bs_leaves (bv_noted x b))"
    using Cons.prems(2,3) by (simp add: x i)
  have ints: "\<forall>y \<in> set xs. int_index (fst (snd (snd (snd y)))) \<noteq> None"
    "\<forall>y \<in> set (bs_leaves (bv_noted x b)). int_index (fst y) \<noteq> None"
    using Cons.prems(1,2) i by (auto simp: x)
  show ?case unfolding fold.simps comp_apply by (rule Cons.IH [OF ints kept])
qed simp

lemma leaves_of_root:
  assumes "\<forall>x \<in> set xs. snd (snd (snd (snd x))) = rt" "\<forall>x \<in> set (bs_leaves b). snd x = rt" "\<forall>x \<in> set (sc_leaves s). snd x = rt"
  shows "(\<forall>x \<in> set (bs_leaves (fold bv_noted xs b)). snd x = rt) \<and> (\<forall>x \<in> set (sc_leaves (fold noted xs s)). snd x = rt)"
  using assms
proof (induction xs arbitrary: s b)
  case (Cons x xs)
  obtain leaf incl eid idx h where x: "x = (leaf, incl, eid, idx, h)" by (metis surj_pair)
  show ?case using Cons.prems by (simp, intro Cons.IH) (auto simp: x split: option.splits)
qed simp

lemma bv_leaf_at_int:
  assumes "\<forall>x \<in> set L. int_index (fst x) \<noteq> None"
  shows "bv_leaf_at L i = map_of (map (\<lambda>x. (the (int_index (fst x)), snd x)) L) (int i)"
  using assms
proof (induction L)
  case (Cons x L)
  obtain j where j: "int_index (fst x) = Some j" using Cons.prems by auto
  have "py_eq (fst x) (JInt (int i)) \<longleftrightarrow> j = int i" by (rule int_index_eq [OF j]) (simp add: int_index_def)
  then show ?case using Cons j by (simp add: bv_leaf_at_def)
qed (simp add: bv_leaf_at_def)

lemma full_trees_agree:
  assumes "observed_all n rt its = Inr xs" "list_all (\<lambda>x. fst (snd x)) xs"
  shows "vr_valid (check_full_tree n rt (fold noted xs scan_start) res)
    \<longleftrightarrow> vr_valid res \<and> list_all snd (bv_full_tree n rt (bs_leaves (fold bv_noted xs bv_scan_start)))"
proof -
  let ?s = "fold noted xs scan_start" and ?b = "fold bv_noted xs bv_scan_start"
  have facts: "(n = 1 \<longrightarrow> snd (snd (snd (snd x))) = rt) \<and> (n \<noteq> 1 \<longrightarrow> int_index (fst (snd (snd (snd x)))) \<noteq> None)"
    if mem: "x \<in> set xs" for x
  proof -
    obtain leaf incl eid idx h where "x = (leaf, incl, eid, idx, h)" by (metis surj_pair)
    moreover have "fst (snd x)" using assms(2) mem by (simp add: list_all_iff)
    ultimately have x: "x = (leaf, True, eid, idx, h)" by simp
    obtain ev item where "observed (Inr ev) n rt item = Inr x" using observed_all_each [OF assms(1) mem] by blast
    from observed_included [OF this [unfolded x]] show ?thesis by (simp add: x)
  qed
  show ?thesis
  proof (cases "n = 1")
    case True
    have root: "\<forall>x \<in> set (bs_leaves ?b). snd x = rt" "\<forall>x \<in> set (sc_leaves ?s). snd x = rt"
      using leaves_of_root [of xs rt bv_scan_start scan_start] facts True by (simp_all add: bv_scan_start_def scan_start_def)
    have "h = rt" if "bv_leaf_at (bs_leaves ?b) i = Some h" for i h
      using that root(1) by (auto simp: bv_leaf_at_def find_Some_iff) (metis nth_mem snd_conv)
    moreover have "h = rt" if "map_of (sc_leaves ?s) i = Some h" for i h
      using that root(2) by (metis map_of_SomeD snd_conv)
    ultimately show ?thesis using True by (auto simp: check_full_tree_def bv_full_tree_def Let_def)
  next
    case False
    have "(\<forall>x \<in> set (bs_leaves ?b). int_index (fst x) \<noteq> None)
        \<and> sc_leaves ?s = map (\<lambda>x. (the (int_index (fst x)), snd x)) (bs_leaves ?b)"
      by (rule leaves_by_int) (use facts False in \<open>simp_all add: bv_scan_start_def scan_start_def\<close>)
    then have look: "map_of (sc_leaves ?s) (int i) = bv_leaf_at (bs_leaves ?b) i" "length (sc_leaves ?s) = length (bs_leaves ?b)" for i
      using bv_leaf_at_int by simp_all
    show ?thesis by (simp add: check_full_tree_def bv_full_tree_def Let_def look)
  qed
qed

section \<open>Agreement\<close>

lemma events_shown:
  "map_result (\<lambda>item. call_get item ''event'' (JDict [])) items = Inr evs \<Longrightarrow>
    observed_all n rt (zip evs items) = Inr xs \<Longrightarrow>
    \<exists>evs'. map_result (\<lambda>item. call_get item ''event'' JNull) items = Inr evs' \<and> map or_empty evs' = evs"
proof (induction items arbitrary: evs xs)
  case (Cons item items)
  obtain ev rest x where ev: "call_get item ''event'' (JDict []) = Inr ev" "evs = ev # rest"
    "map_result (\<lambda>item. call_get item ''event'' (JDict [])) items = Inr rest"
    "observed (Inr ev) n rt item = Inr x" "\<exists>xs. observed_all n rt (zip rest items) = Inr xs"
    using Cons.prems by (auto simp: sbind_Inr_conv)
  obtain d where "ev = JDict d" using ev(4) by (cases ev) (auto simp: observed_def call_get_def sbind_Inr_conv split: if_splits)
  then have "\<exists>ev'. call_get item ''event'' JNull = Inr ev' \<and> or_empty ev' = ev"
    using ev(1) by (cases item) (auto simp: call_get_def dget_or_def or_empty_def truthy_def split: option.splits)
  with Cons.IH [OF ev(3)] ev(2,5) show ?case by auto
qed simp

lemma ids_present: "bv_ids_present present ids = Inr True \<longleftrightarrow> cited_present present ids = Inr True"
  by (induction ids) (auto simp: sbind_Inr_conv)

lemma evidence_present:
  "bv_evidence_ok present cs = Inr True \<longleftrightarrow> (\<exists>res'. check_controls present cs res = Inr (True, res'))"
proof (induction cs arbitrary: res)
  case (Cons c cs)
  show ?case
  proof
    assume "bv_evidence_ok present (c # cs) = Inr True"
    then obtain v ids where v: "call_get c ''evidence_event_ids'' (JList []) = Inr v" "iterate v = Inr ids"
      "cited_present present ids = Inr True" "bv_evidence_ok present cs = Inr True"
      by (auto simp: sbind_Inr_conv ids_present [symmetric] split: if_splits)
    obtain d where "c = JDict d" using v(1) by (cases c) (auto simp: call_get_def)
    moreover obtain res' where "check_controls present cs
        (note_control (dget_or d ''control_id'' JNull) (dget_or d ''status'' JNull) (dget_or d ''title'' (JStr [])) res) = Inr (True, res')"
      using Cons.IH v(4) by blast
    ultimately show "\<exists>res'. check_controls present (c # cs) res = Inr (True, res')"
      using v by (simp add: call_get_def)
  next
    assume "\<exists>res'. check_controls present (c # cs) res = Inr (True, res')"
    then obtain v ids res1 res' where v: "call_get c ''evidence_event_ids'' (JList []) = Inr v" "iterate v = Inr ids"
      "cited_present present ids = Inr True" "check_controls present cs res1 = Inr (True, res')"
      by (auto simp: sbind_Inr_conv)
    then have "bv_evidence_ok present cs = Inr True" using Cons.IH by blast
    with v ids_present [of present ids] show "bv_evidence_ok present (c # cs) = Inr True" by simp
  qed
qed simp

text \<open>What the verifier checks and the browser verifier does not, and the converse.\<close>

definition verifier_only :: "(string \<Rightarrow> bytes result) \<Rightarrow> dict \<Rightarrow> bytes \<Rightarrow> bool" where
  "verifier_only unpem report pub \<longleftrightarrow>
     \<not> (truthy (attr report ''public_key_pem'')
        \<and> (case pem_key unpem (attr report ''public_key_pem'') of Inl _ \<Rightarrow> False | Inr k \<Rightarrow> k \<noteq> pub))
     \<and> (case dget_or report ''signature'' (JDict []) of
          JDict sg \<Rightarrow> \<not> key_id_mismatch (attr sg ''public_key_id'') pub | _ \<Rightarrow> False)
     \<and> (case dget_or report ''checkpoint'' (JDict []) of
          JDict cp \<Rightarrow> map_of cp ''origin'' \<noteq> None \<and> map_of cp ''timestamp'' \<noteq> None | _ \<Rightarrow> False)"

definition browser_only :: "dict \<Rightarrow> bytes \<Rightarrow> bool" where
  "browser_only report pub \<longleftrightarrow> (case dget_or report ''checkpoint'' (JDict []) of
     JDict cp \<Rightarrow> attr cp ''public_key_id'' = JStr (key_id_for pub) | _ \<Rightarrow> False)"

lemma or_empty_block: "dget_or d k (JDict []) = JDict b \<Longrightarrow> or_empty (attr d k) = JDict b"
  by (auto simp: dget_or_def or_empty_def truthy_def split: option.splits)

lemma report_signature_agrees:
  assumes "bv_report_signature report pub = Inr sig_ok"
  obtains sg where "dget_or report ''signature'' (JDict []) = JDict sg"
    "check_report_signature pure_check report pub res = Inr (let res = add_check ''report_signature'' sig_ok res in
       if key_id_mismatch (attr sg ''public_key_id'') pub then add_check ''report_key_id'' False res else res)"
proof -
  obtain sg where sg: "dget_or report ''signature'' (JDict []) = JDict sg"
    using assms by (cases "dget_or report ''signature'' (JDict [])") (auto simp: bv_report_signature_def call_get_def)
  note block = or_empty_block [OF sg]
  have ok: "signature_ok pure_check pub (JDict sg) (report_signing_payload report) = sig_ok"
    using assms by (auto simp: bv_report_signature_def sg signature_ok_def report_signing_payload_def caught_def
        bv_ed25519_eq sbind_Inr_conv)
  have "key_id_mismatch (dget_or sg ''public_key_id'' (JStr [])) pub \<longleftrightarrow> key_id_mismatch (attr sg ''public_key_id'') pub"
    by (auto simp: key_id_mismatch_def dget_or_def truthy_def split: option.splits)
  with sg show ?thesis
    by (intro that) (simp_all add: check_report_signature_def block ok Let_def call_get_def, blast?)
qed

lemma checkpoint_bytes_named:
  assumes "map_of cp ''root_hash'' \<noteq> None" "map_of cp ''tree_size'' \<noteq> None"
  shows "checkpoint_bytes (JDict cp) = (if map_of cp ''origin'' = None \<or> map_of cp ''timestamp'' = None then Inl KeyError
    else canonical_bytes (JDict [(''origin'', attr cp ''origin''), (''root_hash'', attr cp ''root_hash''),
      (''timestamp'', attr cp ''timestamp''), (''tree_size'', attr cp ''tree_size'')]))"
  using assms by (auto simp: checkpoint_bytes_def item_at_def dget_or_def split: option.splits)

lemma checkpoint_signature_agrees:
  assumes "bv_checkpoint_signature cp pub = Inr cp_ok" "map_of cp ''root_hash'' = Some (JStr r)" "map_of cp ''tree_size'' \<noteq> None"
    and "or_empty (attr report ''checkpoint'') = JDict cp"
  shows "\<exists>ok. check_checkpoint_signature pure_check report pub res = Inr (JDict cp, add_check ''checkpoint_signature'' ok res)
    \<and> (ok \<and> attr cp ''public_key_id'' = JStr (key_id_for pub)
         \<longleftrightarrow> cp_ok \<and> map_of cp ''origin'' \<noteq> None \<and> map_of cp ''timestamp'' \<noteq> None)"
proof -
  obtain data sig where b: "bv_checkpoint_bytes cp = Inr data" "b64decode_value (dget_or cp ''signature'' (JStr [])) = Inr sig"
    "cp_ok \<longleftrightarrow> pure_verify pub sig data \<and> attr cp ''public_key_id'' = JStr (key_id_for pub)"
    using assms(1) by (auto simp: bv_checkpoint_signature_def sbind_Inr_conv bv_ed25519_eq)
  have ok: "signature_ok pure_check pub (JDict cp) (checkpoint_bytes (JDict cp))
      \<longleftrightarrow> pure_verify pub sig data \<and> map_of cp ''origin'' \<noteq> None \<and> map_of cp ''timestamp'' \<noteq> None"
    using b(1,2) assms(2,3) by (auto simp: checkpoint_bytes_named signature_ok_def call_get_def caught_def bv_checkpoint_bytes_def)
  let ?ok = "\<not> key_id_mismatch (attr cp ''public_key_id'') pub \<and> signature_ok pure_check pub (JDict cp) (checkpoint_bytes (JDict cp))"
  have "check_checkpoint_signature pure_check report pub res = Inr (JDict cp, add_check ''checkpoint_signature'' ?ok res)"
    unfolding check_checkpoint_signature_def Let_def assms(4)
    using assms(2) by (simp add: call_get_def dget_or_def [of cp "''root_hash''"] sliceable_def)
  moreover have "?ok \<and> attr cp ''public_key_id'' = JStr (key_id_for pub)
      \<longleftrightarrow> cp_ok \<and> map_of cp ''origin'' \<noteq> None \<and> map_of cp ''timestamp'' \<noteq> None"
    using ok b(3) by (auto simp: key_id_mismatch_def)
  ultimately show ?thesis by blast
qed

lemma events_agree:
  assumes "iterate (dget_or report ''events'' (JList [])) = Inr items"
  shows "iterate (if truthy (attr report ''events'') then attr report ''events'' else JList []) = Inr items"
proof (cases "map_of report ''events''")
  case (Some v)
  with assms show ?thesis by (cases v) (auto simp: dget_or_def iterate_def truthy_def)
qed (use assms in \<open>simp add: dget_or_def iterate_def truthy_def\<close>)

lemma establish_trusted:
  obtains res where "establish_key unpem report (Some pub) = Inr (pub, res)"
    "vr_valid res \<longleftrightarrow> \<not> (truthy (attr report ''public_key_pem'')
       \<and> (case pem_key unpem (attr report ''public_key_pem'') of Inl _ \<Rightarrow> False | Inr k \<Rightarrow> k \<noteq> pub))"
  by (cases "truthy (attr report ''public_key_pem'')
       \<and> (case pem_key unpem (attr report ''public_key_pem'') of Inl _ \<Rightarrow> False | Inr k \<Rightarrow> k \<noteq> pub)")
    (simp_all add: establish_key_def Let_def)

lemma agreement:
  assumes "bv_verify_report report pub = Inr (ok, checks)"
  shows "ok \<and> verifier_only unpem report pub
    \<longleftrightarrow> (\<exists>res. verify_report pure_check unpem builtins report (Some pub) False cw = Inr res \<and> vr_valid res)
      \<and> browser_only report pub"
proof -
  obtain sig_ok where sig: "bv_report_signature report pub = Inr sig_ok"
    using assms by (auto simp: bv_verify_report_def sbind_Inr_conv)
  obtain cp where cp: "dget_or report ''checkpoint'' (JDict []) = JDict cp"
    using assms by (cases "dget_or report ''checkpoint'' (JDict [])") (auto simp: bv_verify_report_def sig)
  obtain cp_ok r rt v n items sc cs ev_ok where a: "bv_checkpoint_signature cp pub = Inr cp_ok"
    "item_at (JDict cp) ''root_hash'' = Inr r" "fromhex_value r = Inr rt"
    "item_at (JDict cp) ''tree_size'' = Inr v" "py_int v = Inr n"
    "iterate (dget_or report ''events'' (JList [])) = Inr items"
    "bv_scan_events n rt items bv_scan_start = Inr sc"
    "iterate (dget_or report ''controls'' (JList [])) = Inr cs"
    "bv_evidence_ok (bs_present sc) cs = Inr ev_ok"
    "ok \<longleftrightarrow> sig_ok \<and> cp_ok \<and> bs_leaf_ok sc \<and> bs_incl_ok sc \<and> list_all snd (bv_full_tree n rt (bs_leaves sc)) \<and> ev_ok"
    using assms unfolding bv_verify_report_def sig sbind.simps cp pyv.case sbind_Inr_conv Let_def
    by (elim exE conjE) (rule that, assumption+, simp)
  obtain evs xs where obs: "map_result (\<lambda>item. call_get item ''event'' (JDict [])) items = Inr evs"
    "observed_all n rt (zip evs items) = Inr xs" "sc = fold bv_noted xs bv_scan_start"
    using a(7) by (auto simp: bv_scans_observed)
  note b = a(1-6) obs(1,2) a(8-10) [unfolded obs(3)]
  obtain rs where rs: "r = JStr rs" "map_of cp ''root_hash'' = Some (JStr rs)" "map_of cp ''tree_size'' \<noteq> None"
    using b(2-4) by (cases r) (auto simp: item_at_def fromhex_value_def split: option.splits)
  obtain res0 where res0: "establish_key unpem report (Some pub) = Inr (pub, res0)"
    "vr_valid res0 \<longleftrightarrow> \<not> (truthy (attr report ''public_key_pem'')
       \<and> (case pem_key unpem (attr report ''public_key_pem'') of Inl _ \<Rightarrow> False | Inr k \<Rightarrow> k \<noteq> pub))"
    by (rule establish_trusted)
  obtain sg where sg: "dget_or report ''signature'' (JDict []) = JDict sg"
    "check_report_signature pure_check report pub res0 = Inr (let res = add_check ''report_signature'' sig_ok res0 in
       if key_id_mismatch (attr sg ''public_key_id'') pub then add_check ''report_key_id'' False res else res)"
    by (rule report_signature_agrees [OF sig])
  define res1 where "res1 = (let res = add_check ''report_signature'' sig_ok res0 in
       if key_id_mismatch (attr sg ''public_key_id'') pub then add_check ''report_key_id'' False res else res)"
  have res1: "vr_valid res1 \<longleftrightarrow> vr_valid res0 \<and> sig_ok \<and> \<not> key_id_mismatch (attr sg ''public_key_id'') pub"
    by (simp add: res1_def Let_def)
  obtain cok where cok: "check_checkpoint_signature pure_check report pub res1 = Inr (JDict cp, add_check ''checkpoint_signature'' cok res1)"
    "cok \<and> attr cp ''public_key_id'' = JStr (key_id_for pub)
      \<longleftrightarrow> cp_ok \<and> map_of cp ''origin'' \<noteq> None \<and> map_of cp ''timestamp'' \<noteq> None"
    using checkpoint_signature_agrees [OF b(1) rs(2,3) or_empty_block [OF cp]] by blast
  have head: "checkpoint_head (JDict cp) = Inr (rt, n)" using b(2-5) by (simp add: checkpoint_head_def)
  obtain evs' where evs': "map_result (\<lambda>item. call_get item ''event'' JNull) items = Inr evs'" "map or_empty evs' = evs"
    using events_shown [OF b(7,8)] by blast
  let ?s = "fold noted xs scan_start" and ?b = "fold bv_noted xs bv_scan_start"
  have scan: "scan_events n rt items scan_start = Inr ?s" using evs' b(8) scans_observed by blast
  have flags: "sc_leaf_ok ?s = bs_leaf_ok ?b" "sc_incl_ok ?s = bs_incl_ok ?b" "sc_present ?s = bs_present ?b"
    "bs_incl_ok ?b \<longleftrightarrow> list_all (\<lambda>x. fst (snd x)) xs"
    by (simp_all add: scan_flags bv_scan_start_def scan_start_def)
  define res5 where "res5 = check_full_tree n rt ?s (add_check ''inclusion_proofs'' (sc_incl_ok ?s)
    (add_check ''event_leaf_hashes'' (sc_leaf_ok ?s) (add_check ''checkpoint_signature'' cok res1)))"
  have res5: "vr_valid res5 \<longleftrightarrow> vr_valid res1 \<and> cok \<and> bs_leaf_ok ?b \<and> bs_incl_ok ?b
      \<and> list_all snd (bv_full_tree n rt (bs_leaves ?b))"
  proof (cases "bs_incl_ok ?b")
    case True
    then show ?thesis using full_trees_agree [OF b(8)] by (auto simp: res5_def flags)
  next
    case False
    then have "\<not> vr_valid res5" using full_tree_valid unfolding res5_def flags by fastforce
    with False show ?thesis by simp
  qed
  have step: "check_report_signature pure_check report pub res0 = Inr res1" by (simp only: sg(2) res1_def)
  have body: "verify_body pure_check report pub res0 = sbind (check_controls (bs_present ?b) cs res5)
      (\<lambda>(ok, res). Inr (True, add_check ''evidence_events_present'' ok res))"
    unfolding verify_body_def step sbind.simps cok(1) prod.case head sum.case Let_def
      events_agree [OF b(6)] scan b(9) res5_def flags(3) ..
  have "(\<exists>res. verify_report pure_check unpem builtins report (Some pub) False cw = Inr res \<and> vr_valid res)
      \<longleftrightarrow> ev_ok \<and> vr_valid res5"
  proof -
    have "(\<exists>res. verify_report pure_check unpem builtins report (Some pub) False cw = Inr res \<and> vr_valid res)
        \<longleftrightarrow> (\<exists>res'. check_controls (bs_present ?b) cs res5 = Inr (True, res') \<and> vr_valid res')"
      by (cases "check_controls (bs_present ?b) cs res5") (auto simp: verify_report_def res0(1) body)
    also have "\<dots> \<longleftrightarrow> ev_ok \<and> vr_valid res5"
      using evidence_present [of "bs_present ?b" cs res5] b(10) check_controls_valid by fastforce
    finally show ?thesis .
  qed
  moreover have "verifier_only unpem report pub \<longleftrightarrow> vr_valid res0 \<and> \<not> key_id_mismatch (attr sg ''public_key_id'') pub
      \<and> map_of cp ''origin'' \<noteq> None \<and> map_of cp ''timestamp'' \<noteq> None"
    "browser_only report pub \<longleftrightarrow> attr cp ''public_key_id'' = JStr (key_id_for pub)"
    unfolding verifier_only_def browser_only_def sg(1) cp pyv.case res0(2) by (rule refl)+
  ultimately show ?thesis using b(11) res1 res5 cok(2) by argo
qed

text \<open> C9. The two verifiers agree: when the browser verifier answers for a report and a trusted key, its answer
  is the verifier's without the package \<open>cryptography\<close>, except that only the verifier compares the embedded
  key and the key id of the signature and wants origin and timestamp in the checkpoint, and only the browser
  verifier wants the key id of the checkpoint.\<close>

theorem verifiers_agree:
  assumes "bv_verify_report report pub = Inr (ok, checks)"
  shows "ok \<and> verifier_only unpem report pub
    \<longleftrightarrow> (\<exists>res. verify_report pure_check unpem builtins report (Some pub) False cw = Inr res \<and> vr_valid res)
      \<and> browser_only report pub"
  using assms by (rule agreement)

section \<open>Reports the browser verifier answers for\<close>

lemma report_signature_answered:
  assumes "dget_or report ''signature'' (JDict []) = JDict sg"
    and "signature_ok pure_check pub (or_empty (attr report ''signature'')) (report_signing_payload report)"
  shows "bv_report_signature report pub = Inr True"
  using assms(2)
  by (auto simp: or_empty_block [OF assms(1)] signature_ok_iff bv_report_signature_def assms(1) report_signing_payload_def
      bv_ed25519_eq pure_check_def sbind_Inr_conv split: if_splits)

lemma checkpoint_signature_answered:
  assumes "signature_ok pure_check pub (JDict cp) (checkpoint_bytes (JDict cp))" "attr cp ''public_key_id'' = JStr (key_id_for pub)"
  shows "bv_checkpoint_signature cp pub = Inr True"
proof -
  obtain s sig data where a: "call_get (JDict cp) ''signature'' (JStr []) = Inr s" "b64decode_value s = Inr sig"
    "checkpoint_bytes (JDict cp) = Inr data" "pure_check pub sig data = Valid"
    using assms(1) unfolding signature_ok_iff by blast
  then have "bv_checkpoint_bytes cp = Inr data"
    by (auto simp: checkpoint_bytes_def bv_checkpoint_bytes_def item_at_def dget_or_def sbind_Inr_conv split: option.splits)
  with a assms(2) show ?thesis
    by (auto simp: bv_checkpoint_signature_def call_get_def bv_ed25519_eq pure_check_def split: if_splits)
qed

lemma events_answered:
  "list_all (\<lambda>item. \<exists>d. call_get item ''event'' JNull = Inr (JDict d)) items \<Longrightarrow>
    map_result (\<lambda>item. call_get item ''event'' JNull) items = Inr evs' \<Longrightarrow>
    map_result (\<lambda>item. call_get item ''event'' (JDict [])) items = Inr (map or_empty evs')"
proof (induction items arbitrary: evs')
  case (Cons item items)
  obtain d where d: "call_get item ''event'' JNull = Inr (JDict d)" using Cons.prems(1) by auto
  then have "call_get item ''event'' (JDict []) = Inr (JDict d)" "or_empty (JDict d) = JDict d"
    by (cases item) (auto simp: call_get_def dget_or_def or_empty_def truthy_def split: option.splits)
  with d Cons show ?case by (auto simp: sbind_Inr_conv)
qed simp

lemma answered:
  assumes "verify_report pure_check unpem builtins report (Some pub) False cw = Inr res" "vr_valid res"
    and "dget_or report ''signature'' (JDict []) = JDict sg" "dget_or report ''checkpoint'' (JDict []) = JDict cp"
      "attr cp ''public_key_id'' = JStr (key_id_for pub)" "dget_or report ''events'' (JList []) = JList items"
      "list_all (\<lambda>item. \<exists>d. call_get item ''event'' JNull = Inr (JDict d)) items"
  shows "\<exists>checks. bv_verify_report report pub = Inr (True, checks)"
proof -
  obtain res0 finished where body: "verify_body pure_check report pub res0 = Inr (finished, res)"
    using assms(1) by (auto simp: verify_report_def establish_key_def Let_def sbind_Inr_conv split: if_splits)
  note block = or_empty_block [OF assms(4)]
  obtain res1 where res1: "check_report_signature pure_check report pub res0 = Inr res1"
    using body by (auto simp: verify_body_def sbind_Inr_conv)
  obtain res2 where res2: "check_checkpoint_signature pure_check report pub res1 = Inr (JDict cp, res2)"
    using body res1 by (auto simp: verify_body_def check_checkpoint_signature_def Let_def sbind_Inr_conv block)
  have "checkpoint_head (JDict cp) \<noteq> Inl e" for e
    using body assms(2) by (auto simp: verify_body_def res1 res2)
  then obtain rt n where head: "checkpoint_head (JDict cp) = Inr (rt, n)" by (cases "checkpoint_head (JDict cp)") auto
  have items: "iterate (if truthy (attr report ''events'') then attr report ''events'' else JList []) = Inr items"
    by (rule events_agree) (simp add: assms(6) iterate_def)
  obtain sc cs ok res3 where rest: "scan_events n rt items scan_start = Inr sc"
    "iterate (dget_or report ''controls'' (JList [])) = Inr cs"
    "check_controls (sc_present sc) cs (check_full_tree n rt sc
       (add_check ''inclusion_proofs'' (sc_incl_ok sc) (add_check ''event_leaf_hashes'' (sc_leaf_ok sc) res2))) = Inr (ok, res3)"
    "res = add_check ''evidence_events_present'' ok res3"
    using body unfolding verify_body_def res1 res2 sbind.simps prod.case head sum.case Let_def items sbind_Inr_conv
    by (elim exE conjE, auto)
  have valid: "ok" "sc_leaf_ok sc" "sc_incl_ok sc" "vr_valid res2"
    using assms(2) rest(4) check_controls_valid [OF rest(3)] full_tree_valid by force+
  have cp_ok: "vr_valid res1 \<and> signature_ok pure_check pub (JDict cp) (checkpoint_bytes (JDict cp))"
    using res2 valid(4) by (auto simp: check_checkpoint_signature_def Let_def sbind_Inr_conv block split: if_splits)
  then have "signature_ok pure_check pub (or_empty (attr report ''signature'')) (report_signing_payload report)"
    using res1 by (auto simp: check_report_signature_def Let_def sbind_Inr_conv split: if_splits)
  note sig = report_signature_answered [OF assms(3) this]
    and cps = checkpoint_signature_answered [OF conjunct2 [OF cp_ok] assms(5)]
  obtain r v where rv: "item_at (JDict cp) ''root_hash'' = Inr r" "fromhex_value r = Inr rt"
    "item_at (JDict cp) ''tree_size'' = Inr v" "py_int v = Inr n"
    using head by (auto simp: checkpoint_head_def sbind_Inr_conv)
  obtain evs' xs where obs: "map_result (\<lambda>item. call_get item ''event'' JNull) items = Inr evs'"
    "observed_all n rt (zip (map or_empty evs') items) = Inr xs" "sc = fold noted xs scan_start"
    using rest(1) unfolding scans_observed by blast
  have scan: "bv_scan_events n rt items bv_scan_start = Inr (fold bv_noted xs bv_scan_start)"
    using events_answered [OF assms(7) obs(1)] obs(2) bv_scans_observed by blast
  have "bs_present (fold bv_noted xs bv_scan_start) = sc_present sc"
    by (simp add: obs(3) scan_flags bv_scan_start_def scan_start_def)
  then have ev: "bv_evidence_ok (bs_present (fold bv_noted xs bv_scan_start)) cs = Inr True"
    using evidence_present rest(3) valid(1) by (metis (full_types))
  have "\<exists>ok checks. bv_verify_report report pub = Inr (ok, checks)"
    by (simp add: bv_verify_report_def sig assms(4) cps rv rest(2) assms(6) iterate_def scan ev Let_def)
      (simp add: rest(2) [unfolded iterate_def] scan ev)
  then obtain ok checks where bv: "bv_verify_report report pub = Inr (ok, checks)" by blast
  have "browser_only report pub" by (simp add: browser_only_def assms(4,5))
  with agreement [OF bv] assms(1,2) have ok by blast
  with bv show ?thesis by auto
qed

lemma signed_blocks:
  assumes "sign_report key (report_body pem key cr a cp es (map (\<lambda>i. report_item (es ! i) i (map hex (ps i))) [0..<length es])) = Inr report"
  shows "\<exists>sg. dget_or report ''signature'' (JDict []) = JDict sg"
    "dget_or report ''checkpoint'' (JDict []) = JDict (dump_checkpoint cp)"
    "dget_or report ''events'' (JList []) = JList (map (\<lambda>i. report_item (es ! i) i (map hex (ps i))) [0..<length es])"
proof -
  obtain sg where report: "report = report_body pem key cr a cp es
      (map (\<lambda>i. report_item (es ! i) i (map hex (ps i))) [0..<length es]) @ [(''signature'', JDict sg)]"
    using assms by (auto simp: sign_report_def sbind_Inr_conv)
  show "\<exists>sg. dget_or report ''signature'' (JDict []) = JDict sg"
    "dget_or report ''checkpoint'' (JDict []) = JDict (dump_checkpoint cp)"
    "dget_or report ''events'' (JList []) = JList (map (\<lambda>i. report_item (es ! i) i (map hex (ps i))) [0..<length es])"
    unfolding report by (simp_all add: report_body_def dget_or_def)
qed

lemma honest_answered:
  assumes "\<forall>d. pure_verify (ks_public_key_raw key) (ks_sign key d) d" "pem (ks_public_key_raw key) \<noteq> []"
    and "ledger_ok file_holds led0 old" "ledger_checkpoint key clk ts led0 = Inr cp"
      "ledger_run file_ops led0 new led"
    and "evaluate cw old = Inr cr" "distinct (map ctl_id (cw_controls cw))"
    and "args_float_free a cr" "ra_checkpoint a = Some cp" "ra_authorize a = None"
  shows "\<exists>report led' checks. build_report file_ops pem key cr a led = (Inr report, led')
    \<and> bv_verify_report report (ks_public_key_raw key) = Inr (True, checks)"
proof -
  let ?pub = "ks_public_key_raw key"
  have ed: "\<forall>d. pure_check ?pub (ks_sign key d) d = Valid" using assms(1) by (simp add: pure_check_def)
  obtain led1 ps report where built: "build_report file_ops pem key cr a led = (Inr report, led1)"
    and signed: "sign_report key (report_body pem key cr a cp old
      (map (\<lambda>i. report_item (old ! i) i (map hex (ps i))) [0..<length old])) = Inr report"
    by (rule honest_report [where ed = pure_check and key = key, OF ed assms(3,4,5,8,9,10)])
  obtain res where res: "verify_report pure_check (\<lambda>s. Inr ?pub) (\<lambda>s. None) report (Some ?pub) False (Some cw) = Inr res" "vr_valid res"
    using honest_report_passes [where ed = pure_check and key = key and pem = pem and unpem = "\<lambda>s. Inr ?pub" and trusted = "Some ?pub"
      and deep = False and builtins = "\<lambda>s. None", OF ed refl assms(2-10)] built by auto
  obtain sg where sg: "dget_or report ''signature'' (JDict []) = JDict sg" using signed_blocks(1) [OF signed] by blast
  have key: "attr (dump_checkpoint cp) ''public_key_id'' = JStr (key_id_for ?pub)"
    using honest_checkpoint(4) [where ed = pure_check and key = key, OF ed assms(4,3)] by (simp add: call_get_def ks_key_id_def)
  have "list_all (\<lambda>item. \<exists>d. call_get item ''event'' JNull = Inr (JDict d))
      (map (\<lambda>i. report_item (old ! i) i (map hex (ps i))) [0..<length old])"
    by (simp add: list_all_iff report_item_def call_get_def dget_or_def)
  from answered [OF res sg signed_blocks(2) [OF signed] key signed_blocks(3) [OF signed] this] built show ?thesis by blast
qed

text \<open> C34. The browser verifier accepts honest reports: for a key whose signatures the pure Ed25519 check
  accepts, a report built over the events of a signed checkpoint of a file ledger, at any later time, is
  accepted under that key.\<close>

theorem browser_accepts_honest:
  assumes "\<forall>d. pure_verify (ks_public_key_raw key) (ks_sign key d) d" "pem (ks_public_key_raw key) \<noteq> []"
    and "ledger_ok file_holds led0 old" "ledger_checkpoint key clk ts led0 = Inr cp"
      "ledger_run file_ops led0 new led"
    and "evaluate cw old = Inr cr" "distinct (map ctl_id (cw_controls cw))"
    and "args_float_free a cr" "ra_checkpoint a = Some cp" "ra_authorize a = None"
  shows "\<exists>report led' checks. build_report file_ops pem key cr a led = (Inr report, led')
    \<and> bv_verify_report report (ks_public_key_raw key) = Inr (True, checks)"
  using assms by (rule honest_answered)

section \<open>An instance with the concrete check\<close>

text \<open>The identity key signs everything with the same bytes; reports signed with it are accepted.\<close>

definition identity_key :: key_source where
  "identity_key = \<lparr>ks_sign = (\<lambda>d. identity_signature), ks_public_key_raw = [1] @ replicate 31 0\<rparr>"

lemma identity_report:
  obtains cp cr where "ledger_checkpoint identity_key ''t'' None (fresh (open_file_backend [])) = Inr cp"
    "evaluate sample_crosswalk [] = Inr cr" "args_float_free (plain_args cp) cr"
    "\<forall>d. pure_verify (ks_public_key_raw identity_key) (ks_sign identity_key d) d"
    "distinct (map ctl_id (cw_controls sample_crosswalk))"
proof -
  obtain cp0 cr where cr: "evaluate sample_crosswalk [] = Inr cr" "args_float_free (plain_args cp0) cr" by (rule sample_parts)
  obtain cp where "ledger_checkpoint identity_key ''t'' None (fresh (open_file_backend [])) = Inr cp"
    using sign_checkpoint_total unfolding ledger_checkpoint_def by blast
  moreover have "args_float_free (plain_args cp) cr" using cr(2) by (simp add: args_float_free_def plain_args_def)
  moreover have "\<forall>d. pure_verify (ks_public_key_raw identity_key) (ks_sign identity_key d) d"
    using identity_signature by (simp add: identity_key_def)
  ultimately show ?thesis using cr(1) that by (simp add: sample_crosswalk_def)
qed

theorem browser_accepts_honest_witness:
  "\<exists>cr cp report led' checks. build_report file_ops (\<lambda>k. ''P'') identity_key cr (plain_args cp)
      (fresh (open_file_backend [])) = (Inr report, led')
    \<and> bv_verify_report report ([1] @ replicate 31 0) = Inr (True, checks)"
proof -
  obtain cp cr where parts: "ledger_checkpoint identity_key ''t'' None (fresh (open_file_backend [])) = Inr cp"
    "evaluate sample_crosswalk [] = Inr cr" "args_float_free (plain_args cp) cr"
    "\<forall>d. pure_verify (ks_public_key_raw identity_key) (ks_sign identity_key d) d"
    "distinct (map ctl_id (cw_controls sample_crosswalk))" by (rule identity_report)
  have args: "ra_checkpoint (plain_args cp) = Some cp" "ra_authorize (plain_args cp) = None"
    by (simp_all add: plain_args_def)
  have pem: "(\<lambda>k. ''P'') (ks_public_key_raw identity_key) \<noteq> []" by simp
  have pub: "ks_public_key_raw identity_key = [1] @ replicate 31 0" by (simp add: identity_key_def)
  from browser_accepts_honest [where key = identity_key and pem = "\<lambda>k. ''P''", OF parts(4) pem fresh_file parts(1) run_start
      parts(2,5,3) args]
  show ?thesis unfolding pub by blast
qed

theorem verifiers_agree_witness:
  "\<exists>report. (\<exists>checks. bv_verify_report report ([1] @ replicate 31 0) = Inr (True, checks))
    \<and> (verifier_only pem_fallback report ([1] @ replicate 31 0) \<longleftrightarrow>
      (\<exists>res. verify_report pure_check pem_fallback (\<lambda>s. None) report (Some ([1] @ replicate 31 0)) False None = Inr res \<and> vr_valid res))"
proof -
  obtain cp cr where parts: "ledger_checkpoint identity_key ''t'' None (fresh (open_file_backend [])) = Inr cp"
    "evaluate sample_crosswalk [] = Inr cr" "args_float_free (plain_args cp) cr"
    "\<forall>d. pure_verify (ks_public_key_raw identity_key) (ks_sign identity_key d) d"
    "distinct (map ctl_id (cw_controls sample_crosswalk))" by (rule identity_report)
  have args: "ra_checkpoint (plain_args cp) = Some cp" "ra_authorize (plain_args cp) = None"
    by (simp_all add: plain_args_def)
  have pem: "(\<lambda>k. ''P'') (ks_public_key_raw identity_key) \<noteq> []" by simp
  obtain report checks where bv: "bv_verify_report report (ks_public_key_raw identity_key) = Inr (True, checks)"
    using honest_answered [where key = identity_key and pem = "\<lambda>k. ''P''", OF parts(4) pem fresh_file parts(1) run_start
      parts(2,5,3) args] by blast
  obtain cp' where "dget_or report ''checkpoint'' (JDict []) = JDict cp'" "bv_checkpoint_signature cp' (ks_public_key_raw identity_key) = Inr True"
  proof -
    from bv obtain cp' c where "dget_or report ''checkpoint'' (JDict []) = JDict cp'" "bv_checkpoint_signature cp' (ks_public_key_raw identity_key) = Inr c" "c"
      by (cases "dget_or report ''checkpoint'' (JDict [])") (auto simp: bv_verify_report_def sbind_Inr_conv Let_def)
    then show ?thesis using that by simp
  qed
  then have "browser_only report (ks_public_key_raw identity_key)"
    by (auto simp: browser_only_def bv_checkpoint_signature_def sbind_Inr_conv)
  with verifiers_agree [OF bv, of pem_fallback "\<lambda>s. None" None] bv show ?thesis by (auto simp: identity_key_def)
qed

end
