(* ===== verification/Side_Adapters.thy ===== *)
theory Side_Adapters imports Spans begin

text \<open>
  \<open>src/src/openwright/adapters/policy.py\<close> and \<open>sarif_in.py\<close>: decision logs of policy engines and findings of
  scanners as events.  \<open>str.lower\<close> and \<open>str.isprintable\<close> are arguments.  An entry that is not a
  dictionary is skipped; what goes wrong inside one is an exception of the whole call.
\<close>

section \<open>Policy decisions\<close>

definition opa_entry :: "dict \<Rightarrow> dict" where
  "opa_entry entry =
     (let result = attr entry ''result'';
          allowed = (case result of JDict r \<Rightarrow> attr r ''allow'' | _ \<Rightarrow> result)
      in [(''engine'', JStr ''opa''),
          (''decision_id'', attr entry ''decision_id''),
          (''policy'', attr entry ''path''),
          (''decision'', JStr (if truthy allowed then ''allow'' else ''deny'')),
          (''result'', case result of JDict r \<Rightarrow> JNull | _ \<Rightarrow> result)])"

definition cedar_entry :: "(string \<Rightarrow> string) \<Rightarrow> (nat \<Rightarrow> bool) \<Rightarrow> dict \<Rightarrow> dict" where
  "cedar_entry lower printable entry =
     (let decision = attr entry ''decision'';
          diagnostics = (case attr entry ''diagnostics'' of JDict d \<Rightarrow> d | _ \<Rightarrow> [])
      in [(''engine'', JStr ''cedar''),
          (''decision'', if truthy decision then JStr (lower (py_str printable decision)) else JNull),
          (''determining_policies'', attr diagnostics ''reason''),
          (''errors'', attr diagnostics ''errors'')])"

definition task_provenance :: "string option \<Rightarrow> provenance" where
  "task_provenance task_id =
     (case task_id of None \<Rightarrow> empty_provenance
      | Some t \<Rightarrow> if t = [] then empty_provenance else empty_provenance\<lparr>prov_task_id := Some t\<rparr>)"

definition policy_event ::
  "(dict \<Rightarrow> dict) \<Rightarrow> string \<Rightarrow> string \<Rightarrow> string \<Rightarrow> string option \<Rightarrow> dict \<Rightarrow> compliance_event result"
where
  "policy_event parse agent_id ts engine task_id entry =
     (let attrs = filter (\<lambda>(k, v). v \<noteq> JNull) (parse entry) in
      sbind (typed_text (py_or (attr entry ''timestamp'') (JStr ts))) (\<lambda>stamp.
      sbind (no_floats_in_attributes attrs) (\<lambda>ats.
        Inr ((bare_event stamp POLICY_DECISION (bare_actor agent_id) (bare_source (''policy-'' @ engine)))
          \<lparr>provenance := task_provenance task_id, attributes := ats\<rparr>))))"

fun policy_events :: "(dict \<Rightarrow> compliance_event result) \<Rightarrow> json list \<Rightarrow> compliance_event list result" where
  "policy_events mk [] = Inr []"
| "policy_events mk (entry # entries) = (case entry of
     JDict d \<Rightarrow> sbind (mk d) (\<lambda>e. sbind (policy_events mk entries) (\<lambda>es. Inr (e # es)))
   | _ \<Rightarrow> policy_events mk entries)"

definition policy_decisions_to_events ::
  "(string \<Rightarrow> string) \<Rightarrow> (nat \<Rightarrow> bool) \<Rightarrow> json list \<Rightarrow> string \<Rightarrow> string \<Rightarrow> string \<Rightarrow> string option \<Rightarrow>
    compliance_event list result"
where
  "policy_decisions_to_events lower printable entries agent_id ts engine task_id =
     (let parse = (if engine = ''opa'' then opa_entry else cedar_entry lower printable)
      in policy_events (policy_event parse agent_id ts engine task_id) entries)"

section \<open>SARIF findings\<close>

text \<open>\<open>v.get(k)\<close> with \<open>or {}\<close> before it, on a value of any type.\<close>

definition get_or_empty :: "json \<Rightarrow> string \<Rightarrow> json result" where
  "get_or_empty v k = (case py_or v (JDict []) of JDict d \<Rightarrow> Inr (attr d k) | _ \<Rightarrow> Inl AttributeError)"

definition tool_name :: "dict \<Rightarrow> json result" where
  "tool_name run =
     sbind (get_or_empty (attr run ''tool'') ''driver'') (\<lambda>driver.
       Inr (case driver of JDict d \<Rightarrow> attr d ''name'' | _ \<Rightarrow> JNull))"

definition sarif_location :: "json \<Rightarrow> json result" where
  "sarif_location loc =
     (let phys = (case loc of JDict l \<Rightarrow> dget_or l ''physicalLocation'' (JDict []) | _ \<Rightarrow> JDict []);
          art = (case phys of JDict p \<Rightarrow> dget_or p ''artifactLocation'' (JDict []) | _ \<Rightarrow> JDict []);
          region = (case phys of JDict p \<Rightarrow> dget_or p ''region'' (JDict []) | _ \<Rightarrow> JDict [])
      in case art of
           JDict a \<Rightarrow> (case region of
               JDict r \<Rightarrow> Inr (JDict [(''uri'', attr a ''uri''), (''startLine'', attr r ''startLine'')])
             | _ \<Rightarrow> Inl AttributeError)
         | _ \<Rightarrow> Inl AttributeError)"

definition finding_message :: "(nat \<Rightarrow> bool) \<Rightarrow> dict \<Rightarrow> string" where
  "finding_message printable res = (case attr res ''message'' of
     JDict m \<Rightarrow> py_str printable (dget_or m ''text'' (JStr [])) | _ \<Rightarrow> [])"

definition sarif_event ::
  "(nat \<Rightarrow> bool) \<Rightarrow> string \<Rightarrow> string \<Rightarrow> string option \<Rightarrow> json \<Rightarrow> dict \<Rightarrow> compliance_event result"
where
  "sarif_event printable agent_id ts task_id scanner res =
     sbind (map_result sarif_location (case attr res ''locations'' of JList ls \<Rightarrow> ls | _ \<Rightarrow> [])) (\<lambda>locations.
     sbind (no_floats_in_attributes
         [(''tool'', scanner), (''rule_id'', attr res ''ruleId''),
          (''level'', dget_or res ''level'' (JStr ''warning'')),
          (''message'', JStr (finding_message printable res)), (''locations'', JList locations)]) (\<lambda>ats.
       Inr ((bare_event ts CONFORMANCE_FINDING (bare_actor agent_id) (bare_source ''sarif''))
         \<lparr>provenance := task_provenance task_id, attributes := ats\<rparr>)))"

text \<open>The dictionaries among the elements of a list, and none of anything else.\<close>

definition dicts_of :: "json \<Rightarrow> dict list" where
  "dicts_of v = (case v of
     JList xs \<Rightarrow> List.map_filter (\<lambda>x. case x of JDict d \<Rightarrow> Some d | _ \<Rightarrow> None) xs | _ \<Rightarrow> [])"

definition run_events ::
  "(nat \<Rightarrow> bool) \<Rightarrow> string \<Rightarrow> string \<Rightarrow> string option \<Rightarrow> dict \<Rightarrow> compliance_event list result"
where
  "run_events printable agent_id ts task_id run =
     sbind (tool_name run) (\<lambda>scanner.
       map_result (sarif_event printable agent_id ts task_id scanner) (dicts_of (attr run ''results'')))"

definition sarif_to_events ::
  "(nat \<Rightarrow> bool) \<Rightarrow> json \<Rightarrow> string \<Rightarrow> string \<Rightarrow> string option \<Rightarrow> compliance_event list result"
where
  "sarif_to_events printable sarif agent_id ts task_id = (case sarif of
     JDict d \<Rightarrow>
       sbind (map_result (run_events printable agent_id ts task_id) (dicts_of (attr d ''runs''))) (\<lambda>ess.
         Inr (concat ess))
   | _ \<Rightarrow> Inr [])"

section \<open>What becomes of a batch\<close>

lemma policy_events_eq: "policy_events mk entries = map_result mk (dicts_of (JList entries))"
  by (induction entries) (simp_all add: dicts_of_def map_filter_simps split: pyv.split)

text \<open>A batch gives one event for every dictionary in it, in order, or fails as a whole: an entry the code
  cannot use is not skipped when it is a dictionary.\<close>

lemma policy_batch:
  assumes "policy_decisions_to_events lower printable entries agent_id ts engine task_id = Inr es"
  shows "length es = length (dicts_of (JList entries))
    \<and> list_all (\<lambda>e. kind e = POLICY_DECISION \<and> actor_agent_id (actor e) = agent_id
         \<and> source_format (source e) = ''policy-'' @ engine) es"
proof -
  obtain parse where "map_result (policy_event parse agent_id ts engine task_id) (dicts_of (JList entries)) = Inr es"
    using assms by (auto simp: policy_decisions_to_events_def policy_events_eq Let_def)
  then show ?thesis
  proof (induction "dicts_of (JList entries)" arbitrary: entries es rule: list.induct)
    case Nil
    then show ?case by simp
  next
    case (Cons d ds)
    have ds: "ds = dicts_of (JList (map JDict ds))" by (induction ds) (simp_all add: dicts_of_def map_filter_simps)
    obtain e es' where e: "policy_event parse agent_id ts engine task_id d = Inr e"
      "map_result (policy_event parse agent_id ts engine task_id) ds = Inr es'" "es = e # es'"
      using Cons.prems Cons.hyps(2) [symmetric] by (auto simp: sbind_Inr_conv)
    have "kind e = POLICY_DECISION \<and> actor_agent_id (actor e) = agent_id \<and> source_format (source e) = ''policy-'' @ engine"
      using e(1) by (auto simp: policy_event_def Let_def sbind_Inr_conv bare_event_def bare_actor_def bare_source_def)
    with Cons.hyps(1) [OF ds] e ds show ?case by (simp add: Cons.hyps(2) [symmetric])
  qed
qed

text \<open>Entries that are dictionaries but malformed are fatal, though they are said to be skipped.\<close>

lemma malformed_policy_fatal:
  "policy_decisions_to_events lower printable [JDict [(''result'', JFloat ''0.5'')]] a ts ''opa'' None = Inl ValueError"
  "policy_decisions_to_events lower printable [JDict [(''timestamp'', JInt 7)]] a ts ''opa'' None = Inl ValueError"
  by (simp_all add: policy_decisions_to_events_def policy_event_def opa_entry_def Let_def dget_or_def typed_text_def py_or_def
      truthy_def no_floats_in_attributes_def)

lemma malformed_sarif_fatal:
  "sarif_to_events printable (JDict [(''runs'', JList [JDict [(''tool'', JStr ''x'')]])]) a ts None = Inl AttributeError"
  by (simp add: sarif_to_events_def run_events_def tool_name_def get_or_empty_def dicts_of_def map_filter_simps dget_or_def
      py_or_def truthy_def)

end
