(* ===== verification/Connectors.thy ===== *)
theory Connectors imports Runtime begin

text \<open>
  \<open>src/src/openwright/connectors\<close> and \<open>_instrument.py\<close>: the registry of connectors, their discovery, the
  contract version check, and the resolution of a storage URI to a backend.  The entry points that are
  installed, with what loading each of them gives, are an argument, and so is \<open>urlparse\<close>'s check of
  a host that is bracketed or not ASCII.  A connector is what the code reads of it.
\<close>

section \<open>The contract\<close>

definition CONTRACT_VERSION :: string where
  "CONTRACT_VERSION = ''1.0''"

definition GROUPS :: "string list" where
  "GROUPS = [''openwright.source_connectors'', ''openwright.forwarders'', ''openwright.report_exporters'',
     ''openwright.ledger_backends'', ''openwright.checkpoint_stores'']"

text \<open>
  \<open>con_module\<close>: the version attribute of the connector's module, if it has a module; importing it may fail.
  \<open>con_export\<close>: the method \<open>export\<close> of an exporter (of an instance, if it is a class), given a report and its
  configuration, with the \<open>ok\<close> of its result.
\<close>

record 'b connector =
  con_version :: "string option"
  con_module :: "string option result option"
  con_from_uri :: "(string \<Rightarrow> 'b result) option"
  con_export :: "(json \<Rightarrow> (string \<times> string) list \<Rightarrow> bool result) option"

definition targeted_version :: "'b connector \<Rightarrow> string option" where
  "targeted_version impl = (case con_version impl of
     Some v \<Rightarrow> Some v
   | None \<Rightarrow> (case con_module impl of
       Some (Inr v) \<Rightarrow> non_empty v
     | _ \<Rightarrow> None))"

definition major :: "string \<Rightarrow> string" where
  "major v = hd (split_at (CHR ''.'') v)"

definition contract_compatible :: "'b connector \<Rightarrow> bool" where
  "contract_compatible impl = (case non_empty (targeted_version impl) of
     None \<Rightarrow> True
   | Some target \<Rightarrow> major target = major CONTRACT_VERSION)"

section \<open>Registry and discovery\<close>

type_synonym 'b registry = "(string \<times> (string \<times> 'b connector) list) list"

definition empty_registry :: "'b registry" where
  "empty_registry = map (\<lambda>g. (g, [])) GROUPS"

definition register :: "string \<Rightarrow> string \<Rightarrow> 'b connector \<Rightarrow> 'b registry \<Rightarrow> 'b registry result" where
  "register grp name impl reg = (case map_of reg grp of
     None \<Rightarrow> Inl ValueError
   | Some members \<Rightarrow> Inr (AList.update grp (AList.update name impl members) reg))"

text \<open>The result of discovery, and the connectors warned about.\<close>

type_synonym 'b found = "(string \<times> 'b connector) list \<times> string list"

definition warn_if_incompatible :: "string \<Rightarrow> 'b connector \<Rightarrow> string list \<Rightarrow> string list" where
  "warn_if_incompatible name impl ws =
     (if non_empty (targeted_version impl) \<noteq> None \<and> \<not> contract_compatible impl then ws @ [name] else ws)"

fun add_entry_points :: "(string \<times> 'b connector result) list \<Rightarrow> 'b found \<Rightarrow> 'b found" where
  "add_entry_points [] fnd = fnd"
| "add_entry_points ((name, loaded) # eps) (out, ws) = (case loaded of
     Inl e \<Rightarrow> add_entry_points eps (out, ws)
   | Inr impl \<Rightarrow> add_entry_points eps (AList.update name impl out, warn_if_incompatible name impl ws))"

fun add_registered :: "(string \<times> 'b connector) list \<Rightarrow> 'b found \<Rightarrow> 'b found" where
  "add_registered [] fnd = fnd"
| "add_registered ((name, impl) # ms) (out, ws) =
     add_registered ms (if map_of out name = None then out @ [(name, impl)] else out,
       warn_if_incompatible name impl ws)"

type_synonym 'b installed = "string \<Rightarrow> (string \<times> 'b connector result) list"

definition discover :: "'b installed \<Rightarrow> 'b registry \<Rightarrow> string \<Rightarrow> 'b found result" where
  "discover eps reg grp = (case map_of reg grp of
     None \<Rightarrow> Inl ValueError
   | Some members \<Rightarrow> Inr (add_registered members (add_entry_points (eps grp) ([], []))))"

definition discover_all :: "'b installed \<Rightarrow> 'b registry \<Rightarrow> (string \<times> (string \<times> 'b connector) list) list result" where
  "discover_all eps reg = map_result (\<lambda>g. sbind (discover eps reg g) (\<lambda>f. Inr (g, fst f))) GROUPS"

definition available :: "'b installed \<Rightarrow> 'b registry \<Rightarrow> (string \<times> string list) list result" where
  "available eps reg = map_result (\<lambda>g. sbind (discover eps reg g) (\<lambda>f. Inr (g, sort (map fst (fst f))))) GROUPS"

definition load_connector :: "'b installed \<Rightarrow> 'b registry \<Rightarrow> string \<Rightarrow> string \<Rightarrow> 'b connector result" where
  "load_connector eps reg grp name =
     sbind (discover eps reg grp) (\<lambda>f. case map_of (fst f) name of None \<Rightarrow> Inl KeyError | Some impl \<Rightarrow> Inr impl)"

section \<open>URIs\<close>

text \<open>The part before the first occurrence of a pattern, if there is one.\<close>

fun before_first :: "string \<Rightarrow> string \<Rightarrow> string option" where
  "before_first pat s =
     (if take (length pat) s = pat then Some []
      else case s of [] \<Rightarrow> None | c # cs \<Rightarrow> map_option (\<lambda>p. c # p) (before_first pat cs))"

definition uri_scheme :: "string \<Rightarrow> string" where
  "uri_scheme uri = or_else (before_first ''://'' uri) uri"

definition resolve_backend :: "'b installed \<Rightarrow> 'b registry \<Rightarrow> string \<Rightarrow> string \<Rightarrow> 'b result" where
  "resolve_backend eps reg grp uri =
     sbind (load_connector eps reg grp (uri_scheme uri)) (\<lambda>factory.
     case con_from_uri factory of None \<Rightarrow> Inl TypeError | Some from_uri \<Rightarrow> from_uri uri)"

text \<open>
  What the code reads of \<open>urlparse\<close>: scheme, host part and path, without query and fragment; none of the
  schemes below has parameters in its path.
\<close>

definition scheme_char :: "char \<Rightarrow> bool" where
  "scheme_char c \<longleftrightarrow> (let n = of_char c :: nat in
     (97 \<le> n \<and> n \<le> 122) \<or> (65 \<le> n \<and> n \<le> 90) \<or> (48 \<le> n \<and> n \<le> 57) \<or> c \<in> {CHR ''+'', CHR ''-'', CHR ''.''})"

definition url_scheme :: "string \<Rightarrow> string \<times> string" where
  "url_scheme url =
     (let scheme = takeWhile (\<lambda>c. c \<noteq> CHR '':'') url; first = of_char (hd url) :: nat
      in if length scheme < length url \<and> scheme \<noteq> []
           \<and> ((97 \<le> first \<and> first \<le> 122) \<or> (65 \<le> first \<and> first \<le> 90)) \<and> list_all scheme_char scheme
         then (map lower_char scheme, drop (length scheme + 1) url) else ([], url))"

definition url_clean :: "string \<Rightarrow> string" where
  "url_clean uri = filter (\<lambda>c. c \<notin> {CHR 0x09, CHR 0x0A, CHR 0x0D}) (dropWhile (\<lambda>c. of_char c \<le> (32 :: nat)) uri)"

definition url_netloc :: "string \<Rightarrow> string" where
  "url_netloc rest = (if take 2 rest = ''//'' then takeWhile (\<lambda>c. c \<notin> set ''/?#'') (drop 2 rest) else [])"

definition url_path :: "string \<Rightarrow> string" where
  "url_path rest = takeWhile (\<lambda>c. c \<notin> set ''?#'')
     (if take 2 rest = ''//'' then drop (length (url_netloc rest)) (drop 2 rest) else rest)"

definition url_split :: "(string \<Rightarrow> bool) \<Rightarrow> string \<Rightarrow> (string \<times> string \<times> string) result" where
  "url_split host_ok uri =
     (let (scheme, rest) = url_scheme (url_clean uri); netloc = url_netloc rest
      in if (CHR ''['' \<in> set netloc) \<noteq> (CHR '']'' \<in> set netloc) then Inl ValueError
         else if (CHR ''['' \<in> set netloc \<or> list_ex (\<lambda>c. 128 \<le> (of_char c :: nat)) netloc) \<and> \<not> host_ok netloc
         then Inl ValueError
         else Inr (scheme, netloc, url_path rest))"

definition path_of :: "(string \<Rightarrow> bool) \<Rightarrow> string \<Rightarrow> string result" where
  "path_of host_ok uri =
     sbind (url_split host_ok uri) (\<lambda>(scheme, netloc, path). Inr (if scheme \<noteq> [] then netloc @ path else uri))"

section \<open>The built-in backends\<close>

datatype builtin =
    Sqlite_Ledger string | Postgres_Ledger string | File_Ledger string
  | Local_Checkpoints string | S3_Checkpoints string string

definition sqlite_ledger :: "string \<Rightarrow> builtin result" where
  "sqlite_ledger uri = (let path = or_else (after_first ''://'' uri) uri
     in Inr (Sqlite_Ledger (if path = [] then '':memory:'' else path)))"

definition postgres_ledger :: "string \<Rightarrow> builtin result" where
  "postgres_ledger uri = Inr (Postgres_Ledger uri)"

definition file_ledger :: "(string \<Rightarrow> bool) \<Rightarrow> string \<Rightarrow> builtin result" where
  "file_ledger host_ok uri = sbind (path_of host_ok uri) (\<lambda>p. Inr (File_Ledger p))"

definition local_checkpoints :: "(string \<Rightarrow> bool) \<Rightarrow> string \<Rightarrow> builtin result" where
  "local_checkpoints host_ok uri = sbind (path_of host_ok uri) (\<lambda>p. Inr (Local_Checkpoints p))"

definition s3_checkpoints :: "(string \<Rightarrow> bool) \<Rightarrow> string \<Rightarrow> builtin result" where
  "s3_checkpoints host_ok uri =
     sbind (url_split host_ok uri) (\<lambda>(scheme, netloc, path).
       let prefix = dropWhile (\<lambda>c. c = CHR ''/'') path
       in Inr (S3_Checkpoints netloc (if prefix = [] then ''openwright/checkpoints'' else prefix)))"

definition factory :: "(string \<Rightarrow> 'b result) \<Rightarrow> 'b connector" where
  "factory fn = \<lparr>con_version = Some CONTRACT_VERSION, con_module = None, con_from_uri = Some fn, con_export = None\<rparr>"

definition LEDGERS :: "(string \<Rightarrow> bool) \<Rightarrow> (string \<times> (string \<Rightarrow> builtin result)) list" where
  "LEDGERS host_ok = [(''sqlite'', sqlite_ledger), (''postgres'', postgres_ledger),
     (''postgresql'', postgres_ledger), (''file'', file_ledger host_ok)]"

definition STORES :: "(string \<Rightarrow> bool) \<Rightarrow> (string \<times> (string \<Rightarrow> builtin result)) list" where
  "STORES host_ok = [(''local'', local_checkpoints host_ok), (''file'', local_checkpoints host_ok),
     (''s3'', s3_checkpoints host_ok)]"

fun register_all ::
  "string \<Rightarrow> (string \<times> (string \<Rightarrow> 'b result)) list \<Rightarrow> 'b registry \<Rightarrow> 'b registry result"
where
  "register_all grp [] reg = Inr reg"
| "register_all grp ((name, fn) # fns) reg =
     sbind (register grp name (factory fn) reg) (register_all grp fns)"

definition builtin_registry :: "(string \<Rightarrow> bool) \<Rightarrow> builtin registry result" where
  "builtin_registry host_ok =
     sbind (register_all ''openwright.ledger_backends'' (LEDGERS host_ok) empty_registry) (\<lambda>reg.
       register_all ''openwright.checkpoint_stores'' (STORES host_ok) reg)"

section \<open>Instrumentation\<close>

text \<open>The first instrumentor of the name, loaded and applied to the runtime.\<close>

definition load_instrumentor :: "(string \<times> 'i result) list \<Rightarrow> string \<Rightarrow> 'i result" where
  "load_instrumentor eps name = (case map_of eps name of None \<Rightarrow> Inl ValueError | Some loaded \<Rightarrow> loaded)"

definition instrument ::
  "(string \<times> ('r \<Rightarrow> 'h result) result) list \<Rightarrow> ('o \<Rightarrow> 'r result) \<Rightarrow> string \<Rightarrow> 'r option \<Rightarrow> ('o, 'r) process \<Rightarrow>
    'h result \<times> ('o, 'r) process"
where
  "instrument eps build framework runtime p =
     (let (rt, p') = (case runtime of Some r \<Rightarrow> (Inr r, p) | None \<Rightarrow> get_runtime build p)
      in (sbind rt (\<lambda>r. sbind (load_instrumentor eps framework) (\<lambda>f. f r)), p'))"

section \<open>What is found\<close>

text \<open>The last loadable entry point of a name, if any.\<close>

definition installed_as :: "(string \<times> 'b connector result) list \<Rightarrow> string \<Rightarrow> 'b connector option" where
  "installed_as eps name = map_of (rev (List.map_filter
     (\<lambda>(n, r). case r of Inr impl \<Rightarrow> Some (n, impl) | Inl e \<Rightarrow> None) eps)) name"

lemma entry_points_found:
  "map_of (fst (add_entry_points eps fnd)) name =
     (case installed_as eps name of Some impl \<Rightarrow> Some impl | None \<Rightarrow> map_of (fst fnd) name)"
proof (induction eps fnd rule: add_entry_points.induct)
  case (2 n r eps out ws)
  then show ?case
    by (cases r) (auto simp: installed_as_def map_filter_simps update_conv' map_add_def split: option.splits)
qed (simp add: installed_as_def map_filter_simps)

lemma registered_found:
  "distinct (map fst ms) \<Longrightarrow> map_of (fst (add_registered ms fnd)) name =
     (case map_of (fst fnd) name of Some impl \<Rightarrow> Some impl | None \<Rightarrow> map_of ms name)"
proof (induction ms fnd rule: add_registered.induct)
  case (2 n impl ms out ws)
  then have fresh: "map_of ms n = None" by (simp add: map_of_eq_None_iff)
  with 2 show ?case
    by (cases "map_of out n"; cases "name = n") (simp_all add: map_add_def split: option.split)
qed (simp split: option.split)

definition wf_registry :: "'b registry \<Rightarrow> bool" where
  "wf_registry reg \<longleftrightarrow> (\<forall>(g, ms) \<in> set reg. distinct (map fst ms)) \<and> distinct (map fst reg)"

lemma loaded_connector:
  assumes "wf_registry reg" "map_of reg grp = Some members"
  shows "load_connector eps reg grp name = (case installed_as (eps grp) name of
     Some impl \<Rightarrow> Inr impl
   | None \<Rightarrow> (case map_of members name of Some impl \<Rightarrow> Inr impl | None \<Rightarrow> Inl KeyError))"
proof -
  have "distinct (map fst members)" using assms map_of_SomeD by (fastforce simp: wf_registry_def)
  then show ?thesis
    using assms(2) by (simp add: load_connector_def discover_def registered_found entry_points_found split: option.split)
qed

section \<open>The backends by URI\<close>

definition plain_path :: "string \<Rightarrow> bool" where
  "plain_path p \<longleftrightarrow> list_all (\<lambda>c. of_char c < (128 :: nat)
     \<and> c \<notin> {CHR 0x09, CHR 0x0A, CHR 0x0D, CHR ''?'', CHR ''#'', CHR ''['', CHR '']''}) p"

lemma plain_path_url:
  assumes "plain_path p"
  shows "url_split host_ok (''file://'' @ p) = Inr (''file'', takeWhile (\<lambda>c. c \<noteq> CHR ''/'') p, dropWhile (\<lambda>c. c \<noteq> CHR ''/'') p)"
proof -
  have chars: "of_char c < (128 :: nat)" "c \<notin> {CHR 0x09, CHR 0x0A, CHR 0x0D}"
    "c \<noteq> CHR ''?''" "c \<noteq> CHR ''#''" "c \<noteq> CHR ''[''" "c \<noteq> CHR '']''" if "c \<in> set p" for c
    using assms that by (auto simp: plain_path_def list_all_iff)
  have keep: "url_clean (''file://'' @ p) = ''file://'' @ p"
    using chars(2) by (simp add: url_clean_def)
  have split: "url_scheme (''file://'' @ p) = (''file'', ''//'' @ p)"
    by (simp add: url_scheme_def scheme_char_def lower_char_def)
  have host: "url_netloc (''//'' @ p) = takeWhile (\<lambda>c. c \<noteq> CHR ''/'') p"
    unfolding url_netloc_def using chars(3,4) by (auto intro!: takeWhile_cong)
  have path: "url_path (''//'' @ p) = dropWhile (\<lambda>c. c \<noteq> CHR ''/'') p"
    unfolding url_path_def host using chars(3,4)
    by (auto simp: takeWhile_eq_all_conv simp flip: dropWhile_eq_drop dest: set_dropWhileD)
  have hc: "CHR ''['' \<notin> set (takeWhile (\<lambda>c. c \<noteq> CHR ''/'') p)" "CHR '']'' \<notin> set (takeWhile (\<lambda>c. c \<noteq> CHR ''/'') p)"
    "\<not> list_ex (\<lambda>c. 128 \<le> (of_char c :: nat)) (takeWhile (\<lambda>c. c \<noteq> CHR ''/'') p)"
    using chars(1,5,6) by (auto simp: list_ex_iff not_le dest!: set_takeWhileD)
  show ?thesis
    by (simp only: url_split_def Let_def keep split prod.case host path hc simp_thms if_False not_False_eq_True)
qed

lemma before_first_scheme:
  "before_first ''://'' (''file://'' @ p) = Some ''file''" "before_first ''://'' (''local://'' @ p) = Some ''local''"
  "before_first ''://'' (''sqlite://'' @ p) = Some ''sqlite''"
  by simp_all

lemma builtin_members:
  obtains reg where "builtin_registry host_ok = Inr reg" "wf_registry reg"
    "map_of reg ''openwright.ledger_backends'' = Some (map (\<lambda>(n, f). (n, factory f)) (LEDGERS host_ok))"
    "map_of reg ''openwright.checkpoint_stores'' = Some (map (\<lambda>(n, f). (n, factory f)) (STORES host_ok))"
  by (simp add: builtin_registry_def LEDGERS_def STORES_def register_def empty_registry_def GROUPS_def wf_registry_def)

lemma file_uri_resolves:
  assumes "builtin_registry host_ok = Inr reg" "plain_path p"
    "installed_as (eps ''openwright.ledger_backends'') ''file'' = None"
  shows "resolve_backend eps reg ''openwright.ledger_backends'' (''file://'' @ p) = Inr (File_Ledger p)"
proof -
  obtain reg' where built: "builtin_registry host_ok = Inr reg'" "wf_registry reg'"
    "map_of reg' ''openwright.ledger_backends'' = Some (map (\<lambda>(n, f). (n, factory f)) (LEDGERS host_ok))"
    by (rule builtin_members)
  have "load_connector eps reg ''openwright.ledger_backends'' ''file'' = Inr (factory (file_ledger host_ok))"
    using built assms(1,3) by (simp add: loaded_connector LEDGERS_def)
  then show ?thesis
    unfolding resolve_backend_def uri_scheme_def before_first_scheme(1) or_else_def option.case sbind.simps
    by (simp add: factory_def file_ledger_def path_of_def plain_path_url [OF assms(2)] del: append.simps append_Cons)
qed

text \<open>The runtime keeps a fragment in the directory, the connector drops it.\<close>

lemma uri_readings_differ:
  "file_path ''file:///data/ledger#2'' = ''/data/ledger#2''"
  "path_of host_ok ''file:///data/ledger#2'' = Inr ''/data/ledger''"
  by (simp add: file_path_def)
    (simp add: path_of_def url_split_def url_clean_def url_scheme_def scheme_char_def url_netloc_def url_path_def lower_char_def)

end
