(* ===== verification/Crosswalk_Loader.thy ===== *)
theory Crosswalk_Loader imports Crosswalk begin

text \<open>
  \<open>src/src/openwright/crosswalk_loader.py\<close> and the validation of the schema classes of \<open>crosswalk.py\<close>:
  \<open>load_X\<close> is \<open>model_validate\<close> of the class, which forbids undeclared fields everywhere but in a
  citation.  The YAML parser and the package's resource files are arguments, and so is \<open>flag\<close>, pydantic's
  reading of a truth value.  As in \<open>Events\<close>, other lax conversions are errors here.
\<close>

section \<open>Validation\<close>

definition only_fields :: "string list \<Rightarrow> dict \<Rightarrow> bool" where
  "only_fields fs d \<longleftrightarrow> list_all (\<lambda>(k, v). k \<in> set fs) d"

fun str_list :: "json list \<Rightarrow> string list option" where
  "str_list [] = Some []"
| "str_list (v # vs) = (case v of JStr s \<Rightarrow> map_option (\<lambda>ss. s # ss) (str_list vs) | _ \<Rightarrow> None)"

definition as_str_list :: "json \<Rightarrow> string list option" where
  "as_str_list v = (case v of JList vs \<Rightarrow> str_list vs | _ \<Rightarrow> None)"

definition get_list :: "string \<Rightarrow> dict \<Rightarrow> string list result" where
  "get_list k d = (case map_of d k of
     None \<Rightarrow> Inr []
   | Some v \<Rightarrow> (case as_str_list v of Some ss \<Rightarrow> Inr ss | None \<Rightarrow> Inl ValueError))"

definition event_filter_fields :: "string list" where
  "event_filter_fields =
     [''kind'', ''risk_classification'', ''oversight_status'', ''source_format'', ''attribute_equals'', ''has'']"

definition load_event_filter :: "dict \<Rightarrow> event_filter result" where
  "load_event_filter d =
     (if \<not> only_fields event_filter_fields d then Inl ValueError else
     sbind (get_opt as_str_list ''kind'' d) (\<lambda>ks.
     sbind (get_opt as_str_list ''risk_classification'' d) (\<lambda>rs.
     sbind (get_opt as_str_list ''oversight_status'' d) (\<lambda>os.
     sbind (get_opt as_str_list ''source_format'' d) (\<lambda>ss.
     sbind (get_obj_default ''attribute_equals'' [] Inr d) (\<lambda>attrs.
     sbind (get_list ''has'' d) (\<lambda>paths.
       Inr \<lparr>ef_kind = ks, ef_risk_classification = rs, ef_oversight_status = os, ef_source_format = ss,
         ef_attribute_equals = attrs, ef_has = paths\<rparr>)))))))"

definition empty_event_filter :: event_filter where
  "empty_event_filter = \<lparr>ef_kind = None, ef_risk_classification = None, ef_oversight_status = None,
     ef_source_format = None, ef_attribute_equals = [], ef_has = []\<rparr>"

definition condition_fields :: "string list" where
  "condition_fields = [''type'', ''path'', ''op'', ''value'', ''link'', ''target'', ''conditions'']"

lemma size_field: "map_of d k = Some v \<Longrightarrow> size v < size (JDict d)"
  by (drule map_of_SomeD) (auto dest!: size_list_estimation [where f = "size_prod (\<lambda>_. 0) size" and y = "size v"])

function (sequential) load_condition :: "json \<Rightarrow> condition result"
  and load_conditions :: "json list \<Rightarrow> condition list result"
where
  "load_condition (JDict d) =
     (if \<not> only_fields condition_fields d then Inl ValueError else
     sbind (get_str ''type'' d) (\<lambda>t.
     sbind (get_opt_str ''path'' d) (\<lambda>path.
     sbind (get_opt_str ''op'' d) (\<lambda>oper.
     sbind (get_opt_str ''link'' d) (\<lambda>link.
     sbind (get_opt_obj ''target'' load_event_filter d) (\<lambda>target.
     sbind (case map_of d ''conditions'' of
         None \<Rightarrow> Inr []
       | Some (JList cs) \<Rightarrow> load_conditions cs
       | _ \<Rightarrow> Inl ValueError) (\<lambda>conds.
       Inr (Condition t path oper (or_else (map_of d ''value'') JNull) link target conds))))))))"
| "load_condition _ = Inl ValueError"
| "load_conditions [] = Inr []"
| "load_conditions (c # cs) =
     sbind (load_condition c) (\<lambda>x. sbind (load_conditions cs) (\<lambda>xs. Inr (x # xs)))"
  by pat_completeness auto
termination
  by (relation "measure (case_sum size (size_list size))") (auto dest: size_field)

definition citation_fields :: "string list" where
  "citation_fields = [''instrument'', ''article'', ''clause'', ''paragraphs'', ''url'', ''quote'',
     ''effective_date'', ''notes'']"

definition load_citation :: "dict \<Rightarrow> citation result" where
  "load_citation d =
     sbind (get_str ''instrument'' d) (\<lambda>i.
     sbind (get_opt_str ''article'' d) (\<lambda>a.
     sbind (get_opt_str ''clause'' d) (\<lambda>c.
     sbind (get_list ''paragraphs'' d) (\<lambda>ps.
     sbind (get_opt_str ''url'' d) (\<lambda>u.
     sbind (get_opt_str ''quote'' d) (\<lambda>q.
     sbind (get_opt_str ''effective_date'' d) (\<lambda>e.
     sbind (get_opt_str ''notes'' d) (\<lambda>n.
       Inr \<lparr>cit_instrument = i, cit_article = a, cit_clause = c, cit_paragraphs = ps, cit_url = u,
         cit_quote = q, cit_effective_date = e, cit_notes = n, cit_extra = extras_of citation_fields d\<rparr>))))))))"

definition empty_scope_of :: "string \<Rightarrow> empty_scope_policy option" where
  "empty_scope_of s = find (\<lambda>p. control_status_value (empty_scope_status p) = s)
     [Empty_Insufficient, Empty_Satisfied, Empty_Not_Satisfied]"

definition get_flag :: "(json \<Rightarrow> bool option) \<Rightarrow> string \<Rightarrow> dict \<Rightarrow> bool result" where
  "get_flag flag k d = (case map_of d k of
     None \<Rightarrow> Inr False
   | Some v \<Rightarrow> (case flag v of Some b \<Rightarrow> Inr b | None \<Rightarrow> Inl ValueError))"

definition get_condition :: "string \<Rightarrow> dict \<Rightarrow> condition result" where
  "get_condition k d = (case map_of d k of Some v \<Rightarrow> load_condition v | None \<Rightarrow> Inl ValueError)"

definition control_fields :: "string list" where
  "control_fields = [''id'', ''title'', ''requirement'', ''citation'', ''scope'', ''condition'', ''empty_scope'',
     ''rationale'', ''completeness_sensitive'', ''variant'', ''applies_to_profiles'']"

definition load_control :: "(json \<Rightarrow> bool option) \<Rightarrow> dict \<Rightarrow> control result" where
  "load_control flag d =
     (if \<not> only_fields control_fields d then Inl ValueError else
     sbind (get_str ''id'' d) (\<lambda>i.
     sbind (get_str ''title'' d) (\<lambda>t.
     sbind (get_str ''requirement'' d) (\<lambda>r.
     sbind (get_obj ''citation'' load_citation d) (\<lambda>cit.
     sbind (get_obj_default ''scope'' empty_event_filter load_event_filter d) (\<lambda>scope.
     sbind (get_condition ''condition'' d) (\<lambda>con.
     sbind (get_enum_default ''empty_scope'' empty_scope_of Empty_Insufficient d) (\<lambda>empty.
     sbind (get_opt_str ''rationale'' d) (\<lambda>rat.
     sbind (get_flag flag ''completeness_sensitive'' d) (\<lambda>sens.
     sbind (get_opt_str ''variant'' d) (\<lambda>var.
     sbind (get_list ''applies_to_profiles'' d) (\<lambda>profiles.
       Inr \<lparr>ctl_id = i, ctl_title = t, ctl_requirement = r, ctl_citation = cit, ctl_scope = scope,
         ctl_condition = con, ctl_empty_scope = empty, ctl_rationale = rat,
         ctl_completeness_sensitive = sens, ctl_variant = var, ctl_applies_to_profiles = profiles\<rparr>))))))))))))"

fun load_controls :: "(json \<Rightarrow> bool option) \<Rightarrow> json list \<Rightarrow> control list result" where
  "load_controls flag [] = Inr []"
| "load_controls flag (v # vs) = (case v of
     JDict d \<Rightarrow> sbind (load_control flag d) (\<lambda>c. sbind (load_controls flag vs) (\<lambda>cs. Inr (c # cs)))
   | _ \<Rightarrow> Inl ValueError)"

definition crosswalk_fields :: "string list" where
  "crosswalk_fields = [''id'', ''title'', ''version'', ''source'', ''reviewed_as_of'', ''description'',
     ''disclaimer'', ''default_profiles'', ''controls'']"

definition get_controls :: "(json \<Rightarrow> bool option) \<Rightarrow> string \<Rightarrow> dict \<Rightarrow> control list result" where
  "get_controls flag k d = (case map_of d k of Some (JList vs) \<Rightarrow> load_controls flag vs | _ \<Rightarrow> Inl ValueError)"

definition load_crosswalk :: "(json \<Rightarrow> bool option) \<Rightarrow> json \<Rightarrow> crosswalk result" where
  "load_crosswalk flag v = (case v of
     JDict d \<Rightarrow>
       (if \<not> only_fields crosswalk_fields d then Inl ValueError else
       sbind (get_str ''id'' d) (\<lambda>i.
       sbind (get_str ''title'' d) (\<lambda>t.
       sbind (get_str ''version'' d) (\<lambda>ver.
       sbind (get_str ''source'' d) (\<lambda>src.
       sbind (get_str ''reviewed_as_of'' d) (\<lambda>rev.
       sbind (get_opt_str ''description'' d) (\<lambda>descr.
       sbind (get_opt_str ''disclaimer'' d) (\<lambda>discl.
       sbind (get_list ''default_profiles'' d) (\<lambda>profiles.
       sbind (get_controls flag ''controls'' d) (\<lambda>cs.
         Inr \<lparr>cw_id = i, cw_title = t, cw_version = ver, cw_source = src, cw_reviewed_as_of = rev,
           cw_description = descr, cw_disclaimer = discl, cw_default_profiles = profiles,
           cw_controls = cs\<rparr>))))))))))
   | _ \<Rightarrow> Inl ValueError)"

section \<open>Loading\<close>

definition load_crosswalk_text ::
  "(string \<Rightarrow> json result) \<Rightarrow> (json \<Rightarrow> bool option) \<Rightarrow> string \<Rightarrow> string list option \<Rightarrow> crosswalk result"
where
  "load_crosswalk_text safe_load flag yaml profile =
     sbind (safe_load yaml) (\<lambda>data. case data of
       JDict d \<Rightarrow> (case map_of d ''crosswalk'' of
           None \<Rightarrow> Inl ValueError
         | Some v \<Rightarrow> sbind (load_crosswalk flag v) (\<lambda>cw. Inr (select_profile cw profile)))
     | _ \<Rightarrow> Inl ValueError)"

definition BUILTINS :: "(string \<times> string) list" where
  "BUILTINS = [(''eu-ai-act'', ''eu_ai_act.yaml''), (''eu-ai-act-v1'', ''eu_ai_act_v1.yaml''),
     (''soc2'', ''soc2.yaml''), (''nist-ai-rmf'', ''nist_ai_rmf.yaml''),
     (''iso-42001'', ''iso_42001.yaml''), (''gdpr'', ''gdpr.yaml'')]"

text \<open>\<open>files\<close>: the text of a file of the package, or of the file system.\<close>

definition load_crosswalk_file ::
  "(string \<Rightarrow> json result) \<Rightarrow> (json \<Rightarrow> bool option) \<Rightarrow> (string \<Rightarrow> string result) \<Rightarrow> string \<Rightarrow>
    string list option \<Rightarrow> crosswalk result"
where
  "load_crosswalk_file safe_load flag files path profile =
     sbind (files path) (\<lambda>yaml. load_crosswalk_text safe_load flag yaml profile)"

definition load_builtin ::
  "(string \<Rightarrow> json result) \<Rightarrow> (json \<Rightarrow> bool option) \<Rightarrow> (string \<Rightarrow> string result) \<Rightarrow> string \<Rightarrow>
    string list option \<Rightarrow> crosswalk result"
where
  "load_builtin safe_load flag resources name profile = (case map_of BUILTINS name of
     None \<Rightarrow> Inl KeyError
   | Some file \<Rightarrow> sbind (resources file) (\<lambda>yaml. load_crosswalk_text safe_load flag yaml profile))"

section \<open>What is accepted\<close>

text \<open>A document without undeclared fields, at every level but inside citations.\<close>

definition declared_filter :: "json \<Rightarrow> bool" where
  "declared_filter v \<longleftrightarrow> (\<forall>d. v = JDict d \<longrightarrow> fst ` set d \<subseteq> set event_filter_fields)"

function (sequential) declared_condition :: "json \<Rightarrow> bool"
  and declared_conditions :: "json list \<Rightarrow> bool"
where
  "declared_condition (JDict d) \<longleftrightarrow> fst ` set d \<subseteq> set condition_fields
     \<and> (case map_of d ''target'' of None \<Rightarrow> True | Some v \<Rightarrow> declared_filter v)
     \<and> (case map_of d ''conditions'' of Some (JList cs) \<Rightarrow> declared_conditions cs | _ \<Rightarrow> True)"
| "declared_condition _ \<longleftrightarrow> True"
| "declared_conditions [] \<longleftrightarrow> True"
| "declared_conditions (c # cs) \<longleftrightarrow> declared_condition c \<and> declared_conditions cs"
  by pat_completeness auto
termination
  by (relation "measure (case_sum size (size_list size))") (auto dest: size_field)

definition declared_control :: "json \<Rightarrow> bool" where
  "declared_control v \<longleftrightarrow> (\<exists>d. v = JDict d \<and> fst ` set d \<subseteq> set control_fields
     \<and> (\<forall>w. map_of d ''scope'' = Some w \<longrightarrow> declared_filter w)
     \<and> (\<forall>w. map_of d ''condition'' = Some w \<longrightarrow> declared_condition w))"

definition declared_crosswalk :: "json \<Rightarrow> bool" where
  "declared_crosswalk v \<longleftrightarrow> (\<exists>d cs. v = JDict d \<and> fst ` set d \<subseteq> set crosswalk_fields
     \<and> map_of d ''controls'' = Some (JList cs) \<and> list_all declared_control cs)"

lemma only_fields_set: "only_fields fs d \<longleftrightarrow> fst ` set d \<subseteq> set fs"
  by (auto simp: only_fields_def list_all_iff)

lemma filter_declared: "load_event_filter d = Inr f \<Longrightarrow> declared_filter (JDict d)"
  by (auto simp: load_event_filter_def declared_filter_def only_fields_set split: if_splits)

lemma condition_declared:
  "load_condition v = Inr c \<Longrightarrow> declared_condition v"
  "load_conditions vs = Inr cs \<Longrightarrow> declared_conditions vs"
proof (induction v and vs arbitrary: c and cs rule: load_condition_load_conditions.induct)
  case (1 d)
  have fields: "only_fields condition_fields d" using "1.prems" by (auto split: if_splits)
  then obtain t path oper link target conds where head: "get_str ''type'' d = Inr t" "get_opt_str ''path'' d = Inr path"
      "get_opt_str ''op'' d = Inr oper" "get_opt_str ''link'' d = Inr link"
    and target: "get_opt_obj ''target'' load_event_filter d = Inr target"
    and conds: "(case map_of d ''conditions'' of None \<Rightarrow> Inr [] | Some (JList cs) \<Rightarrow> load_conditions cs
      | _ \<Rightarrow> Inl ValueError) = Inr conds"
    using "1.prems" by (auto simp: sbind_Inr_conv split: if_splits)
  have "declared_filter v" if "map_of d ''target'' = Some v" for v
    using target that filter_declared
    by (cases v) (auto simp: get_opt_def as_obj_def declared_filter_def split: if_splits option.splits sum.splits)
  moreover have "declared_conditions cs" if "map_of d ''conditions'' = Some (JList cs)" for cs
    using "1.IH" [OF _ head target] conds that fields by auto
  ultimately show ?case
    using fields by (auto simp: only_fields_set split: option.split pyv.split)
qed (auto simp: sbind_Inr_conv)

lemma control_declared: "load_control flag d = Inr c \<Longrightarrow> declared_control (JDict d)"
proof -
  assume ok: "load_control flag d = Inr c"
  then have fields: "only_fields control_fields d" by (auto simp: load_control_def split: if_splits)
  obtain scope con where scope: "get_obj_default ''scope'' empty_event_filter load_event_filter d = Inr scope"
    and con: "get_condition ''condition'' d = Inr con"
    using ok unfolding load_control_def sbind_Inr_conv by (auto simp: sbind_Inr_conv split: if_splits)
  have "declared_filter w" if "map_of d ''scope'' = Some w" for w
    using scope that filter_declared by (cases w) (auto simp: get_obj_default_def declared_filter_def)
  moreover have "declared_condition w" if "map_of d ''condition'' = Some w" for w
    using con that condition_declared(1) by (simp add: get_condition_def)
  ultimately show ?thesis using fields by (simp add: declared_control_def only_fields_set)
qed

lemma controls_declared: "load_controls flag vs = Inr cs \<Longrightarrow> list_all declared_control vs"
proof (induction vs arbitrary: cs)
  case (Cons v vs)
  then show ?case by (cases v) (auto simp: sbind_Inr_conv dest: control_declared)
qed simp

lemma crosswalk_declared: "load_crosswalk flag v = Inr cw \<Longrightarrow> declared_crosswalk v"
proof -
  assume ok: "load_crosswalk flag v = Inr cw"
  then obtain d where v: "v = JDict d" by (auto simp: load_crosswalk_def split: pyv.splits)
  have fields: "only_fields crosswalk_fields d" using ok by (auto simp: load_crosswalk_def v split: if_splits)
  obtain cs where "get_controls flag ''controls'' d = Inr cs"
    using ok unfolding load_crosswalk_def v pyv.case by (auto simp: sbind_Inr_conv split: if_splits)
  then obtain vs where "map_of d ''controls'' = Some (JList vs)" "load_controls flag vs = Inr cs"
    by (auto simp: get_controls_def split: option.splits pyv.splits)
  with controls_declared fields v show ?thesis by (auto simp: declared_crosswalk_def only_fields_set)
qed

section \<open>Reading back what is dumped\<close>

lemma skip_lists [field_laws]:
  "k \<noteq> k' \<Longrightarrow> get_list k ([(k', v)] @ r) = get_list k r"
  "k \<noteq> k' \<Longrightarrow> get_list k (opt_field k' w @ r) = get_list k r"
  "k \<noteq> k' \<Longrightarrow> get_flag flag k ([(k', v)] @ r) = get_flag flag k r"
  "k \<noteq> k' \<Longrightarrow> get_flag flag k (opt_field k' w @ r) = get_flag flag k r"
  "k \<noteq> k' \<Longrightarrow> get_condition k ([(k', v)] @ r) = get_condition k r"
  "k \<noteq> k' \<Longrightarrow> get_condition k (opt_field k' w @ r) = get_condition k r"
  "k \<noteq> k' \<Longrightarrow> get_controls flag k ([(k', v)] @ r) = get_controls flag k r"
  "k \<noteq> k' \<Longrightarrow> get_controls flag k (opt_field k' w @ r) = get_controls flag k r"
  "k \<noteq> k' \<Longrightarrow> get_enum_default k of_value e ([(k', v)] @ r) = get_enum_default k of_value e r"
  "k \<noteq> k' \<Longrightarrow> get_enum_default k of_value e (opt_field k' w @ r) = get_enum_default k of_value e r"
  by (simp_all add: get_list_def get_flag_def get_condition_def get_controls_def get_enum_default_def map_of_fields
      del: append.simps append_Cons map_of_append)

lemma str_list_strs [simp]: "str_list (map JStr ss) = Some ss"
  by (induction ss) simp_all

lemma as_str_list_strs [simp]: "as_str_list (strs ss) = Some ss"
  by (simp add: as_str_list_def strs_def)

lemma strs_not_null [simp]: "strs ss \<noteq> JNull"
  by (simp add: strs_def)

lemma read_lists [field_laws]:
  "get_list k ([(k, strs ss)] @ r) = Inr ss"
  "get_flag flag k ([(k, v)] @ r) = (case flag v of Some b \<Rightarrow> Inr b | None \<Rightarrow> Inl ValueError)"
  "get_condition k ([(k, v)] @ r) = load_condition v"
  "get_controls flag k ([(k, JList vs)] @ r) = load_controls flag vs"
  by (simp_all add: get_list_def get_flag_def get_condition_def get_controls_def)

lemma read_opt_list [field_laws]:
  "absent k r \<Longrightarrow> get_opt as_str_list k (opt_field k (map_option strs w) @ r) = Inr w"
  by (cases w) (simp_all add: get_opt_def opt_field_def absent_map_of)

lemma only_fields_parts [field_laws]:
  "only_fields fs []"
  "only_fields fs ([(k, v)] @ r) \<longleftrightarrow> k \<in> set fs \<and> only_fields fs r"
  "k \<in> set fs \<Longrightarrow> only_fields fs (opt_field k w @ r) \<longleftrightarrow> only_fields fs r"
  by (auto simp: only_fields_def opt_field_def split: option.split)

lemmas last_field = absent_fields(2,3) [where r = "[]", unfolded append_Nil2]
  map_of_fields [where r = "[]", unfolded append_Nil2] skip_fields [where r = "[]", unfolded append_Nil2]
  read_fields [where r = "[]", unfolded append_Nil2] skip_lists [where r = "[]", unfolded append_Nil2]
  read_lists [where r = "[]", unfolded append_Nil2] only_fields_parts(2,3) [where r = "[]", unfolded append_Nil2]

lemma empty_scope_roundtrip [simp]:
  "empty_scope_of (control_status_value (empty_scope_status p)) = Some p"
  by (cases p) (simp_all add: empty_scope_of_def)

lemma load_dump_event_filter [simp]: "load_event_filter (dump_event_filter f) = Inr f"
  unfolding load_event_filter_def dump_event_filter_def event_filter_fields_def append_assoc
  by (simp add: field_laws last_field del: append.simps append_Cons append_Nil)

lemma load_dump_condition [simp]: "load_condition (dump_condition c) = Inr c"
proof (induction c)
  case (Condition t path oper val link target conds)
  have loaded: "load_conditions (map dump_condition conds) = Inr conds"
    using Condition.IH by (induction conds) auto
  have written: "dump_condition (Condition t path oper val link target conds) = JDict
     ([(''type'', JStr t)] @ opt_field ''path'' (map_option JStr path) @ opt_field ''op'' (map_option JStr oper)
      @ opt_field ''value'' (if val = JNull then None else Some val) @ opt_field ''link'' (map_option JStr link)
      @ opt_field ''target'' (map_option (\<lambda>f. JDict (dump_event_filter f)) target)
      @ [(''conditions'', JList (map dump_condition conds))])"
    by (simp add: opt_field_def)
  show ?case
    unfolding written load_condition.simps condition_fields_def
    by (simp add: field_laws last_field read_opt_obj loaded or_else_def
        del: append.simps append_Cons append_Nil map_of_append)
qed

definition wf_citation :: "citation \<Rightarrow> bool" where
  "wf_citation c \<longleftrightarrow> good_extras citation_fields (cit_extra c)"

lemma load_dump_citation: "wf_citation c \<Longrightarrow> load_citation (dump_citation c) = Inr c"
proof -
  assume wf: "wf_citation c"
  then have ex: "good_extras citation_fields (cit_extra c)" by (simp add: wf_citation_def)
  note absent_ex = absent_extras [OF ex, unfolded citation_fields_def]
  note extras = extras_of_extras [OF ex, unfolded citation_fields_def]
  from wf show ?thesis
    unfolding load_citation_def dump_citation_def citation_fields_def append_assoc
    by (simp add: field_laws absent_ex extras absent_map_of del: append.simps append_Cons append_Nil)
qed

definition reads_flags :: "(json \<Rightarrow> bool option) \<Rightarrow> bool" where
  "reads_flags flag \<longleftrightarrow> (\<forall>b. flag (JBool b) = Some b)"

lemma load_dump_control:
  assumes "reads_flags flag" "wf_citation (ctl_citation c)"
  shows "load_control flag (dump_control c) = Inr c"
proof -
  have written: "dump_control c =
     [(''id'', JStr (ctl_id c))] @ [(''title'', JStr (ctl_title c))] @ [(''requirement'', JStr (ctl_requirement c))]
     @ [(''citation'', JDict (dump_citation (ctl_citation c)))]
     @ [(''scope'', JDict (dump_event_filter (ctl_scope c)))] @ [(''condition'', dump_condition (ctl_condition c))]
     @ [(''empty_scope'', JStr (control_status_value (empty_scope_status (ctl_empty_scope c))))]
     @ opt_field ''rationale'' (map_option JStr (ctl_rationale c))
     @ [(''completeness_sensitive'', JBool (ctl_completeness_sensitive c))]
     @ opt_field ''variant'' (map_option JStr (ctl_variant c))
     @ [(''applies_to_profiles'', strs (ctl_applies_to_profiles c))]"
    by (simp add: dump_control_def)
  have empty: "get_enum_default k empty_scope_of e ([(k, JStr (control_status_value (empty_scope_status p)))] @ r) = Inr p"
    for k e p r by (simp add: get_enum_default_def)
  show ?thesis
    using assms unfolding load_control_def written control_fields_def
    by (simp add: field_laws last_field load_dump_citation reads_flags_def empty
        del: append.simps append_Cons append_Nil)
qed

definition wf_crosswalk :: "crosswalk \<Rightarrow> bool" where
  "wf_crosswalk cw \<longleftrightarrow> list_all (\<lambda>c. wf_citation (ctl_citation c)) (cw_controls cw)"

lemma load_dump_controls:
  "reads_flags flag \<Longrightarrow> list_all (\<lambda>c. wf_citation (ctl_citation c)) cs \<Longrightarrow>
    load_controls flag (map (\<lambda>c. JDict (dump_control c)) cs) = Inr cs"
  by (induction cs) (simp_all add: load_dump_control)

lemma load_dump_crosswalk:
  assumes "reads_flags flag" "wf_crosswalk cw"
  shows "load_crosswalk flag (JDict (dump_crosswalk cw)) = Inr cw"
proof -
  have written: "dump_crosswalk cw =
     [(''id'', JStr (cw_id cw))] @ [(''title'', JStr (cw_title cw))] @ [(''version'', JStr (cw_version cw))]
     @ [(''source'', JStr (cw_source cw))] @ [(''reviewed_as_of'', JStr (cw_reviewed_as_of cw))]
     @ opt_field ''description'' (map_option JStr (cw_description cw))
     @ opt_field ''disclaimer'' (map_option JStr (cw_disclaimer cw))
     @ [(''default_profiles'', strs (cw_default_profiles cw))]
     @ [(''controls'', JList (map (\<lambda>c. JDict (dump_control c)) (cw_controls cw)))]"
    by (simp add: dump_crosswalk_def)
  show ?thesis
    using assms(2) unfolding load_crosswalk_def written crosswalk_fields_def pyv.case
    by (simp add: field_laws last_field load_dump_controls [OF assms(1)] wf_crosswalk_def
        del: append.simps append_Cons append_Nil)
qed

end
