(* ===== verification/Dashboard.thy ===== *)
theory Dashboard imports Report Verify Authz begin

text \<open>
  \<open>src/src/openwright/dashboard.py\<close>: the static coverage page over a series of reports.  The page is a text
  rendered from what is read of the reports; the escaping of texts is an argument of the rendering, which
  \<open>build_dashboard\<close> instantiates with \<open>html.escape\<close>.  Texts are cut by characters, not bytes.  Counts are integers, small
  enough for the quotient to round as the exact one.  A malformed report raises: an error here stands
  for whatever exception that is.
\<close>

section \<open>Reading the reports\<close>

definition COLOR :: "(string \<times> string) list" where
  "COLOR = [(''satisfied'', ''#2e7d32''), (''not_satisfied'', ''#c62828''),
     (''insufficient_evidence'', ''#f9a825''), (''absent'', ''#bdbdbd'')]"

definition SYMBOL :: "(string \<times> string) list" where
  "SYMBOL = [(''satisfied'', [CHR 0xE2, CHR 0x9C, CHR 0x93]), (''not_satisfied'', [CHR 0xE2, CHR 0x9C, CHR 0x97]),
     (''insufficient_evidence'', ''?''), (''absent'', [CHR 0xC2, CHR 0xB7])]"

text \<open>\<open>d.get(k, dflt)\<close>, and a value that must be a text.\<close>

definition field_or :: "json \<Rightarrow> string \<Rightarrow> json \<Rightarrow> json result" where
  "field_or v k dflt = (case v of JDict d \<Rightarrow> Inr (or_else (map_of d k) dflt) | _ \<Rightarrow> Inl AttributeError)"

definition as_text :: "json \<Rightarrow> string result" where
  "as_text v = (case v of JStr s \<Rightarrow> Inr s | _ \<Rightarrow> Inl AttributeError)"

definition text_or :: "json \<Rightarrow> string \<Rightarrow> string \<Rightarrow> string result" where
  "text_or v k dflt = sbind (field_or v k (JStr dflt)) as_text"

text \<open>The first \<open>n\<close> characters of a text in UTF-8.\<close>

fun take_chars :: "nat \<Rightarrow> string \<Rightarrow> string" where
  "take_chars n [] = []"
| "take_chars n (c # cs) =
     (if 128 \<le> (of_char c :: nat) \<and> (of_char c :: nat) < 192 then c # take_chars n cs
      else case n of 0 \<Rightarrow> [] | Suc m \<Rightarrow> c # take_chars m cs)"

definition sort_reports :: "json list \<Rightarrow> json list result" where
  "sort_reports rs =
     sbind (map_result (\<lambda>r. sbind (text_or r ''generated_at'' []) (\<lambda>t. Inr (t, r))) rs) (\<lambda>keyed.
       Inr (map snd (sort_key fst keyed)))"

text \<open>The controls in the order they are first seen, each with its first title.\<close>

fun add_controls :: "json list \<Rightarrow> (string \<times> string) list \<Rightarrow> (string \<times> string) list result" where
  "add_controls [] titles = Inr titles"
| "add_controls (c # cs) titles =
     sbind (sbind (item_at c ''control_id'') as_text) (\<lambda>cid.
     if cid \<in> fst ` set titles then add_controls cs titles
     else sbind (text_or c ''title'' cid) (\<lambda>t. add_controls cs (titles @ [(cid, t)])))"

definition controls_of :: "json \<Rightarrow> json list result" where
  "controls_of r = sbind (field_or r ''controls'' (JList [])) iterate"

fun collect_titles :: "json list \<Rightarrow> (string \<times> string) list \<Rightarrow> (string \<times> string) list result" where
  "collect_titles [] titles = Inr titles"
| "collect_titles (r # rs) titles =
     sbind (controls_of r) (\<lambda>cs. sbind (add_controls cs titles) (collect_titles rs))"

fun status_in :: "json list \<Rightarrow> string \<Rightarrow> json result" where
  "status_in [] cid = Inr (JStr ''absent'')"
| "status_in (c # cs) cid =
     sbind (item_at c ''control_id'') (\<lambda>v. if v = JStr cid then item_at c ''status'' else status_in cs cid)"

definition status_at :: "json \<Rightarrow> string \<Rightarrow> string result" where
  "status_at r cid =
     sbind (controls_of r) (\<lambda>cs. sbind (status_in cs cid) (\<lambda>v. sbind (as_text v) (\<lambda>st.
       if map_of COLOR st = None then Inl KeyError else Inr st)))"

text \<open>\<open>round(100 * s / total)\<close>: to the nearest integer, halves to the even one.\<close>

definition round_ratio :: "int \<Rightarrow> int \<Rightarrow> int" where
  "round_ratio a b =
     (let a = (if b < 0 then - a else a); b = \<bar>b\<bar>; q = a div b; r = a mod b
      in if 2 * r < b then q else if b < 2 * r then q + 1 else if even q then q else q + 1)"

definition as_count :: "json \<Rightarrow> int result" where
  "as_count v = (case v of JInt i \<Rightarrow> Inr i | JBool b \<Rightarrow> Inr (if b then 1 else 0) | _ \<Rightarrow> Inl TypeError)"

definition coverage :: "json \<Rightarrow> int result" where
  "coverage r =
     sbind (field_or r ''summary'' (JDict [])) (\<lambda>s.
     sbind (field_or s ''total'' (JInt 0)) (\<lambda>t.
     sbind (as_count (if truthy t then t else JInt 1)) (\<lambda>total.
     sbind (field_or s ''satisfied'' (JInt 0)) (\<lambda>v.
     sbind (as_count v) (\<lambda>sat. Inr (round_ratio (100 * sat) total))))))"

text \<open>Of each report the crosswalk's title, the time and the id; of each control its title and its statuses.\<close>

record dash =
  da_heads :: "(string \<times> string \<times> string) list"
  da_rows :: "(string \<times> string \<times> string list) list"
  da_trend :: "int list"

definition head_of :: "json \<Rightarrow> (string \<times> string \<times> string) result" where
  "head_of r =
     sbind (field_or r ''crosswalk'' (JDict [])) (\<lambda>cw.
     sbind (text_or cw ''title'' []) (\<lambda>title.
     sbind (text_or r ''generated_at'' []) (\<lambda>generated.
     sbind (text_or r ''report_id'' []) (\<lambda>rid.
       Inr (title, take_chars 19 generated, take_chars 14 rid)))))"

definition read_reports :: "json list \<Rightarrow> dash result" where
  "read_reports rs =
     sbind (sort_reports rs) (\<lambda>rs.
     sbind (collect_titles rs []) (\<lambda>titles.
     sbind (map_result head_of rs) (\<lambda>heads.
     sbind (map_result (\<lambda>(cid, t). sbind (map_result (\<lambda>r. status_at r cid) rs) (\<lambda>sts. Inr (cid, t, sts))) titles) (\<lambda>rows.
     sbind (map_result coverage rs) (\<lambda>trend.
       Inr \<lparr>da_heads = heads, da_rows = rows, da_trend = trend\<rparr>)))))"

section \<open>Rendering\<close>

definition html_escape_char :: "char \<Rightarrow> string" where
  "html_escape_char c =
     (if c = CHR ''&'' then ''&amp;'' else if c = CHR ''<'' then ''&lt;'' else if c = CHR ''>'' then ''&gt;''
      else if c = CHR 0x22 then ''&quot;'' else if c = CHR 0x27 then ''&#x27;'' else [c])"

definition html_escape :: "string \<Rightarrow> string" where
  "html_escape s = concat (map html_escape_char s)"

definition quoted :: "string \<Rightarrow> string" where
  "quoted s = [CHR 0x22] @ s @ [CHR 0x22]"

definition color :: "string \<Rightarrow> string" where
  "color st = or_else (map_of COLOR st) []"

definition symbol :: "string \<Rightarrow> string" where
  "symbol st = or_else (map_of SYMBOL st) []"

definition head_cell :: "(string \<Rightarrow> string) \<Rightarrow> string \<times> string \<times> string \<Rightarrow> string" where
  "head_cell esc h =
     ''<th title='' @ quoted (esc (fst h)) @ ''>'' @ esc (fst (snd h)) @ ''<br/><small>'' @ esc (snd (snd h))
     @ ''</small></th>''"

definition cell :: "(string \<Rightarrow> string) \<Rightarrow> string \<Rightarrow> string" where
  "cell esc st =
     ''<td style='' @ quoted (''background:'' @ color st @ '';color:#fff;text-align:center'')
     @ '' title='' @ quoted (esc st) @ ''>'' @ symbol st @ ''</td>''"

definition row :: "(string \<Rightarrow> string) \<Rightarrow> string \<times> string \<times> string list \<Rightarrow> string" where
  "row esc r =
     ''<tr><th style='' @ quoted ''text-align:left'' @ ''>'' @ esc (fst r) @ ''<br/><small>'' @ esc (fst (snd r))
     @ ''</small></th>'' @ concat (map (cell esc) (snd (snd r))) @ ''</tr>''"

definition trend_bar :: "int \<Rightarrow> string" where
  "trend_bar pct =
     ''<div style='' @ quoted ''display:inline-block;text-align:center;margin:0 6px'' @ ''>''
     @ ''<div style='' @ quoted ''height:120px;width:30px;background:#eee;position:relative;border-radius:3px'' @ ''>''
     @ ''<div style='' @ quoted (''position:absolute;bottom:0;width:100%;height:'' @ str_of_int pct
         @ ''%;background:#2e7d32;border-radius:3px'')
     @ ''></div></div><small>'' @ str_of_int pct @ ''%</small></div>''"

definition page_head :: string where
  "page_head = ''<!DOCTYPE html><html lang='' @ quoted ''en'' @ ''><head><meta charset='' @ quoted ''utf-8'' @ ''/>''
     @ [CHR 0x0A] @ ''<title>OpenWright coverage dashboard</title>'' @ [CHR 0x0A] @ ''<style>'' @ [CHR 0x0A]
     @ ''body{font:14px/1.5 system-ui,sans-serif;max-width:1100px;margin:2rem auto;padding:0 1rem}''
     @ [CHR 0x0A]
     @ ''table{border-collapse:collapse;width:100%;margin-top:1rem} th,td{border:1px solid #ddd;padding:6px;font-size:12px}''
     @ [CHR 0x0A]
     @ ''.note{background:#fff3cd;border:1px solid #ffc107;padding:.6rem;border-radius:6px;font-size:.85rem}''
     @ [CHR 0x0A] @ ''.legend span{display:inline-block;margin-right:1rem}'' @ [CHR 0x0A]
     @ ''</style></head><body>'' @ [CHR 0x0A] @ ''<h1>OpenWright '' @ [CHR 0xE2, CHR 0x80, CHR 0x94]
     @ '' control coverage over time</h1>'' @ [CHR 0x0A] @ ''<p class='' @ quoted ''note'' @ ''>''"

definition legend_item :: "string \<Rightarrow> string \<Rightarrow> string" where
  "legend_item st name =
     '' <span style='' @ quoted (''color:'' @ color st) @ ''>&#9632; '' @ name @ ''</span>'' @ [CHR 0x0A]"

definition legend :: string where
  "legend = ''<div class='' @ quoted ''legend'' @ ''>'' @ [CHR 0x0A]
     @ legend_item ''satisfied'' ''satisfied'' @ legend_item ''not_satisfied'' ''not satisfied''
     @ legend_item ''insufficient_evidence'' ''insufficient evidence'' @ legend_item ''absent'' ''not in scope''
     @ ''</div>'' @ [CHR 0x0A]"

definition render :: "(string \<Rightarrow> string) \<Rightarrow> dash \<Rightarrow> string" where
  "render esc d =
     page_head @ esc BOUNDARY_STATEMENT @ ''</p>'' @ [CHR 0x0A] @ legend
     @ ''<h2>Coverage trend (% satisfied)</h2>'' @ [CHR 0x0A] @ ''<div>''
     @ (if da_trend d = [] then ''<em>no reports</em>'' else concat (map trend_bar (da_trend d)))
     @ ''</div>'' @ [CHR 0x0A] @ ''<h2>Per-control status</h2>'' @ [CHR 0x0A]
     @ ''<table><thead><tr><th>Control</th>'' @ concat (map (head_cell esc) (da_heads d)) @ ''</tr></thead><tbody>''
     @ concat (map (row esc) (da_rows d)) @ ''</tbody></table>'' @ [CHR 0x0A] @ ''</body></html>''"

definition build_dashboard :: "json list \<Rightarrow> string result" where
  "build_dashboard reports = sbind (read_reports reports) (\<lambda>d. Inr (render html_escape d))"

definition write_dashboard :: "string list \<Rightarrow> string result" where
  "write_dashboard texts = sbind (map_result loads texts) build_dashboard"

section \<open>No text of a report becomes markup\<close>

definition markup :: "string \<Rightarrow> string" where
  "markup s = filter (\<lambda>c. c \<in> {CHR ''<'', CHR ''>'', CHR 0x22, CHR 0x27}) s"

lemma markup_parts [simp]:
  "markup (s @ t) = markup s @ markup t" "markup (concat ss) = concat (map markup ss)" "markup [] = []"
  by (simp_all add: markup_def [abs_def] filter_concat)

lemma markup_escape [simp]: "markup (html_escape s) = []"
proof -
  have "markup (html_escape_char c) = []" for c by (simp add: html_escape_char_def markup_def)
  then show ?thesis by (simp add: html_escape_def o_def)
qed

lemma markup_quoted [simp]: "markup (quoted s) = [CHR 0x22] @ markup s @ [CHR 0x22]"
  by (simp add: quoted_def markup_def)

text \<open>The page's tags and quotes are those of the page with every text of the reports left out.\<close>

lemma markup_render: "markup (render html_escape d) = markup (render (\<lambda>_. []) d)"
proof -
  have "markup (head_cell html_escape h) = markup (head_cell (\<lambda>_. []) h)" for h
    by (simp only: head_cell_def markup_parts markup_quoted markup_escape)
  moreover have cells: "markup (cell html_escape st) = markup (cell (\<lambda>_. []) st)" for st
    by (simp only: cell_def markup_parts markup_quoted markup_escape)
  moreover have "markup (row html_escape r) = markup (row (\<lambda>_. []) r)" for r
    by (simp only: row_def markup_parts markup_quoted markup_escape map_map o_def cells)
  ultimately show ?thesis
    by (simp only: render_def markup_parts markup_escape map_map o_def)
qed

end
