(* ===== verification/Spec.thy ===== *)
theory Spec imports Verify_Properties begin

text \<open>
  \<open>src/src/openwright/spec.py\<close>: the published schemas.  Those of events and crosswalks are generated by
  pydantic, an argument here; the schema of a report is written out.  \<open>conforms\<close> is what the keywords the
  schema uses mean in JSON Schema (draft 2020-12), and every report the code builds conforms.
\<close>

section \<open>The schemas\<close>

definition SCHEMA_ID_BASE :: string where
  "SCHEMA_ID_BASE = ''https://schemas.openwright.dev''"

definition DRAFT :: string where
  "DRAFT = ''https://json-schema.org/draft/2020-12/schema''"

definition compliance_event_schema :: "dict \<Rightarrow> dict" where
  "compliance_event_schema generated =
     dput ''x-openwright-schema-version'' (JStr COMPLIANCE_EVENT_SCHEMA_VERSION)
       (dput ''title'' (JStr ''OpenWright ComplianceEvent'')
         (dput ''$id'' (JStr (SCHEMA_ID_BASE @ ''/compliance_event/'' @ COMPLIANCE_EVENT_SCHEMA_VERSION))
           (dput ''$schema'' (JStr DRAFT) generated)))"

definition crosswalk_schema :: "dict \<Rightarrow> dict" where
  "crosswalk_schema generated =
     dput ''title'' (JStr ''OpenWright Crosswalk'')
       (dput ''$id'' (JStr (SCHEMA_ID_BASE @ ''/crosswalk/1.0.0''))
         (dput ''$schema'' (JStr DRAFT) generated))"

abbreviation of_type :: "string \<Rightarrow> json" where
  "of_type t \<equiv> JDict [(''type'', JStr t)]"

definition report_schema :: dict where
  "report_schema =
     [(''$schema'', JStr DRAFT),
      (''$id'', JStr (SCHEMA_ID_BASE @ ''/report/'' @ REPORT_VERSION)),
      (''title'', JStr ''OpenWright Report''),
      (''type'', JStr ''object''),
      (''required'', strs
         [''report_version'', ''report_id'', ''generated_at'', ''tool'', ''boundary_statement'',
          ''scope'', ''crosswalk'', ''summary'', ''controls'', ''checkpoint'', ''events'',
          ''public_key_pem'', ''signature'']),
      (''properties'', JDict
         [(''report_version'', of_type ''string''),
          (''report_id'', of_type ''string''),
          (''generated_at'', of_type ''string''),
          (''tool'', JDict [(''type'', JStr ''object''), (''required'', strs [''name'', ''version''])]),
          (''boundary_statement'', of_type ''string''),
          (''scope'', JDict
             [(''type'', JStr ''object''),
              (''required'', strs [''description'', ''agent_ids'']),
              (''properties'', JDict
                 [(''agent_ids'', JDict [(''type'', JStr ''array''), (''items'', of_type ''string'')])])]),
          (''period'', of_type ''object''),
          (''crosswalk'', JDict
             [(''type'', JStr ''object''),
              (''required'', strs [''id'', ''version'', ''content_hash'']),
              (''properties'', JDict
                 [(''id'', of_type ''string''),
                  (''version'', of_type ''string''),
                  (''content_hash'', JDict
                     [(''type'', JStr ''string''), (''pattern'', JStr ''^sha256:[0-9a-f]{64}$'')])])]),
          (''summary'', JDict
             [(''type'', JStr ''object''),
              (''required'', strs [''total'', ''satisfied'', ''not_satisfied'', ''insufficient_evidence''])]),
          (''controls'', of_type ''array''),
          (''evidence_gaps'', of_type ''array''),
          (''checkpoint'', JDict
             [(''type'', JStr ''object''),
              (''required'', strs
                 [''origin'', ''tree_size'', ''root_hash'', ''timestamp'', ''public_key_id'', ''signature''])]),
          (''events'', JDict
             [(''type'', JStr ''array''),
              (''items'', JDict
                 [(''type'', JStr ''object''),
                  (''required'', strs [''event'', ''leaf_index'', ''inclusion_proof'']),
                  (''properties'', JDict
                     [(''event'', of_type ''object''),
                      (''leaf_index'', JDict [(''type'', JStr ''integer''), (''minimum'', JInt 0)]),
                      (''inclusion_proof'', JDict [(''type'', JStr ''array''), (''items'', of_type ''string'')])])])]),
          (''public_key_pem'', of_type ''string''),
          (''signature'', JDict
             [(''type'', JStr ''object''),
              (''required'', strs [''algorithm'', ''public_key_id'', ''signature''])])])]"

section \<open>Conformance\<close>

fun type_is :: "string \<Rightarrow> json \<Rightarrow> bool" where
  "type_is t (JDict d) \<longleftrightarrow> t = ''object''"
| "type_is t (JList xs) \<longleftrightarrow> t = ''array''"
| "type_is t (JStr s) \<longleftrightarrow> t = ''string''"
| "type_is t (JInt i) \<longleftrightarrow> t \<in> {''integer'', ''number''}"
| "type_is t (JBool b) \<longleftrightarrow> t = ''boolean''"
| "type_is t (JFloat r) \<longleftrightarrow> t = ''number''"
| "type_is t JNull \<longleftrightarrow> t = ''null''"

text \<open>The pattern of a digest, the one pattern in use.\<close>

definition digest_text :: "string \<Rightarrow> bool" where
  "digest_text s \<longleftrightarrow> take 7 s = ''sha256:'' \<and> length s = 71 \<and> list_all (\<lambda>c. c \<in> set hex_digits) (drop 7 s)"

fun conforms :: "json \<Rightarrow> json \<Rightarrow> bool"
  and keyword_holds :: "string \<times> json \<Rightarrow> json \<Rightarrow> bool"
  and members_conform :: "dict \<Rightarrow> dict \<Rightarrow> bool"
where
  "conforms (JDict schema) v \<longleftrightarrow> list_all (\<lambda>kw. keyword_holds kw v) schema"
| "conforms (JBool b) v \<longleftrightarrow> b"
| "conforms _ v \<longleftrightarrow> False"
| "keyword_holds (kw, arg) v \<longleftrightarrow>
     (if kw = ''type'' then (case arg of JStr t \<Rightarrow> type_is t v | _ \<Rightarrow> False)
      else if kw = ''required'' then (case v of JDict d \<Rightarrow> (case arg of
          JList ks \<Rightarrow> list_all (\<lambda>k. case k of JStr x \<Rightarrow> map_of d x \<noteq> None | _ \<Rightarrow> False) ks | _ \<Rightarrow> False) | _ \<Rightarrow> True)
      else if kw = ''properties'' then (case v of JDict d \<Rightarrow> (case arg of
          JDict props \<Rightarrow> members_conform props d | _ \<Rightarrow> False) | _ \<Rightarrow> True)
      else if kw = ''items'' then (case v of JList xs \<Rightarrow> list_all (conforms arg) xs | _ \<Rightarrow> True)
      else if kw = ''minimum'' then (case v of JInt i \<Rightarrow> (case arg of JInt m \<Rightarrow> m \<le> i | _ \<Rightarrow> False) | _ \<Rightarrow> True)
      else if kw = ''pattern'' then (case v of JStr s \<Rightarrow> arg = JStr ''^sha256:[0-9a-f]{64}$'' \<and> digest_text s | _ \<Rightarrow> True)
      else True)"
| "members_conform [] d \<longleftrightarrow> True"
| "members_conform ((k, sub) # props) d \<longleftrightarrow>
     (case map_of d k of None \<Rightarrow> True | Some v \<Rightarrow> conforms sub v) \<and> members_conform props d"

section \<open>Reports conform\<close>

lemma conforms_strs: "conforms (JDict [(''type'', JStr ''array''), (''items'', of_type ''string'')]) (strs xs)"
  by (simp add: strs_def list_all_iff)

lemma hex_char_digit: "n < 16 \<Longrightarrow> hex_char n \<in> set hex_digits"
  unfolding hex_char_def by (rule nth_mem) (simp add: hex_digits_def)

lemma content_hash_digest: "content_hash v = Inr h \<Longrightarrow> digest_text h"
proof -
  assume "content_hash v = Inr h"
  then obtain b where h: "h = ''sha256:'' @ hex (sha256 b)" by (auto simp: content_hash_def sha256_hex_def sbind_Inr_conv)
  have "list_all (\<lambda>c. c \<in> set hex_digits) (hex bs)" for bs
  proof -
    have "unat w div 16 < 16" for w :: "8 word" using unsigned_less [of w] by (simp add: div_less_iff_less_mult)
    then show ?thesis unfolding hex_def list_all_iff by (auto simp: hex_of_byte_def hex_char_digit)
  qed
  moreover have "length (hex (sha256 b)) = 64" by simp
  ultimately show "digest_text h" by (simp add: h digest_text_def)
qed

lemma items_shape:
  "report_items ops n is led = (Inr items, led') \<Longrightarrow> x \<in> set (map snd items) \<Longrightarrow> \<exists>e i p. x = report_item e i p"
proof (induction ops n "is" led arbitrary: items led' rule: report_items.induct)
  case (2 ops n i "is" led)
  then obtain e p led1 rest led2 where "items = (e, report_item e i p) # rest" "report_items ops n is led1 = (Inr rest, led2)"
    "snd (get_event ops (int i) led) = led1"
    by (auto simp: Let_def sbind_Inr_conv split: prod.splits sum.splits)
  then show ?case using 2 by (fastforce split: prod.splits sum.splits)
qed simp

lemma built_parts:
  assumes "build_report ops pem key cr a led = (Inr report, led')"
  obtains cp es items payload where "report = report_body pem key cr a cp es items @
       [(''signature'', JDict [(''algorithm'', JStr ''ed25519''), (''public_key_id'', JStr (ks_key_id key)),
           (''signature'', JStr (b64encode (ks_sign key payload)))])]"
    "\<forall>x \<in> set items. \<exists>e i p. x = report_item e i p"
proof -
  obtain cp items led1 where "report_items ops (cp_tree_size cp) [0..<nat (cp_tree_size cp)] led = (Inr items, led1)"
    "sign_report key (report_body pem key cr a cp (map fst items) (map snd items)) = Inr report"
    using assms by (auto simp: build_report_def sbind_Inr_conv Let_def split: sum.splits prod.splits)
  then show ?thesis using that items_shape by (fastforce simp: sign_report_def sbind_Inr_conv)
qed

lemma item_conforms:
  "conforms (JDict
     [(''type'', JStr ''object''), (''required'', strs [''event'', ''leaf_index'', ''inclusion_proof'']),
      (''properties'', JDict
         [(''event'', of_type ''object''),
          (''leaf_index'', JDict [(''type'', JStr ''integer''), (''minimum'', JInt 0)]),
          (''inclusion_proof'', JDict [(''type'', JStr ''array''), (''items'', of_type ''string'')])])])
     (report_item e i p)"
  using conforms_strs [of p] by (simp add: report_item_def strs_def)

lemma built_conforms:
  assumes "build_report ops pem key cr a led = (Inr report, led')" "evaluate cw es = Inr cr"
  shows "conforms (JDict report_schema) (JDict report)"
proof -
  obtain cp es items payload where report: "report = report_body pem key cr a cp es items @
       [(''signature'', JDict [(''algorithm'', JStr ''ed25519''), (''public_key_id'', JStr (ks_key_id key)),
           (''signature'', JStr (b64encode (ks_sign key payload)))])]"
    "\<forall>x \<in> set items. \<exists>e i p. x = report_item e i p" by (rule built_parts [OF assms(1)])
  obtain h where h: "res_crosswalk_content_hash cr = Some h" "digest_text h"
    using evaluate_parts [OF assms(2)] content_hash_digest by (metis crosswalk_content_hash_def)
  have "list_all (conforms (JDict
     [(''type'', JStr ''object''), (''required'', strs [''event'', ''leaf_index'', ''inclusion_proof'']),
      (''properties'', JDict
         [(''event'', of_type ''object''),
          (''leaf_index'', JDict [(''type'', JStr ''integer''), (''minimum'', JInt 0)]),
          (''inclusion_proof'', JDict [(''type'', JStr ''array''), (''items'', of_type ''string'')])])])) items"
    unfolding list_all_iff using report(2) item_conforms by metis
  then show ?thesis
    using h conforms_strs by (simp add: report(1) report_schema_def report_body_def dump_checkpoint_def json_opt_def strs_def)
qed

text \<open> C37. Every report the code builds from an evaluation, whatever the backend, the key and the arguments,
  has the shape the published report schema prescribes: all required members, at every level, with values
  of the prescribed types, the pinned crosswalk hash a SHA-256 reference and no negative index.\<close>

theorem reports_conform:
  assumes "build_report ops pem key cr a led = (Inr report, led')" "evaluate cw es = Inr cr"
  shows "conforms (JDict report_schema) (JDict report)"
  using assms by (rule built_conforms)

theorem reports_conform_witness:
  "\<exists>cr cp report led'. build_report file_ops (\<lambda>k. ''P'') echo_key cr (plain_args cp) (fresh (open_file_backend [])) = (Inr report, led')
    \<and> conforms (JDict report_schema) (JDict report)"
proof -
  obtain cp cr where parts: "ledger_checkpoint echo_key ''t'' None (fresh (open_file_backend [])) = Inr cp"
    "evaluate sample_crosswalk [] = Inr cr" "args_float_free (plain_args cp) cr" by (rule sample_parts)
  have args: "ra_checkpoint (plain_args cp) = Some cp" "ra_authorize (plain_args cp) = None" by (simp_all add: plain_args_def)
  obtain report led' where "build_report file_ops (\<lambda>k. ''P'') echo_key cr (plain_args cp) (fresh (open_file_backend [])) = (Inr report, led')"
    by (rule honest_report [where ed = echo_check and key = echo_key and pem = "\<lambda>k. ''P''", OF _ fresh_file parts(1) run_start parts(3) args])
      (auto simp: echo_check_def echo_key_def)
  from this reports_conform [OF this parts(2)] show ?thesis by blast
qed

end
