(* ===== verification/Cli_Commands.thy ===== *)
theory Cli_Commands imports Connectors Crosswalk_Loader Collector Dashboard Spec begin

text \<open>
  The other commands of \<open>src/src/openwright/cli.py\<close>, and \<open>src/src/openwright/sbom.py\<close>: what they print or
  write, and their exit codes.  Of \<open>collector\<close> the wiring is modelled: the objects the process then serves
  with.  The distributions that are installed and the generated schemas are arguments.
\<close>

section \<open>Versions, schemas, crosswalks\<close>

definition version_command :: string where
  "version_command = ''openwright '' @ OPENWRIGHT_VERSION"

definition schema_command :: "dict \<Rightarrow> dict \<Rightarrow> string \<Rightarrow> string" where
  "schema_command generated_event generated_crosswalk which =
     dumps_in (indented 2) 0 (JDict
       (if which = ''crosswalk'' then crosswalk_schema generated_crosswalk
        else if which = ''report'' then report_schema
        else compliance_event_schema generated_event))"

definition crosswalk_lines :: "string \<Rightarrow> crosswalk \<Rightarrow> string list" where
  "crosswalk_lines name cw =
     [name @ '': '' @ cw_title cw,
      ''    version='' @ cw_version cw @ ''  reviewed_as_of='' @ cw_reviewed_as_of cw @ ''  controls=''
        @ str_of_int (int (length (cw_controls cw))),
      ''    source='' @ cw_source cw]"

definition crosswalks_command ::
  "(string \<Rightarrow> json result) \<Rightarrow> (json \<Rightarrow> bool option) \<Rightarrow> (string \<Rightarrow> string result) \<Rightarrow> string list result"
where
  "crosswalks_command safe_load flag resources =
     sbind (map_result (\<lambda>name. sbind (load_builtin safe_load flag resources name None)
       (\<lambda>cw. Inr (crosswalk_lines name cw))) (map fst BUILTINS)) (\<lambda>lss. Inr (concat lss))"

section \<open>The bill of materials\<close>

text \<open>Each distribution's name, if it has one, and version; the first of a name, cases aside, is kept.\<close>

fun sbom_components ::
  "(string \<Rightarrow> string) \<Rightarrow> (string option \<times> string) list \<Rightarrow> (string \<times> json) list \<Rightarrow> (string \<times> json) list"
where
  "sbom_components lower [] seen = seen"
| "sbom_components lower ((meta, ver) # dists) seen =
     (let name = strip (str_or meta [])
      in if name = [] \<or> lower name \<in> fst ` set seen then sbom_components lower dists seen
         else sbom_components lower dists (seen @ [(lower name, JDict
           [(''type'', JStr ''library''), (''name'', JStr name), (''version'', JStr ver),
            (''purl'', JStr (''pkg:pypi/'' @ name @ ''@'' @ ver))])]))"

lemma sbom_names_distinct:
  "distinct (map fst seen) \<Longrightarrow> distinct (map fst (sbom_components lower dists seen))"
  by (induction lower dists seen rule: sbom_components.induct) (auto simp: Let_def)

definition generate_cyclonedx :: "(string \<Rightarrow> string) \<Rightarrow> (string option \<times> string) list \<Rightarrow> dict" where
  "generate_cyclonedx lower dists =
     [(''bomFormat'', JStr ''CycloneDX''), (''specVersion'', JStr ''1.5''), (''version'', JInt 1),
      (''metadata'', JDict [(''component'', JDict
         [(''type'', JStr ''application''), (''name'', JStr ''openwright''), (''version'', JStr OPENWRIGHT_VERSION),
          (''licenses'', JList [JDict [(''license'', JDict [(''id'', JStr ''Apache-2.0'')])]])])]),
      (''components'', JList (map snd (sort_key fst (sbom_components lower dists []))))]"

definition sbom_command :: "(string \<Rightarrow> string) \<Rightarrow> (string option \<times> string) list \<Rightarrow> string" where
  "sbom_command lower dists = dumps_in (indented 2) 0 (JDict (generate_cyclonedx lower dists))"

section \<open>Keys\<close>

text \<open>The private key's file as generated; the public key's file and the key id that go with it.\<close>

definition keygen_command ::
  "(bytes \<Rightarrow> bytes option \<Rightarrow> pem_key result) \<Rightarrow> (bytes \<Rightarrow> bytes) \<Rightarrow> bytes \<Rightarrow> (bytes \<times> bytes \<times> string) result"
where
  "keygen_command load_pem public_pem generated =
     sbind (file_key_source load_pem generated None) (\<lambda>key.
       Inr (generated, public_pem (ks_public_key_raw key), ks_key_id key))"

section \<open>Exporters and connectors\<close>

definition export_config :: "string list \<Rightarrow> (string \<times> string) list" where
  "export_config kvs = foldl (\<lambda>cfg kv.
     AList.update (strip (takeWhile (\<lambda>c. c \<noteq> CHR ''='') kv)) (drop 1 (dropWhile (\<lambda>c. c \<noteq> CHR ''='') kv)) cfg) [] kvs"

definition export_command ::
  "'b installed \<Rightarrow> 'b registry \<Rightarrow> string \<Rightarrow> string \<Rightarrow> string list \<Rightarrow> int result"
where
  "export_command eps reg report name config =
     sbind (loads report) (\<lambda>data.
     case load_connector eps reg ''openwright.report_exporters'' name of
       Inl e \<Rightarrow> if e = KeyError then Inr 2 else Inl e
     | Inr exporter \<Rightarrow> (case con_export exporter of
         None \<Rightarrow> Inl AttributeError
       | Some push \<Rightarrow> sbind (push data (export_config config)) (\<lambda>delivered. Inr (if delivered then 0 else 1))))"

text \<open>\<open>f"{s:18s}"\<close>: padded to a number of characters, the bytes that continue one not counted.\<close>

definition char_count :: "string \<Rightarrow> nat" where
  "char_count s = length (filter (\<lambda>c. (of_char c :: nat) < 128 \<or> 192 \<le> (of_char c :: nat)) s)"

definition pad_right :: "nat \<Rightarrow> string \<Rightarrow> string" where
  "pad_right width s = s @ replicate (width - char_count s) (CHR '' '')"

definition connector_line :: "string \<times> 'b connector \<Rightarrow> string" where
  "connector_line = (\<lambda>(name, impl).
     ''  '' @ pad_right 18 name @ '' contract=''
     @ pad_right 5 (str_or (con_version impl) [CHR 0xE2, CHR 0x80, CHR 0x94])
     @ '' ['' @ (if contract_compatible impl then ''ok'' else ''INCOMPATIBLE'') @ '']'')"

definition group_lines :: "string \<Rightarrow> (string \<times> 'b connector) list \<Rightarrow> string list" where
  "group_lines grp impls = (if impls = [] then [] else
     ([CHR 0x0A] @ last (split_at (CHR ''.'') grp) @ '':'') # map connector_line (sort_key fst impls))"

definition connectors_list :: "'b installed \<Rightarrow> 'b registry \<Rightarrow> string list result" where
  "connectors_list eps reg =
     sbind (map_result (\<lambda>g. sbind (discover eps reg g) (\<lambda>f. Inr (group_lines g (fst f)))) GROUPS) (\<lambda>lss.
       Inr ((''OpenWright connector contract: v'' @ CONTRACT_VERSION)
         # (if concat lss = [] then [[CHR 0x0A] @ ''(no connectors discovered)''] else concat lss)))"

section \<open>The collector\<close>

text \<open>The checkpoint interval is in microseconds; the key is given by the path of its file.\<close>

record collector_args =
  ca_ledger_dir :: string
  ca_downstream :: "string option"
  ca_grpc_port :: "int option"
  ca_agent_id :: "string option"
  ca_auth_token :: "string option"
  ca_key :: "string option"
  ca_checkpoint_interval :: int
  ca_checkpoints :: string
  ca_ledger_backend :: "string option"
  ca_checkpoint_store :: "string option"

text \<open>What the process serves with: the backend, the pipeline's configuration, the authority of the HTTP
  server, the downstream URL it forwards to, the port of the gRPC server, the store and key of the scheduler.\<close>

record 'b collector_setup =
  su_backend :: 'b
  su_config :: pipe_config
  su_authority :: "token_authority option"
  su_downstream :: "string option"
  su_grpc :: "int option"
  su_scheduler :: "('b \<times> key_source \<times> int) option"

datatype 'b collector_end = Exits int | Serves "'b collector_setup"

definition collector_writer :: principal where
  "collector_writer = \<lparr>pr_id = ''collector-writer'', pr_capabilities = {WRITE_EVIDENCE}\<rparr>"

definition collector_authority :: "string option \<Rightarrow> token_authority option" where
  "collector_authority token =
     map_option (\<lambda>t. token_add t collector_writer (\<lambda>_. None)) (non_empty token)"

definition collector_config :: "(nat \<Rightarrow> bool) \<Rightarrow> string option \<Rightarrow> pipe_config" where
  "collector_config up agent_id =
     \<lparr>pc_normalizer = \<lparr>nz_printable = up, nz_agent_id = agent_id, nz_pricing = None\<rparr>,
      pc_max_queue = 10000, pc_commit_retries = 3\<rparr>"

definition collector_scheduler ::
  "'b installed \<Rightarrow> 'b registry \<Rightarrow> (string \<Rightarrow> 'b) \<Rightarrow> (string \<Rightarrow> key_source result) \<Rightarrow> collector_args \<Rightarrow>
    ('b \<times> key_source \<times> int) option result"
where
  "collector_scheduler eps reg local_store load_key a = (case ca_key a of
     None \<Rightarrow> Inr None
   | Some path \<Rightarrow>
       (if ca_checkpoint_interval a \<le> 0 then Inr None
        else
          sbind (case non_empty (ca_checkpoint_store a) of
              None \<Rightarrow> Inr (local_store (ca_checkpoints a))
            | Some uri \<Rightarrow> resolve_backend eps reg ''openwright.checkpoint_stores'' uri) (\<lambda>store.
          sbind (load_key path) (\<lambda>key. Inr (Some (store, key, ca_checkpoint_interval a))))))"

definition collector_command ::
  "'b installed \<Rightarrow> 'b registry \<Rightarrow> (nat \<Rightarrow> bool) \<Rightarrow> (string \<Rightarrow> 'b result) \<Rightarrow> (string \<Rightarrow> 'b) \<Rightarrow>
    (string \<Rightarrow> key_source result) \<Rightarrow> collector_args \<Rightarrow> 'b collector_end result"
where
  "collector_command eps reg up file_backend local_store load_key a =
     sbind (case non_empty (ca_ledger_backend a) of
        None \<Rightarrow> sbind (file_backend (ca_ledger_dir a)) (\<lambda>b. Inr (Some b))
      | Some uri \<Rightarrow> (case resolve_backend eps reg ''openwright.ledger_backends'' uri of
          Inl e \<Rightarrow> Inr None
        | Inr b \<Rightarrow> Inr (Some b)))
       (\<lambda>backend. case backend of
        None \<Rightarrow> Inr (Exits 2)
      | Some b \<Rightarrow>
          sbind (collector_scheduler eps reg local_store load_key a) (\<lambda>sched.
            Inr (Serves \<lparr>su_backend = b, su_config = collector_config up (ca_agent_id a),
              su_authority = collector_authority (ca_auth_token a), su_downstream = non_empty (ca_downstream a),
              su_grpc = (if ca_grpc_port a = Some 0 then None else ca_grpc_port a),
              su_scheduler = sched\<rparr>)))"
end
