(* ===== verification/Commands_Properties.thy ===== *)
theory Commands_Properties imports Cli_Commands Collector_Properties begin

text \<open>
  What the pieces of the command line amount to: which crosswalk a name loads and that a dumped crosswalk
  reads back as itself, where a storage URI leads, who may write to a collector, and that the texts of a
  report stay texts in the dashboard.
\<close>

section \<open>Crosswalks\<close>

text \<open>The built-in crosswalks as the runtime and the verifier look them up.\<close>

definition package_builtins ::
  "(string \<Rightarrow> json result) \<Rightarrow> (json \<Rightarrow> bool option) \<Rightarrow> (string \<Rightarrow> string result) \<Rightarrow> string \<Rightarrow> crosswalk result option"
where
  "package_builtins safe_load flag resources name =
     (if name \<in> fst ` set BUILTINS then Some (load_builtin safe_load flag resources name None) else None)"

lemma package_builtins_found:
  "find_builtin (package_builtins safe_load flag resources) name = load_builtin safe_load flag resources name None"
proof -
  have "name \<in> fst ` set BUILTINS \<longleftrightarrow> map_of BUILTINS name \<noteq> None"
    using map_of_eq_None_iff [of BUILTINS name] by argo
  then show ?thesis by (simp add: find_builtin_def package_builtins_def load_builtin_def split: option.split)
qed

lemma unprofiled_text:
  assumes "reads_flags flag" "wf_crosswalk cw" "safe_load yaml = Inr (JDict [(''crosswalk'', JDict (dump_crosswalk cw))])"
  shows "load_crosswalk_text safe_load flag yaml profile = Inr (select_profile cw profile)"
  by (simp add: load_crosswalk_text_def assms(3) load_dump_crosswalk [OF assms(1,2)])

lemma select_profile_idem [simp]: "select_profile (select_profile cw p) p = select_profile cw p"
  by (cases p) (simp_all add: select_profile_def)

lemma profiled_wf: "wf_crosswalk cw \<Longrightarrow> wf_crosswalk (select_profile cw p)"
  by (auto simp: wf_crosswalk_def select_profile_def list_all_iff)

text \<open>
  C29. Crosswalks survive being written down: when the YAML parser reads a text as the dump of a crosswalk,
  \<open>load_crosswalk_text\<close> returns that crosswalk restricted to the selected profiles; writing the
  restricted crosswalk and loading it again changes nothing, so the definition hash that a report
  pins is that of the text loaded.  Conversely, a text that loads at all has no undeclared field in the
  crosswalk, in any of its controls, in a scope, in a condition at any depth or in a condition's target;
  only citations may carry more.
\<close>
theorem crosswalk_reloads:
  assumes "reads_flags flag" "wf_crosswalk cw"
    "safe_load yaml = Inr (JDict [(''crosswalk'', JDict (dump_crosswalk cw))])"
    "safe_load written = Inr (JDict [(''crosswalk'', JDict (dump_crosswalk (select_profile cw profile)))])"
  shows "load_crosswalk_text safe_load flag yaml profile = Inr (select_profile cw profile)
    \<and> load_crosswalk_text safe_load flag written profile = load_crosswalk_text safe_load flag yaml profile
    \<and> (\<forall>other cw'. load_crosswalk_text safe_load flag other profile = Inr cw' \<longrightarrow>
        (\<exists>doc v. safe_load other = Inr (JDict doc) \<and> map_of doc ''crosswalk'' = Some v \<and> declared_crosswalk v))"
proof -
  have "\<exists>doc v. safe_load other = Inr (JDict doc) \<and> map_of doc ''crosswalk'' = Some v \<and> declared_crosswalk v"
    if "load_crosswalk_text safe_load flag other profile = Inr cw'" for other cw'
  proof -
    obtain data where data: "safe_load other = Inr data" and loaded: "(case data of
        JDict d \<Rightarrow> (case map_of d ''crosswalk'' of
            None \<Rightarrow> Inl ValueError
          | Some v \<Rightarrow> sbind (load_crosswalk flag v) (\<lambda>cw. Inr (select_profile cw profile)))
      | _ \<Rightarrow> Inl ValueError) = Inr cw'"
      using \<open>load_crosswalk_text safe_load flag other profile = Inr cw'\<close>
      unfolding load_crosswalk_text_def sbind_Inr_conv by blast
    then show ?thesis
      using crosswalk_declared by (cases data) (auto simp: sbind_Inr_conv split: option.splits)
  qed
  then show ?thesis
    using unprofiled_text [OF assms(1,2), where safe_load = safe_load and yaml = yaml, OF assms(3)]
      unprofiled_text [OF assms(1) profiled_wf [OF assms(2)], where safe_load = safe_load and yaml = written, OF assms(4)]
    by simp
qed

definition sample_control :: control where
  "sample_control = \<lparr>ctl_id = ''art-14'', ctl_title = ''Human oversight'', ctl_requirement = ''Decisions are reviewed'',
     ctl_citation = \<lparr>cit_instrument = ''EU AI Act'', cit_article = Some ''14'', cit_clause = None,
       cit_paragraphs = [''1''], cit_url = None, cit_quote = None, cit_effective_date = None, cit_notes = None,
       cit_extra = [(''celex'', JStr ''32024R1689'')]\<rparr>,
     ctl_scope = empty_event_filter, ctl_condition = Condition ''committed'' None None JNull None None [],
     ctl_empty_scope = Empty_Insufficient, ctl_rationale = None, ctl_completeness_sensitive = True,
     ctl_variant = None, ctl_applies_to_profiles = [''in_the_loop'']\<rparr>"

definition sample_crosswalk :: crosswalk where
  "sample_crosswalk = \<lparr>cw_id = ''cw'', cw_title = ''Oversight'', cw_version = ''1'', cw_source = ''text'',
     cw_reviewed_as_of = ''2025-01-01'', cw_description = None, cw_disclaimer = None,
     cw_default_profiles = [''on_the_loop''], cw_controls = [sample_control]\<rparr>"

definition sample_flag :: "json \<Rightarrow> bool option" where
  "sample_flag v = (case v of JBool b \<Rightarrow> Some b | _ \<Rightarrow> None)"

text \<open>A text whose only fault is a misspelt field in the target of a condition.\<close>

definition padded_control :: dict where
  "padded_control = dput ''condition''
     (JDict [(''type'', JStr ''has_record''), (''target'', JDict [(''knd'', JList [JStr ''TOOL_CALL''])])])
     (dump_control sample_control)"

definition sample_load :: "string \<Rightarrow> json result" where
  "sample_load yaml =
     (if yaml = ''full'' then Inr (JDict [(''crosswalk'', JDict (dump_crosswalk sample_crosswalk))])
      else if yaml = ''selected'' then Inr (JDict [(''crosswalk'', JDict (dump_crosswalk (select_profile sample_crosswalk None)))])
      else if yaml = ''padded'' then Inr (JDict [(''crosswalk'', JDict
        (dput ''controls'' (JList [JDict padded_control]) (dump_crosswalk sample_crosswalk)))])
      else Inl ValueError)"

lemma padded_undeclared:
  "\<not> declared_crosswalk (JDict (dput ''controls'' (JList [JDict padded_control]) (dump_crosswalk sample_crosswalk)))"
  by (auto simp: declared_crosswalk_def declared_control_def declared_filter_def event_filter_fields_def
      padded_control_def dput_def update_conv')

theorem crosswalk_reloads_witness:
  "load_crosswalk_text sample_load sample_flag ''full'' None = Inr (sample_crosswalk\<lparr>cw_controls := []\<rparr>)
    \<and> (\<forall>cw. load_crosswalk_text sample_load sample_flag ''padded'' None \<noteq> Inr cw)"
proof -
  have "reads_flags sample_flag" "wf_crosswalk sample_crosswalk"
    by (simp_all add: reads_flags_def sample_flag_def wf_crosswalk_def sample_crosswalk_def sample_control_def
        wf_citation_def good_extras_def citation_fields_def)
  from crosswalk_reloads [OF this, where safe_load = sample_load and yaml = "''full''" and written = "''selected''"
      and profile = None]
  have all: "load_crosswalk_text sample_load sample_flag ''full'' None = Inr (select_profile sample_crosswalk None)"
    "\<forall>other cw'. load_crosswalk_text sample_load sample_flag other None = Inr cw' \<longrightarrow>
        (\<exists>doc v. sample_load other = Inr (JDict doc) \<and> map_of doc ''crosswalk'' = Some v \<and> declared_crosswalk v)"
    by (simp_all add: sample_load_def)
  from all(1) have "load_crosswalk_text sample_load sample_flag ''full'' None = Inr (sample_crosswalk\<lparr>cw_controls := []\<rparr>)"
    by (simp add: select_profile_def sample_crosswalk_def sample_control_def)
  moreover have "load_crosswalk_text sample_load sample_flag ''padded'' None \<noteq> Inr cw" for cw
    using all(2) [rule_format, of "''padded''" cw] padded_undeclared by (auto simp: sample_load_def)
  ultimately show ?thesis by blast
qed

section \<open>Storage URIs\<close>

text \<open> A \<open>file:\<close> URI resolves to the ledger backend at its path: \<open>builtin.py\<close> registers its factories without
  error, and unless an installed package provides a loadable connector named \<open>file\<close>,
  \<open>resolve_backend\<close> splits the scheme off, finds the factory and passes it the path unchanged, whether
  \<open>urlparse\<close> takes the path's beginning for a host or not, for every path without the characters
  \<open>urlparse\<close> treats specially.
\<close>
theorem file_uri_opens_path:
  assumes "plain_path p" "installed_as (eps ''openwright.ledger_backends'') ''file'' = None"
  shows "\<exists>reg. builtin_registry host_ok = Inr reg
    \<and> resolve_backend eps reg ''openwright.ledger_backends'' (''file://'' @ p) = Inr (File_Ledger p)"
  using builtin_members [of host_ok] file_uri_resolves [where eps = eps and host_ok = host_ok, OF _ assms] by metis

theorem file_uri_opens_path_witness:
  "\<exists>reg. builtin_registry (\<lambda>_. False) = Inr reg
    \<and> resolve_backend (\<lambda>_. [(''file'', Inl RuntimeError)]) reg ''openwright.ledger_backends'' ''file://data/ledger'' = Inr (File_Ledger ''data/ledger'')"
  using file_uri_opens_path [of "''data/ledger''" "\<lambda>_. [(''file'', Inl RuntimeError)]" "\<lambda>_. False"]
  by (simp add: plain_path_def installed_as_def map_filter_simps)

section \<open>Writers\<close>

lemma collector_authority_token:
  assumes "t \<noteq> []"
  obtains auth where "collector_authority (Some t) = Some auth"
    "\<And>header. authorize_bearer auth header WRITE_EVIDENCE \<longleftrightarrow> bearer_token header = Some t"
proof
  show "collector_authority (Some t) = Some (token_add t collector_writer (\<lambda>_. None))"
    using assms by (simp add: collector_authority_def non_empty_def)
  show "authorize_bearer (token_add t collector_writer (\<lambda>_. None)) header WRITE_EVIDENCE \<longleftrightarrow> bearer_token header = Some t" for header
    using assms by (auto simp: token_add_def authorize_bearer_def principal_for_def collector_writer_def
        has_capability_def split: option.splits if_splits)
qed

lemma collector_serves:
  assumes "collector_command eps reg up file_backend local_store load_key a = Inr (Serves su)"
  shows "su_config su = collector_config up (ca_agent_id a)" "su_authority su = collector_authority (ca_auth_token a)"
proof -
  obtain backend where "(case backend of None \<Rightarrow> Inr (Exits 2)
      | Some b \<Rightarrow>
          sbind (collector_scheduler eps reg local_store load_key a) (\<lambda>sched.
            Inr (Serves \<lparr>su_backend = b, su_config = collector_config up (ca_agent_id a),
              su_authority = collector_authority (ca_auth_token a), su_downstream = non_empty (ca_downstream a),
              su_grpc = (if ca_grpc_port a = Some 0 then None else ca_grpc_port a),
              su_scheduler = sched\<rparr>))) = Inr (Serves su)"
    using assms unfolding collector_command_def sbind_Inr_conv by blast
  then show "su_config su = collector_config up (ca_agent_id a)" "su_authority su = collector_authority (ca_auth_token a)"
    by (auto simp: sbind_Inr_conv split: option.splits)
qed

text \<open>
  C20. Who may write evidence to the process that \<open>openwright collector --auth-token\<close> starts: an HTTP request adds
  its spans exactly when it is for the traces route and presents that token, and any other is refused
  with 401 or 404 and leaves the pipeline as it was.  The gRPC server the same command starts gives anyone what HTTP
  keeps for the token: an \<open>Export\<close> does to the pipeline what an admitted request does.
\<close>
theorem collector_token:
  assumes "collector_command eps reg up file_backend local_store load_key a = Inr (Serves su)"
    "ca_auth_token a = Some t" "t \<noteq> []" "co_submit co = pipeline_submit (su_config su)"
    "co_authority co = su_authority su"
  shows "(if strip_slashes (rq_path rq) = ''/v1/traces'' \<and> bearer_token (rq_authorization rq) = Some t
      then fst (snd (do_POST co env rq (p, d)))
        = snd (fork_evidence (co_decode co) (pipeline_submit (su_config su) env) (rq_body rq) p)
      else fst (snd (do_POST co env rq (p, d))) = p \<and> fst (fst (do_POST co env rq (p, d))) \<in> {401, 404})
    \<and> grpc_export (pipeline_submit (su_config su) env) req p
      = snd (fork_evidence (\<lambda>_. Inr req) (pipeline_submit (su_config su) env) (rq_body rq) p)"
proof -
  obtain auth where auth: "collector_authority (Some t) = Some auth"
    "\<And>header. authorize_bearer auth header WRITE_EVIDENCE \<longleftrightarrow> bearer_token header = Some t"
    using collector_authority_token [OF assms(3)] by blast
  have co: "co_authority co = Some auth" "co_submit co = pipeline_submit (su_config su)"
    using collector_serves [OF assms(1)] assms(2,4,5) auth(1) by simp_all
  have admitted: "admitted co rq \<longleftrightarrow>
      strip_slashes (rq_path rq) = ''/v1/traces'' \<and> bearer_token (rq_authorization rq) = Some t"
    by (simp add: admitted_def co auth(2))
  have refused: "fst (fst (do_POST co env rq (p, d))) \<in> {401, 404}" if "\<not> admitted co rq"
    using that by (simp add: do_POST_parts proxy_def refusal_def)
  show ?thesis
    using admitted refused
    by (auto simp: do_POST_parts co(2) grpc_export_def fork_evidence_def pipeline_submit_def)
qed

definition sample_collector_args :: collector_args where
  "sample_collector_args = \<lparr>ca_ledger_dir = ''ledger'', ca_downstream = None, ca_grpc_port = Some 4317,
     ca_agent_id = None, ca_auth_token = Some ''s3cret'', ca_key = None, ca_checkpoint_interval = 0,
     ca_checkpoints = ''checkpoints'', ca_ledger_backend = None, ca_checkpoint_store = None\<rparr>"

definition sample_setup :: "string collector_setup" where
  "sample_setup = \<lparr>su_backend = ''ledger'', su_config = collector_config (\<lambda>_. True) None,
     su_authority = collector_authority (Some ''s3cret''), su_downstream = None, su_grpc = Some 4317, su_scheduler = None\<rparr>"

definition sample_request :: http_request where
  "sample_request = \<lparr>rq_path = ''/v1/traces'', rq_authorization = Some ''Bearer guess'', rq_content_type = None, rq_body = [1]\<rparr>"

definition sample_collector :: "(string pipe, unit) collector" where
  "sample_collector = \<lparr>co_submit = pipeline_submit (su_config sample_setup), co_forwarder = None,
     co_authority = su_authority sample_setup, co_decode = (\<lambda>_. Inr [])\<rparr>"

theorem collector_token_witness:
  "(\<forall>env (p :: string pipe). fst (snd (do_POST sample_collector env sample_request (p, ()))) = p)
    \<and> collector_command (\<lambda>_. []) [] (\<lambda>_. True) Inr id (\<lambda>_. Inl OSError) sample_collector_args = Inr (Serves sample_setup)"
proof -
  have serves: "collector_command (\<lambda>_. []) [] (\<lambda>_. True) Inr id (\<lambda>_. Inl OSError) sample_collector_args = Inr (Serves sample_setup)"
    by (simp add: collector_command_def collector_scheduler_def sample_collector_args_def sample_setup_def non_empty_def)
  have "ca_auth_token sample_collector_args = Some ''s3cret''" "co_submit sample_collector = pipeline_submit (su_config sample_setup)"
    "co_authority sample_collector = su_authority sample_setup"
    by (simp_all add: sample_collector_args_def sample_collector_def)
  note door = collector_token [OF serves this(1) _ this(2,3), simplified]
  have "bearer_token (rq_authorization sample_request) = Some ''guess''" by code_simp
  then have "fst (snd (do_POST sample_collector env sample_request (p, ()))) = p" for env and p :: "string pipe"
    using door [where rq = sample_request and env = env and p = p and d = "()"] by simp
  with serves show ?thesis by blast
qed

section \<open>The dashboard\<close>

text \<open> A report cannot add markup to the dashboard: whatever titles, times and ids the reports carry,
  the tags and quotes of the page are those of the page rendered with every text left out.
\<close>
theorem dashboard_markup:
  assumes "build_dashboard reports = Inr page"
  shows "\<exists>d. read_reports reports = Inr d \<and> page = render html_escape d
    \<and> markup page = markup (render (\<lambda>_. []) d)"
  using assms markup_render by (auto simp: build_dashboard_def sbind_Inr_conv)

definition sample_report :: json where
  "sample_report = JDict [(''generated_at'', JStr ''2025-01-01T00:00:00Z''), (''report_id'', JStr ''<script>''),
     (''controls'', JList [JDict [(''control_id'', JStr ''a''), (''status'', JStr ''satisfied'')]])]"

theorem dashboard_markup_witness:
  "\<exists>page d. build_dashboard [sample_report] = Inr page \<and> read_reports [sample_report] = Inr d
    \<and> markup page = markup (render (\<lambda>_. []) d)"
proof -
  have "isl (read_reports [sample_report]) = False" by code_simp
  then obtain d where "read_reports [sample_report] = Inr d" by (cases "read_reports [sample_report]") auto
  then have "build_dashboard [sample_report] = Inr (render html_escape d)" by (simp add: build_dashboard_def)
  from dashboard_markup [OF this] this show ?thesis by blast
qed

end
