(* ===== verification/Witness_Race.thy ===== *)
theory Witness_Race imports Witness begin

text \<open>
  \<open>witness_service.py\<close> serves each request in a thread of its own (\<open>ThreadingHTTPServer\<close>) and \<open>cosign\<close> takes no
  lock: the check against the last endorsed head and the endorsement are two steps between which other
  requests may run.  A step relation over the requests in flight; what it endorses when every check is followed by
  its own endorsement, and what it can endorse otherwise.
\<close>

section \<open>Requests in flight\<close>

datatype cosign_stage = Arrived | Checked | Endorsed | Turned_Away

record cosign_request =
  cq_checkpoint :: checkpoint
  cq_producer_key :: bytes
  cq_proof :: json

type_synonym in_flight = "(cosign_request \<times> cosign_stage) list"

text \<open>Steps 1 and 2 of \<open>cosign\<close>, against the head the thread reads.\<close>

definition cosign_check :: "ed_check \<Rightarrow> checkpoint option \<Rightarrow> cosign_request \<Rightarrow> bool" where
  "cosign_check ed last_cp rq \<longleftrightarrow> cp_verify ed (cq_checkpoint rq) (cq_producer_key rq) = Inr True
     \<and> extends_last last_cp (cq_checkpoint rq) (cq_proof rq) = Inr ()"

inductive service_step ::
  "ed_check \<Rightarrow> in_flight \<times> checkpoint option \<Rightarrow> in_flight \<times> checkpoint option \<Rightarrow> bool"
  for ed :: ed_check
where
  check: "i < length rqs \<Longrightarrow> rqs ! i = (rq, Arrived) \<Longrightarrow> cosign_check ed last_cp rq \<Longrightarrow>
    service_step ed (rqs, last_cp) (rqs[i := (rq, Checked)], last_cp)"
| turn_away: "i < length rqs \<Longrightarrow> rqs ! i = (rq, Arrived) \<Longrightarrow> \<not> cosign_check ed last_cp rq \<Longrightarrow>
    service_step ed (rqs, last_cp) (rqs[i := (rq, Turned_Away)], last_cp)"
| endorse: "i < length rqs \<Longrightarrow> rqs ! i = (rq, Checked) \<Longrightarrow>
    service_step ed (rqs, last_cp) (rqs[i := (rq, Endorsed)], Some (cq_checkpoint rq))"

inductive_cases service_stepE: "service_step ed s s'"

text \<open>A check and its endorsement with nothing in between are one call of \<open>cosign\<close>.\<close>

lemma cosign_check_then_endorse:
  "cosign_check ed (wit_last w) rq \<longleftrightarrow>
    (\<exists>cosig w'. cosign ed (cq_checkpoint rq) (cq_producer_key rq) (cq_proof rq) w = (Inr cosig, w')
       \<and> w' = w\<lparr>wit_last := Some (cq_checkpoint rq)\<rparr>)"
proof
  assume "cosign_check ed (wit_last w) rq"
  then have "cp_verify ed (cq_checkpoint rq) (cq_producer_key rq) = Inr True"
    "extends_last (wit_last w) (cq_checkpoint rq) (cq_proof rq) = Inr ()" by (simp_all add: cosign_check_def)
  from cosign_endorses [OF this] show "\<exists>cosig w'. cosign ed (cq_checkpoint rq) (cq_producer_key rq) (cq_proof rq) w = (Inr cosig, w')
       \<and> w' = w\<lparr>wit_last := Some (cq_checkpoint rq)\<rparr>" by metis
next
  assume "\<exists>cosig w'. cosign ed (cq_checkpoint rq) (cq_producer_key rq) (cq_proof rq) w = (Inr cosig, w')
       \<and> w' = w\<lparr>wit_last := Some (cq_checkpoint rq)\<rparr>"
  then obtain cosig w' where "cosign ed (cq_checkpoint rq) (cq_producer_key rq) (cq_proof rq) w = (Inr cosig, w')" by blast
  then show "cosign_check ed (wit_last w) rq"
    by (cases rule: cosign_cases) (simp_all add: cosign_check_def)
qed

section \<open>What a run endorses\<close>

definition endorsed_heads :: "in_flight \<Rightarrow> checkpoint set" where
  "endorsed_heads rqs = {cq_checkpoint rq |rq. (rq, Endorsed) \<in> set rqs}"

definition head_signed :: "ed_check \<Rightarrow> in_flight \<times> checkpoint option \<Rightarrow> bool" where
  "head_signed ed s \<longleftrightarrow> (\<forall>(rq, st) \<in> set (fst s). st \<in> {Checked, Endorsed} \<longrightarrow>
     cp_verify ed (cq_checkpoint rq) (cq_producer_key rq) = Inr True)"

lemma service_step_signed: "service_step ed s s' \<Longrightarrow> head_signed ed s \<Longrightarrow> head_signed ed s'"
  by (elim service_stepE; fastforce simp: head_signed_def cosign_check_def dest!: set_update_subset_insert [THEN subsetD] nth_mem)

text \<open>Under every interleaving only heads with a valid producer signature are endorsed.\<close>

lemma service_endorses_signed:
  assumes "(service_step ed)\<^sup>*\<^sup>* (map (\<lambda>rq. (rq, Arrived)) rqs, last_cp) (rqs', last')"
    "cp \<in> endorsed_heads rqs'"
  shows "\<exists>pub. cp_verify ed cp pub = Inr True"
proof -
  have "head_signed ed (rqs', last')"
    using assms(1)
  proof (induction rule: rtranclp_induct)
    case base
    show ?case by (auto simp: head_signed_def)
  next
    case (step s s')
    then show ?case by (blast intro: service_step_signed)
  qed
  with assms(2) show ?thesis by (fastforce simp: head_signed_def endorsed_heads_def)
qed

text \<open>
  The append-only check is lost between threads: any two requests that pass against the same last head
  can both be endorsed, whether or not one of their heads extends the other, and the later one becomes
  the head the next request is checked against even if it is the smaller.
\<close>

lemma witness_race:
  assumes "cosign_check ed last_cp a" "cosign_check ed last_cp b"
  shows "\<exists>rqs. (service_step ed)\<^sup>*\<^sup>* ([(a, Arrived), (b, Arrived)], last_cp) (rqs, Some (cq_checkpoint b))
    \<and> endorsed_heads rqs = {cq_checkpoint a, cq_checkpoint b}"
proof -
  have s1: "service_step ed ([(a, Arrived), (b, Arrived)], last_cp) ([(a, Checked), (b, Arrived)], last_cp)"
    using service_step.check [of 0 "[(a, Arrived), (b, Arrived)]" a ed last_cp] assms(1) by simp
  have s2: "service_step ed ([(a, Checked), (b, Arrived)], last_cp) ([(a, Checked), (b, Checked)], last_cp)"
    using service_step.check [of 1 "[(a, Checked), (b, Arrived)]" b ed last_cp] assms(2) by simp
  have s3: "service_step ed ([(a, Checked), (b, Checked)], last_cp) ([(a, Endorsed), (b, Checked)], Some (cq_checkpoint a))"
    using service_step.endorse [of 0 "[(a, Checked), (b, Checked)]" a ed last_cp] by simp
  have s4: "service_step ed ([(a, Endorsed), (b, Checked)], Some (cq_checkpoint a))
      ([(a, Endorsed), (b, Endorsed)], Some (cq_checkpoint b))"
    using service_step.endorse [of 1 "[(a, Endorsed), (b, Checked)]" b ed "Some (cq_checkpoint a)"] by simp
  have "(service_step ed)\<^sup>*\<^sup>* ([(a, Arrived), (b, Arrived)], last_cp) ([(a, Endorsed), (b, Endorsed)], Some (cq_checkpoint b))"
    using s1 s2 s3 s4 by (meson r_into_rtranclp rtranclp_trans)
  moreover have "endorsed_heads [(a, Endorsed), (b, Endorsed)] = {cq_checkpoint a, cq_checkpoint b}"
    by (auto simp: endorsed_heads_def)
  ultimately show ?thesis by blast
qed

text \<open>One after the other, the second of two heads is endorsed only if it follows the first.\<close>

lemma no_race_in_sequence:
  assumes "cosign_check ed (Some (cq_checkpoint a)) b"
  shows "follows (cq_checkpoint a) (cq_checkpoint b, cq_proof b)"
  using assms extends_last_conv by (auto simp: cosign_check_def)

end
