(* ===== verification/Spec2Isabelle.thy ===== *)
theory Spec2Isabelle imports Merkle_Properties Concurrency_Properties Verify_Properties
  Attestation_Properties Ingest_Properties Sdk_Properties Receipt_Properties Collector_Properties Cli_Properties Runtime_Properties Browser_Properties
  Side_Adapters Commands_Properties Witness_Race
begin

text \<open>
  A verification development for OpenWright (\<open>src/src/openwright\<close>), the evidence layer for AI agents.  Events
  about what an agent did are canonicalised and hashed, committed to an append-only ledger whose heads are
  Merkle roots, and the heads are signed as checkpoints.  A crosswalk (declarative controls) is evaluated
  over the events, and the signed report carries events, inclusion proofs and verdicts, so that an offline
  verifier can check it without the producer.  Telemetry enters through a collector and a pipeline, direct
  recordings through the SDK, signed receipts and scanner findings through adapters.

  \<^bold>\<open>Parts and theories.\<close>  Files are named relative to \<open>src/src/openwright\<close>.

  \<^item> Values of Python. \<open>Prelude\<close> (errors as a sum, binds), \<open>Py_Text\<close> (UTF-8, hex, base64, decimal texts),
    \<open>Py_Json\<close>, \<open>Py_Json_Roundtrip\<close>, \<open>Py_Json_Layout\<close> (\<open>json.dumps\<close> with its layouts, \<open>json.loads\<close>, and that reading
    inverts printing), \<open>Py_Values\<close> (equality, order, truth, \<open>int\<close>), \<open>Py_Repr\<close> (\<open>str\<close>, \<open>repr\<close>, decimals), \<open>Sha256\<close>, \<open>Sha512\<close>.
  \<^item> \<open>merkle.py\<close>: \<open>Merkle\<close> (heads, proof generators, iterative verifiers, shards), \<open>Merkle_Incremental\<close> (the frontier
    tree); \<open>Merkle_Paths\<close> and \<open>Merkle_Correct\<close> state the loops as walks along a path, \<open>Merkle_Properties\<close> the theorems.
  \<^item> \<open>canonical.py\<close>, \<open>events.py\<close>: \<open>Canonical\<close>, \<open>Timestamps\<close>, \<open>Events\<close>, with \<open>Event_Laws\<close> and \<open>Record_Properties\<close>.
  \<^item> \<open>ledger.py\<close>: \<open>Ledger_Backends\<close> (the contract \<open>ledger_backend\<close> as a locale, memory and file backends),
    \<open>Sql_Backend\<close>, \<open>Ledger\<close>, \<open>Retention\<close>, \<open>Ledger_Concurrent\<close> (threads that commit or take snapshots, a step
    for each statement, the lock as state), \<open>Sharded\<close>;
    \<open>Ledger_Laws\<close> proves the invariant once in the locale, \<open>Ledger_Properties\<close> and \<open>Concurrency_Properties\<close> instantiate it.
  \<^item> \<open>crosswalk.py\<close>, \<open>crosswalk_loader.py\<close>: \<open>Crosswalk\<close> (schema, predicates, evaluation), \<open>Crosswalk_Laws\<close> (the
    abstract verdict), \<open>Crosswalk_Loader\<close> (validation of the schema classes, loading by name or file).
  \<^item> \<open>signing.py\<close>, \<open>authz.py\<close>, \<open>identity.py\<close>, \<open>vault.py\<close>: \<open>Signing\<close>, \<open>Authz\<close>, \<open>Identity\<close>, \<open>Vault\<close>.
  \<^item> \<open>report.py\<close>, \<open>verify.py\<close>: \<open>Report\<close>, \<open>Report_Export\<close> (OSCAL and SARIF), \<open>Verify\<close>; \<open>Verify_Laws\<close> says what acceptance
    implies, \<open>Verify_Honest\<close> that honest reports pass, \<open>Verify_Properties\<close> states both.
  \<^item> \<open>browser_verifier.py\<close>, \<open>_ed25519_pure.py\<close>: \<open>Browser_Verifier\<close>, \<open>Ed25519_Pure\<close> (concrete arithmetic modulo
    \<open>2^255 - 19\<close>), \<open>Ed25519_Properties\<close>, \<open>Browser_Properties\<close>; \<open>spec.py\<close>: \<open>Spec\<close>.
  \<^item> \<open>witness.py\<close>, \<open>witness_service.py\<close>, \<open>anchor.py\<close>, \<open>checkpoint_store.py\<close>, \<open>scheduler.py\<close>: \<open>Witness\<close>, \<open>Anchor\<close>,
    \<open>Checkpoint_Store\<close> (the interface is the locale \<open>checkpoint_store\<close>), \<open>Scheduler\<close>, with \<open>Attestation_Properties\<close>;
    \<open>Witness_Race\<close> has the threads of the witness service as a step relation.
  \<^item> \<open>ingest\<close> and \<open>adapters\<close>: \<open>Spans\<close> (normalisation), \<open>Durable\<close> (drop journal, spill file), \<open>Pipeline\<close>; \<open>Pipeline_Laws\<close>
    is the step relation with its accounting invariant, \<open>Pipeline_Run\<close> interleaves the worker's
    loop with a thread in \<open>flush\<close>, whose moves it relates to those steps; \<open>Ingest_Properties\<close> instantiates
    them on the file ledger.  \<open>Collector\<close> and \<open>Collector_Properties\<close> are the HTTP and gRPC front,
    \<open>Receipts\<close> and \<open>Receipt_Properties\<close> signed receipts, \<open>Side_Adapters\<close> policy logs and SARIF.
  \<^item> \<open>sdk.py\<close>: \<open>Sdk\<close>, \<open>Sdk_Properties\<close>; \<open>runtime.py\<close>: \<open>Runtime\<close>, \<open>Runtime_Properties\<close>; \<open>cli.py\<close>: \<open>Cli\<close>, \<open>Cli_Properties\<close>
    (\<open>verify\<close>, \<open>gate\<close>, \<open>report\<close>) and \<open>Cli_Commands\<close> (the other commands, with \<open>sbom.py\<close>).
  \<^item> \<open>connectors\<close>, \<open>_instrument.py\<close>: \<open>Connectors\<close>; \<open>dashboard.py\<close>: \<open>Dashboard\<close>; \<open>Commands_Properties\<close> has the theorems on
    both, on the loader and on the wiring of the collector.

  \<^bold>\<open>What the lemmas show.\<close>  Soundness of hashing and proofs is never conditional on collision freedom: where a
  collision could break a claim, the theorem exhibits the two colliding inputs.  The chain of trust is closed
  end to end: an accepted report was signed by the trusted key, each event in it is the committed one, its
  verdicts follow from the events under the pinned crosswalk, and the gate of the command line passes only on
  such a report; conversely ledgers that ran the code produce reports both verifiers accept.  The ledger keeps
  history under any interleaving of threads and loses at most the record being written in a crash; ingestion
  accounts for every span; what the collector replies and forwards does not depend on its evidence part.  Some lemmas record where
  the code departs from its documents; they are named for what happens.

  \<^bold>\<open>How the model reads the code.\<close>  A \<open>str\<close> is the list of the bytes of its UTF-8 text, \<open>bytes\<close> a list of 8-bit
  words, \<open>int\<close> an unbounded integer, a \<open>dict\<close> an association list in insertion order, a float its text.  Every
  exception is a left value of a sum; messages are not modelled.  State (ledgers, backends, vaults, files,
  queues) is passed explicitly; files are their texts.  Clock readings, fresh ids, disk and network failures,
  and what other threads do between two reads are arguments.  The standard library is modelled where the code
  uses it; the tables of Unicode (\<open>isprintable\<close>, \<open>lower\<close>) are arguments.  Packages are arguments with named
  hypotheses: Ed25519 of \<open>cryptography\<close> (a signature made with a key verifies under it), PEM encoding (decoding
  inverts encoding), databases, object stores, YAML, protobuf.  The pure Ed25519 check is concrete, and an
  instance with it needs no such hypothesis.

  \<^bold>\<open>Bounds and fuel.\<close>  \<open>json.loads\<close> scans with a fuel of one more than the length of the text; each recursive call
  consumes a character, so it never runs out, and the round trips prove success.  \<open>flush\<close> and the
  worker carry no bound: a measure of what is spilled, queued and in hand decreases with each of their moves
  but the worker's idle ones, under every interleaving, and from every state \<open>flush\<close> can be brought to return.
  The threads of a ledger are bounded in the same way.  Loops over sizes terminate by measures.

  \<^bold>\<open>Not modelled.\<close>  Sockets, HTTP parsing, protobuf decoding and thread scheduling of the servers; drawing of the
  PDF report; the demonstrations and their HTML, and the command that runs them; the Go port and its
  interoperability script, benchmarks, examples and the JavaScript front ends; the content of the crosswalk
  documents, which are data.  The component list of the manifest gives the reason for each.
  Within modelled parts: pydantic's conversions of values of the wrong type (truth values of crosswalks apart) are errors, so that a published
  checkpoint with the size \<open>'5'\<close> counts as invalid; the runtime's other threads commit between evaluation and
  \<open>build_report\<close>, not during it; the requests of a collector session come one after the other; a spill write
  puts the whole line or nothing except in the theorem on torn lines; the journal can be written.
\<close>

end
